(* ===== verification/Prelude.thy ===== *)
theory Prelude
  imports Main "HOL-Library.Word"
begin

text \<open>
  Shared vocabulary of the development: the machine integers of
  \<^verbatim>\<open>RogueAssistantCpp/Inc/Defines.h\<close>, the result type that stands for a function returning
  \<^verbatim>\<open>bool\<close> with an \<^verbatim>\<open>std::string& error\<close> output, unsigned arithmetic on
  \<^verbatim>\<open>std::size_t\<close>, and the lemmas on lists, words and results that the components share.
\<close>

unbundle bit_operations_syntax

named_theorems codec_simps "equations that evaluate little-endian readers on concatenated fields"
named_theorems result_simps "equations of the error-or-value results"

type_synonym u8 = "8 word"
type_synonym u16 = "16 word"
type_synonym u32 = "32 word"
type_synonym u64 = "64 word"
type_synonym bytes = "u8 list"

text \<open>\<^verbatim>\<open>bool f(..., T& out, std::string& error)\<close>: the error text, or the output.\<close>

type_synonym 'a result = "string + 'a"

abbreviation Ok :: "'a \<Rightarrow> 'a result" where
  "Ok x \<equiv> Inr x"

abbreviation Err :: "string \<Rightarrow> 'a result" where
  "Err e \<equiv> Inl e"

definition is_ok :: "'a result \<Rightarrow> bool" where
  "is_ok r = (case r of Inl e \<Rightarrow> False | Inr x \<Rightarrow> True)"

definition require :: "bool \<Rightarrow> string \<Rightarrow> unit result" where
  "require c e = (if c then Ok () else Err e)"

definition andThen :: "'a result \<Rightarrow> ('a \<Rightarrow> 'b result) \<Rightarrow> 'b result" where
  "andThen r f = (case r of Inl e \<Rightarrow> Err e | Inr x \<Rightarrow> f x)"

lemma is_ok_simps [simp, result_simps]:
  "is_ok (Ok x)" "\<not> is_ok (Err e)"
  by (simp_all add: is_ok_def)

lemma is_ok_iff: "is_ok r \<longleftrightarrow> (\<exists>x. r = Ok x)"
  by (cases r) auto

lemma andThen_simps [simp, result_simps]:
  "andThen (Ok x) f = f x" "andThen (Err e) f = Err e"
  by (simp_all add: andThen_def)

lemma andThen_Ok_iff: "andThen r f = Ok y \<longleftrightarrow> (\<exists>x. r = Ok x \<and> f x = Ok y)"
  by (cases r) auto

lemma require_Ok_iff [simp, result_simps]: "require c e = Ok x \<longleftrightarrow> c"
  by (simp add: require_def)

section \<open>\<^verbatim>\<open>std::size_t\<close> arithmetic\<close>

text \<open>
  Sizes are natural numbers below \<open>2 ^ 64\<close>. A subtraction the source does not guard is
  \<open>size_sub\<close>, which wraps around as the unsigned C++ operator does: for sizes, \<open>b - a\<close> is
  itself below \<open>2 ^ 64\<close>, so the \<open>mod\<close> only keeps the value of a wrapped difference positive.
\<close>

definition size_max :: nat where
  "size_max = 2 ^ 64 - 1"

definition size_sub :: "nat \<Rightarrow> nat \<Rightarrow> nat" where
  "size_sub a b = (if b \<le> a then a - b else 2 ^ 64 - (b - a) mod 2 ^ 64)"

lemma size_sub_le [simp]: "b \<le> a \<Longrightarrow> size_sub a b = a - b"
  by (simp add: size_sub_def)

lemma size_sub_0_iff: "size_sub a b = 0 \<longleftrightarrow> a = b"
proof (cases "b \<le> a")
  case False
  have "(b - a) mod 2 ^ 64 < 2 ^ 64" by simp
  with False show ?thesis unfolding size_sub_def by (simp del: mod_less_divisor power_numeral)
qed auto

lemma unat_ucast_u32 [simp]: "unat (ucast (b :: u8) :: u32) = unat b"
proof -
  have "unat b < 2 ^ 8" using unsigned_less [of b, where ?'a = nat] by simp
  then show ?thesis by (simp add: unsigned_ucast_eq take_bit_nat_eq_self_iff)
qed

section \<open>Characters and bytes\<close>

text \<open>\<^verbatim>\<open>std::string\<close> holds bytes; a \<^typ>\<open>char\<close> is one byte.\<close>

definition byte_of_char :: "char \<Rightarrow> u8" where
  "byte_of_char c = of_char c"

definition char_of_byte :: "u8 \<Rightarrow> char" where
  "char_of_byte b = char_of (unat b)"

lemma byte_of_char_of_byte [simp]: "byte_of_char (char_of_byte b) = b"
proof -
  have "unat b < 256" using unsigned_less [of b, where ?'a = nat] by simp
  then have "of_char (char_of (unat b) :: char) = unat b" by simp
  then have "(of_char (char_of (unat b) :: char) :: u8) = of_nat (unat b)"
    by (metis of_nat_of_char)
  then show ?thesis by (simp add: byte_of_char_def char_of_byte_def)
qed

lemma char_of_byte_of_char [simp]: "char_of_byte (byte_of_char c) = c"
proof -
  have "(of_char c :: u8) = of_nat (of_char c)" by (simp add: of_nat_of_char)
  then have "unat (of_char c :: u8) = of_char c" by (simp add: unat_of_nat)
  then show ?thesis by (simp add: byte_of_char_def char_of_byte_def)
qed

end
