(* ===== verification/Endian.thy ===== *)
theory Endian
  imports Prelude
begin

text \<open>
  \<^verbatim>\<open>RogueAssistantCpp/Inc/Endian.h\<close>: reading, writing and appending unsigned or signed
  integers of \<^verbatim>\<open>sizeof(T)\<close> bytes in little-endian order. A signed \<^verbatim>\<open>T\<close> is bit-cast to and
  from its unsigned type by the code, so both are the same \<^typ>\<open>'a word\<close> here.
\<close>

definition sizeof :: "'a::len itself \<Rightarrow> nat" where
  "sizeof T = LENGTH('a) div 8"

text \<open>\<^verbatim>\<open>ReadLittle\<close> gives its \<^verbatim>\<open>bool\<close> and the value stored in \<^verbatim>\<open>value\<close> (zero on failure).\<close>

definition ReadLittle :: "bytes \<Rightarrow> nat \<Rightarrow> bool \<times> 'a::len word" where
  "ReadLittle bs offset =
     (if offset > length bs \<or> sizeof TYPE('a) > length bs - offset then (False, 0)
      else (True, foldl (\<lambda>encoded index. encoded OR push_bit (index * 8) (ucast (bs ! (offset + index))))
                    0 [0..<sizeof TYPE('a)]))"

definition WriteLittle :: "bytes \<Rightarrow> nat \<Rightarrow> 'a::len word \<Rightarrow> bool \<times> bytes" where
  "WriteLittle bs offset v =
     (if offset > length bs \<or> sizeof TYPE('a) > length bs - offset then (False, bs)
      else (True, foldl (\<lambda>b index. b[offset + index := ucast (drop_bit (index * 8) v)])
                    bs [0..<sizeof TYPE('a)]))"

definition AppendLittle :: "bytes \<Rightarrow> 'a::len word \<Rightarrow> bytes" where
  "AppendLittle bs v =
     snd (WriteLittle (bs @ replicate (sizeof TYPE('a)) 0) (length bs) v)"

section \<open>The encoding as a list of bytes\<close>

definition le_bytes :: "'a::len word \<Rightarrow> bytes" where
  "le_bytes v = map (\<lambda>index. ucast (drop_bit (index * 8) v)) [0..<sizeof TYPE('a)]"

lemma length_le_bytes [simp]: "length (le_bytes (v :: 'a::len word)) = sizeof TYPE('a)"
  by (simp add: le_bytes_def)

lemma sizeof_simps [simp]:
  "sizeof TYPE(8) = 1" "sizeof TYPE(16) = 2" "sizeof TYPE(32) = 4" "sizeof TYPE(64) = 8"
  by (simp_all add: sizeof_def)

lemma foldl_update_upt:
  "off + n \<le> length bs \<Longrightarrow>
   foldl (\<lambda>b i. b[off + i := f i]) bs [0..<n] = take off bs @ map f [0..<n] @ drop (off + n) bs"
proof (induction n)
  case (Suc n)
  then have "foldl (\<lambda>b i. b[off + i := f i]) bs [0..<Suc n]
      = (take off bs @ map f [0..<n] @ drop (off + n) bs)[off + n := f n]"
    by simp
  also have "\<dots> = take off bs @ map f [0..<n] @ (drop (off + n) bs)[0 := f n]"
    using Suc.prems by (simp add: list_update_append)
  also have "(drop (off + n) bs)[0 := f n] = f n # drop (Suc (off + n)) bs"
    using Suc.prems by (simp add: Cons_nth_drop_Suc [symmetric])
  finally show ?case by simp
qed simp

lemma WriteLittle_eq:
  fixes v :: "'a::len word"
  assumes "off + sizeof TYPE('a) \<le> length bs"
  shows "WriteLittle bs off v = (True, take off bs @ le_bytes v @ drop (off + sizeof TYPE('a)) bs)"
  using assms by (simp add: WriteLittle_def le_bytes_def foldl_update_upt)

lemma AppendLittle_eq [simp]: "AppendLittle bs v = bs @ le_bytes v"
  by (simp add: AppendLittle_def WriteLittle_eq)

lemma WriteLittle_length: "length (snd (WriteLittle bs off v)) = length bs"
proof -
  have "length (foldl (\<lambda>b i. b[off + i := f i]) bs is) = length bs" for f "is"
    by (induction "is" arbitrary: bs) simp_all
  then show ?thesis by (simp add: WriteLittle_def)
qed

section \<open>Reading bit by bit\<close>

lemma bit_byte_False: "8 \<le> n \<Longrightarrow> \<not> bit (b :: u8) n"
  by (auto dest: bit_imp_le_length)

lemma bit_read_fold:
  "bit (foldl (\<lambda>encoded index. encoded OR push_bit (index * 8) (ucast (bs ! (off + index)))) (0 :: 'a::len word)
      [0..<n]) k \<longleftrightarrow> k < LENGTH('a) \<and> k < 8 * n \<and> bit (bs ! (off + k div 8) :: u8) (k mod 8)"
proof (induction n)
  case (Suc n)
  let ?b = "bs ! (off + n)"
  let ?fold = "\<lambda>m. foldl (\<lambda>encoded index. encoded OR push_bit (index * 8) (ucast (bs ! (off + index)))) (0 :: 'a word)
    [0..<m]"
  have step: "bit (?fold (Suc n)) k \<longleftrightarrow> bit (?fold n) k
      \<or> n * 8 \<le> k \<and> k < LENGTH('a) \<and> bit ?b (k - n * 8)"
    by (auto simp: bit_or_iff bit_push_bit_iff bit_ucast_iff)
  consider "k < n * 8" | "n * 8 \<le> k" "k < Suc n * 8" | "Suc n * 8 \<le> k" by linarith
  then show ?case unfolding step Suc
  proof cases
    case 2
    then obtain j where k: "k = n * 8 + j" and j: "j < 8"
      by (metis add_less_cancel_left le_Suc_ex mult_Suc add.commute)
    have "k div 8 = n" "k mod 8 = j" "k - n * 8 = j" "k < 8 * n \<longleftrightarrow> False" "k < 8 * Suc n \<longleftrightarrow> True"
      "n * 8 \<le> k \<longleftrightarrow> True"
      using j by (simp_all add: k)
    then show "(k < LENGTH('a) \<and> k < 8 * n \<and> bit (bs ! (off + k div 8)) (k mod 8)
      \<or> n * 8 \<le> k \<and> k < LENGTH('a) \<and> bit ?b (k - n * 8))
      = (k < LENGTH('a) \<and> k < 8 * Suc n \<and> bit (bs ! (off + k div 8)) (k mod 8))" by (simp only: simp_thms)
  qed (auto simp: bit_byte_False)
qed simp

lemma bit_le_bytes:
  fixes v :: "'a::len word"
  assumes "i < sizeof TYPE('a)"
  shows "bit (le_bytes v ! i) j \<longleftrightarrow> j < 8 \<and> bit v (i * 8 + j)"
  using assms by (simp add: le_bytes_def bit_ucast_iff bit_drop_bit_eq)

text \<open>A successful read returns the word whose encoding stands at the offset.\<close>

lemma ReadLittle_sound:
  fixes v :: "'a::len word"
  assumes dvd: "8 dvd LENGTH('a)" and read: "ReadLittle bs off = (True, v)"
  shows "off + sizeof TYPE('a) \<le> length bs \<and> le_bytes v = take (sizeof TYPE('a)) (drop off bs)"
proof -
  from read have len: "off + sizeof TYPE('a) \<le> length bs"
    by (auto simp: ReadLittle_def split: if_splits)
  have size: "sizeof TYPE('a) * 8 = LENGTH('a)" using dvd by (simp add: sizeof_def)
  have "le_bytes v ! i = bs ! (off + i)" if i: "i < sizeof TYPE('a)" for i
  proof (rule bit_eqI)
    fix j assume "possible_bit TYPE(8 word) j"
    then have j: "j < 8" by simp
    from i have "i * 8 + 8 \<le> LENGTH('a)" using size by linarith
    with j have "i * 8 + j < LENGTH('a)" "(i * 8 + j) div 8 = i" "(i * 8 + j) mod 8 = j"
      by simp_all
    moreover have "v = foldl (\<lambda>encoded index. encoded OR push_bit (index * 8) (ucast (bs ! (off + index)))) 0
        [0..<sizeof TYPE('a)]"
      using read by (auto simp: ReadLittle_def split: if_splits)
    ultimately show "bit (le_bytes v ! i) j = bit (bs ! (off + i)) j"
      using i j size by (simp add: bit_le_bytes bit_read_fold)
  qed
  then have "le_bytes v = take (sizeof TYPE('a)) (drop off bs)"
    using len by (intro nth_equalityI) (simp_all add: nth_append)
  with len show ?thesis by simp
qed

lemma ReadLittle_complete:
  fixes v :: "'a::len word"
  assumes dvd: "8 dvd LENGTH('a)" and len: "off + sizeof TYPE('a) \<le> length bs"
    and eq: "le_bytes v = take (sizeof TYPE('a)) (drop off bs)"
  shows "ReadLittle bs off = (True, v)"
proof -
  have size: "sizeof TYPE('a) * 8 = LENGTH('a)" using dvd by (simp add: sizeof_def)
  have byte: "bs ! (off + i) = le_bytes v ! i" if "i < sizeof TYPE('a)" for i
    using that len by (simp add: eq)
  have "foldl (\<lambda>encoded index. encoded OR push_bit (index * 8) (ucast (bs ! (off + index)))) 0
      [0..<sizeof TYPE('a)] = v" (is "?r = v")
  proof (rule bit_word_eqI)
    fix k assume k: "k < LENGTH('a)"
    then have "k div 8 < sizeof TYPE('a)" using size by (simp add: sizeof_def less_mult_imp_div_less)
    then show "bit ?r k = bit v k"
      using k size by (simp add: bit_read_fold byte bit_le_bytes)
  qed
  then show ?thesis using len by (simp add: ReadLittle_def)
qed

lemma ReadLittle_append_skip [codec_simps]:
  "length pre \<le> off \<Longrightarrow> ReadLittle (pre @ bs) off = ReadLittle bs (off - length pre)"
  by (auto simp: ReadLittle_def nth_append intro!: foldl_cong)

lemma ReadLittle_Cons_skip [codec_simps]:
  "0 < off \<Longrightarrow> ReadLittle (b # bs) off = ReadLittle bs (off - 1)"
  using ReadLittle_append_skip [of "[b]" off bs] by simp

lemma ReadLittle_le_bytes:
  fixes v :: "'a::len word"
  assumes "8 dvd LENGTH('a)"
  shows "ReadLittle (le_bytes v @ bs) 0 = (True, v)"
  using assms by (intro ReadLittle_complete) simp_all

lemma ReadLittle_le_bytes_u8 [codec_simps]: "ReadLittle (le_bytes (v :: u8) @ bs) 0 = (True, v)"
  by (rule ReadLittle_le_bytes) simp

lemma ReadLittle_le_bytes_u16 [codec_simps]: "ReadLittle (le_bytes (v :: u16) @ bs) 0 = (True, v)"
  by (rule ReadLittle_le_bytes) simp

lemma ReadLittle_le_bytes_u32 [codec_simps]: "ReadLittle (le_bytes (v :: u32) @ bs) 0 = (True, v)"
  by (rule ReadLittle_le_bytes) simp

lemma ReadLittle_le_bytes_u64 [codec_simps]: "ReadLittle (le_bytes (v :: u64) @ bs) 0 = (True, v)"
  by (rule ReadLittle_le_bytes) simp

lemma ReadLittle_le_bytes_end [codec_simps]:
  "ReadLittle (le_bytes (v :: u16)) 0 = (True, v)" "ReadLittle (le_bytes (w :: u32)) 0 = (True, w)"
  using ReadLittle_le_bytes_u16 [of v "[]"] ReadLittle_le_bytes_u32 [of w "[]"] by simp_all

lemma ReadLittle_fst:
  "fst (ReadLittle bs off :: bool \<times> 'a::len word) \<longleftrightarrow> off + sizeof TYPE('a) \<le> length bs"
  by (auto simp: ReadLittle_def)

lemma ReadLittle_split:
  fixes v :: "'a::len word"
  assumes "8 dvd LENGTH('a)" and "ReadLittle bs off = (True, v)"
  shows "bs = take off bs @ le_bytes v @ drop (off + sizeof TYPE('a)) bs"
  using ReadLittle_sound [OF assms] by (metis append_take_drop_id drop_drop add.commute)

lemma le_bytes_inject:
  fixes v w :: "'a::len word"
  assumes "8 dvd LENGTH('a)" and "le_bytes v = le_bytes w"
  shows "v = w"
  using ReadLittle_le_bytes [OF assms(1), of v "[]"] ReadLittle_le_bytes [OF assms(1), of w "[]"] assms(2)
  by simp

text \<open>Reading a field peels it off the bytes that start at its offset.\<close>

lemma drop_ReadLittle:
  assumes "8 dvd LENGTH('a::len)" and "off + sizeof TYPE('a) \<le> length bs"
  shows "drop off bs = le_bytes (snd (ReadLittle bs off) :: 'a word) @ drop (off + sizeof TYPE('a)) bs"
proof -
  have "ReadLittle bs off = (True, snd (ReadLittle bs off) :: 'a word)"
    using assms(2) by (metis ReadLittle_fst prod.collapse)
  from ReadLittle_sound [OF assms(1) this] show ?thesis
    by (metis append_take_drop_id drop_drop add.commute)
qed

lemma drop_ReadLittle_u16:
  "off + 2 \<le> length bs \<Longrightarrow> drop off bs = le_bytes (snd (ReadLittle bs off) :: u16) @ drop (off + 2) bs"
  using drop_ReadLittle [where 'a = 16, of off bs] by simp

lemma drop_ReadLittle_u32:
  "off + 4 \<le> length bs \<Longrightarrow> drop off bs = le_bytes (snd (ReadLittle bs off) :: u32) @ drop (off + 4) bs"
  using drop_ReadLittle [where 'a = 32, of off bs] by simp

section \<open>The codec laws of the header\<close>

text \<open>
  Little-endian round trip: a value written into a buffer at an offset where it fits is the
  value read back there, every other byte of the buffer is unchanged, and the buffer keeps its
  length. The lines of the code are generic in the width; this is stated for every width that is
  a number of whole bytes.
\<close>

theorem write_read_little:
  fixes v :: "'a::len word"
  assumes "8 dvd LENGTH('a)" and "off + sizeof TYPE('a) \<le> length bs"
  shows "\<exists>bs'. WriteLittle bs off v = (True, bs') \<and> ReadLittle bs' off = (True, v)
    \<and> length bs' = length bs
    \<and> (\<forall>i < length bs. i < off \<or> off + sizeof TYPE('a) \<le> i \<longrightarrow> bs' ! i = bs ! i)"
proof -
  let ?bs' = "take off bs @ le_bytes v @ drop (off + sizeof TYPE('a)) bs"
  have "ReadLittle ?bs' off = (True, v)"
    using assms by (intro ReadLittle_complete) simp_all
  moreover have "\<forall>i < length bs. i < off \<or> off + sizeof TYPE('a) \<le> i \<longrightarrow> ?bs' ! i = bs ! i"
    using assms(2) by (auto simp: nth_append)
  ultimately show ?thesis
    using assms(2) by (intro exI [of _ ?bs']) (simp add: WriteLittle_eq)
qed

theorem write_read_little_witness:
  "\<exists>bs'. WriteLittle [9, 9, 9, 9, 9, 9] 1 (0x12345678 :: u32) = (True, bs')
     \<and> ReadLittle bs' 1 = (True, 0x12345678 :: u32)"
  using write_read_little [where v = "0x12345678 :: u32" and off = 1 and bs = "[9, 9, 9, 9, 9, 9]"]
  by auto

end
