(* ===== verification/Utf8.thy ===== *)
theory Utf8
  imports Prelude
begin

text \<open>
  \<^verbatim>\<open>RogueAssistantCpp/Src/Platform/Utf8.cpp\<close>: \<^verbatim>\<open>IsValidUtf8\<close>, the validator that guards the
  diagnostics of the bridge and the join address of the settings. The path conversions of the
  file only call \<^verbatim>\<open>std::filesystem\<close>. The text is the list of its bytes.
\<close>

section \<open>The validator\<close>

text \<open>The classification of a lead byte above 0x7F: continuation count, initial bits, minimum.\<close>

definition Utf8Lead :: "u8 \<Rightarrow> (nat \<times> u32 \<times> u32) option" where
  "Utf8Lead lead =
     (if lead AND 0xE0 = 0xC0 then Some (1, ucast (lead AND 0x1F), 0x80)
      else if lead AND 0xF0 = 0xE0 then Some (2, ucast (lead AND 0x0F), 0x800)
      else if lead AND 0xF8 = 0xF0 then Some (3, ucast (lead AND 0x07), 0x10000)
      else None)"

text \<open>The inner loop over the \<open>n\<close> continuation bytes that are left, from \<open>offset\<close> on.\<close>

fun Utf8Continuations :: "bytes \<Rightarrow> nat \<Rightarrow> nat \<Rightarrow> nat \<Rightarrow> u32 \<Rightarrow> u32 option" where
  "Utf8Continuations text index offset 0 codePoint = Some codePoint"
| "Utf8Continuations text index offset (Suc n) codePoint =
     (let continuation = text ! (index + offset) in
      if continuation AND 0xC0 \<noteq> 0x80 then None
      else Utf8Continuations text index (Suc offset) n
             (push_bit 6 codePoint OR ucast (continuation AND 0x3F)))"

function IsValidUtf8From :: "bytes \<Rightarrow> nat \<Rightarrow> bool" where
  "IsValidUtf8From text index =
     (if index < length text then
        (let lead = text ! index in
         if lead \<le> 0x7F then IsValidUtf8From text (index + 1)
         else case Utf8Lead lead of
             None \<Rightarrow> False
           | Some (continuationCount, codePoint, minimum) \<Rightarrow>
               if continuationCount > length text - index - 1 then False
               else (case Utf8Continuations text index 1 continuationCount codePoint of
                   None \<Rightarrow> False
                 | Some cp \<Rightarrow>
                     if cp < minimum \<or> cp > 0x10FFFF \<or> (cp \<ge> 0xD800 \<and> cp \<le> 0xDFFF) then False
                     else IsValidUtf8From text (index + (continuationCount + 1))))
      else True)"
  by pat_completeness auto
termination
  by (relation "measure (\<lambda>(text, index). length text - index)") auto

declare IsValidUtf8From.simps [simp del]

definition IsValidUtf8 :: "bytes \<Rightarrow> bool" where
  "IsValidUtf8 text = IsValidUtf8From text 0"

section \<open>The encoding the validator stands for\<close>

definition scalar_value :: "nat \<Rightarrow> bool" where
  "scalar_value cp \<longleftrightarrow> cp \<le> 0x10FFFF \<and> \<not> (0xD800 \<le> cp \<and> cp \<le> 0xDFFF)"

fun utf8_units :: "nat \<Rightarrow> nat list" where
  "utf8_units cp =
     (if cp < 0x80 then [cp]
      else if cp < 0x800 then [0xC0 + cp div 64, 0x80 + cp mod 64]
      else if cp < 0x10000 then [0xE0 + cp div 4096, 0x80 + cp div 64 mod 64, 0x80 + cp mod 64]
      else [0xF0 + cp div 262144, 0x80 + cp div 4096 mod 64, 0x80 + cp div 64 mod 64, 0x80 + cp mod 64])"

declare utf8_units.simps [simp del]

definition utf8_encode :: "nat \<Rightarrow> bytes" where
  "utf8_encode cp = map word_of_nat (utf8_units cp)"

definition utf8_text :: "bytes \<Rightarrow> bool" where
  "utf8_text bs \<longleftrightarrow> (\<exists>cps. list_all scalar_value cps \<and> bs = concat (map utf8_encode cps))"

lemma utf8_text_Nil [simp]: "utf8_text []"
  by (auto simp: utf8_text_def intro: exI [of _ "[]"])

lemma utf8_units_nonempty [simp]: "utf8_units cp \<noteq> []"
  by (simp add: utf8_units.simps)

lemma utf8_text_step:
  assumes "bs \<noteq> []"
  shows "utf8_text bs \<longleftrightarrow> (\<exists>cp rest. scalar_value cp \<and> bs = utf8_encode cp @ rest \<and> utf8_text rest)"
    (is "_ \<longleftrightarrow> ?R")
proof
  assume "utf8_text bs"
  then obtain cps where "list_all scalar_value cps" "bs = concat (map utf8_encode cps)"
    by (auto simp: utf8_text_def)
  with assms show ?R by (cases cps) (auto simp: utf8_text_def)
next
  assume ?R
  then obtain cp cps where "scalar_value cp" "list_all scalar_value cps"
      "bs = utf8_encode cp @ concat (map utf8_encode cps)"
    by (auto simp: utf8_text_def)
  then show "utf8_text bs" by (auto simp: utf8_text_def intro!: exI [of _ "cp # cps"])
qed

section \<open>The masks of the validator as arithmetic\<close>

lemma u8_eq_iff:
  "a = b \<longleftrightarrow> bit a 0 = bit b 0 \<and> bit a 1 = bit b 1 \<and> bit a 2 = bit b 2 \<and> bit a 3 = bit b 3
     \<and> bit a 4 = bit b 4 \<and> bit a 5 = bit b 5 \<and> bit a 6 = bit b 6 \<and> bit a 7 = bit (b :: u8) 7"
  (is "_ = ?R")
proof
  assume R: ?R
  show "a = b"
  proof (rule bit_word_eqI)
    fix n assume "n < LENGTH(8)"
    then have "n \<in> {0, 1, 2, 3, 4, 5, 6, 7}" by simp linarith
    then show "bit a n = bit b n" using R by (elim insertE) simp_all
  qed
qed simp

lemma bit_u8_ge: "8 \<le> n \<Longrightarrow> bit (b :: u8) n = False"
  by (auto dest: bit_imp_le_length)

lemma drop_bit_eq_iff: "(drop_bit n (b :: u8) = v) = (unat b div 2 ^ n = unat v)"
  by (metis drop_bit_eq_div unat_drop_bit_eq word_unat_eq_iff)

lemma lead_masks:
  "((b :: u8) AND 0xE0 = 0xC0) = (drop_bit 5 b = 6)" "(b AND 0xF0 = 0xE0) = (drop_bit 4 b = 14)"
  "(b AND 0xF8 = 0xF0) = (drop_bit 3 b = 30)" "(b AND 0xC0 = 0x80) = (drop_bit 6 b = 2)"
  by (auto simp add: u8_eq_iff bit_and_iff bit_drop_bit_eq bit_u8_ge)

lemma byte_masks:
  "((b :: u8) AND 0xE0 = 0xC0) = (unat b div 32 = 6)" "(b AND 0xF0 = 0xE0) = (unat b div 16 = 14)"
  "(b AND 0xF8 = 0xF0) = (unat b div 8 = 30)" "(b AND 0xC0 = 0x80) = (unat b div 64 = 2)"
  by (simp_all add: lead_masks drop_bit_eq_iff)

lemma unat_and_mask: "unat (b AND mask n :: 'a :: len word) = unat b mod 2 ^ n"
  by (metis take_bit_eq_mask take_bit_eq_mod unsigned_take_bit_eq)

lemma byte_payloads:
  "unat (b AND 0x1F :: u8) = unat b mod 32" "unat (b AND 0x0F :: u8) = unat b mod 16"
  "unat (b AND 0x07 :: u8) = unat b mod 8" "unat (b AND 0x3F :: u8) = unat b mod 64"
  using unat_and_mask [of b 5] unat_and_mask [of b 4] unat_and_mask [of b 3] unat_and_mask [of b 6]
  by (simp_all add: mask_eq_exp_minus_1)

lemma unat_shift_or:
  assumes "unat cp < 2 ^ 26"
  shows "unat (push_bit 6 cp OR ucast (c AND 0x3F :: u8) :: u32) = unat cp * 64 + unat c mod 64"
proof -
  let ?x = "ucast (c AND 0x3F) :: u32"
  have x: "unat ?x = unat c mod 64" by (simp add: byte_payloads)
  have "push_bit 6 cp AND ?x = 0"
  proof (rule bit_word_eqI)
    fix n assume "n < LENGTH(32)"
    have "bit (0x3F :: u8) k \<longleftrightarrow> k < 6" for k
      using bit_mask_iff [of 6 k, where ?'a = "8 word"] by (auto simp: mask_eq_exp_minus_1)
    then show "bit (push_bit 6 cp AND ?x) n = bit 0 n"
      by (auto simp: bit_and_iff bit_push_bit_iff bit_ucast_iff)
  qed
  then have "push_bit 6 cp OR ?x = push_bit 6 cp + ?x"
    using word_plus_and_or [of "push_bit 6 cp" ?x] by (simp del: word_plus_and_or)
  then have eq: "push_bit 6 cp OR ?x = cp * 64 + ?x" by (simp add: push_bit_eq_mult)
  have "unat (cp * 64) = unat cp * 64" using assms by (simp add: unat_word_ariths)
  then show ?thesis using assms x by (simp add: eq unat_word_ariths)
qed

section \<open>One character\<close>

text \<open>The bytes of an encoded character, read as numbers.\<close>

lemma utf8_units_bound: "scalar_value cp \<Longrightarrow> u \<in> set (utf8_units cp) \<Longrightarrow> u < 256"
  by (auto simp: utf8_units.simps scalar_value_def split: if_splits)

lemma map_unat_encode:
  assumes "scalar_value cp"
  shows "map unat (utf8_encode cp) = utf8_units cp"
proof -
  have "map (unat \<circ> (word_of_nat :: nat \<Rightarrow> u8)) us = us" if "\<forall>u \<in> set us. u < 256" for us
    using that by (induction us) (simp_all add: unat_of_nat)
  then show ?thesis using utf8_units_bound [OF assms] by (simp add: utf8_encode_def)
qed

lemma encode_prefix_iff:
  assumes "scalar_value cp"
  shows "bs = utf8_encode cp @ rest \<longleftrightarrow> map unat bs = utf8_units cp @ map unat rest"
proof -
  have inj: "inj (unat :: u8 \<Rightarrow> nat)" by (simp add: inj_def word_unat_eq_iff)
  show ?thesis using inj_map_eq_map [OF inj, of bs "utf8_encode cp @ rest"] map_unat_encode [OF assms] by simp
qed

text \<open>What the first byte says about the character.\<close>

lemma units_class:
  assumes "utf8_units cp @ rest = b # ys"
  shows "cp < 0x80 \<and> b = cp \<and> rest = ys
    \<or> 0x80 \<le> cp \<and> cp < 0x800 \<and> b = 0xC0 + cp div 64 \<and> ys = (0x80 + cp mod 64) # rest
    \<or> 0x800 \<le> cp \<and> cp < 0x10000 \<and> b = 0xE0 + cp div 4096
        \<and> ys = (0x80 + cp div 64 mod 64) # (0x80 + cp mod 64) # rest
    \<or> 0x10000 \<le> cp \<and> b = 0xF0 + cp div 262144
        \<and> ys = (0x80 + cp div 4096 mod 64) # (0x80 + cp div 64 mod 64) # (0x80 + cp mod 64) # rest"
  using assms by (auto simp: utf8_units.simps split: if_splits)

text \<open>One character of a byte sequence, decoded on numbers: its value and its length.\<close>

definition continuation :: "nat \<Rightarrow> bool" where
  "continuation c \<longleftrightarrow> c div 64 = 2"

fun decode_units :: "nat list \<Rightarrow> (nat \<times> nat) option" where
  "decode_units [] = None"
| "decode_units (b # ys) =
     (if b < 128 then Some (b, 1)
      else if b div 32 = 6 then
        (case ys of
           c # _ \<Rightarrow> (let cp = b mod 32 * 64 + c mod 64 in
             if continuation c \<and> 0x80 \<le> cp \<and> scalar_value cp then Some (cp, 2) else None)
         | [] \<Rightarrow> None)
      else if b div 16 = 14 then
        (case ys of
           c # d # _ \<Rightarrow> (let cp = (b mod 16 * 64 + c mod 64) * 64 + d mod 64 in
             if continuation c \<and> continuation d \<and> 0x800 \<le> cp \<and> scalar_value cp then Some (cp, 3) else None)
         | _ \<Rightarrow> None)
      else if b div 8 = 30 then
        (case ys of
           c # d # e # _ \<Rightarrow> (let cp = ((b mod 8 * 64 + c mod 64) * 64 + d mod 64) * 64 + e mod 64 in
             if continuation c \<and> continuation d \<and> continuation e \<and> 0x10000 \<le> cp \<and> scalar_value cp
             then Some (cp, 4) else None)
         | _ \<Rightarrow> None)
      else None)"

lemma decode_units_2:
  assumes "\<not> b < 128" "b div 32 = 6"
  shows "decode_units (b # ys) = (case ys of
       c # _ \<Rightarrow> (let cp = b mod 32 * 64 + c mod 64 in
         if continuation c \<and> 0x80 \<le> cp \<and> scalar_value cp then Some (cp, 2) else None)
     | [] \<Rightarrow> None)"
  using assms by (simp only: decode_units.simps if_False if_True simp_thms)

lemma decode_units_3:
  assumes "\<not> b < 128" "b div 32 \<noteq> 6" "b div 16 = 14"
  shows "decode_units (b # ys) = (case ys of
       c # d # _ \<Rightarrow> (let cp = (b mod 16 * 64 + c mod 64) * 64 + d mod 64 in
         if continuation c \<and> continuation d \<and> 0x800 \<le> cp \<and> scalar_value cp then Some (cp, 3) else None)
     | _ \<Rightarrow> None)"
  using assms by (simp only: decode_units.simps if_False if_True simp_thms)

lemma decode_units_4:
  assumes "\<not> b < 128" "b div 32 \<noteq> 6" "b div 16 \<noteq> 14" "b div 8 = 30"
  shows "decode_units (b # ys) = (case ys of
       c # d # e # _ \<Rightarrow> (let cp = ((b mod 8 * 64 + c mod 64) * 64 + d mod 64) * 64 + e mod 64 in
         if continuation c \<and> continuation d \<and> continuation e \<and> 0x10000 \<le> cp \<and> scalar_value cp
         then Some (cp, 4) else None)
     | _ \<Rightarrow> None)"
  using assms by (simp only: decode_units.simps if_False if_True simp_thms)

lemma split_part: "m div k = q \<Longrightarrow> m = q * k + m mod k" for m :: nat
  by (metis div_mult_mod_eq)

lemma split_unit: "continuation m \<Longrightarrow> \<exists>y < 64. m = 128 + y \<and> m mod 64 = y"
  using split_part [of m 64 2] by (intro exI [of _ "m mod 64"]) (simp add: continuation_def)

lemma quotient_part: "x < k \<Longrightarrow> (q * k + x) mod k = x \<and> (q * k + x) div k = q" for x :: nat
  by simp

lemma digits64:
  assumes "z < 64" and "m = r * 64 + z"
  shows "m div 64 = r" "m mod 64 = (z :: nat)"
  using assms quotient_part [of z 64 r] by simp_all

lemma div_digits64: "m div 4096 = m div 64 div 64" "m div 262144 = m div 64 div 64 div 64" for m :: nat
  by (simp_all add: div_mult2_eq [symmetric])

lemma unit_parts:
  "y < 64 \<Longrightarrow> (0x80 + y) mod 64 = y \<and> (0x80 + y) div 64 = 2"
  "x < 32 \<Longrightarrow> (0xC0 + x) mod 32 = x \<and> (0xC0 + x) div 32 = 6"
  "x < 16 \<Longrightarrow> (0xE0 + x) mod 16 = x \<and> (0xE0 + x) div 16 = 14 \<and> (0xE0 + x) div 32 = 7"
  "x < 8 \<Longrightarrow> (0xF0 + x) mod 8 = x \<and> (0xF0 + x) div 8 = 30 \<and> (0xF0 + x) div 16 = 15
     \<and> (0xF0 + x) div 32 = 7" for x y :: nat
  using quotient_part [of y 64 2] quotient_part [of x 32 6] quotient_part [of x 16 14]
    quotient_part [of x 32 7] quotient_part [of x 8 30] quotient_part [of x 16 15]
    quotient_part [of "16 + x" 32 7]
  by simp_all

lemma decode_units_sound:
  assumes "decode_units xs = Some (cp, n)"
  shows "scalar_value cp \<and> (\<exists>rest. xs = utf8_units cp @ rest \<and> n = length (utf8_units cp))"
proof -
  from assms obtain b ys where xs: "xs = b # ys" by (cases xs) auto
  consider "b < 128" | "128 \<le> b" "b div 32 = 6" | "128 \<le> b" "b div 32 \<noteq> 6" "b div 16 = 14"
    | "128 \<le> b" "b div 32 \<noteq> 6" "b div 16 \<noteq> 14" "b div 8 = 30"
    using assms xs by (fastforce split: if_splits)
  then show ?thesis
  proof cases
    case 1
    then show ?thesis using assms xs by (auto simp: scalar_value_def utf8_units.simps)
  next
    case 2
    then have big: "\<not> b < 128" by simp
    obtain c r where ys: "ys = c # r" and c: "continuation c"
      and cp: "cp = b mod 32 * 64 + c mod 64" "0x80 \<le> cp" "scalar_value cp" "n = 2"
      using assms unfolding xs decode_units_2 [OF big 2(2)] Let_def
      by (auto split: list.splits if_splits)
    obtain y where y: "y < 64" "c = 128 + y" "c mod 64 = y" using split_unit [OF c] by blast
    obtain x where x: "x < 32" "b = 192 + x" "b mod 32 = x" using 2 split_part [of b 32 6] by (intro that [of "b mod 32"]) simp_all
    have "cp = x * 64 + y" using x y cp by simp
    then show ?thesis using x y cp xs ys by (simp add: utf8_units.simps)
  next
    case 3
    then have big: "\<not> b < 128" by simp
    obtain c d r where ys: "ys = c # d # r" and c: "continuation c" and d: "continuation d"
      and cp: "cp = (b mod 16 * 64 + c mod 64) * 64 + d mod 64" "0x800 \<le> cp" "scalar_value cp" "n = 3"
      using assms unfolding xs decode_units_3 [OF big 3(2-3)] Let_def
      by (auto split: list.splits if_splits)
    obtain y where y: "y < 64" "c = 128 + y" "c mod 64 = y" using split_unit [OF c] by blast
    obtain z where z: "z < 64" "d = 128 + z" "d mod 64 = z" using split_unit [OF d] by blast
    obtain x where x: "x < 16" "b = 224 + x" "b mod 16 = x" using 3 split_part [of b 16 14] by (intro that [of "b mod 16"]) simp_all
    have eq: "cp = (x * 64 + y) * 64 + z" using x y z cp by simp
    have "cp < 0x10000" unfolding eq using x(1) y(1) z(1) by simp
    moreover have "cp div 64 = x * 64 + y" "cp mod 64 = z" using digits64 [OF z(1) eq] by simp_all
    ultimately have "cp < 0x10000" "cp div 4096 = x" "cp div 64 mod 64 = y" "cp mod 64 = z"
      using y(1) by (simp_all add: div_digits64 digits64)
    then show ?thesis using x y z cp(2-) xs ys by (simp add: utf8_units.simps)
  next
    case 4
    then have big: "\<not> b < 128" by simp
    obtain c d e r where ys: "ys = c # d # e # r"
      and c: "continuation c" and d: "continuation d" and e: "continuation e"
      and cp: "cp = ((b mod 8 * 64 + c mod 64) * 64 + d mod 64) * 64 + e mod 64" "0x10000 \<le> cp"
        "scalar_value cp" "n = 4"
      using assms unfolding xs decode_units_4 [OF big 4(2-4)] Let_def
      by (auto split: list.splits if_splits)
    obtain y where y: "y < 64" "c = 128 + y" "c mod 64 = y" using split_unit [OF c] by blast
    obtain z where z: "z < 64" "d = 128 + z" "d mod 64 = z" using split_unit [OF d] by blast
    obtain w where w: "w < 64" "e = 128 + w" "e mod 64 = w" using split_unit [OF e] by blast
    obtain x where x: "x < 8" "b = 240 + x" "b mod 8 = x" using 4 split_part [of b 8 30] by (intro that [of "b mod 8"]) simp_all
    have eq: "cp = ((x * 64 + y) * 64 + z) * 64 + w" using x(3) y(3) z(3) w(3) cp(1) by (simp only:)
    have d1: "cp div 64 = (x * 64 + y) * 64 + z" "cp mod 64 = w" using digits64 [OF w(1) eq] .
    have d2: "cp div 64 div 64 = x * 64 + y" "cp div 64 mod 64 = z" using digits64 [OF z(1) d1(1)] .
    have d3: "cp div 64 div 64 div 64 = x" "cp div 64 div 64 mod 64 = y" using digits64 [OF y(1) d2(1)] .
    have "cp div 262144 = x" "cp div 4096 mod 64 = y" using d3 by (simp_all only: div_digits64)
    note d1(2) d2(2) this
    then show ?thesis using x(2) y(2) z(2) w(2) cp(2-) xs ys by (simp add: utf8_units.simps)
  qed
qed

lemma decode_units_complete:
  assumes "scalar_value cp"
  shows "decode_units (utf8_units cp @ rest) = Some (cp, length (utf8_units cp))"
proof -
  define z y x3 y4 x4 where "z = cp mod 64" and "y = cp div 64 mod 64" and "x3 = cp div 4096"
    and "y4 = cp div 4096 mod 64" and "x4 = cp div 262144"
  have "cp div 64 div 64 = cp div 4096" "cp div 4096 div 64 = cp div 262144"
    by (simp_all add: div_mult2_eq [symmetric])
  then have three: "cp = (x3 * 64 + y) * 64 + z" and four: "cp = ((x4 * 64 + y4) * 64 + y) * 64 + z"
    unfolding z_def y_def x3_def y4_def x4_def by (metis div_mult_mod_eq)+
  have small: "z < 64" "y < 64" "y4 < 64" by (simp_all add: z_def y_def y4_def)
  consider "cp < 0x80" | "0x80 \<le> cp" "cp < 0x800" | "0x800 \<le> cp" "cp < 0x10000"
    | "0x10000 \<le> cp" "cp \<le> 0x10FFFF"
    using assms by (fastforce simp: scalar_value_def)
  then show ?thesis
  proof cases
    case 1
    then show ?thesis by (simp add: utf8_units.simps)
  next
    case 2
    then have "cp div 64 < 32" by simp
    moreover have "cp div 64 * 64 + z = cp" by (simp add: z_def)
    ultimately show ?thesis using 2 assms small
      by (simp add: utf8_units.simps continuation_def unit_parts flip: z_def)
  next
    case 3
    then have "x3 < 16" by (simp add: x3_def)
    with 3 assms small show ?thesis
      by (simp add: utf8_units.simps continuation_def unit_parts Let_def three [symmetric]
          flip: z_def y_def x3_def del: distrib_right_numeral)
  next
    case 4
    then have "x4 < 8" by (simp add: x4_def)
    with 4 assms small show ?thesis
      by (simp add: utf8_units.simps continuation_def unit_parts Let_def four [symmetric]
          flip: z_def y_def y4_def x4_def del: distrib_right_numeral)
  qed
qed

section \<open>The validator accepts exactly the encoded texts\<close>

text \<open>One round of the loop is one \<open>decode_units\<close> of the bytes that are left.\<close>

lemma Utf8Continuations_Suc:
  assumes "index + offset < length text" and "unat codePoint < 2 ^ 26"
  shows "Utf8Continuations text index offset (Suc n) codePoint =
    (if continuation (unat (text ! (index + offset)))
     then Utf8Continuations text index (Suc offset) n
            (push_bit 6 codePoint OR ucast (text ! (index + offset) AND 0x3F))
     else None)"
  by (simp add: continuation_def byte_masks Let_def)

lemma unat_shift_or_bound:
  assumes "unat cp < k" and "k \<le> 2 ^ 26"
  shows "unat (push_bit 6 cp OR ucast (c AND 0x3F :: u8) :: u32) < k * 64"
proof -
  have "unat cp * 64 + unat c mod 64 < (unat cp + 1) * 64" by simp
  also have "\<dots> \<le> k * 64" using assms(1) by (intro mult_right_mono) simp_all
  finally show ?thesis using assms unat_shift_or [of cp c] by simp
qed

lemma Utf8Lead_cases:
  "Utf8Lead b =
    (if unat b div 32 = 6 then Some (1, ucast (b AND 0x1F), 0x80)
     else if unat b div 16 = 14 then Some (2, ucast (b AND 0x0F), 0x800)
     else if unat b div 8 = 30 then Some (3, ucast (b AND 0x07), 0x10000) else None)"
  by (simp add: Utf8Lead_def byte_masks)

lemma le_7F: "(b :: u8) \<le> 0x7F \<longleftrightarrow> unat b < 128"
  by (simp add: word_le_nat_alt) linarith

definition step_ok :: "bytes \<Rightarrow> nat \<Rightarrow> (nat \<times> nat) option" where
  "step_ok text index =
     (case Utf8Lead (text ! index) of
        None \<Rightarrow> None
      | Some (count, codePoint, minimum) \<Rightarrow>
          if count > length text - index - 1 then None
          else (case Utf8Continuations text index 1 count codePoint of
                  None \<Rightarrow> None
                | Some cp \<Rightarrow> if cp < minimum \<or> cp > 0x10FFFF \<or> (cp \<ge> 0xD800 \<and> cp \<le> 0xDFFF) then None
                             else Some (unat cp, count + 1)))"

lemma IsValidUtf8From_step:
  "IsValidUtf8From text index =
     (if index < length text then
        (if text ! index \<le> 0x7F then IsValidUtf8From text (index + 1)
         else (case step_ok text index of None \<Rightarrow> False | Some (cp, n) \<Rightarrow> IsValidUtf8From text (index + n)))
      else True)"
  by (subst IsValidUtf8From.simps) (simp add: step_ok_def Let_def split: option.splits)

lemma word_scalar:
  "(cp < minimum \<or> cp > 0x10FFFF \<or> (cp \<ge> 0xD800 \<and> cp \<le> 0xDFFF)) =
     (\<not> (unat minimum \<le> unat (cp :: u32) \<and> scalar_value (unat cp)))"
  by (auto simp: scalar_value_def word_le_nat_alt word_less_nat_alt)

lemma continuations_run:
  assumes "index + n < length text" and "unat codePoint < k" and "k * 64 ^ n \<le> 2 ^ 26" and "1 \<le> offset"
    and "index + offset + n \<le> length text"
  shows "map_option unat (Utf8Continuations text index offset n codePoint) =
    foldl (\<lambda>acc c. case acc of None \<Rightarrow> None
             | Some cp \<Rightarrow> if continuation c then Some (cp * 64 + c mod 64) else None)
      (Some (unat codePoint)) (map unat (take n (drop (index + offset) text)))"
  using assms
proof (induction n arbitrary: offset codePoint k)
  case (Suc n)
  let ?c = "text ! (index + offset)"
  have none: "foldl (\<lambda>acc c. case acc of None \<Rightarrow> None
             | Some cp \<Rightarrow> if continuation c then Some (cp * 64 + c mod 64) else None) None cs = None" for cs :: "nat list"
    by (induction cs) simp_all
  have tk: "take (Suc n) (drop (index + offset) text) = ?c # take n (drop (index + Suc offset) text)"
    using Suc.prems by (simp add: Cons_nth_drop_Suc [symmetric])
  have "(1::nat) \<le> 64 ^ n" by simp
  then have "k * 64 \<le> k * 64 ^ Suc n" by simp
  then have k: "k * 64 \<le> 2 ^ 26" using Suc.prems(3) by linarith
  then have cp: "unat codePoint < 2 ^ 26" using Suc.prems(2) by simp
  let ?cp1 = "push_bit 6 codePoint OR ucast (?c AND 0x3F)"
  have "unat ?cp1 < k * 64" using Suc.prems(2) k by (intro unat_shift_or_bound) simp_all
  then have "map_option unat (Utf8Continuations text index (Suc offset) n ?cp1) =
      foldl (\<lambda>acc c. case acc of None \<Rightarrow> None
             | Some cp \<Rightarrow> if continuation c then Some (cp * 64 + c mod 64) else None)
      (Some (unat ?cp1)) (map unat (take n (drop (index + Suc offset) text)))"
    using Suc.prems by (intro Suc.IH [of _ "k * 64"]) (simp_all add: mult.assoc)
  moreover have "index + offset < length text" using Suc.prems by simp
  ultimately show ?case
    by (simp add: tk none Utf8Continuations_Suc [OF _ cp] unat_shift_or [OF cp] del: Utf8Continuations.simps(2))
qed simp

lemma step_ok_eq:
  "step_ok text index =
     (case Utf8Lead (text ! index) of
        None \<Rightarrow> None
      | Some (count, codePoint, minimum) \<Rightarrow>
          if count > length text - index - 1 then None
          else (case map_option unat (Utf8Continuations text index 1 count codePoint) of
                  None \<Rightarrow> None
                | Some cp \<Rightarrow> if unat minimum \<le> cp \<and> scalar_value cp then Some (cp, count + 1) else None))"
  by (auto simp: step_ok_def word_scalar split: option.splits prod.splits)

lemma short_list: "length xs \<le> 2 \<Longrightarrow> xs = [] \<or> (\<exists>c. xs = [c]) \<or> (\<exists>c d. xs = [c, d])"
  by (auto simp: le_Suc_eq length_Suc_conv numeral_2_eq_2)

lemma step_ok_decode:
  assumes "index < length text" and "\<not> text ! index \<le> 0x7F"
  shows "step_ok text index = decode_units (map unat (drop index text))"
proof -
  let ?b = "text ! index" and ?at = "\<lambda>k. text ! (index + k)"
  have big: "\<not> unat ?b < 128" using assms(2) by (simp add: le_7F)
  have drop: "drop index text = ?b # drop (index + 1) text"
    using assms(1) by (simp add: Cons_nth_drop_Suc)
  have tl: "drop (index + k) text = ?at k # drop (index + (k + 1)) text" if "k < length text - index" for k
    using that by (simp add: Cons_nth_drop_Suc)
  note rest = tl [of 1] tl [of 2] tl [of 3]
  consider "unat ?b div 32 = 6" | "unat ?b div 32 \<noteq> 6" "unat ?b div 16 = 14"
    | "unat ?b div 32 \<noteq> 6" "unat ?b div 16 \<noteq> 14" "unat ?b div 8 = 30"
    | "unat ?b div 32 \<noteq> 6" "unat ?b div 16 \<noteq> 14" "unat ?b div 8 \<noteq> 30" by blast
  then show ?thesis
  proof cases
    case 1
    let ?cp = "ucast (?b AND 0x1F) :: u32"
    have b: "unat ?cp = unat ?b mod 32" by (simp add: byte_payloads)
    have lead: "Utf8Lead ?b = Some (1, ?cp, 0x80)" using 1 by (simp add: Utf8Lead_cases)
    note dec = decode_units_2 [OF big 1]
    show ?thesis
    proof (cases "1 < length text - index")
      case True
      then have "map_option unat (Utf8Continuations text index 1 1 ?cp) =
        (if continuation (unat (?at 1)) then Some (unat ?b mod 32 * 64 + unat (?at 1) mod 64) else None)"
        using rest(1) b by (subst continuations_run [where k = 32]) auto
      with True rest(1) show ?thesis by (simp add: step_ok_eq drop lead dec Let_def
          del: decode_units.simps Utf8Continuations.simps)
    next
      case False
      then show ?thesis by (simp add: step_ok_eq drop lead dec
          del: decode_units.simps Utf8Continuations.simps)
    qed
  next
    case 2
    let ?cp = "ucast (?b AND 0x0F) :: u32"
    have b: "unat ?cp = unat ?b mod 16" by (simp add: byte_payloads)
    have lead: "Utf8Lead ?b = Some (2, ?cp, 0x800)" using 2 by (simp add: Utf8Lead_cases)
    note dec = decode_units_3 [OF big 2]
    show ?thesis
    proof (cases "2 < length text - index")
      case True
      then have "map_option unat (Utf8Continuations text index 1 2 ?cp) =
        (if continuation (unat (?at 1)) \<and> continuation (unat (?at 2))
         then Some ((unat ?b mod 16 * 64 + unat (?at 1) mod 64) * 64 + unat (?at 2) mod 64) else None)"
        using rest b by (subst continuations_run [where k = 16]) auto
      with True rest show ?thesis by (simp add: step_ok_eq drop lead dec Let_def
          del: decode_units.simps Utf8Continuations.simps)
    next
      case False
      then have "drop (index + 1) text = [] \<or> (\<exists>c. drop (index + 1) text = [c])"
        using rest(1) by (cases "1 < length text - index") auto
      with False show ?thesis by (auto simp: step_ok_eq drop lead dec
          simp del: decode_units.simps Utf8Continuations.simps)
    qed
  next
    case 3
    let ?cp = "ucast (?b AND 0x07) :: u32"
    have b: "unat ?cp = unat ?b mod 8" by (simp add: byte_payloads)
    have lead: "Utf8Lead ?b = Some (3, ?cp, 0x10000)" using 3 by (simp add: Utf8Lead_cases)
    note dec = decode_units_4 [OF big 3]
    show ?thesis
    proof (cases "3 < length text - index")
      case True
      then have "map_option unat (Utf8Continuations text index 1 3 ?cp) =
        (if continuation (unat (?at 1)) \<and> continuation (unat (?at 2)) \<and> continuation (unat (?at 3))
         then Some (((unat ?b mod 8 * 64 + unat (?at 1) mod 64) * 64 + unat (?at 2) mod 64) * 64
                     + unat (?at 3) mod 64) else None)"
        using rest b by (subst continuations_run [where k = 8]) auto
      with True rest show ?thesis by (simp add: step_ok_eq drop lead dec Let_def
          del: decode_units.simps Utf8Continuations.simps)
    next
      case False
      then have "length (drop (index + 1) text) \<le> 2" by simp
      then have "drop (index + 1) text = [] \<or> (\<exists>c. drop (index + 1) text = [c])
          \<or> (\<exists>c d. drop (index + 1) text = [c, d])"
        by (rule short_list)
      with False show ?thesis by (auto simp: step_ok_eq drop lead dec
          simp del: decode_units.simps Utf8Continuations.simps)
    qed
  next
    case 4
    then show ?thesis using big by (simp only: step_ok_eq drop Utf8Lead_cases list.map decode_units.simps
        if_False if_True simp_thms option.case)
  qed
qed

lemma ascii_decode:
  assumes "index < length (text :: bytes)" and "text ! index \<le> 0x7F"
  shows "decode_units (map unat (drop index text)) = Some (unat (text ! index), 1)"
proof -
  have "drop index text = text ! index # drop (index + 1) text"
    using assms(1) by (simp add: Cons_nth_drop_Suc)
  moreover have "unat (text ! index) < 128" using assms(2) le_7F [of "text ! index"] by blast
  ultimately show ?thesis by simp
qed

lemma IsValidUtf8From_decode:
  "index < length text \<Longrightarrow> IsValidUtf8From text index =
    (case decode_units (map unat (drop index text)) of None \<Rightarrow> False | Some (cp, n) \<Rightarrow> IsValidUtf8From text (index + n))"
  by (subst IsValidUtf8From_step) (simp add: ascii_decode step_ok_decode split: option.splits)

lemma IsValidUtf8From_iff: "IsValidUtf8From text index \<longleftrightarrow> utf8_text (drop index text)"
proof (induction "length text - index" arbitrary: index rule: less_induct)
  case less
  show ?case
  proof (cases "index < length text")
    case False
    then show ?thesis by (simp add: IsValidUtf8From_step)
  next
    case True
    let ?bs = "drop index text"
    have ne: "?bs \<noteq> []" using True by simp
    have dec: "decode_units (map unat ?bs) = Some (cp, n) \<longleftrightarrow>
        scalar_value cp \<and> (\<exists>rest. ?bs = utf8_encode cp @ rest \<and> n = length (utf8_encode cp))" for cp n
    proof
      assume d: "decode_units (map unat ?bs) = Some (cp, n)"
      from decode_units_sound [OF d] obtain us where sc: "scalar_value cp"
        and us: "map unat ?bs = utf8_units cp @ us" and n: "n = length (utf8_units cp)" by blast
      have "map unat (drop n ?bs) = drop n (map unat ?bs)" by (simp only: drop_map)
      then have "map unat (drop n ?bs) = us" unfolding us n by simp
      with us have "?bs = utf8_encode cp @ drop n ?bs" using encode_prefix_iff [OF sc] by simp
      with sc n show "scalar_value cp \<and> (\<exists>rest. ?bs = utf8_encode cp @ rest \<and> n = length (utf8_encode cp))"
        by (auto simp: utf8_encode_def)
    next
      assume "scalar_value cp \<and> (\<exists>rest. ?bs = utf8_encode cp @ rest \<and> n = length (utf8_encode cp))"
      then show "decode_units (map unat ?bs) = Some (cp, n)"
        by (auto simp: encode_prefix_iff decode_units_complete) (simp add: utf8_encode_def)
    qed
    have "IsValidUtf8From text index \<longleftrightarrow>
        (\<exists>cp n. decode_units (map unat ?bs) = Some (cp, n) \<and> IsValidUtf8From text (index + n))"
      using True by (auto simp: IsValidUtf8From_decode split: option.splits)
    also have "\<dots> \<longleftrightarrow> (\<exists>cp rest. scalar_value cp \<and> ?bs = utf8_encode cp @ rest \<and> utf8_text rest)"
    proof -
      have "IsValidUtf8From text (index + length (utf8_encode cp)) = utf8_text rest"
        if "?bs = utf8_encode cp @ rest" for cp rest
      proof -
        have "length (utf8_encode cp) > 0" by (simp add: utf8_encode_def)
        then have "length text - (index + length (utf8_encode cp)) < length text - index" using True by linarith
        moreover have "drop (index + length (utf8_encode cp)) text = rest"
          using that by (metis add.commute append_eq_conv_conj drop_drop)
        ultimately show ?thesis using less by metis
      qed
      then show ?thesis unfolding dec by blast
    qed
    also have "\<dots> \<longleftrightarrow> utf8_text ?bs" using utf8_text_step [OF ne] by simp
    finally show ?thesis .
  qed
qed

lemma IsValidUtf8_ascii: "list_all (\<lambda>b. b \<le> 0x7F) bs \<Longrightarrow> IsValidUtf8 bs"
proof -
  assume ascii: "list_all (\<lambda>b. b \<le> 0x7F) bs"
  have "IsValidUtf8From bs i" for i
  proof (induction "length bs - i" arbitrary: i rule: less_induct)
    case less
    then show ?case
    proof (cases "i < length bs")
      case True
      then have "bs ! i \<le> 0x7F" using ascii by (simp add: list_all_length)
      moreover have "IsValidUtf8From bs (i + 1)" using less True by simp
      ultimately show ?thesis by (subst IsValidUtf8From.simps) (simp add: Let_def)
    qed (simp add: IsValidUtf8From.simps)
  qed
  then show ?thesis by (simp add: IsValidUtf8_def)
qed

lemma IsValidUtf8_text: "IsValidUtf8 t \<longleftrightarrow> utf8_text t"
  by (simp add: IsValidUtf8_def IsValidUtf8From_iff)

lemma utf8_text_append: "utf8_text a \<Longrightarrow> utf8_text b \<Longrightarrow> utf8_text (a @ b)"
  by (auto simp: utf8_text_def) (metis concat_append list_all_append map_append)

lemma utf8_text_encode: "scalar_value cp \<Longrightarrow> utf8_text (utf8_encode cp)"
  by (auto simp: utf8_text_def intro!: exI [of _ "[cp]"])

text \<open>
  C16. \<^verbatim>\<open>IsValidUtf8\<close> accepts a byte string exactly when it is the concatenated UTF-8 encoding of
  a sequence of Unicode scalar values: no overlong form, no surrogate, nothing above U+10FFFF, no
  stray continuation byte and no truncated sequence is accepted, and every encoded text is.
\<close>

theorem valid_utf8_iff_encoded:
  "IsValidUtf8 text \<longleftrightarrow> (\<exists>cps. list_all scalar_value cps \<and> text = concat (map utf8_encode cps))"
  by (simp add: IsValidUtf8_def IsValidUtf8From_iff utf8_text_def)

end
