(* ===== verification/Codec.thy ===== *)
theory Codec
  imports Prelude
begin

text \<open>
  The contract every encoder and decoder pair of the program keeps: the decoder accepts exactly
  the encodings of the valid messages and gives back the message that was encoded. The pairs of
  the bridge protocol, the multiplayer hello and the Home Box file are interpretations of it.
\<close>

locale partial_codec =
  fixes enc :: "'m \<Rightarrow> 'w result" and dec :: "'w \<Rightarrow> 'm result" and valid :: "'m \<Rightarrow> bool"
  assumes dec_iff: "dec w = Ok m \<longleftrightarrow> valid m \<and> enc m = Ok w"
begin

lemma round_trip: "valid m \<Longrightarrow> enc m = Ok w \<Longrightarrow> dec w = Ok m"
  by (simp add: dec_iff)

lemma canonical: "dec w = Ok m \<Longrightarrow> enc m = Ok w"
  by (simp add: dec_iff)

lemma dec_valid: "dec w = Ok m \<Longrightarrow> valid m"
  by (simp add: dec_iff)

lemma enc_unique: "valid m \<Longrightarrow> valid n \<Longrightarrow> enc m = Ok w \<Longrightarrow> enc n = Ok w \<Longrightarrow> m = n"
  using dec_iff by (metis Inr_inject)

lemma dec_unique: "dec v = Ok m \<Longrightarrow> dec w = Ok m \<Longrightarrow> v = w"
  using dec_iff by (metis Inr_inject)

lemma accepts_iff: "is_ok (dec w) \<longleftrightarrow> (\<exists>m. valid m \<and> enc m = Ok w)"
  by (auto simp: is_ok_iff dec_iff)

end

end
