(* ===== verification/BridgeFrame.thy ===== *)
theory BridgeFrame
  imports Endian Utf8 Codec
begin

text \<open>
  The frames and messages of bridge protocol 1.0:
  \<^verbatim>\<open>RogueAssistantCpp/Inc/Bridge/BridgeProtocol.h\<close> and the first part of
  \<^verbatim>\<open>RogueAssistantCpp/Src/Bridge/BridgeProtocol.cpp\<close>. Each decoder and its encoder are shown to
  be a \<open>partial_codec\<close>.
\<close>

section \<open>Constants and data\<close>

definition ProtocolMajor :: u16 where "ProtocolMajor = 1"
definition ProtocolMinor :: u16 where "ProtocolMinor = 0"
definition ScriptVersion :: u32 where "ScriptVersion = 1"

definition FrameLengthSize :: nat where "FrameLengthSize = 4"
definition FrameBodyHeaderSize :: nat where "FrameBodyHeaderSize = 8"
definition MaximumFrameBodyLength :: nat where "MaximumFrameBodyLength = 1024 * 1024"
definition MaximumQueuedFrames :: nat where "MaximumQueuedFrames = 256"
definition MaximumQueuedFrameBytes :: nat where "MaximumQueuedFrameBytes = 4 * 1024 * 1024"
definition MaximumDiagnosticLength :: nat where "MaximumDiagnosticLength = 1024"

text \<open>
  An enumeration with a fixed underlying type can hold a value that has no name, which is why the
  code checks for it: \<open>MtUnnamed\<close> stands for those.
\<close>

datatype MessageType =
  MtClientHello | MtServerHello | MtReadRequest | MtWriteRequest
| MtReadResult | MtWriteResult | MtError | MtClose | MtUnnamed u8

fun MessageTypeValue :: "MessageType \<Rightarrow> u8" where
  "MessageTypeValue MtClientHello = 1"
| "MessageTypeValue MtServerHello = 2"
| "MessageTypeValue MtReadRequest = 3"
| "MessageTypeValue MtWriteRequest = 4"
| "MessageTypeValue MtReadResult = 5"
| "MessageTypeValue MtWriteResult = 6"
| "MessageTypeValue MtError = 7"
| "MessageTypeValue MtClose = 8"
| "MessageTypeValue (MtUnnamed v) = v"

definition MessageTypeCast :: "u8 \<Rightarrow> MessageType" where
  "MessageTypeCast v =
     (if v = 1 then MtClientHello else if v = 2 then MtServerHello
      else if v = 3 then MtReadRequest else if v = 4 then MtWriteRequest
      else if v = 5 then MtReadResult else if v = 6 then MtWriteResult
      else if v = 7 then MtError else if v = 8 then MtClose else MtUnnamed v)"

datatype HelloStatus = Accepted | Rejected

datatype ProtocolErrorCode =
  UnsupportedProtocol | Busy | MalformedFrame | InvalidRequestId
| PecInvalidAddress | PecInvalidSize | QueueFull | InternalError

fun ProtocolErrorCodeValue :: "ProtocolErrorCode \<Rightarrow> u16" where
  "ProtocolErrorCodeValue UnsupportedProtocol = 1"
| "ProtocolErrorCodeValue Busy = 2"
| "ProtocolErrorCodeValue MalformedFrame = 3"
| "ProtocolErrorCodeValue InvalidRequestId = 4"
| "ProtocolErrorCodeValue PecInvalidAddress = 5"
| "ProtocolErrorCodeValue PecInvalidSize = 6"
| "ProtocolErrorCodeValue QueueFull = 7"
| "ProtocolErrorCodeValue InternalError = 8"

record Frame =
  frameType :: MessageType
  flags :: u8
  requestId :: u32
  payload :: bytes

definition emptyFrame :: Frame where
  "emptyFrame = \<lparr>frameType = MtClose, flags = 0, requestId = 0, payload = []\<rparr>"

record ClientHello =
  chProtocolMajor :: u16
  chProtocolMinor :: u16
  chScriptVersion :: u32

record ServerHello =
  shStatus :: HelloStatus
  shProtocolMajor :: u16
  shProtocolMinor :: u16
  shApplicationMajor :: u16
  shApplicationMinor :: u16
  shApplicationPatch :: u16

record ReadRequest =
  rrAddress :: u32
  rrSize :: u32

record WriteRequest =
  wrAddress :: u32
  wrData :: bytes

record ErrorMessage =
  emCode :: ProtocolErrorCode
  emDiagnostic :: string

section \<open>Frames\<close>

definition ClientMagic :: bytes where
  "ClientMagic = [0x52, 0x41, 0x42, 0x31]"

fun IsKnownMessageType :: "MessageType \<Rightarrow> bool" where
  "IsKnownMessageType (MtUnnamed v) = False"
| "IsKnownMessageType t = True"

definition RequiresZeroRequestId :: "MessageType \<Rightarrow> bool" where
  "RequiresZeroRequestId t \<longleftrightarrow> t = MtClientHello \<or> t = MtServerHello \<or> t = MtClose"

definition RequiresNonzeroRequestId :: "MessageType \<Rightarrow> bool" where
  "RequiresNonzeroRequestId t \<longleftrightarrow>
     t = MtReadRequest \<or> t = MtWriteRequest \<or> t = MtReadResult \<or> t = MtWriteResult"

definition ValidateFrame :: "Frame \<Rightarrow> unit result" where
  "ValidateFrame frame =
     (if \<not> IsKnownMessageType (frameType frame) then Err ''unknown bridge message type''
      else if flags frame \<noteq> 0 then Err ''bridge protocol 1.0 requires zero flags''
      else if RequiresZeroRequestId (frameType frame) \<and> requestId frame \<noteq> 0
        then Err ''bridge control messages require request ID zero''
      else if RequiresNonzeroRequestId (frameType frame) \<and> requestId frame = 0
        then Err ''bridge memory messages require a nonzero request ID''
      else if length (payload frame) > MaximumFrameBodyLength - FrameBodyHeaderSize
        then Err ''bridge frame exceeds the 1 MiB body limit''
      else Ok ())"

definition WireSize :: "Frame \<Rightarrow> nat" where
  "WireSize frame = FrameLengthSize + FrameBodyHeaderSize + length (payload frame)"

definition TryEncodeFrame :: "Frame \<Rightarrow> bytes result" where
  "TryEncodeFrame frame = andThen (ValidateFrame frame) (\<lambda>_.
     let bodyLength = word_of_nat (FrameBodyHeaderSize + length (payload frame)) :: u32;
         output = replicate (FrameLengthSize + unat bodyLength) 0;
         output = snd (WriteLittle output 0 bodyLength);
         output = output[4 := MessageTypeValue (frameType frame)];
         output = output[5 := flags frame];
         output = snd (WriteLittle output 6 (0 :: u16));
         output = snd (WriteLittle output 8 (requestId frame))
     in Ok (take 12 output @ payload frame @ drop (12 + length (payload frame)) output))"

definition RequireFrameType :: "Frame \<Rightarrow> MessageType \<Rightarrow> unit result" where
  "RequireFrameType frame expected =
     (if frameType frame \<noteq> expected then Err ''unexpected bridge message type''
      else ValidateFrame frame)"

definition BytesToString :: "bytes \<Rightarrow> string" where
  "BytesToString bs = map char_of_byte bs"

definition DecodeProtocolErrorCode :: "u16 \<Rightarrow> ProtocolErrorCode option" where
  "DecodeProtocolErrorCode encoded =
     (if encoded = 1 then Some UnsupportedProtocol else if encoded = 2 then Some Busy
      else if encoded = 3 then Some MalformedFrame else if encoded = 4 then Some InvalidRequestId
      else if encoded = 5 then Some PecInvalidAddress else if encoded = 6 then Some PecInvalidSize
      else if encoded = 7 then Some QueueFull else if encoded = 8 then Some InternalError
      else None)"

section \<open>Messages\<close>

definition EncodeClientHello :: "ClientHello \<Rightarrow> Frame" where
  "EncodeClientHello hello = emptyFrame\<lparr>frameType := MtClientHello,
     payload := AppendLittle (AppendLittle (AppendLittle ClientMagic
       (chProtocolMajor hello)) (chProtocolMinor hello)) (chScriptVersion hello)\<rparr>"

definition DecodeClientHello :: "Frame \<Rightarrow> ClientHello result" where
  "DecodeClientHello frame = andThen (RequireFrameType frame MtClientHello) (\<lambda>_.
     if length (payload frame) \<noteq> 12 \<or> take (length ClientMagic) (payload frame) \<noteq> ClientMagic
     then Err ''invalid ClientHello payload''
     else Ok \<lparr>chProtocolMajor = snd (ReadLittle (payload frame) 4),
              chProtocolMinor = snd (ReadLittle (payload frame) 6),
              chScriptVersion = snd (ReadLittle (payload frame) 8)\<rparr>)"

definition EncodeServerHello :: "ServerHello \<Rightarrow> Frame" where
  "EncodeServerHello hello = emptyFrame\<lparr>frameType := MtServerHello,
     payload := AppendLittle (AppendLittle (AppendLittle (AppendLittle (AppendLittle
       ([case shStatus hello of Accepted \<Rightarrow> 0 | Rejected \<Rightarrow> 1] @ [0])
       (shProtocolMajor hello)) (shProtocolMinor hello)) (shApplicationMajor hello))
       (shApplicationMinor hello)) (shApplicationPatch hello)\<rparr>"

definition DecodeServerHello :: "Frame \<Rightarrow> ServerHello result" where
  "DecodeServerHello frame = andThen (RequireFrameType frame MtServerHello) (\<lambda>_.
     if length (payload frame) \<noteq> 12 \<or> payload frame ! 1 \<noteq> 0 then Err ''invalid ServerHello payload''
     else let status = payload frame ! 0 in
       if status > 1 then Err ''invalid ServerHello status''
       else Ok \<lparr>shStatus = (if status = 0 then Accepted else Rejected),
                shProtocolMajor = snd (ReadLittle (payload frame) 2),
                shProtocolMinor = snd (ReadLittle (payload frame) 4),
                shApplicationMajor = snd (ReadLittle (payload frame) 6),
                shApplicationMinor = snd (ReadLittle (payload frame) 8),
                shApplicationPatch = snd (ReadLittle (payload frame) 10)\<rparr>)"

definition EncodeReadRequest :: "u32 \<Rightarrow> ReadRequest \<Rightarrow> Frame" where
  "EncodeReadRequest rid request = emptyFrame\<lparr>frameType := MtReadRequest, requestId := rid,
     payload := AppendLittle (AppendLittle [] (rrAddress request)) (rrSize request)\<rparr>"

definition DecodeReadRequest :: "Frame \<Rightarrow> ReadRequest result" where
  "DecodeReadRequest frame = andThen (RequireFrameType frame MtReadRequest) (\<lambda>_.
     if length (payload frame) \<noteq> 8 then Err ''invalid ReadRequest payload''
     else Ok \<lparr>rrAddress = snd (ReadLittle (payload frame) 0), rrSize = snd (ReadLittle (payload frame) 4)\<rparr>)"

definition TryEncodeWriteRequest :: "u32 \<Rightarrow> WriteRequest \<Rightarrow> Frame result" where
  "TryEncodeWriteRequest rid request =
     (if length (wrData request) > MaximumFrameBodyLength - FrameBodyHeaderSize - 8
      then Err ''WriteRequest payload exceeds the bridge frame limit''
      else let frame = emptyFrame\<lparr>frameType := MtWriteRequest, requestId := rid,
             payload := AppendLittle (AppendLittle [] (wrAddress request))
                          (word_of_nat (length (wrData request)) :: u32) @ wrData request\<rparr>
        in andThen (ValidateFrame frame) (\<lambda>_. Ok frame))"

definition DecodeWriteRequest :: "Frame \<Rightarrow> WriteRequest result" where
  "DecodeWriteRequest frame = andThen (RequireFrameType frame MtWriteRequest) (\<lambda>_.
     if length (payload frame) < 8 then Err ''invalid WriteRequest payload''
     else let encodedSize = snd (ReadLittle (payload frame) 4) :: u32 in
       if unat encodedSize \<noteq> length (payload frame) - 8
       then Err ''WriteRequest byte count does not match its payload''
       else Ok \<lparr>wrAddress = snd (ReadLittle (payload frame) 0), wrData = drop 8 (payload frame)\<rparr>)"

definition TryEncodeError :: "u32 \<Rightarrow> ErrorMessage \<Rightarrow> Frame result" where
  "TryEncodeError rid message =
     (if length (emDiagnostic message) > MaximumDiagnosticLength
      then Err ''bridge diagnostic exceeds 1024 bytes''
      else if \<not> IsValidUtf8 (map byte_of_char (emDiagnostic message))
      then Err ''bridge diagnostic is not valid UTF-8''
      else let frame = emptyFrame\<lparr>frameType := MtError, requestId := rid,
             payload := AppendLittle (AppendLittle [] (ProtocolErrorCodeValue (emCode message)))
                          (word_of_nat (length (emDiagnostic message)) :: u16)
                        @ map byte_of_char (emDiagnostic message)\<rparr>
        in andThen (ValidateFrame frame) (\<lambda>_. Ok frame))"

definition DecodeErrorMessage :: "Frame \<Rightarrow> ErrorMessage result" where
  "DecodeErrorMessage frame = andThen (RequireFrameType frame MtError) (\<lambda>_.
     if length (payload frame) < 4 then Err ''invalid Error payload''
     else let code = snd (ReadLittle (payload frame) 0) :: u16;
              diagnosticSize = snd (ReadLittle (payload frame) 2) :: u16 in
       if unat diagnosticSize \<noteq> length (payload frame) - 4 \<or> unat diagnosticSize > MaximumDiagnosticLength
       then Err ''Error diagnostic length does not match its payload''
       else let diagnostic = BytesToString (drop 4 (payload frame)) in
         if \<not> IsValidUtf8 (map byte_of_char diagnostic) then Err ''Error diagnostic is not valid UTF-8''
         else (case DecodeProtocolErrorCode code of
                 None \<Rightarrow> Err ''unknown Error code''
               | Some c \<Rightarrow> Ok \<lparr>emCode = c, emDiagnostic = diagnostic\<rparr>))"

definition EncodeClose :: Frame where
  "EncodeClose = emptyFrame\<lparr>frameType := MtClose\<rparr>"

section \<open>Valid frames and their wire form\<close>

lemma MessageTypeValue_Cast [simp]: "MessageTypeValue (MessageTypeCast v) = v"
  by (simp add: MessageTypeCast_def)

lemma MessageTypeCast_Value [simp]: "IsKnownMessageType t \<Longrightarrow> MessageTypeCast (MessageTypeValue t) = t"
  by (cases t) (simp_all add: MessageTypeCast_def)

lemma frame_limits [simp]:
  "FrameLengthSize = 4" "FrameBodyHeaderSize = 8" "MaximumFrameBodyLength = 1048576"
  "MaximumQueuedFrames = 256" "MaximumQueuedFrameBytes = 4194304" "MaximumDiagnosticLength = 1024"
  by (simp_all add: FrameLengthSize_def FrameBodyHeaderSize_def MaximumFrameBodyLength_def
      MaximumQueuedFrames_def MaximumQueuedFrameBytes_def MaximumDiagnosticLength_def)

definition valid_frame :: "Frame \<Rightarrow> bool" where
  "valid_frame f \<longleftrightarrow> IsKnownMessageType (frameType f) \<and> flags f = 0
     \<and> (RequiresZeroRequestId (frameType f) \<longrightarrow> requestId f = 0)
     \<and> (RequiresNonzeroRequestId (frameType f) \<longrightarrow> requestId f \<noteq> 0)
     \<and> length (payload f) \<le> 1048568"

lemma ValidateFrame_Ok [simp]: "ValidateFrame f = Ok () \<longleftrightarrow> valid_frame f"
  by (auto simp: ValidateFrame_def valid_frame_def)

lemma RequireFrameType_Ok: "RequireFrameType f t = Ok () \<longleftrightarrow> frameType f = t \<and> valid_frame f"
  by (simp add: RequireFrameType_def)

definition frame_wire :: "Frame \<Rightarrow> bytes" where
  "frame_wire f = le_bytes (word_of_nat (8 + length (payload f)) :: u32)
     @ [MessageTypeValue (frameType f), flags f] @ le_bytes (0 :: u16)
     @ le_bytes (requestId f) @ payload f"

lemma length_frame_wire [simp]: "length (frame_wire f) = 12 + length (payload f)"
  by (simp add: frame_wire_def)

lemma TryEncodeFrame_wire:
  assumes "valid_frame f"
  shows "TryEncodeFrame f = Ok (frame_wire f)"
proof -
  let ?n = "length (payload f)" and ?len = "word_of_nat (8 + length (payload f)) :: u32"
  have n: "unat ?len = 8 + ?n"
    using assms by (simp add: valid_frame_def unat_of_nat del: of_nat_add)
  let ?o1 = "le_bytes ?len @ replicate (8 + ?n) 0"
  have o1: "snd (WriteLittle (replicate (4 + (8 + ?n)) 0) 0 ?len) = ?o1"
    by (subst WriteLittle_eq) simp_all
  let ?o3 = "(?o1[4 := MessageTypeValue (frameType f)])[5 := flags f]"
  have o3: "?o3 = le_bytes ?len @ [MessageTypeValue (frameType f), flags f] @ replicate (6 + ?n) 0"
    by (simp add: list_update_append eval_nat_numeral)
  let ?o4 = "le_bytes ?len @ [MessageTypeValue (frameType f), flags f] @ le_bytes (0 :: u16) @ replicate (4 + ?n) 0"
  have o4: "snd (WriteLittle ?o3 6 (0 :: u16)) = ?o4"
    unfolding o3 by (subst WriteLittle_eq) simp_all
  let ?o5 = "le_bytes ?len @ [MessageTypeValue (frameType f), flags f] @ le_bytes (0 :: u16)
    @ le_bytes (requestId f) @ replicate ?n 0"
  have o5: "snd (WriteLittle ?o4 8 (requestId f)) = ?o5"
    by (subst WriteLittle_eq) simp_all
  have v: "ValidateFrame f = Ok ()" using assms by simp
  have "TryEncodeFrame f = Ok (take 12 ?o5 @ payload f @ drop (12 + ?n) ?o5)"
    by (simp only: TryEncodeFrame_def v andThen_simps Let_def frame_limits n o1 o4 o5)
  then show ?thesis by (simp add: frame_wire_def)
qed

lemma TryEncodeFrame_Ok_iff: "TryEncodeFrame f = Ok w \<longleftrightarrow> valid_frame f \<and> w = frame_wire f"
proof (cases "valid_frame f")
  case False
  then show ?thesis by (auto simp: TryEncodeFrame_def andThen_Ok_iff)
qed (auto simp: TryEncodeFrame_wire)

lemma WireSize_wire: "WireSize f = length (frame_wire f)"
  by (simp add: WireSize_def)

section \<open>Codecs\<close>

lemma emptyFrame_simps [simp]:
  "frameType emptyFrame = MtClose" "flags emptyFrame = 0" "requestId emptyFrame = 0" "payload emptyFrame = []"
  by (simp_all add: emptyFrame_def)

lemma RequiresId_simps [simp]:
  "RequiresZeroRequestId MtClientHello" "RequiresZeroRequestId MtServerHello" "RequiresZeroRequestId MtClose"
  "\<not> RequiresZeroRequestId MtReadRequest" "\<not> RequiresZeroRequestId MtWriteRequest" "\<not> RequiresZeroRequestId MtError"
  "\<not> RequiresZeroRequestId MtReadResult" "\<not> RequiresZeroRequestId MtWriteResult"
  "RequiresNonzeroRequestId MtReadRequest" "RequiresNonzeroRequestId MtWriteRequest"
  "RequiresNonzeroRequestId MtReadResult" "RequiresNonzeroRequestId MtWriteResult"
  "\<not> RequiresNonzeroRequestId MtClientHello" "\<not> RequiresNonzeroRequestId MtServerHello"
  "\<not> RequiresNonzeroRequestId MtError" "\<not> RequiresNonzeroRequestId MtClose"
  by (simp_all add: RequiresZeroRequestId_def RequiresNonzeroRequestId_def)

lemma length_ClientMagic [simp]: "length ClientMagic = 4"
  by (simp add: ClientMagic_def)

lemma Frame_eqI:
  "frameType f = frameType g \<Longrightarrow> flags f = flags g \<Longrightarrow> requestId f = requestId g \<Longrightarrow> payload f = payload g \<Longrightarrow> f = (g :: Frame)"
  by simp

lemma DecodeClientHello_iff: "DecodeClientHello f = Ok h \<longleftrightarrow> EncodeClientHello h = f"
proof
  assume dec: "DecodeClientHello f = Ok h"
  let ?p = "payload f"
  from dec have type: "frameType f = MtClientHello" "valid_frame f"
    and len: "length ?p = 12" and magic: "take 4 ?p = ClientMagic"
    and h: "chProtocolMajor h = snd (ReadLittle ?p 4)" "chProtocolMinor h = snd (ReadLittle ?p 6)"
      "chScriptVersion h = snd (ReadLittle ?p 8)"
    by (auto simp: DecodeClientHello_def andThen_Ok_iff RequireFrameType_Ok split: if_splits)
  have "?p = ClientMagic @ drop 4 ?p" by (metis magic append_take_drop_id)
  also have "drop 4 ?p = le_bytes (chProtocolMajor h) @ le_bytes (chProtocolMinor h) @ le_bytes (chScriptVersion h)"
    using drop_ReadLittle_u16 [of 4 ?p] drop_ReadLittle_u16 [of 6 ?p] drop_ReadLittle_u32 [of 8 ?p] len h
    by simp
  finally show "EncodeClientHello h = f"
    using type by (auto simp: EncodeClientHello_def valid_frame_def intro!: Frame_eqI)
next
  assume "EncodeClientHello h = f"
  then have f: "f = EncodeClientHello h" ..
  show "DecodeClientHello f = Ok h"
    by (simp add: f DecodeClientHello_def andThen_Ok_iff RequireFrameType_Ok EncodeClientHello_def
        valid_frame_def codec_simps)
qed

lemma DecodeServerHello_iff: "DecodeServerHello f = Ok h \<longleftrightarrow> EncodeServerHello h = f"
proof
  assume dec: "DecodeServerHello f = Ok h"
  let ?p = "payload f"
  from dec have type: "frameType f = MtServerHello" "valid_frame f"
    and len: "length ?p = 12" and zero: "?p ! 1 = 0" and status: "?p ! 0 \<le> 1"
      "shStatus h = (if ?p ! 0 = 0 then Accepted else Rejected)"
    and h: "shProtocolMajor h = snd (ReadLittle ?p 2)" "shProtocolMinor h = snd (ReadLittle ?p 4)"
      "shApplicationMajor h = snd (ReadLittle ?p 6)" "shApplicationMinor h = snd (ReadLittle ?p 8)"
      "shApplicationPatch h = snd (ReadLittle ?p 10)"
    by (auto simp: DecodeServerHello_def andThen_Ok_iff RequireFrameType_Ok Let_def not_less split: if_splits)
  have "?p ! 0 = 0 \<or> ?p ! 0 = 1" using status(1) by (simp add: word_le_nat_alt word_unat_eq_iff) arith
  then have "?p ! 0 = (case shStatus h of Accepted \<Rightarrow> 0 | Rejected \<Rightarrow> 1)" using status(2) by auto
  moreover have "?p = [?p ! 0, ?p ! 1] @ drop 2 ?p"
    using len by (simp add: Cons_nth_drop_Suc numeral_2_eq_2)
  moreover have "drop 2 ?p = le_bytes (shProtocolMajor h) @ le_bytes (shProtocolMinor h)
      @ le_bytes (shApplicationMajor h) @ le_bytes (shApplicationMinor h) @ le_bytes (shApplicationPatch h)"
    using drop_ReadLittle_u16 [of 2 ?p] drop_ReadLittle_u16 [of 4 ?p] drop_ReadLittle_u16 [of 6 ?p]
      drop_ReadLittle_u16 [of 8 ?p] drop_ReadLittle_u16 [of 10 ?p] len h
    by simp
  ultimately show "EncodeServerHello h = f"
    using type zero by (auto simp: EncodeServerHello_def valid_frame_def intro!: Frame_eqI)
next
  assume "EncodeServerHello h = f"
  then have f: "f = EncodeServerHello h" ..
  show "DecodeServerHello f = Ok h"
    by (cases "shStatus h") (simp_all add: f DecodeServerHello_def andThen_Ok_iff RequireFrameType_Ok EncodeServerHello_def
        valid_frame_def codec_simps Let_def)
qed

text \<open>The request ID of a memory message travels in the frame, so the message is a pair.\<close>

lemma DecodeReadRequest_iff:
  "andThen (DecodeReadRequest f) (\<lambda>r. Ok (requestId f, r)) = Ok m
    \<longleftrightarrow> fst m \<noteq> 0 \<and> EncodeReadRequest (fst m) (snd m) = f"
proof
  assume "andThen (DecodeReadRequest f) (\<lambda>r. Ok (requestId f, r)) = Ok m"
  then obtain r where r: "snd m = r" and dec: "DecodeReadRequest f = Ok r" and rid: "fst m = requestId f"
    by (auto simp: andThen_Ok_iff)
  let ?p = "payload f"
  from dec have type: "frameType f = MtReadRequest" "valid_frame f" and len: "length ?p = 8"
    and h: "rrAddress r = snd (ReadLittle ?p 0)" "rrSize r = snd (ReadLittle ?p 4)"
    by (auto simp: DecodeReadRequest_def andThen_Ok_iff RequireFrameType_Ok split: if_splits)
  have "?p = le_bytes (rrAddress r) @ le_bytes (rrSize r)"
    using drop_ReadLittle_u32 [of 0 ?p] drop_ReadLittle_u32 [of 4 ?p] len h by simp
  then show "fst m \<noteq> 0 \<and> EncodeReadRequest (fst m) (snd m) = f"
    using r type rid by (auto simp: EncodeReadRequest_def valid_frame_def intro!: Frame_eqI)
next
  assume "fst m \<noteq> 0 \<and> EncodeReadRequest (fst m) (snd m) = f"
  then have f: "f = EncodeReadRequest (fst m) (snd m)" and "fst m \<noteq> 0" by simp_all
  then show "andThen (DecodeReadRequest f) (\<lambda>r. Ok (requestId f, r)) = Ok m"
    by (cases m) (simp add: f DecodeReadRequest_def andThen_Ok_iff RequireFrameType_Ok EncodeReadRequest_def
        valid_frame_def codec_simps)
qed

definition valid_write :: "u32 \<times> WriteRequest \<Rightarrow> bool" where
  "valid_write m \<longleftrightarrow> fst m \<noteq> 0 \<and> length (wrData (snd m)) \<le> 1048560"

lemma TryEncodeWriteRequest_Ok:
  "valid_write (rid, w) \<Longrightarrow> TryEncodeWriteRequest rid w = Ok (emptyFrame\<lparr>frameType := MtWriteRequest,
     requestId := rid, payload := le_bytes (wrAddress w) @ le_bytes (word_of_nat (length (wrData w)) :: u32) @ wrData w\<rparr>)"
  by (simp add: valid_write_def TryEncodeWriteRequest_def Let_def andThen_Ok_iff valid_frame_def)

lemma TryEncodeWriteRequest_Ok_valid: "TryEncodeWriteRequest rid w = Ok f \<Longrightarrow> valid_write (rid, w)"
  by (auto simp: TryEncodeWriteRequest_def Let_def andThen_Ok_iff valid_frame_def valid_write_def split: if_splits)

lemma unat_size_u32: "n \<le> 1048576 \<Longrightarrow> unat (word_of_nat n :: u32) = n"
  by (simp add: unat_of_nat)

lemma DecodeWriteRequest_iff:
  "andThen (DecodeWriteRequest f) (\<lambda>w. Ok (requestId f, w)) = Ok m
    \<longleftrightarrow> valid_write m \<and> TryEncodeWriteRequest (fst m) (snd m) = Ok f"
proof
  assume "andThen (DecodeWriteRequest f) (\<lambda>r. Ok (requestId f, r)) = Ok m"
  then obtain r where r: "snd m = r" and dec: "DecodeWriteRequest f = Ok r" and rid: "fst m = requestId f"
    by (auto simp: andThen_Ok_iff)
  let ?p = "payload f"
  from dec have type: "frameType f = MtWriteRequest" "valid_frame f" and len: "8 \<le> length ?p"
    and size: "unat (snd (ReadLittle ?p 4) :: u32) = length ?p - 8"
    and h: "wrAddress r = snd (ReadLittle ?p 0)" "wrData r = drop 8 ?p"
    by (auto simp: DecodeWriteRequest_def andThen_Ok_iff RequireFrameType_Ok Let_def split: if_splits)
  have valid: "valid_write m"
    using r type rid h by (auto simp: valid_write_def valid_frame_def)
  have "(word_of_nat (length (wrData r)) :: u32) = snd (ReadLittle ?p 4)"
    by (simp add: h flip: size)
  then have "?p = le_bytes (wrAddress r) @ le_bytes (word_of_nat (length (wrData r)) :: u32) @ wrData r"
    using drop_ReadLittle_u32 [of 0 ?p] drop_ReadLittle_u32 [of 4 ?p] len h by simp
  moreover have "valid_write (fst m, r)" using valid by (simp flip: r)
  ultimately show "valid_write m \<and> TryEncodeWriteRequest (fst m) (snd m) = Ok f"
    using r type rid valid
    by (auto simp: TryEncodeWriteRequest_Ok valid_frame_def intro!: Frame_eqI)
next
  assume enc: "valid_write m \<and> TryEncodeWriteRequest (fst m) (snd m) = Ok f"
  obtain rid w where m: "m = (rid, w)" by (cases m)
  with enc have valid: "rid \<noteq> 0" "length (wrData w) \<le> 1048560"
    and f: "f = emptyFrame\<lparr>frameType := MtWriteRequest, requestId := rid,
      payload := le_bytes (wrAddress w) @ le_bytes (word_of_nat (length (wrData w)) :: u32) @ wrData w\<rparr>"
    by (auto simp: TryEncodeWriteRequest_Ok) (auto simp: valid_write_def)
  show "andThen (DecodeWriteRequest f) (\<lambda>r. Ok (requestId f, r)) = Ok m"
    using valid by (simp add: m f DecodeWriteRequest_def andThen_Ok_iff RequireFrameType_Ok
        valid_frame_def codec_simps Let_def unat_size_u32)
qed

definition valid_error :: "u32 \<times> ErrorMessage \<Rightarrow> bool" where
  "valid_error m \<longleftrightarrow> length (emDiagnostic (snd m)) \<le> 1024
     \<and> IsValidUtf8 (map byte_of_char (emDiagnostic (snd m)))"

lemma TryEncodeError_Ok:
  "valid_error (rid, e) \<Longrightarrow> TryEncodeError rid e = Ok (emptyFrame\<lparr>frameType := MtError,
     requestId := rid, payload := le_bytes (ProtocolErrorCodeValue (emCode e))
       @ le_bytes (word_of_nat (length (emDiagnostic e)) :: u16) @ map byte_of_char (emDiagnostic e)\<rparr>)"
  by (simp add: valid_error_def TryEncodeError_def Let_def andThen_Ok_iff valid_frame_def)

lemma DecodeProtocolErrorCode_Value [simp]: "DecodeProtocolErrorCode (ProtocolErrorCodeValue c) = Some c"
  by (cases c) (simp_all add: DecodeProtocolErrorCode_def)

lemma DecodeProtocolErrorCode_Some: "DecodeProtocolErrorCode v = Some c \<Longrightarrow> ProtocolErrorCodeValue c = v"
  by (auto simp: DecodeProtocolErrorCode_def split: if_splits)

lemma BytesToString_bytes [simp]: "map byte_of_char (BytesToString bs) = bs" "length (BytesToString bs) = length bs"
  by (simp_all add: BytesToString_def o_def)

lemma BytesToString_string [simp]: "BytesToString (map byte_of_char s) = s"
  by (simp add: BytesToString_def o_def)

lemma DecodeErrorMessage_iff:
  "andThen (DecodeErrorMessage f) (\<lambda>e. Ok (requestId f, e)) = Ok m
    \<longleftrightarrow> valid_error m \<and> TryEncodeError (fst m) (snd m) = Ok f"
proof
  assume "andThen (DecodeErrorMessage f) (\<lambda>r. Ok (requestId f, r)) = Ok m"
  then obtain r where r: "snd m = r" and dec: "DecodeErrorMessage f = Ok r" and rid: "fst m = requestId f"
    by (auto simp: andThen_Ok_iff)
  let ?p = "payload f"
  from dec have type: "frameType f = MtError" "valid_frame f" and len: "4 \<le> length ?p"
    and size: "unat (snd (ReadLittle ?p 2) :: u16) = length ?p - 4" "length ?p - 4 \<le> 1024"
    and utf8: "IsValidUtf8 (drop 4 ?p)"
    and h: "DecodeProtocolErrorCode (snd (ReadLittle ?p 0)) = Some (emCode r)"
      "emDiagnostic r = BytesToString (drop 4 ?p)"
    by (auto simp: DecodeErrorMessage_def andThen_Ok_iff RequireFrameType_Ok Let_def split: if_splits option.splits)
  have valid: "valid_error m" using size utf8 by (simp add: valid_error_def h r)
  have "(word_of_nat (length (emDiagnostic r)) :: u16) = snd (ReadLittle ?p 2)"
    by (simp add: h flip: size(1))
  then have "?p = le_bytes (ProtocolErrorCodeValue (emCode r))
      @ le_bytes (word_of_nat (length (emDiagnostic r)) :: u16) @ map byte_of_char (emDiagnostic r)"
    using drop_ReadLittle_u16 [of 0 ?p] drop_ReadLittle_u16 [of 2 ?p] len h(2) DecodeProtocolErrorCode_Some [OF h(1)]
    by (simp flip: numeral_2_eq_2)
  moreover have "valid_error (fst m, r)" using valid by (simp flip: r)
  ultimately show "valid_error m \<and> TryEncodeError (fst m) (snd m) = Ok f"
    using r type rid valid
    by (auto simp: TryEncodeError_Ok valid_frame_def intro!: Frame_eqI)
next
  assume enc: "valid_error m \<and> TryEncodeError (fst m) (snd m) = Ok f"
  obtain rid e where m: "m = (rid, e)" by (cases m)
  let ?n = "length (emDiagnostic e)"
  from enc m have valid: "?n \<le> 1024" "IsValidUtf8 (map byte_of_char (emDiagnostic e))"
    and f: "f = emptyFrame\<lparr>frameType := MtError, requestId := rid,
      payload := le_bytes (ProtocolErrorCodeValue (emCode e))
       @ le_bytes (word_of_nat ?n :: u16) @ map byte_of_char (emDiagnostic e)\<rparr>"
    by (auto simp: TryEncodeError_Ok) (auto simp: valid_error_def)
  have "unat (word_of_nat ?n :: u16) = ?n" using valid(1) by (simp add: unat_of_nat)
  then show "andThen (DecodeErrorMessage f) (\<lambda>r. Ok (requestId f, r)) = Ok m"
    using valid by (simp add: m f DecodeErrorMessage_def andThen_Ok_iff RequireFrameType_Ok
        valid_frame_def codec_simps Let_def)
qed

interpretation client_hello: partial_codec "\<lambda>h. Ok (EncodeClientHello h)" DecodeClientHello "\<lambda>_. True"
  by unfold_locales (simp add: DecodeClientHello_iff)

interpretation server_hello: partial_codec "\<lambda>h. Ok (EncodeServerHello h)" DecodeServerHello "\<lambda>_. True"
  by unfold_locales (simp add: DecodeServerHello_iff)

interpretation read_request: partial_codec "\<lambda>(rid, r). Ok (EncodeReadRequest rid r)"
    "\<lambda>f. andThen (DecodeReadRequest f) (\<lambda>r. Ok (requestId f, r))" "\<lambda>m. fst m \<noteq> 0"
  by unfold_locales (simp add: DecodeReadRequest_iff split: prod.split)

interpretation write_request: partial_codec "\<lambda>(rid, w). TryEncodeWriteRequest rid w"
    "\<lambda>f. andThen (DecodeWriteRequest f) (\<lambda>w. Ok (requestId f, w))" valid_write
  by unfold_locales (simp add: DecodeWriteRequest_iff split: prod.split)

interpretation error_message: partial_codec "\<lambda>(rid, e). TryEncodeError rid e"
    "\<lambda>f. andThen (DecodeErrorMessage f) (\<lambda>e. Ok (requestId f, e))" valid_error
  by unfold_locales (simp add: DecodeErrorMessage_iff split: prod.split)

section \<open>Properties\<close>

text \<open>
  A frame is encoded exactly when it is valid (a known type, zero flags, a request ID that is
  zero for control and nonzero for memory messages, a body of at most 1 MiB), and its bytes are
  the little-endian body length, the type, the flags, a zero reserved field, the request ID and
  the payload.
\<close>

theorem encode_frame_bytes:
  "TryEncodeFrame f = Ok w \<longleftrightarrow>
     IsKnownMessageType (frameType f) \<and> flags f = 0
     \<and> (frameType f \<in> {MtClientHello, MtServerHello, MtClose} \<longrightarrow> requestId f = 0)
     \<and> (frameType f \<in> {MtReadRequest, MtWriteRequest, MtReadResult, MtWriteResult} \<longrightarrow> requestId f \<noteq> 0)
     \<and> 8 + length (payload f) \<le> 1024 * 1024
     \<and> w = le_bytes (word_of_nat (8 + length (payload f)) :: u32) @ [MessageTypeValue (frameType f), 0]
            @ [0, 0] @ le_bytes (requestId f) @ payload f"
proof -
  have "le_bytes (0 :: u16) = [0, 0]" by (simp add: le_bytes_def numeral_2_eq_2)
  then show ?thesis
    by (auto simp: TryEncodeFrame_Ok_iff valid_frame_def frame_wire_def RequiresZeroRequestId_def
        RequiresNonzeroRequestId_def simp del: of_nat_add)
qed

theorem encode_frame_bytes_witness:
  "TryEncodeFrame EncodeClose = Ok (le_bytes (8 :: u32) @ [8, 0] @ [0, 0] @ le_bytes (0 :: u32))"
  using encode_frame_bytes [of EncodeClose] by (simp add: EncodeClose_def)

text \<open>
  The hello messages of the bridge have one encoding each and it decodes to the same message: a
  frame decodes as a \<^verbatim>\<open>ClientHello\<close> or \<^verbatim>\<open>ServerHello\<close> exactly when it is the encoding of the
  message it decodes to, so nothing else (wrong type, wrong magic, wrong size, nonzero padding,
  unknown status) is accepted.
\<close>

theorem hello_codecs:
  "(DecodeClientHello f = Ok ch \<longleftrightarrow> EncodeClientHello ch = f)
   \<and> (DecodeServerHello f = Ok sh \<longleftrightarrow> EncodeServerHello sh = f)"
  using client_hello.dec_iff [of f ch] server_hello.dec_iff [of f sh] by simp

text \<open>
  Memory requests survive the wire: the frame of a read or write request with a nonzero ID and
  data that fits a frame decodes to the same ID and request, and any frame that decodes is the one
  encoding of what it decodes to (a byte count that disagrees with the payload is refused).
\<close>

theorem memory_request_codecs:
  "(DecodeReadRequest f = Ok r \<and> requestId f = rid \<longleftrightarrow> rid \<noteq> 0 \<and> f = EncodeReadRequest rid r)
   \<and> (DecodeWriteRequest f = Ok w \<and> requestId f = rid
        \<longleftrightarrow> rid \<noteq> 0 \<and> length (wrData w) \<le> 1024 * 1024 - 16 \<and> TryEncodeWriteRequest rid w = Ok f)"
  using read_request.dec_iff [of f "(rid, r)"] write_request.dec_iff [of f "(rid, w)"]
  by (auto simp: andThen_Ok_iff valid_write_def)

text \<open>
  Error messages survive the wire: a diagnostic of at most 1024 bytes of UTF-8 is encoded, the
  frame decodes to the same code and text, and every frame accepted as an error is the encoding of
  what it decodes to.
\<close>

theorem error_message_codec:
  "DecodeErrorMessage f = Ok e \<and> requestId f = rid \<longleftrightarrow>
     length (emDiagnostic e) \<le> 1024 \<and> IsValidUtf8 (map byte_of_char (emDiagnostic e)) \<and> TryEncodeError rid e = Ok f"
  using error_message.dec_iff [of f "(rid, e)"] by (auto simp: andThen_Ok_iff valid_error_def)

end
