(* ===== verification/FrameDecoder.thy ===== *)
theory FrameDecoder
  imports BridgeFrame
begin

text \<open>
  \<^verbatim>\<open>FrameDecoder\<close> of \<^verbatim>\<open>RogueAssistantCpp/Src/Bridge/BridgeProtocol.cpp\<close>: the incremental
  decoder of the byte stream that arrives from the script, one definition per member function.
  The \<^verbatim>\<open>Append\<close> loop is shown to agree with a decoder that takes one byte at a time, which makes
  the result independent of how the stream is cut, and to accept exactly the encodings of frame
  sequences within the receive limits.
\<close>

section \<open>State and operations\<close>

datatype DecodeError =
  DeNone | BodyTooSmall | FrameTooLarge | InvalidMessageType | UnsupportedFlags | NonzeroReserved
| DeInvalidRequestId | QueueOverflow

record FrameDecoder =
  fd_Buffer :: bytes
  fd_ExpectedWireSize :: nat
  fd_Frames :: "Frame list"
  fd_QueuedBytes :: nat
  fd_Error :: DecodeError
  fd_Diagnostic :: string

definition newFrameDecoder :: FrameDecoder where
  "newFrameDecoder = \<lparr>fd_Buffer = [], fd_ExpectedWireSize = 0, fd_Frames = [], fd_QueuedBytes = 0,
     fd_Error = DeNone, fd_Diagnostic = []\<rparr>"

definition DecoderFail :: "DecodeError \<Rightarrow> string \<Rightarrow> FrameDecoder \<Rightarrow> FrameDecoder" where
  "DecoderFail e diagnostic d =
     d\<lparr>fd_Error := e, fd_Diagnostic := diagnostic, fd_Buffer := [], fd_ExpectedWireSize := 0\<rparr>"

definition ReadExpectedSize :: "FrameDecoder \<Rightarrow> bool \<times> FrameDecoder" where
  "ReadExpectedSize d =
     (let bodyLength = unat (snd (ReadLittle (fd_Buffer d) 0) :: u32) in
      if bodyLength < FrameBodyHeaderSize
      then (False, DecoderFail BodyTooSmall ''bridge frame body is shorter than its fixed header'' d)
      else if bodyLength > MaximumFrameBodyLength
      then (False, DecoderFail FrameTooLarge ''bridge frame body exceeds 1 MiB'' d)
      else (True, d\<lparr>fd_ExpectedWireSize := FrameLengthSize + bodyLength\<rparr>))"

definition DecodeBufferedFrame :: "FrameDecoder \<Rightarrow> bool \<times> FrameDecoder" where
  "DecodeBufferedFrame d =
     (let encodedType = fd_Buffer d ! 4 in
      if encodedType < MessageTypeValue MtClientHello \<or> encodedType > MessageTypeValue MtClose
      then (False, DecoderFail InvalidMessageType ''unknown bridge message type'' d)
      else if fd_Buffer d ! 5 \<noteq> 0
      then (False, DecoderFail UnsupportedFlags ''bridge protocol 1.0 requires zero flags'' d)
      else if snd (ReadLittle (fd_Buffer d) 6) \<noteq> (0 :: u16)
      then (False, DecoderFail NonzeroReserved ''bridge frame reserved field must be zero'' d)
      else
        let frame = emptyFrame\<lparr>frameType := MessageTypeCast encodedType,
              requestId := snd (ReadLittle (fd_Buffer d) 8), payload := drop 12 (fd_Buffer d)\<rparr> in
        case ValidateFrame frame of
          Inl validationError \<Rightarrow> (False, DecoderFail DeInvalidRequestId validationError d)
        | Inr _ \<Rightarrow>
            if length (fd_Frames d) \<ge> MaximumQueuedFrames
               \<or> fd_QueuedBytes d > size_sub MaximumQueuedFrameBytes (fd_ExpectedWireSize d)
            then (False, DecoderFail QueueOverflow ''bridge receive queue is full'' d)
            else (True, d\<lparr>fd_QueuedBytes := fd_QueuedBytes d + fd_ExpectedWireSize d,
                    fd_Frames := fd_Frames d @ [frame], fd_Buffer := [], fd_ExpectedWireSize := 0\<rparr>))"

lemma DecodeBufferedFrame_resets:
  "DecodeBufferedFrame d = (True, d') \<Longrightarrow> fd_Buffer d' = [] \<and> fd_ExpectedWireSize d' = 0"
  by (auto simp: DecodeBufferedFrame_def Let_def split: if_splits sum.splits)

text \<open>
  The loop of \<^verbatim>\<open>Append\<close> from \<open>inputOffset\<close> on. The block before the body read either ends the
  iteration (\<^verbatim>\<open>continue\<close>), ends the call (\<^verbatim>\<open>return false\<close>) or falls through to the body read,
  which ends the call (\<open>Inl\<close>) or goes to the next iteration (\<open>Inr\<close>).
\<close>

datatype HeaderPart =
  Continue FrameDecoder nat | FallThrough FrameDecoder nat | Return FrameDecoder

definition AppendHeader :: "FrameDecoder \<Rightarrow> bytes \<Rightarrow> nat \<Rightarrow> HeaderPart" where
  "AppendHeader d bs inputOffset =
     (if fd_ExpectedWireSize d = 0 \<and> length (fd_Buffer d) < FrameLengthSize then
        (let count = min (FrameLengthSize - length (fd_Buffer d)) (length bs - inputOffset);
             d = d\<lparr>fd_Buffer := fd_Buffer d @ take count (drop inputOffset bs)\<rparr>;
             inputOffset = inputOffset + count in
         if length (fd_Buffer d) < FrameLengthSize then Continue d inputOffset
         else (case ReadExpectedSize d of
             (False, d) \<Rightarrow> Return d
           | (True, d) \<Rightarrow> FallThrough d inputOffset))
      else FallThrough d inputOffset)"

definition AppendBody :: "FrameDecoder \<Rightarrow> bytes \<Rightarrow> nat \<Rightarrow> FrameDecoder + FrameDecoder \<times> nat" where
  "AppendBody d bs inputOffset =
     (let count = min (size_sub (fd_ExpectedWireSize d) (length (fd_Buffer d))) (length bs - inputOffset);
          d = d\<lparr>fd_Buffer := fd_Buffer d @ take count (drop inputOffset bs)\<rparr>;
          inputOffset = inputOffset + count in
      if length (fd_Buffer d) = fd_ExpectedWireSize d then
        (case DecodeBufferedFrame d of
           (False, d) \<Rightarrow> Inl d
         | (True, d) \<Rightarrow> Inr (d, inputOffset))
      else Inr (d, inputOffset))"

text \<open>The measure of the loop: input that is left, then whether the state still has a frame to finish.\<close>

definition append_measure :: "FrameDecoder \<Rightarrow> bytes \<Rightarrow> nat \<Rightarrow> nat" where
  "append_measure d bs inputOffset = 2 * (length bs - inputOffset)
     + (if fd_ExpectedWireSize d = 0 \<and> length (fd_Buffer d) < 4 then 0 else 1)"

lemma AppendHeader_Continue:
  "off < length bs \<Longrightarrow> AppendHeader d bs off = Continue d1 o1 \<Longrightarrow> append_measure d1 bs o1 < append_measure d bs off"
  by (auto simp: AppendHeader_def append_measure_def Let_def split: if_splits prod.splits bool.splits)

lemma AppendHeader_FallThrough:
  "off < length bs \<Longrightarrow> AppendHeader d bs off = FallThrough d1 o1 \<Longrightarrow>
   (off < o1 \<and> o1 \<le> length bs) \<or> (o1 = off \<and> d1 = d \<and> \<not> (fd_ExpectedWireSize d = 0 \<and> length (fd_Buffer d) < 4))"
  by (auto simp: AppendHeader_def Let_def split: if_splits prod.splits bool.splits)

lemma AppendBody_progress:
  assumes "AppendBody d bs off = Inr (d1, o1)" and "off \<le> length bs"
  shows "off < o1 \<and> o1 \<le> length bs \<or> o1 = off \<and> (off < length bs \<longrightarrow> fd_ExpectedWireSize d1 = 0 \<and> fd_Buffer d1 = [])"
proof -
  define count where "count = min (size_sub (fd_ExpectedWireSize d) (length (fd_Buffer d))) (length bs - off)"
  have o1: "o1 = off + count"
    using assms(1) by (auto simp: AppendBody_def Let_def count_def split: if_splits prod.splits bool.splits)
  show ?thesis
  proof (cases "count = 0 \<and> off < length bs")
    case True
    then have "size_sub (fd_ExpectedWireSize d) (length (fd_Buffer d)) = 0"
      by (simp add: count_def min_def split: if_splits)
    then have "length (fd_Buffer d) = fd_ExpectedWireSize d" by (simp add: size_sub_0_iff)
    with True assms(1) have "DecodeBufferedFrame (d\<lparr>fd_Buffer := fd_Buffer d\<rparr>) = (True, d1)"
      by (auto simp: AppendBody_def Let_def count_def [symmetric] split: if_splits prod.splits bool.splits)
    with True show ?thesis by (auto simp: o1 dest: DecodeBufferedFrame_resets)
  next
    case False
    moreover have "off + count \<le> length bs" using assms(2) by (simp add: count_def)
    ultimately show ?thesis by (auto simp: o1)
  qed
qed

function AppendFrom :: "FrameDecoder \<Rightarrow> bytes \<Rightarrow> nat \<Rightarrow> bool \<times> FrameDecoder" where
  "AppendFrom d bs inputOffset =
     (if inputOffset < length bs then
        (case AppendHeader d bs inputOffset of
           Return d1 \<Rightarrow> (False, d1)
         | Continue d1 o1 \<Rightarrow> AppendFrom d1 bs o1
         | FallThrough d1 o1 \<Rightarrow>
             (case AppendBody d1 bs o1 of
                Inl d2 \<Rightarrow> (False, d2)
              | Inr (d2, o2) \<Rightarrow> AppendFrom d2 bs o2))
      else (True, d))"
  by pat_completeness auto
termination
proof (relation "measure (\<lambda>(d, bs, off). append_measure d bs off)")
  show "wf (measure (\<lambda>(d, bs, off). append_measure d bs off))" by simp
next
  fix d bs off d1 o1
  assume "off < length bs" "AppendHeader d bs off = Continue d1 o1"
  then show "((d1, bs, o1), d, bs, off) \<in> measure (\<lambda>(d, bs, off). append_measure d bs off)"
    by (simp add: AppendHeader_Continue)
next
  fix d bs off d1 o1 p d2 o2
  assume off: "off < length bs" and h: "AppendHeader d bs off = FallThrough d1 o1"
    and "AppendBody d1 bs o1 = Inr p" "(d2, o2) = p"
  then have b: "AppendBody d1 bs o1 = Inr (d2, o2)" by simp
  from AppendHeader_FallThrough [OF off h] off have o1: "o1 \<le> length bs" by auto
  show "((d2, bs, o2), d, bs, off) \<in> measure (\<lambda>(d, bs, off). append_measure d bs off)"
    using AppendHeader_FallThrough [OF off h] AppendBody_progress [OF b o1] off
    by (auto simp: append_measure_def)
qed

declare AppendFrom.simps [simp del]

definition Append :: "FrameDecoder \<Rightarrow> bytes \<Rightarrow> bool \<times> FrameDecoder" where
  "Append d bs = (if fd_Error d \<noteq> DeNone then (False, d) else AppendFrom d bs 0)"

definition PollFrames :: "FrameDecoder \<Rightarrow> Frame list \<times> FrameDecoder" where
  "PollFrames d = (fd_Frames d, d\<lparr>fd_Frames := [], fd_QueuedBytes := 0\<rparr>)"

definition DecoderQueuedFrameCount :: "FrameDecoder \<Rightarrow> nat" where
  "DecoderQueuedFrameCount d = length (fd_Frames d)"

definition DecoderReset :: "FrameDecoder \<Rightarrow> FrameDecoder" where
  "DecoderReset d = d\<lparr>fd_Buffer := [], fd_ExpectedWireSize := 0, fd_Frames := [], fd_QueuedBytes := 0,
     fd_Error := DeNone, fd_Diagnostic := []\<rparr>"

section \<open>The invariant and the decoder that takes one byte at a time\<close>

definition decoder_inv :: "FrameDecoder \<Rightarrow> bool" where
  "decoder_inv d \<longleftrightarrow>
     (if fd_ExpectedWireSize d = 0 then length (fd_Buffer d) < 4
      else 4 \<le> length (fd_Buffer d) \<and> length (fd_Buffer d) < fd_ExpectedWireSize d
         \<and> 12 \<le> fd_ExpectedWireSize d \<and> fd_ExpectedWireSize d \<le> 1048580
         \<and> fd_ExpectedWireSize d = 4 + unat (snd (ReadLittle (fd_Buffer d) 0) :: u32))
     \<and> (fd_Error d \<noteq> DeNone \<longrightarrow> fd_Buffer d = [] \<and> fd_ExpectedWireSize d = 0)
     \<and> list_all valid_frame (fd_Frames d) \<and> length (fd_Frames d) \<le> 256
     \<and> fd_QueuedBytes d = sum_list (map WireSize (fd_Frames d)) \<and> fd_QueuedBytes d \<le> 4194304"

definition feed_byte :: "FrameDecoder \<Rightarrow> u8 \<Rightarrow> FrameDecoder" where
  "feed_byte d b =
     (if fd_Error d \<noteq> DeNone then d
      else let d = d\<lparr>fd_Buffer := fd_Buffer d @ [b]\<rparr> in
        if fd_ExpectedWireSize d = 0
        then (if length (fd_Buffer d) < 4 then d else snd (ReadExpectedSize d))
        else if length (fd_Buffer d) = fd_ExpectedWireSize d then snd (DecodeBufferedFrame d)
        else d)"

abbreviation feed :: "FrameDecoder \<Rightarrow> bytes \<Rightarrow> FrameDecoder" where
  "feed d bs \<equiv> foldl feed_byte d bs"

lemma DecoderFail_sel [simp]:
  "fd_Error (DecoderFail e m d) = e" "fd_Buffer (DecoderFail e m d) = []"
  "fd_ExpectedWireSize (DecoderFail e m d) = 0" "fd_Frames (DecoderFail e m d) = fd_Frames d"
  "fd_QueuedBytes (DecoderFail e m d) = fd_QueuedBytes d"
  by (simp_all add: DecoderFail_def)

lemma ReadExpectedSize_error:
  "fd_Error d = DeNone \<Longrightarrow> fd_Error (snd (ReadExpectedSize d)) = DeNone \<longleftrightarrow> fst (ReadExpectedSize d)"
  by (auto simp: ReadExpectedSize_def Let_def)

lemma DecodeBufferedFrame_error:
  "fd_Error d = DeNone \<Longrightarrow> fd_Error (snd (DecodeBufferedFrame d)) = DeNone \<longleftrightarrow> fst (DecodeBufferedFrame d)"
  by (auto simp: DecodeBufferedFrame_def Let_def split: sum.splits)

lemma feed_error [simp]: "fd_Error d \<noteq> DeNone \<Longrightarrow> feed d bs = d"
  by (induction bs) (simp_all add: feed_byte_def)

lemma ReadLittle_append_left:
  fixes v :: "'a::len word"
  assumes "sizeof TYPE('a) \<le> length bs"
  shows "(ReadLittle (bs @ cs) 0 :: bool \<times> 'a word) = ReadLittle bs 0"
proof -
  have "foldl (\<lambda>e i. e OR push_bit (i * 8) (ucast ((bs @ cs) ! (0 + i)))) (0 :: 'a word) [0..<sizeof TYPE('a)]
      = foldl (\<lambda>e i. e OR push_bit (i * 8) (ucast (bs ! (0 + i)))) 0 [0..<sizeof TYPE('a)]"
    using assms by (intro foldl_cong refl) (simp add: nth_append)
  with assms show ?thesis by (simp add: ReadLittle_def)
qed

lemma ReadExpectedSize_inv:
  assumes "decoder_inv d" "fd_Error d = DeNone" "fd_ExpectedWireSize d = 0"
    and "length bs = 4"
  shows "decoder_inv (snd (ReadExpectedSize (d\<lparr>fd_Buffer := bs\<rparr>)))"
  using assms by (auto simp: ReadExpectedSize_def decoder_inv_def Let_def)

lemma DecodeBufferedFrame_inv:
  assumes inv: "decoder_inv d" and err: "fd_Error d = DeNone" and size: "fd_ExpectedWireSize d \<noteq> 0"
    and len: "length bs = fd_ExpectedWireSize d"
  shows "decoder_inv (snd (DecodeBufferedFrame (d\<lparr>fd_Buffer := bs\<rparr>)))"
proof -
  have "12 \<le> length bs" "fd_ExpectedWireSize d \<le> 1048580" using inv size len by (auto simp: decoder_inv_def)
  then show ?thesis
    using assms
    by (auto simp: DecodeBufferedFrame_def decoder_inv_def Let_def WireSize_def split: sum.splits)
qed

lemma feed_byte_inv: "decoder_inv d \<Longrightarrow> decoder_inv (feed_byte d b)"
proof -
  assume inv: "decoder_inv d"
  consider "fd_Error d \<noteq> DeNone" | "fd_Error d = DeNone" "fd_ExpectedWireSize d = 0"
    | "fd_Error d = DeNone" "fd_ExpectedWireSize d \<noteq> 0" by blast
  then show ?thesis
  proof cases
    case 1
    with inv show ?thesis by (simp add: feed_byte_def)
  next
    case 2
    have "length (fd_Buffer d) < 4" using inv 2 by (simp add: decoder_inv_def)
    then show ?thesis
      using 2 inv ReadExpectedSize_inv [OF inv 2, of "fd_Buffer d @ [b]"]
      by (auto simp: feed_byte_def Let_def) (simp add: decoder_inv_def)
  next
    case 3
    have "4 \<le> length (fd_Buffer d)" using inv 3 by (simp add: decoder_inv_def)
    then have "(ReadLittle (fd_Buffer d @ [b]) 0 :: bool \<times> u32) = ReadLittle (fd_Buffer d) 0"
      by (intro ReadLittle_append_left) simp
    then show ?thesis
      using 3 inv DecodeBufferedFrame_inv [OF inv 3, of "fd_Buffer d @ [b]"]
      by (auto simp: feed_byte_def Let_def) (simp add: decoder_inv_def)
  qed
qed

lemma feed_inv: "decoder_inv d \<Longrightarrow> decoder_inv (feed d bs)"
  by (induction bs arbitrary: d) (simp_all add: feed_byte_inv)

text \<open>Filling the length field, and filling the rest of a frame.\<close>

lemma feed_header:
  "fd_Error d = DeNone \<Longrightarrow> fd_ExpectedWireSize d = 0 \<Longrightarrow> length (fd_Buffer d) + length xs \<le> 4 \<Longrightarrow> xs \<noteq> [] \<Longrightarrow>
   feed d xs = (let d' = d\<lparr>fd_Buffer := fd_Buffer d @ xs\<rparr> in
     if length (fd_Buffer d') < 4 then d' else snd (ReadExpectedSize d'))"
proof (induction xs arbitrary: d)
  case (Cons x xs)
  show ?case
  proof (cases "xs = []")
    case True
    with Cons.prems show ?thesis by (simp add: feed_byte_def Let_def)
  next
    case False
    then have "length (fd_Buffer d) + 1 < 4" using Cons.prems(3) by (cases xs) auto
    then have "feed_byte d x = d\<lparr>fd_Buffer := fd_Buffer d @ [x]\<rparr>"
      using Cons.prems by (simp add: feed_byte_def)
    with Cons.IH [of "feed_byte d x"] Cons.prems False show ?thesis by simp
  qed
qed simp

lemma feed_body:
  "fd_Error d = DeNone \<Longrightarrow> fd_ExpectedWireSize d \<noteq> 0 \<Longrightarrow> length (fd_Buffer d) + length xs \<le> fd_ExpectedWireSize d \<Longrightarrow>
   xs \<noteq> [] \<Longrightarrow>
   feed d xs = (let d' = d\<lparr>fd_Buffer := fd_Buffer d @ xs\<rparr> in
     if length (fd_Buffer d') = fd_ExpectedWireSize d' then snd (DecodeBufferedFrame d') else d')"
proof (induction xs arbitrary: d)
  case (Cons x xs)
  show ?case
  proof (cases "xs = []")
    case True
    with Cons.prems show ?thesis by (simp add: feed_byte_def Let_def)
  next
    case False
    then have "length (fd_Buffer d) + 1 \<noteq> fd_ExpectedWireSize d" using Cons.prems(3) by (cases xs) auto
    then have "feed_byte d x = d\<lparr>fd_Buffer := fd_Buffer d @ [x]\<rparr>"
      using Cons.prems by (simp add: feed_byte_def)
    with Cons.IH [of "feed_byte d x"] Cons.prems False show ?thesis by simp
  qed
qed simp

text \<open>Each part of an iteration feeds the bytes it takes from the input.\<close>

lemma AppendHeader_feed:
  assumes inv: "decoder_inv d" and err: "fd_Error d = DeNone" and off: "off < length bs"
  shows "case AppendHeader d bs off of
      Return d1 \<Rightarrow> \<exists>k. d1 = feed d (take k (drop off bs)) \<and> fd_Error d1 \<noteq> DeNone
    | Continue d1 o1 \<Rightarrow> \<exists>k. d1 = feed d (take k (drop off bs)) \<and> o1 = off + k \<and> fd_Error d1 = DeNone
    | FallThrough d1 o1 \<Rightarrow> \<exists>k. d1 = feed d (take k (drop off bs)) \<and> o1 = off + k \<and> o1 \<le> length bs
        \<and> fd_Error d1 = DeNone \<and> fd_ExpectedWireSize d1 \<noteq> 0"
proof (cases "fd_ExpectedWireSize d = 0")
  case True
  then have len: "length (fd_Buffer d) < 4" using inv by (simp add: decoder_inv_def)
  define k where "k = min (4 - length (fd_Buffer d)) (length bs - off)"
  let ?xs = "take k (drop off bs)"
  have xs: "?xs \<noteq> []" "length (fd_Buffer d) + length ?xs \<le> 4" and k: "length ?xs = k" "off + k \<le> length bs"
    using off len by (auto simp: k_def)
  let ?d = "d\<lparr>fd_Buffer := fd_Buffer d @ ?xs\<rparr>"
  have f: "feed d ?xs = (if length (fd_Buffer ?d) < 4 then ?d else snd (ReadExpectedSize ?d))"
    using feed_header [OF err True xs(2,1)] by (simp add: Let_def)
  have h: "AppendHeader d bs off = (if length (fd_Buffer ?d) < 4 then Continue ?d (off + k)
      else (case ReadExpectedSize ?d of (False, d) \<Rightarrow> Return d | (True, d) \<Rightarrow> FallThrough d (off + k)))"
    unfolding AppendHeader_def Let_def frame_limits k_def [symmetric] using True len by simp
  show ?thesis
  proof (cases "length (fd_Buffer ?d) < 4")
    case True
    with h f err show ?thesis by (auto intro!: exI [of _ k])
  next
    case False
    then have f': "feed d ?xs = snd (ReadExpectedSize ?d)" using f by simp
    show ?thesis
    proof (cases "ReadExpectedSize ?d")
      case (Pair ok d1)
      with False h have hh: "AppendHeader d bs off = (if ok then FallThrough d1 (off + k) else Return d1)"
        by (cases ok) simp_all
      have "fd_Error d1 = DeNone \<longleftrightarrow> ok" using ReadExpectedSize_error [of ?d] err Pair by simp
      moreover have "ok \<Longrightarrow> fd_ExpectedWireSize d1 \<noteq> 0"
        using Pair by (auto simp: ReadExpectedSize_def Let_def split: if_splits)
      moreover have "d1 = feed d ?xs" using f' Pair by simp
      ultimately show ?thesis using k(2) unfolding hh by (cases ok) (auto intro!: exI [of _ k])
    qed
  qed
next
  case False
  then show ?thesis using err off by (auto simp: AppendHeader_def intro!: exI [of _ 0])
qed

lemma AppendBody_feed:
  assumes inv: "decoder_inv d" and err: "fd_Error d = DeNone" and size: "fd_ExpectedWireSize d \<noteq> 0"
    and off: "off \<le> length bs"
  shows "case AppendBody d bs off of
      Inl d1 \<Rightarrow> \<exists>k. d1 = feed d (take k (drop off bs)) \<and> fd_Error d1 \<noteq> DeNone
    | Inr (d1, o1) \<Rightarrow> \<exists>k. d1 = feed d (take k (drop off bs)) \<and> o1 = off + k \<and> fd_Error d1 = DeNone"
proof -
  have len: "length (fd_Buffer d) < fd_ExpectedWireSize d" using inv size by (simp add: decoder_inv_def)
  define k where "k = min (fd_ExpectedWireSize d - length (fd_Buffer d)) (length bs - off)"
  let ?xs = "take k (drop off bs)"
  have xs: "length (fd_Buffer d) + length ?xs \<le> fd_ExpectedWireSize d" using len by (simp add: k_def)
  let ?d = "d\<lparr>fd_Buffer := fd_Buffer d @ ?xs\<rparr>"
  have f: "feed d ?xs = (if length (fd_Buffer ?d) = fd_ExpectedWireSize d then snd (DecodeBufferedFrame ?d) else ?d)"
  proof (cases "?xs = []")
    case True
    show ?thesis unfolding True using len by simp
  next
    case False
    then show ?thesis using feed_body [OF err size xs] by (simp add: Let_def)
  qed
  have b: "AppendBody d bs off = (if length (fd_Buffer ?d) = fd_ExpectedWireSize d
      then (case DecodeBufferedFrame ?d of (False, d) \<Rightarrow> Inl d | (True, d) \<Rightarrow> Inr (d, off + k))
      else Inr (?d, off + k))"
    unfolding AppendBody_def Let_def size_sub_le [OF less_imp_le [OF len]] k_def [symmetric] by simp
  show ?thesis
  proof (cases "length (fd_Buffer ?d) = fd_ExpectedWireSize d")
    case True
    show ?thesis
    proof (cases "DecodeBufferedFrame ?d")
      case (Pair ok d1)
      then have "fd_Error d1 = DeNone \<longleftrightarrow> ok" "d1 = feed d ?xs"
        using DecodeBufferedFrame_error [of ?d] err f True by simp_all
      moreover have "AppendBody d bs off = (if ok then Inr (d1, off + k) else Inl d1)"
        using Pair b True by (cases ok) simp_all
      ultimately show ?thesis by (cases ok) (auto intro!: exI [of _ k])
    qed
  next
    case False
    then have "AppendBody d bs off = Inr (?d, off + k)" "feed d ?xs = ?d" using b f by (simp_all del: length_append)
    then show ?thesis using err by (auto intro!: exI [of _ k])
  qed
qed

lemma feed_take_drop: "feed (feed d (take k (drop off bs))) (drop (off + k) bs) = feed d (drop off bs)"
  by (metis add.commute append_take_drop_id drop_drop foldl_append)

theorem AppendFrom_feed:
  "decoder_inv d \<Longrightarrow> fd_Error d = DeNone \<Longrightarrow>
   AppendFrom d bs off = (fd_Error (feed d (drop off bs)) = DeNone, feed d (drop off bs))"
proof (induction d bs off rule: AppendFrom.induct)
  case (1 d bs off)
  show ?case
  proof (cases "off < length bs")
    case False
    then show ?thesis using 1 by (subst AppendFrom.simps) simp
  next
    case off: True
    note header = AppendHeader_feed [OF 1(3,4) off]
    show ?thesis
    proof (cases "AppendHeader d bs off")
      case (Return d1)
      with header obtain k where "d1 = feed d (take k (drop off bs))" "fd_Error d1 \<noteq> DeNone" by auto
      then have "feed d (drop off bs) = d1" by (metis feed_take_drop feed_error)
      with Return off \<open>fd_Error d1 \<noteq> DeNone\<close> show ?thesis by (subst AppendFrom.simps) simp
    next
      case (Continue d1 o1)
      with header obtain k where k: "d1 = feed d (take k (drop off bs))" "o1 = off + k" "fd_Error d1 = DeNone" by auto
      then have "decoder_inv d1" using feed_inv 1(3) by simp
      with 1(1) [OF off Continue] k have "AppendFrom d1 bs o1 = (fd_Error (feed d1 (drop o1 bs)) = DeNone, feed d1 (drop o1 bs))"
        by simp
      with Continue off show ?thesis by (subst AppendFrom.simps) (simp add: k feed_take_drop)
    next
      case (FallThrough d1 o1)
      with header obtain k where k: "d1 = feed d (take k (drop off bs))" "o1 = off + k" "o1 \<le> length bs"
          "fd_Error d1 = DeNone" "fd_ExpectedWireSize d1 \<noteq> 0" by auto
      then have inv1: "decoder_inv d1" using feed_inv 1(3) by simp
      have whole: "feed d (drop off bs) = feed d1 (drop o1 bs)" by (simp add: k feed_take_drop)
      note body = AppendBody_feed [OF inv1 k(4,5,3)]
      show ?thesis
      proof (cases "AppendBody d1 bs o1")
        case (Inl d2)
        with body obtain k2 where "d2 = feed d1 (take k2 (drop o1 bs))" "fd_Error d2 \<noteq> DeNone" by auto
        then have "feed d1 (drop o1 bs) = d2" by (metis feed_take_drop feed_error)
        with FallThrough Inl off whole \<open>fd_Error d2 \<noteq> DeNone\<close> show ?thesis by (subst AppendFrom.simps) simp
      next
        case (Inr p)
        obtain d2 o2 where p: "p = (d2, o2)" by (cases p)
        with body Inr obtain k2 where k2: "d2 = feed d1 (take k2 (drop o1 bs))" "o2 = o1 + k2" "fd_Error d2 = DeNone" by auto
        then have "decoder_inv d2" using feed_inv inv1 by simp
        with 1(2) [OF off FallThrough Inr p [symmetric]] k2
        have "AppendFrom d2 bs o2 = (fd_Error (feed d2 (drop o2 bs)) = DeNone, feed d2 (drop o2 bs))" by simp
        moreover have "feed d2 (drop o2 bs) = feed d1 (drop o1 bs)" by (simp add: k2 feed_take_drop)
        ultimately show ?thesis using FallThrough Inr off whole p by (subst AppendFrom.simps) simp
      qed
    qed
  qed
qed

lemma Append_feed: "decoder_inv d \<Longrightarrow> Append d bs = (fd_Error (feed d bs) = DeNone, feed d bs)"
  by (simp add: Append_def AppendFrom_feed)

lemma decoder_inv_new [simp]: "decoder_inv newFrameDecoder"
  by (simp add: decoder_inv_def newFrameDecoder_def)

lemma decoder_inv_Append: "decoder_inv d \<Longrightarrow> decoder_inv (snd (Append d bs))"
  by (simp add: Append_feed feed_inv)

lemma decoder_inv_PollFrames: "decoder_inv d \<Longrightarrow> decoder_inv (snd (PollFrames d))"
  by (auto simp: decoder_inv_def PollFrames_def)

lemma decoder_inv_Reset: "decoder_inv (DecoderReset d)"
  by (simp add: decoder_inv_def DecoderReset_def)

section \<open>The streams it accepts\<close>

lemma known_cast_iff: "IsKnownMessageType (MessageTypeCast v) \<longleftrightarrow> 1 \<le> v \<and> v \<le> 8"
proof
  assume "IsKnownMessageType (MessageTypeCast v)"
  then show "1 \<le> v \<and> v \<le> 8" by (auto simp: MessageTypeCast_def split: if_splits)
next
  assume v: "1 \<le> v \<and> v \<le> 8"
  then have "1 \<le> unat v" "unat v \<le> 8" by (simp_all add: word_le_nat_alt)
  then have "unat v \<in> {1, 2, 3, 4, 5, 6, 7, 8}" by auto
  then have "v \<in> {1, 2, 3, 4, 5, 6, 7, 8}" by (auto simp: word_unat_eq_iff)
  then show "IsKnownMessageType (MessageTypeCast v)" by (auto simp: MessageTypeCast_def)
qed

definition sized_buffer :: "FrameDecoder \<Rightarrow> bool" where
  "sized_buffer d \<longleftrightarrow> 12 \<le> fd_ExpectedWireSize d \<and> fd_ExpectedWireSize d \<le> 1048580
     \<and> length (fd_Buffer d) = fd_ExpectedWireSize d
     \<and> fd_ExpectedWireSize d = 4 + unat (snd (ReadLittle (fd_Buffer d) 0) :: u32)"

definition accept_frame :: "Frame \<Rightarrow> FrameDecoder \<Rightarrow> FrameDecoder" where
  "accept_frame f d = d\<lparr>fd_QueuedBytes := fd_QueuedBytes d + WireSize f, fd_Frames := fd_Frames d @ [f],
     fd_Buffer := [], fd_ExpectedWireSize := 0\<rparr>"

lemma DecodeBufferedFrame_sound:
  assumes sized: "sized_buffer d" and dec: "DecodeBufferedFrame d = (True, d')"
  shows "\<exists>f. valid_frame f \<and> frame_wire f = fd_Buffer d \<and> d' = accept_frame f d"
proof -
  let ?b = "fd_Buffer d"
  let ?f = "emptyFrame\<lparr>frameType := MessageTypeCast (?b ! 4), requestId := snd (ReadLittle ?b 8), payload := drop 12 ?b\<rparr>"
  from dec have "ValidateFrame ?f = Ok ()" and zero: "?b ! 5 = 0" "snd (ReadLittle ?b 6) = (0 :: u16)"
    and d': "d' = d\<lparr>fd_QueuedBytes := fd_QueuedBytes d + fd_ExpectedWireSize d,
       fd_Frames := fd_Frames d @ [?f], fd_Buffer := [], fd_ExpectedWireSize := 0\<rparr>"
    by (auto simp: DecodeBufferedFrame_def Let_def split: if_splits sum.splits)
  then have valid: "valid_frame ?f" by simp
  have len: "12 \<le> length ?b" "fd_ExpectedWireSize d = length ?b"
    and size: "unat (snd (ReadLittle ?b 0) :: u32) = 8 + length (payload ?f)"
    using sized by (auto simp: sized_buffer_def)
  have "?b = le_bytes (snd (ReadLittle ?b 0) :: u32) @ drop 4 ?b"
    using drop_ReadLittle_u32 [of 0 ?b] len by simp
  also have "drop 4 ?b = [?b ! 4, ?b ! 5] @ drop 6 ?b"
    using len Cons_nth_drop_Suc [of 4 ?b] Cons_nth_drop_Suc [of 5 ?b] by simp
  also have "drop 6 ?b = le_bytes (0 :: u16) @ le_bytes (snd (ReadLittle ?b 8) :: u32) @ drop 12 ?b"
    using drop_ReadLittle_u16 [of 6 ?b] drop_ReadLittle_u32 [of 8 ?b] len zero by simp
  also have "(snd (ReadLittle ?b 0) :: u32) = word_of_nat (8 + length (payload ?f))"
    unfolding size [symmetric] by simp
  finally have wire: "frame_wire ?f = ?b" using zero by (simp add: frame_wire_def del: of_nat_add)
  moreover have "WireSize ?f = fd_ExpectedWireSize d" by (simp only: WireSize_wire wire len(2))
  then have "d' = accept_frame ?f d" by (simp add: d' accept_frame_def)
  ultimately show ?thesis using valid by blast
qed

lemma DecodeBufferedFrame_complete:
  assumes valid: "valid_frame f" and buf: "fd_Buffer d = frame_wire f" and size: "fd_ExpectedWireSize d = WireSize f"
    and room: "length (fd_Frames d) < 256" "fd_QueuedBytes d + WireSize f \<le> 4194304"
  shows "DecodeBufferedFrame d = (True, accept_frame f d)"
proof -
  let ?b = "frame_wire f"
  have b4: "?b ! 4 = MessageTypeValue (frameType f)" "?b ! 5 = flags f" by (simp_all add: frame_wire_def nth_append)
  have known: "IsKnownMessageType (frameType f)" "flags f = 0" using valid by (simp_all add: valid_frame_def)
  then have "IsKnownMessageType (MessageTypeCast (MessageTypeValue (frameType f)))" by simp
  then have range: "1 \<le> MessageTypeValue (frameType f)" "MessageTypeValue (frameType f) \<le> 8"
    using known_cast_iff by blast+
  have fields: "snd (ReadLittle ?b 6) = (0 :: u16)" "snd (ReadLittle ?b 8) = requestId f" "drop 12 ?b = payload f"
    by (simp_all add: frame_wire_def codec_simps)
  have frame: "emptyFrame\<lparr>frameType := frameType f, requestId := requestId f, payload := payload f\<rparr> = f"
    using known by simp
  have ok: "ValidateFrame f = Ok ()" using valid by simp
  have "WireSize f \<le> 1048580" using valid by (simp add: WireSize_def valid_frame_def)
  then have fits: "\<not> 4194304 - WireSize f < fd_QueuedBytes d" "WireSize f \<le> 4194304" using room by linarith+
  have "MessageTypeValue (frameType f) \<noteq> 0" using range by auto
  then show ?thesis
    using known range room fits
    by (simp add: DecodeBufferedFrame_def Let_def buf b4 fields frame ok size accept_frame_def not_less)
qed

text \<open>Feeding a whole frame, a sequence of frames and an unfinished frame to an idle decoder.\<close>

definition idle :: "FrameDecoder \<Rightarrow> bool" where
  "idle d \<longleftrightarrow> fd_Buffer d = [] \<and> fd_ExpectedWireSize d = 0 \<and> fd_Error d = DeNone"

definition within_limits :: "Frame list \<Rightarrow> bool" where
  "within_limits fs \<longleftrightarrow> list_all valid_frame fs \<and> length fs \<le> 256 \<and> sum_list (map WireSize fs) \<le> 4194304"

abbreviation body_length :: "bytes \<Rightarrow> nat" where
  "body_length bs \<equiv> unat (snd (ReadLittle bs 0) :: u32)"

lemma body_length_append: "4 \<le> length bs \<Longrightarrow> body_length (bs @ cs) = body_length bs"
  by (simp add: ReadLittle_append_left)

lemma feed_length_field:
  assumes "idle d" "length hb = 4" "8 \<le> body_length hb" "body_length hb \<le> 1048576"
  shows "feed d hb = d\<lparr>fd_Buffer := hb, fd_ExpectedWireSize := 4 + body_length hb\<rparr>"
proof -
  have "feed d hb = snd (ReadExpectedSize (d\<lparr>fd_Buffer := hb\<rparr>))"
    using assms feed_header [of d hb] by (cases hb) (auto simp: idle_def Let_def)
  then show ?thesis using assms(3,4) by (simp add: ReadExpectedSize_def Let_def not_less)
qed

lemma set_buffer_first:
  "d\<lparr>fd_ExpectedWireSize := n, fd_Buffer := b\<rparr> = d\<lparr>fd_Buffer := b, fd_ExpectedWireSize := n\<rparr>"
  by (cases d) simp

lemma feed_rest:
  assumes "idle d" "4 \<le> length bs" "8 \<le> body_length bs" "body_length bs \<le> 1048576"
    and "length bs \<le> 4 + body_length bs"
  shows "feed d bs = (let d' = d\<lparr>fd_Buffer := bs, fd_ExpectedWireSize := 4 + body_length bs\<rparr> in
    if length bs = 4 + body_length bs then snd (DecodeBufferedFrame d') else d')"
proof -
  obtain hb tb where bs: "bs = hb @ tb" "length hb = 4"
    using assms(2) by (metis append_take_drop_id length_take min.absorb2)
  then have len: "body_length bs = body_length hb" by (simp add: body_length_append)
  have "feed d hb = d\<lparr>fd_Buffer := hb, fd_ExpectedWireSize := 4 + body_length hb\<rparr>"
    using feed_length_field [OF assms(1) bs(2)] assms(3,4) len by simp
  moreover have "fd_Error d = DeNone" using assms(1) by (simp add: idle_def)
  ultimately show ?thesis
    using feed_body [of "feed d hb" tb] assms(3,5) bs len
    by (cases "tb = []") (simp_all add: len [unfolded bs(1)] Let_def set_buffer_first)
qed

lemma body_length_wire: "valid_frame f \<Longrightarrow> body_length (frame_wire f) = 8 + length (payload f)"
  by (simp add: frame_wire_def ReadLittle_le_bytes_u32 valid_frame_def unat_size_u32 del: of_nat_add)

lemma feed_frame:
  assumes "idle d" "valid_frame f" "length (fd_Frames d) < 256" "fd_QueuedBytes d + WireSize f \<le> 4194304"
  shows "feed d (frame_wire f) = accept_frame f d"
proof -
  note len = body_length_wire [OF assms(2)]
  have small: "length (payload f) \<le> 1048568" using assms(2) by (simp add: valid_frame_def)
  let ?d = "d\<lparr>fd_Buffer := frame_wire f, fd_ExpectedWireSize := WireSize f\<rparr>"
  have "feed d (frame_wire f) = snd (DecodeBufferedFrame ?d)"
    using feed_rest [OF assms(1), of "frame_wire f"] small by (simp add: len WireSize_def Let_def)
  also have "DecodeBufferedFrame ?d = (True, accept_frame f ?d)"
    using assms by (intro DecodeBufferedFrame_complete) simp_all
  finally show ?thesis by (simp add: accept_frame_def)
qed

lemma feed_frames:
  assumes "idle d" "decoder_inv d" "within_limits (fd_Frames d @ fs)"
  shows "feed d (concat (map frame_wire fs)) = d\<lparr>fd_Frames := fd_Frames d @ fs,
    fd_QueuedBytes := sum_list (map WireSize (fd_Frames d @ fs))\<rparr>"
  using assms
proof (induction fs arbitrary: d)
  case Nil
  then show ?case by (simp add: decoder_inv_def)
next
  case (Cons f fs)
  then have f: "valid_frame f" "length (fd_Frames d) < 256" "fd_QueuedBytes d + WireSize f \<le> 4194304"
    by (auto simp: within_limits_def decoder_inv_def)
  have step: "feed d (frame_wire f) = accept_frame f d" using feed_frame Cons.prems(1) f by blast
  then have "decoder_inv (accept_frame f d)" by (metis Cons.prems(2) feed_inv)
  moreover have "idle (accept_frame f d)" using Cons.prems(1) by (simp add: idle_def accept_frame_def)
  ultimately have "feed (accept_frame f d) (concat (map frame_wire fs)) = (accept_frame f d)\<lparr>fd_Frames := fd_Frames (accept_frame f d) @ fs,
      fd_QueuedBytes := sum_list (map WireSize (fd_Frames (accept_frame f d) @ fs))\<rparr>"
    using Cons.prems(3) by (intro Cons.IH) (simp_all add: accept_frame_def)
  then show ?case using Cons.prems(1) by (simp add: step accept_frame_def idle_def)
qed

definition partial_frame :: "bytes \<Rightarrow> bool" where
  "partial_frame bs \<longleftrightarrow> length bs < 4
     \<or> 8 \<le> body_length bs \<and> body_length bs \<le> 1048576 \<and> length bs < 4 + body_length bs"

lemma feed_partial:
  assumes "idle d" "partial_frame bs"
  shows "feed d bs = d\<lparr>fd_Buffer := bs, fd_ExpectedWireSize := (if length bs < 4 then 0 else 4 + body_length bs)\<rparr>"
proof (cases "length bs < 4")
  case True
  with assms(1) feed_header [of d bs] show ?thesis
    by (cases "bs = []") (auto simp: idle_def Let_def)
next
  case False
  with assms feed_rest [OF assms(1), of bs] show ?thesis
    by (auto simp: partial_frame_def Let_def)
qed

text \<open>Conversely, a decoder that has not failed holds exactly the stream it was fed.\<close>

definition holds_stream :: "FrameDecoder \<Rightarrow> bytes \<Rightarrow> bool" where
  "holds_stream d bs \<longleftrightarrow> bs = concat (map frame_wire (fd_Frames d)) @ fd_Buffer d"

lemma feed_byte_holds:
  assumes inv: "decoder_inv d" and ok: "fd_Error (feed_byte d b) = DeNone" and holds: "holds_stream d bs"
  shows "holds_stream (feed_byte d b) (bs @ [b])"
proof -
  have err: "fd_Error d = DeNone" using ok by (auto simp: feed_byte_def split: if_splits)
  let ?d = "d\<lparr>fd_Buffer := fd_Buffer d @ [b]\<rparr>"
  have d: "holds_stream ?d (bs @ [b])" using holds by (simp add: holds_stream_def)
  show ?thesis
  proof (cases "fd_ExpectedWireSize d \<noteq> 0 \<and> length (fd_Buffer ?d) = fd_ExpectedWireSize d")
    case True
    then have step: "feed_byte d b = snd (DecodeBufferedFrame ?d)" using err by (simp add: feed_byte_def)
    with ok err have "fst (DecodeBufferedFrame ?d)" using DecodeBufferedFrame_error [of ?d] by simp
    then have dec: "DecodeBufferedFrame ?d = (True, feed_byte d b)" by (metis step prod.collapse)
    have "4 \<le> length (fd_Buffer d)" using inv True by (simp add: decoder_inv_def)
    then have "sized_buffer ?d"
      using inv True by (simp add: sized_buffer_def decoder_inv_def body_length_append)
    from DecodeBufferedFrame_sound [OF this dec] show ?thesis
      using d by (auto simp: holds_stream_def accept_frame_def)
  next
    case False
    then have "feed_byte d b = ?d \<or> feed_byte d b = snd (ReadExpectedSize ?d)"
      using err by (auto simp: feed_byte_def Let_def)
    then show ?thesis
    proof
      assume step: "feed_byte d b = snd (ReadExpectedSize ?d)"
      with ok err have "fst (ReadExpectedSize ?d)" using ReadExpectedSize_error [of ?d] by simp
      with step d show ?thesis
        by (auto simp: ReadExpectedSize_def Let_def holds_stream_def split: if_splits)
    qed (use d in simp)
  qed
qed

lemma feed_holds:
  "decoder_inv d \<Longrightarrow> fd_Error (feed d xs) = DeNone \<Longrightarrow> holds_stream d bs \<Longrightarrow> holds_stream (feed d xs) (bs @ xs)"
proof (induction xs arbitrary: d bs)
  case (Cons x xs)
  have "fd_Error (feed_byte d x) = DeNone" using Cons.prems(2) by (metis feed_error foldl_Cons)
  then have "holds_stream (feed_byte d x) (bs @ [x])" using feed_byte_holds Cons.prems by blast
  with Cons.IH [of "feed_byte d x" "bs @ [x]"] Cons.prems feed_byte_inv show ?case by simp
qed simp

lemma decoder_inv_limits:
  assumes "decoder_inv d" "fd_Error d = DeNone"
  shows "within_limits (fd_Frames d)" "partial_frame (fd_Buffer d)"
  using assms by (auto simp: decoder_inv_def within_limits_def partial_frame_def split: if_splits)

text \<open>The decoder that has received the frames \<open>fs\<close> and the beginning \<open>rest\<close> of another.\<close>

definition decoder_state :: "Frame list \<Rightarrow> bytes \<Rightarrow> FrameDecoder" where
  "decoder_state fs rest = \<lparr>fd_Buffer = rest,
     fd_ExpectedWireSize = (if length rest < 4 then 0 else 4 + body_length rest),
     fd_Frames = fs, fd_QueuedBytes = sum_list (map WireSize fs), fd_Error = DeNone, fd_Diagnostic = []\<rparr>"

lemma idle_new [simp]: "idle newFrameDecoder"
  by (simp add: idle_def newFrameDecoder_def)

lemma feed_new:
  assumes "within_limits fs" "partial_frame rest"
  shows "feed newFrameDecoder (concat (map frame_wire fs) @ rest) = decoder_state fs rest"
proof -
  have new: "fd_Frames newFrameDecoder = []" by (simp add: newFrameDecoder_def)
  let ?d = "newFrameDecoder\<lparr>fd_Frames := fs, fd_QueuedBytes := sum_list (map WireSize fs)\<rparr>"
  have "feed newFrameDecoder (concat (map frame_wire fs)) = ?d"
    using feed_frames [OF idle_new decoder_inv_new, of fs] assms(1) by (simp add: new)
  moreover have "feed ?d rest = decoder_state fs rest"
    using feed_partial [of ?d rest] assms(2)
    by (simp add: idle_def) (simp add: newFrameDecoder_def decoder_state_def)
  ultimately show ?thesis by simp
qed

section \<open>Properties\<close>

text \<open>
  C9. A stream is received whole: the decoder takes a byte stream without error exactly when it is
  the concatenated wire form of valid frames within the receive limits (256 frames, 4 MiB)
  followed by the beginning of a frame, and it then holds just those frames, in order, and just
  that beginning.
\<close>

theorem decoder_accepts_streams:
  "Append newFrameDecoder bs = (True, d) \<longleftrightarrow>
    (\<exists>fs rest. bs = concat (map frame_wire fs) @ rest \<and> within_limits fs \<and> partial_frame rest
      \<and> d = decoder_state fs rest)"
proof
  assume "Append newFrameDecoder bs = (True, d)"
  then have d: "d = feed newFrameDecoder bs" and err: "fd_Error d = DeNone" by (auto simp: Append_feed)
  have inv: "decoder_inv d" using d feed_inv by simp
  have "holds_stream newFrameDecoder []" by (simp add: holds_stream_def newFrameDecoder_def)
  then have holds: "bs = concat (map frame_wire (fd_Frames d)) @ fd_Buffer d"
    using feed_holds [of newFrameDecoder bs "[]"] d err by (simp add: holds_stream_def)
  note lim = decoder_inv_limits [OF inv err]
  have "d = decoder_state (fd_Frames d) (fd_Buffer d)"
    using feed_new [OF lim] d holds by metis
  with holds lim show "\<exists>fs rest. bs = concat (map frame_wire fs) @ rest \<and> within_limits fs \<and> partial_frame rest
      \<and> d = decoder_state fs rest" by blast
next
  assume streams: "\<exists>fs rest. bs = concat (map frame_wire fs) @ rest \<and> within_limits fs \<and> partial_frame rest
      \<and> d = decoder_state fs rest"
  then have "d = feed newFrameDecoder bs" by (metis feed_new)
  moreover have "fd_Error d = DeNone"
    using streams by (auto simp: decoder_state_def)
  ultimately show "Append newFrameDecoder bs = (True, d)" by (simp add: Append_feed)
qed

text \<open>
  C10. The way the stream is cut does not matter: appending two pieces one after the other leaves
  the decoder in the state, and with the verdict, of appending them joined; a decoder that has
  failed stays as it is whatever comes.
\<close>

theorem decoder_chunks:
  assumes "decoder_inv d"
  shows "Append (snd (Append d xs)) ys = Append d (xs @ ys)"
  using assms by (simp add: Append_feed feed_inv)

theorem decoder_chunks_witness:
  "Append (snd (Append newFrameDecoder [8, 0])) [0, 0, 8] = Append newFrameDecoder [8, 0, 0, 0, 8]"
  using decoder_chunks [of newFrameDecoder "[8, 0]" "[0, 0, 8]"] by simp

text \<open>
  The queue bounds hold at all times: whatever operation runs on a decoder, it holds at most 256
  valid frames of at most 4 MiB in all, its buffer is shorter than the frame it waits for, and it
  never waits for a frame outside the range of 12 bytes to 1 MiB and the length field.
\<close>

theorem decoder_inv_operations:
  assumes "decoder_inv d"
  shows "decoder_inv (snd (Append d bs)) \<and> decoder_inv (snd (PollFrames d)) \<and> decoder_inv (DecoderReset d)
    \<and> decoder_inv newFrameDecoder"
  using assms by (simp add: decoder_inv_Append decoder_inv_PollFrames decoder_inv_Reset)

theorem decoder_inv_operations_witness:
  "decoder_inv (snd (Append newFrameDecoder [12, 0, 0, 0, 8])) \<and> decoder_inv (snd (PollFrames newFrameDecoder))"
  using decoder_inv_operations [of newFrameDecoder "[12, 0, 0, 0, 8]"] by simp

end
