(* ===== verification/ByteSource.thy ===== *)
theory ByteSource
  imports Prelude
begin

text \<open>
  The contract between a queue of outgoing bytes and the code that sends them: \<open>pending\<close> shows
  the bytes that may be sent next, \<open>consume\<close> removes the ones that were sent, and together they
  neither lose, repeat nor reorder the unsent stream \<open>unsent\<close>. \<open>transmit\<close> is a sender for which
  the network takes at most the given number of bytes at each call.
\<close>

fun transmit :: "('s \<Rightarrow> bytes) \<Rightarrow> ('s \<Rightarrow> nat \<Rightarrow> bool \<times> 's) \<Rightarrow> nat list \<Rightarrow> 's \<Rightarrow> bytes \<times> 's" where
  "transmit pending consume [] s = ([], s)"
| "transmit pending consume (k # ks) s =
     (let sent = take k (pending s);
          (out, s') = transmit pending consume ks (snd (consume s (length sent)))
      in (sent @ out, s'))"

locale byte_source =
  fixes inv :: "'s \<Rightarrow> bool" and unsent :: "'s \<Rightarrow> bytes"
    and pending :: "'s \<Rightarrow> bytes" and consume :: "'s \<Rightarrow> nat \<Rightarrow> bool \<times> 's"
  assumes pending_prefix: "inv s \<Longrightarrow> \<exists>later. unsent s = pending s @ later"
    and pending_empty: "inv s \<Longrightarrow> pending s = [] \<Longrightarrow> unsent s = []"
    and consume_ok: "inv s \<Longrightarrow> n \<le> length (pending s) \<Longrightarrow> fst (consume s n)"
    and consume_unsent: "inv s \<Longrightarrow> n \<le> length (pending s) \<Longrightarrow> unsent (snd (consume s n)) = drop n (unsent s)"
    and consume_inv: "inv s \<Longrightarrow> inv (snd (consume s n))"
    and consume_refused: "inv s \<Longrightarrow> length (pending s) < n \<Longrightarrow> consume s n = (False, s)"
begin

lemma transmit_lossless:
  "inv s \<Longrightarrow> transmit pending consume ks s = (out, s') \<Longrightarrow> unsent s = out @ unsent s' \<and> inv s'"
proof (induction ks arbitrary: s out)
  case (Cons k ks)
  let ?sent = "take k (pending s)" and ?s1 = "snd (consume s (length (take k (pending s))))"
  obtain rest where rest: "transmit pending consume ks ?s1 = (rest, s')" "out = ?sent @ rest"
    using Cons.prems(2) by (auto simp: Let_def split: prod.splits)
  have inv1: "inv ?s1" using consume_inv Cons.prems(1) .
  obtain later where later: "unsent s = pending s @ later" using pending_prefix Cons.prems(1) by blast
  have "unsent ?s1 = drop (length ?sent) (unsent s)" using Cons.prems(1) by (intro consume_unsent) simp_all
  moreover have "take (length ?sent) (unsent s) = ?sent" by (simp add: later min_def)
  ultimately have "unsent s = ?sent @ unsent ?s1" by (metis append_take_drop_id)
  with Cons.IH [OF inv1 rest(1)] rest(2) show ?case by simp
qed simp

lemma nothing_left: "inv s \<Longrightarrow> pending s = [] \<longleftrightarrow> unsent s = []"
  using pending_prefix pending_empty by fastforce

lemma transmit_progress:
  "inv s \<Longrightarrow> unsent s \<noteq> [] \<Longrightarrow> 0 < k \<Longrightarrow>
   length (unsent (snd (transmit pending consume [k] s))) < length (unsent s)"
proof -
  assume inv: "inv s" and left: "unsent s \<noteq> []" and k: "0 < k"
  have "transmit pending consume [k] s
      = (take k (pending s), snd (consume s (length (take k (pending s)))))"
    by (simp add: Let_def)
  from transmit_lossless [OF inv this] have "unsent s = take k (pending s) @ unsent (snd (transmit pending consume [k] s))"
    by (simp add: Let_def)
  moreover have "take k (pending s) \<noteq> []" using inv left k by (simp add: nothing_left)
  ultimately show ?thesis by (metis length_append length_greater_0_conv less_add_same_cancel2)
qed

end

end
