(* ===== verification/FrameWriter.thy ===== *)
theory FrameWriter
  imports BridgeFrame ByteSource
begin

text \<open>
  \<^verbatim>\<open>FrameWriter\<close> of \<^verbatim>\<open>RogueAssistantCpp/Src/Bridge/BridgeProtocol.cpp\<close>: the bounded queue of
  encoded frames that the transport sends from. It is shown to be a \<open>byte_source\<close>: what is sent,
  in whatever pieces the socket takes, is the queued frames back to back.
\<close>

record FrameWriter =
  fw_Frames :: "bytes list"
  fw_FrontOffset :: nat
  fw_QueuedBytes :: nat

definition newFrameWriter :: FrameWriter where
  "newFrameWriter = \<lparr>fw_Frames = [], fw_FrontOffset = 0, fw_QueuedBytes = 0\<rparr>"

definition WriterQueue :: "FrameWriter \<Rightarrow> Frame \<Rightarrow> unit result \<times> FrameWriter" where
  "WriterQueue w frame =
     (case TryEncodeFrame frame of
        Inl e \<Rightarrow> (Err e, w)
      | Inr encoded \<Rightarrow>
          if length (fw_Frames w) \<ge> MaximumQueuedFrames
             \<or> fw_QueuedBytes w > size_sub MaximumQueuedFrameBytes (length encoded)
          then (Err ''bridge send queue is full'', w)
          else (Ok (), w\<lparr>fw_QueuedBytes := fw_QueuedBytes w + length encoded,
                  fw_Frames := fw_Frames w @ [encoded]\<rparr>))"

definition PendingBytes :: "FrameWriter \<Rightarrow> bytes" where
  "PendingBytes w = (case fw_Frames w of [] \<Rightarrow> [] | front # _ \<Rightarrow> drop (fw_FrontOffset w) front)"

definition ConsumeSent :: "FrameWriter \<Rightarrow> nat \<Rightarrow> bool \<times> FrameWriter" where
  "ConsumeSent w byteCount =
     (if byteCount > length (PendingBytes w) then (False, w)
      else if byteCount = 0 then (True, w)
      else
        let w = w\<lparr>fw_FrontOffset := fw_FrontOffset w + byteCount,
                  fw_QueuedBytes := size_sub (fw_QueuedBytes w) byteCount\<rparr> in
        if fw_FrontOffset w = length (hd (fw_Frames w))
        then (True, w\<lparr>fw_Frames := tl (fw_Frames w), fw_FrontOffset := 0\<rparr>)
        else (True, w))"

definition WriterQueuedFrameCount :: "FrameWriter \<Rightarrow> nat" where
  "WriterQueuedFrameCount w = length (fw_Frames w)"

definition QueuedByteCount :: "FrameWriter \<Rightarrow> nat" where
  "QueuedByteCount w = fw_QueuedBytes w"

definition WriterReset :: "FrameWriter \<Rightarrow> FrameWriter" where
  "WriterReset w = w\<lparr>fw_Frames := [], fw_FrontOffset := 0, fw_QueuedBytes := 0\<rparr>"

section \<open>The invariant and the unsent stream\<close>

definition unsent_stream :: "FrameWriter \<Rightarrow> bytes" where
  "unsent_stream w = drop (fw_FrontOffset w) (concat (fw_Frames w))"

definition writer_inv :: "FrameWriter \<Rightarrow> bool" where
  "writer_inv w \<longleftrightarrow>
     (case fw_Frames w of [] \<Rightarrow> fw_FrontOffset w = 0 | front # _ \<Rightarrow> fw_FrontOffset w < length front)
     \<and> list_all (\<lambda>b. b \<noteq> []) (fw_Frames w)
     \<and> length (fw_Frames w) \<le> 256
     \<and> fw_QueuedBytes w = length (unsent_stream w) \<and> fw_QueuedBytes w \<le> 4194304"

lemma writer_inv_new [simp]: "writer_inv newFrameWriter"
  by (simp add: writer_inv_def newFrameWriter_def unsent_stream_def)

lemma unsent_front:
  "fw_Frames w = front # later \<Longrightarrow> fw_FrontOffset w \<le> length front \<Longrightarrow>
   unsent_stream w = drop (fw_FrontOffset w) front @ concat later"
  by (simp add: unsent_stream_def)

lemma WriterQueue_cases:
  assumes inv: "writer_inv w"
  shows "WriterQueue w f =
    (if \<not> valid_frame f then (Err (projl (TryEncodeFrame f)), w)
     else if length (fw_Frames w) = 256 \<or> QueuedByteCount w + length (frame_wire f) > 4194304
       then (Err ''bridge send queue is full'', w)
     else (Ok (), w\<lparr>fw_QueuedBytes := fw_QueuedBytes w + length (frame_wire f),
            fw_Frames := fw_Frames w @ [frame_wire f]\<rparr>))"
proof (cases "valid_frame f")
  case True
  have "length (frame_wire f) \<le> 1048580" using True by (simp add: valid_frame_def)
  moreover have "length (fw_Frames w) \<le> 256" using inv by (simp add: writer_inv_def)
  ultimately show ?thesis
    using True by (auto simp: WriterQueue_def TryEncodeFrame_wire QueuedByteCount_def)
next
  case False
  then have "\<nexists>b. TryEncodeFrame f = Ok b" by (simp add: TryEncodeFrame_Ok_iff)
  then show ?thesis using False by (cases "TryEncodeFrame f") (auto simp: WriterQueue_def)
qed

lemma unsent_queue:
  assumes "writer_inv w"
  shows "unsent_stream (w\<lparr>fw_QueuedBytes := n, fw_Frames := fw_Frames w @ [b]\<rparr>) = unsent_stream w @ b"
  using assms by (cases "fw_Frames w") (simp_all add: unsent_stream_def writer_inv_def)

lemma writer_inv_Queue: "writer_inv w \<Longrightarrow> writer_inv (snd (WriterQueue w f))"
proof -
  assume inv: "writer_inv w"
  show ?thesis
  proof (cases "valid_frame f \<and> length (fw_Frames w) \<noteq> 256 \<and> QueuedByteCount w + length (frame_wire f) \<le> 4194304")
    case True
    let ?w = "w\<lparr>fw_QueuedBytes := fw_QueuedBytes w + length (frame_wire f), fw_Frames := fw_Frames w @ [frame_wire f]\<rparr>"
    have "snd (WriterQueue w f) = ?w" using True by (simp add: WriterQueue_cases [OF inv])
    moreover have "unsent_stream ?w = unsent_stream w @ frame_wire f" by (rule unsent_queue [OF inv])
    then have "fw_QueuedBytes ?w = length (unsent_stream ?w)" using inv by (simp add: writer_inv_def)
    moreover have "frame_wire f \<noteq> []" by (simp add: frame_wire_def)
    ultimately show ?thesis
      using True inv unfolding writer_inv_def
      by (cases "fw_Frames w") (auto simp: QueuedByteCount_def)
  qed (use inv in \<open>auto simp: WriterQueue_cases\<close>)
qed

lemma ConsumeSent_some:
  assumes inv: "writer_inv w" and n: "n \<le> length (PendingBytes w)" "0 < n"
  shows "\<exists>front later. fw_Frames w = front # later \<and> fw_FrontOffset w + n \<le> length front
    \<and> ConsumeSent w n = (True, if fw_FrontOffset w + n = length front
         then w\<lparr>fw_QueuedBytes := fw_QueuedBytes w - n, fw_Frames := later, fw_FrontOffset := 0\<rparr>
         else w\<lparr>fw_QueuedBytes := fw_QueuedBytes w - n, fw_FrontOffset := fw_FrontOffset w + n\<rparr>)"
proof -
  from n obtain front later where w: "fw_Frames w = front # later"
    by (cases "fw_Frames w") (auto simp: PendingBytes_def)
  then have off: "fw_FrontOffset w < length front" using inv by (simp add: writer_inv_def)
  have le: "fw_FrontOffset w + n \<le> length front" using n w by (simp add: PendingBytes_def)
  have "fw_QueuedBytes w = length front - fw_FrontOffset w + length (concat later)"
    using inv w off by (simp add: writer_inv_def unsent_front)
  then have "n \<le> fw_QueuedBytes w" using le by linarith
  then have "ConsumeSent w n = (True, if fw_FrontOffset w + n = length front
         then w\<lparr>fw_QueuedBytes := fw_QueuedBytes w - n, fw_Frames := later, fw_FrontOffset := 0\<rparr>
         else w\<lparr>fw_QueuedBytes := fw_QueuedBytes w - n, fw_FrontOffset := fw_FrontOffset w + n\<rparr>)"
    using n w by (cases w) (simp add: ConsumeSent_def Let_def)
  with w le show ?thesis by blast
qed

lemma ConsumeSent_0: "ConsumeSent w 0 = (True, w)"
  by (simp add: ConsumeSent_def)

lemma ConsumeSent_unsent:
  assumes inv: "writer_inv w" and n: "n \<le> length (PendingBytes w)"
  shows "unsent_stream (snd (ConsumeSent w n)) = drop n (unsent_stream w)"
proof (cases "n = 0")
  case False
  then obtain front later where w: "fw_Frames w = front # later" "fw_FrontOffset w + n \<le> length front"
    and c: "ConsumeSent w n = (True, if fw_FrontOffset w + n = length front
         then w\<lparr>fw_QueuedBytes := fw_QueuedBytes w - n, fw_Frames := later, fw_FrontOffset := 0\<rparr>
         else w\<lparr>fw_QueuedBytes := fw_QueuedBytes w - n, fw_FrontOffset := fw_FrontOffset w + n\<rparr>)"
    using ConsumeSent_some [OF inv n] by blast
  show ?thesis using w by (auto simp: c unsent_stream_def add.commute)
qed (simp add: ConsumeSent_0)

lemma writer_inv_ConsumeSent: "writer_inv w \<Longrightarrow> writer_inv (snd (ConsumeSent w n))"
proof -
  assume inv: "writer_inv w"
  consider "n > length (PendingBytes w)" | "n = 0" | "n \<le> length (PendingBytes w)" "0 < n" by linarith
  then show ?thesis
  proof cases
    case 3
    note unsent = ConsumeSent_unsent [OF inv 3(1)]
    obtain front later where w: "fw_Frames w = front # later" "fw_FrontOffset w + n \<le> length front"
      and c: "ConsumeSent w n = (True, if fw_FrontOffset w + n = length front
         then w\<lparr>fw_QueuedBytes := fw_QueuedBytes w - n, fw_Frames := later, fw_FrontOffset := 0\<rparr>
         else w\<lparr>fw_QueuedBytes := fw_QueuedBytes w - n, fw_FrontOffset := fw_FrontOffset w + n\<rparr>)"
      using ConsumeSent_some [OF inv 3] by blast
    have "fw_QueuedBytes (snd (ConsumeSent w n)) = length (unsent_stream (snd (ConsumeSent w n)))"
      using inv by (simp add: unsent) (simp add: c writer_inv_def)
    then show ?thesis
      using inv w unfolding writer_inv_def
      by (cases later) (auto simp: c)
  qed (use inv in \<open>simp_all add: ConsumeSent_def\<close>)
qed

interpretation writer: byte_source writer_inv unsent_stream PendingBytes ConsumeSent
proof unfold_locales
  fix w n
  assume inv: "writer_inv w"
  show "\<exists>later. unsent_stream w = PendingBytes w @ later"
    using inv by (cases "fw_Frames w") (auto simp: PendingBytes_def unsent_stream_def writer_inv_def)
  show "unsent_stream w = []" if "PendingBytes w = []"
    using inv that by (cases "fw_Frames w") (auto simp: PendingBytes_def unsent_stream_def writer_inv_def)
  show "fst (ConsumeSent w n)" if "n \<le> length (PendingBytes w)"
    using ConsumeSent_some [OF inv that] by (cases "n = 0") (auto simp: ConsumeSent_0)
  show "unsent_stream (snd (ConsumeSent w n)) = drop n (unsent_stream w)" if "n \<le> length (PendingBytes w)"
    using inv that by (rule ConsumeSent_unsent)
  show "writer_inv (snd (ConsumeSent w n))" using inv by (rule writer_inv_ConsumeSent)
  show "ConsumeSent w n = (False, w)" if "length (PendingBytes w) < n"
    using that by (simp add: ConsumeSent_def)
qed

section \<open>Properties\<close>

lemma writer_inv_Reset: "writer_inv (WriterReset w)"
  by (simp add: writer_inv_def WriterReset_def unsent_stream_def)

lemma WriterQueue_unsent:
  "writer_inv w \<Longrightarrow> WriterQueue w f = (Ok (), w') \<Longrightarrow>
   valid_frame f \<and> unsent_stream w' = unsent_stream w @ frame_wire f"
  by (auto simp: WriterQueue_cases unsent_queue split: if_splits)

text \<open>
  The send queue is bounded and exact: on a writer that keeps its invariant (at most 256 queued
  frames, at most 4 MiB, the byte counter is the number of unsent bytes), queueing either appends
  the frame's bytes to the unsent stream, for a valid frame within both bounds, or changes nothing;
  every operation keeps the invariant.
\<close>

theorem writer_queue_exact:
  assumes "writer_inv w"
  shows "writer_inv (snd (WriterQueue w f)) \<and> writer_inv (snd (ConsumeSent w n)) \<and> writer_inv (WriterReset w)
    \<and> (if is_ok (fst (WriterQueue w f))
       then valid_frame f \<and> WriterQueuedFrameCount w < 256 \<and> QueuedByteCount w + WireSize f \<le> 4 * 1024 * 1024
         \<and> unsent_stream (snd (WriterQueue w f)) = unsent_stream w @ frame_wire f
       else snd (WriterQueue w f) = w
         \<and> (\<not> valid_frame f \<or> WriterQueuedFrameCount w = 256 \<or> QueuedByteCount w + WireSize f > 4 * 1024 * 1024))"
proof -
  have "length (fw_Frames w) \<le> 256" using assms by (simp add: writer_inv_def)
  then show ?thesis
    using assms writer_inv_Queue [OF assms, of f] writer.consume_inv [OF assms, of n] writer_inv_Reset [of w]
    by (auto simp: WriterQueue_cases WireSize_wire WriterQueuedFrameCount_def unsent_queue split: if_splits)
qed

theorem writer_queue_exact_witness:
  "writer_inv (snd (WriterQueue newFrameWriter EncodeClose))"
  using writer_queue_exact [of newFrameWriter EncodeClose 0] by simp

text \<open>
  Sending loses nothing: however the socket cuts the queue's bytes into accepted pieces, the bytes
  sent followed by the bytes still unsent are the stream that was queued, the writer reports bytes
  to send as long as some are left, and it refuses to consume more than it offered.
\<close>

theorem writer_sends_stream:
  assumes "writer_inv w" and "transmit PendingBytes ConsumeSent ks w = (out, w')"
  shows "unsent_stream w = out @ unsent_stream w' \<and> writer_inv w'
    \<and> (PendingBytes w' = [] \<longleftrightarrow> unsent_stream w' = [])
    \<and> ConsumeSent w' (length (PendingBytes w') + Suc n) = (False, w')"
  using writer.transmit_lossless [OF assms] writer.nothing_left writer.consume_refused by simp

theorem writer_sends_stream_witness:
  "unsent_stream \<lparr>fw_Frames = [[8, 0, 0], [9, 7]], fw_FrontOffset = 1, fw_QueuedBytes = 4\<rparr> = [0, 0, 9] @ [7]"
proof -
  let ?w = "\<lparr>fw_Frames = [[8, 0, 0], [9, 7]], fw_FrontOffset = 1, fw_QueuedBytes = 4\<rparr>"
  have "transmit PendingBytes ConsumeSent [3, 1] ?w
     = ([0, 0, 9], \<lparr>fw_Frames = [[9, 7]], fw_FrontOffset = 1, fw_QueuedBytes = 1\<rparr>)"
    by (simp add: PendingBytes_def ConsumeSent_def)
  moreover have "writer_inv ?w" by (simp add: writer_inv_def unsent_stream_def)
  ultimately show ?thesis
    using writer_sends_stream [of ?w "[3, 1]"] by (auto simp: unsent_stream_def)
qed

end
