(* ===== verification/GameMemory.thy ===== *)
theory GameMemory
  imports Prelude "HOL-Library.Multiset"
begin

text \<open>
  \<^verbatim>\<open>RogueAssistantCpp/Inc/Bridge/GameMemoryTransport.h\<close> and
  \<^verbatim>\<open>RogueAssistantCpp/Src/Bridge/GameMemoryTransport.cpp\<close>: memory requests and results, the
  interface \<^verbatim>\<open>IGameMemoryTransport\<close> with the contract \<open>memory_transport\<close> its users rely on, and
  the validation of a request against the memory map of the console.
\<close>

section \<open>Data\<close>

datatype TransportState = Stopped | Disconnected | Listening | Connected

datatype Operation = Read | Write

record MemoryRequest =
  mr_id :: u32
  mr_operation :: Operation
  mr_address :: u32
  mr_data :: bytes
  mr_readSize :: u32

datatype MemoryStatus = MsOk | MsInvalidAddress | MsInvalidSize | MsDisconnected | MsProtocolError

record MemoryResult =
  res_id :: u32
  res_status :: MemoryStatus
  res_data :: bytes

definition MaximumOutstandingMemoryRequests :: nat where
  "MaximumOutstandingMemoryRequests = 256"

definition MaximumMemoryPayloadSize :: u32 where
  "MaximumMemoryPayloadSize = 1024 * 1024"

text \<open>The virtual interface: the functions of an implementation whose state is \<^typ>\<open>'t\<close>.\<close>

record 't IGameMemoryTransport =
  tSubmit :: "MemoryRequest \<Rightarrow> 't \<Rightarrow> bool \<times> 't"
  tPollResults :: "'t \<Rightarrow> MemoryResult list \<times> 't"
  tState :: "'t \<Rightarrow> TransportState"
  tStop :: "'t \<Rightarrow> 't"

section \<open>Validation\<close>

record AddressRange =
  ar_begin :: u64
  ar_end :: u64

definition Ewram :: AddressRange where
  "Ewram = \<lparr>ar_begin = 0x02000000, ar_end = 0x02040000\<rparr>"

definition Iwram :: AddressRange where
  "Iwram = \<lparr>ar_begin = 0x03000000, ar_end = 0x03008000\<rparr>"

definition ReadableRanges :: "AddressRange list" where
  "ReadableRanges =
     [Ewram, Iwram,
      \<lparr>ar_begin = 0x05000000, ar_end = 0x05000400\<rparr>,
      \<lparr>ar_begin = 0x06000000, ar_end = 0x06018000\<rparr>,
      \<lparr>ar_begin = 0x07000000, ar_end = 0x07000400\<rparr>,
      \<lparr>ar_begin = 0x08000000, ar_end = 0x0E000000\<rparr>]"

definition WritableRanges :: "AddressRange list" where
  "WritableRanges = [Ewram, Iwram]"

definition IsRangeAllowed :: "u32 \<Rightarrow> u32 \<Rightarrow> AddressRange list \<Rightarrow> bool" where
  "IsRangeAllowed address sz ranges =
     (let begin = ucast address :: u64; end = begin + ucast sz in
      if end > push_bit 32 1 then False
      else list_ex (\<lambda>range. begin \<ge> ar_begin range \<and> end \<le> ar_end range) ranges)"

definition ValidateMemoryRequest :: "MemoryRequest \<Rightarrow> MemoryStatus" where
  "ValidateMemoryRequest request =
     (if mr_id request = 0 then MsProtocolError
      else if mr_operation request = Read then
        (if mr_data request \<noteq> [] \<or> mr_readSize request = 0 \<or> mr_readSize request > MaximumMemoryPayloadSize
         then MsInvalidSize
         else if IsRangeAllowed (mr_address request) (mr_readSize request) ReadableRanges then MsOk
         else MsInvalidAddress)
      else if mr_readSize request \<noteq> 0 \<or> mr_data request = []
           \<or> length (mr_data request) > unat MaximumMemoryPayloadSize
        then MsInvalidSize
      else if IsRangeAllowed (mr_address request) (word_of_nat (length (mr_data request))) WritableRanges then MsOk
      else MsInvalidAddress)"

section \<open>Lemmas\<close>

lemma MaximumMemoryPayloadSize_simps [simp]:
  "unat MaximumMemoryPayloadSize = 1048576" "x > MaximumMemoryPayloadSize \<longleftrightarrow> unat x > 1048576"
  "x \<le> MaximumMemoryPayloadSize \<longleftrightarrow> unat x \<le> 1048576"
  by (simp_all add: MaximumMemoryPayloadSize_def word_less_nat_alt word_le_nat_alt)

lemma unat_ucast_u64 [simp]: "unat (ucast (x :: u32) :: u64) = unat x"
  by (simp add: unsigned_ucast_eq take_bit_nat_eq_self_iff order_less_le_trans [OF unsigned_less])

lemma unat_range_end: "unat (ucast (a :: u32) + ucast (s :: u32) :: u64) = unat a + unat s"
proof -
  have "unat a < 2 ^ 32" "unat s < 2 ^ 32" using unsigned_less [of a] unsigned_less [of s] by simp_all
  then have "unat (ucast a :: u64) + unat (ucast s :: u64) < 2 ^ 64" by simp
  then show ?thesis by (subst unat_add_lem [THEN iffD1]) simp_all
qed

lemma IsRangeAllowed_iff:
  "IsRangeAllowed a s rs \<longleftrightarrow>
     unat a + unat s \<le> 2 ^ 32 \<and> (\<exists>r \<in> set rs. unat (ar_begin r) \<le> unat a \<and> unat a + unat s \<le> unat (ar_end r))"
proof -
  have "unat (push_bit 32 1 :: u64) = 2 ^ 32" by (simp add: push_bit_eq_mult)
  then show ?thesis
    by (simp add: IsRangeAllowed_def Let_def list_ex_iff word_le_nat_alt word_less_nat_alt unat_range_end not_less)
qed

lemma range_ends:
  "\<exists>r \<in> set ReadableRanges. unat (ar_begin r) \<le> a \<and> a + s \<le> unat (ar_end r) \<Longrightarrow> a + s \<le> 2 ^ 32"
  by (auto simp: ReadableRanges_def Ewram_def Iwram_def)

text \<open>How many bytes a request touches, and the region of the memory map they must lie in.\<close>

definition request_size :: "MemoryRequest \<Rightarrow> nat" where
  "request_size r = (if mr_operation r = Read then unat (mr_readSize r) else length (mr_data r))"

definition gba_regions :: "Operation \<Rightarrow> (nat \<times> nat) set" where
  "gba_regions op = {(0x02000000, 0x02040000), (0x03000000, 0x03008000)}
     \<union> (if op = Read then {(0x05000000, 0x05000400), (0x06000000, 0x06018000),
                           (0x07000000, 0x07000400), (0x08000000, 0x0E000000)} else {})"

lemma IsRangeAllowed_readable:
  "IsRangeAllowed a s ReadableRanges \<longleftrightarrow> (\<exists>(lo, hi) \<in> gba_regions Read. lo \<le> unat a \<and> unat a + unat s \<le> hi)"
  unfolding IsRangeAllowed_iff
  by (auto simp: ReadableRanges_def Ewram_def Iwram_def gba_regions_def)

lemma IsRangeAllowed_writable:
  "IsRangeAllowed a s WritableRanges \<longleftrightarrow> (\<exists>(lo, hi) \<in> gba_regions Write. lo \<le> unat a \<and> unat a + unat s \<le> hi)"
  unfolding IsRangeAllowed_iff
  by (auto simp: WritableRanges_def Ewram_def Iwram_def gba_regions_def)

section \<open>Tables of pending requests\<close>

text \<open>An \<^verbatim>\<open>unordered_map\<close> from request IDs: \<^verbatim>\<open>contains\<close> and \<^verbatim>\<open>erase\<close> on its entries.\<close>

definition PendingContains :: "u32 \<Rightarrow> (u32 \<times> 'p) list \<Rightarrow> bool" where
  "PendingContains rid ps \<longleftrightarrow> rid \<in> set (map fst ps)"

definition erase :: "u32 \<Rightarrow> (u32 \<times> 'p) list \<Rightarrow> (u32 \<times> 'p) list" where
  "erase rid ps = filter (\<lambda>p. fst p \<noteq> rid) ps"

lemma erase_absent [simp]: "\<not> PendingContains k ps \<Longrightarrow> erase k ps = ps"
  by (auto simp: erase_def PendingContains_def intro!: filter_True)

lemma erase_append [simp]: "erase k (ps @ qs) = erase k ps @ erase k qs"
  by (simp add: erase_def)

lemma erase_single [simp]: "erase k [(k, p)] = []"
  by (simp add: erase_def)

lemma mset_erase:
  "distinct (map fst ps) \<Longrightarrow> map_of ps k = Some p \<Longrightarrow> mset ps = add_mset (k, p) (mset (erase k ps))"
proof (induction ps)
  case (Cons q ps)
  show ?case
  proof (cases "fst q = k")
    case True
    then have "\<not> PendingContains k ps" using Cons.prems(1) by (auto simp: PendingContains_def)
    then have "erase k ps = ps" by simp
    with True Cons.prems show ?thesis by (cases q) (simp add: erase_def)
  next
    case False
    with Cons show ?thesis by (cases q) (auto simp: erase_def)
  qed
qed simp

lemma mset_erase_map:
  "distinct (map fst ps) \<Longrightarrow> map_of ps k = Some p \<Longrightarrow>
   mset (map f ps) = add_mset (f (k, p)) (mset (map f (erase k ps)))"
  using mset_erase [of ps k p] by simp

lemma distinct_erase: "distinct (map fst ps) \<Longrightarrow> distinct (map fst (erase k ps))"
  unfolding erase_def by (induction ps) auto

lemma length_erase: "length (erase k ps) \<le> length ps"
  by (simp add: erase_def)

section \<open>The contract of a transport\<close>

text \<open>
  \<open>owes t K\<close>: the transport is well formed and \<open>K\<close> are the requests that were accepted and whose
  results have not been polled yet (ID, operation, size). An accepted request is added; polling
  hands out one result for each request of some part of \<open>K\<close> and the transport owes the rest;
  \<^verbatim>\<open>Stop\<close> and a refused submission change nothing that is owed. A result of status \<open>MsOk\<close>
  carries exactly the bytes that were asked for.
\<close>

type_synonym request_key = "u32 \<times> Operation \<times> u32"

definition result_for :: "MemoryResult \<Rightarrow> request_key \<Rightarrow> bool" where
  "result_for r k \<longleftrightarrow> res_id r = fst k
     \<and> (res_status r = MsOk \<longrightarrow> length (res_data r) = (if fst (snd k) = Read then unat (snd (snd k)) else 0))"

definition request_key :: "MemoryRequest \<Rightarrow> request_key" where
  "request_key r = (mr_id r, mr_operation r, word_of_nat (request_size r))"

locale memory_transport =
  fixes ops :: "'t IGameMemoryTransport" and owes :: "'t \<Rightarrow> request_key multiset \<Rightarrow> bool"
  assumes submit_accepted:
      "owes t K \<Longrightarrow> ValidateMemoryRequest r = MsOk \<Longrightarrow> tSubmit ops r t = (True, t') \<Longrightarrow>
       owes t' (add_mset (request_key r) K)"
    and submit_refused: "owes t K \<Longrightarrow> tSubmit ops r t = (False, t') \<Longrightarrow> owes t' K"
    and poll_owed:
      "owes t K \<Longrightarrow> tPollResults ops t = (rs, t') \<Longrightarrow>
       \<exists>answered K'. K = mset answered + K' \<and> list_all2 result_for rs answered \<and> owes t' K'"
    and stop_owed: "owes t K \<Longrightarrow> owes (tStop ops t) K"

section \<open>Properties\<close>

text \<open>
  C14. A memory request passes validation exactly when it has an ID, is a read without data or a
  write without a read size, touches between 1 byte and 1 MiB, and every byte it touches lies in
  one region of the console's memory map that is open for the operation; the 32-bit address
  arithmetic cannot wrap around that test.
\<close>

theorem request_validation:
  "ValidateMemoryRequest r = MsOk \<longleftrightarrow>
     mr_id r \<noteq> 0 \<and> (mr_operation r = Read \<and> mr_data r = [] \<or> mr_operation r = Write \<and> mr_readSize r = 0)
     \<and> 1 \<le> request_size r \<and> request_size r \<le> 1024 * 1024
     \<and> (\<exists>(lo, hi) \<in> gba_regions (mr_operation r). lo \<le> unat (mr_address r) \<and> unat (mr_address r) + request_size r \<le> hi)"
proof (cases "mr_operation r")
  case Read
  have "mr_readSize r = 0 \<longleftrightarrow> unat (mr_readSize r) = 0" by (simp add: unat_eq_0)
  with Read show ?thesis
    by (auto simp: ValidateMemoryRequest_def request_size_def IsRangeAllowed_readable Suc_le_eq)
next
  case Write
  have "unat (word_of_nat n :: u32) = n" if "n \<le> 1048576" for n
    using that by (simp add: unat_of_nat)
  with Write show ?thesis
    by (auto simp: ValidateMemoryRequest_def request_size_def IsRangeAllowed_writable Suc_le_eq)
qed

end
