(* ===== verification/TcpSocket.thy ===== *)
theory TcpSocket
  imports Prelude
begin

text \<open>
  \<^verbatim>\<open>TcpSocket\<close> (\<^verbatim>\<open>RogueAssistantCpp/Src/Bridge/TcpSocket.cpp\<close>): the nonblocking socket wrapper.
  What the operating system answers to the next \<^verbatim>\<open>accept\<close>, \<^verbatim>\<open>send\<close> and \<^verbatim>\<open>recv\<close> calls, what the
  clock says, and the iteration order of hash maps are not the program's: they are the fields of
  \<open>Network\<close>, lists of answers that are consumed one per call. A call for which no answer is
  left would block. The network also records the sockets the program was given, the bytes each
  took, and the ones the program closed.
\<close>

datatype SocketStatus = SsOk | WouldBlock | SsClosed | SsError

text \<open>An accepted handle and the error, if any, of making it nonblocking.\<close>

datatype NativeAccept = NaAccepted "string option" | NaInterrupted | NaWouldBlock | NaFailed string

datatype NativeSend = NsSent nat | NsInterrupted | NsWouldBlock | NsFailed string

datatype NativeReceive = NrReceived bytes | NrInterrupted | NrWouldBlock | NrFailed string

type_synonym TcpSocket = "nat option"

record SocketIoResult =
  io_status :: SocketStatus
  io_byteCount :: nat
  io_diagnostic :: string

record Network =
  net_listen :: "unit result"
  net_boundPort :: "u16 \<times> string"
  net_accept :: "NativeAccept list"
  net_send :: "NativeSend list"
  net_receive :: "NativeReceive list"
  net_beforeDeadline :: "bool list"
  net_rank :: "u32 \<Rightarrow> nat"
  net_version :: "u16 \<times> u16 \<times> u16"
  net_nextHandle :: nat
  net_sent :: "(nat \<times> bytes) list"
  net_closed :: "nat list"

definition IsOpen :: "TcpSocket \<Rightarrow> bool" where
  "IsOpen s \<longleftrightarrow> s \<noteq> None"

definition SocketClose :: "TcpSocket \<Rightarrow> Network \<Rightarrow> TcpSocket \<times> Network" where
  "SocketClose s net =
     (case s of None \<Rightarrow> (None, net) | Some h \<Rightarrow> (None, net\<lparr>net_closed := net_closed net @ [h]\<rparr>))"

text \<open>
  \<^verbatim>\<open>Accept\<close>: the status, the accepted socket, the error text. A handle that cannot be made
  nonblocking is closed by \<^verbatim>\<open>SetNonBlocking\<close>.
\<close>

fun AcceptLoop :: "NativeAccept list \<Rightarrow> Network \<Rightarrow> SocketStatus \<times> TcpSocket \<times> string \<times> Network" where
  "AcceptLoop [] net = (WouldBlock, None, [], net\<lparr>net_accept := []\<rparr>)"
| "AcceptLoop (a # as) net =
     (case a of
        NaInterrupted \<Rightarrow> AcceptLoop as net
      | NaWouldBlock \<Rightarrow> (WouldBlock, None, [], net\<lparr>net_accept := as\<rparr>)
      | NaFailed description \<Rightarrow>
          (SsError, None, ''cannot accept mGBA connection: '' @ description, net\<lparr>net_accept := as\<rparr>)
      | NaAccepted problem \<Rightarrow>
          let h = net_nextHandle net; net = net\<lparr>net_accept := as, net_nextHandle := Suc h\<rparr> in
          (case problem of
             None \<Rightarrow> (SsOk, Some h, [], net)
           | Some e \<Rightarrow> (SsError, None, e, snd (SocketClose (Some h) net))))"

definition SocketAccept :: "TcpSocket \<Rightarrow> Network \<Rightarrow> SocketStatus \<times> TcpSocket \<times> string \<times> Network" where
  "SocketAccept listener net =
     (if \<not> IsOpen listener then (SsError, None, ''bridge listener is closed'', net)
      else AcceptLoop (net_accept net) net)"

fun SendLoop :: "NativeSend list \<Rightarrow> nat \<Rightarrow> bytes \<Rightarrow> Network \<Rightarrow> SocketIoResult \<times> Network" where
  "SendLoop [] h bs net = (\<lparr>io_status = WouldBlock, io_byteCount = 0, io_diagnostic = []\<rparr>, net\<lparr>net_send := []\<rparr>)"
| "SendLoop (a # as) h bs net =
     (case a of
        NsInterrupted \<Rightarrow> SendLoop as h bs net
      | NsWouldBlock \<Rightarrow>
          (\<lparr>io_status = WouldBlock, io_byteCount = 0, io_diagnostic = []\<rparr>, net\<lparr>net_send := as\<rparr>)
      | NsFailed description \<Rightarrow>
          (\<lparr>io_status = SsError, io_byteCount = 0, io_diagnostic = ''cannot send bridge data: '' @ description\<rparr>,
           net\<lparr>net_send := as\<rparr>)
      | NsSent n \<Rightarrow>
          if n > 0 then
            (\<lparr>io_status = SsOk, io_byteCount = min n (length bs), io_diagnostic = []\<rparr>,
             net\<lparr>net_send := as, net_sent := net_sent net @ [(h, take n bs)]\<rparr>)
          else (\<lparr>io_status = SsClosed, io_byteCount = 0, io_diagnostic = ''socket closed during send''\<rparr>,
             net\<lparr>net_send := as\<rparr>))"

text \<open>
  The system takes at most the bytes it is offered (\<^verbatim>\<open>min n (length bs)\<close>). The code offers at most
  \<^verbatim>\<open>INT_MAX\<close> bytes of a call, which the callers, with at most 256 KiB, never reach.
\<close>

definition SocketSend :: "TcpSocket \<Rightarrow> bytes \<Rightarrow> Network \<Rightarrow> SocketIoResult \<times> Network" where
  "SocketSend s bs net =
     (case s of
        None \<Rightarrow> (\<lparr>io_status = SsClosed, io_byteCount = 0, io_diagnostic = ''socket is closed''\<rparr>, net)
      | Some h \<Rightarrow>
          if bs = [] then (\<lparr>io_status = SsOk, io_byteCount = 0, io_diagnostic = []\<rparr>, net)
          else SendLoop (net_send net) h (take 2147483647 bs) net)"

text \<open>\<^verbatim>\<open>Receive\<close> into a buffer of \<open>capacity\<close> bytes; the received bytes come with the result.\<close>

fun ReceiveLoop :: "NativeReceive list \<Rightarrow> nat \<Rightarrow> Network \<Rightarrow> SocketIoResult \<times> bytes \<times> Network" where
  "ReceiveLoop [] capacity net =
     (\<lparr>io_status = WouldBlock, io_byteCount = 0, io_diagnostic = []\<rparr>, [], net\<lparr>net_receive := []\<rparr>)"
| "ReceiveLoop (a # as) capacity net =
     (case a of
        NrInterrupted \<Rightarrow> ReceiveLoop as capacity net
      | NrWouldBlock \<Rightarrow>
          (\<lparr>io_status = WouldBlock, io_byteCount = 0, io_diagnostic = []\<rparr>, [], net\<lparr>net_receive := as\<rparr>)
      | NrFailed description \<Rightarrow>
          (\<lparr>io_status = SsError, io_byteCount = 0, io_diagnostic = ''cannot receive bridge data: '' @ description\<rparr>,
           [], net\<lparr>net_receive := as\<rparr>)
      | NrReceived bs \<Rightarrow>
          let got = take capacity bs in
          if got \<noteq> [] then
            (\<lparr>io_status = SsOk, io_byteCount = length got, io_diagnostic = []\<rparr>, got, net\<lparr>net_receive := as\<rparr>)
          else (\<lparr>io_status = SsClosed, io_byteCount = 0, io_diagnostic = ''peer closed the bridge connection''\<rparr>,
            [], net\<lparr>net_receive := as\<rparr>))"

definition SocketReceive :: "TcpSocket \<Rightarrow> nat \<Rightarrow> Network \<Rightarrow> SocketIoResult \<times> bytes \<times> Network" where
  "SocketReceive s capacity net =
     (if \<not> IsOpen s
      then (\<lparr>io_status = SsClosed, io_byteCount = 0, io_diagnostic = ''socket is closed''\<rparr>, [], net)
      else if capacity = 0 then (\<lparr>io_status = SsOk, io_byteCount = 0, io_diagnostic = []\<rparr>, [], net)
      else ReceiveLoop (net_receive net) (min capacity 2147483647) net)"

section \<open>Lemmas\<close>

definition same_handles :: "Network \<Rightarrow> Network \<Rightarrow> bool" where
  "same_handles net net' \<longleftrightarrow> net_nextHandle net' = net_nextHandle net \<and> net_closed net' = net_closed net"

lemma same_handles_refl [simp]: "same_handles net net"
  by (simp add: same_handles_def)

lemma SendLoop_spec:
  "SendLoop as h bs net = (r, net') \<Longrightarrow> same_handles net net' \<and> io_byteCount r \<le> length bs
     \<and> (io_status r = SsOk \<longrightarrow> 0 < io_byteCount r \<or> bs = [])
     \<and> (net_sent net' = net_sent net \<and> io_byteCount r = 0
        \<or> io_status r = SsOk \<and> net_sent net' = net_sent net @ [(h, take (io_byteCount r) bs)])"
proof (induction as)
  case (Cons a as)
  then show ?case
    by (cases a) (auto simp: same_handles_def min_def split: if_splits)
qed (auto simp: same_handles_def)

lemma SocketSend_spec:
  assumes "SocketSend s bs net = (r, net')"
  shows "same_handles net net' \<and> io_byteCount r \<le> length bs"
    and "io_status r = SsOk \<Longrightarrow> 0 < io_byteCount r \<or> bs = []"
    and "net_sent net' = net_sent net \<and> io_byteCount r = 0
        \<or> io_status r = SsOk \<and> net_sent net' = net_sent net @ [(the s, take (io_byteCount r) bs)]"
  using assms SendLoop_spec [of "net_send net" "the s" "take 2147483647 bs" net r net']
  by (auto simp: SocketSend_def split: option.splits if_splits)

lemma ReceiveLoop_spec:
  "ReceiveLoop as capacity net = (r, bs, net') \<Longrightarrow> same_handles net net' \<and> io_byteCount r = length bs
     \<and> length bs \<le> capacity \<and> net_sent net' = net_sent net"
proof (induction as)
  case (Cons a as)
  then show ?case by (cases a) (auto simp: same_handles_def Let_def split: if_splits)
qed (auto simp: same_handles_def)

lemma SocketReceive_spec:
  "SocketReceive s capacity net = (r, bs, net') \<Longrightarrow> same_handles net net' \<and> io_byteCount r = length bs
     \<and> length bs \<le> capacity \<and> net_sent net' = net_sent net"
  using ReceiveLoop_spec [of "net_receive net" "min capacity 2147483647" net r bs net']
  by (auto simp: SocketReceive_def split: if_splits)

lemma AcceptLoop_spec:
  "AcceptLoop as net = (st, s, e, net') \<Longrightarrow>
     net_sent net' = net_sent net \<and>
     (if st = SsOk then s = Some (net_nextHandle net) \<and> net_nextHandle net' = Suc (net_nextHandle net)
        \<and> net_closed net' = net_closed net
      else s = None \<and> (same_handles net net' \<or> net_nextHandle net' = Suc (net_nextHandle net)
        \<and> net_closed net' = net_closed net @ [net_nextHandle net]))"
proof (induction as)
  case (Cons a as)
  then show ?case
    by (cases a) (auto simp: same_handles_def Let_def SocketClose_def split: if_splits option.splits)
qed (auto simp: same_handles_def)

lemma SocketAccept_spec:
  "SocketAccept listener net = (st, s, e, net') \<Longrightarrow>
     net_sent net' = net_sent net \<and>
     (if st = SsOk then s = Some (net_nextHandle net) \<and> net_nextHandle net' = Suc (net_nextHandle net)
        \<and> net_closed net' = net_closed net
      else s = None \<and> (same_handles net net' \<or> net_nextHandle net' = Suc (net_nextHandle net)
        \<and> net_closed net' = net_closed net @ [net_nextHandle net]))"
  using AcceptLoop_spec [of "net_accept net" net st s e net']
  by (auto simp: SocketAccept_def split: if_splits)

end
