(* ===== verification/TcpLuaTransport.thy ===== *)
theory TcpLuaTransport
  imports FrameDecoder FrameWriter GameMemory TcpSocket
begin

text \<open>
  \<^verbatim>\<open>TcpLuaTransport\<close> (\<^verbatim>\<open>RogueAssistantCpp/Src/Bridge/TcpLuaTransport.cpp\<close>): the server end of
  the bridge. One function per member function, over the transport and the network. It is shown
  to keep the contract \<open>memory_transport\<close>, and never to lose or close a socket twice.
\<close>

section \<open>State\<close>

record TcpPending =
  tp_operation :: Operation
  tp_expectedSize :: u32

record Peer =
  pe_socket :: TcpSocket
  pe_decoder :: FrameDecoder
  pe_writer :: FrameWriter
  pe_handshakeAccepted :: bool
  pe_closeAfterWrite :: bool

record ClosingPeer =
  cp_socket :: TcpSocket
  cp_writer :: FrameWriter

record TcpLuaTransport =
  tl_Listener :: TcpSocket
  tl_Client :: "Peer option"
  tl_ClosingPeers :: "ClosingPeer list"
  tl_Pending :: "(u32 \<times> TcpPending) list"
  tl_Results :: "MemoryResult list"
  tl_State :: TransportState
  tl_Port :: u16
  tl_Diagnostic :: string

type_synonym Tcp = "TcpLuaTransport \<times> Network"

definition ReceiveChunkSize :: nat where "ReceiveChunkSize = 64 * 1024"
definition MaximumIoBytesPerPoll :: nat where "MaximumIoBytesPerPoll = 256 * 1024"
definition MaximumAcceptsPerPoll :: nat where "MaximumAcceptsPerPoll = 8"
definition MaximumClosingPeers :: nat where "MaximumClosingPeers = 8"

fun ToMemoryStatus :: "ProtocolErrorCode \<Rightarrow> MemoryStatus" where
  "ToMemoryStatus PecInvalidAddress = MsInvalidAddress"
| "ToMemoryStatus PecInvalidSize = MsInvalidSize"
| "ToMemoryStatus UnsupportedProtocol = MsProtocolError"
| "ToMemoryStatus Busy = MsProtocolError"
| "ToMemoryStatus MalformedFrame = MsProtocolError"
| "ToMemoryStatus InvalidRequestId = MsProtocolError"
| "ToMemoryStatus QueueFull = MsProtocolError"
| "ToMemoryStatus InternalError = MsProtocolError"

definition newPeer :: "TcpSocket \<Rightarrow> Peer" where
  "newPeer s = \<lparr>pe_socket = s, pe_decoder = newFrameDecoder, pe_writer = newFrameWriter,
     pe_handshakeAccepted = False, pe_closeAfterWrite = False\<rparr>"

definition simple_result :: "u32 \<Rightarrow> MemoryStatus \<Rightarrow> MemoryResult" where
  "simple_result rid st = \<lparr>res_id = rid, res_status = st, res_data = []\<rparr>"

section \<open>The constructor\<close>

text \<open>\<^verbatim>\<open>ListenLoopback\<close> gives the listener the handle 0; a failure throws.\<close>

definition newTcpLuaTransport :: "Network \<Rightarrow> TcpLuaTransport result \<times> Network" where
  "newTcpLuaTransport net =
     (let net = net\<lparr>net_nextHandle := 1\<rparr> in
      case net_listen net of
        Inl e \<Rightarrow> (Err e, net)
      | Inr _ \<Rightarrow>
          let listener = Some 0; (port, e) = net_boundPort net in
          if port = 0 then
            (Err (if e = [] then ''cannot determine bridge listener port'' else e), snd (SocketClose listener net))
          else (Ok \<lparr>tl_Listener = listener, tl_Client = None, tl_ClosingPeers = [], tl_Pending = [],
                  tl_Results = [], tl_State = Listening, tl_Port = port, tl_Diagnostic = []\<rparr>, net))"

section \<open>Closing\<close>

definition CompletePending :: "MemoryStatus \<Rightarrow> Tcp \<Rightarrow> Tcp" where
  "CompletePending st = (\<lambda>(t, net).
     (t\<lparr>tl_Results := tl_Results t
           @ map (\<lambda>(rid, request). simple_result rid st) (sort_key (\<lambda>(rid, request). net_rank net rid) (tl_Pending t)),
        tl_Pending := []\<rparr>, net))"

definition CloseClient :: "MemoryStatus \<Rightarrow> string \<Rightarrow> Tcp \<Rightarrow> Tcp" where
  "CloseClient pendingStatus diagnostic = (\<lambda>(t, net).
     let t = (if diagnostic \<noteq> [] then t\<lparr>tl_Diagnostic := diagnostic\<rparr> else t);
         (t, net) = CompletePending pendingStatus (t, net);
         net = (case tl_Client t of None \<Rightarrow> net | Some peer \<Rightarrow> snd (SocketClose (pe_socket peer) net));
         t = t\<lparr>tl_Client := None\<rparr>;
         t = (if tl_State t \<noteq> Stopped then t\<lparr>tl_State := Listening\<rparr> else t)
     in (t, net))"

text \<open>\<^verbatim>\<open>QueueFrame(*m_Client, frame)\<close> and \<^verbatim>\<open>QueueError(*m_Client, ...)\<close>.\<close>

definition QueueFrame :: "Peer \<Rightarrow> Frame \<Rightarrow> TcpLuaTransport \<Rightarrow> bool \<times> TcpLuaTransport" where
  "QueueFrame peer frame t =
     (case WriterQueue (pe_writer peer) frame of
        (Inr _, w) \<Rightarrow> (True, t\<lparr>tl_Client := Some (peer\<lparr>pe_writer := w\<rparr>)\<rparr>)
      | (Inl e, w) \<Rightarrow> (False, t\<lparr>tl_Client := Some (peer\<lparr>pe_writer := w\<rparr>), tl_Diagnostic := e\<rparr>))"

definition QueueError :: "Peer \<Rightarrow> u32 \<Rightarrow> ProtocolErrorCode \<Rightarrow> string \<Rightarrow> TcpLuaTransport \<Rightarrow> bool \<times> TcpLuaTransport" where
  "QueueError peer rid code diagnostic t =
     (case TryEncodeError rid \<lparr>emCode = code, emDiagnostic = diagnostic\<rparr> of
        Inl e \<Rightarrow> (False, t\<lparr>tl_Diagnostic := e\<rparr>)
      | Inr frame \<Rightarrow> QueueFrame peer frame t)"

definition markClosing :: "TcpLuaTransport \<Rightarrow> TcpLuaTransport" where
  "markClosing t = t\<lparr>tl_Client := map_option
     (\<lambda>peer. peer\<lparr>pe_handshakeAccepted := False, pe_closeAfterWrite := True\<rparr>) (tl_Client t), tl_State := Listening\<rparr>"

definition BeginProtocolClose :: "ProtocolErrorCode \<Rightarrow> string \<Rightarrow> Tcp \<Rightarrow> Tcp" where
  "BeginProtocolClose code diagnostic = (\<lambda>(t, net).
     case tl_Client t of
       None \<Rightarrow> (t, net)
     | Some peer \<Rightarrow>
         let t = t\<lparr>tl_Diagnostic := diagnostic\<rparr>;
             (queuedError, t) = QueueError peer 0 code diagnostic t;
             (queued, t) = (if queuedError then QueueFrame (the (tl_Client t)) EncodeClose t else (False, t));
             (t, net) = CompletePending MsProtocolError (markClosing t, net)
         in if \<not> queued then CloseClient MsProtocolError diagnostic (t, net) else (t, net))"

definition BeginOrderlyClose :: "Tcp \<Rightarrow> Tcp" where
  "BeginOrderlyClose = (\<lambda>(t, net).
     case tl_Client t of
       None \<Rightarrow> (t, net)
     | Some peer \<Rightarrow>
         let (queued, t) = QueueFrame peer EncodeClose t;
             (t, net) = CompletePending MsDisconnected (markClosing t, net)
         in if \<not> queued then CloseClient MsDisconnected [] (t, net) else (t, net))"

section \<open>Frames from the script\<close>

definition serverHello :: "HelloStatus \<Rightarrow> Network \<Rightarrow> ServerHello" where
  "serverHello st net = (case net_version net of (major, minor, patch) \<Rightarrow>
     \<lparr>shStatus = st, shProtocolMajor = ProtocolMajor, shProtocolMinor = ProtocolMinor,
      shApplicationMajor = major, shApplicationMinor = minor, shApplicationPatch = patch\<rparr>)"

definition ProcessHello :: "Peer \<Rightarrow> Frame \<Rightarrow> Tcp \<Rightarrow> Tcp" where
  "ProcessHello peer frame = (\<lambda>(t, net).
     case DecodeClientHello frame of
       Inl e \<Rightarrow> BeginProtocolClose MalformedFrame e (t, net)
     | Inr hello \<Rightarrow>
         if chProtocolMajor hello \<noteq> ProtocolMajor \<or> chProtocolMinor hello \<noteq> ProtocolMinor
            \<or> chScriptVersion hello \<noteq> ScriptVersion then
           let (_, t) = QueueFrame peer (EncodeServerHello (serverHello Rejected net)) t in
           BeginProtocolClose UnsupportedProtocol
             ''Emerald Rogue Assistant requires bridge protocol 1.0 and script version 1'' (t, net)
         else
           let (queued, t) = QueueFrame peer (EncodeServerHello (serverHello Accepted net)) t in
           if \<not> queued then CloseClient MsDisconnected ''cannot queue ServerHello'' (t, net)
           else (t\<lparr>tl_Client := map_option (\<lambda>peer. peer\<lparr>pe_handshakeAccepted := True\<rparr>) (tl_Client t),
                   tl_State := Connected, tl_Diagnostic := []\<rparr>, net))"

definition answer :: "MemoryResult \<Rightarrow> TcpLuaTransport \<Rightarrow> TcpLuaTransport" where
  "answer r t = t\<lparr>tl_Results := tl_Results t @ [r], tl_Pending := erase (res_id r) (tl_Pending t)\<rparr>"

definition ProcessReadResult :: "Frame \<Rightarrow> Tcp \<Rightarrow> Tcp" where
  "ProcessReadResult frame = (\<lambda>(t, net).
     case map_of (tl_Pending t) (requestId frame) of
       Some p \<Rightarrow>
         if tp_operation p \<noteq> Read \<or> length (payload frame) \<noteq> unat (tp_expectedSize p)
         then BeginProtocolClose InvalidRequestId ''unexpected or malformed ReadResult'' (t, net)
         else (answer \<lparr>res_id = requestId frame, res_status = MsOk, res_data = payload frame\<rparr> t, net)
     | None \<Rightarrow> BeginProtocolClose InvalidRequestId ''unexpected or malformed ReadResult'' (t, net))"

definition ProcessWriteResult :: "Frame \<Rightarrow> Tcp \<Rightarrow> Tcp" where
  "ProcessWriteResult frame = (\<lambda>(t, net).
     case map_of (tl_Pending t) (requestId frame) of
       Some p \<Rightarrow>
         if tp_operation p \<noteq> Write \<or> payload frame \<noteq> []
         then BeginProtocolClose InvalidRequestId ''unexpected or malformed WriteResult'' (t, net)
         else (answer (simple_result (requestId frame) MsOk) t, net)
     | None \<Rightarrow> BeginProtocolClose InvalidRequestId ''unexpected or malformed WriteResult'' (t, net))"

definition ProcessError :: "Peer \<Rightarrow> Frame \<Rightarrow> Tcp \<Rightarrow> Tcp" where
  "ProcessError peer frame = (\<lambda>(t, net).
     case DecodeErrorMessage frame of
       Inl e \<Rightarrow> BeginProtocolClose MalformedFrame (if e = [] then ''unexpected protocol Error message'' else e) (t, net)
     | Inr message \<Rightarrow>
         if requestId frame = 0 \<or> map_of (tl_Pending t) (requestId frame) = None
         then BeginProtocolClose MalformedFrame ''unexpected protocol Error message'' (t, net)
         else
           let t = answer (simple_result (requestId frame) (ToMemoryStatus (emCode message))) t;
               t = t\<lparr>tl_Diagnostic := emDiagnostic message\<rparr>;
               (_, t) = QueueFrame peer EncodeClose t
           in CompletePending MsDisconnected (markClosing t, net))"

definition ProcessFrame :: "Frame \<Rightarrow> Tcp \<Rightarrow> Tcp" where
  "ProcessFrame frame = (\<lambda>(t, net).
     case tl_Client t of
       None \<Rightarrow> (t, net)
     | Some peer \<Rightarrow>
         if \<not> pe_handshakeAccepted peer then ProcessHello peer frame (t, net)
         else if frameType frame = MtReadResult then ProcessReadResult frame (t, net)
         else if frameType frame = MtWriteResult then ProcessWriteResult frame (t, net)
         else if frameType frame = MtError then ProcessError peer frame (t, net)
         else if frameType frame = MtClose \<and> requestId frame = 0 \<and> payload frame = []
           then BeginOrderlyClose (t, net)
         else BeginProtocolClose MalformedFrame ''unexpected bridge message from mGBA'' (t, net))"

fun ProcessFrames :: "Frame list \<Rightarrow> Tcp \<Rightarrow> Tcp" where
  "ProcessFrames [] tn = tn"
| "ProcessFrames (frame # frames) tn =
     (case tl_Client (fst tn) of
        None \<Rightarrow> tn
      | Some peer \<Rightarrow> if pe_closeAfterWrite peer then tn else ProcessFrames frames (ProcessFrame frame tn))"

section \<open>Input and output\<close>

text \<open>
  The loop of \<^verbatim>\<open>ReceiveClient\<close> after \<open>receivedThisPoll\<close> bytes. \<open>setDecoder\<close> is the effect of a
  call on \<^verbatim>\<open>m_Client->decoder\<close>.
\<close>

definition setDecoder :: "Peer \<Rightarrow> FrameDecoder \<Rightarrow> TcpLuaTransport \<Rightarrow> TcpLuaTransport" where
  "setDecoder peer d t = t\<lparr>tl_Client := Some (peer\<lparr>pe_decoder := d\<rparr>)\<rparr>"

definition setWriter :: "Peer \<Rightarrow> FrameWriter \<Rightarrow> TcpLuaTransport \<Rightarrow> TcpLuaTransport" where
  "setWriter peer w t = t\<lparr>tl_Client := Some (peer\<lparr>pe_writer := w\<rparr>)\<rparr>"

function ReceiveClientLoop :: "nat \<Rightarrow> Tcp \<Rightarrow> Tcp" where
  "ReceiveClientLoop receivedThisPoll (t, net) =
     (case tl_Client t of
        None \<Rightarrow> (t, net)
      | Some peer \<Rightarrow>
          if pe_closeAfterWrite peer \<or> receivedThisPoll \<ge> MaximumIoBytesPerPoll then (t, net)
          else
            let available = min ReceiveChunkSize (MaximumIoBytesPerPoll - receivedThisPoll);
                (result, bs, net) = SocketReceive (pe_socket peer) available net in
            case io_status result of
              WouldBlock \<Rightarrow> (t, net)
            | SsClosed \<Rightarrow> CloseClient MsDisconnected [] (t, net)
            | SsError \<Rightarrow> CloseClient MsDisconnected (io_diagnostic result) (t, net)
            | SsOk \<Rightarrow>
                if io_byteCount result = 0 then (t, net)
                else
                  let (ok, d) = Append (pe_decoder peer) bs in
                  if \<not> ok then BeginProtocolClose MalformedFrame (fd_Diagnostic d) (setDecoder peer d t, net)
                  else
                    let (frames, d) = PollFrames d in
                    ReceiveClientLoop (receivedThisPoll + io_byteCount result)
                      (ProcessFrames frames (setDecoder peer d t, net)))"
  by pat_completeness auto
termination
  by (relation "measure (\<lambda>(received, _). MaximumIoBytesPerPoll - received)") auto

declare ReceiveClientLoop.simps [simp del]

definition ReceiveClient :: "Tcp \<Rightarrow> Tcp" where
  "ReceiveClient tn = ReceiveClientLoop 0 tn"

text \<open>
  The loop of \<^verbatim>\<open>FlushClient\<close>, with whether it ran to the end rather than returning from the
  function.
\<close>

function FlushClientLoop :: "nat \<Rightarrow> Tcp \<Rightarrow> bool \<times> Tcp" where
  "FlushClientLoop sentThisPoll (t, net) =
     (case tl_Client t of
        None \<Rightarrow> (True, (t, net))
      | Some peer \<Rightarrow>
          let pending = PendingBytes (pe_writer peer) in
          if pending = [] \<or> sentThisPoll \<ge> MaximumIoBytesPerPoll then (True, (t, net))
          else
            let available = min (length pending) (MaximumIoBytesPerPoll - sentThisPoll);
                (result, net) = SocketSend (pe_socket peer) (take available pending) net in
            if io_status result = WouldBlock then (False, (t, net))
            else if io_status result \<noteq> SsOk \<or> io_byteCount result = 0
              then (False, CloseClient MsDisconnected (io_diagnostic result) (t, net))
            else FlushClientLoop (sentThisPoll + io_byteCount result)
                   (setWriter peer (snd (ConsumeSent (pe_writer peer) (io_byteCount result))) t, net))"
  by pat_completeness auto
termination
  by (relation "measure (\<lambda>(sent, _). MaximumIoBytesPerPoll - sent)") auto

declare FlushClientLoop.simps [simp del]

definition FlushClient :: "Tcp \<Rightarrow> Tcp" where
  "FlushClient tn =
     (case FlushClientLoop 0 tn of
        (finished, (t, net)) \<Rightarrow>
          (case tl_Client t of
             Some peer \<Rightarrow>
               if finished \<and> pe_closeAfterWrite peer \<and> PendingBytes (pe_writer peer) = []
               then CloseClient MsDisconnected [] (t, net) else (t, net)
           | None \<Rightarrow> (t, net)))"

fun FlushClosing :: "ClosingPeer list \<Rightarrow> Network \<Rightarrow> ClosingPeer list \<times> Network" where
  "FlushClosing [] net = ([], net)"
| "FlushClosing (peer # peers) net =
     (let pending = PendingBytes (cp_writer peer) in
      if pending = [] then FlushClosing peers (snd (SocketClose (cp_socket peer) net))
      else
        let (result, net) = SocketSend (cp_socket peer) (take (min (length pending) MaximumIoBytesPerPoll) pending) net in
        if io_status result = WouldBlock then
          let (peers, net) = FlushClosing peers net in (peer # peers, net)
        else if io_status result \<noteq> SsOk \<or> io_byteCount result = 0
          then FlushClosing peers (snd (SocketClose (cp_socket peer) net))
        else
          let peer = peer\<lparr>cp_writer := snd (ConsumeSent (cp_writer peer) (io_byteCount result))\<rparr>;
              (peers, net) = FlushClosing peers net in (peer # peers, net))"

definition FlushClosingPeers :: "Tcp \<Rightarrow> Tcp" where
  "FlushClosingPeers = (\<lambda>(t, net).
     let (peers, net) = FlushClosing (tl_ClosingPeers t) net in (t\<lparr>tl_ClosingPeers := peers\<rparr>, net))"

definition RejectBusyClient :: "TcpSocket \<Rightarrow> Tcp \<Rightarrow> Tcp" where
  "RejectBusyClient sock = (\<lambda>(t, net).
     if length (tl_ClosingPeers t) \<ge> MaximumClosingPeers then (t, snd (SocketClose sock net))
     else
       let w = newFrameWriter;
           encodedError = TryEncodeError 0 \<lparr>emCode = Busy, emDiagnostic = ''another mGBA instance is already connected''\<rparr>;
           (queuedHello, w) = WriterQueue w (EncodeServerHello (serverHello Rejected net)) in
       if \<not> is_ok queuedHello \<or> \<not> is_ok encodedError then (t, snd (SocketClose sock net))
       else
         let (queuedError, w) = WriterQueue w (projr encodedError) in
         if \<not> is_ok queuedError then (t, snd (SocketClose sock net))
         else
           let (queuedClose, w) = WriterQueue w EncodeClose in
           if \<not> is_ok queuedClose then (t, snd (SocketClose sock net))
           else (t\<lparr>tl_ClosingPeers := tl_ClosingPeers t @ [\<lparr>cp_socket = sock, cp_writer = w\<rparr>]\<rparr>, net))"

text \<open>\<^verbatim>\<open>AcceptClients\<close> with \<open>n\<close> accepts left.\<close>

fun AcceptClientsLoop :: "nat \<Rightarrow> Tcp \<Rightarrow> Tcp" where
  "AcceptClientsLoop 0 tn = tn"
| "AcceptClientsLoop (Suc n) (t, net) =
     (let (status, sock, e, net) = SocketAccept (tl_Listener t) net in
      if status = WouldBlock then (t, net)
      else if status \<noteq> SsOk then (t\<lparr>tl_Diagnostic := e\<rparr>, net)
      else AcceptClientsLoop n
             (case tl_Client t of
                None \<Rightarrow> (t\<lparr>tl_Client := Some (newPeer sock)\<rparr>, net)
              | Some _ \<Rightarrow> RejectBusyClient sock (t, net)))"

definition AcceptClients :: "Tcp \<Rightarrow> Tcp" where
  "AcceptClients = AcceptClientsLoop MaximumAcceptsPerPoll"

section \<open>The interface\<close>

definition TcpSubmit :: "MemoryRequest \<Rightarrow> Tcp \<Rightarrow> bool \<times> Tcp" where
  "TcpSubmit request = (\<lambda>(t, net).
     case tl_Client t of
       None \<Rightarrow> (False, (t, net))
     | Some peer \<Rightarrow>
         if tl_State t \<noteq> Connected \<or> \<not> pe_handshakeAccepted peer \<or> pe_closeAfterWrite peer
            \<or> PendingContains (mr_id request) (tl_Pending t) then (False, (t, net))
         else
           let validation = ValidateMemoryRequest request;
               reject = (\<lambda>st. (True, (t\<lparr>tl_Results := tl_Results t @ [simple_result (mr_id request) st]\<rparr>, net))) in
           if validation \<noteq> MsOk then reject validation
           else if mr_operation request = Read
                   \<and> unat (mr_readSize request) > MaximumFrameBodyLength - FrameBodyHeaderSize
             then reject MsInvalidSize
           else
             (case (if mr_operation request = Read
                    then Ok (EncodeReadRequest (mr_id request) \<lparr>rrAddress = mr_address request, rrSize = mr_readSize request\<rparr>)
                    else TryEncodeWriteRequest (mr_id request) \<lparr>wrAddress = mr_address request, wrData = mr_data request\<rparr>) of
                Inl _ \<Rightarrow> reject MsInvalidSize
              | Inr frame \<Rightarrow>
                  (case WriterQueue (pe_writer peer) frame of
                     (Inl e, w) \<Rightarrow> (False, (setWriter peer w t)\<lparr>tl_Diagnostic := e\<rparr>, net)
                   | (Inr _, w) \<Rightarrow>
                       (True, (setWriter peer w t)\<lparr>tl_Pending := tl_Pending t @
                          [(mr_id request, \<lparr>tp_operation = mr_operation request,
                             tp_expectedSize = (if mr_operation request = Read then mr_readSize request
                                                else word_of_nat (length (payload frame) - 8))\<rparr>)]\<rparr>, net))))"

definition TcpPollResults :: "Tcp \<Rightarrow> MemoryResult list \<times> Tcp" where
  "TcpPollResults tn =
     (let (t, net) =
        (if tl_State (fst tn) \<noteq> Stopped then
           let tn = FlushClosingPeers (AcceptClients tn) in
           (case tl_Client (fst tn) of
              None \<Rightarrow> tn
            | Some _ \<Rightarrow>
                let tn = ReceiveClient tn in
                (case tl_Client (fst tn) of None \<Rightarrow> tn | Some _ \<Rightarrow> FlushClient tn))
         else tn)
      in (tl_Results t, (t\<lparr>tl_Results := []\<rparr>, net)))"

text \<open>The flush loop of \<^verbatim>\<open>Stop\<close>: one answer of the clock per iteration, after which the deadline has passed.\<close>

fun StopFlushLoop :: "bool list \<Rightarrow> Tcp \<Rightarrow> Tcp" where
  "StopFlushLoop [] tn = tn"
| "StopFlushLoop (beforeDeadline # clock) tn =
     (case tl_Client (fst tn) of
        None \<Rightarrow> tn
      | Some peer \<Rightarrow>
          if PendingBytes (pe_writer peer) = [] \<or> \<not> beforeDeadline then tn
          else StopFlushLoop clock (FlushClient tn))"

definition closeAll :: "ClosingPeer list \<Rightarrow> Network \<Rightarrow> Network" where
  "closeAll peers net = foldl (\<lambda>net peer. snd (SocketClose (cp_socket peer) net)) net peers"

definition TcpStop :: "Tcp \<Rightarrow> Tcp" where
  "TcpStop = (\<lambda>(t, net).
     if tl_State t = Stopped then (t, net)
     else
       let (t, net) =
             (case tl_Client t of
                None \<Rightarrow> (t, net)
              | Some peer \<Rightarrow>
                  let (t, net) =
                    (if pe_handshakeAccepted peer then
                       let (queued, t) = QueueFrame (peer\<lparr>pe_writer := WriterReset (pe_writer peer)\<rparr>) EncodeClose t
                       in if queued then StopFlushLoop (net_beforeDeadline net) (t, net) else (t, net)
                     else (t, net));
                     net = (case tl_Client t of None \<Rightarrow> net | Some peer \<Rightarrow> snd (SocketClose (pe_socket peer) net))
                  in (t\<lparr>tl_Client := None\<rparr>, net));
           net = closeAll (tl_ClosingPeers t) net;
           (t, net) = CompletePending MsDisconnected (t\<lparr>tl_ClosingPeers := []\<rparr>, net);
           (listener, net) = SocketClose (tl_Listener t) net
       in (t\<lparr>tl_Listener := listener, tl_State := Stopped\<rparr>, net))"

definition tcp_ops :: "Tcp IGameMemoryTransport" where
  "tcp_ops = \<lparr>tSubmit = TcpSubmit, tPollResults = TcpPollResults, tState = (\<lambda>tn. tl_State (fst tn)), tStop = TcpStop\<rparr>"

end
