(* ===== verification/GameSession.thy ===== *)
theory GameSession
  imports GameMemory
begin

text \<open>
  \<^verbatim>\<open>GameSession\<close> (\<^verbatim>\<open>RogueAssistantCpp/Src/Bridge/GameSession.cpp\<close>): request IDs, the table of
  requests that wait for a result, and the completions it calls.

  A completion is a value of \<^typ>\<open>'c\<close>; calling it is \<open>run c result world\<close>, for any function \<open>run\<close>
  that says what the client's callbacks do, which includes calling the session again. The
  world is the session, the transport behind the interface \<open>ops\<close>, and the history of accepted
  requests and called completions, which only serves to state properties.

  The properties are proved for every transport that keeps the contract \<open>memory_transport\<close>, and, of what
  completions are told, for a transport that may do anything.
\<close>

section \<open>State\<close>

record 'c SessionPending =
  sp_operation :: Operation
  sp_expectedSize :: u32
  sp_completion :: 'c

record 'c GameSession =
  gs_Pending :: "(u32 \<times> 'c SessionPending) list"
  gs_NextRequestId :: u32
  gs_ProtocolErrorCount :: nat
  gs_Stopped :: bool

datatype 'c SessionEvent =
  EvAccepted u32 Operation u32 'c
| EvCompleted u32 'c MemoryResult
| EvRefused 'c MemoryResult

record ('c, 't) SessionWorld =
  sw_session :: "'c GameSession"
  sw_transport :: 't
  sw_events :: "'c SessionEvent list"

type_synonym ('c, 't) Callback = "'c \<Rightarrow> MemoryResult \<Rightarrow> ('c, 't) SessionWorld \<Rightarrow> ('c, 't) SessionWorld"

definition newGameSession :: "'t option \<Rightarrow> ('c, 't) SessionWorld result" where
  "newGameSession transport =
     (case transport of
        None \<Rightarrow> Err ''GameSession requires a memory transport''
      | Some t \<Rightarrow> Ok \<lparr>sw_session = \<lparr>gs_Pending = [], gs_NextRequestId = 1, gs_ProtocolErrorCount = 0,
          gs_Stopped = False\<rparr>, sw_transport = t, sw_events = []\<rparr>)"

section \<open>Operations\<close>

definition OutstandingRequestCount :: "('c, 't) SessionWorld \<Rightarrow> nat" where
  "OutstandingRequestCount W = length (gs_Pending (sw_session W))"

definition CanSubmit :: "'t IGameMemoryTransport \<Rightarrow> ('c, 't) SessionWorld \<Rightarrow> bool" where
  "CanSubmit ops W \<longleftrightarrow> \<not> gs_Stopped (sw_session W) \<and> tState ops (sw_transport W) = Connected
     \<and> length (gs_Pending (sw_session W)) < MaximumOutstandingMemoryRequests"

text \<open>
  The endless loop of \<^verbatim>\<open>AllocateRequestId\<close>: the candidate and the next ID; \<^const>\<open>None\<close> if it does
  not end.
\<close>

definition IncrementRequestId :: "u32 \<Rightarrow> u32" where
  "IncrementRequestId n = (if n + 1 = 0 then 1 else n + 1)"

partial_function (option) AllocateLoop :: "(u32 \<times> 'p) list \<Rightarrow> u32 \<Rightarrow> (u32 \<times> u32) option" where
  "AllocateLoop pending nextId =
     (let candidate = nextId; nextId = IncrementRequestId nextId in
      if candidate \<noteq> 0 \<and> \<not> PendingContains candidate pending then Some (candidate, nextId)
      else AllocateLoop pending nextId)"

definition AllocateRequestId :: "'c GameSession \<Rightarrow> (u32 \<times> 'c GameSession) option" where
  "AllocateRequestId s =
     map_option (\<lambda>(candidate, nextId). (candidate, s\<lparr>gs_NextRequestId := nextId\<rparr>))
       (AllocateLoop (gs_Pending s) (gs_NextRequestId s))"

definition invoke :: "('c, 't) Callback \<Rightarrow> u32 \<Rightarrow> 'c \<Rightarrow> MemoryResult \<Rightarrow> ('c, 't) SessionWorld \<Rightarrow> ('c, 't) SessionWorld" where
  "invoke run rid c r W = run c r (W\<lparr>sw_events := sw_events W @ [EvCompleted rid c r]\<rparr>)"

text \<open>
  \<^verbatim>\<open>Submit\<close>. The first branch of the \<open>case\<close> stands for an ID search that does not end, which
  \<open>allocate_terminates\<close> excludes.
\<close>

definition SessionSubmit ::
  "'t IGameMemoryTransport \<Rightarrow> ('c, 't) Callback \<Rightarrow> MemoryRequest \<Rightarrow> 'c option \<Rightarrow> ('c, 't) SessionWorld
    \<Rightarrow> bool \<times> ('c, 't) SessionWorld" where
  "SessionSubmit ops run request completion W =
     (if \<not> CanSubmit ops W then (False, W)
      else case completion of None \<Rightarrow> (False, W) | Some c \<Rightarrow>
        case AllocateRequestId (sw_session W) of
          None \<Rightarrow> (False, W)
        | Some (rid, s) \<Rightarrow>
            let request = request\<lparr>mr_id := rid\<rparr>;
                validation = ValidateMemoryRequest request in
            if validation \<noteq> MsOk then
              let result = \<lparr>res_id = rid, res_status = validation, res_data = []\<rparr> in
              (False, run c result (W\<lparr>sw_session := s, sw_events := sw_events W @ [EvRefused c result]\<rparr>))
            else
              let pending = \<lparr>sp_operation = mr_operation request,
                    sp_expectedSize = (if mr_operation request = Read then mr_readSize request
                                       else word_of_nat (length (mr_data request))),
                    sp_completion = c\<rparr>;
                  s = s\<lparr>gs_Pending := gs_Pending s @ [(rid, pending)]\<rparr>;
                  (accepted, t) = tSubmit ops request (sw_transport W) in
              if \<not> accepted
              then (False, W\<lparr>sw_session := s\<lparr>gs_Pending := erase rid (gs_Pending s)\<rparr>, sw_transport := t\<rparr>)
              else (True, W\<lparr>sw_session := s, sw_transport := t, sw_events := sw_events W @ [EvAccepted rid (sp_operation pending) (sp_expectedSize pending) c]\<rparr>))"

definition SessionRead ::
  "'t IGameMemoryTransport \<Rightarrow> ('c, 't) Callback \<Rightarrow> u32 \<Rightarrow> u32 \<Rightarrow> 'c option \<Rightarrow> ('c, 't) SessionWorld
    \<Rightarrow> bool \<times> ('c, 't) SessionWorld" where
  "SessionRead ops run address sz completion W =
     SessionSubmit ops run \<lparr>mr_id = 0, mr_operation = Read, mr_address = address, mr_data = [], mr_readSize = sz\<rparr>
       completion W"

definition SessionWrite ::
  "'t IGameMemoryTransport \<Rightarrow> ('c, 't) Callback \<Rightarrow> u32 \<Rightarrow> bytes \<Rightarrow> 'c option \<Rightarrow> ('c, 't) SessionWorld
    \<Rightarrow> bool \<times> ('c, 't) SessionWorld" where
  "SessionWrite ops run address bs completion W =
     SessionSubmit ops run \<lparr>mr_id = 0, mr_operation = Write, mr_address = address, mr_data = bs, mr_readSize = 0\<rparr>
       completion W"

text \<open>One result of the loop of \<^verbatim>\<open>Poll\<close>.\<close>

definition PollOne :: "('c, 't) Callback \<Rightarrow> ('c, 't) SessionWorld \<Rightarrow> MemoryResult \<Rightarrow> ('c, 't) SessionWorld" where
  "PollOne run W result =
     (let s = sw_session W in
      case map_of (gs_Pending s) (res_id result) of
        None \<Rightarrow> W\<lparr>sw_session := s\<lparr>gs_ProtocolErrorCount := gs_ProtocolErrorCount s + 1\<rparr>\<rparr>
      | Some pending \<Rightarrow>
          let s = s\<lparr>gs_Pending := erase (res_id result) (gs_Pending s)\<rparr>;
              validRead = (sp_operation pending = Read \<and> length (res_data result) = unat (sp_expectedSize pending));
              validWrite = (sp_operation pending = Write \<and> res_data result = []);
              bad = (res_status result = MsOk \<and> \<not> validRead \<and> \<not> validWrite);
              s = (if bad then s\<lparr>gs_ProtocolErrorCount := gs_ProtocolErrorCount s + 1\<rparr> else s);
              delivered = (if bad then result\<lparr>res_status := MsProtocolError, res_data := []\<rparr> else result) in
          invoke run (res_id result) (sp_completion pending) delivered (W\<lparr>sw_session := s\<rparr>))"

definition SessionPoll ::
  "'t IGameMemoryTransport \<Rightarrow> ('c, 't) Callback \<Rightarrow> ('c, 't) SessionWorld \<Rightarrow> ('c, 't) SessionWorld" where
  "SessionPoll ops run W =
     (if gs_Stopped (sw_session W) then W
      else let (results, t) = tPollResults ops (sw_transport W)
        in foldl (PollOne run) (W\<lparr>sw_transport := t\<rparr>) results)"

text \<open>
  \<^verbatim>\<open>Stop\<close>. The iteration order of an \<^verbatim>\<open>unordered_map\<close> is not specified: it is the order of \<open>rank\<close>,
  any function.
\<close>

definition SessionStop ::
  "(u32 \<Rightarrow> nat) \<Rightarrow> ('c, 't) Callback \<Rightarrow> ('c, 't) SessionWorld \<Rightarrow> ('c, 't) SessionWorld" where
  "SessionStop rank run W =
     (let s = sw_session W in
      if gs_Stopped s then W
      else foldl (\<lambda>W (rid, request). invoke run rid (sp_completion request)
                    \<lparr>res_id = rid, res_status = MsDisconnected, res_data = []\<rparr> W)
             (W\<lparr>sw_session := s\<lparr>gs_Stopped := True, gs_Pending := []\<rparr>\<rparr>)
             (sort_key (\<lambda>(rid, request). rank rid) (gs_Pending s)))"

section \<open>Completions that use the session\<close>

text \<open>
  What the code of a completion does with the session: any sequence of reads, writes, polls and stops,
  each chosen after the answers of the calls before, from everything the code can see. A script is
  such a sequence; \<open>program\<close> gives the script of each call of a completion.

  A completion can be called while another one runs (a read that is refused completes inside
  \<^verbatim>\<open>Read\<close>, a completion may poll or stop the session). \<open>runScripts ops program n\<close> runs completions
  nested up to \<open>n\<close> deep; the ones below do nothing. Every run of the program that does not overflow the
  stack has some depth, and the properties hold for all.
\<close>

datatype 'c SessionCall =
  CallRead u32 u32 "'c option"
| CallWrite u32 bytes "'c option"
| CallPoll
| CallStop "u32 \<Rightarrow> nat"

datatype ('c, 't) SessionScript =
  EndCompletion
| CallSession "'c SessionCall" "bool \<Rightarrow> ('c, 't) SessionWorld \<Rightarrow> ('c, 't) SessionScript"

type_synonym ('c, 't) Completions = "'c \<Rightarrow> MemoryResult \<Rightarrow> ('c, 't) SessionWorld \<Rightarrow> ('c, 't) SessionScript"

fun sessionCall ::
  "'t IGameMemoryTransport \<Rightarrow> ('c, 't) Callback \<Rightarrow> 'c SessionCall \<Rightarrow> ('c, 't) SessionWorld
    \<Rightarrow> bool \<times> ('c, 't) SessionWorld" where
  "sessionCall ops run (CallRead address sz completion) W = SessionRead ops run address sz completion W"
| "sessionCall ops run (CallWrite address bs completion) W = SessionWrite ops run address bs completion W"
| "sessionCall ops run CallPoll W = (True, SessionPoll ops run W)"
| "sessionCall ops run (CallStop rank) W = (True, SessionStop rank run W)"

primrec runScript ::
  "'t IGameMemoryTransport \<Rightarrow> ('c, 't) Callback \<Rightarrow> ('c, 't) SessionScript \<Rightarrow> ('c, 't) SessionWorld
    \<Rightarrow> ('c, 't) SessionWorld" where
  "runScript ops run EndCompletion = (\<lambda>W. W)"
| "runScript ops run (CallSession call rest) = (\<lambda>W. case sessionCall ops run call W of
     (answer, W) \<Rightarrow> runScript ops run (rest answer W) W)"

primrec runScripts ::
  "'t IGameMemoryTransport \<Rightarrow> ('c, 't) Completions \<Rightarrow> nat \<Rightarrow> ('c, 't) Callback" where
  "runScripts ops program 0 = (\<lambda>c r W. W)"
| "runScripts ops program (Suc n) = (\<lambda>c r W. runScript ops (runScripts ops program n) (program c r W) W)"

text \<open>
  The contract of an invariant of the session, or of a family of them, one for each moment inside an
  operation: every operation keeps it when the completions it calls do. Then all scripts keep it.
\<close>

locale session_invariant =
  fixes ops :: "'t IGameMemoryTransport"
    and holds :: "'i \<Rightarrow> ('c, 't) SessionWorld \<Rightarrow> bool"
  assumes submit_holds: "(\<And>i c r W. holds i W \<Longrightarrow> holds i (run c r W)) \<Longrightarrow> holds i W \<Longrightarrow>
      holds i (snd (SessionSubmit ops run request completion W))"
    and poll_holds: "(\<And>i c r W. holds i W \<Longrightarrow> holds i (run c r W)) \<Longrightarrow> holds i W \<Longrightarrow>
      holds i (SessionPoll ops run W)"
    and stop_holds: "(\<And>i c r W. holds i W \<Longrightarrow> holds i (run c r W)) \<Longrightarrow> holds i W \<Longrightarrow>
      holds i (SessionStop rank run W)"
begin

lemma call_holds:
  assumes "\<And>i c r W. holds i W \<Longrightarrow> holds i (run c r W)" and "holds i W"
  shows "holds i (snd (sessionCall ops run call W))"
  using assms by (cases call) (auto simp: SessionRead_def SessionWrite_def intro: submit_holds poll_holds stop_holds)

lemma script_holds:
  assumes "\<And>i c r W. holds i W \<Longrightarrow> holds i (run c r W)"
  shows "holds i W \<Longrightarrow> holds i (runScript ops run s W)"
proof (induction s arbitrary: W)
  case (CallSession call rest)
  obtain answer W' where W': "sessionCall ops run call W = (answer, W')" by fastforce
  then have "holds i W'" using call_holds [where run = run and call = call, OF assms CallSession.prems] by simp
  then show ?case using W' CallSession.IH [of "rest answer" "rest answer W'"] by simp
qed simp

lemma scripts_hold: "holds i W \<Longrightarrow> holds i (runScripts ops program n c r W)"
  by (induction n arbitrary: i c r W) (auto intro: script_holds)

end

section \<open>Allocation of request IDs\<close>

lemma IncrementRequestId_nonzero [simp]: "IncrementRequestId n \<noteq> 0"
  by (simp add: IncrementRequestId_def)

lemma unat_IncrementRequestId:
  "unat (IncrementRequestId n) = (if unat n = 2 ^ 32 - 1 then 1 else unat n + 1)"
proof -
  have m: "unat (n + 1) = (unat n + 1) mod 2 ^ 32" by (simp add: unat_word_ariths)
  have less: "unat n < 2 ^ 32" using unsigned_less [of n, where ?'a = nat] by simp
  show ?thesis
  proof (cases "unat n + 1 = 2 ^ 32")
    case True
    then have "unat (n + 1) = 0" unfolding m by simp
    then have "n + 1 = 0" by (simp only: unat_eq_0)
    then show ?thesis using True by (simp add: IncrementRequestId_def)
  next
    case False
    then have "unat (n + 1) = unat n + 1" unfolding m using less by (intro mod_less) linarith
    moreover from this have "n + 1 \<noteq> 0" by (metis Suc_eq_plus1 nat.distinct(1) unat_0)
    ultimately show ?thesis using False by (simp add: IncrementRequestId_def)
  qed
qed

lemma unat_iterate:
  assumes "n \<noteq> 0" and "k \<le> 2 ^ 32 - 2"
  shows "unat ((IncrementRequestId ^^ k) n) = (if unat n + k < 2 ^ 32 then unat n + k else unat n + k + 1 - 2 ^ 32)"
  using assms(2)
proof (induction k)
  case 0
  then show ?case using unsigned_less [of n, where ?'a = nat] by simp
next
  case (Suc k)
  have "0 < unat n" using assms(1) by (simp add: unat_gt_0)
  moreover have "unat n < 2 ^ 32" using unsigned_less [of n, where ?'a = nat] by simp
  ultimately show ?case using Suc by (auto simp: unat_IncrementRequestId)
qed

lemma AllocateLoop_found:
  "\<not> PendingContains ((IncrementRequestId ^^ k) n) ps \<Longrightarrow> (IncrementRequestId ^^ k) n \<noteq> 0 \<Longrightarrow> \<exists>r. AllocateLoop ps n = Some r"
proof (induction k arbitrary: n)
  case 0
  then show ?case by (subst AllocateLoop.simps) (simp add: Let_def)
next
  case (Suc k)
  then have "\<exists>r. AllocateLoop ps (IncrementRequestId n) = Some r" by (simp add: funpow_swap1)
  then show ?case by (subst AllocateLoop.simps) (auto simp: Let_def)
qed

lemma AllocateLoop_sound:
  "AllocateLoop ps n = Some (c, m) \<Longrightarrow> c \<noteq> 0 \<and> \<not> PendingContains c ps \<and> m = IncrementRequestId c"
proof -
  assume loop: "AllocateLoop ps n = Some (c, m)"
  have "(\<lambda>ps n (c, m). c \<noteq> 0 \<and> \<not> PendingContains c ps \<and> m = IncrementRequestId c) ps n (c, m)"
    by (rule AllocateLoop.raw_induct [OF _ loop]) (auto simp: Let_def split: if_splits)
  then show ?thesis by simp
qed

lemma allocate_terminates:
  assumes n: "n \<noteq> 0" and ps: "length ps < 2 ^ 32 - 2"
  shows "\<exists>r. AllocateLoop ps n = Some r"
proof -
  let ?f = "\<lambda>k. (IncrementRequestId ^^ k) n"
  have n32: "unat n < 2 ^ 32" using unsigned_less [of n, where ?'a = nat] by simp
  have inj: "inj_on ?f {..length ps}"
  proof (rule inj_onI)
    fix j k assume "j \<in> {..length ps}" "k \<in> {..length ps}" and eq: "?f j = ?f k"
    then have jk: "j \<le> 2 ^ 32 - 2" "k \<le> 2 ^ 32 - 2" "j < 2 ^ 32 - 2" "k < 2 ^ 32 - 2" using ps by simp_all
    from eq have "unat (?f j) = unat (?f k)" by simp
    then show "j = k"
      unfolding unat_iterate [OF n jk(1)] unat_iterate [OF n jk(2)] using jk(3,4) n32
      by (auto split: if_splits)
  qed
  have "card (?f ` {..length ps}) = Suc (length ps)" by (simp add: card_image [OF inj])
  moreover have "card (set (map fst ps)) \<le> length ps" by (metis card_length length_map)
  ultimately have "\<not> ?f ` {..length ps} \<subseteq> set (map fst ps)"
    using card_mono [of "set (map fst ps)" "?f ` {..length ps}"] by auto
  then obtain k where "\<not> PendingContains (?f k) ps" by (auto simp: PendingContains_def)
  moreover have "?f k \<noteq> 0" using n by (cases k) simp_all
  ultimately show ?thesis by (rule AllocateLoop_found)
qed

lemma AllocateRequestId_ok:
  assumes "gs_NextRequestId s \<noteq> 0" and "length (gs_Pending s) < 256"
  shows "\<exists>rid. AllocateRequestId s = Some (rid, s\<lparr>gs_NextRequestId := IncrementRequestId rid\<rparr>)
    \<and> rid \<noteq> 0 \<and> \<not> PendingContains rid (gs_Pending s)"
proof -
  obtain c m where a: "AllocateLoop (gs_Pending s) (gs_NextRequestId s) = Some (c, m)"
    using allocate_terminates [OF assms(1)] assms(2) by force
  from AllocateLoop_sound [OF a] a show ?thesis by (simp add: AllocateRequestId_def)
qed

section \<open>The invariant\<close>

definition pending_key :: "u32 \<times> 'c SessionPending \<Rightarrow> request_key" where
  "pending_key p = (fst p, sp_operation (snd p), sp_expectedSize (snd p))"

definition pending_callback :: "u32 \<times> 'c SessionPending \<Rightarrow> u32 \<times> 'c" where
  "pending_callback p = (fst p, sp_completion (snd p))"

fun accepted_callbacks :: "'c SessionEvent list \<Rightarrow> (u32 \<times> 'c) multiset" where
  "accepted_callbacks [] = {#}"
| "accepted_callbacks (EvAccepted rid op sz c # es) = add_mset (rid, c) (accepted_callbacks es)"
| "accepted_callbacks (_ # es) = accepted_callbacks es"

fun completed_callbacks :: "'c SessionEvent list \<Rightarrow> (u32 \<times> 'c) multiset" where
  "completed_callbacks [] = {#}"
| "completed_callbacks (EvCompleted rid c r # es) = add_mset (rid, c) (completed_callbacks es)"
| "completed_callbacks (_ # es) = completed_callbacks es"

text \<open>
  The invariant, inside an operation that still has the results of \<open>R\<close> to hand out and the
  completions of \<open>D\<close> to call: every accepted request is in the table, in \<open>D\<close> or completed; and as
  long as the session has not stopped, the table is what the transport owes and \<open>R\<close>, and no
  protocol error was counted.
\<close>

definition session_inv ::
  "('t \<Rightarrow> request_key multiset \<Rightarrow> bool) \<Rightarrow> request_key multiset
    \<Rightarrow> (u32 \<times> 'c) multiset \<Rightarrow> ('c, 't) SessionWorld \<Rightarrow> bool" where
  "session_inv owes R D W \<longleftrightarrow>
     gs_NextRequestId (sw_session W) \<noteq> 0
     \<and> distinct (map fst (gs_Pending (sw_session W))) \<and> length (gs_Pending (sw_session W)) \<le> 256
     \<and> (gs_Stopped (sw_session W) \<longrightarrow> gs_Pending (sw_session W) = [])
     \<and> (\<exists>K. owes (sw_transport W) K
          \<and> (\<not> gs_Stopped (sw_session W) \<longrightarrow>
               mset (map pending_key (gs_Pending (sw_session W))) = K + R
               \<and> gs_ProtocolErrorCount (sw_session W) = 0))
     \<and> accepted_callbacks (sw_events W)
        = completed_callbacks (sw_events W) + mset (map pending_callback (gs_Pending (sw_session W))) + D"

text \<open>Callbacks that use the session only through its operations keep the invariant.\<close>

definition handler_ok ::
  "('t \<Rightarrow> request_key multiset \<Rightarrow> bool) \<Rightarrow> ('c, 't) Callback \<Rightarrow> bool" where
  "handler_ok owes run \<longleftrightarrow>
     (\<forall>c r W R D. session_inv owes R D W \<longrightarrow> session_inv owes R D (run c r W))"

lemma pending_Pair [simp]:
  "pending_callback (rid, p) = (rid, sp_completion p)"
  "pending_key (rid, p) = (rid, sp_operation p, sp_expectedSize p)"
  by (simp_all add: pending_callback_def pending_key_def)

lemma events_append [simp]:
  "accepted_callbacks (es @ fs) = accepted_callbacks es + accepted_callbacks fs"
  "completed_callbacks (es @ fs) = completed_callbacks es + completed_callbacks fs"
proof -
  show "accepted_callbacks (es @ fs) = accepted_callbacks es + accepted_callbacks fs"
    by (induction es rule: accepted_callbacks.induct) simp_all
  show "completed_callbacks (es @ fs) = completed_callbacks es + completed_callbacks fs"
    by (induction es rule: completed_callbacks.induct) simp_all
qed

lemma request_size_mr_id [simp]: "request_size (r\<lparr>mr_id := x\<rparr>) = request_size r"
  by (simp add: request_size_def)

context memory_transport
begin

abbreviation sinv :: "request_key multiset \<Rightarrow> (u32 \<times> 'c) multiset \<Rightarrow> ('c, 't) SessionWorld \<Rightarrow> bool" where
  "sinv \<equiv> session_inv owes"

lemma handlerD: "handler_ok owes run \<Longrightarrow> sinv R D W \<Longrightarrow> sinv R D (run c r W)"
  by (simp add: handler_ok_def)

lemma submit_inv_session:
  assumes run: "handler_ok owes run" and inv: "sinv R D W"
  shows "sinv R D (snd (SessionSubmit ops run request completion W))"
proof (cases "CanSubmit ops W \<and> completion \<noteq> None")
  case False
  then show ?thesis using inv by (auto simp: SessionSubmit_def)
next
  case True
  then obtain c where c: "completion = Some c" and can: "CanSubmit ops W" by auto
  let ?s = "sw_session W"
  have small: "length (gs_Pending ?s) < 256" and running: "\<not> gs_Stopped ?s"
    using can by (simp_all add: CanSubmit_def MaximumOutstandingMemoryRequests_def)
  moreover have "gs_NextRequestId ?s \<noteq> 0" using inv by (simp add: session_inv_def)
  ultimately obtain rid where rid: "AllocateRequestId ?s = Some (rid, ?s\<lparr>gs_NextRequestId := IncrementRequestId rid\<rparr>)"
    and fresh: "rid \<noteq> 0" "\<not> PendingContains rid (gs_Pending ?s)"
    using AllocateRequestId_ok by blast
  let ?s1 = "?s\<lparr>gs_NextRequestId := IncrementRequestId rid\<rparr>" and ?req = "request\<lparr>mr_id := rid\<rparr>"
  show ?thesis
  proof (cases "ValidateMemoryRequest ?req = MsOk")
    case False
    let ?r = "\<lparr>res_id = rid, res_status = ValidateMemoryRequest ?req, res_data = []\<rparr>"
    have "sinv R D (W\<lparr>sw_session := ?s1, sw_events := sw_events W @ [EvRefused c ?r]\<rparr>)"
      using inv by (simp add: session_inv_def)
    then show ?thesis using False can c rid handlerD [OF run]
      by (simp add: SessionSubmit_def Let_def)
  next
    case valid: True
    let ?p = "\<lparr>sp_operation = mr_operation ?req, sp_expectedSize = (if mr_operation ?req = Read then mr_readSize ?req
                 else word_of_nat (length (mr_data ?req))), sp_completion = c\<rparr>"
    have key: "pending_key (rid, ?p) = request_key ?req"
      by (simp add: request_key_def request_size_def)
    obtain ok t where t: "tSubmit ops ?req (sw_transport W) = (ok, t)" by fastforce
    obtain K where K: "owes (sw_transport W) K" "mset (map pending_key (gs_Pending ?s)) = K + R"
      using inv running by (auto simp: session_inv_def)
    show ?thesis
    proof (cases ok)
      case True
      then have owed: "owes t (add_mset (pending_key (rid, ?p)) K)"
        using submit_accepted [OF K(1) valid] t key by simp
      have "snd (SessionSubmit ops run request completion W) = W\<lparr>sw_session := ?s1\<lparr>gs_Pending := gs_Pending ?s @ [(rid, ?p)]\<rparr>,
          sw_transport := t, sw_events := sw_events W @ [EvAccepted rid (sp_operation ?p) (sp_expectedSize ?p) c]\<rparr>"
        using True can c rid valid t by (simp add: SessionSubmit_def Let_def)
      moreover have "distinct (map fst (gs_Pending ?s @ [(rid, ?p)]))"
        using inv fresh(2) by (auto simp: session_inv_def PendingContains_def)
      ultimately show ?thesis
        using inv running small owed K(2) unfolding session_inv_def
        by (auto intro!: exI [of _ "add_mset (pending_key (rid, ?p)) K"])
    next
      case False
      have "owes t K" using submit_refused [OF K(1)] t False by simp
      moreover have "snd (SessionSubmit ops run request completion W) = W\<lparr>sw_session := ?s1, sw_transport := t\<rparr>"
        using False can c rid valid t fresh(2) by (simp add: SessionSubmit_def Let_def)
      ultimately show ?thesis
        using inv running K(2) unfolding session_inv_def by auto
    qed
  qed
qed

lemma PollOne_inv:
  assumes run: "handler_ok owes run" and inv: "sinv (add_mset (rid, op, sz) R) D W"
    and res: "res_id r = rid" and size: "res_status r = MsOk \<longrightarrow> length (res_data r) = (if op = Read then unat sz else 0)"
  shows "sinv R D (PollOne run W r)"
proof (cases "gs_Stopped (sw_session W)")
  case True
  then have "PollOne run W r = W\<lparr>sw_session := (sw_session W)\<lparr>gs_ProtocolErrorCount := gs_ProtocolErrorCount (sw_session W) + 1\<rparr>\<rparr>"
    using inv by (simp add: session_inv_def PollOne_def Let_def)
  then show ?thesis using inv True by (simp add: session_inv_def)
next
  case False
  let ?s = "sw_session W"
  obtain K where dist: "distinct (map fst (gs_Pending ?s))" and K: "owes (sw_transport W) K"
    and keys: "mset (map pending_key (gs_Pending ?s)) = K + add_mset (rid, op, sz) R"
    using inv False by (auto simp: session_inv_def)
  have "(rid, op, sz) \<in># mset (map pending_key (gs_Pending ?s))" unfolding keys by simp
  then obtain q where q: "q \<in> set (gs_Pending ?s)" "pending_key q = (rid, op, sz)" by auto
  let ?p = "snd q"
  have pq: "fst q = rid" "sp_operation ?p = op" "sp_expectedSize ?p = sz" using q(2) by (simp_all add: pending_key_def)
  have "(rid, ?p) \<in> set (gs_Pending ?s)" using q(1) pq(1) by (metis prod.collapse)
  then have found: "map_of (gs_Pending ?s) rid = Some ?p" using dist by (simp add: map_of_is_SomeI)
  have good: "\<not> (res_status r = MsOk \<and> \<not> (sp_operation ?p = Read \<and> length (res_data r) = unat (sp_expectedSize ?p))
       \<and> \<not> (sp_operation ?p = Write \<and> res_data r = []))"
    using size pq by (cases op) auto
  let ?W1 = "W\<lparr>sw_session := ?s\<lparr>gs_Pending := erase rid (gs_Pending ?s)\<rparr>,
    sw_events := sw_events W @ [EvCompleted rid (sp_completion ?p) r]\<rparr>"
  have step: "PollOne run W r = run (sp_completion ?p) r ?W1"
    unfolding PollOne_def Let_def invoke_def using found res good by (simp only: option.case if_False res) simp
  have "mset (map pending_key (erase rid (gs_Pending ?s))) = K + R"
    using mset_erase_map [OF dist found, of pending_key] keys pq by (simp add: pending_key_def)
  moreover have "accepted_callbacks (sw_events W) = completed_callbacks (sw_events W)
      + add_mset (rid, sp_completion ?p) (mset (map pending_callback (erase rid (gs_Pending ?s)))) + D"
    using mset_erase_map [OF dist found, of pending_callback] inv by (simp add: session_inv_def)
  ultimately have "sinv R D ?W1"
    using inv False K distinct_erase [OF dist] length_erase [of rid "gs_Pending ?s"]
    by (auto simp: session_inv_def)
  then show ?thesis unfolding step using handlerD [OF run] by blast
qed

lemma PollAll_inv:
  assumes run: "handler_ok owes run"
  shows "list_all2 result_for rs ks \<Longrightarrow>
    sinv (mset ks + R) D W \<Longrightarrow> sinv R D (foldl (PollOne run) W rs)"
proof (induction rs ks arbitrary: W rule: list_all2_induct)
  case (Cons r rs k ks)
  obtain rid op sz where k: "k = (rid, op, sz)" by (cases k) auto
  have "sinv (mset ks + R) D (PollOne run W r)"
    using Cons k by (intro PollOne_inv [OF run, of rid op sz]) (simp_all add: result_for_def)
  then show ?case using Cons.IH by simp
qed simp

lemma poll_inv_session:
  assumes run: "handler_ok owes run" and inv: "sinv R D W"
  shows "sinv R D (SessionPoll ops run W)"
proof (cases "gs_Stopped (sw_session W)")
  case False
  obtain rs t where t: "tPollResults ops (sw_transport W) = (rs, t)" by fastforce
  obtain K where K: "owes (sw_transport W) K" "mset (map pending_key (gs_Pending (sw_session W))) = K + R"
    using inv False by (auto simp: session_inv_def)
  from poll_owed [OF K(1) t] obtain ks K' where
    ks: "K = mset ks + K'" "list_all2 result_for rs ks" "owes t K'" by blast
  have keys: "mset (map pending_key (gs_Pending (sw_session W))) = K' + (mset ks + R)"
    unfolding K(2) ks(1) by (simp only: ac_simps)
  have "sinv (mset ks + R) D (W\<lparr>sw_transport := t\<rparr>)"
    using inv ks(3) keys by (auto simp: session_inv_def)
  then show ?thesis using PollAll_inv [OF run ks(2)] t False by (simp add: SessionPoll_def)
qed (use inv in \<open>simp add: SessionPoll_def\<close>)

lemma StopAll_inv:
  assumes run: "handler_ok owes run"
  shows "sinv R (mset (map pending_callback ps) + D) W \<Longrightarrow>
    sinv R D (foldl (\<lambda>W (rid, request). invoke run rid (sp_completion request)
      \<lparr>res_id = rid, res_status = MsDisconnected, res_data = []\<rparr> W) W ps)"
proof (induction ps arbitrary: W)
  case (Cons p ps)
  obtain rid q where p: "p = (rid, q)" by (cases p)
  let ?r = "\<lparr>res_id = rid, res_status = MsDisconnected, res_data = []\<rparr>"
  have "sinv R (mset (map pending_callback ps) + D) (W\<lparr>sw_events := sw_events W @ [EvCompleted rid (sp_completion q) ?r]\<rparr>)"
    using Cons.prems p by (simp add: session_inv_def)
  then have "sinv R (mset (map pending_callback ps) + D) (invoke run rid (sp_completion q) ?r W)"
    unfolding invoke_def by (rule handlerD [OF run])
  from Cons.IH [OF this] show ?case by (simp add: p)
qed simp

lemma stop_inv_session:
  assumes run: "handler_ok owes run" and inv: "sinv R D W"
  shows "sinv R D (SessionStop rank run W)"
proof (cases "gs_Stopped (sw_session W)")
  case False
  let ?s = "sw_session W"
  have "mset (map pending_callback (sort_key (\<lambda>(rid, request). rank rid) (gs_Pending ?s)))
      = mset (map pending_callback (gs_Pending ?s))" by simp
  then have "sinv R (mset (map pending_callback (sort_key (\<lambda>(rid, request). rank rid) (gs_Pending ?s))) + D)
      (W\<lparr>sw_session := ?s\<lparr>gs_Stopped := True, gs_Pending := []\<rparr>\<rparr>)"
    using inv by (auto simp: session_inv_def ac_simps)
  from StopAll_inv [OF run this] False show ?thesis by (simp add: SessionStop_def Let_def)
qed (use inv in \<open>simp add: SessionStop_def Let_def\<close>)

end

section \<open>Properties\<close>

text \<open>
  Request IDs: as long as fewer than 256 requests wait, the search for an ID ends, and gives a
  nonzero ID that no waiting request has, also after the 32-bit counter has wrapped around; the
  next counter value is nonzero again.
\<close>

theorem request_ids_fresh:
  assumes "gs_NextRequestId s \<noteq> 0" and "length (gs_Pending s) < MaximumOutstandingMemoryRequests"
  shows "\<exists>rid s'. AllocateRequestId s = Some (rid, s') \<and> rid \<noteq> 0 \<and> rid \<notin> set (map fst (gs_Pending s))
    \<and> gs_NextRequestId s' \<noteq> 0 \<and> gs_Pending s' = gs_Pending s"
  using AllocateRequestId_ok [OF assms(1)] assms(2)
  by (force simp: MaximumOutstandingMemoryRequests_def PendingContains_def)

theorem request_ids_fresh_witness:
  "\<exists>rid s'. AllocateRequestId \<lparr>gs_Pending = [(0xFFFFFFFF, \<lparr>sp_operation = Read, sp_expectedSize = 4, sp_completion = ()\<rparr>)], gs_NextRequestId = 0xFFFFFFFF,
      gs_ProtocolErrorCount = 0, gs_Stopped = False\<rparr> = Some (rid, s') \<and> rid \<noteq> 0 \<and> rid \<noteq> 0xFFFFFFFF"
  using request_ids_fresh [of "\<lparr>gs_Pending = [(0xFFFFFFFF, \<lparr>sp_operation = Read, sp_expectedSize = 4, sp_completion = ()\<rparr>)], gs_NextRequestId = 0xFFFFFFFF,
      gs_ProtocolErrorCount = 0, gs_Stopped = False\<rparr>"]
  by (force simp: MaximumOutstandingMemoryRequests_def)

section \<open>Sessions on a transport that is not trusted\<close>

text \<open>
  The requests by ID, operation, size and completion: the accepted ones, those still waiting, and
  the completions called, with the result each was given, in the order of the calls.
\<close>

fun accepted_requests :: "'c SessionEvent list \<Rightarrow> (u32 \<times> Operation \<times> u32 \<times> 'c) multiset" where
  "accepted_requests [] = {#}"
| "accepted_requests (EvAccepted rid op sz c # es) = add_mset (rid, op, sz, c) (accepted_requests es)"
| "accepted_requests (_ # es) = accepted_requests es"

fun completions :: "'c SessionEvent list \<Rightarrow> (u32 \<times> 'c \<times> MemoryResult) list" where
  "completions [] = []"
| "completions (EvCompleted rid c r # es) = (rid, c, r) # completions es"
| "completions (_ # es) = completions es"

definition pending_request :: "u32 \<times> 'c SessionPending \<Rightarrow> u32 \<times> Operation \<times> u32 \<times> 'c" where
  "pending_request p = (fst p, sp_operation (snd p), sp_expectedSize (snd p), sp_completion (snd p))"

text \<open>The completion and the result that a request may get.\<close>

fun completes :: "u32 \<times> 'c \<times> MemoryResult \<Rightarrow> u32 \<times> Operation \<times> u32 \<times> 'c \<Rightarrow> bool" where
  "completes (rid, c, r) (rid', op, sz, c') \<longleftrightarrow> rid = rid' \<and> c = c' \<and> res_id r = rid
     \<and> (res_status r = MsOk \<longrightarrow> length (res_data r) = (if op = Read then unat sz else 0))"

definition all_answered :: "(u32 \<times> Operation \<times> u32 \<times> 'c) multiset \<Rightarrow> 'c SessionEvent list \<Rightarrow> bool" where
  "all_answered waiting es \<longleftrightarrow> (\<exists>answered. accepted_requests es = mset answered + waiting
     \<and> list_all2 completes (completions es) answered)"

definition delivery_inv :: "(u32 \<times> Operation \<times> u32 \<times> 'c) multiset \<Rightarrow> ('c, 't) SessionWorld \<Rightarrow> bool" where
  "delivery_inv D W \<longleftrightarrow> gs_NextRequestId (sw_session W) \<noteq> 0
     \<and> distinct (map fst (gs_Pending (sw_session W))) \<and> length (gs_Pending (sw_session W)) \<le> 256
     \<and> (gs_Stopped (sw_session W) \<longrightarrow> gs_Pending (sw_session W) = [])
     \<and> all_answered (mset (map pending_request (gs_Pending (sw_session W))) + D) (sw_events W)"

lemma request_events [simp]:
  "accepted_requests (es @ fs) = accepted_requests es + accepted_requests fs"
  "completions (es @ fs) = completions es @ completions fs"
proof -
  show "accepted_requests (es @ fs) = accepted_requests es + accepted_requests fs"
    by (induction es rule: accepted_requests.induct) simp_all
  show "completions (es @ fs) = completions es @ completions fs"
    by (induction es rule: completions.induct) simp_all
qed

lemma all_answered_accept:
  "all_answered waiting es \<Longrightarrow> all_answered (add_mset (rid, op, sz, c) waiting) (es @ [EvAccepted rid op sz c])"
  by (auto simp: all_answered_def)

lemma all_answered_refuse: "all_answered waiting (es @ [EvRefused c r]) = all_answered waiting es"
  by (simp add: all_answered_def)

lemma all_answered_complete:
  assumes "all_answered (add_mset k waiting) es" and "completes (rid, c, r) k"
  shows "all_answered waiting (es @ [EvCompleted rid c r])"
proof -
  obtain answered where "accepted_requests es = mset answered + add_mset k waiting" "list_all2 completes (completions es) answered"
    using assms(1) by (auto simp: all_answered_def)
  then show ?thesis unfolding all_answered_def using assms(2)
    by (intro exI [of _ "answered @ [k]"]) (simp add: list_all2_appendI)
qed

lemma submit_delivery:
  assumes run: "\<And>D c r W. delivery_inv D W \<Longrightarrow> delivery_inv D (run c r W)" and inv: "delivery_inv D W"
  shows "delivery_inv D (snd (SessionSubmit ops run request completion W))"
proof (cases "CanSubmit ops W \<and> completion \<noteq> None")
  case False
  then show ?thesis using inv by (auto simp: SessionSubmit_def)
next
  case True
  then obtain c where c: "completion = Some c" and can: "CanSubmit ops W" by auto
  let ?s = "sw_session W"
  have small: "length (gs_Pending ?s) < 256" and running: "\<not> gs_Stopped ?s"
    using can by (simp_all add: CanSubmit_def MaximumOutstandingMemoryRequests_def)
  moreover have "gs_NextRequestId ?s \<noteq> 0" using inv by (simp add: delivery_inv_def)
  ultimately obtain rid where rid: "AllocateRequestId ?s = Some (rid, ?s\<lparr>gs_NextRequestId := IncrementRequestId rid\<rparr>)"
    and fresh: "rid \<noteq> 0" "\<not> PendingContains rid (gs_Pending ?s)"
    using AllocateRequestId_ok by blast
  let ?s1 = "?s\<lparr>gs_NextRequestId := IncrementRequestId rid\<rparr>" and ?req = "request\<lparr>mr_id := rid\<rparr>"
  show ?thesis
  proof (cases "ValidateMemoryRequest ?req = MsOk")
    case False
    let ?r = "\<lparr>res_id = rid, res_status = ValidateMemoryRequest ?req, res_data = []\<rparr>"
    have "delivery_inv D (W\<lparr>sw_session := ?s1, sw_events := sw_events W @ [EvRefused c ?r]\<rparr>)"
      using inv by (simp add: delivery_inv_def all_answered_refuse)
    then show ?thesis using False can c rid run by (simp add: SessionSubmit_def Let_def)
  next
    case valid: True
    let ?p = "\<lparr>sp_operation = mr_operation ?req, sp_expectedSize = (if mr_operation ?req = Read then mr_readSize ?req
                 else word_of_nat (length (mr_data ?req))), sp_completion = c\<rparr>"
    obtain ok t where t: "tSubmit ops ?req (sw_transport W) = (ok, t)" by fastforce
    show ?thesis
    proof (cases ok)
      case True
      have "snd (SessionSubmit ops run request completion W) = W\<lparr>sw_session := ?s1\<lparr>gs_Pending := gs_Pending ?s @ [(rid, ?p)]\<rparr>,
          sw_transport := t, sw_events := sw_events W @ [EvAccepted rid (sp_operation ?p) (sp_expectedSize ?p) c]\<rparr>"
        using True can c rid valid t by (simp add: SessionSubmit_def Let_def)
      moreover have "distinct (map fst (gs_Pending ?s @ [(rid, ?p)]))"
        using inv fresh(2) by (auto simp: delivery_inv_def PendingContains_def)
      ultimately show ?thesis
        using inv running small all_answered_accept by (auto simp: delivery_inv_def pending_request_def)
    next
      case False
      have "snd (SessionSubmit ops run request completion W) = W\<lparr>sw_session := ?s1, sw_transport := t\<rparr>"
        using False can c rid valid t fresh(2) by (simp add: SessionSubmit_def Let_def)
      then show ?thesis using inv by (simp add: delivery_inv_def)
    qed
  qed
qed

lemma PollOne_delivery:
  assumes run: "\<And>D c r W. delivery_inv D W \<Longrightarrow> delivery_inv D (run c r W)" and inv: "delivery_inv D W"
  shows "delivery_inv D (PollOne run W r)"
proof (cases "map_of (gs_Pending (sw_session W)) (res_id r)")
  case None
  then show ?thesis using inv by (simp add: PollOne_def Let_def delivery_inv_def)
next
  case (Some p)
  let ?s = "sw_session W"
  have dist: "distinct (map fst (gs_Pending ?s))" using inv by (simp add: delivery_inv_def)
  let ?bad = "res_status r = MsOk \<and> \<not> (sp_operation p = Read \<and> length (res_data r) = unat (sp_expectedSize p))
     \<and> \<not> (sp_operation p = Write \<and> res_data r = [])"
  let ?d = "if ?bad then r\<lparr>res_status := MsProtocolError, res_data := []\<rparr> else r"
  let ?k = "(res_id r, sp_operation p, sp_expectedSize p, sp_completion p)"
  let ?e = "?s\<lparr>gs_Pending := erase (res_id r) (gs_Pending ?s)\<rparr>"
  define s where "s = (if ?bad then ?e\<lparr>gs_ProtocolErrorCount := gs_ProtocolErrorCount ?e + 1\<rparr> else ?e)"
  have s: "gs_NextRequestId s = gs_NextRequestId ?s" "gs_Stopped s = gs_Stopped ?s"
      "gs_Pending s = erase (res_id r) (gs_Pending ?s)" by (simp_all add: s_def)
  have step: "PollOne run W r = run (sp_completion p) ?d (W\<lparr>sw_session := s,
      sw_events := sw_events W @ [EvCompleted (res_id r) (sp_completion p) ?d]\<rparr>)"
    unfolding PollOne_def Let_def Some invoke_def option.case s_def by simp
  have fits: "completes (res_id r, sp_completion p, ?d) ?k" by (cases "sp_operation p") auto
  have "mset (map pending_request (gs_Pending ?s)) = add_mset ?k (mset (map pending_request (gs_Pending s)))"
    unfolding s(3) using mset_erase_map [OF dist Some, of pending_request] by (simp add: pending_request_def)
  then have "all_answered (add_mset ?k (mset (map pending_request (gs_Pending s)) + D)) (sw_events W)"
    using inv by (simp add: delivery_inv_def)
  from all_answered_complete [OF this fits]
  have "delivery_inv D (W\<lparr>sw_session := s, sw_events := sw_events W @ [EvCompleted (res_id r) (sp_completion p) ?d]\<rparr>)"
    using inv distinct_erase [OF dist, of "res_id r"] length_erase [of "res_id r" "gs_Pending ?s"]
    by (auto simp: delivery_inv_def s)
  then show ?thesis unfolding step by (rule run)
qed

lemma stop_delivery:
  assumes run: "\<And>D c r W. delivery_inv D W \<Longrightarrow> delivery_inv D (run c r W)" and inv: "delivery_inv D W"
  shows "delivery_inv D (SessionStop rank run W)"
proof (cases "gs_Stopped (sw_session W)")
  case False
  let ?s = "sw_session W" and ?r = "\<lambda>rid. \<lparr>res_id = rid, res_status = MsDisconnected, res_data = []\<rparr>"
  have all: "delivery_inv (mset (map pending_request ps) + D) W \<Longrightarrow>
      delivery_inv D (foldl (\<lambda>W (rid, request). invoke run rid (sp_completion request) (?r rid) W) W ps)" for ps W
  proof (induction ps arbitrary: W)
    case (Cons p ps)
    obtain rid q where p: "p = (rid, q)" by (cases p)
    have "completes (rid, sp_completion q, ?r rid) (pending_request p)" by (simp add: p pending_request_def)
    note answered = all_answered_complete [OF _ this]
    have "delivery_inv (mset (map pending_request ps) + D) (W\<lparr>sw_events := sw_events W @ [EvCompleted rid (sp_completion q) (?r rid)]\<rparr>)"
      using Cons.prems by (auto simp: delivery_inv_def intro: answered)
    then have "delivery_inv (mset (map pending_request ps) + D) (invoke run rid (sp_completion q) (?r rid) W)"
      unfolding invoke_def by (rule run)
    from Cons.IH [OF this] show ?case by (simp add: p)
  qed simp
  have "mset (map pending_request (sort_key (\<lambda>(rid, request). rank rid) (gs_Pending ?s))) = mset (map pending_request (gs_Pending ?s))"
    by simp
  then have "delivery_inv (mset (map pending_request (sort_key (\<lambda>(rid, request). rank rid) (gs_Pending ?s))) + D)
      (W\<lparr>sw_session := ?s\<lparr>gs_Stopped := True, gs_Pending := []\<rparr>\<rparr>)"
    using inv by (simp add: delivery_inv_def)
  from all [OF this] False show ?thesis by (simp add: SessionStop_def Let_def)
qed (use inv in \<open>simp add: SessionStop_def Let_def\<close>)

lemma poll_delivery:
  assumes run: "\<And>D c r W. delivery_inv D W \<Longrightarrow> delivery_inv D (run c r W)" and inv: "delivery_inv D W"
  shows "delivery_inv D (SessionPoll ops run W)"
proof -
  have "delivery_inv D W \<Longrightarrow> delivery_inv D (foldl (PollOne run) W rs)" for rs W
    by (induction rs arbitrary: W) (simp_all add: PollOne_delivery [OF run])
  moreover have "delivery_inv D (W\<lparr>sw_transport := t\<rparr>)" for t using inv by (simp add: delivery_inv_def)
  ultimately show ?thesis using inv by (simp add: SessionPoll_def split: prod.split)
qed

interpretation untrusted: session_invariant ops delivery_inv for ops :: "'t IGameMemoryTransport"
  by unfold_locales (intro submit_delivery poll_delivery stop_delivery; assumption)+

text \<open>Every run of a session, over a transport that may do and return anything at any time.\<close>

inductive untrusted_run :: "'t IGameMemoryTransport \<Rightarrow> ('c, 't) Callback \<Rightarrow> ('c, 't) SessionWorld \<Rightarrow> bool"
  for ops :: "'t IGameMemoryTransport" and run :: "('c, 't) Callback" where
  start: "newGameSession (Some t) = Ok W \<Longrightarrow> untrusted_run ops run W"
| submit_read: "untrusted_run ops run W \<Longrightarrow> untrusted_run ops run (snd (SessionRead ops run address sz completion W))"
| submit_write: "untrusted_run ops run W \<Longrightarrow> untrusted_run ops run (snd (SessionWrite ops run address bs completion W))"
| poll: "untrusted_run ops run W \<Longrightarrow> untrusted_run ops run (SessionPoll ops run W)"
| stop: "untrusted_run ops run W \<Longrightarrow> untrusted_run ops run (SessionStop rank run W)"
| transport: "untrusted_run ops run W \<Longrightarrow> untrusted_run ops run (W\<lparr>sw_transport := t\<rparr>)"

lemma untrusted_run_delivery: "untrusted_run ops (runScripts ops program n) W \<Longrightarrow> delivery_inv {#} W"
proof (induction rule: untrusted_run.induct)
  case (start t W)
  then show ?case by (auto simp: newGameSession_def delivery_inv_def all_answered_def)
next
  case (transport W t)
  then show ?case by (simp add: delivery_inv_def)
qed (simp_all add: SessionRead_def SessionWrite_def untrusted.submit_holds untrusted.poll_holds untrusted.stop_holds
  untrusted.scripts_hold)

text \<open>
  A transport that accepts every request and answers a poll with the results it holds, and a session
  on it whose completions read again.
\<close>

definition giving_ops :: "MemoryResult list IGameMemoryTransport" where
  "giving_ops = \<lparr>tSubmit = (\<lambda>r t. (True, t)), tPollResults = (\<lambda>t. (t, [])), tState = (\<lambda>t. Connected), tStop = (\<lambda>t. [])\<rparr>"

definition readAgain :: "(u32, 't) Completions" where
  "readAgain c r W = CallSession (CallRead (0x02000000 + c) 4 (Some (c + 4))) (\<lambda>answer W. EndCompletion)"

lemma AllocateLoop_here: "n \<noteq> 0 \<Longrightarrow> \<not> PendingContains n ps \<Longrightarrow> AllocateLoop ps n = Some (n, IncrementRequestId n)"
  by (subst AllocateLoop.simps) (simp add: Let_def)

definition badlyAnswered :: "(u32, MemoryResult list) SessionWorld" where
  "badlyAnswered = (let run = runScripts giving_ops readAgain 1;
     W = projr (newGameSession (Some []));
     W = snd (SessionRead giving_ops run 0x02000000 4 (Some 7) W);
     W = SessionPoll giving_ops run (W\<lparr>sw_transport := [\<lparr>res_id = 1, res_status = MsOk, res_data = [1, 2]\<rparr>]\<rparr>)
     in SessionPoll giving_ops run (W\<lparr>sw_transport := [\<lparr>res_id = 2, res_status = MsOk, res_data = [1, 2, 3, 4]\<rparr>,
       \<lparr>res_id = 9, res_status = MsOk, res_data = []\<rparr>]\<rparr>))"

lemma badlyAnswered_run: "untrusted_run giving_ops (runScripts giving_ops readAgain 1) badlyAnswered"
proof -
  have "newGameSession (Some []) = Ok (projr (newGameSession (Some [])))" by (simp add: newGameSession_def)
  then show ?thesis unfolding badlyAnswered_def Let_def by (intro untrusted_run.poll untrusted_run.transport untrusted_run.submit_read untrusted_run.start)
qed

lemma badlyAnswered_events:
  "accepted_requests (sw_events badlyAnswered) = {#(1, Read, 4, 7), (2, Read, 4, 11), (3, Read, 4, 15)#}
    \<and> completions (sw_events badlyAnswered) = [(1, 7, \<lparr>res_id = 1, res_status = MsProtocolError, res_data = []\<rparr>),
        (2, 11, \<lparr>res_id = 2, res_status = MsOk, res_data = [1, 2, 3, 4]\<rparr>)]"
proof -
  have valid: "ValidateMemoryRequest \<lparr>mr_id = i, mr_operation = Read, mr_address = a, mr_data = [], mr_readSize = 4\<rparr> = MsOk"
    if "i \<noteq> 0" "a \<in> {0x02000000, 0x02000007, 0x0200000B}" for i a
    using that by (auto simp: ValidateMemoryRequest_def IsRangeAllowed_readable gba_regions_def MaximumMemoryPayloadSize_def)
  show ?thesis
    by (simp add: badlyAnswered_def newGameSession_def SessionRead_def SessionSubmit_def SessionPoll_def PollOne_def CanSubmit_def
        giving_ops_def MaximumOutstandingMemoryRequests_def AllocateRequestId_def AllocateLoop_here PendingContains_def
        IncrementRequestId_def Let_def valid invoke_def readAgain_def erase_def)
qed

section \<open>Properties of the session alone\<close>



end
