(* ===== verification/TcpTransportInv.thy ===== *)
theory TcpTransportInv
  imports TcpLuaTransport GameSession
begin

text \<open>
  The invariant of \<^verbatim>\<open>TcpLuaTransport\<close>, one lemma per operation: the connection state agrees with
  the handshake, requests wait only while connected, every accepted request is either waiting or
  answered, and every socket is either held or closed once. From it the transport is an
  interpretation of \<open>memory_transport\<close>.
\<close>

section \<open>The invariant\<close>

definition socket_list :: "TcpSocket \<Rightarrow> nat list" where
  "socket_list s = (case s of None \<Rightarrow> [] | Some h \<Rightarrow> [h])"

definition client_socket :: "TcpLuaTransport \<Rightarrow> nat list" where
  "client_socket t = (case tl_Client t of None \<Rightarrow> [] | Some peer \<Rightarrow> socket_list (pe_socket peer))"

definition closing_sockets :: "ClosingPeer list \<Rightarrow> nat list" where
  "closing_sockets peers = concat (map (\<lambda>c. socket_list (cp_socket c)) peers)"

definition held_sockets :: "TcpLuaTransport \<Rightarrow> nat multiset" where
  "held_sockets t = mset (socket_list (tl_Listener t)) + mset (client_socket t) + mset (closing_sockets (tl_ClosingPeers t))"

definition sockets_inv :: "nat multiset \<Rightarrow> Network \<Rightarrow> bool" where
  "sockets_inv held net \<longleftrightarrow> held + mset (net_closed net) = mset [0..<net_nextHandle net]"

definition tcp_key :: "u32 \<times> TcpPending \<Rightarrow> request_key" where
  "tcp_key p = (fst p, tp_operation (snd p), tp_expectedSize (snd p))"

definition answers_inv :: "TcpLuaTransport \<Rightarrow> request_key multiset \<Rightarrow> bool" where
  "answers_inv t K \<longleftrightarrow> distinct (map fst (tl_Pending t))
     \<and> (\<exists>answered. list_all2 result_for (tl_Results t) answered \<and> K = mset answered + mset (map tcp_key (tl_Pending t)))"

definition peers_inv :: "TcpLuaTransport \<Rightarrow> bool" where
  "peers_inv t \<longleftrightarrow> (\<forall>p. tl_Client t = Some p \<longrightarrow> decoder_inv (pe_decoder p) \<and> writer_inv (pe_writer p) \<and> pe_socket p \<noteq> None)
     \<and> list_all (\<lambda>c. writer_inv (cp_writer c)) (tl_ClosingPeers t) \<and> length (tl_ClosingPeers t) \<le> 8"

definition weak_inv :: "Tcp \<Rightarrow> request_key multiset \<Rightarrow> bool" where
  "weak_inv tn K \<longleftrightarrow> peers_inv (fst tn) \<and> answers_inv (fst tn) K \<and> sockets_inv (held_sockets (fst tn)) (snd tn)"

definition state_inv :: "TcpLuaTransport \<Rightarrow> bool" where
  "state_inv t \<longleftrightarrow> (tl_Pending t \<noteq> [] \<longrightarrow> tl_State t = Connected)
     \<and> (tl_State t = Connected \<longleftrightarrow> (\<exists>p. tl_Client t = Some p \<and> pe_handshakeAccepted p))
     \<and> (\<forall>p. tl_Client t = Some p \<and> pe_closeAfterWrite p \<longrightarrow> \<not> pe_handshakeAccepted p)
     \<and> (tl_State t = Stopped \<longrightarrow> tl_Client t = None \<and> tl_ClosingPeers t = [] \<and> tl_Listener t = None)"

definition tcp_inv :: "Tcp \<Rightarrow> request_key multiset \<Rightarrow> bool" where
  "tcp_inv tn K \<longleftrightarrow> weak_inv tn K \<and> state_inv (fst tn)"

section \<open>Closing\<close>

lemma SocketClose_net:
  "net_closed (snd (SocketClose s net)) = net_closed net @ socket_list s"
  "net_nextHandle (snd (SocketClose s net)) = net_nextHandle net"
  "net_sent (snd (SocketClose s net)) = net_sent net"
  "fst (SocketClose s net) = None"
  by (simp_all add: SocketClose_def socket_list_def split: option.splits)

lemma sockets_inv_close:
  "sockets_inv (held + mset (socket_list s)) net \<Longrightarrow> sockets_inv held (snd (SocketClose s net))"
  by (simp add: sockets_inv_def SocketClose_net ac_simps)

lemma sockets_inv_same: "same_handles net net' \<Longrightarrow> sockets_inv held net' = sockets_inv held net"
  by (simp add: sockets_inv_def same_handles_def)

lemma result_for_simple: "st \<noteq> MsOk \<Longrightarrow> result_for (simple_result (fst k) st) k"
  by (simp add: result_for_def simple_result_def)

lemma list_all2_simple:
  "st \<noteq> MsOk \<Longrightarrow> list_all2 result_for (map (\<lambda>(rid, request). simple_result rid st) ps) (map tcp_key ps)"
  by (induction ps) (auto simp: tcp_key_def result_for_def simple_result_def)

lemma CompletePending_effect:
  assumes "answers_inv t K" and "st \<noteq> MsOk"
  shows "\<exists>rs. CompletePending st (t, net) = (t\<lparr>tl_Results := rs, tl_Pending := []\<rparr>, net)
    \<and> answers_inv (t\<lparr>tl_Results := rs, tl_Pending := []\<rparr>) K"
proof -
  let ?sorted = "sort_key (\<lambda>(rid, request). net_rank net rid) (tl_Pending t)"
  let ?rs = "tl_Results t @ map (\<lambda>(rid, request). simple_result rid st) ?sorted"
  obtain ans where ans: "list_all2 result_for (tl_Results t) ans" "K = mset ans + mset (map tcp_key (tl_Pending t))"
    using assms(1) by (auto simp: answers_inv_def)
  have "list_all2 result_for ?rs (ans @ map tcp_key ?sorted)"
    using ans(1) list_all2_simple [OF assms(2)] by (intro list_all2_appendI)
  moreover have "K = mset (ans @ map tcp_key ?sorted)" by (simp add: ans(2))
  ultimately have "answers_inv (t\<lparr>tl_Results := ?rs, tl_Pending := []\<rparr>) K"
    by (auto simp: answers_inv_def)
  then show ?thesis by (auto simp: CompletePending_def)
qed

lemma held_simps [simp]:
  "held_sockets (t\<lparr>tl_Results := rs\<rparr>) = held_sockets t" "held_sockets (t\<lparr>tl_Pending := ps\<rparr>) = held_sockets t"
  "held_sockets (t\<lparr>tl_State := st\<rparr>) = held_sockets t" "held_sockets (t\<lparr>tl_Diagnostic := d\<rparr>) = held_sockets t"
  by (simp_all add: held_sockets_def client_socket_def)

lemma answers_simps [simp]:
  "answers_inv (t\<lparr>tl_State := st\<rparr>) = answers_inv t" "answers_inv (t\<lparr>tl_Diagnostic := d\<rparr>) = answers_inv t"
  "answers_inv (t\<lparr>tl_Client := c\<rparr>) = answers_inv t" "answers_inv (t\<lparr>tl_ClosingPeers := cs\<rparr>) = answers_inv t"
  "answers_inv (t\<lparr>tl_Listener := l\<rparr>) = answers_inv t"
  by (rule ext, simp add: answers_inv_def)+

lemma peers_simps [simp]:
  "peers_inv (t\<lparr>tl_State := st\<rparr>) = peers_inv t" "peers_inv (t\<lparr>tl_Diagnostic := d\<rparr>) = peers_inv t"
  "peers_inv (t\<lparr>tl_Results := rs\<rparr>) = peers_inv t" "peers_inv (t\<lparr>tl_Pending := ps\<rparr>) = peers_inv t"
  "peers_inv (t\<lparr>tl_Listener := l\<rparr>) = peers_inv t"
  by (simp_all add: peers_inv_def)

lemma held_drop_client:
  "held_sockets t = held_sockets (t\<lparr>tl_Client := None\<rparr>) + mset (client_socket t)"
  by (simp add: held_sockets_def client_socket_def)

lemma CloseClient_inv:
  assumes inv: "weak_inv (t, net) K" and st: "pst \<noteq> MsOk" and running: "tl_State t \<noteq> Stopped"
  shows "tcp_inv (CloseClient pst d (t, net)) K \<and> tl_Client (fst (CloseClient pst d (t, net))) = None"
proof -
  let ?t1 = "if d \<noteq> [] then t\<lparr>tl_Diagnostic := d\<rparr> else t"
  let ?net2 = "case tl_Client t of None \<Rightarrow> net | Some peer \<Rightarrow> snd (SocketClose (pe_socket peer) net)"
  have "answers_inv ?t1 K" using inv by (simp add: weak_inv_def)
  then obtain rs where rs: "CompletePending pst (?t1, net) = (?t1\<lparr>tl_Results := rs, tl_Pending := []\<rparr>, net)"
    and ans: "answers_inv (?t1\<lparr>tl_Results := rs, tl_Pending := []\<rparr>) K"
    using CompletePending_effect [OF _ st] by blast
  let ?t2 = "?t1\<lparr>tl_Results := rs, tl_Pending := [], tl_Client := None, tl_State := Listening\<rparr>"
  have close: "CloseClient pst d (t, net) = (?t2, ?net2)"
    using running unfolding CloseClient_def Let_def prod.case rs by (auto split: option.split)
  have "sockets_inv (held_sockets (t\<lparr>tl_Client := None\<rparr>) + mset (client_socket t)) net"
    using inv held_drop_client [of t] by (simp add: weak_inv_def)
  then have "sockets_inv (held_sockets (t\<lparr>tl_Client := None\<rparr>)) ?net2"
    by (cases "tl_Client t") (auto simp: client_socket_def intro: sockets_inv_close)
  moreover have "held_sockets ?t2 = held_sockets (t\<lparr>tl_Client := None\<rparr>)"
    by (simp add: held_sockets_def client_socket_def)
  moreover have "peers_inv ?t2" using inv by (simp add: weak_inv_def peers_inv_def)
  ultimately have "weak_inv (?t2, ?net2) K" using ans by (simp add: weak_inv_def answers_inv_def)
  moreover have "state_inv ?t2" by (simp add: state_inv_def)
  ultimately show ?thesis unfolding close by (simp add: tcp_inv_def)
qed

section \<open>Queueing frames and beginning to close\<close>

lemma weak_inv_client:
  assumes "weak_inv (t, net) K" "tl_Client t = Some p" "pe_socket p' = pe_socket p"
    and "decoder_inv (pe_decoder p')" "writer_inv (pe_writer p')"
  shows "weak_inv (t\<lparr>tl_Client := Some p', tl_Diagnostic := d\<rparr>, net) K"
  using assms by (auto simp: weak_inv_def peers_inv_def held_sockets_def client_socket_def)

lemma weak_inv_state [simp]:
  "weak_inv (t\<lparr>tl_State := st\<rparr>, net) K = weak_inv (t, net) K"
  "weak_inv (t\<lparr>tl_Diagnostic := d\<rparr>, net) K = weak_inv (t, net) K"
  by (simp_all add: weak_inv_def)

lemma QueueFrame_effect:
  assumes "writer_inv (pe_writer peer)"
  obtains ok w d where "QueueFrame peer f t = (ok, t\<lparr>tl_Client := Some (peer\<lparr>pe_writer := w\<rparr>), tl_Diagnostic := d\<rparr>)"
    and "writer_inv w" and "ok \<Longrightarrow> WriterQueue (pe_writer peer) f = (Ok (), w)" and "\<not> ok \<Longrightarrow> w = pe_writer peer"
proof (cases "WriterQueue (pe_writer peer) f")
  case (Pair r w)
  have w: "writer_inv w" using writer_inv_Queue [OF assms, of f] Pair by simp
  show ?thesis
  proof (cases r)
    case (Inl e)
    then have "w = pe_writer peer" using Pair WriterQueue_cases [OF assms, of f] by (auto split: if_splits)
    with Inl Pair w that [where ok = False and w = w and d = e] show ?thesis by (simp add: QueueFrame_def)
  next
    case (Inr u)
    with Pair w that [where ok = True and w = w and d = "tl_Diagnostic t"] show ?thesis by (simp add: QueueFrame_def)
  qed
qed

lemma QueueFrame_weak:
  assumes inv: "weak_inv (t, net) K" and peer: "tl_Client t = Some p"
  obtains ok w d where "QueueFrame p f t = (ok, t\<lparr>tl_Client := Some (p\<lparr>pe_writer := w\<rparr>), tl_Diagnostic := d\<rparr>)"
    and "weak_inv (t\<lparr>tl_Client := Some (p\<lparr>pe_writer := w\<rparr>), tl_Diagnostic := d\<rparr>, net) K"
proof -
  have p: "decoder_inv (pe_decoder p)" "writer_inv (pe_writer p)"
    using inv peer by (auto simp: weak_inv_def peers_inv_def)
  from p(2) obtain ok w d where "QueueFrame p f t = (ok, t\<lparr>tl_Client := Some (p\<lparr>pe_writer := w\<rparr>), tl_Diagnostic := d\<rparr>)"
    "writer_inv w" by (rule QueueFrame_effect)
  with that [where ok = ok and w = w and d = d] weak_inv_client [OF inv peer, of "p\<lparr>pe_writer := w\<rparr>" d] p(1) show ?thesis by simp
qed

lemma QueueError_weak:
  assumes inv: "weak_inv (t, net) K" and peer: "tl_Client t = Some p"
  obtains ok w d where "QueueError p rid c m t = (ok, t\<lparr>tl_Client := Some (p\<lparr>pe_writer := w\<rparr>), tl_Diagnostic := d\<rparr>)"
    and "weak_inv (t\<lparr>tl_Client := Some (p\<lparr>pe_writer := w\<rparr>), tl_Diagnostic := d\<rparr>, net) K"
proof (cases "TryEncodeError rid \<lparr>emCode = c, emDiagnostic = m\<rparr>")
  case (Inl e)
  have "p\<lparr>pe_writer := pe_writer p\<rparr> = p" "t\<lparr>tl_Client := Some p\<rparr> = t" using peer by simp_all
  then have "t\<lparr>tl_Client := Some (p\<lparr>pe_writer := pe_writer p\<rparr>), tl_Diagnostic := e\<rparr> = t\<lparr>tl_Diagnostic := e\<rparr>" by simp
  then show ?thesis using Inl inv that [where ok = False and w = "pe_writer p" and d = e] by (simp add: QueueError_def)
next
  case (Inr f)
  then have "QueueError p rid c m t = QueueFrame p f t" by (simp add: QueueError_def)
  with that QueueFrame_weak [OF inv peer] show ?thesis by metis
qed

lemma markClosing_complete:
  assumes inv: "weak_inv (t, net) K" and st: "st \<noteq> MsOk"
  shows "tcp_inv (CompletePending st (markClosing t, net)) K
    \<and> tl_State (fst (CompletePending st (markClosing t, net))) = Listening"
proof -
  have ans: "answers_inv (markClosing t) K" using inv by (simp add: weak_inv_def markClosing_def)
  obtain rs where rs: "CompletePending st (markClosing t, net) = ((markClosing t)\<lparr>tl_Results := rs, tl_Pending := []\<rparr>, net)"
    "answers_inv ((markClosing t)\<lparr>tl_Results := rs, tl_Pending := []\<rparr>) K"
    using CompletePending_effect [OF ans st, of net] by blast
  have "peers_inv (markClosing t)" using inv by (auto simp: weak_inv_def peers_inv_def markClosing_def)
  moreover have "held_sockets (markClosing t) = held_sockets t"
    by (simp add: held_sockets_def client_socket_def markClosing_def split: option.split)
  moreover have "state_inv ((markClosing t)\<lparr>tl_Results := rs, tl_Pending := []\<rparr>)"
    by (auto simp: state_inv_def markClosing_def)
  ultimately show ?thesis using inv rs by (simp add: tcp_inv_def weak_inv_def) (simp add: markClosing_def)
qed

lemma CloseClient_tcp:
  "tcp_inv (t, net) K \<Longrightarrow> st \<noteq> MsOk \<Longrightarrow> tl_State t \<noteq> Stopped \<Longrightarrow> tcp_inv (CloseClient st d (t, net)) K"
  using CloseClient_inv by (auto simp: tcp_inv_def)

lemma BeginProtocolClose_inv:
  assumes inv: "weak_inv (t, net) K" and peer: "tl_Client t = Some p"
  shows "tcp_inv (BeginProtocolClose c d (t, net)) K"
proof -
  let ?t0 = "t\<lparr>tl_Diagnostic := d\<rparr>"
  have inv0: "weak_inv (?t0, net) K" and peer0: "tl_Client ?t0 = Some p" using inv peer by simp_all
  obtain ok w e where q: "QueueError p 0 c d ?t0 = (ok, ?t0\<lparr>tl_Client := Some (p\<lparr>pe_writer := w\<rparr>), tl_Diagnostic := e\<rparr>)"
    and inv1: "weak_inv (?t0\<lparr>tl_Client := Some (p\<lparr>pe_writer := w\<rparr>), tl_Diagnostic := e\<rparr>, net) K"
    by (rule QueueError_weak [OF inv0 peer0])
  let ?t1 = "?t0\<lparr>tl_Client := Some (p\<lparr>pe_writer := w\<rparr>), tl_Diagnostic := e\<rparr>"
  have peer1: "tl_Client ?t1 = Some (p\<lparr>pe_writer := w\<rparr>)" by simp
  obtain ok2 w2 e2 where q2: "QueueFrame (p\<lparr>pe_writer := w\<rparr>) EncodeClose ?t1
      = (ok2, ?t1\<lparr>tl_Client := Some (p\<lparr>pe_writer := w\<rparr>\<lparr>pe_writer := w2\<rparr>), tl_Diagnostic := e2\<rparr>)"
    and inv2: "weak_inv (?t1\<lparr>tl_Client := Some (p\<lparr>pe_writer := w\<rparr>\<lparr>pe_writer := w2\<rparr>), tl_Diagnostic := e2\<rparr>, net) K"
    by (rule QueueFrame_weak [OF inv1 peer1])
  let ?t2 = "?t1\<lparr>tl_Client := Some (p\<lparr>pe_writer := w\<rparr>\<lparr>pe_writer := w2\<rparr>), tl_Diagnostic := e2\<rparr>"
  let ?q = "ok \<and> ok2" and ?t3 = "if ok then ?t2 else ?t1"
  obtain t4 net4 where t4: "CompletePending MsProtocolError (markClosing ?t3, net) = (t4, net4)" by fastforce
  have "weak_inv (?t3, net) K" using inv1 inv2 by simp
  then have inv4: "tcp_inv (t4, net4) K" "tl_State t4 = Listening"
    using markClosing_complete [of ?t3 net K MsProtocolError] t4 by (auto simp: inv1 inv2)
  have "BeginProtocolClose c d (t, net) = (if \<not> ?q then CloseClient MsProtocolError d (t4, net4) else (t4, net4))"
    using t4 unfolding BeginProtocolClose_def Let_def prod.case peer option.case q
    by (cases ok) (simp_all add: q2 [simplified])
  then show ?thesis using inv4 by (auto intro: CloseClient_tcp)
qed

lemma BeginOrderlyClose_inv:
  assumes inv: "weak_inv (t, net) K" and peer: "tl_Client t = Some p"
  shows "tcp_inv (BeginOrderlyClose (t, net)) K"
proof -
  obtain ok w e where q: "QueueFrame p EncodeClose t = (ok, t\<lparr>tl_Client := Some (p\<lparr>pe_writer := w\<rparr>), tl_Diagnostic := e\<rparr>)"
    and inv1: "weak_inv (t\<lparr>tl_Client := Some (p\<lparr>pe_writer := w\<rparr>), tl_Diagnostic := e\<rparr>, net) K"
    by (rule QueueFrame_weak [OF inv peer])
  let ?t1 = "t\<lparr>tl_Client := Some (p\<lparr>pe_writer := w\<rparr>), tl_Diagnostic := e\<rparr>"
  obtain t4 net4 where t4: "CompletePending MsDisconnected (markClosing ?t1, net) = (t4, net4)" by fastforce
  then have inv4: "tcp_inv (t4, net4) K" "tl_State t4 = Listening"
    using markClosing_complete [OF inv1, of MsDisconnected] by simp_all
  have "BeginOrderlyClose (t, net) = (if \<not> ok then CloseClient MsDisconnected [] (t4, net4) else (t4, net4))"
    using t4 unfolding BeginOrderlyClose_def Let_def prod.case peer option.case q by simp
  then show ?thesis using inv4 by (auto intro: CloseClient_tcp)
qed

section \<open>Frames from the script\<close>

lemma ProcessHello_inv:
  assumes inv: "tcp_inv (t, net) K" and peer: "tl_Client t = Some p" "\<not> pe_handshakeAccepted p" "\<not> pe_closeAfterWrite p"
  shows "tcp_inv (ProcessHello p f (t, net)) K"
proof (cases "DecodeClientHello f")
  case (Inl e)
  have "weak_inv (t, net) K" using inv by (simp add: tcp_inv_def)
  from BeginProtocolClose_inv [OF this peer(1)] Inl show ?thesis by (simp add: ProcessHello_def)
next
  case (Inr hello)
  have weak: "weak_inv (t, net) K" and state: "state_inv t" using inv by (simp_all add: tcp_inv_def)
  have running: "tl_State t \<noteq> Stopped" using state peer by (auto simp: state_inv_def)
  obtain ok w e where q: "QueueFrame p (EncodeServerHello (serverHello Rejected net)) t
      = (ok, t\<lparr>tl_Client := Some (p\<lparr>pe_writer := w\<rparr>), tl_Diagnostic := e\<rparr>)"
    and inv1: "weak_inv (t\<lparr>tl_Client := Some (p\<lparr>pe_writer := w\<rparr>), tl_Diagnostic := e\<rparr>, net) K"
    by (rule QueueFrame_weak [OF weak peer(1)])
  obtain ok2 w2 e2 where q2: "QueueFrame p (EncodeServerHello (serverHello Accepted net)) t
      = (ok2, t\<lparr>tl_Client := Some (p\<lparr>pe_writer := w2\<rparr>), tl_Diagnostic := e2\<rparr>)"
    and inv2: "weak_inv (t\<lparr>tl_Client := Some (p\<lparr>pe_writer := w2\<rparr>), tl_Diagnostic := e2\<rparr>, net) K"
    by (rule QueueFrame_weak [OF weak peer(1)])
  let ?t2 = "t\<lparr>tl_Client := Some (p\<lparr>pe_writer := w2\<rparr>), tl_Diagnostic := e2\<rparr>"
  let ?t3 = "?t2\<lparr>tl_Client := Some (p\<lparr>pe_writer := w2, pe_handshakeAccepted := True\<rparr>), tl_State := Connected, tl_Diagnostic := []\<rparr>"
  have "weak_inv (?t2\<lparr>tl_Client := Some (p\<lparr>pe_writer := w2, pe_handshakeAccepted := True\<rparr>), tl_Diagnostic := []\<rparr>, net) K"
    using inv2 by (intro weak_inv_client [OF inv2, of "p\<lparr>pe_writer := w2\<rparr>"]) (auto simp: weak_inv_def peers_inv_def)
  then have "weak_inv (?t3, net) K" by (simp add: weak_inv_def peers_inv_def held_sockets_def client_socket_def answers_inv_def)
  moreover have "state_inv ?t3" using peer(3) by (auto simp: state_inv_def)
  ultimately have ok: "tcp_inv (?t3, net) K" by (simp add: tcp_inv_def)
  have closed: "tcp_inv (CloseClient MsDisconnected ''cannot queue ServerHello'' (?t2, net)) K"
    using CloseClient_inv [OF inv2] running by simp
  have rejected: "tcp_inv (BeginProtocolClose UnsupportedProtocol m (t\<lparr>tl_Client := Some (p\<lparr>pe_writer := w\<rparr>), tl_Diagnostic := e\<rparr>, net)) K" for m
    using BeginProtocolClose_inv [OF inv1] by simp
  show ?thesis
    unfolding ProcessHello_def Let_def prod.case Inr sum.case q q2
    using ok closed rejected by simp
qed

lemma answers_inv_answer:
  assumes ans: "answers_inv t K" and found: "map_of (tl_Pending t) (res_id r) = Some p"
    and res: "result_for r (tcp_key (res_id r, p))"
  shows "answers_inv (answer r t) K"
proof -
  obtain as where as: "list_all2 result_for (tl_Results t) as" "K = mset as + mset (map tcp_key (tl_Pending t))"
    and dist: "distinct (map fst (tl_Pending t))" using ans by (auto simp: answers_inv_def)
  have "mset (map tcp_key (tl_Pending t)) = add_mset (tcp_key (res_id r, p)) (mset (map tcp_key (erase (res_id r) (tl_Pending t))))"
    by (rule mset_erase_map [OF dist found])
  then have "K = mset (as @ [tcp_key (res_id r, p)]) + mset (map tcp_key (erase (res_id r) (tl_Pending t)))"
    using as(2) by simp
  moreover have "list_all2 result_for (tl_Results t @ [r]) (as @ [tcp_key (res_id r, p)])"
    using as(1) res by (simp add: list_all2_appendI)
  ultimately have "\<exists>as. list_all2 result_for (tl_Results t @ [r]) as \<and> K = mset as + mset (map tcp_key (erase (res_id r) (tl_Pending t)))"
    by blast
  then show ?thesis using distinct_erase [OF dist] by (simp add: answers_inv_def answer_def)
qed

lemma answer_inv:
  assumes inv: "tcp_inv (t, net) K" and found: "map_of (tl_Pending t) (res_id r) = Some p"
    and res: "result_for r (tcp_key (res_id r, p))"
  shows "tcp_inv (answer r t, net) K"
proof -
  have "tl_Pending t \<noteq> []" using found by auto
  then have "state_inv (answer r t)" using inv by (auto simp: tcp_inv_def state_inv_def answer_def)
  moreover have "answers_inv (answer r t) K" using inv by (intro answers_inv_answer [OF _ found res]) (simp add: tcp_inv_def weak_inv_def)
  moreover have "peers_inv (answer r t)" "held_sockets (answer r t) = held_sockets t"
    using inv by (simp_all add: tcp_inv_def weak_inv_def answer_def)
  ultimately show ?thesis using inv by (simp add: tcp_inv_def weak_inv_def)
qed

lemma tcp_inv_weak: "tcp_inv tn K \<Longrightarrow> weak_inv tn K"
  by (simp add: tcp_inv_def)

lemma ProcessReadResult_inv:
  assumes inv: "tcp_inv (t, net) K" and peer: "tl_Client t = Some p"
  shows "tcp_inv (ProcessReadResult f (t, net)) K"
proof -
  note close = BeginProtocolClose_inv [OF tcp_inv_weak [OF inv] peer]
  show ?thesis
  proof (cases "map_of (tl_Pending t) (requestId f)")
    case None
    then show ?thesis using close by (simp add: ProcessReadResult_def)
  next
    case (Some q)
    let ?r = "\<lparr>res_id = requestId f, res_status = MsOk, res_data = payload f\<rparr>"
    show ?thesis
    proof (cases "tp_operation q \<noteq> Read \<or> length (payload f) \<noteq> unat (tp_expectedSize q)")
      case True
      then show ?thesis using close Some unfolding ProcessReadResult_def by simp
    next
      case False
      then have "tcp_inv (answer ?r t, net) K"
        using Some by (intro answer_inv [OF inv, of _ q]) (simp_all add: result_for_def tcp_key_def)
      then show ?thesis using False Some by (simp add: ProcessReadResult_def)
    qed
  qed
qed

lemma ProcessWriteResult_inv:
  assumes inv: "tcp_inv (t, net) K" and peer: "tl_Client t = Some p"
  shows "tcp_inv (ProcessWriteResult f (t, net)) K"
proof -
  note close = BeginProtocolClose_inv [OF tcp_inv_weak [OF inv] peer]
  show ?thesis
  proof (cases "map_of (tl_Pending t) (requestId f)")
    case None
    then show ?thesis using close by (simp add: ProcessWriteResult_def)
  next
    case (Some q)
    show ?thesis
    proof (cases "tp_operation q \<noteq> Write \<or> payload f \<noteq> []")
      case True
      then show ?thesis using close Some unfolding ProcessWriteResult_def by simp
    next
      case False
      then have "tcp_inv (answer (simple_result (requestId f) MsOk) t, net) K"
        using Some by (intro answer_inv [OF inv, of _ q]) (simp_all add: result_for_def tcp_key_def simple_result_def)
      then show ?thesis using False Some by (simp add: ProcessWriteResult_def)
    qed
  qed
qed

lemma ToMemoryStatus_not_ok [simp]: "ToMemoryStatus c \<noteq> MsOk"
  by (cases c) simp_all

lemma ProcessError_inv:
  assumes inv: "tcp_inv (t, net) K" and peer: "tl_Client t = Some p"
  shows "tcp_inv (ProcessError p f (t, net)) K"
proof -
  note close = BeginProtocolClose_inv [OF tcp_inv_weak [OF inv] peer]
  show ?thesis
  proof (cases "DecodeErrorMessage f")
    case (Inl e)
    then show ?thesis using close by (simp add: ProcessError_def)
  next
    case (Inr m)
    show ?thesis
    proof (cases "requestId f = 0 \<or> map_of (tl_Pending t) (requestId f) = None")
      case True
      then show ?thesis using close Inr by (auto simp: ProcessError_def)
    next
      case False
      then obtain q where q: "map_of (tl_Pending t) (requestId f) = Some q" by auto
      let ?r = "simple_result (requestId f) (ToMemoryStatus (emCode m))"
      have "tcp_inv (answer ?r t, net) K"
        using q by (intro answer_inv [OF inv, of _ q]) (simp_all add: result_for_def tcp_key_def simple_result_def)
      then have weak: "weak_inv ((answer ?r t)\<lparr>tl_Diagnostic := emDiagnostic m\<rparr>, net) K" by (simp add: tcp_inv_def)
      have client: "tl_Client ((answer ?r t)\<lparr>tl_Diagnostic := emDiagnostic m\<rparr>) = Some p" using peer by (simp add: answer_def)
      obtain ok w e where qf: "QueueFrame p EncodeClose ((answer ?r t)\<lparr>tl_Diagnostic := emDiagnostic m\<rparr>)
          = (ok, (answer ?r t)\<lparr>tl_Diagnostic := emDiagnostic m\<rparr>\<lparr>tl_Client := Some (p\<lparr>pe_writer := w\<rparr>), tl_Diagnostic := e\<rparr>)"
        and inv1: "weak_inv ((answer ?r t)\<lparr>tl_Diagnostic := emDiagnostic m\<rparr>\<lparr>tl_Client := Some (p\<lparr>pe_writer := w\<rparr>), tl_Diagnostic := e\<rparr>, net) K"
        by (rule QueueFrame_weak [OF weak client])
      show ?thesis
        using markClosing_complete [OF inv1, of MsDisconnected] False q
        unfolding ProcessError_def Let_def prod.case qf sum.case Inr by simp
    qed
  qed
qed

lemma ProcessFrame_inv:
  assumes inv: "tcp_inv tn K" and peer: "tl_Client (fst tn) = Some p" "\<not> pe_closeAfterWrite p"
  shows "tcp_inv (ProcessFrame f tn) K"
proof -
  obtain t net where tn: "tn = (t, net)" by (cases tn)
  have inv': "tcp_inv (t, net) K" and peer': "tl_Client t = Some p" using inv peer tn by simp_all
  then show ?thesis
    using ProcessHello_inv [OF inv' peer'] ProcessReadResult_inv [OF inv' peer'] ProcessWriteResult_inv [OF inv' peer']
      ProcessError_inv [OF inv' peer'] BeginOrderlyClose_inv [OF tcp_inv_weak [OF inv'] peer']
      BeginProtocolClose_inv [OF tcp_inv_weak [OF inv'] peer'] peer(2)
    by (simp add: tn ProcessFrame_def)
qed

lemma ProcessFrames_inv: "tcp_inv tn K \<Longrightarrow> tcp_inv (ProcessFrames fs tn) K"
proof (induction fs arbitrary: tn)
  case (Cons f fs)
  then show ?case by (auto simp: ProcessFrame_inv split: option.split)
qed simp

section \<open>Input and output\<close>

lemma tcp_inv_client:
  assumes "tcp_inv (t, net) K" "tl_Client t = Some p"
  shows "decoder_inv (pe_decoder p)" "writer_inv (pe_writer p)" "pe_socket p \<noteq> None" "tl_State t \<noteq> Stopped"
  using assms by (auto simp: tcp_inv_def weak_inv_def peers_inv_def state_inv_def)

lemma tcp_inv_set_client:
  assumes inv: "tcp_inv (t, net) K" and p: "tl_Client t = Some p"
    and same: "pe_socket p' = pe_socket p" "pe_handshakeAccepted p' = pe_handshakeAccepted p"
      "pe_closeAfterWrite p' = pe_closeAfterWrite p" "decoder_inv (pe_decoder p')" "writer_inv (pe_writer p')"
  shows "tcp_inv (t\<lparr>tl_Client := Some p'\<rparr>, net) K"
proof -
  have "weak_inv (t\<lparr>tl_Client := Some p'\<rparr>, net) K"
    using weak_inv_client [OF tcp_inv_weak [OF inv] p same(1,4,5), of "tl_Diagnostic t"] by simp
  moreover have "state_inv (t\<lparr>tl_Client := Some p'\<rparr>)"
    using inv p same(2,3) by (auto simp: tcp_inv_def state_inv_def)
  ultimately show ?thesis by (simp add: tcp_inv_def)
qed

lemma tcp_inv_net: "tcp_inv (t, net) K \<Longrightarrow> same_handles net net' \<Longrightarrow> tcp_inv (t, net') K"
  by (simp add: tcp_inv_def weak_inv_def sockets_inv_same)

lemma tcp_inv_setDecoder:
  "tcp_inv (t, net) K \<Longrightarrow> tl_Client t = Some p \<Longrightarrow> decoder_inv d \<Longrightarrow> tcp_inv (setDecoder p d t, net) K"
  using tcp_inv_set_client [of t net K p "p\<lparr>pe_decoder := d\<rparr>"] tcp_inv_client by (simp add: setDecoder_def)

lemma tcp_inv_setWriter:
  "tcp_inv (t, net) K \<Longrightarrow> tl_Client t = Some p \<Longrightarrow> writer_inv w \<Longrightarrow> tcp_inv (setWriter p w t, net) K"
  using tcp_inv_set_client [of t net K p "p\<lparr>pe_writer := w\<rparr>"] tcp_inv_client by (simp add: setWriter_def)

lemma ReceiveClientLoop_inv: "tcp_inv tn K \<Longrightarrow> tcp_inv (ReceiveClientLoop n tn) K"
proof (induction n tn rule: ReceiveClientLoop.induct)
  case (1 n t net)
  note inv = 1(2)
  show ?case
  proof (cases "tl_Client t")
    case None
    then show ?thesis using inv by (simp add: ReceiveClientLoop.simps)
  next
    case (Some p)
    show ?thesis
    proof (cases "pe_closeAfterWrite p \<or> MaximumIoBytesPerPoll \<le> n")
      case True
      then show ?thesis using inv Some by (subst ReceiveClientLoop.simps) simp
    next
      case go: False
      obtain r bs net' where r: "SocketReceive (pe_socket p) (min ReceiveChunkSize (MaximumIoBytesPerPoll - n)) net = (r, bs, net')"
        by (metis prod_cases3)
      then have inv': "tcp_inv (t, net') K" using tcp_inv_net [OF inv] SocketReceive_spec by blast
      note running = tcp_inv_client(4) [OF inv Some]
      obtain ok d where d: "Append (pe_decoder p) bs = (ok, d)" by fastforce
      have dinv: "decoder_inv d" using decoder_inv_Append [OF tcp_inv_client(1) [OF inv Some], of bs] d by simp
      obtain fs d' where fs: "PollFrames d = (fs, d')" by fastforce
      have dinv': "decoder_inv d'" using decoder_inv_PollFrames [OF dinv] fs by simp
      have closed: "tcp_inv (CloseClient MsDisconnected m (t, net')) K" for m
        using inv' running by (intro CloseClient_tcp) simp_all
      have begun: "tcp_inv (BeginProtocolClose MalformedFrame (fd_Diagnostic d) (setDecoder p d t, net')) K"
        using tcp_inv_setDecoder [OF inv' Some dinv]
        by (intro BeginProtocolClose_inv [of _ _ _ "p\<lparr>pe_decoder := d\<rparr>"]) (simp_all add: tcp_inv_def setDecoder_def)
      have more: "tcp_inv (ReceiveClientLoop (n + io_byteCount r) (ProcessFrames fs (setDecoder p d' t, net'))) K"
        if "io_status r = SsOk" "io_byteCount r \<noteq> 0" ok
        using 1(1) [OF Some go refl refl r [symmetric] refl that(1,2) refl d [symmetric] _ refl fs [symmetric]]
          that(3) ProcessFrames_inv [OF tcp_inv_setDecoder [OF inv' Some dinv']] by simp
      show ?thesis
        by (subst ReceiveClientLoop.simps)
          (use go Some inv' closed begun more in \<open>auto simp: Let_def r d fs split: SocketStatus.split\<close>)
    qed
  qed
qed

lemma ReceiveClient_inv: "tcp_inv tn K \<Longrightarrow> tcp_inv (ReceiveClient tn) K"
  by (simp add: ReceiveClient_def ReceiveClientLoop_inv)

lemma FlushClientLoop_inv: "tcp_inv tn K \<Longrightarrow> tcp_inv (snd (FlushClientLoop n tn)) K"
proof (induction n tn rule: FlushClientLoop.induct)
  case (1 n t net)
  note inv = 1(2)
  show ?case
  proof (cases "tl_Client t")
    case None
    then show ?thesis using inv by (simp add: FlushClientLoop.simps)
  next
    case (Some p)
    let ?pending = "PendingBytes (pe_writer p)"
    show ?thesis
    proof (cases "?pending = [] \<or> MaximumIoBytesPerPoll \<le> n")
      case True
      then show ?thesis using inv Some by (subst FlushClientLoop.simps) (simp add: Let_def)
    next
      case go: False
      obtain r net' where r: "SocketSend (pe_socket p) (take (min (length ?pending) (MaximumIoBytesPerPoll - n)) ?pending) net = (r, net')"
        by fastforce
      then have inv': "tcp_inv (t, net') K" using tcp_inv_net [OF inv] SocketSend_spec(1) by blast
      note running = tcp_inv_client(4) [OF inv Some]
      have closed: "tcp_inv (CloseClient MsDisconnected m (t, net')) K" for m
        using inv' running by (intro CloseClient_tcp) simp_all
      have w: "writer_inv (snd (ConsumeSent (pe_writer p) (io_byteCount r)))"
        using tcp_inv_client(2) [OF inv Some] by (rule writer_inv_ConsumeSent)
      have more: "tcp_inv (snd (FlushClientLoop (n + io_byteCount r) (setWriter p (snd (ConsumeSent (pe_writer p) (io_byteCount r))) t, net'))) K"
        if "io_status r \<noteq> WouldBlock" "\<not> (io_status r \<noteq> SsOk \<or> io_byteCount r = 0)"
        using 1(1) [OF Some refl go refl refl r [symmetric] that tcp_inv_setWriter [OF inv' Some w]] .
      show ?thesis
        by (subst FlushClientLoop.simps)
          (use go Some inv' closed more in \<open>simp add: Let_def r del: de_Morgan_disj\<close>)
    qed
  qed
qed

lemma FlushClient_inv: "tcp_inv tn K \<Longrightarrow> tcp_inv (FlushClient tn) K"
proof -
  assume inv: "tcp_inv tn K"
  obtain fin t net where l: "FlushClientLoop 0 tn = (fin, (t, net))" by (metis prod_cases3)
  then have inv': "tcp_inv (t, net) K" using FlushClientLoop_inv [OF inv, of 0] by simp
  then have "tl_Client t = Some p \<Longrightarrow> tcp_inv (CloseClient MsDisconnected [] (t, net)) K" for p
    using tcp_inv_client(4) by (intro CloseClient_tcp) auto
  with inv' show ?thesis by (auto simp: FlushClient_def l split: option.split)
qed

lemma FlushClosing_inv:
  "FlushClosing ps net = (ps', net') \<Longrightarrow> sockets_inv (H + mset (closing_sockets ps)) net \<Longrightarrow> list_all (\<lambda>c. writer_inv (cp_writer c)) ps \<Longrightarrow>
   sockets_inv (H + mset (closing_sockets ps')) net' \<and> list_all (\<lambda>c. writer_inv (cp_writer c)) ps' \<and> length ps' \<le> length ps"
proof (induction ps arbitrary: net ps' net' H)
  case Nil
  then show ?case by simp
next
  case (Cons p ps)
  let ?pending = "PendingBytes (cp_writer p)"
  have wp: "writer_inv (cp_writer p)" and wps: "list_all (\<lambda>c. writer_inv (cp_writer c)) ps" using Cons.prems(3) by simp_all
  have all: "sockets_inv (H + mset (socket_list (cp_socket p)) + mset (closing_sockets ps)) net"
    using Cons.prems(2) by (simp add: closing_sockets_def ac_simps)
  have dropped: ?case if "same_handles net net1" "FlushClosing ps (snd (SocketClose (cp_socket p) net1)) = (ps', net')" for net1
  proof -
    have "sockets_inv (H + mset (closing_sockets ps) + mset (socket_list (cp_socket p))) net1"
      using all sockets_inv_same [OF that(1)] by (simp add: ac_simps)
    then have "sockets_inv (H + mset (closing_sockets ps)) (snd (SocketClose (cp_socket p) net1))" by (rule sockets_inv_close)
    from Cons.IH [OF that(2) this wps] show ?case by simp
  qed
  have kept: ?case if "same_handles net net1" "FlushClosing ps net1 = (qs, net')" "ps' = q # qs" "cp_socket q = cp_socket p"
      "writer_inv (cp_writer q)" for net1 q qs
  proof -
    have "sockets_inv (H + mset (socket_list (cp_socket p)) + mset (closing_sockets ps)) net1"
      using all sockets_inv_same [OF that(1)] by simp
    from Cons.IH [OF that(2) this wps] that(3-5) show ?case by (simp add: closing_sockets_def ac_simps)
  qed
  show ?case
  proof (cases "?pending = []")
    case True
    then show ?thesis using Cons.prems(1) dropped [OF same_handles_refl] by simp
  next
    case False
    obtain r net1 where r: "SocketSend (cp_socket p) (take (min (length ?pending) MaximumIoBytesPerPoll) ?pending) net = (r, net1)"
      by fastforce
    have same: "same_handles net net1" using SocketSend_spec(1) [OF r] by simp
    obtain qs net2 where qs: "FlushClosing ps net1 = (qs, net2)" by fastforce
    let ?q = "p\<lparr>cp_writer := snd (ConsumeSent (cp_writer p) (io_byteCount r))\<rparr>"
    have wq: "writer_inv (cp_writer ?q)" using wp by (simp add: writer_inv_ConsumeSent)
    show ?thesis
      using Cons.prems(1) False dropped [OF same] kept [OF same, of qs p] kept [OF same, of qs ?q] wp wq qs
      by (auto simp: Let_def r split: if_splits)
  qed
qed

lemma FlushClosingPeers_inv: "tcp_inv tn K \<Longrightarrow> tcp_inv (FlushClosingPeers tn) K"
proof -
  assume inv: "tcp_inv tn K"
  obtain t net where tn: "tn = (t, net)" by (cases tn)
  obtain ps net' where ps: "FlushClosing (tl_ClosingPeers t) net = (ps, net')" by fastforce
  let ?H = "mset (socket_list (tl_Listener t)) + mset (client_socket t)"
  have "sockets_inv (?H + mset (closing_sockets (tl_ClosingPeers t))) net" "list_all (\<lambda>c. writer_inv (cp_writer c)) (tl_ClosingPeers t)"
    using inv by (simp_all add: tn tcp_inv_def weak_inv_def held_sockets_def peers_inv_def)
  from FlushClosing_inv [OF ps this]
  have f: "sockets_inv (?H + mset (closing_sockets ps)) net'" "list_all (\<lambda>c. writer_inv (cp_writer c)) ps"
      "length ps \<le> length (tl_ClosingPeers t)" by simp_all
  have "state_inv (t\<lparr>tl_ClosingPeers := ps\<rparr>)" using inv f(3) by (auto simp: tn tcp_inv_def state_inv_def)
  moreover have "weak_inv (t\<lparr>tl_ClosingPeers := ps\<rparr>, net') K"
    using inv f by (simp add: tn tcp_inv_def weak_inv_def held_sockets_def client_socket_def peers_inv_def)
  ultimately show ?thesis by (simp add: tn FlushClosingPeers_def ps tcp_inv_def)
qed

section \<open>Accepting clients\<close>

lemma valid_frames [simp]:
  "valid_frame (EncodeServerHello h)" "valid_frame EncodeClose" "valid_frame (EncodeClientHello c)"
  by (simp_all add: EncodeServerHello_def EncodeClose_def EncodeClientHello_def valid_frame_def)

definition busyError :: Frame where
  "busyError = projr (TryEncodeError 0 \<lparr>emCode = Busy, emDiagnostic = ''another mGBA instance is already connected''\<rparr>)"

lemma busyError: "TryEncodeError 0 \<lparr>emCode = Busy, emDiagnostic = ''another mGBA instance is already connected''\<rparr> = Ok busyError"
  and busyError_valid: "valid_frame busyError" "length (payload busyError) = 46"
proof -
  let ?m = "''another mGBA instance is already connected''"
  have "list_all (\<lambda>b. b \<le> 0x7F) (map byte_of_char ?m)" by (simp add: byte_of_char_def)
  then have "valid_error (0, \<lparr>emCode = Busy, emDiagnostic = ?m\<rparr>)"
    by (simp add: valid_error_def IsValidUtf8_ascii)
  from TryEncodeError_Ok [OF this]
  show "TryEncodeError 0 \<lparr>emCode = Busy, emDiagnostic = ?m\<rparr> = Ok busyError"
    and "valid_frame busyError" "length (payload busyError) = 46"
    by (simp_all add: busyError_def valid_frame_def)
qed

definition busyWire :: "Network \<Rightarrow> bytes" where
  "busyWire net = frame_wire (EncodeServerHello (serverHello Rejected net)) @ frame_wire busyError @ frame_wire EncodeClose"

lemma RejectBusyClient_eq:
  "\<exists>w. writer_inv w \<and> unsent_stream w = busyWire net \<and>
   RejectBusyClient sock (t, net) =
    (if 8 \<le> length (tl_ClosingPeers t) then (t, snd (SocketClose sock net))
     else (t\<lparr>tl_ClosingPeers := tl_ClosingPeers t @ [\<lparr>cp_socket = sock, cp_writer = w\<rparr>]\<rparr>, net))"
proof -
  let ?h = "EncodeServerHello (serverHello Rejected net)"
  have lens: "length (frame_wire ?h) = 24" "length (frame_wire busyError) = 58" "length (frame_wire EncodeClose) = 12"
    by (simp_all add: EncodeServerHello_def EncodeClose_def busyError_valid)
  define w1 where "w1 = \<lparr>fw_Frames = [frame_wire ?h], fw_FrontOffset = 0, fw_QueuedBytes = 24\<rparr>"
  define w2 where "w2 = \<lparr>fw_Frames = [frame_wire ?h, frame_wire busyError], fw_FrontOffset = 0, fw_QueuedBytes = 82\<rparr>"
  define w3 where "w3 = \<lparr>fw_Frames = [frame_wire ?h, frame_wire busyError, frame_wire EncodeClose],
    fw_FrontOffset = 0, fw_QueuedBytes = 94\<rparr>"
  have q1: "WriterQueue newFrameWriter ?h = (Ok (), w1)"
    using lens by (simp add: WriterQueue_cases [OF writer_inv_new] QueuedByteCount_def del: length_frame_wire)
      (simp add: newFrameWriter_def w1_def)
  have i1: "writer_inv w1" using writer_inv_Queue [of newFrameWriter ?h] q1 by simp
  have q2: "WriterQueue w1 busyError = (Ok (), w2)"
    using lens by (simp add: WriterQueue_cases [OF i1] QueuedByteCount_def busyError_valid del: length_frame_wire) (simp add: w1_def w2_def)
  have i2: "writer_inv w2" using writer_inv_Queue [OF i1, of busyError] q2 by simp
  have q3: "WriterQueue w2 EncodeClose = (Ok (), w3)"
    using lens by (simp add: WriterQueue_cases [OF i2] QueuedByteCount_def del: length_frame_wire) (simp add: w2_def w3_def)
  have i3: "writer_inv w3" using writer_inv_Queue [OF i2, of EncodeClose] q3 by simp
  have "unsent_stream w3 = busyWire net" by (simp add: unsent_stream_def w3_def busyWire_def)
  with i3 show ?thesis
    by (intro exI [of _ w3]) (simp add: RejectBusyClient_def MaximumClosingPeers_def Let_def busyError q1 q2 q3)
qed

lemma tcp_inv_sockets: "tcp_inv (t, net) K \<Longrightarrow> sockets_inv (held_sockets t) net"
  by (simp add: tcp_inv_def weak_inv_def)

lemma tcp_inv_new_net:
  "tcp_inv (t, net) K \<Longrightarrow> sockets_inv (held_sockets t) net' \<Longrightarrow> tcp_inv (t, net') K"
  by (simp add: tcp_inv_def weak_inv_def)

lemma RejectBusyClient_inv:
  assumes inv: "tcp_inv (t, net) K" and net': "sockets_inv (add_mset h (held_sockets t)) net'" and running: "tl_State t \<noteq> Stopped"
  shows "tcp_inv (RejectBusyClient (Some h) (t, net')) K"
proof -
  obtain w where w: "writer_inv w" and eq: "RejectBusyClient (Some h) (t, net') =
    (if 8 \<le> length (tl_ClosingPeers t) then (t, snd (SocketClose (Some h) net'))
     else (t\<lparr>tl_ClosingPeers := tl_ClosingPeers t @ [\<lparr>cp_socket = Some h, cp_writer = w\<rparr>]\<rparr>, net'))"
    using RejectBusyClient_eq by blast
  let ?t = "t\<lparr>tl_ClosingPeers := tl_ClosingPeers t @ [\<lparr>cp_socket = Some h, cp_writer = w\<rparr>]\<rparr>"
  have "sockets_inv (held_sockets t + mset (socket_list (Some h))) net'" using net' by (simp add: socket_list_def)
  then have "sockets_inv (held_sockets t) (snd (SocketClose (Some h) net'))" by (rule sockets_inv_close)
  then have closed: "tcp_inv (t, snd (SocketClose (Some h) net')) K" using inv by (rule tcp_inv_new_net [rotated])
  have "held_sockets ?t = add_mset h (held_sockets t)"
    by (simp add: held_sockets_def client_socket_def closing_sockets_def socket_list_def)
  then have "\<not> 8 \<le> length (tl_ClosingPeers t) \<Longrightarrow> weak_inv (?t, net') K"
    using inv w net' by (auto simp: tcp_inv_def weak_inv_def peers_inv_def)
  moreover have "state_inv ?t" using inv running by (simp add: tcp_inv_def state_inv_def)
  ultimately show ?thesis using closed by (simp add: eq tcp_inv_def)
qed

lemma sockets_inv_accept:
  "sockets_inv held net \<Longrightarrow> net_nextHandle net' = Suc (net_nextHandle net) \<Longrightarrow>
   net_closed net' = net_closed net \<Longrightarrow> sockets_inv (add_mset (net_nextHandle net) held) net'"
  "sockets_inv held net \<Longrightarrow> net_nextHandle net' = Suc (net_nextHandle net) \<Longrightarrow>
   net_closed net' = net_closed net @ [net_nextHandle net] \<Longrightarrow> sockets_inv held net'"
  by (simp_all add: sockets_inv_def del: mset_upt)

lemma AcceptClientsLoop_inv:
  "tcp_inv tn K \<Longrightarrow> tl_State (fst tn) \<noteq> Stopped \<Longrightarrow>
   tcp_inv (AcceptClientsLoop n tn) K \<and> tl_State (fst (AcceptClientsLoop n tn)) \<noteq> Stopped"
proof (induction n tn rule: AcceptClientsLoop.induct)
  case (2 n t net)
  obtain st s e net' where a: "SocketAccept (tl_Listener t) net = (st, s, e, net')" by (metis prod_cases4)
  note spec = SocketAccept_spec [OF a]
  have inv: "tcp_inv (t, net) K" and running: "tl_State t \<noteq> Stopped" using 2 by simp_all
  show ?case
  proof (cases "st = SsOk")
    case False
    then have "same_handles net net' \<or> net_nextHandle net' = Suc (net_nextHandle net) \<and> net_closed net' = net_closed net @ [net_nextHandle net]"
      using spec by simp
    then have "sockets_inv (held_sockets t) net'"
      using tcp_inv_sockets [OF inv] sockets_inv_accept(2) sockets_inv_same by blast
    then have "tcp_inv (t, net') K" using inv by (rule tcp_inv_new_net [rotated])
    moreover from this have "tcp_inv (t\<lparr>tl_Diagnostic := e\<rparr>, net') K" by (simp add: tcp_inv_def state_inv_def)
    ultimately show ?thesis using False running by (simp add: a Let_def)
  next
    case True
    let ?h = "net_nextHandle net"
    have s: "s = Some ?h" and net': "sockets_inv (add_mset ?h (held_sockets t)) net'"
      using spec True sockets_inv_accept(1) [OF tcp_inv_sockets [OF inv]] by simp_all
    let ?next = "case tl_Client t of None \<Rightarrow> (t\<lparr>tl_Client := Some (newPeer s)\<rparr>, net') | Some _ \<Rightarrow> RejectBusyClient s (t, net')"
    have "tcp_inv ?next K \<and> tl_State (fst ?next) \<noteq> Stopped"
    proof (cases "tl_Client t")
      case None
      have "held_sockets (t\<lparr>tl_Client := Some (newPeer s)\<rparr>) = add_mset ?h (held_sockets t)"
        using None by (simp add: held_sockets_def client_socket_def newPeer_def s socket_list_def)
      then have "weak_inv (t\<lparr>tl_Client := Some (newPeer s)\<rparr>, net') K"
        using inv net' by (simp add: tcp_inv_def weak_inv_def peers_inv_def newPeer_def s)
      moreover have "state_inv (t\<lparr>tl_Client := Some (newPeer s)\<rparr>)"
        using inv running None by (auto simp: tcp_inv_def state_inv_def newPeer_def)
      ultimately show ?thesis using running None by (simp add: tcp_inv_def)
    next
      case (Some p)
      have "tl_State (fst (RejectBusyClient s (t, net'))) = tl_State t"
        using RejectBusyClient_eq [of net' s t] by auto
      then show ?thesis using RejectBusyClient_inv [OF inv net' running] Some running by (simp add: s)
    qed
    moreover have "AcceptClientsLoop (Suc n) (t, net) = AcceptClientsLoop n ?next"
      using True by (simp add: a Let_def)
    ultimately show ?thesis using 2(1) [OF a [symmetric] refl refl] True by (simp only:) simp
  qed
qed simp

lemma AcceptClients_inv: "tcp_inv tn K \<Longrightarrow> tl_State (fst tn) \<noteq> Stopped \<Longrightarrow> tcp_inv (AcceptClients tn) K"
  by (simp add: AcceptClients_def AcceptClientsLoop_inv)

section \<open>The interface\<close>

lemma tcp_inv_reject:
  assumes inv: "tcp_inv (t, net) K" and st: "st \<noteq> MsOk"
  shows "tcp_inv (t\<lparr>tl_Results := tl_Results t @ [simple_result (mr_id r) st]\<rparr>, net) (add_mset (request_key r) K)"
proof -
  obtain as where as: "list_all2 result_for (tl_Results t) as" "K = mset as + mset (map tcp_key (tl_Pending t))"
    and dist: "distinct (map fst (tl_Pending t))" using inv by (auto simp: tcp_inv_def weak_inv_def answers_inv_def)
  have "result_for (simple_result (mr_id r) st) (request_key r)"
    using st by (simp add: result_for_def simple_result_def request_key_def)
  then have "list_all2 result_for (tl_Results t @ [simple_result (mr_id r) st]) (as @ [request_key r])"
    using as(1) by (simp add: list_all2_appendI)
  moreover have "add_mset (request_key r) K = mset (as @ [request_key r]) + mset (map tcp_key (tl_Pending t))"
    using as(2) by simp
  ultimately have "\<exists>as. list_all2 result_for (tl_Results t @ [simple_result (mr_id r) st]) as
      \<and> add_mset (request_key r) K = mset as + mset (map tcp_key (tl_Pending t))" by blast
  then have "answers_inv (t\<lparr>tl_Results := tl_Results t @ [simple_result (mr_id r) st]\<rparr>) (add_mset (request_key r) K)"
    using dist by (simp add: answers_inv_def)
  then show ?thesis using inv by (simp add: tcp_inv_def weak_inv_def state_inv_def)
qed

lemma tcp_inv_wait:
  assumes inv: "tcp_inv (t, net) K" and connected: "tl_State t = Connected"
    and fresh: "\<not> PendingContains (mr_id r) (tl_Pending t)" and key: "tcp_key (mr_id r, p) = request_key r"
  shows "tcp_inv (t\<lparr>tl_Pending := tl_Pending t @ [(mr_id r, p)]\<rparr>, net) (add_mset (request_key r) K)"
proof -
  obtain as where as: "list_all2 result_for (tl_Results t) as" "K = mset as + mset (map tcp_key (tl_Pending t))"
    and dist: "distinct (map fst (tl_Pending t))" using inv by (auto simp: tcp_inv_def weak_inv_def answers_inv_def)
  have "add_mset (request_key r) K = mset as + mset (map tcp_key (tl_Pending t @ [(mr_id r, p)]))"
    using as(2) key by simp
  then have "answers_inv (t\<lparr>tl_Pending := tl_Pending t @ [(mr_id r, p)]\<rparr>) (add_mset (request_key r) K)"
    using as(1) dist fresh by (auto simp: answers_inv_def PendingContains_def)
  then show ?thesis using inv connected by (simp add: tcp_inv_def weak_inv_def state_inv_def)
qed

lemma TcpSubmit_inv:
  assumes inv: "tcp_inv tn K" and sub: "TcpSubmit r tn = (ok, tn')"
  shows "tcp_inv tn' (if ok then add_mset (request_key r) K else K)"
proof -
  obtain t net where tn: "tn = (t, net)" by (cases tn)
  note inv = inv [unfolded tn] and sub = sub [unfolded tn]
  show ?thesis
  proof (cases "\<exists>p. tl_Client t = Some p \<and> tl_State t = Connected \<and> pe_handshakeAccepted p \<and> \<not> pe_closeAfterWrite p
      \<and> \<not> PendingContains (mr_id r) (tl_Pending t)")
    case False
    then have "TcpSubmit r (t, net) = (False, (t, net))" by (auto simp: TcpSubmit_def split: option.split)
    then show ?thesis using sub inv by simp
  next
    case True
    then obtain p where p: "tl_Client t = Some p" and connected: "tl_State t = Connected"
      and opened: "pe_handshakeAccepted p" "\<not> pe_closeAfterWrite p" and fresh: "\<not> PendingContains (mr_id r) (tl_Pending t)" by blast
    let ?frame = "if mr_operation r = Read
        then Ok (EncodeReadRequest (mr_id r) \<lparr>rrAddress = mr_address r, rrSize = mr_readSize r\<rparr>)
        else TryEncodeWriteRequest (mr_id r) \<lparr>wrAddress = mr_address r, wrData = mr_data r\<rparr>"
    let ?reject = "\<lambda>st. (t\<lparr>tl_Results := tl_Results t @ [simple_result (mr_id r) st]\<rparr>, net)"
    show ?thesis
    proof (cases "ValidateMemoryRequest r \<noteq> MsOk \<or> (mr_operation r = Read \<and> unat (mr_readSize r) > 1048568) \<or> (\<exists>e. ?frame = Err e)")
      case True
      then have "\<exists>st. st \<noteq> MsOk \<and> TcpSubmit r (t, net) = (True, ?reject st)"
        using p connected opened fresh
        by (auto simp: TcpSubmit_def Let_def split: if_splits)
      then obtain st where "st \<noteq> MsOk" "TcpSubmit r (t, net) = (True, ?reject st)" by blast
      then show ?thesis using sub tcp_inv_reject [OF inv] by auto
    next
      case False
      then obtain f where f: "?frame = Ok f" by (cases ?frame) auto
      obtain q w where q: "WriterQueue (pe_writer p) f = (q, w)" by fastforce
      have w: "writer_inv w" using writer_inv_Queue [OF tcp_inv_client(2) [OF inv p], of f] q by simp
      have inv1: "tcp_inv (setWriter p w t, net) K" using tcp_inv_setWriter [OF inv p w] .
      let ?p = "\<lparr>tp_operation = mr_operation r, tp_expectedSize = (if mr_operation r = Read then mr_readSize r
          else word_of_nat (length (payload f) - 8))\<rparr>"
      have step: "TcpSubmit r (t, net) = (case q of
          Inl e \<Rightarrow> (False, (setWriter p w t)\<lparr>tl_Diagnostic := e\<rparr>, net)
        | Inr _ \<Rightarrow> (True, (setWriter p w t)\<lparr>tl_Pending := tl_Pending t @ [(mr_id r, ?p)]\<rparr>, net))"
        using False p connected opened fresh unfolding TcpSubmit_def Let_def prod.case f
        by (simp add: q split: sum.split)
      have key: "tcp_key (mr_id r, ?p) = request_key r"
      proof (cases "mr_operation r")
        case Read
        then show ?thesis by (simp add: tcp_key_def request_key_def request_size_def)
      next
        case Write
        then have enc: "TryEncodeWriteRequest (mr_id r) \<lparr>wrAddress = mr_address r, wrData = mr_data r\<rparr> = Ok f" using f by simp
        from TryEncodeWriteRequest_Ok [OF TryEncodeWriteRequest_Ok_valid [OF enc]] enc
        have "length (payload f) = 8 + length (mr_data r)" by auto
        then show ?thesis using Write by (simp add: tcp_key_def request_key_def request_size_def)
      qed
      show ?thesis
      proof (cases q)
        case (Inl e)
        have "tcp_inv ((setWriter p w t)\<lparr>tl_Diagnostic := e\<rparr>, net) K" using inv1 by (simp add: tcp_inv_def state_inv_def)
        then show ?thesis using sub step Inl by auto
      next
        case (Inr u)
        have "tcp_inv ((setWriter p w t)\<lparr>tl_Pending := tl_Pending (setWriter p w t) @ [(mr_id r, ?p)]\<rparr>, net) (add_mset (request_key r) K)"
          using connected fresh key by (intro tcp_inv_wait [OF inv1]) (simp_all add: setWriter_def)
        moreover have "tl_Pending (setWriter p w t) = tl_Pending t" by (simp add: setWriter_def)
        ultimately show ?thesis using sub step Inr by auto
      qed
    qed
  qed
qed

lemma TcpPollResults_inv:
  assumes inv: "tcp_inv tn K" and poll: "TcpPollResults tn = (rs, tn')"
  shows "\<exists>answered K'. K = mset answered + K' \<and> list_all2 result_for rs answered \<and> tcp_inv tn' K'"
proof -
  let ?io = "if tl_State (fst tn) \<noteq> Stopped then
      (let tn = FlushClosingPeers (AcceptClients tn) in
       (case tl_Client (fst tn) of
          None \<Rightarrow> tn
        | Some _ \<Rightarrow> (let tn = ReceiveClient tn in (case tl_Client (fst tn) of None \<Rightarrow> tn | Some _ \<Rightarrow> FlushClient tn))))
     else tn"
  have inv1: "tl_State (fst tn) \<noteq> Stopped \<Longrightarrow> tcp_inv (FlushClosingPeers (AcceptClients tn)) K"
    using inv by (intro FlushClosingPeers_inv AcceptClients_inv)
  then have "tl_State (fst tn) \<noteq> Stopped \<Longrightarrow> tcp_inv (ReceiveClient (FlushClosingPeers (AcceptClients tn))) K"
    by (rule ReceiveClient_inv)
  then have "tcp_inv ?io K" using inv inv1 FlushClient_inv by (simp add: Let_def split: option.split)
  moreover obtain t net where io: "?io = (t, net)" by fastforce
  ultimately have inv2: "tcp_inv (t, net) K" by simp
  have rs: "rs = tl_Results t" "tn' = (t\<lparr>tl_Results := []\<rparr>, net)"
    using poll io by (simp_all add: TcpPollResults_def)
  obtain as where as: "list_all2 result_for (tl_Results t) as" "K = mset as + mset (map tcp_key (tl_Pending t))"
    using inv2 by (auto simp: tcp_inv_def weak_inv_def answers_inv_def)
  have "tcp_inv (t\<lparr>tl_Results := []\<rparr>, net) (mset (map tcp_key (tl_Pending t)))"
    using inv2 by (simp add: tcp_inv_def weak_inv_def answers_inv_def state_inv_def)
  then show ?thesis using as rs by blast
qed

lemma StopFlushLoop_inv: "tcp_inv tn K \<Longrightarrow> tcp_inv (StopFlushLoop clock tn) K"
proof (induction clock arbitrary: tn)
  case (Cons b clock)
  then show ?case by (auto simp: FlushClient_inv split: option.split)
qed simp

lemma closeAll_net:
  "net_closed (closeAll ps net) = net_closed net @ closing_sockets ps"
  "net_nextHandle (closeAll ps net) = net_nextHandle net"
proof -
  have "net_closed (closeAll ps net) = net_closed net @ closing_sockets ps \<and> net_nextHandle (closeAll ps net) = net_nextHandle net"
    by (induction ps arbitrary: net) (simp_all add: closeAll_def closing_sockets_def SocketClose_net)
  then show "net_closed (closeAll ps net) = net_closed net @ closing_sockets ps"
    "net_nextHandle (closeAll ps net) = net_nextHandle net" by simp_all
qed

text \<open>What \<^verbatim>\<open>Stop\<close> does once the client has been told: every socket is closed, every request answered.\<close>

definition stopRest :: "Tcp \<Rightarrow> Tcp" where
  "stopRest = (\<lambda>(t, net).
     let net = (case tl_Client t of None \<Rightarrow> net | Some peer \<Rightarrow> snd (SocketClose (pe_socket peer) net));
         t = t\<lparr>tl_Client := None\<rparr>;
         net = closeAll (tl_ClosingPeers t) net;
         (t, net) = CompletePending MsDisconnected (t\<lparr>tl_ClosingPeers := []\<rparr>, net);
         (listener, net) = SocketClose (tl_Listener t) net
     in (t\<lparr>tl_Listener := listener, tl_State := Stopped\<rparr>, net))"

definition stopFlush :: "Tcp \<Rightarrow> Tcp" where
  "stopFlush = (\<lambda>(t, net).
     case tl_Client t of
       None \<Rightarrow> (t, net)
     | Some peer \<Rightarrow>
         (if pe_handshakeAccepted peer then
            let (queued, t) = QueueFrame (peer\<lparr>pe_writer := WriterReset (pe_writer peer)\<rparr>) EncodeClose t
            in if queued then StopFlushLoop (net_beforeDeadline net) (t, net) else (t, net)
          else (t, net)))"

lemma TcpStop_eq: "TcpStop tn = (if tl_State (fst tn) = Stopped then tn else stopRest (stopFlush tn))"
proof -
  obtain t net where tn: "tn = (t, net)" by (cases tn)
  show ?thesis
  proof (cases "tl_Client t")
    case None
    then show ?thesis by (cases t) (simp add: TcpStop_def stopRest_def stopFlush_def tn Let_def)
  next
    case (Some p)
    then show ?thesis
      by (simp add: TcpStop_def stopRest_def stopFlush_def tn Let_def case_prod_beta)
  qed
qed

lemma stopFlush_inv:
  assumes inv: "tcp_inv tn K"
  shows "tcp_inv (stopFlush tn) K"
proof -
  obtain t net where tn: "tn = (t, net)" by (cases tn)
  note inv = inv [unfolded tn]
  show ?thesis
  proof (cases "\<exists>p. tl_Client t = Some p \<and> pe_handshakeAccepted p")
    case False
    then show ?thesis using inv by (auto simp: stopFlush_def tn split: option.split)
  next
    case True
    then obtain p where p: "tl_Client t = Some p" "pe_handshakeAccepted p" by blast
    let ?p = "p\<lparr>pe_writer := WriterReset (pe_writer p)\<rparr>"
    have "writer_inv (pe_writer ?p)" by (simp add: writer_inv_Reset)
    then obtain ok w d where q: "QueueFrame ?p EncodeClose t = (ok, t\<lparr>tl_Client := Some (?p\<lparr>pe_writer := w\<rparr>), tl_Diagnostic := d\<rparr>)"
      and w: "writer_inv w" by (rule QueueFrame_effect)
    have "tcp_inv (t\<lparr>tl_Client := Some (p\<lparr>pe_writer := w\<rparr>)\<rparr>, net) K"
      using tcp_inv_set_client [OF inv p(1), of "p\<lparr>pe_writer := w\<rparr>"] w tcp_inv_client(1) [OF inv p(1)] by simp
    then have "tcp_inv (t\<lparr>tl_Client := Some (?p\<lparr>pe_writer := w\<rparr>), tl_Diagnostic := d\<rparr>, net) K"
      by (simp add: tcp_inv_def state_inv_def)
    then show ?thesis using StopFlushLoop_inv p by (simp add: stopFlush_def tn q)
  qed
qed

lemma stopRest_inv:
  assumes inv: "tcp_inv (t, net) K"
  shows "tcp_inv (stopRest (t, net)) K \<and> held_sockets (fst (stopRest (t, net))) = {#}"
proof -
  let ?n1 = "case tl_Client t of None \<Rightarrow> net | Some peer \<Rightarrow> snd (SocketClose (pe_socket peer) net)"
  let ?n2 = "closeAll (tl_ClosingPeers t) ?n1" and ?t1 = "t\<lparr>tl_Client := None, tl_ClosingPeers := []\<rparr>"
  have "answers_inv ?t1 K" using inv by (simp add: tcp_inv_def weak_inv_def)
  then obtain rs where rs: "CompletePending MsDisconnected (?t1, ?n2) = (?t1\<lparr>tl_Results := rs, tl_Pending := []\<rparr>, ?n2)"
    and ans: "answers_inv (?t1\<lparr>tl_Results := rs, tl_Pending := []\<rparr>) K"
    using CompletePending_effect [of ?t1 K MsDisconnected ?n2] by auto
  let ?t2 = "?t1\<lparr>tl_Results := rs, tl_Pending := [], tl_Listener := None, tl_State := Stopped\<rparr>"
  let ?n3 = "snd (SocketClose (tl_Listener t) ?n2)"
  have "fst (SocketClose (tl_Listener t) ?n2) = None" by (rule SocketClose_net)
  then have rest: "stopRest (t, net) = (?t2, ?n3)"
    unfolding stopRest_def Let_def prod.case by (simp add: rs case_prod_beta)
  have "net_closed ?n1 = net_closed net @ client_socket t" "net_nextHandle ?n1 = net_nextHandle net"
    by (simp_all add: client_socket_def SocketClose_net split: option.split)
  then have "net_closed ?n3 = net_closed net @ client_socket t @ closing_sockets (tl_ClosingPeers t) @ socket_list (tl_Listener t)"
    "net_nextHandle ?n3 = net_nextHandle net"
    by (simp_all add: SocketClose_net closeAll_net)
  then have "sockets_inv {#} ?n3"
    using tcp_inv_sockets [OF inv] by (simp add: sockets_inv_def held_sockets_def ac_simps)
  moreover have held: "held_sockets ?t2 = {#}"
    by (simp add: held_sockets_def client_socket_def closing_sockets_def socket_list_def)
  ultimately have "weak_inv (?t2, ?n3) K"
    using ans by (simp add: weak_inv_def peers_inv_def answers_inv_def)
  moreover have "state_inv ?t2" by (simp add: state_inv_def)
  ultimately show ?thesis using held by (simp add: rest tcp_inv_def)
qed

lemma TcpStop_inv: "tcp_inv tn K \<Longrightarrow> tcp_inv (TcpStop tn) K"
  using stopFlush_inv [of tn K] stopRest_inv [of "fst (stopFlush tn)" "snd (stopFlush tn)" K]
  by (simp add: TcpStop_eq)

lemma tcp_inv_new:
  assumes "newTcpLuaTransport net0 = (Ok t, net)" and "net_closed net0 = []"
  shows "tcp_inv (t, net) {#}"
  using assms
  by (auto simp: newTcpLuaTransport_def Let_def tcp_inv_def weak_inv_def peers_inv_def answers_inv_def state_inv_def
      sockets_inv_def held_sockets_def client_socket_def closing_sockets_def socket_list_def
      split: sum.splits prod.splits if_splits)

section \<open>The contract\<close>

interpretation tcp: memory_transport tcp_ops tcp_inv
proof unfold_locales
  fix tn K r tn' rs
  show "tcp_inv tn K \<Longrightarrow> ValidateMemoryRequest r = MsOk \<Longrightarrow> tSubmit tcp_ops r tn = (True, tn') \<Longrightarrow>
      tcp_inv tn' (add_mset (request_key r) K)"
    using TcpSubmit_inv [of tn K r True tn'] by (simp add: tcp_ops_def)
  show "tcp_inv tn K \<Longrightarrow> tSubmit tcp_ops r tn = (False, tn') \<Longrightarrow> tcp_inv tn' K"
    using TcpSubmit_inv [of tn K r False tn'] by (simp add: tcp_ops_def)
  show "tcp_inv tn K \<Longrightarrow> tPollResults tcp_ops tn = (rs, tn') \<Longrightarrow>
      \<exists>answered K'. K = mset answered + K' \<and> list_all2 result_for rs answered \<and> tcp_inv tn' K'"
    using TcpPollResults_inv [of tn K rs tn'] by (simp add: tcp_ops_def)
  show "tcp_inv tn K \<Longrightarrow> tcp_inv (tStop tcp_ops tn) K"
    using TcpStop_inv [of tn K] by (simp add: tcp_ops_def)
qed

end
