(* ===== verification/TcpTransportProps.thy ===== *)
theory TcpTransportProps
  imports TcpTransportInv
begin

text \<open>
  What the invariant of the transport gives: the properties of \<^verbatim>\<open>TcpLuaTransport\<close> as statements
  about its operations, the handshake, and the bytes that reach the client's socket.
\<close>

section \<open>The bytes on the wire\<close>

definition wire :: "nat \<Rightarrow> Network \<Rightarrow> bytes" where
  "wire h net = concat (map snd (filter (\<lambda>e. fst e = h) (net_sent net)))"

lemma SocketSend_wire:
  assumes "SocketSend (Some h) bs net = (r, net')"
  shows "wire h net' = wire h net @ take (io_byteCount r) bs"
  using SocketSend_spec(3) [OF assms] by (auto simp: wire_def)

lemma CloseClient_wire: "wire h (snd (CloseClient st d (t, net))) = wire h net"
  by (auto simp: CloseClient_def CompletePending_def wire_def Let_def SocketClose_net split: option.split)

lemma CloseClient_client: "tl_Client (fst (CloseClient st d (t, net))) = None"
  by (simp add: CloseClient_def CompletePending_def Let_def)

definition flushed :: "nat \<Rightarrow> FrameWriter \<Rightarrow> Network \<Rightarrow> Tcp \<Rightarrow> bool" where
  "flushed h w net tn \<longleftrightarrow> (\<exists>out left. wire h (snd tn) = wire h net @ out \<and> unsent_stream w = out @ left
     \<and> (\<forall>p. tl_Client (fst tn) = Some p \<longrightarrow> unsent_stream (pe_writer p) = left))"

lemma FlushClientLoop_flushed:
  "tl_Client t = Some p \<Longrightarrow> pe_socket p = Some h \<Longrightarrow> writer_inv (pe_writer p) \<Longrightarrow>
   flushed h (pe_writer p) net (snd (FlushClientLoop n (t, net)))"
proof (induction n "(t, net)" arbitrary: t net p rule: FlushClientLoop.induct)
  case (1 n t net)
  let ?pending = "PendingBytes (pe_writer p)"
  note p = 1(2-4)
  show ?case
  proof (cases "?pending = [] \<or> MaximumIoBytesPerPoll \<le> n")
    case True
    then show ?thesis using p by (subst FlushClientLoop.simps) (simp add: Let_def flushed_def)
  next
    case go: False
    let ?chunk = "take (min (length ?pending) (MaximumIoBytesPerPoll - n)) ?pending"
    obtain r net' where r: "SocketSend (pe_socket p) ?chunk net = (r, net')" by fastforce
    then have w: "wire h net' = wire h net @ take (io_byteCount r) ?chunk"
      using SocketSend_wire p(2) by metis
    have le: "io_byteCount r \<le> length ?chunk" using SocketSend_spec(1) [OF r] by simp
    obtain later where later: "unsent_stream (pe_writer p) = ?pending @ later"
      using writer.pending_prefix [OF p(3)] by blast
    let ?k = "io_byteCount r" and ?w = "snd (ConsumeSent (pe_writer p) (io_byteCount r))"
    have k: "?k \<le> length ?pending" using le by simp
    have chunk: "take ?k ?chunk = take ?k (unsent_stream (pe_writer p))"
      using le by (simp add: later min_def split: if_splits)
    have rest: "unsent_stream ?w = drop ?k (unsent_stream (pe_writer p))"
      using writer.consume_unsent [OF p(3) k] .
    show ?thesis
    proof (cases "io_status r = WouldBlock \<or> io_status r \<noteq> SsOk \<or> ?k = 0")
      case True
      then have k0: "?k = 0 \<or> io_status r = SsOk" using SocketSend_spec(3) [OF r] by auto
      with True have "?k = 0" using SocketSend_spec(3) [OF r] by auto
      then have same: "wire h net' = wire h net" using w by simp
      have "snd (FlushClientLoop n (t, net)) = (if io_status r = WouldBlock then (t, net')
          else CloseClient MsDisconnected (io_diagnostic r) (t, net'))"
        using True go p(1) by (subst FlushClientLoop.simps) (simp add: Let_def r)
      then show ?thesis
        using p(1) same by (auto simp: flushed_def CloseClient_wire CloseClient_client)
    next
      case False
      then have step: "FlushClientLoop n (t, net) = FlushClientLoop (n + ?k) (setWriter p ?w t, net')"
        using go p(1) by (subst FlushClientLoop.simps) (simp add: Let_def r)
      have "flushed h ?w net' (snd (FlushClientLoop (n + ?k) (setWriter p ?w t, net')))"
        using 1(1) [OF p(1) refl go refl refl r [symmetric] _ _, of "p\<lparr>pe_writer := ?w\<rparr>"] False p
          writer_inv_ConsumeSent by (auto simp: setWriter_def)
      then obtain out left where out: "wire h (snd (snd (FlushClientLoop n (t, net)))) = wire h net' @ out"
        "unsent_stream ?w = out @ left"
        "\<forall>q. tl_Client (fst (snd (FlushClientLoop n (t, net)))) = Some q \<longrightarrow> unsent_stream (pe_writer q) = left"
        by (auto simp: flushed_def step)
      have "unsent_stream (pe_writer p) = (take ?k ?chunk @ out) @ left"
        using out(2) rest chunk by (metis append.assoc append_take_drop_id)
      with out(1,3) w show ?thesis unfolding flushed_def by (metis append.assoc)
    qed
  qed
qed

lemma FlushClient_flushed:
  assumes "tl_Client t = Some p" "pe_socket p = Some h" "writer_inv (pe_writer p)"
  shows "flushed h (pe_writer p) net (FlushClient (t, net))"
proof -
  obtain fin t' net' where l: "FlushClientLoop 0 (t, net) = (fin, (t', net'))" by (metis prod_cases3)
  have f: "flushed h (pe_writer p) net (t', net')" using FlushClientLoop_flushed [OF assms, of net 0] l by simp
  have "FlushClient (t, net) = (t', net') \<or> FlushClient (t, net) = CloseClient MsDisconnected [] (t', net')"
    by (simp add: FlushClient_def l split: option.split)
  then show ?thesis using f by (auto simp: flushed_def CloseClient_wire CloseClient_client)
qed

lemma FlushClientLoop_socket:
  "tl_Client t = Some p \<Longrightarrow> tl_Client (fst (snd (FlushClientLoop n (t, net)))) = Some q \<Longrightarrow> pe_socket q = pe_socket p"
proof (induction n "(t, net)" arbitrary: t net p rule: FlushClientLoop.induct)
  case (1 n t net)
  let ?pending = "PendingBytes (pe_writer p)"
  show ?case
  proof (cases "?pending = [] \<or> MaximumIoBytesPerPoll \<le> n")
    case True
    then show ?thesis using 1(2,3) by (subst (asm) FlushClientLoop.simps) (simp add: Let_def)
  next
    case go: False
    let ?chunk = "take (min (length ?pending) (MaximumIoBytesPerPoll - n)) ?pending"
    obtain r net' where r: "SocketSend (pe_socket p) ?chunk net = (r, net')" by fastforce
    let ?w = "snd (ConsumeSent (pe_writer p) (io_byteCount r))"
    show ?thesis
    proof (cases "io_status r = WouldBlock \<or> io_status r \<noteq> SsOk \<or> io_byteCount r = 0")
      case True
      have "snd (FlushClientLoop n (t, net)) = (if io_status r = WouldBlock then (t, net')
          else CloseClient MsDisconnected (io_diagnostic r) (t, net'))"
        using True go 1(2) by (subst FlushClientLoop.simps) (simp add: Let_def r)
      then show ?thesis using 1(2,3) by (auto simp: CloseClient_client split: if_splits)
    next
      case False
      then have step: "FlushClientLoop n (t, net) = FlushClientLoop (n + io_byteCount r) (setWriter p ?w t, net')"
        using go 1(2) by (subst FlushClientLoop.simps) (simp add: Let_def r)
      have "tl_Client (setWriter p ?w t) = Some (p\<lparr>pe_writer := ?w\<rparr>)" by (simp add: setWriter_def)
      from 1(1) [OF 1(2) refl go refl refl r [symmetric] _ _ this] False 1(3) show ?thesis by (simp add: step)
    qed
  qed
qed

lemma FlushClient_socket:
  assumes "tl_Client t = Some p" "tl_Client (fst (FlushClient (t, net))) = Some q"
  shows "pe_socket q = pe_socket p"
proof -
  obtain fin t' net' where l: "FlushClientLoop 0 (t, net) = (fin, (t', net'))" by (metis prod_cases3)
  have "FlushClient (t, net) = (t', net') \<or> FlushClient (t, net) = CloseClient MsDisconnected [] (t', net')"
    by (simp add: FlushClient_def l split: option.split)
  then have "tl_Client t' = Some q" using assms(2) by (auto simp: CloseClient_client)
  then show ?thesis using FlushClientLoop_socket [OF assms(1), of 0 net q] l by simp
qed

lemma StopFlushLoop_wire:
  "tcp_inv (t, net) K \<Longrightarrow> tl_Client t = Some p \<Longrightarrow> pe_socket p = Some h \<Longrightarrow>
   \<exists>n. wire h (snd (StopFlushLoop clock (t, net))) = wire h net @ take n (unsent_stream (pe_writer p))"
proof (induction clock arbitrary: t net p)
  case (Cons b clock)
  show ?case
  proof (cases "PendingBytes (pe_writer p) = [] \<or> \<not> b")
    case True
    then show ?thesis using Cons.prems(2) by (auto intro: exI [of _ 0])
  next
    case False
    obtain t' net' where f: "FlushClient (t, net) = (t', net')" by fastforce
    from FlushClient_flushed [OF Cons.prems(2,3) tcp_inv_client(2) [OF Cons.prems(1,2)], of net] f
    obtain out left where out: "wire h net' = wire h net @ out" "unsent_stream (pe_writer p) = out @ left"
        "\<forall>q. tl_Client t' = Some q \<longrightarrow> unsent_stream (pe_writer q) = left" by (auto simp: flushed_def)
    have step: "StopFlushLoop (b # clock) (t, net) = StopFlushLoop clock (t', net')"
      using False Cons.prems(2) by (simp add: f)
    have inv: "tcp_inv (t', net') K" using FlushClient_inv [OF Cons.prems(1)] f by simp
    show ?thesis
    proof (cases "tl_Client t'")
      case None
      then have "StopFlushLoop clock (t', net') = (t', net')" by (cases clock) simp_all
      then show ?thesis using out unfolding step by (intro exI [of _ "length out"]) simp
    next
      case (Some q)
      have "pe_socket q = Some h" using FlushClient_socket [OF Cons.prems(2), of net q] f Some Cons.prems(3) by simp
      from Cons.IH [OF inv Some this] obtain n where
        "wire h (snd (StopFlushLoop clock (t', net'))) = wire h net' @ take n left" using out(3) Some by auto
      then show ?thesis using out unfolding step by (intro exI [of _ "length out + n"]) simp
    qed
  qed
qed (auto intro: exI [of _ 0])

lemma stopRest_wire: "wire h (snd (stopRest (t, net))) = wire h net"
proof -
  have all: "net_sent (closeAll ps net) = net_sent net" for ps net
    by (induction ps arbitrary: net) (simp_all add: closeAll_def SocketClose_net)
  show ?thesis
    by (simp add: wire_def stopRest_def CompletePending_def Let_def case_prod_beta SocketClose_net all split: option.split)
qed

section \<open>The handshake\<close>

definition supportedHello :: ClientHello where
  "supportedHello = \<lparr>chProtocolMajor = 1, chProtocolMinor = 0, chScriptVersion = 1\<rparr>"

lemma BeginProtocolClose_state:
  "tl_Client t = Some p \<Longrightarrow> tl_State (fst (BeginProtocolClose c d (t, net))) = Listening"
  by (auto simp: BeginProtocolClose_def CloseClient_def CompletePending_def markClosing_def Let_def split: prod.split)

lemma supported_iff:
  "(chProtocolMajor h \<noteq> ProtocolMajor \<or> chProtocolMinor h \<noteq> ProtocolMinor \<or> chScriptVersion h \<noteq> ScriptVersion)
    \<longleftrightarrow> h \<noteq> supportedHello"
  by (auto simp: supportedHello_def ProtocolMajor_def ProtocolMinor_def ScriptVersion_def)

lemma QueueFrame_fst: "fst (QueueFrame p f t) \<longleftrightarrow> is_ok (fst (WriterQueue (pe_writer p) f))"
  by (auto simp: QueueFrame_def is_ok_def split: prod.split sum.split)

lemma QueueFrame_client: "\<exists>q. tl_Client (snd (QueueFrame p f t)) = Some q"
  by (auto simp: QueueFrame_def split: prod.split sum.split)

lemma ProcessHello_state:
  assumes "tl_Client t = Some p" "tl_State t \<noteq> Stopped"
  shows "tl_State (fst (ProcessHello p f (t, net))) =
    (if f = EncodeClientHello supportedHello \<and> is_ok (fst (WriterQueue (pe_writer p) (EncodeServerHello (serverHello Accepted net))))
     then Connected else Listening)"
proof (cases "DecodeClientHello f")
  case (Inl e)
  then have "f \<noteq> EncodeClientHello h" for h using DecodeClientHello_iff [of f h] by auto
  then show ?thesis using Inl BeginProtocolClose_state [OF assms(1)] by (simp add: ProcessHello_def)
next
  case (Inr h)
  then have f: "f = EncodeClientHello h" using DecodeClientHello_iff by auto
  have inj: "EncodeClientHello h = EncodeClientHello supportedHello \<longleftrightarrow> h = supportedHello"
    using Inr DecodeClientHello_iff [of f supportedHello] f by auto
  obtain b t' where q: "QueueFrame p (EncodeServerHello (serverHello Rejected net)) t = (b, t')" by fastforce
  then obtain q' where "tl_Client t' = Some q'" using QueueFrame_client by (metis snd_conv)
  note rejected = BeginProtocolClose_state [OF this]
  obtain b2 t2 where q2: "QueueFrame p (EncodeServerHello (serverHello Accepted net)) t = (b2, t2)" by fastforce
  then have b2: "b2 \<longleftrightarrow> is_ok (fst (WriterQueue (pe_writer p) (EncodeServerHello (serverHello Accepted net))))"
    using QueueFrame_fst by (metis fst_conv)
  have "tl_State t2 = tl_State t" using q2 by (auto simp: QueueFrame_def split: prod.splits sum.splits)
  then have "tl_State (fst (CloseClient MsDisconnected m (t2, net))) = Listening" for m
    using assms(2) by (simp add: CloseClient_def CompletePending_def Let_def)
  then show ?thesis
    unfolding ProcessHello_def prod.case Inr sum.case supported_iff Let_def q q2
    using rejected b2 inj f by simp
qed

lemma WriterReset_Close:
  "\<exists>w'. WriterQueue (WriterReset w) EncodeClose = (Ok (), w') \<and> unsent_stream w' = frame_wire EncodeClose"
proof -
  have "length (frame_wire EncodeClose) = 12" by (simp add: EncodeClose_def)
  then show ?thesis
    using WriterQueue_cases [OF writer_inv_Reset, of w EncodeClose]
    by (simp add: QueuedByteCount_def del: length_frame_wire) (simp add: WriterReset_def unsent_stream_def)
qed

lemma WriterReset_Close_pending:
  "WriterQueue (WriterReset w) EncodeClose = (Ok (), w') \<Longrightarrow> PendingBytes w' = frame_wire EncodeClose"
proof -
  have "length (frame_wire EncodeClose) = 12" by (simp add: EncodeClose_def)
  then show "WriterQueue (WriterReset w) EncodeClose = (Ok (), w') \<Longrightarrow> PendingBytes w' = frame_wire EncodeClose"
    using WriterQueue_cases [OF writer_inv_Reset, of w EncodeClose]
    by (auto simp: QueuedByteCount_def WriterReset_def PendingBytes_def simp del: length_frame_wire split: if_splits)
qed

section \<open>Runs of the transport\<close>

text \<open>
  What can happen to a transport: it is constructed, submitted to, polled and stopped, any number of
  times in any order, and between the calls the network becomes any other one with the same handles.
\<close>

inductive tcp_used :: "Tcp \<Rightarrow> bool" where
  created: "newTcpLuaTransport net0 = (Ok t, net) \<Longrightarrow> net_closed net0 = [] \<Longrightarrow> tcp_used (t, net)"
| submitted: "tcp_used tn \<Longrightarrow> tcp_used (snd (TcpSubmit request tn))"
| polled: "tcp_used tn \<Longrightarrow> tcp_used (snd (TcpPollResults tn))"
| stopped: "tcp_used tn \<Longrightarrow> tcp_used (TcpStop tn)"
| network: "tcp_used (t, net) \<Longrightarrow> same_handles net net' \<Longrightarrow> tcp_used (t, net')"

lemma tcp_used_inv: "tcp_used tn \<Longrightarrow> \<exists>K. tcp_inv tn K"
proof (induction rule: tcp_used.induct)
  case (submitted tn request)
  then obtain K where "tcp_inv tn K" by blast
  from TcpSubmit_inv [OF this, of request] show ?case by (metis prod.collapse)
next
  case (polled tn)
  then obtain K where "tcp_inv tn K" by blast
  from TcpPollResults_inv [OF this, of "fst (TcpPollResults tn)"] show ?case by (metis prod.collapse)
qed (auto intro: tcp_inv_new TcpStop_inv tcp_inv_net)

lemma TcpStop_stopped: "tl_State (fst (TcpStop tn)) = Stopped"
  by (auto simp: TcpStop_eq stopRest_def CompletePending_def Let_def split: prod.split)

section \<open>Results of frames\<close>

text \<open>The results that an operation adds to the ones that wait for the next poll.\<close>

definition adds_results :: "(MemoryResult \<Rightarrow> bool) \<Rightarrow> TcpLuaTransport \<Rightarrow> Tcp \<Rightarrow> bool" where
  "adds_results P t tn \<longleftrightarrow> (\<exists>new. tl_Results (fst tn) = tl_Results t @ new \<and> list_all P new)"

lemma adds_nothing: "tl_Results (fst tn) = tl_Results t \<Longrightarrow> adds_results P t tn"
  by (simp add: adds_results_def)

lemma adds_completed:
  assumes "P = (\<lambda>r. res_status r = MsOk \<longrightarrow> Q r)" and "st \<noteq> MsOk" and "adds_results P t0 (t, net)"
  shows "adds_results P t0 (CompletePending st (t, net))"
proof -
  obtain new where new: "tl_Results t = tl_Results t0 @ new" "list_all P new" using assms(3) by (auto simp: adds_results_def)
  let ?rs = "map (\<lambda>(rid, request). simple_result rid st) (sort_key (\<lambda>(rid, request). net_rank net rid) (tl_Pending t))"
  have "list_all P ?rs" using assms(1,2) by (auto simp: list_all_iff simple_result_def)
  with new show ?thesis by (simp add: adds_results_def CompletePending_def)
qed

lemma adds_closed:
  assumes "P = (\<lambda>r. res_status r = MsOk \<longrightarrow> Q r)" and "st \<noteq> MsOk" and "adds_results P t0 (t, net)"
  shows "adds_results P t0 (CloseClient st d (t, net))"
proof -
  let ?t = "if d \<noteq> [] then t\<lparr>tl_Diagnostic := d\<rparr> else t"
  have "adds_results P t0 (?t, net)" using assms(3) by (simp add: adds_results_def)
  from adds_completed [OF assms(1,2) this] show ?thesis
    by (auto simp: adds_results_def CloseClient_def CompletePending_def Let_def)
qed

lemma QueueFrame_results [simp]: "tl_Results (snd (QueueFrame p f t)) = tl_Results t"
  by (simp add: QueueFrame_def split: prod.split sum.split)

lemma QueueError_results [simp]: "tl_Results (snd (QueueError p rid c d t)) = tl_Results t"
  by (simp add: QueueError_def split: sum.split)

lemma markClosing_results [simp]: "tl_Results (markClosing t) = tl_Results t"
  by (simp add: markClosing_def)

lemma adds_protocol_close:
  assumes P: "P = (\<lambda>r. res_status r = MsOk \<longrightarrow> Q r)"
  shows "adds_results P t (BeginProtocolClose c d (t, net))"
proof (cases "tl_Client t")
  case (Some p)
  obtain b1 t1 where q1: "QueueError p 0 c d (t\<lparr>tl_Diagnostic := d\<rparr>) = (b1, t1)" by fastforce
  obtain b2 t2 where q2: "(if b1 then QueueFrame (the (tl_Client t1)) EncodeClose t1 else (False, t1)) = (b2, t2)" by fastforce
  have "tl_Results t1 = tl_Results t" using QueueError_results [of p 0 c d "t\<lparr>tl_Diagnostic := d\<rparr>"] q1 by simp
  moreover have "tl_Results t2 = tl_Results t1"
    using QueueFrame_results [of "the (tl_Client t1)" EncodeClose t1] q2 by (cases b1) (auto simp del: QueueFrame_results)
  ultimately have "adds_results P t (markClosing t2, net)" by (simp add: adds_results_def)
  then have completed: "adds_results P t (CompletePending MsProtocolError (markClosing t2, net))"
    by (rule adds_completed [OF P, rotated]) simp
  obtain t3 net3 where t3: "CompletePending MsProtocolError (markClosing t2, net) = (t3, net3)" by fastforce
  have "BeginProtocolClose c d (t, net) = (if \<not> b2 then CloseClient MsProtocolError d (t3, net3) else (t3, net3))"
    unfolding BeginProtocolClose_def Let_def prod.case Some option.case q1 q2 t3 ..
  moreover have "adds_results P t (CloseClient MsProtocolError d (t3, net3))"
    by (rule adds_closed [OF P]) (use completed t3 in simp_all)
  ultimately show ?thesis using completed t3 by simp
qed (simp add: BeginProtocolClose_def adds_results_def)

lemma adds_orderly_close:
  assumes P: "P = (\<lambda>r. res_status r = MsOk \<longrightarrow> Q r)"
  shows "adds_results P t (BeginOrderlyClose (t, net))"
proof (cases "tl_Client t")
  case (Some p)
  obtain b t1 where q: "QueueFrame p EncodeClose t = (b, t1)" by fastforce
  have "adds_results P t (markClosing t1, net)"
    using QueueFrame_results [of p EncodeClose t] q by (simp add: adds_results_def)
  then have completed: "adds_results P t (CompletePending MsDisconnected (markClosing t1, net))"
    by (rule adds_completed [OF P, rotated]) simp
  obtain t3 net3 where t3: "CompletePending MsDisconnected (markClosing t1, net) = (t3, net3)" by fastforce
  have "BeginOrderlyClose (t, net) = (if \<not> b then CloseClient MsDisconnected [] (t3, net3) else (t3, net3))"
    unfolding BeginOrderlyClose_def Let_def prod.case Some option.case q t3 ..
  moreover have "adds_results P t (CloseClient MsDisconnected [] (t3, net3))"
    by (rule adds_closed [OF P]) (use completed t3 in simp_all)
  ultimately show ?thesis using completed t3 by simp
qed (simp add: BeginOrderlyClose_def adds_results_def)

text \<open>The request of \<open>t\<close> that a result frame answers.\<close>

definition answers_request :: "TcpLuaTransport \<Rightarrow> Frame \<Rightarrow> bool" where
  "answers_request t f \<longleftrightarrow> (\<exists>q. map_of (tl_Pending t) (requestId f) = Some q
     \<and> frameType f = (if tp_operation q = Read then MtReadResult else MtWriteResult)
     \<and> length (payload f) = (if tp_operation q = Read then unat (tp_expectedSize q) else 0))"

lemma ProcessFrame_adds:
  assumes p: "tl_Client t = Some p" "pe_handshakeAccepted p"
  shows "adds_results (\<lambda>r. res_status r = MsOk \<longrightarrow>
      answers_request t f \<and> res_id r = requestId f \<and> res_data r = payload f) t (ProcessFrame f (t, net))"
    (is "adds_results ?P t _")
proof -
  note close = adds_protocol_close [OF refl, of "\<lambda>r. answers_request t f \<and> res_id r = requestId f \<and> res_data r = payload f" t]
  have one: "?P r \<Longrightarrow> adds_results ?P t (answer r t, net)" for r by (simp add: adds_results_def answer_def)
  have read: "adds_results ?P t (ProcessReadResult f (t, net))" if "frameType f = MtReadResult"
    using that close one [of "\<lparr>res_id = requestId f, res_status = MsOk, res_data = payload f\<rparr>"]
    by (cases "map_of (tl_Pending t) (requestId f)") (simp_all add: ProcessReadResult_def answers_request_def)
  have writing: "op \<noteq> Read \<longleftrightarrow> op = Write" for op by (cases op) simp_all
  have written: "adds_results ?P t (ProcessWriteResult f (t, net))" if "frameType f = MtWriteResult"
    using that close one [of "simple_result (requestId f) MsOk"] writing
    by (cases "map_of (tl_Pending t) (requestId f)") (auto simp: ProcessWriteResult_def answers_request_def simple_result_def)
  have error: "adds_results ?P t (ProcessError p f (t, net))"
  proof (cases "\<exists>m. DecodeErrorMessage f = Inr m \<and> requestId f \<noteq> 0 \<and> map_of (tl_Pending t) (requestId f) \<noteq> None")
    case True
    then obtain m where m: "DecodeErrorMessage f = Inr m" "\<not> (requestId f = 0 \<or> map_of (tl_Pending t) (requestId f) = None)" by auto
    let ?t = "(answer (simple_result (requestId f) (ToMemoryStatus (emCode m))) t)\<lparr>tl_Diagnostic := emDiagnostic m\<rparr>"
    have "adds_results ?P t (markClosing (snd (QueueFrame p EncodeClose ?t)), net)"
      by (simp add: adds_results_def answer_def simple_result_def)
    then have "adds_results ?P t (CompletePending MsDisconnected (markClosing (snd (QueueFrame p EncodeClose ?t)), net))"
      by (rule adds_completed [OF refl, rotated]) simp
    then show ?thesis unfolding ProcessError_def Let_def prod.case m(1) sum.case if_not_P [OF m(2)] by (simp add: case_prod_beta)
  next
    case False
    then show ?thesis using close by (auto simp: ProcessError_def split: sum.split)
  qed
  have orderly: "adds_results ?P t (BeginOrderlyClose (t, net))" by (rule adds_orderly_close [OF refl])
  define good where "good = adds_results ?P t"
  show ?thesis
    using read written error close [of MalformedFrame "''unexpected bridge message from mGBA''" net] orderly p
    unfolding good_def [symmetric] by (simp add: ProcessFrame_def)
qed

lemma ProcessFrame_answers:
  assumes p: "tl_Client t = Some p" "pe_handshakeAccepted p" and f: "answers_request t f"
  shows "tl_Results (fst (ProcessFrame f (t, net))) = tl_Results t @ [\<lparr>res_id = requestId f, res_status = MsOk, res_data = payload f\<rparr>]"
proof -
  obtain q where q: "map_of (tl_Pending t) (requestId f) = Some q"
      "frameType f = (if tp_operation q = Read then MtReadResult else MtWriteResult)"
      "length (payload f) = (if tp_operation q = Read then unat (tp_expectedSize q) else 0)"
    using f by (auto simp: answers_request_def)
  then show ?thesis using p
    by (cases "tp_operation q") (simp_all add: ProcessFrame_def ProcessReadResult_def ProcessWriteResult_def answer_def simple_result_def)
qed

lemma ProcessFrame_results:
  assumes "tl_Client t = Some p" "pe_handshakeAccepted p"
  shows "\<exists>new. tl_Results (fst (ProcessFrame f (t, net))) = tl_Results t @ new
    \<and> (answers_request t f \<longrightarrow> new = [\<lparr>res_id = requestId f, res_status = MsOk, res_data = payload f\<rparr>])
    \<and> (\<forall>a\<in>set new. res_status a = MsOk \<longrightarrow> answers_request t f \<and> res_id a = requestId f \<and> res_data a = payload f)"
proof -
  obtain new where new: "tl_Results (fst (ProcessFrame f (t, net))) = tl_Results t @ new"
      "list_all (\<lambda>r. res_status r = MsOk \<longrightarrow> answers_request t f \<and> res_id r = requestId f \<and> res_data r = payload f) new"
    using ProcessFrame_adds [OF assms, of f net] unfolding adds_results_def by blast
  moreover have "answers_request t f \<Longrightarrow> new = [\<lparr>res_id = requestId f, res_status = MsOk, res_data = payload f\<rparr>]"
    using ProcessFrame_answers [OF assms, of f net] new(1) by simp
  ultimately show ?thesis unfolding list_all_iff by blast
qed

text \<open>No operation of a poll takes back or changes a result.\<close>

definition keeps_results :: "MemoryResult list \<Rightarrow> Tcp \<Rightarrow> bool" where
  "keeps_results rs tn \<longleftrightarrow> (\<exists>new. tl_Results (fst tn) = rs @ new)"

lemma keeps_adds: "adds_results (\<lambda>r. res_status r = MsOk \<longrightarrow> True) t tn \<Longrightarrow> keeps_results rs (t, net) \<Longrightarrow> keeps_results rs tn"
  by (auto simp: adds_results_def keeps_results_def)

lemma keeps_same: "keeps_results rs (t, net) \<Longrightarrow> tl_Results t' = tl_Results t \<Longrightarrow> keeps_results rs (t', net')"
  by (simp add: keeps_results_def)

lemma keeps_close:
  assumes "keeps_results rs (t, net)"
  shows "keeps_results rs (BeginProtocolClose c d (t, net'))" "keeps_results rs (BeginOrderlyClose (t, net'))"
    "keeps_results rs (CloseClient st d (t, net'))"
  using assms keeps_adds [OF adds_protocol_close [OF refl]] keeps_adds [OF adds_orderly_close [OF refl]]
  by (auto simp: CloseClient_def CompletePending_def keeps_results_def Let_def)

lemma keeps_ProcessHello: "keeps_results rs (t, net) \<Longrightarrow> keeps_results rs (ProcessHello p f (t, net))"
proof -
  assume keeps: "keeps_results rs (t, net)"
  obtain b u where u: "QueueFrame p (EncodeServerHello (serverHello Rejected net)) t = (b, u)" by fastforce
  obtain c v where v: "QueueFrame p (EncodeServerHello (serverHello Accepted net)) t = (c, v)" by fastforce
  have same: "keeps_results rs (u, net)" "keeps_results rs (v, net)"
    "keeps_results rs (v\<lparr>tl_Client := x, tl_State := Connected, tl_Diagnostic := []\<rparr>, net)" for x
    using keeps QueueFrame_results [of p "EncodeServerHello (serverHello Rejected net)" t]
      QueueFrame_results [of p "EncodeServerHello (serverHello Accepted net)" t] u v by (simp_all add: keeps_results_def)
  then show ?thesis using keeps keeps_close by (simp add: ProcessHello_def u v Let_def split: sum.split)
qed

lemma keeps_ProcessFrame: "keeps_results rs tn \<Longrightarrow> keeps_results rs (ProcessFrame f tn)"
proof -
  assume keeps: "keeps_results rs tn"
  obtain t net where tn: "tn = (t, net)" by (metis surj_pair)
  show ?thesis
  proof (cases "tl_Client t")
    case None
    then show ?thesis using keeps by (simp add: tn ProcessFrame_def)
  next
    case (Some p)
    show ?thesis
    proof (cases "pe_handshakeAccepted p")
      case True
      from ProcessFrame_adds [OF Some True, of f net] keeps show ?thesis by (auto simp: tn adds_results_def keeps_results_def)
    next
      case False
      then show ?thesis using Some keeps by (simp add: tn ProcessFrame_def keeps_ProcessHello)
    qed
  qed
qed

lemma keeps_ProcessFrames: "keeps_results rs tn \<Longrightarrow> keeps_results rs (ProcessFrames fs tn)"
  by (induction fs tn rule: ProcessFrames.induct) (auto intro: keeps_ProcessFrame split: option.split)

lemma setters_results [simp]: "tl_Results (setDecoder p d t) = tl_Results t" "tl_Results (setWriter p w t) = tl_Results t"
  by (simp_all add: setDecoder_def setWriter_def)

lemma keeps_ReceiveClientLoop: "keeps_results rs tn \<Longrightarrow> keeps_results rs (ReceiveClientLoop n tn)"
proof (induction n tn rule: ReceiveClientLoop.induct)
  case (1 received t net)
  show ?case
  proof (cases "tl_Client t")
    case None
    then show ?thesis using "1.prems" by (simp add: ReceiveClientLoop.simps [of received])
  next
    case (Some p)
    obtain r bs net' where r: "SocketReceive (pe_socket p) (min ReceiveChunkSize (MaximumIoBytesPerPoll - received)) net = (r, bs, net')"
      by (metis prod_cases3)
    obtain ok d where d: "Append (pe_decoder p) bs = (ok, d)" by fastforce
    obtain fs d' where fs: "PollFrames d = (fs, d')" by fastforce
    have same: "keeps_results rs (t, net')" "keeps_results rs (setDecoder p x t, net')" for x
      using "1.prems" by (auto intro: keeps_same)
    have loop: "keeps_results rs (ReceiveClientLoop (received + io_byteCount r) (ProcessFrames fs (setDecoder p d' t, net')))"
      if "\<not> (pe_closeAfterWrite p \<or> received \<ge> MaximumIoBytesPerPoll)" "io_status r = SsOk" "io_byteCount r \<noteq> 0" ok
      using that d fs
      by (intro "1.IH" [OF Some _ refl refl r [symmetric] refl that(2,3) refl d [symmetric] _ refl fs [symmetric]] keeps_ProcessFrames same) auto
    show ?thesis
      using "1.prems" loop same keeps_close [OF same(1)] keeps_close(1) [OF same(2)]
      by (simp add: ReceiveClientLoop.simps [of received] Some r d fs Let_def split: SocketStatus.split)
  qed
qed

lemma keeps_FlushClientLoop: "keeps_results rs tn \<Longrightarrow> keeps_results rs (snd (FlushClientLoop n tn))"
proof (induction n tn rule: FlushClientLoop.induct)
  case (1 sent t net)
  have same: "keeps_results rs (t, net')" "keeps_results rs (setWriter p w t, net')" for net' p w
    using "1.prems" by (auto intro: keeps_same)
  from 1 same keeps_close(3) [OF "1.prems"] show ?case
    by (simp add: FlushClientLoop.simps [of sent] Let_def split: option.split prod.split)
qed

lemma keeps_FlushClient: "keeps_results rs tn \<Longrightarrow> keeps_results rs (FlushClient tn)"
  using keeps_FlushClientLoop [of rs tn 0] keeps_close(3) by (auto simp: FlushClient_def split: option.split prod.split)

lemma keeps_AcceptClientsLoop: "keeps_results rs tn \<Longrightarrow> keeps_results rs (AcceptClientsLoop n tn)"
proof (induction n tn rule: AcceptClientsLoop.induct)
  case (2 n t net)
  have same: "tl_Results u = tl_Results t \<Longrightarrow> keeps_results rs (u, net')" for u net' using "2.prems" by (rule keeps_same)
  have "tl_Results (fst (RejectBusyClient s (t, net'))) = tl_Results t" for s net'
    using RejectBusyClient_eq [of net' s t] by auto
  then have busy: "keeps_results rs (RejectBusyClient s (t, net'))" for s net' using same by (metis prod.collapse)
  from 2 same busy show ?case by (auto simp: Let_def split: prod.split option.split)
qed simp

lemma poll_keeps_results: "\<exists>new. fst (TcpPollResults tn) = tl_Results (fst tn) @ new"
proof -
  have start: "keeps_results (tl_Results (fst tn)) tn" by (simp add: keeps_results_def)
  let ?tn = "FlushClosingPeers (AcceptClients tn)"
  have "keeps_results rs tn' \<Longrightarrow> keeps_results rs (FlushClosingPeers tn')" for rs tn'
    by (auto simp: FlushClosingPeers_def keeps_results_def split: prod.split)
  then have "keeps_results (tl_Results (fst tn)) ?tn" using start by (simp add: AcceptClients_def keeps_AcceptClientsLoop)
  moreover from this have "keeps_results (tl_Results (fst tn)) (ReceiveClient ?tn)" by (simp add: ReceiveClient_def keeps_ReceiveClientLoop)
  moreover from this have "keeps_results (tl_Results (fst tn)) (FlushClient (ReceiveClient ?tn))" by (rule keeps_FlushClient)
  ultimately show ?thesis using start
    by (auto simp: TcpPollResults_def keeps_results_def Let_def split: option.split prod.split)
qed

section \<open>Concrete states\<close>

text \<open>A connected transport with a read of four bytes waiting, and one with a client that said nothing yet.\<close>

definition exampleNetwork :: Network where
  "exampleNetwork = \<lparr>net_listen = Ok (), net_boundPort = (30125, []), net_accept = [], net_send = [NsSent 5],
     net_receive = [], net_beforeDeadline = [], net_rank = unat, net_version = (1, 0, 0), net_nextHandle = 2,
     net_sent = [], net_closed = []\<rparr>"

definition exampleTransport :: TcpLuaTransport where
  "exampleTransport = \<lparr>tl_Listener = Some 0, tl_Client = Some ((newPeer (Some 1))\<lparr>pe_handshakeAccepted := True\<rparr>),
     tl_ClosingPeers = [], tl_Pending = [(7, \<lparr>tp_operation = Read, tp_expectedSize = 4\<rparr>)], tl_Results = [],
     tl_State = Connected, tl_Port = 30125, tl_Diagnostic = []\<rparr>"

definition exampleListening :: TcpLuaTransport where
  "exampleListening = exampleTransport\<lparr>tl_Client := Some (newPeer (Some 1)), tl_Pending := [], tl_State := Listening\<rparr>"

lemma two_handles: "{#Suc 0, 0#} = mset [0..<2]"
  by (simp add: numeral_2_eq_2 del: mset_upt)

lemma example_inv: "tcp_inv (exampleTransport, exampleNetwork) {#(7, Read, 4)#}"
proof -
  have "list_all2 result_for [] [] \<and> {#(7, Read, 4)#} = mset [] + mset (map tcp_key (tl_Pending exampleTransport))"
    by (simp add: exampleTransport_def tcp_key_def)
  then have "answers_inv exampleTransport {#(7, Read, 4)#}"
    unfolding answers_inv_def by (intro conjI exI [of _ "[]"]) (simp_all add: exampleTransport_def)
  moreover have "sockets_inv (held_sockets exampleTransport) exampleNetwork"
    using two_handles
    by (simp add: sockets_inv_def held_sockets_def client_socket_def closing_sockets_def exampleTransport_def
        exampleNetwork_def socket_list_def newPeer_def del: mset_upt)
  ultimately show ?thesis
    by (simp add: tcp_inv_def weak_inv_def)
      (simp add: peers_inv_def state_inv_def exampleTransport_def newPeer_def)
qed

lemma example_listening_inv: "tcp_inv (exampleListening, exampleNetwork) {#}"
proof -
  have "sockets_inv (held_sockets exampleListening) exampleNetwork"
    using two_handles
    by (simp add: sockets_inv_def held_sockets_def client_socket_def closing_sockets_def exampleListening_def exampleTransport_def
        exampleNetwork_def socket_list_def newPeer_def del: mset_upt)
  then show ?thesis
    by (simp add: tcp_inv_def weak_inv_def)
      (simp add: peers_inv_def state_inv_def answers_inv_def exampleListening_def exampleTransport_def newPeer_def)
qed

section \<open>Properties\<close>

text \<open>
  C11. Every accepted memory request is answered, with the bytes the script sent for it: on a transport
  that owes the requests \<open>K\<close>, a submission that returns true adds its request to what is owed and one
  that returns false adds nothing; a poll hands out one result for each request of a part of \<open>K\<close>, of the
  size that was asked for when its status is \<open>MsOk\<close>, and owes the rest; after \<^verbatim>\<open>Stop\<close> the next poll
  answers all of \<open>K\<close>. A poll hands out every result recorded before, first and unchanged. A result of status \<open>MsOk\<close> comes only from a frame that has the ID of a request that
  waits, the type of its operation and a payload of its size, and its data is that payload, byte for
  byte; and each frame of this kind that is processed for a client adds exactly this result.
\<close>

theorem transport_answers_requests:
  assumes "tcp_inv tn K"
  shows "tcp_inv (snd (TcpSubmit r tn)) (if fst (TcpSubmit r tn) then add_mset (request_key r) K else K)
    \<and> (\<exists>answered K'. K = mset answered + K' \<and> list_all2 result_for (fst (TcpPollResults tn)) answered
         \<and> tcp_inv (snd (TcpPollResults tn)) K')
    \<and> (\<exists>answered. K = mset answered \<and> list_all2 result_for (fst (TcpPollResults (TcpStop tn))) answered)
    \<and> (\<exists>new. fst (TcpPollResults tn) = tl_Results (fst tn) @ new)
    \<and> (\<forall>f p. tl_Client (fst tn) = Some p \<longrightarrow> pe_handshakeAccepted p \<longrightarrow>
         (\<exists>new. tl_Results (fst (ProcessFrame f tn)) = tl_Results (fst tn) @ new
            \<and> (answers_request (fst tn) f \<longrightarrow> new = [\<lparr>res_id = requestId f, res_status = MsOk, res_data = payload f\<rparr>])
            \<and> (\<forall>a\<in>set new. res_status a = MsOk \<longrightarrow>
                 answers_request (fst tn) f \<and> res_id a = requestId f \<and> res_data a = payload f)))"
proof -
  have "tcp_inv (TcpStop tn) K" using assms by (rule TcpStop_inv)
  then have "fst (TcpPollResults (TcpStop tn)) = tl_Results (fst (TcpStop tn))" "tl_Pending (fst (TcpStop tn)) = []"
    "answers_inv (fst (TcpStop tn)) K"
    using TcpStop_stopped [of tn] by (auto simp: TcpPollResults_def tcp_inv_def state_inv_def weak_inv_def split: prod.split)
  then have stopped: "\<exists>answered. K = mset answered \<and> list_all2 result_for (fst (TcpPollResults (TcpStop tn))) answered"
    by (auto simp: answers_inv_def)
  have submitted: "tcp_inv (snd (TcpSubmit r tn)) (if fst (TcpSubmit r tn) then add_mset (request_key r) K else K)"
    by (rule TcpSubmit_inv [OF assms]) simp
  have polled: "\<exists>answered K'. K = mset answered + K' \<and> list_all2 result_for (fst (TcpPollResults tn)) answered
         \<and> tcp_inv (snd (TcpPollResults tn)) K'"
    by (rule TcpPollResults_inv [OF assms]) simp
  show ?thesis
    by (intro conjI allI impI submitted polled stopped poll_keeps_results ProcessFrame_results [where net = "snd tn" and t = "fst tn", unfolded prod.collapse])
qed

theorem transport_answers_requests_witness:
  "\<exists>answered f. {#(7, Read, 4)#} = mset answered
     \<and> list_all2 result_for (fst (TcpPollResults (TcpStop (exampleTransport, exampleNetwork)))) answered
     \<and> payload f = [1, 2, 3, 4] \<and> tl_Results (fst (ProcessFrame f (exampleTransport, exampleNetwork)))
        = [\<lparr>res_id = 7, res_status = MsOk, res_data = [1, 2, 3, 4]\<rparr>]"
proof -
  let ?f = "\<lparr>frameType = MtReadResult, flags = 0, requestId = 7, payload = [1, 2, 3, 4]\<rparr>"
  have client: "tl_Client exampleTransport = Some ((newPeer (Some 1))\<lparr>pe_handshakeAccepted := True\<rparr>)"
    and waits: "answers_request exampleTransport ?f" and none: "tl_Results exampleTransport = []"
    by (simp_all add: exampleTransport_def answers_request_def)
  from transport_answers_requests [OF example_inv] obtain answered where answered: "{#(7, Read, 4)#} = mset answered"
      "list_all2 result_for (fst (TcpPollResults (TcpStop (exampleTransport, exampleNetwork)))) answered" by blast
  have accepted: "pe_handshakeAccepted ((newPeer (Some 1))\<lparr>pe_handshakeAccepted := True\<rparr>)" by simp
  have "\<exists>new. tl_Results (fst (ProcessFrame ?f (exampleTransport, exampleNetwork))) = tl_Results exampleTransport @ new
      \<and> (answers_request exampleTransport ?f \<longrightarrow> new = [\<lparr>res_id = requestId ?f, res_status = MsOk, res_data = payload ?f\<rparr>])"
    using transport_answers_requests [OF example_inv, THEN conjunct2, THEN conjunct2, THEN conjunct2, THEN conjunct2, rule_format,
        unfolded fst_conv, OF client accepted, of ?f] by (elim exE conjE) (rule exI, erule conjI, assumption)
  then have "tl_Results (fst (ProcessFrame ?f (exampleTransport, exampleNetwork)))
      = tl_Results exampleTransport @ [\<lparr>res_id = requestId ?f, res_status = MsOk, res_data = payload ?f\<rparr>]"
    using waits by auto
  with answered none show ?thesis by (intro exI [of _ answered] exI [of _ ?f]) simp
qed


text \<open>
  Connection state: on every transport that keeps its invariant, and so after every operation
  from the constructor on, the state is \<open>Connected\<close> exactly while a client whose hello was accepted
  is held; requests wait for the network only in that state; a client that is being closed is no
  longer connected; at most 8 rejected clients are held; and a stopped transport holds nothing.
\<close>

theorem transport_state:
  assumes "tcp_inv (t, net) K"
  shows "(tl_State t = Connected \<longleftrightarrow> (\<exists>p. tl_Client t = Some p \<and> pe_handshakeAccepted p))
    \<and> (tl_Pending t \<noteq> [] \<longrightarrow> tl_State t = Connected)
    \<and> (\<forall>p. tl_Client t = Some p \<longrightarrow> pe_closeAfterWrite p \<longrightarrow> tl_State t \<noteq> Connected)
    \<and> length (tl_ClosingPeers t) \<le> 8
    \<and> (tl_State (fst (TcpStop (t, net))) = Stopped \<and> tl_Client (fst (TcpStop (t, net))) = None
       \<and> tl_Pending (fst (TcpStop (t, net))) = [])"
proof -
  have "tl_State (fst (TcpStop (t, net))) = Stopped"
    by (auto simp: TcpStop_eq stopRest_def CompletePending_def Let_def split: prod.split)
  moreover have "state_inv (fst (TcpStop (t, net)))" using TcpStop_inv [OF assms] by (simp add: tcp_inv_def)
  ultimately have "tl_State (fst (TcpStop (t, net))) = Stopped \<and> tl_Client (fst (TcpStop (t, net))) = None
       \<and> tl_Pending (fst (TcpStop (t, net))) = []"
    by (auto simp: state_inv_def)
  then show ?thesis using assms by (auto simp: tcp_inv_def state_inv_def weak_inv_def peers_inv_def)
qed

theorem transport_state_witness:
  "tl_State (fst (TcpStop (exampleTransport, exampleNetwork))) = Stopped
   \<and> tl_Pending (fst (TcpStop (exampleTransport, exampleNetwork))) = []"
  using transport_state [OF example_inv] by blast


text \<open>
  C12. No socket leaks and none is closed twice: in every run of the transport, whatever clients
  connect, send and do, every handle the program was given is held by the transport once or has been
  closed once, not both, and after \<^verbatim>\<open>Stop\<close> all of them have been closed, each once.
\<close>

theorem transport_sockets:
  assumes "tcp_used (t, net)"
  shows "held_sockets t + mset (net_closed net) = mset [0..<net_nextHandle net]
    \<and> mset (net_closed (snd (TcpStop (t, net)))) = mset [0..<net_nextHandle (snd (TcpStop (t, net)))]
    \<and> held_sockets (fst (TcpStop (t, net))) = {#}"
proof -
  obtain K where inv: "tcp_inv (t, net) K" using tcp_used_inv [OF assms] by blast
  then have "tcp_inv (TcpStop (t, net)) K" by (rule TcpStop_inv)
  then have stop: "sockets_inv (held_sockets (fst (TcpStop (t, net)))) (snd (TcpStop (t, net)))"
      "state_inv (fst (TcpStop (t, net)))"
    by (simp_all add: tcp_inv_def weak_inv_def)
  then have none: "held_sockets (fst (TcpStop (t, net))) = {#}"
    using TcpStop_stopped [of "(t, net)"]
    by (simp add: state_inv_def held_sockets_def client_socket_def closing_sockets_def socket_list_def)
  then show ?thesis using tcp_inv_sockets [OF inv] stop(1) by (simp add: sockets_inv_def add.commute)
qed


text \<open>
  Only the supported hello connects: the first frame of a new client makes the transport
  \<open>Connected\<close> exactly when it is the encoding of the hello of protocol 1.0 and script version 1 (and
  the answer fits the send queue); after any other frame the state is \<open>Listening\<close>.
\<close>

theorem handshake_exact:
  assumes "tcp_inv (t, net) K" and "tl_Client t = Some p" and "\<not> pe_handshakeAccepted p"
  shows "tl_State (fst (ProcessFrame f (t, net))) =
    (if f = EncodeClientHello \<lparr>chProtocolMajor = 1, chProtocolMinor = 0, chScriptVersion = 1\<rparr>
        \<and> is_ok (fst (WriterQueue (pe_writer p) (EncodeServerHello (serverHello Accepted net))))
     then Connected else Listening)"
  using ProcessHello_state [OF assms(2) tcp_inv_client(4) [OF assms(1,2)], of f net] assms
  by (simp add: ProcessFrame_def supportedHello_def)

theorem handshake_exact_witness:
  "tl_State (fst (ProcessFrame EncodeClose (exampleListening, exampleNetwork))) = Listening"
proof -
  have "tl_Client exampleListening = Some (newPeer (Some 1))" by (simp add: exampleListening_def)
  moreover have "\<not> pe_handshakeAccepted (newPeer (Some 1))" by (simp add: newPeer_def)
  moreover have "EncodeClose \<noteq> EncodeClientHello h" for h by (simp add: EncodeClose_def EncodeClientHello_def emptyFrame_def)
  ultimately show ?thesis using handshake_exact [OF example_listening_inv] by simp
qed


text \<open>
  Flushing loses nothing: the bytes that \<^verbatim>\<open>FlushClient\<close> hands to the client's socket are the
  front of the unsent stream, in order, and a client that is still held afterwards has exactly the
  remainder left to send.
\<close>

theorem flush_lossless:
  assumes "tcp_inv (t, net) K" and "tl_Client t = Some p" and "pe_socket p = Some h"
  shows "\<exists>out left. wire h (snd (FlushClient (t, net))) = wire h net @ out
    \<and> unsent_stream (pe_writer p) = out @ left
    \<and> (\<forall>q. tl_Client (fst (FlushClient (t, net))) = Some q \<longrightarrow> unsent_stream (pe_writer q) = left)"
  using FlushClient_flushed [OF assms(2,3) tcp_inv_client(2) [OF assms(1,2)], of net]
  by (simp add: flushed_def)

theorem flush_lossless_witness:
  "\<exists>out left. wire 1 (snd (FlushClient (exampleTransport, exampleNetwork))) = wire 1 exampleNetwork @ out
     \<and> unsent_stream newFrameWriter = out @ left"
  using flush_lossless [OF example_inv, of "(newPeer (Some 1))\<lparr>pe_handshakeAccepted := True\<rparr>" 1]
  by (auto simp: exampleTransport_def newPeer_def)


text \<open>
  A second client is turned away: with a client held, a new connection either is closed at once,
  when 8 rejected clients are already held, or gets exactly a rejecting hello, a \<open>Busy\<close> error and a
  close message queued; the held client, the pending requests and the results are not touched.
\<close>

theorem busy_client_rejected:
  "\<exists>w. unsent_stream w = frame_wire (EncodeServerHello (serverHello Rejected net)) @ frame_wire busyError @ frame_wire EncodeClose
     \<and> DecodeErrorMessage busyError = Ok \<lparr>emCode = Busy, emDiagnostic = ''another mGBA instance is already connected''\<rparr>
     \<and> RejectBusyClient sock (t, net) =
        (if 8 \<le> length (tl_ClosingPeers t) then (t, snd (SocketClose sock net))
         else (t\<lparr>tl_ClosingPeers := tl_ClosingPeers t @ [\<lparr>cp_socket = sock, cp_writer = w\<rparr>]\<rparr>, net))"
proof -
  have "(case (0, \<lparr>emCode = Busy, emDiagnostic = ''another mGBA instance is already connected''\<rparr>) of
      (rid, e) \<Rightarrow> TryEncodeError rid e) = Ok busyError"
    by (simp add: busyError)
  moreover have "valid_error (0, \<lparr>emCode = Busy, emDiagnostic = ''another mGBA instance is already connected''\<rparr>)"
    by (simp add: valid_error_def byte_of_char_def IsValidUtf8_ascii)
  ultimately have "andThen (DecodeErrorMessage busyError) (\<lambda>e. Ok (requestId busyError, e))
      = Ok (0, \<lparr>emCode = Busy, emDiagnostic = ''another mGBA instance is already connected''\<rparr>)"
    using error_message.round_trip by blast
  then have "DecodeErrorMessage busyError = Ok \<lparr>emCode = Busy, emDiagnostic = ''another mGBA instance is already connected''\<rparr>"
    by (auto simp: andThen_Ok_iff)
  then show ?thesis using RejectBusyClient_eq [of net sock t] by (auto simp: busyWire_def)
qed

text \<open>
  C15. The farewell of \<^verbatim>\<open>Stop\<close> is lost behind a frame that was sent in part: \<^verbatim>\<open>Stop\<close> drops the
  unsent bytes before it queues the close message. So when the client's socket has taken whole frames
  \<open>fs\<close> and the first \<open>k\<close> bytes of the next one (at least its length field, with more than 12 bytes to
  go), the rest of which waits in the writer, then after \<^verbatim>\<open>Stop\<close>, whatever the socket takes of the
  close message, the other side takes those bytes as the body of the unfinished frame: it decodes
  \<open>fs\<close> and no close message.
\<close>

theorem stop_close_lost_after_partial_frame:
  assumes "tcp_inv (t, net) K" and "tl_Client t = Some p" and "pe_handshakeAccepted p" and "pe_socket p = Some h"
    and "within_limits fs" and "valid_frame f" and "4 \<le> k" and "k + 12 < WireSize f"
    and "wire h net = concat (map frame_wire fs) @ take k (frame_wire f)"
    and "unsent_stream (pe_writer p) = drop k (frame_wire f) @ later"
  shows "\<exists>n. wire h (snd (TcpStop (t, net))) = concat (map frame_wire fs) @ take k (frame_wire f) @ take n (frame_wire EncodeClose)
    \<and> fst (Append newFrameDecoder (wire h (snd (TcpStop (t, net)))))
    \<and> fd_Frames (snd (Append newFrameDecoder (wire h (snd (TcpStop (t, net)))))) = fs"
proof -
  let ?p = "p\<lparr>pe_writer := WriterReset (pe_writer p)\<rparr>"
  obtain w where w: "WriterQueue (WriterReset (pe_writer p)) EncodeClose = (Ok (), w)" "unsent_stream w = frame_wire EncodeClose"
    using WriterReset_Close by blast
  let ?t = "t\<lparr>tl_Client := Some (?p\<lparr>pe_writer := w\<rparr>)\<rparr>"
  have q: "QueueFrame ?p EncodeClose t = (True, ?t)" using w(1) by (simp add: QueueFrame_def)
  have "writer_inv w" using writer_inv_Queue [OF writer_inv_Reset, of "pe_writer p" EncodeClose] w(1) by simp
  then have inv: "tcp_inv (?t, net) K"
    using tcp_inv_set_client [OF assms(1,2), of "p\<lparr>pe_writer := w\<rparr>"] tcp_inv_client(1) [OF assms(1,2)] assms(3) by simp
  obtain n where "wire h (snd (StopFlushLoop (net_beforeDeadline net) (?t, net))) = wire h net @ take n (frame_wire EncodeClose)"
    using StopFlushLoop_wire [OF inv, of "?p\<lparr>pe_writer := w\<rparr>" h] assms(4) w(2) by auto
  moreover have "stopFlush (t, net) = StopFlushLoop (net_beforeDeadline net) (?t, net)"
    using assms(2,3) by (simp add: stopFlush_def q)
  moreover have "tl_State t \<noteq> Stopped" using tcp_inv_client(4) [OF assms(1,2)] .
  ultimately have n: "wire h (snd (TcpStop (t, net))) = wire h net @ take n (frame_wire EncodeClose)"
    using stopRest_wire by (simp add: TcpStop_eq) (metis prod.collapse)
  let ?b = "take k (frame_wire f) @ take n (frame_wire EncodeClose)"
  have sz: "WireSize f = 12 + length (payload f)" by (simp add: WireSize_def)
  have "body_length (take k (frame_wire f)) = body_length (take k (frame_wire f) @ drop k (frame_wire f))"
    using assms(7,8) by (intro body_length_append [symmetric]) (simp add: sz)
  then have len: "body_length ?b = 8 + length (payload f)"
    using assms(7,8) body_length_wire [OF assms(6)] by (simp add: body_length_append sz)
  have "length ?b \<le> k + 12" using assms(8) by (simp add: EncodeClose_def sz)
  moreover have "length (payload f) \<le> 1048568" using assms(6) by (simp add: valid_frame_def)
  ultimately have "partial_frame ?b" using len assms(8) by (simp add: partial_frame_def sz)
  then have "Append newFrameDecoder (concat (map frame_wire fs) @ ?b) = (True, decoder_state fs ?b)"
    using feed_new [OF assms(5) \<open>partial_frame ?b\<close>] by (simp add: Append_feed) (simp add: decoder_state_def)
  then show ?thesis unfolding n assms(9) by (intro exI [of _ n]) (simp add: decoder_state_def)
qed

text \<open>
  A read request of which six bytes were sent; the socket then takes the whole close message.
\<close>

definition cutRequest :: Frame where
  "cutRequest = EncodeReadRequest 1 \<lparr>rrAddress = 0x02000000, rrSize = 4\<rparr>"

definition cutTransport :: TcpLuaTransport where
  "cutTransport = exampleTransport\<lparr>tl_Client := Some ((newPeer (Some 1))\<lparr>pe_handshakeAccepted := True,
     pe_writer := snd (ConsumeSent (snd (WriterQueue newFrameWriter cutRequest)) 6)\<rparr>)\<rparr>"

definition cutNetwork :: Network where
  "cutNetwork = exampleNetwork\<lparr>net_sent := [(1, take 6 (frame_wire cutRequest))], net_send := [NsSent 12],
     net_beforeDeadline := [True]\<rparr>"

lemma cut_writer:
  "writer_inv (snd (ConsumeSent (snd (WriterQueue newFrameWriter cutRequest)) 6))"
  "unsent_stream (snd (ConsumeSent (snd (WriterQueue newFrameWriter cutRequest)) 6)) = drop 6 (frame_wire cutRequest)"
  "valid_frame cutRequest" "WireSize cutRequest = 20"
proof -
  show v: "valid_frame cutRequest" "WireSize cutRequest = 20"
    by (simp_all add: cutRequest_def EncodeReadRequest_def valid_frame_def WireSize_def)
  let ?w = "snd (WriterQueue newFrameWriter cutRequest)"
  have w: "fw_Frames ?w = [frame_wire cutRequest]" "fw_FrontOffset ?w = 0"
    using v by (simp_all add: WriterQueue_cases QueuedByteCount_def newFrameWriter_def writer_inv_new [unfolded newFrameWriter_def]
        WireSize_def)
  have inv: "writer_inv ?w" by (simp add: writer_inv_Queue)
  then show "writer_inv (snd (ConsumeSent ?w 6))" by (rule writer_inv_ConsumeSent)
  show "unsent_stream (snd (ConsumeSent ?w 6)) = drop 6 (frame_wire cutRequest)"
    using v(2) by (subst ConsumeSent_unsent [OF inv]) (simp_all add: PendingBytes_def unsent_stream_def w WireSize_def)
qed

lemma cut_client:
  "tl_Client cutTransport = Some ((newPeer (Some 1))\<lparr>pe_handshakeAccepted := True,
     pe_writer := snd (ConsumeSent (snd (WriterQueue newFrameWriter cutRequest)) 6)\<rparr>)"
  by (simp add: cutTransport_def)

lemma cut_inv: "tcp_inv (cutTransport, cutNetwork) {#(7, Read, 4)#}"
proof -
  have "tl_Client exampleTransport = Some ((newPeer (Some 1))\<lparr>pe_handshakeAccepted := True\<rparr>)" by (simp add: exampleTransport_def)
  then have "tcp_inv (cutTransport, exampleNetwork) {#(7, Read, 4)#}"
    unfolding cutTransport_def by (rule tcp_inv_set_client [OF example_inv]) (simp_all add: newPeer_def cut_writer)
  then show ?thesis by (rule tcp_inv_net) (simp add: same_handles_def cutNetwork_def)
qed

lemma cut_stop: "wire 1 (snd (TcpStop (cutTransport, cutNetwork))) = take 6 (frame_wire cutRequest) @ frame_wire EncodeClose"
proof -
  let ?p = "(newPeer (Some 1))\<lparr>pe_handshakeAccepted := True\<rparr>"
  obtain w where w: "WriterQueue (WriterReset (snd (ConsumeSent (snd (WriterQueue newFrameWriter cutRequest)) 6))) EncodeClose = (Ok (), w)"
      "unsent_stream w = frame_wire EncodeClose" "PendingBytes w = frame_wire EncodeClose"
    using WriterReset_Close by (metis WriterReset_Close_pending)
  have size: "length (frame_wire EncodeClose) = 12" "frame_wire EncodeClose \<noteq> []" by (auto simp: EncodeClose_def frame_wire_def)
  let ?t = "cutTransport\<lparr>tl_Client := Some (?p\<lparr>pe_writer := w\<rparr>)\<rparr>"
  let ?net = "cutNetwork\<lparr>net_send := [], net_sent := [(1, take 6 (frame_wire cutRequest)), (1, frame_wire EncodeClose)]\<rparr>"
  let ?w = "snd (ConsumeSent w 12)"
  have "writer_inv w" using writer_inv_Queue [OF writer_inv_Reset, of _ EncodeClose] w(1) by (metis snd_conv)
  from ConsumeSent_unsent [OF this, of 12] have "unsent_stream ?w = []" using w(2,3) size by simp
  moreover have "writer_inv ?w" using \<open>writer_inv w\<close> by (rule writer_inv_ConsumeSent)
  ultimately have sent: "PendingBytes ?w = []" using writer.pending_prefix by fastforce
  have send: "SocketSend (Some 1) (frame_wire EncodeClose) cutNetwork
      = (\<lparr>io_status = SsOk, io_byteCount = 12, io_diagnostic = []\<rparr>, ?net)"
    using size by (simp add: SocketSend_def cutNetwork_def)
  have sock: "pe_socket (newPeer (Some 1)) = Some 1" by (simp add: newPeer_def)
  have "FlushClientLoop 12 (setWriter (?p\<lparr>pe_writer := w\<rparr>) ?w ?t, ?net) = (True, setWriter (?p\<lparr>pe_writer := w\<rparr>) ?w ?t, ?net)"
    by (subst FlushClientLoop.simps) (simp add: setWriter_def sent)
  then have "FlushClientLoop 0 (?t, cutNetwork) = (True, setWriter (?p\<lparr>pe_writer := w\<rparr>) ?w ?t, ?net)"
    using size by (subst FlushClientLoop.simps) (simp add: w(3) sock send MaximumIoBytesPerPoll_def del: One_nat_def)
  then have "FlushClient (?t, cutNetwork) = (setWriter (?p\<lparr>pe_writer := w\<rparr>) ?w ?t, ?net)"
    by (simp add: FlushClient_def setWriter_def newPeer_def)
  moreover have "stopFlush (cutTransport, cutNetwork) = StopFlushLoop [True] (?t, cutNetwork)"
    using w(1) by (simp add: stopFlush_def cut_client QueueFrame_def) (simp add: cutNetwork_def)
  ultimately have "stopFlush (cutTransport, cutNetwork) = (setWriter (?p\<lparr>pe_writer := w\<rparr>) ?w ?t, ?net)"
    using size by (simp add: w(3))
  moreover have "tl_State cutTransport \<noteq> Stopped" by (simp add: cutTransport_def exampleTransport_def)
  ultimately show ?thesis by (simp add: TcpStop_eq stopRest_wire) (simp add: wire_def)
qed

theorem stop_close_lost_after_partial_frame_witness:
  "wire 1 (snd (TcpStop (cutTransport, cutNetwork))) = take 6 (frame_wire cutRequest) @ frame_wire EncodeClose
    \<and> fd_Frames (snd (Append newFrameDecoder (wire 1 (snd (TcpStop (cutTransport, cutNetwork)))))) = []"
proof -
  have "wire 1 cutNetwork = take 6 (frame_wire cutRequest)" by (simp add: wire_def cutNetwork_def)
  then have "fd_Frames (snd (Append newFrameDecoder (wire 1 (snd (TcpStop (cutTransport, cutNetwork)))))) = []"
    using stop_close_lost_after_partial_frame [OF cut_inv cut_client, of 1 "[]" cutRequest 6 "[]"] cut_writer
    by (auto simp: newPeer_def within_limits_def)
  with cut_stop show ?thesis by (rule conjI)
qed

end
