(* ===== verification/TcpExample.thy ===== *)
theory TcpExample
  imports TcpTransportProps
begin

text \<open>
  A transport that a client has connected to: a network on which one client calls and sends the
  supported hello, and the transport after its first poll.
\<close>

section \<open>A connected transport\<close>

definition callingNetwork :: Network where
  "callingNetwork = exampleNetwork\<lparr>net_accept := [NaAccepted None], net_send := [],
     net_receive := [NrReceived (frame_wire (EncodeClientHello supportedHello))]\<rparr>"

text \<open>A transport with a client on a network where nothing happens.\<close>

definition quiet :: "Tcp \<Rightarrow> bool" where
  "quiet tn \<longleftrightarrow> tl_State (fst tn) = TransportState.Connected \<and> tl_ClosingPeers (fst tn) = [] \<and> tl_Results (fst tn) = []
     \<and> tl_Listener (fst tn) \<noteq> None
     \<and> (\<exists>p. tl_Client (fst tn) = Some p \<and> pe_socket p \<noteq> None \<and> \<not> pe_closeAfterWrite p)
     \<and> net_accept (snd tn) = [] \<and> net_receive (snd tn) = [] \<and> net_send (snd tn) = []"

lemma quiet_network: "net_accept net = [] \<Longrightarrow> net\<lparr>net_accept := []\<rparr> = net" "net_receive net = [] \<Longrightarrow> net\<lparr>net_receive := []\<rparr> = net"
  "net_send net = [] \<Longrightarrow> net\<lparr>net_send := []\<rparr> = net"
  by simp_all

lemma accepts_nothing: "net_accept net = [] \<Longrightarrow> tl_Listener t \<noteq> None \<Longrightarrow> AcceptClientsLoop n (t, net) = (t, net)"
  by (cases n) (simp_all add: SocketAccept_def IsOpen_def quiet_network)

lemma receives_nothing:
  "tl_Client t = Some p \<Longrightarrow> pe_socket p \<noteq> None \<Longrightarrow> net_receive net = [] \<Longrightarrow> ReceiveClientLoop n (t, net) = (t, net)"
  by (subst ReceiveClientLoop.simps)
    (simp add: Let_def SocketReceive_def IsOpen_def quiet_network MaximumIoBytesPerPoll_def ReceiveChunkSize_def)

lemma sends_nothing:
  assumes "tl_Client t = Some p" "pe_socket p \<noteq> None" "\<not> pe_closeAfterWrite p" "net_send net = []"
  shows "FlushClient (t, net) = (t, net)"
proof -
  have "snd (FlushClientLoop 0 (t, net)) = (t, net)"
    using assms
    by (subst FlushClientLoop.simps) (auto simp: Let_def SocketSend_def quiet_network MaximumIoBytesPerPoll_def min_def split: option.split if_splits)
  with assms show ?thesis by (cases "FlushClientLoop 0 (t, net)") (simp add: FlushClient_def)
qed

lemma quiet_poll: "quiet tn \<Longrightarrow> TcpPollResults tn = ([], tn)"
proof (cases tn)
  case (Pair t net)
  assume "quiet tn"
  then obtain p where t: "tl_State t = TransportState.Connected" "tl_ClosingPeers t = []" "tl_Results t = []" "tl_Listener t \<noteq> None"
      "tl_Client t = Some p" "pe_socket p \<noteq> None" "\<not> pe_closeAfterWrite p"
      "net_accept net = []" "net_receive net = []" "net_send net = []"
    by (auto simp: quiet_def Pair)
  have "t\<lparr>tl_ClosingPeers := []\<rparr> = t" "t\<lparr>tl_Results := []\<rparr> = t" using t(2,3) by simp_all
  then show ?thesis
    using t by (simp add: Pair TcpPollResults_def AcceptClients_def accepts_nothing FlushClosingPeers_def ReceiveClient_def
        receives_nothing sends_nothing)
qed

definition connectedTransport :: Tcp where
  "connectedTransport = (case newTcpLuaTransport callingNetwork of (r, net) \<Rightarrow> snd (TcpPollResults (projr r, net)))"

lemma hello_frame: "valid_frame (EncodeClientHello h)" "length (payload (EncodeClientHello h)) \<le> 20"
  by (simp_all add: EncodeClientHello_def valid_frame_def emptyFrame_def ClientMagic_def)

lemma hello_received:
  "Append newFrameDecoder (frame_wire (EncodeClientHello supportedHello)) = (True, decoder_state [EncodeClientHello supportedHello] [])"
proof -
  let ?f = "EncodeClientHello supportedHello"
  have "within_limits [?f]" using hello_frame [of supportedHello] by (simp add: within_limits_def WireSize_def)
  moreover have "partial_frame []" by (simp add: partial_frame_def)
  ultimately have "feed newFrameDecoder (frame_wire ?f) = decoder_state [?f] []" using feed_new [of "[?f]" "[]"] by simp
  then show ?thesis by (simp add: Append_feed) (simp add: decoder_state_def)
qed

lemma calling_network:
  "newTcpLuaTransport callingNetwork = (Ok \<lparr>tl_Listener = Some 0, tl_Client = None, tl_ClosingPeers = [], tl_Pending = [],
      tl_Results = [], tl_State = Listening, tl_Port = 30125, tl_Diagnostic = []\<rparr>, callingNetwork\<lparr>net_nextHandle := 1\<rparr>)"
  by (simp add: newTcpLuaTransport_def callingNetwork_def exampleNetwork_def Let_def)

text \<open>A writer that holds little enough to take another small frame.\<close>

definition roomy :: "FrameWriter \<Rightarrow> bool" where
  "roomy w \<longleftrightarrow> length (fw_Frames w) \<le> 1 \<and> QueuedByteCount w \<le> 200"

lemma hello_accepted:
  "\<exists>w. roomy w \<and> QueueFrame p (EncodeServerHello (serverHello HelloStatus.Accepted net)) t = (True, t\<lparr>tl_Client := Some (p\<lparr>pe_writer := w\<rparr>)\<rparr>)"
  if "pe_writer p = newFrameWriter"
proof -
  have "length (payload (EncodeServerHello (serverHello HelloStatus.Accepted net))) \<le> 100" "valid_frame (EncodeServerHello (serverHello HelloStatus.Accepted net))"
    by (simp_all add: EncodeServerHello_def valid_frame_def emptyFrame_def)
  then show ?thesis
    using that WriterQueue_cases [OF writer_inv_new, of "EncodeServerHello (serverHello HelloStatus.Accepted net)"]
    by (intro exI [of _ "newFrameWriter\<lparr>fw_QueuedBytes := length (frame_wire (EncodeServerHello (serverHello HelloStatus.Accepted net))),
        fw_Frames := [frame_wire (EncodeServerHello (serverHello HelloStatus.Accepted net))]\<rparr>"])
      (auto simp: QueueFrame_def QueuedByteCount_def newFrameWriter_def roomy_def)
qed

lemma hello_processed:
  assumes "tl_Client t = Some p" and "pe_writer p = newFrameWriter" "\<not> pe_handshakeAccepted p" "\<not> pe_closeAfterWrite p"
  shows "\<exists>w. roomy w \<and> ProcessFrames [EncodeClientHello supportedHello] (t, net)
    = (t\<lparr>tl_Client := Some (p\<lparr>pe_writer := w, pe_handshakeAccepted := True\<rparr>), tl_State := TransportState.Connected, tl_Diagnostic := []\<rparr>, net)"
proof -
  obtain w where room: "roomy w" and w: "QueueFrame p (EncodeServerHello (serverHello HelloStatus.Accepted net)) t = (True, t\<lparr>tl_Client := Some (p\<lparr>pe_writer := w\<rparr>)\<rparr>)"
    using hello_accepted [OF assms(2)] by blast
  have "DecodeClientHello (EncodeClientHello supportedHello) = Ok supportedHello" by (simp add: DecodeClientHello_iff)
  then have "ProcessHello p (EncodeClientHello supportedHello) (t, net)
      = (t\<lparr>tl_Client := Some (p\<lparr>pe_writer := w, pe_handshakeAccepted := True\<rparr>), tl_State := TransportState.Connected, tl_Diagnostic := []\<rparr>, net)"
    unfolding ProcessHello_def prod.case supported_iff by (simp add: Let_def w)
  then show ?thesis using assms room by (intro exI [of _ w]) (simp add: ProcessFrame_def)
qed

lemma receives_hello:
  assumes "tl_Client t = Some (newPeer (Some h))" "net_receive net = [NrReceived (frame_wire (EncodeClientHello supportedHello))]"
  shows "\<exists>p. ReceiveClientLoop 0 (t, net) = (t\<lparr>tl_Client := Some p, tl_State := TransportState.Connected, tl_Diagnostic := []\<rparr>,
      net\<lparr>net_receive := []\<rparr>) \<and> pe_socket p = Some h \<and> \<not> pe_closeAfterWrite p
      \<and> pe_handshakeAccepted p \<and> roomy (pe_writer p)"
proof -
  let ?wire = "frame_wire (EncodeClientHello supportedHello)" and ?p = "newPeer (Some h)"
  have size: "length ?wire \<le> 32" "?wire \<noteq> []" using hello_frame(2) [of supportedHello] by (auto simp: frame_wire_def)
  have receive: "SocketReceive (pe_socket ?p) (min ReceiveChunkSize 262144) net
      = (\<lparr>io_status = SsOk, io_byteCount = length ?wire, io_diagnostic = []\<rparr>, ?wire, net\<lparr>net_receive := []\<rparr>)"
    using size assms(2)
    by (simp add: SocketReceive_def newPeer_def IsOpen_def ReceiveChunkSize_def MaximumIoBytesPerPoll_def)
  obtain d where poll: "PollFrames (decoder_state [EncodeClientHello supportedHello] []) = ([EncodeClientHello supportedHello], d)"
    by (simp add: PollFrames_def decoder_state_def)
  let ?t = "setDecoder ?p d t"
  obtain w where room: "roomy w" and processed: "ProcessFrames [EncodeClientHello supportedHello] (?t, net\<lparr>net_receive := []\<rparr>)
      = (?t\<lparr>tl_Client := Some (?p\<lparr>pe_decoder := d, pe_writer := w, pe_handshakeAccepted := True\<rparr>), tl_State := TransportState.Connected,
          tl_Diagnostic := []\<rparr>, net\<lparr>net_receive := []\<rparr>)"
    using hello_processed [of ?t "?p\<lparr>pe_decoder := d\<rparr>" "net\<lparr>net_receive := []\<rparr>"]
    by (auto simp: setDecoder_def newPeer_def)
  let ?q = "?p\<lparr>pe_decoder := d, pe_writer := w, pe_handshakeAccepted := True\<rparr>"
  let ?u = "t\<lparr>tl_Client := Some ?q, tl_State := TransportState.Connected, tl_Diagnostic := []\<rparr>"
  have later: "ReceiveClientLoop n (?u, net\<lparr>net_receive := []\<rparr>) = (?u, net\<lparr>net_receive := []\<rparr>)" for n
    by (rule receives_nothing [of _ ?q]) (simp_all add: newPeer_def)
  have new: "pe_decoder ?p = newFrameDecoder" "\<not> pe_closeAfterWrite ?p" by (simp_all add: newPeer_def)
  have "ReceiveClientLoop 0 (t, net) = ReceiveClientLoop (length ?wire) (?u, net\<lparr>net_receive := []\<rparr>)"
    using size processed
    by (subst ReceiveClientLoop.simps)
      (simp add: Let_def assms(1) receive hello_received poll new MaximumIoBytesPerPoll_def setDecoder_def)
  then show ?thesis unfolding later using room by (intro exI [of _ ?q]) (simp add: newPeer_def)
qed

lemma connected_transport:
  "quiet connectedTransport \<and> tl_Pending (fst connectedTransport) = [] \<and> net_closed (snd connectedTransport) = []
   \<and> net_nextHandle (snd connectedTransport) = 2
   \<and> (\<exists>p. tl_Client (fst connectedTransport) = Some p \<and> pe_handshakeAccepted p \<and> \<not> pe_closeAfterWrite p \<and> roomy (pe_writer p))
   \<and> fst (TcpPollResults (projr (fst (newTcpLuaTransport callingNetwork)), snd (newTcpLuaTransport callingNetwork))) = []"
proof -
  let ?t = "\<lparr>tl_Listener = Some 0, tl_Client = Some (newPeer (Some 1)), tl_ClosingPeers = [], tl_Pending = [],
      tl_Results = [], tl_State = Listening, tl_Port = 30125, tl_Diagnostic = []\<rparr>"
  let ?net = "callingNetwork\<lparr>net_nextHandle := 2, net_accept := []\<rparr>"
  have accepted: "AcceptClients (?t\<lparr>tl_Client := None\<rparr>, callingNetwork\<lparr>net_nextHandle := 1\<rparr>) = (?t, ?net)"
    by (simp add: AcceptClients_def MaximumAcceptsPerPoll_def numeral_eq_Suc callingNetwork_def SocketAccept_def IsOpen_def Let_def
        accepts_nothing del: AcceptClientsLoop.simps(1))
  obtain p where p: "ReceiveClientLoop 0 (?t, ?net) = (?t\<lparr>tl_Client := Some p, tl_State := TransportState.Connected, tl_Diagnostic := []\<rparr>,
      ?net\<lparr>net_receive := []\<rparr>)" "pe_socket p = Some 1" "\<not> pe_closeAfterWrite p"
      "pe_handshakeAccepted p" "roomy (pe_writer p)"
    using receives_hello [of ?t 1 ?net] by (auto simp: callingNetwork_def)
  let ?u = "?t\<lparr>tl_Client := Some p, tl_State := TransportState.Connected, tl_Diagnostic := []\<rparr>"
  have "FlushClient (?u, ?net\<lparr>net_receive := []\<rparr>) = (?u, ?net\<lparr>net_receive := []\<rparr>)"
    using p by (intro sends_nothing [of _ p]) (simp_all add: callingNetwork_def)
  then have poll: "TcpPollResults (?t\<lparr>tl_Client := None\<rparr>, callingNetwork\<lparr>net_nextHandle := 1\<rparr>) = ([], ?u, ?net\<lparr>net_receive := []\<rparr>)"
    using accepted p(1) by (simp add: TcpPollResults_def FlushClosingPeers_def ReceiveClient_def)
  then have now: "connectedTransport = (?u, ?net\<lparr>net_receive := []\<rparr>)" by (simp add: connectedTransport_def calling_network)
  show ?thesis unfolding quiet_def now using p(2-5) poll by (simp add: calling_network) (simp add: callingNetwork_def exampleNetwork_def)
qed

lemmas first_poll = connected_transport [THEN conjunct2, THEN conjunct2, THEN conjunct2, THEN conjunct2, THEN conjunct2]

lemma connected_quiet: "quiet connectedTransport"
  using connected_transport by blast

lemma connected_used: "tcp_used connectedTransport"
proof -
  let ?t = "projr (fst (newTcpLuaTransport callingNetwork))"
  have "newTcpLuaTransport callingNetwork = (Ok ?t, snd (newTcpLuaTransport callingNetwork))" by (simp add: calling_network)
  then have "tcp_used (?t, snd (newTcpLuaTransport callingNetwork))"
    by (rule tcp_used.created) (simp add: callingNetwork_def exampleNetwork_def)
  from tcp_used.polled [OF this] show ?thesis by (simp add: connectedTransport_def case_prod_unfold)
qed

lemma connected_submit:
  assumes "ValidateMemoryRequest r = MsOk" and "mr_operation r = Read" and "unat (mr_readSize r) \<le> 1000"
  shows "\<exists>u. TcpSubmit r connectedTransport = (True, u)"
proof -
  obtain p where p: "tl_Client (fst connectedTransport) = Some p" "pe_handshakeAccepted p" "\<not> pe_closeAfterWrite p"
      "roomy (pe_writer p)" and t: "tl_Pending (fst connectedTransport) = []" "tl_State (fst connectedTransport) = TransportState.Connected"
    using connected_transport by (auto simp: quiet_def)
  obtain K where "tcp_inv (fst connectedTransport, snd connectedTransport) K" using tcp_used_inv [OF connected_used] by auto
  then have inv: "writer_inv (pe_writer p)" using tcp_inv_client(2) p(1) by blast
  let ?f = "EncodeReadRequest (mr_id r) \<lparr>rrAddress = mr_address r, rrSize = mr_readSize r\<rparr>"
  have "mr_id r \<noteq> 0" using assms(1) by (auto simp: ValidateMemoryRequest_def)
  then have "valid_frame ?f" "length (payload ?f) = 8" by (simp_all add: EncodeReadRequest_def valid_frame_def)
  then have "\<exists>w. WriterQueue (pe_writer p) ?f = (Ok (), w)"
    using WriterQueue_cases [OF inv, of ?f] p(4) by (auto simp: roomy_def)
  moreover obtain t' net where tn: "connectedTransport = (t', net)" by fastforce
  ultimately show ?thesis
    using p t assms unfolding tn fst_conv
    by (auto simp: TcpSubmit_def PendingContains_def MaximumFrameBodyLength_def FrameBodyHeaderSize_def)
qed

theorem transport_sockets_witness:
  "tcp_used connectedTransport \<and> held_sockets (fst connectedTransport) = {#0, 1#}
    \<and> mset (net_closed (snd (TcpStop connectedTransport))) = mset [0..<net_nextHandle (snd (TcpStop connectedTransport))]
    \<and> held_sockets (fst (TcpStop connectedTransport)) = {#}"
proof -
  have "mset [0..<2] = {#0, 1#}" by (simp add: numeral_2_eq_2)
  then show ?thesis
    using transport_sockets [of "fst connectedTransport" "snd connectedTransport"] connected_used connected_transport by simp
qed

end
