(* ===== verification/SessionBridge.thy ===== *)
theory SessionBridge
  imports TcpExample
begin

text \<open>
  A \<^verbatim>\<open>GameSession\<close> on a \<^verbatim>\<open>TcpLuaTransport\<close>, as the application runs it: every sequence of reads,
  writes, polls and stops of the session, with completions that may call the session again in any way
  (scripts, nested to any depth), and with a network that behaves in any way between the calls.
\<close>

section \<open>Runs\<close>

type_synonym 'c BridgeWorld = "('c, Tcp) SessionWorld"

definition withNetwork :: "Network \<Rightarrow> 'c BridgeWorld \<Rightarrow> 'c BridgeWorld" where
  "withNetwork net W = W\<lparr>sw_transport := (fst (sw_transport W), net)\<rparr>"

inductive session_run :: "('c, Tcp) Callback \<Rightarrow> 'c BridgeWorld \<Rightarrow> bool" for run :: "('c, Tcp) Callback" where
  start: "newTcpLuaTransport net0 = (Ok t, net) \<Longrightarrow> net_closed net0 = [] \<Longrightarrow>
    newGameSession (Some (t, net)) = Ok W \<Longrightarrow> session_run run W"
| submit_read: "session_run run W \<Longrightarrow> session_run run (snd (SessionRead tcp_ops run address sz completion W))"
| submit_write: "session_run run W \<Longrightarrow> session_run run (snd (SessionWrite tcp_ops run address bs completion W))"
| poll: "session_run run W \<Longrightarrow> session_run run (SessionPoll tcp_ops run W)"
| stop: "session_run run W \<Longrightarrow> session_run run (SessionStop rank run W)"
| transport_stop: "session_run run W \<Longrightarrow> session_run run (W\<lparr>sw_transport := TcpStop (sw_transport W)\<rparr>)"
| network: "session_run run W \<Longrightarrow> same_handles (snd (sw_transport W)) net \<Longrightarrow> session_run run (withNetwork net W)"

lemma session_inv_start:
  assumes "newTcpLuaTransport net0 = (Ok t, net)" "net_closed net0 = []" "newGameSession (Some (t, net)) = Ok W"
  shows "session_inv tcp_inv {#} {#} W"
  using tcp_inv_new [OF assms(1,2)] assms(3) by (auto simp: newGameSession_def session_inv_def)

lemma session_inv_transport:
  "session_inv tcp_inv R D W \<Longrightarrow> (\<And>K. tcp_inv (sw_transport W) K \<Longrightarrow> tcp_inv tn K) \<Longrightarrow>
   session_inv tcp_inv R D (W\<lparr>sw_transport := tn\<rparr>)"
  by (auto simp: session_inv_def)

lemma session_run_inv:
  assumes run: "handler_ok tcp_inv run"
  shows "session_run run W \<Longrightarrow> session_inv tcp_inv {#} {#} W"
proof (induction rule: session_run.induct)
  case (start net0 t net W)
  then show ?case by (rule session_inv_start)
next
  case (submit_read W address sz completion)
  then show ?case unfolding SessionRead_def by (intro tcp.submit_inv_session [OF run])
next
  case (submit_write W address bs completion)
  then show ?case unfolding SessionWrite_def by (intro tcp.submit_inv_session [OF run])
next
  case (poll W)
  then show ?case by (intro tcp.poll_inv_session [OF run])
next
  case (stop W rank)
  then show ?case by (intro tcp.stop_inv_session [OF run])
next
  case (transport_stop W)
  then show ?case by (intro session_inv_transport TcpStop_inv)
next
  case (network W net)
  obtain t net0 where tn: "sw_transport W = (t, net0)" by fastforce
  with network.hyps(2) have "tcp_inv (sw_transport W) K \<Longrightarrow> tcp_inv (t, net) K" for K
    using tcp_inv_net [of t net0 K net] by simp
  then show ?case unfolding withNetwork_def tn fst_conv
    by (intro session_inv_transport [OF network.IH]) (simp add: tn)
qed

text \<open>Scripts of session calls keep the invariant, at every moment inside an operation.\<close>

interpretation bridge: session_invariant tcp_ops "\<lambda>(R, D). session_inv tcp_inv R D"
proof
  fix i :: "request_key multiset \<times> (u32 \<times> 'c) multiset" and run :: "('c, Tcp) Callback" and W request completion rank
  assume run: "\<And>i c r W. (case i of (R, D) \<Rightarrow> session_inv tcp_inv R D) W \<Longrightarrow> (case i of (R, D) \<Rightarrow> session_inv tcp_inv R D) (run c r W)"
    and inv: "(case i of (R, D) \<Rightarrow> session_inv tcp_inv R D) W"
  obtain R D where i: "i = (R, D)" by (cases i)
  have ok: "handler_ok tcp_inv run" unfolding handler_ok_def using run [of "(_, _)"] by simp
  have "session_inv tcp_inv R D W" using inv by (simp add: i)
  then show "(case i of (R, D) \<Rightarrow> session_inv tcp_inv R D) (snd (SessionSubmit tcp_ops run request completion W))"
    "(case i of (R, D) \<Rightarrow> session_inv tcp_inv R D) (SessionPoll tcp_ops run W)"
    "(case i of (R, D) \<Rightarrow> session_inv tcp_inv R D) (SessionStop rank run W)"
    by (simp_all add: i tcp.submit_inv_session [OF ok] tcp.poll_inv_session [OF ok] tcp.stop_inv_session [OF ok])
qed

lemma scripts_ok: "handler_ok tcp_inv (runScripts tcp_ops (program :: ('c, Tcp) Completions) n)"
  unfolding handler_ok_def
proof (intro allI impI)
  fix c r and W :: "('c, Tcp) SessionWorld" and R D
  assume "session_inv tcp_inv R D W"
  then show "session_inv tcp_inv R D (runScripts tcp_ops program n c r W)"
    using bridge.scripts_hold [of "(R, D)" W program n c r] by simp
qed

text \<open>
  A session on the transport to which a client connects. A first read is refused at once, for its
  address; its completion reads again, which the transport accepts; then the session is stopped, and
  the completion of the second read tries to read once more.
\<close>

definition callingSession :: "u32 BridgeWorld" where
  "callingSession = projr (newGameSession (Some (case newTcpLuaTransport callingNetwork of (r, net) \<Rightarrow> (projr r, net))))"

definition servedSession :: "u32 BridgeWorld" where
  "servedSession = snd (SessionRead tcp_ops (runScripts tcp_ops readAgain 2) 0 4 (Some 7)
     (SessionPoll tcp_ops (runScripts tcp_ops readAgain 2) callingSession))"

lemma callingSession_run: "session_run run callingSession"
proof -
  obtain t net where t: "newTcpLuaTransport callingNetwork = (Ok t, net)" by (simp add: calling_network)
  moreover have "net_closed callingNetwork = []" by (simp add: callingNetwork_def exampleNetwork_def)
  moreover have "newGameSession (Some (t, net)) = Ok callingSession"
    by (simp add: callingSession_def t newGameSession_def)
  ultimately show ?thesis by (rule session_run.start)
qed

lemma servedSession_run: "session_run (runScripts tcp_ops readAgain 2) servedSession"
  unfolding servedSession_def by (intro session_run.submit_read session_run.poll callingSession_run)

lemma callingSession_polled:
  "SessionPoll tcp_ops run callingSession = \<lparr>sw_session = \<lparr>gs_Pending = [], gs_NextRequestId = 1, gs_ProtocolErrorCount = 0,
      gs_Stopped = False\<rparr>, sw_transport = connectedTransport, sw_events = []\<rparr>"
proof -
  obtain r net where new: "newTcpLuaTransport callingNetwork = (r, net)" by fastforce
  then have "snd (TcpPollResults (projr r, net)) = connectedTransport" by (simp add: connectedTransport_def)
  moreover have "fst (TcpPollResults (projr r, net)) = []" using first_poll new by simp
  ultimately have "TcpPollResults (projr r, net) = ([], connectedTransport)" by (metis prod.collapse)
  then show ?thesis by (simp add: SessionPoll_def callingSession_def newGameSession_def tcp_ops_def new)
qed

lemma servedSession_eq:
  "sw_session servedSession = \<lparr>gs_Pending = [(2, \<lparr>sp_operation = Read, sp_expectedSize = 4, sp_completion = 11\<rparr>)],
      gs_NextRequestId = 3, gs_ProtocolErrorCount = 0, gs_Stopped = False\<rparr>
   \<and> sw_events servedSession = [EvRefused 7 \<lparr>res_id = 1, res_status = MsInvalidAddress, res_data = []\<rparr>, EvAccepted 2 Read 4 11]"
proof -
  have refused: "ValidateMemoryRequest \<lparr>mr_id = 1, mr_operation = Read, mr_address = 0, mr_data = [], mr_readSize = 4\<rparr> = MsInvalidAddress"
    by (simp add: ValidateMemoryRequest_def IsRangeAllowed_readable gba_regions_def MaximumMemoryPayloadSize_def)
  have valid: "ValidateMemoryRequest \<lparr>mr_id = 2, mr_operation = Read, mr_address = 0x02000007, mr_data = [], mr_readSize = 4\<rparr> = MsOk"
    by (simp add: ValidateMemoryRequest_def IsRangeAllowed_readable gba_regions_def MaximumMemoryPayloadSize_def)
  then obtain u where u: "TcpSubmit \<lparr>mr_id = 2, mr_operation = Read, mr_address = 0x02000007, mr_data = [], mr_readSize = 4\<rparr>
      connectedTransport = (True, u)" using connected_submit by force
  have ops: "tSubmit tcp_ops = TcpSubmit" "tState tcp_ops connectedTransport = TransportState.Connected"
    using connected_quiet by (simp_all add: tcp_ops_def quiet_def)
  have two: "runScripts tcp_ops readAgain 2 = (\<lambda>c r W. runScript tcp_ops (runScripts tcp_ops readAgain 1) (readAgain c r W) W)"
    by (simp add: numeral_2_eq_2)
  show ?thesis
    unfolding servedSession_def callingSession_polled two
    by (simp add: SessionRead_def SessionSubmit_def CanSubmit_def ops
        MaximumOutstandingMemoryRequests_def AllocateRequestId_def AllocateLoop_here PendingContains_def IncrementRequestId_def
        Let_def refused valid u readAgain_def)
qed

section \<open>Properties\<close>

text \<open>
  C3. Every accepted request completes exactly once: in every run of a session on the TCP transport,
  whatever the network does, and whatever calls of the session the completions make (any script of
  reads, writes, polls and stops for each, with completions inside completions to any depth \<open>n\<close>), the
  completions that were called (per request ID) and the ones still waiting are together exactly those
  of the accepted requests; at most 256 wait, under different IDs; and once the session has stopped
  none waits, so each accepted request has had its completion called once.
\<close>

theorem session_completes_once:
  assumes "session_run (runScripts tcp_ops program n) W"
  shows "accepted_callbacks (sw_events W)
      = completed_callbacks (sw_events W) + mset (map (\<lambda>(rid, p). (rid, sp_completion p)) (gs_Pending (sw_session W)))
    \<and> distinct (map fst (gs_Pending (sw_session W))) \<and> length (gs_Pending (sw_session W)) \<le> 256
    \<and> (gs_Stopped (sw_session W) \<longrightarrow> accepted_callbacks (sw_events W) = completed_callbacks (sw_events W))"
proof -
  have inv: "session_inv tcp_inv {#} {#} W" using session_run_inv [OF scripts_ok assms] .
  have callback: "(\<lambda>(rid, p). (rid, sp_completion p)) = pending_callback" by (auto simp: pending_callback_def)
  show ?thesis unfolding callback using inv by (auto simp: session_inv_def)
qed

theorem session_completes_once_witness:
  "\<exists>W. session_run (runScripts tcp_ops readAgain 2) W \<and> gs_Stopped (sw_session W)
    \<and> accepted_callbacks (sw_events W) = {#(2, 11)#} \<and> completed_callbacks (sw_events W) = {#(2, 11)#}"
proof -
  let ?run = "runScripts tcp_ops readAgain 2" and ?W = "SessionStop unat (runScripts tcp_ops readAgain 2) servedSession"
  have run: "session_run ?run ?W" by (intro session_run.stop servedSession_run)
  have "gs_Stopped (sw_session ?W)" "accepted_callbacks (sw_events ?W) = {#(2, 11)#}"
    by (simp_all add: servedSession_eq SessionStop_def Let_def invoke_def numeral_2_eq_2 readAgain_def SessionRead_def SessionSubmit_def CanSubmit_def)
  moreover from this session_completes_once [OF run] have "completed_callbacks (sw_events ?W) = {#(2, 11)#}" by metis
  ultimately show ?thesis using run by (intro exI [of _ ?W] conjI)
qed

text \<open>
  The session and the transport agree: in every run, as long as the session has not stopped, the
  requests in the session's table are exactly those the transport owes an answer for, and the
  session has counted no protocol error.
\<close>

theorem session_transport_agree:
  assumes "session_run (runScripts tcp_ops program n) W" and "\<not> gs_Stopped (sw_session W)"
  shows "tcp_inv (sw_transport W) (mset (map (\<lambda>(rid, p). (rid, sp_operation p, sp_expectedSize p)) (gs_Pending (sw_session W))))
    \<and> gs_ProtocolErrorCount (sw_session W) = 0"
proof -
  have inv: "session_inv tcp_inv {#} {#} W" using session_run_inv [OF scripts_ok assms(1)] .
  have key: "(\<lambda>(rid, p). (rid, sp_operation p, sp_expectedSize p)) = pending_key" by (auto simp: pending_key_def)
  show ?thesis unfolding key using inv assms(2) by (auto simp: session_inv_def)
qed

theorem session_transport_agree_witness:
  "tcp_inv (sw_transport servedSession) {#(2, Read, 4)#} \<and> gs_ProtocolErrorCount (sw_session servedSession) = 0"
  using session_transport_agree [OF servedSession_run] by (simp add: servedSession_eq)

end
