(* ===== verification/BridgeStream.thy ===== *)
theory BridgeStream
  imports FrameDecoder FrameWriter "HOL-Library.Sublist"
begin

text \<open>
  The two ends of a bridge connection together: frames queued on a \<open>FrameWriter\<close>, sent in whatever
  pieces the network takes, and received by a \<open>FrameDecoder\<close>.
\<close>

fun queueAll :: "FrameWriter \<Rightarrow> Frame list \<Rightarrow> FrameWriter option" where
  "queueAll w [] = Some w"
| "queueAll w (f # fs) = (case WriterQueue w f of (Inr _, w) \<Rightarrow> queueAll w fs | (Inl _, _) \<Rightarrow> None)"

lemma queueAll_unsent:
  "writer_inv w \<Longrightarrow> queueAll w fs = Some w' \<Longrightarrow>
   writer_inv w' \<and> list_all valid_frame fs \<and> unsent_stream w' = unsent_stream w @ concat (map frame_wire fs)
   \<and> length (fw_Frames w') = length (fw_Frames w) + length fs"
proof (induction fs arbitrary: w)
  case (Cons f fs)
  obtain r w1 where q: "WriterQueue w f = (r, w1)" by fastforce
  with Cons.prems(2) have r: "r = Ok ()" "queueAll w1 fs = Some w'" by (auto split: sum.splits)
  have inv1: "writer_inv w1" using writer_inv_Queue [OF Cons.prems(1), of f] q by simp
  have "valid_frame f \<and> unsent_stream w1 = unsent_stream w @ frame_wire f"
    using WriterQueue_unsent [OF Cons.prems(1)] q r by simp
  moreover have "length (fw_Frames w1) = Suc (length (fw_Frames w))"
    using q r WriterQueue_cases [OF Cons.prems(1), of f] by (auto split: if_splits)
  ultimately show ?case using Cons.IH [OF inv1 r(2)] by simp
qed simp

lemma feed_byte_frames: "\<exists>gs. fd_Frames (feed_byte d b) = fd_Frames d @ gs"
  by (auto simp: feed_byte_def Let_def ReadExpectedSize_def DecodeBufferedFrame_def split: sum.splits)

lemma feed_frames_prefix: "prefix (fd_Frames d) (fd_Frames (feed d xs))"
proof (induction xs arbitrary: d)
  case (Cons x xs)
  have "prefix (fd_Frames d) (fd_Frames (feed_byte d x))" using feed_byte_frames [of d x] by (auto simp: prefix_def)
  then show ?case using Cons [of "feed_byte d x"] by (simp add: prefix_order.trans)
qed simp

lemma sum_WireSize: "sum_list (map WireSize fs) = length (concat (map frame_wire fs))"
  by (induction fs) (simp_all add: WireSize_wire)

section \<open>Properties\<close>

text \<open>
  C8. Frames cross the bridge intact: when a sequence of frames was queued, then however the network
  cuts the stream into pieces and however much of it has been sent, the decoder at the other end
  has taken every byte without error and holds the first frames of the sequence, in order and
  unchanged; once all has been sent it holds exactly the sequence.
\<close>

theorem frames_cross_bridge:
  assumes "queueAll newFrameWriter fs = Some w" and "transmit PendingBytes ConsumeSent ks w = (out, w')"
  shows "fst (Append newFrameDecoder out) \<and> prefix (fd_Frames (snd (Append newFrameDecoder out))) fs
    \<and> (PendingBytes w' = [] \<longrightarrow> snd (Append newFrameDecoder out) = decoder_state fs [])"
proof -
  have new: "unsent_stream newFrameWriter = []" "fw_Frames newFrameWriter = []"
    by (simp_all add: unsent_stream_def newFrameWriter_def)
  have q: "writer_inv w" "list_all valid_frame fs" "unsent_stream w = concat (map frame_wire fs)"
      "length (fw_Frames w) = length fs"
    using queueAll_unsent [OF writer_inv_new assms(1)] new by simp_all
  have "fw_QueuedBytes w = length (unsent_stream w)" "fw_QueuedBytes w \<le> 4194304" "length (fw_Frames w) \<le> 256"
    using q(1) by (simp_all add: writer_inv_def)
  then have lim: "within_limits fs" using q by (simp add: within_limits_def sum_WireSize)
  have sent: "concat (map frame_wire fs) = out @ unsent_stream w'" "writer_inv w'"
    using writer.transmit_lossless [OF q(1) assms(2)] q(3) by simp_all
  have whole: "feed newFrameDecoder (out @ unsent_stream w') = decoder_state fs []"
    using feed_new [OF lim, of "[]"] sent(1) by (simp add: partial_frame_def)
  then have later: "feed (feed newFrameDecoder out) (unsent_stream w') = decoder_state fs []" by simp
  have ok: "fd_Error (feed newFrameDecoder out) = DeNone"
    using later feed_error by (metis decoder_state_def FrameDecoder.select_convs(5))
  have "prefix (fd_Frames (feed newFrameDecoder out)) fs"
    using feed_frames_prefix [of "feed newFrameDecoder out" "unsent_stream w'"] later
    by (simp add: decoder_state_def)
  moreover have "PendingBytes w' = [] \<Longrightarrow> feed newFrameDecoder out = decoder_state fs []"
    using later writer.nothing_left [OF sent(2)] by simp
  ultimately show ?thesis using ok by (simp add: Append_feed)
qed

theorem frames_cross_bridge_witness:
  "\<exists>w. queueAll newFrameWriter [EncodeClose] = Some w
    \<and> fst (Append newFrameDecoder (fst (transmit PendingBytes ConsumeSent [3, 7] w)))"
proof -
  have "valid_frame EncodeClose" "length (frame_wire EncodeClose) = 12"
    by (simp_all add: EncodeClose_def valid_frame_def)
  then obtain w where "queueAll newFrameWriter [EncodeClose] = Some w"
    by (simp add: WriterQueue_cases QueuedByteCount_def newFrameWriter_def
        writer_inv_new [unfolded newFrameWriter_def] del: length_frame_wire)
  then show ?thesis
    using frames_cross_bridge [of "[EncodeClose]" w "[3, 7]"] by (metis prod.collapse)
qed

end
