(* ===== verification/Cursor.thy ===== *)
theory Cursor
  imports Endian "HOL-Library.Monad_Syntax"
begin

text \<open>
  Reading a byte span field by field. The file decoder and the hello decoder each define the same
  \<^verbatim>\<open>ReadLittle(input, position, value)\<close>, which reads at \<^verbatim>\<open>position\<close> and steps past the field, and
  the file decoder a \<^verbatim>\<open>ReadBytes\<close>. A reader gives the value and the new position, or nothing when
  the field does not fit; a chain of them is the short-circuit \<^verbatim>\<open>||\<close> chain of the code.
\<close>

definition ReadNext :: "bytes \<Rightarrow> nat \<Rightarrow> ('a::len word \<times> nat) option" where
  "ReadNext input position =
     (let (ok, v) = ReadLittle input position
      in if ok then Some (v, position + sizeof TYPE('a)) else None)"

definition ReadBytes :: "bytes \<Rightarrow> nat \<Rightarrow> nat \<Rightarrow> (bytes \<times> nat) option" where
  "ReadBytes input position n =
     (if position > length input \<or> n > length input - position then None
      else Some (map (\<lambda>index. input ! (position + index)) [0..<n], position + n))"

lemma ReadNext_fits:
  "position + sizeof TYPE('a::len) \<le> length input \<Longrightarrow>
   ReadNext input position = Some (snd (ReadLittle input position) :: 'a word, position + sizeof TYPE('a))"
  using ReadLittle_fst [of input position, where 'a = 'a]
  by (simp add: ReadNext_def split: prod.split) auto

lemma ReadNext_Some:
  assumes "ReadNext input position = Some (v :: 'a::len word, p)" and "8 dvd LENGTH('a)"
  shows "p = position + sizeof TYPE('a) \<and> p \<le> length input \<and> drop position input = le_bytes v @ drop p input"
proof -
  from assms(1) have read: "ReadLittle input position = (True, v)" and p: "p = position + sizeof TYPE('a)"
    by (auto simp: ReadNext_def split: prod.splits if_splits)
  have "position + sizeof TYPE('a) \<le> length input"
    using read ReadLittle_fst [of input position, where 'a = 'a] by simp
  then show ?thesis
    using drop_ReadLittle [OF assms(2), of position input] read p by simp
qed

lemma ReadNext_append:
  assumes "8 dvd LENGTH('a)" and "length pre = position"
  shows "ReadNext (pre @ le_bytes (v :: 'a::len word) @ post) position = Some (v, position + sizeof TYPE('a))"
  using assms ReadLittle_append_skip [of pre position "le_bytes v @ post", where 'a = 'a]
  by (simp add: ReadNext_def ReadLittle_le_bytes)

lemma ReadBytes_eq:
  "ReadBytes input position n =
     (if position + n \<le> length input then Some (take n (drop position input), position + n) else None)"
proof (cases "position + n \<le> length input")
  case True
  then have "map (\<lambda>index. input ! (position + index)) [0..<n] = take n (drop position input)"
    by (intro nth_equalityI) simp_all
  with True show ?thesis by (auto simp: ReadBytes_def)
qed (auto simp: ReadBytes_def)

lemma ReadBytes_Some:
  "ReadBytes input position n = Some (bs, p) \<Longrightarrow>
   p = position + n \<and> p \<le> length input \<and> length bs = n \<and> drop position input = bs @ drop p input"
  using append_take_drop_id [of n "drop position input"] by (auto simp: ReadBytes_eq add.commute split: if_splits)

lemma ReadBytes_append:
  "length pre = position \<Longrightarrow> ReadBytes (pre @ bs @ post) position (length bs) = Some (bs, position + length bs)"
  by (simp add: ReadBytes_eq)

lemmas ReadNext_u32 = ReadNext_Some [where 'a = 32, simplified]

end
