(* ===== verification/MultiplayerProtocol.thy ===== *)
theory MultiplayerProtocol
  imports Cursor Codec
begin

text \<open>
  The hello of the multiplayer protocol and the compatibility check of two games:
  \<^verbatim>\<open>RogueAssistantCpp/Src/Multiplayer/MultiplayerProtocol.cpp\<close>, its header and
  \<^verbatim>\<open>Inc/RomCompatibility.h\<close>. The pair of functions is a \<open>partial_codec\<close>, and
  the compatibility check is compared with a one-line specification.
\<close>

section \<open>Constants and data\<close>

definition MpProtocolMajor :: u16 where "MpProtocolMajor = 1"
definition MpProtocolMinor :: u16 where "MpProtocolMinor = 0"
definition RequiredAssistantApi :: u32 where "RequiredAssistantApi = 3"
definition RequiredRomAssistantApi :: u32 where "RequiredRomAssistantApi = RequiredAssistantApi"
definition VanillaEdition :: u8 where "VanillaEdition = 0"
definition ExEdition :: u8 where "ExEdition = 1"
definition HelloSize :: nat where "HelloSize = 40"

definition IsSupportedEdition :: "u8 \<Rightarrow> bool" where
  "IsSupportedEdition ed \<longleftrightarrow> ed = VanillaEdition \<or> ed = ExEdition"

record Hello =
  protocolMajor :: u16
  protocolMinor :: u16
  romAssistantApi :: u32
  edition :: u8
  playerCount :: u32
  multiplayerStateSize :: u32
  handshakeSize :: u32
  gameStateSize :: u32
  playerProfileSize :: u32
  playerStateSize :: u32

definition defaultHello :: Hello where
  "defaultHello = \<lparr>protocolMajor = MpProtocolMajor, protocolMinor = MpProtocolMinor,
     romAssistantApi = RequiredRomAssistantApi, edition = 0, playerCount = 0, multiplayerStateSize = 0,
     handshakeSize = 0, gameStateSize = 0, playerProfileSize = 0, playerStateSize = 0\<rparr>"

record CompatibilityResult =
  compatible :: bool
  negotiatedMinor :: u16
  compatibilityError :: string

definition HelloMagic :: bytes where
  "HelloMagic = map byte_of_char ''RAMP''"

section \<open>Operations\<close>

definition ValidateHello :: "Hello \<Rightarrow> unit result" where
  "ValidateHello hello =
     (if protocolMajor hello = 0 then Err ''multiplayer protocol major must not be zero''
      else if romAssistantApi hello \<noteq> RequiredRomAssistantApi
        then Err ''multiplayer requires ROM Assistant API 3''
      else if \<not> IsSupportedEdition (edition hello)
        then Err ''multiplayer ROM edition is neither Vanilla nor EX''
      else if playerCount hello = 0 \<or> playerCount hello > 255 \<or> multiplayerStateSize hello = 0
           \<or> handshakeSize hello = 0 \<or> gameStateSize hello = 0 \<or> playerProfileSize hello = 0
           \<or> playerStateSize hello = 0
        then Err ''multiplayer player count or structure size is invalid''
      else Ok ())"

text \<open>
  The last statement of \<^verbatim>\<open>EncodeHello\<close> returns whether the size came out right, without an error
  text.
\<close>

definition EncodeHello :: "Hello \<Rightarrow> bytes result" where
  "EncodeHello hello = andThen (ValidateHello hello) (\<lambda>_.
     let encoded = HelloMagic;
         encoded = AppendLittle encoded (protocolMajor hello);
         encoded = AppendLittle encoded (protocolMinor hello);
         encoded = AppendLittle encoded (romAssistantApi hello);
         encoded = encoded @ [edition hello];
         encoded = encoded @ replicate 3 0;
         encoded = AppendLittle encoded (playerCount hello);
         encoded = AppendLittle encoded (multiplayerStateSize hello);
         encoded = AppendLittle encoded (handshakeSize hello);
         encoded = AppendLittle encoded (gameStateSize hello);
         encoded = AppendLittle encoded (playerProfileSize hello);
         encoded = AppendLittle encoded (playerStateSize hello)
     in if length encoded = HelloSize then Ok encoded else Err '''')"

text \<open>The loop over the three reserved bytes: their bitwise or, or nothing past the end.\<close>

fun ReadReserved :: "nat \<Rightarrow> bytes \<Rightarrow> nat \<Rightarrow> u8 \<Rightarrow> (u8 \<times> nat) option" where
  "ReadReserved 0 encoded position reserved = Some (reserved, position)"
| "ReadReserved (Suc n) encoded position reserved =
     (if position \<ge> length encoded then None
      else ReadReserved n encoded (position + 1) (reserved OR encoded ! position))"

definition DecodeHello :: "bytes \<Rightarrow> Hello result" where
  "DecodeHello encoded =
     (if length encoded \<noteq> HelloSize then Err ''multiplayer hello has an invalid size''
      else if take (length HelloMagic) encoded \<noteq> HelloMagic
        then Err ''multiplayer hello has invalid RAMP magic''
      else case do { (major, position) \<leftarrow> ReadNext encoded (length HelloMagic);
                     (minor, position) \<leftarrow> ReadNext encoded position;
                     (api, position) \<leftarrow> ReadNext encoded position;
                     (if position \<ge> length encoded then None else Some (major, minor, api, position)) } of
        None \<Rightarrow> Err ''multiplayer hello is truncated''
      | Some (major, minor, api, position) \<Rightarrow>
          (let ed = encoded ! position in
           case ReadReserved 3 encoded (position + 1) 0 of
             None \<Rightarrow> Err ''multiplayer hello is truncated''
           | Some (reserved, position') \<Rightarrow>
               if reserved \<noteq> 0 then Err ''multiplayer hello reserved fields are nonzero''
               else case do { (players, position) \<leftarrow> ReadNext encoded position';
                              (state, position) \<leftarrow> ReadNext encoded position;
                              (handshake, position) \<leftarrow> ReadNext encoded position;
                              (game, position) \<leftarrow> ReadNext encoded position;
                              (profile, position) \<leftarrow> ReadNext encoded position;
                              (player, position) \<leftarrow> ReadNext encoded position;
                              (if position \<noteq> length encoded then None
                               else Some \<lparr>protocolMajor = major, protocolMinor = minor,
                                 romAssistantApi = api, edition = ed,
                                 playerCount = players, multiplayerStateSize = state,
                                 handshakeSize = handshake, gameStateSize = game,
                                 playerProfileSize = profile, playerStateSize = player\<rparr>) } of
                 None \<Rightarrow> Err ''multiplayer hello is truncated''
               | Some decoded \<Rightarrow> andThen (ValidateHello decoded) (\<lambda>_. Ok decoded)))"

definition CheckCompatibility :: "Hello \<Rightarrow> Hello \<Rightarrow> CompatibilityResult" where
  "CheckCompatibility local remote =
     (let failed = (\<lambda>message. \<lparr>compatible = False, negotiatedMinor = 0, compatibilityError = message\<rparr>) in
      if \<not> is_ok (ValidateHello local) then failed ''The local multiplayer data is invalid.''
      else if \<not> is_ok (ValidateHello remote) then
        (if romAssistantApi remote \<noteq> RequiredRomAssistantApi
           then failed (''The other game version'' @ [CHR 0x0A] @ ''is not supported.'')
         else if \<not> IsSupportedEdition (edition remote)
           then failed ''The other player uses a different ROM edition.''
         else failed ''The other player sent invalid multiplayer data.'')
      else if protocolMajor local \<noteq> protocolMajor remote
        then failed (''Use the same assistant version'' @ [CHR 0x0A] @ ''on both computers.'')
      else if romAssistantApi local \<noteq> romAssistantApi remote
        then failed (''The other game version'' @ [CHR 0x0A] @ ''is not supported.'')
      else if edition local \<noteq> edition remote
        then failed ''The other player uses a different ROM edition.''
      else if playerCount local \<noteq> playerCount remote
        then failed ''The games support different numbers of players.''
      else if multiplayerStateSize local \<noteq> multiplayerStateSize remote
           \<or> handshakeSize local \<noteq> handshakeSize remote \<or> gameStateSize local \<noteq> gameStateSize remote
           \<or> playerProfileSize local \<noteq> playerProfileSize remote
           \<or> playerStateSize local \<noteq> playerStateSize remote
        then failed ''The game versions do not match.''
      else \<lparr>compatible = True,
            negotiatedMinor = min (protocolMinor local) (protocolMinor remote), compatibilityError = ''''\<rparr>)"

section \<open>The codec\<close>

definition valid_hello :: "Hello \<Rightarrow> bool" where
  "valid_hello h \<longleftrightarrow> protocolMajor h \<noteq> 0 \<and> romAssistantApi h = 3 \<and> edition h \<in> {0, 1}
     \<and> playerCount h \<in> {1..255} \<and> multiplayerStateSize h \<noteq> 0 \<and> handshakeSize h \<noteq> 0
     \<and> gameStateSize h \<noteq> 0 \<and> playerProfileSize h \<noteq> 0 \<and> playerStateSize h \<noteq> 0"

lemma word_ge_1_iff: "(1 :: 'a::len word) \<le> x \<longleftrightarrow> x \<noteq> 0"
  by (metis word_less_1 linorder_not_le)

lemma ValidateHello_Ok [simp]: "ValidateHello h = Ok () \<longleftrightarrow> valid_hello h"
  by (auto simp: ValidateHello_def valid_hello_def RequiredRomAssistantApi_def RequiredAssistantApi_def
      IsSupportedEdition_def VanillaEdition_def ExEdition_def word_ge_1_iff not_less)

lemma is_ok_ValidateHello: "is_ok (ValidateHello h) \<longleftrightarrow> valid_hello h"
  using ValidateHello_Ok [of h] by (auto simp: is_ok_iff)

definition hello_wire :: "Hello \<Rightarrow> bytes" where
  "hello_wire h = HelloMagic @ le_bytes (protocolMajor h) @ le_bytes (protocolMinor h)
     @ le_bytes (romAssistantApi h) @ [edition h, 0, 0, 0] @ le_bytes (playerCount h)
     @ le_bytes (multiplayerStateSize h) @ le_bytes (handshakeSize h) @ le_bytes (gameStateSize h)
     @ le_bytes (playerProfileSize h) @ le_bytes (playerStateSize h)"

lemma length_HelloMagic [simp]: "length HelloMagic = 4"
  by (simp add: HelloMagic_def)

lemma length_hello_wire [simp]: "length (hello_wire h) = 40"
  by (simp add: hello_wire_def)

lemma EncodeHello_Ok_iff: "EncodeHello h = Ok w \<longleftrightarrow> valid_hello h \<and> w = hello_wire h"
  by (auto simp: EncodeHello_def andThen_Ok_iff Let_def HelloSize_def hello_wire_def eval_nat_numeral)

lemma ReadNext_in:
  "position + 2 \<le> length bs \<Longrightarrow> ReadNext bs position = Some (snd (ReadLittle bs position) :: u16, position + 2)"
  "position + 4 \<le> length bs \<Longrightarrow> ReadNext bs position = Some (snd (ReadLittle bs position) :: u32, position + 4)"
  using ReadNext_fits [of position bs, where 'a = 16] ReadNext_fits [of position bs, where 'a = 32] by simp_all

lemma ReadReserved_3:
  "position + 3 \<le> length bs \<Longrightarrow> ReadReserved 3 bs position r
     = Some (((r OR bs ! position) OR bs ! (position + 1)) OR bs ! (position + 2), position + 3)"
  by (simp add: eval_nat_numeral)

text \<open>What the decoder reads from a span of the right size.\<close>

definition hello_fields :: "bytes \<Rightarrow> Hello" where
  "hello_fields bs = \<lparr>protocolMajor = snd (ReadLittle bs 4), protocolMinor = snd (ReadLittle bs 6),
     romAssistantApi = snd (ReadLittle bs 8), edition = bs ! 12, playerCount = snd (ReadLittle bs 16),
     multiplayerStateSize = snd (ReadLittle bs 20), handshakeSize = snd (ReadLittle bs 24),
     gameStateSize = snd (ReadLittle bs 28), playerProfileSize = snd (ReadLittle bs 32),
     playerStateSize = snd (ReadLittle bs 36)\<rparr>"

lemma DecodeHello_eq:
  assumes "length bs = 40" and "take 4 bs = HelloMagic"
  shows "DecodeHello bs =
    (if (bs ! 13 OR bs ! 14) OR bs ! 15 \<noteq> 0 then Err ''multiplayer hello reserved fields are nonzero''
     else andThen (ValidateHello (hello_fields bs)) (\<lambda>_. Ok (hello_fields bs)))"
  using assms by (simp add: DecodeHello_def HelloSize_def ReadNext_in ReadReserved_3 hello_fields_def Let_def)

lemma or_eq_0: "(a :: 'a::len word) OR b = 0 \<longleftrightarrow> a = 0 \<and> b = 0"
  by (metis or.right_neutral or.left_neutral word_bw_same(2) word_ao_absorbs(1) word_ao_absorbs(5) word_log_esimps(3))

lemma hello_wire_fields:
  assumes len: "length bs = 40" and magic: "take 4 bs = HelloMagic"
    and zero: "(bs ! 13 OR bs ! 14) OR bs ! 15 = 0"
  shows "hello_wire (hello_fields bs) = bs"
proof -
  have "bs = HelloMagic @ drop 4 bs" by (metis magic append_take_drop_id)
  also have "drop 4 bs = le_bytes (protocolMajor (hello_fields bs)) @ le_bytes (protocolMinor (hello_fields bs))
      @ le_bytes (romAssistantApi (hello_fields bs)) @ drop 12 bs"
    using drop_ReadLittle_u16 [of 4 bs] drop_ReadLittle_u16 [of 6 bs] drop_ReadLittle_u32 [of 8 bs] len
    by (simp add: hello_fields_def)
  also have "drop 12 bs = [bs ! 12, bs ! 13, bs ! 14, bs ! 15] @ drop 16 bs"
    using len Cons_nth_drop_Suc [of 12 bs] Cons_nth_drop_Suc [of 13 bs] Cons_nth_drop_Suc [of 14 bs]
      Cons_nth_drop_Suc [of 15 bs] by simp
  also have "\<dots> = [edition (hello_fields bs), 0, 0, 0] @ drop 16 bs"
    using zero by (simp add: or_eq_0 hello_fields_def)
  also have "drop 16 bs = le_bytes (playerCount (hello_fields bs)) @ le_bytes (multiplayerStateSize (hello_fields bs))
      @ le_bytes (handshakeSize (hello_fields bs)) @ le_bytes (gameStateSize (hello_fields bs))
      @ le_bytes (playerProfileSize (hello_fields bs)) @ le_bytes (playerStateSize (hello_fields bs))"
    using drop_ReadLittle_u32 [of 16 bs] drop_ReadLittle_u32 [of 20 bs] drop_ReadLittle_u32 [of 24 bs]
      drop_ReadLittle_u32 [of 28 bs] drop_ReadLittle_u32 [of 32 bs] drop_ReadLittle_u32 [of 36 bs] len
    by (simp add: hello_fields_def)
  finally show ?thesis by (simp add: hello_wire_def)
qed

lemma hello_fields_wire: "hello_fields (hello_wire h) = h"
  by (simp add: hello_fields_def hello_wire_def codec_simps nth_append)

lemma DecodeHello_iff: "DecodeHello bs = Ok h \<longleftrightarrow> valid_hello h \<and> EncodeHello h = Ok bs"
proof
  assume dec: "DecodeHello bs = Ok h"
  then have len: "length bs = 40" and magic: "take 4 bs = HelloMagic"
    by (auto simp: DecodeHello_def HelloSize_def split: if_splits)
  from dec have "(bs ! 13 OR bs ! 14) OR bs ! 15 = 0" and "valid_hello h" and "h = hello_fields bs"
    by (auto simp: DecodeHello_eq [OF len magic] andThen_Ok_iff split: if_splits)
  then show "valid_hello h \<and> EncodeHello h = Ok bs"
    using hello_wire_fields [OF len magic] by (simp add: EncodeHello_Ok_iff)
next
  assume "valid_hello h \<and> EncodeHello h = Ok bs"
  then have bs: "bs = hello_wire h" and "valid_hello h" by (simp_all add: EncodeHello_Ok_iff)
  have "take 4 bs = HelloMagic" "bs ! 13 = 0" "bs ! 14 = 0" "bs ! 15 = 0"
    by (simp_all add: bs hello_wire_def nth_append)
  with \<open>valid_hello h\<close> show "DecodeHello bs = Ok h"
    by (simp add: DecodeHello_eq bs hello_fields_wire andThen_Ok_iff)
qed

interpretation hello: partial_codec EncodeHello DecodeHello valid_hello
  by unfold_locales (rule DecodeHello_iff)

text \<open>Two games can play together when they agree in everything but the minor version.\<close>

definition same_game :: "Hello \<Rightarrow> Hello \<Rightarrow> bool" where
  "same_game a b \<longleftrightarrow> a\<lparr>protocolMinor := 0\<rparr> = b\<lparr>protocolMinor := 0\<rparr>"

lemma same_game_iff:
  "same_game a b \<longleftrightarrow> protocolMajor a = protocolMajor b \<and> romAssistantApi a = romAssistantApi b
     \<and> edition a = edition b \<and> playerCount a = playerCount b
     \<and> multiplayerStateSize a = multiplayerStateSize b \<and> handshakeSize a = handshakeSize b
     \<and> gameStateSize a = gameStateSize b \<and> playerProfileSize a = playerProfileSize b
     \<and> playerStateSize a = playerStateSize b"
  by (cases a, cases b) (auto simp: same_game_def)

lemma CheckCompatibility_compatible:
  "compatible (CheckCompatibility a b) \<longleftrightarrow> valid_hello a \<and> valid_hello b \<and> same_game a b"
  by (auto simp: CheckCompatibility_def Let_def is_ok_ValidateHello same_game_iff)

lemma CheckCompatibility_minor:
  "negotiatedMinor (CheckCompatibility a b)
    = (if compatible (CheckCompatibility a b) then min (protocolMinor a) (protocolMinor b) else 0)"
  by (simp add: CheckCompatibility_def Let_def)

section \<open>Properties\<close>

text \<open>
  C21. The multiplayer hello is a faithful wire format: a span of bytes is accepted exactly when
  it is the encoding of a valid hello, and then gives that hello back. So the encoding of a valid
  hello decodes to it, no two hellos share an encoding, and every truncated, padded or otherwise
  damaged span is an error.
\<close>

theorem multiplayer_hello_codec:
  "(DecodeHello bs = Ok h \<longleftrightarrow> valid_hello h \<and> EncodeHello h = Ok bs)
   \<and> (is_ok (EncodeHello h) \<longleftrightarrow> valid_hello h)
   \<and> (is_ok (DecodeHello bs) \<longleftrightarrow> (\<exists>h. valid_hello h \<and> bs = hello_wire h))"
  using hello.accepts_iff [of bs] by (auto simp: hello.dec_iff is_ok_iff EncodeHello_Ok_iff)

text \<open>
  The compatibility check accepts exactly two valid hellos that agree in everything but the
  minor version, its answer does not depend on which side asks, the negotiated minor version is
  the smaller of the two, and a refusal always comes with a message.
\<close>

theorem compatibility_symmetric:
  "(compatible (CheckCompatibility a b) \<longleftrightarrow> valid_hello a \<and> valid_hello b \<and> same_game a b)
   \<and> compatible (CheckCompatibility a b) = compatible (CheckCompatibility b a)
   \<and> negotiatedMinor (CheckCompatibility a b) = negotiatedMinor (CheckCompatibility b a)
   \<and> (compatible (CheckCompatibility a b) = (compatibilityError (CheckCompatibility a b) = ''''))
   \<and> negotiatedMinor (CheckCompatibility a b) \<le> protocolMinor a"
proof -
  have "same_game a b = same_game b a" by (auto simp: same_game_def)
  moreover have "compatible (CheckCompatibility a b) = (compatibilityError (CheckCompatibility a b) = '''')"
    by (simp add: CheckCompatibility_def Let_def)
  ultimately show ?thesis
    by (auto simp: CheckCompatibility_compatible CheckCompatibility_minor min.commute)
qed

end
