(* ===== verification/HomeBoxFormat.thy ===== *)
theory HomeBoxFormat
  imports Cursor Codec MultiplayerProtocol "HOL-Library.Multiset"
begin

text \<open>
  The Home Box file format: the first part of \<^verbatim>\<open>RogueAssistantCpp/Src/Storage/HomeBoxFile.cpp\<close>
  and \<^verbatim>\<open>Inc/Storage/HomeBoxFile.h\<close>. The size computations keep the overflow checks of the code,
  the encoder its table of record pointers, and the decoder its running position.
\<close>

section \<open>Constants and data\<close>

definition SupportedRomAssistantApi :: u32 where "SupportedRomAssistantApi = RequiredAssistantApi"
definition HomeBoxFormatVersion :: u32 where "HomeBoxFormatVersion = 0"
definition MaximumHomeBoxFileSize :: nat where "MaximumHomeBoxFileSize = 64 * 1024 * 1024"
definition MaximumHomeBoxRecordDataSize :: u32 where "MaximumHomeBoxRecordDataSize = 1024 * 1024 - 8"
definition MaximumHomeBoxRecordCount :: u32 where "MaximumHomeBoxRecordCount = 255"
definition MaximumHomeBoxStateSize :: u32 where "MaximumHomeBoxStateSize = 1024 * 1024 - 8"
definition HeaderMagic :: u32 where "HeaderMagic = 3497814"
definition FooterMagic :: u32 where "FooterMagic = 7893612"
definition HeaderSize :: nat where "HeaderSize = 20"
definition FooterSize :: nat where "FooterSize = 4"

record HomeBoxDimensions =
  hbRomAssistantApi :: u32
  hbEdition :: u8
  hbTrainerId :: u32
  remoteBoxCount :: u32
  metadataSize :: u32
  pokemonDataSize :: u32

record HomeBoxRecord =
  remoteBoxIndex :: u32
  metadata :: bytes
  pokemonData :: bytes

record HomeBoxData =
  dimensions :: HomeBoxDimensions
  records :: "HomeBoxRecord list"

record HomeBoxLayout =
  stateSize :: u32
  localBoxCount :: u32
  totalBoxCount :: u32
  minimalBoxOffset :: u32
  minimalBoxSize :: u32
  pokemonStoragePointerOffset :: u32
  pokemonBoxSize :: u32
  remoteIndexOrderOffset :: u32
  trainerIdOffset :: u32

section \<open>Sizes\<close>

text \<open>A checked operation gives nothing instead of leaving the range of \<^verbatim>\<open>std::size_t\<close>.\<close>

definition CheckedAdd :: "nat \<Rightarrow> nat \<Rightarrow> nat option" where
  "CheckedAdd left right = (if right > size_max - left then None else Some (left + right))"

definition CheckedMultiply :: "nat \<Rightarrow> nat \<Rightarrow> nat option" where
  "CheckedMultiply left right =
     (if left \<noteq> 0 \<and> right > size_max div left then None else Some (left * right))"

text \<open>
  The result and the value left in \<^verbatim>\<open>size\<close>, which starts as zero and keeps what was computed when
  a later step fails.
\<close>

definition CalculateFileSize :: "HomeBoxDimensions \<Rightarrow> bool \<times> nat" where
  "CalculateFileSize dims =
     (case do { recordSize \<leftarrow> CheckedAdd 4 (unat (metadataSize dims));
                CheckedAdd recordSize (unat (pokemonDataSize dims)) } of
        None \<Rightarrow> (False, 0)
      | Some recordSize \<Rightarrow> (case CheckedMultiply recordSize (unat (remoteBoxCount dims)) of
          None \<Rightarrow> (False, 0)
        | Some recordsSize \<Rightarrow> (case CheckedAdd HeaderSize recordsSize of
            None \<Rightarrow> (False, HeaderSize)
          | Some s \<Rightarrow> (case CheckedAdd s FooterSize of
              None \<Rightarrow> (False, s)
            | Some s \<Rightarrow> (s \<le> MaximumHomeBoxFileSize, s)))))"

definition ValidateDimensions :: "HomeBoxDimensions \<Rightarrow> unit result" where
  "ValidateDimensions dims =
     (if hbRomAssistantApi dims \<noteq> SupportedRomAssistantApi then Err ''Home Box requires ROM Assistant API 3''
      else if \<not> IsSupportedEdition (hbEdition dims) then Err ''Home Box edition is neither Vanilla nor EX''
      else if remoteBoxCount dims > MaximumHomeBoxRecordCount then Err ''Home Box record count exceeds 255''
      else if metadataSize dims = 0 \<or> metadataSize dims > MaximumHomeBoxRecordDataSize
           \<or> pokemonDataSize dims = 0 \<or> pokemonDataSize dims > MaximumHomeBoxRecordDataSize
        then Err ''Home Box record dimensions are zero or oversized''
      else if \<not> fst (CalculateFileSize dims) then Err ''Home Box dimensions exceed the file size limit''
      else Ok ())"

definition RecordChecksum :: "HomeBoxRecord \<Rightarrow> u32" where
  "RecordChecksum r =
     foldl (\<lambda>checksum byte. checksum + ucast byte) (foldl (\<lambda>checksum byte. checksum + ucast byte) 0 (metadata r))
       (pokemonData r)"

definition spanFits :: "HomeBoxLayout \<Rightarrow> u32 \<Rightarrow> nat \<Rightarrow> bool" where
  "spanFits layout offset n \<longleftrightarrow> offset \<le> stateSize layout \<and> n \<le> unat (stateSize layout - offset)"

definition ValidateHomeBoxLayout :: "HomeBoxLayout \<Rightarrow> unit result" where
  "ValidateHomeBoxLayout layout =
     (if stateSize layout = 0 \<or> stateSize layout > MaximumHomeBoxStateSize \<or> totalBoxCount layout = 0
         \<or> localBoxCount layout > totalBoxCount layout \<or> totalBoxCount layout > MaximumHomeBoxRecordCount
      then Err ''Home Box counts or state size are invalid''
      else if minimalBoxSize layout = 0 \<or> minimalBoxSize layout > MaximumHomeBoxRecordDataSize
           \<or> pokemonBoxSize layout = 0 \<or> pokemonBoxSize layout > MaximumHomeBoxRecordDataSize
      then Err ''Home Box record sizes are zero or oversized''
      else case CheckedMultiply (unat (minimalBoxSize layout)) (unat (totalBoxCount layout)) of
        None \<Rightarrow> Err ''Home Box offsets and sizes exceed the observed state''
      | Some minimalBytes \<Rightarrow>
          if \<not> spanFits layout (minimalBoxOffset layout) minimalBytes
             \<or> \<not> spanFits layout (pokemonStoragePointerOffset layout) 4
             \<or> \<not> spanFits layout (remoteIndexOrderOffset layout) (unat (totalBoxCount layout))
             \<or> \<not> spanFits layout (trainerIdOffset layout) 4
          then Err ''Home Box offsets and sizes exceed the observed state'' else Ok ())"

section \<open>Encoding\<close>

text \<open>
  The loop that fills \<^verbatim>\<open>recordsByIndex\<close>, a vector of pointers that starts as all null.
\<close>

fun PlaceRecords :: "HomeBoxDimensions \<Rightarrow> HomeBoxRecord list \<Rightarrow> HomeBoxRecord option list
    \<Rightarrow> HomeBoxRecord option list result" where
  "PlaceRecords dims [] recordsByIndex = Ok recordsByIndex"
| "PlaceRecords dims (r # rs) recordsByIndex =
     (if remoteBoxIndex r \<ge> remoteBoxCount dims \<or> recordsByIndex ! unat (remoteBoxIndex r) \<noteq> None
      then Err ''Home Box has a duplicate or out-of-range record index''
      else if length (metadata r) \<noteq> unat (metadataSize dims) \<or> length (pokemonData r) \<noteq> unat (pokemonDataSize dims)
      then Err ''Home Box record data does not match its declared dimensions''
      else PlaceRecords dims rs (recordsByIndex[unat (remoteBoxIndex r) := Some r]))"

definition EncodeRecord :: "HomeBoxRecord \<Rightarrow> bytes" where
  "EncodeRecord r = AppendLittle (metadata r @ pokemonData r) (RecordChecksum r)"

text \<open>
  The second loop dereferences every pointer of the table: nothing stands for the undefined
  behaviour of a null pointer.
\<close>

fun EncodeRecords :: "HomeBoxRecord option list \<Rightarrow> bytes option" where
  "EncodeRecords [] = Some []"
| "EncodeRecords (None # rs) = None"
| "EncodeRecords (Some r # rs) = map_option (\<lambda>bs. EncodeRecord r @ bs) (EncodeRecords rs)"

definition EncodeHomeBox :: "HomeBoxData \<Rightarrow> bytes result" where
  "EncodeHomeBox data = (let dims = dimensions data in andThen (ValidateDimensions dims) (\<lambda>_.
     if length (records data) \<noteq> unat (remoteBoxCount dims)
     then Err ''Home Box record count does not match its header''
     else andThen (PlaceRecords dims (records data) (replicate (unat (remoteBoxCount dims)) None)) (\<lambda>recordsByIndex.
       let fileSize = snd (CalculateFileSize dims);
           header = AppendLittle (AppendLittle (AppendLittle (AppendLittle (AppendLittle []
             HeaderMagic) HomeBoxFormatVersion) (remoteBoxCount dims)) (metadataSize dims)) (pokemonDataSize dims)
       in case EncodeRecords recordsByIndex of
            None \<Rightarrow> Err ''null record''
          | Some body \<Rightarrow> (let encoded = AppendLittle (header @ body) FooterMagic
                          in if length encoded = fileSize then Ok encoded else Err ''''))))"

section \<open>Decoding\<close>

text \<open>The loop over the records still to read, from \<open>recordIndex\<close> up.\<close>

fun DecodeRecordLoop :: "nat \<Rightarrow> u32 \<Rightarrow> bytes \<Rightarrow> HomeBoxDimensions \<Rightarrow> nat \<Rightarrow> (HomeBoxRecord list \<times> nat) result" where
  "DecodeRecordLoop 0 recordIndex encoded dims position = Ok ([], position)"
| "DecodeRecordLoop (Suc n) recordIndex encoded dims position =
     (case do { (meta, position) \<leftarrow> ReadBytes encoded position (unat (metadataSize dims));
                (pokemon, position) \<leftarrow> ReadBytes encoded position (unat (pokemonDataSize dims));
                Some (\<lparr>remoteBoxIndex = recordIndex, metadata = meta, pokemonData = pokemon\<rparr>, position) } of
        None \<Rightarrow> Err ''Home Box record is truncated''
      | Some (r, position) \<Rightarrow> (case ReadNext encoded position of
          None \<Rightarrow> Err ''Home Box record checksum mismatch''
        | Some (checksum, position) \<Rightarrow>
            if checksum \<noteq> RecordChecksum r then Err ''Home Box record checksum mismatch''
            else andThen (DecodeRecordLoop n (recordIndex + 1) encoded dims position)
                   (\<lambda>(rs, position). Ok (r # rs, position))))"

definition DecodeFooter :: "bytes \<Rightarrow> HomeBoxDimensions \<Rightarrow> HomeBoxRecord list \<times> nat \<Rightarrow> HomeBoxData result" where
  "DecodeFooter encoded dims decoded = (case ReadNext encoded (snd decoded) of
     None \<Rightarrow> Err ''Home Box footer is invalid''
   | Some (magic, position) \<Rightarrow>
       if magic \<noteq> FooterMagic \<or> position \<noteq> length encoded then Err ''Home Box footer is invalid''
       else Ok \<lparr>dimensions = dims, records = fst decoded\<rparr>)"

definition DecodeRecords :: "bytes \<Rightarrow> HomeBoxDimensions \<Rightarrow> HomeBoxData result" where
  "DecodeRecords encoded dims =
     (let (fits, fileSize) = CalculateFileSize dims in
      if \<not> fits \<or> length encoded \<noteq> fileSize
      then Err (if length encoded > fileSize then ''Home Box file has trailing data'' else ''Home Box file is truncated'')
      else case do { (magic, position) \<leftarrow> ReadNext encoded 0;
                     (version, position) \<leftarrow> ReadNext encoded position;
                     (boxCount, position) \<leftarrow> ReadNext encoded position;
                     (metaSize, position) \<leftarrow> ReadNext encoded position;
                     (pokemonSize, position) \<leftarrow> ReadNext encoded position;
                     Some ((magic :: u32, version :: u32, boxCount :: u32, metaSize :: u32, pokemonSize :: u32), position) } of
        None \<Rightarrow> Err ''Home Box header is truncated''
      | Some ((magic, version, boxCount, metaSize, pokemonSize), position) \<Rightarrow>
          if magic \<noteq> HeaderMagic \<or> version \<noteq> HomeBoxFormatVersion \<or> boxCount \<noteq> remoteBoxCount dims
             \<or> metaSize \<noteq> metadataSize dims \<or> pokemonSize \<noteq> pokemonDataSize dims
          then Err ''Home Box header does not match the expected format and dimensions''
          else andThen (DecodeRecordLoop (unat boxCount) 0 encoded dims position) (DecodeFooter encoded dims))"

definition DecodeHomeBox :: "bytes \<Rightarrow> HomeBoxDimensions \<Rightarrow> HomeBoxData result" where
  "DecodeHomeBox encoded expected = andThen (ValidateDimensions expected) (\<lambda>_.
     if length encoded > MaximumHomeBoxFileSize then Err ''Home Box file exceeds 64 MiB''
     else if length encoded < 4 then Err ''Home Box file is truncated''
     else let (found, magic) = ReadLittle encoded 0 in
       if \<not> found \<or> magic \<noteq> HeaderMagic then Err ''Home Box file has an unknown magic value''
       else DecodeRecords encoded expected)"

section \<open>The sizes are exact\<close>

lemma CheckedAdd_eq: "left \<le> size_max \<Longrightarrow> CheckedAdd left right = (if left + right \<le> size_max then Some (left + right) else None)"
  by (auto simp: CheckedAdd_def)

lemma CheckedMultiply_eq: "CheckedMultiply left right = (if left * right \<le> size_max then Some (left * right) else None)"
proof (cases "left = 0")
  case False
  then have "right \<le> size_max div left \<longleftrightarrow> left * right \<le> size_max"
    by (simp add: less_eq_div_iff_mult_less_eq mult.commute)
  then show ?thesis using False by (auto simp: CheckedMultiply_def not_less [symmetric])
qed (simp add: CheckedMultiply_def)

definition home_box_size :: "HomeBoxDimensions \<Rightarrow> nat" where
  "home_box_size dims =
     24 + (4 + unat (metadataSize dims) + unat (pokemonDataSize dims)) * unat (remoteBoxCount dims)"

lemma unat_u32_bound: "unat (w :: u32) < 4294967296"
  using unsigned_less [of w, where 'a = nat] by simp

lemma home_box_limits [simp]:
  "HeaderSize = 20" "FooterSize = 4" "MaximumHomeBoxFileSize = 67108864"
  by (simp_all add: HeaderSize_def FooterSize_def MaximumHomeBoxFileSize_def)

lemma CalculateFileSize_iff: "fst (CalculateFileSize dims) \<longleftrightarrow> home_box_size dims \<le> MaximumHomeBoxFileSize"
  and CalculateFileSize_size: "fst (CalculateFileSize dims) \<Longrightarrow> snd (CalculateFileSize dims) = home_box_size dims"
  using unat_u32_bound [of "metadataSize dims"] unat_u32_bound [of "pokemonDataSize dims"]
  by (auto simp: CalculateFileSize_def CheckedAdd_eq CheckedMultiply_eq home_box_size_def size_max_def
      split: option.splits if_splits)

definition valid_dimensions :: "HomeBoxDimensions \<Rightarrow> bool" where
  "valid_dimensions dims \<longleftrightarrow> hbRomAssistantApi dims = 3 \<and> hbEdition dims \<in> {0, 1}
     \<and> unat (remoteBoxCount dims) \<le> 255 \<and> unat (metadataSize dims) \<in> {1..1048568}
     \<and> unat (pokemonDataSize dims) \<in> {1..1048568} \<and> home_box_size dims \<le> 67108864"

lemma u32_pos_iff: "(w :: u32) \<noteq> 0 \<longleftrightarrow> 1 \<le> unat w"
  by (simp add: unat_gt_0 Suc_le_eq)

lemma ValidateDimensions_Ok [simp]: "ValidateDimensions dims = Ok () \<longleftrightarrow> valid_dimensions dims"
  by (auto simp: ValidateDimensions_def valid_dimensions_def SupportedRomAssistantApi_def RequiredAssistantApi_def
      IsSupportedEdition_def VanillaEdition_def ExEdition_def MaximumHomeBoxRecordCount_def
      MaximumHomeBoxRecordDataSize_def CalculateFileSize_iff u32_pos_iff word_less_nat_alt not_less)

section \<open>Encoding\<close>

definition record_wire :: "HomeBoxRecord \<Rightarrow> bytes" where
  "record_wire r = metadata r @ pokemonData r @ le_bytes (RecordChecksum r)"

definition home_wire :: "HomeBoxDimensions \<Rightarrow> HomeBoxRecord list \<Rightarrow> bytes" where
  "home_wire dims rs = le_bytes HeaderMagic @ le_bytes HomeBoxFormatVersion @ le_bytes (remoteBoxCount dims)
     @ le_bytes (metadataSize dims) @ le_bytes (pokemonDataSize dims)
     @ concat (map record_wire rs) @ le_bytes FooterMagic"

definition fits_record :: "HomeBoxDimensions \<Rightarrow> HomeBoxRecord \<Rightarrow> bool" where
  "fits_record dims r \<longleftrightarrow>
     length (metadata r) = unat (metadataSize dims) \<and> length (pokemonData r) = unat (pokemonDataSize dims)"

fun indexed_from :: "HomeBoxDimensions \<Rightarrow> u32 \<Rightarrow> HomeBoxRecord list \<Rightarrow> bool" where
  "indexed_from dims k [] = True"
| "indexed_from dims k (r # rs) = (remoteBoxIndex r = k \<and> fits_record dims r \<and> indexed_from dims (k + 1) rs)"

lemma indexed_from_iff:
  "indexed_from dims k rs \<longleftrightarrow>
   (\<forall>i < length rs. remoteBoxIndex (rs ! i) = k + word_of_nat i \<and> fits_record dims (rs ! i))"
  by (induction rs arbitrary: k) (simp_all add: All_less_Suc2 ac_simps)

lemma indexed_unat:
  "indexed_from dims 0 rs \<Longrightarrow> i < length rs \<Longrightarrow> length rs \<le> 255 \<Longrightarrow> unat (remoteBoxIndex (rs ! i)) = i"
  by (simp add: indexed_from_iff unat_of_nat)

lemma indexed_unique:
  assumes a: "indexed_from dims 0 as" and b: "indexed_from dims 0 bs" and m: "mset as = mset bs"
    and n: "length as \<le> 255"
  shows "as = bs"
proof (rule nth_equalityI)
  show len: "length as = length bs" using m by (rule mset_eq_length)
  fix i assume i: "i < length as"
  then have "as ! i \<in> set bs" using m by (metis mset_eq_setD nth_mem)
  then obtain j where j: "j < length bs" "bs ! j = as ! i" by (metis in_set_conv_nth)
  have "length bs \<le> 255" using len n by simp
  from indexed_unat [OF b j(1) this] indexed_unat [OF a i n] have "i = j" by (simp add: j(2))
  with j(2) show "as ! i = bs ! i" by simp
qed

lemma length_record_wire:
  "fits_record dims r \<Longrightarrow> length (record_wire r) = 4 + unat (metadataSize dims) + unat (pokemonDataSize dims)"
  by (simp add: record_wire_def fits_record_def)

lemma length_record_wires:
  "indexed_from dims k rs \<Longrightarrow>
   length (concat (map record_wire rs)) = (4 + unat (metadataSize dims) + unat (pokemonDataSize dims)) * length rs"
  by (induction rs arbitrary: k) (auto simp: length_record_wire [of dims])

lemma length_home_wire:
  "indexed_from dims 0 rs \<Longrightarrow> length rs = unat (remoteBoxCount dims) \<Longrightarrow> length (home_wire dims rs) = home_box_size dims"
  by (simp add: home_wire_def home_box_size_def length_record_wires)

definition placed :: "'a option list \<Rightarrow> 'a list" where
  "placed t = map the (filter (\<lambda>x. x \<noteq> None) t)"

lemma mset_placed_update:
  assumes "i < length t" and "t ! i = None"
  shows "mset (placed (t[i := Some r])) = add_mset r (mset (placed t))"
proof -
  obtain xs ys where t: "t = xs @ None # ys" and i: "i = length xs"
    using assms by (metis id_take_nth_drop length_take min.absorb4 nat_less_le)
  show ?thesis by (simp add: t i placed_def)
qed

lemma placed_full: "length (placed t) = length t \<Longrightarrow> t = map Some (placed t)"
proof (induction t)
  case (Cons x t)
  have "length (placed t) \<le> length t" by (simp add: placed_def)
  with Cons show ?case by (cases x) (auto simp: placed_def)
qed (simp add: placed_def)

definition table_ok :: "HomeBoxDimensions \<Rightarrow> HomeBoxRecord option list \<Rightarrow> bool" where
  "table_ok dims t \<longleftrightarrow> length t = unat (remoteBoxCount dims)
     \<and> (\<forall>i < length t. \<forall>r. t ! i = Some r \<longrightarrow> unat (remoteBoxIndex r) = i \<and> fits_record dims r)"

lemma table_ok_update:
  assumes "table_ok dims t" and "fits_record dims r" and "unat (remoteBoxIndex r) < length t"
  shows "table_ok dims (t[unat (remoteBoxIndex r) := Some r])"
  unfolding table_ok_def
proof (intro conjI allI impI)
  fix i q assume "i < length (t[unat (remoteBoxIndex r) := Some r])" "t[unat (remoteBoxIndex r) := Some r] ! i = Some q"
  then show "unat (remoteBoxIndex q) = i" "fits_record dims q"
    using assms by (cases "unat (remoteBoxIndex r) = i"; simp add: table_ok_def)+
qed (use assms in \<open>simp add: table_ok_def\<close>)

lemma PlaceRecords_sound:
  "PlaceRecords dims rs t = Ok t' \<Longrightarrow> table_ok dims t \<Longrightarrow>
   table_ok dims t' \<and> mset (placed t') = mset (placed t) + mset rs"
proof (induction rs arbitrary: t)
  case (Cons r rs)
  let ?i = "unat (remoteBoxIndex r)"
  from Cons.prems(1) have i: "remoteBoxIndex r < remoteBoxCount dims" "t ! ?i = None"
    and f: "fits_record dims r" and rest: "PlaceRecords dims rs (t[?i := Some r]) = Ok t'"
    by (auto simp: not_le fits_record_def split: if_splits)
  have i: "?i < length t" "t ! ?i = None"
    using i Cons.prems(2) by (simp_all add: table_ok_def word_less_nat_alt)
  have "table_ok dims (t[?i := Some r])"
    using Cons.prems(2) f i(1) by (rule table_ok_update)
  from Cons.IH [OF rest this] show ?case using i by (simp add: mset_placed_update)
qed simp

lemma PlaceRecords_complete:
  "table_ok dims t \<Longrightarrow> distinct (map remoteBoxIndex rs) \<Longrightarrow>
   (\<forall>r \<in> set rs. fits_record dims r \<and> unat (remoteBoxIndex r) < length t \<and> t ! unat (remoteBoxIndex r) = None) \<Longrightarrow>
   \<exists>t'. PlaceRecords dims rs t = Ok t'"
proof (induction rs arbitrary: t)
  case (Cons r rs)
  let ?t = "t[unat (remoteBoxIndex r) := Some r]"
  have "table_ok dims ?t"
    using Cons.prems by (intro table_ok_update) simp_all
  moreover have "\<forall>q \<in> set rs. fits_record dims q \<and> unat (remoteBoxIndex q) < length ?t \<and> ?t ! unat (remoteBoxIndex q) = None"
  proof
    fix q assume q: "q \<in> set rs"
    with Cons.prems(2) have "remoteBoxIndex r \<noteq> remoteBoxIndex q" by auto
    then have "unat (remoteBoxIndex r) \<noteq> unat (remoteBoxIndex q)" by (simp add: word_unat_eq_iff)
    with Cons.prems(3) q show "fits_record dims q \<and> unat (remoteBoxIndex q) < length ?t \<and> ?t ! unat (remoteBoxIndex q) = None"
      by simp
  qed
  ultimately have "\<exists>t'. PlaceRecords dims rs ?t = Ok t'"
    using Cons.prems(2) by (intro Cons.IH) simp_all
  then show ?case
    using Cons.prems by (auto simp: fits_record_def table_ok_def word_le_nat_alt)
qed simp

lemma EncodeRecords_Some: "EncodeRecords (map Some rs) = Some (concat (map record_wire rs))"
  by (induction rs) (simp_all add: EncodeRecord_def record_wire_def)

lemma table_ok_full:
  assumes "table_ok dims t" and "length (placed t) = length t"
  shows "t = map Some (placed t) \<and> indexed_from dims 0 (placed t)"
proof -
  have t: "t = map Some (placed t)" using placed_full [OF assms(2)] .
  have "t ! i = Some (placed t ! i)" if "i < length t" for i
    using that assms(2) by (subst t) simp
  then have ix: "unat (remoteBoxIndex (placed t ! i)) = i \<and> fits_record dims (placed t ! i)" if "i < length t" for i
    using that assms(1) by (simp add: table_ok_def)
  have "remoteBoxIndex (placed t ! i) = word_of_nat i" if "i < length t" for i
    using ix [OF that] by (metis of_nat_unat ucast_id)
  with ix t assms(2) show ?thesis by (simp add: indexed_from_iff)
qed

lemma indexed_fits: "indexed_from dims k rs \<Longrightarrow> r \<in> set rs \<Longrightarrow> fits_record dims r"
  by (induction rs arbitrary: k) auto

lemma indexed_distinct:
  assumes "indexed_from dims 0 rs" and "length rs \<le> 255"
  shows "distinct (map remoteBoxIndex rs)"
proof -
  have "remoteBoxIndex (rs ! i) \<noteq> remoteBoxIndex (rs ! j)" if "i < length rs" "j < length rs" "i \<noteq> j" for i j
    using indexed_unat [OF assms(1) that(1) assms(2)] indexed_unat [OF assms(1) that(2) assms(2)] that(3) by auto
  then show ?thesis by (simp add: distinct_conv_nth)
qed

lemma table_ok_empty: "table_ok dims (replicate (unat (remoteBoxCount dims)) None)"
  by (simp add: table_ok_def)

lemma placed_empty [simp]: "placed (replicate n None) = []"
  by (simp add: placed_def)

text \<open>The records in the order of their indices, when there is exactly one for each index.\<close>

definition arranges :: "HomeBoxDimensions \<Rightarrow> HomeBoxRecord list \<Rightarrow> HomeBoxRecord list \<Rightarrow> bool" where
  "arranges dims rs ordered \<longleftrightarrow>
     mset ordered = mset rs \<and> length rs = unat (remoteBoxCount dims) \<and> indexed_from dims 0 ordered"

lemma arranges_unique: "arranges dims rs a \<Longrightarrow> arranges dims rs b \<Longrightarrow> unat (remoteBoxCount dims) \<le> 255 \<Longrightarrow> a = b"
  by (rule indexed_unique [of dims]) (auto simp: arranges_def dest: mset_eq_length)

lemma PlaceRecords_arranges:
  assumes "PlaceRecords dims rs (replicate (unat (remoteBoxCount dims)) None) = Ok t"
    and "length rs = unat (remoteBoxCount dims)"
  shows "\<exists>ordered. t = map Some ordered \<and> arranges dims rs ordered"
proof -
  from PlaceRecords_sound [OF assms(1) table_ok_empty] have t: "table_ok dims t" and m: "mset (placed t) = mset rs"
    by simp_all
  have "length (placed t) = length t" using mset_eq_length [OF m] t assms(2) by (simp add: table_ok_def)
  from table_ok_full [OF t this] m assms(2) show ?thesis
    by (intro exI [of _ "placed t"]) (simp add: arranges_def)
qed

lemma arranges_PlaceRecords:
  assumes arr: "arranges dims rs ordered" and n: "unat (remoteBoxCount dims) \<le> 255"
  shows "PlaceRecords dims rs (replicate (unat (remoteBoxCount dims)) None) = Ok (map Some ordered)"
proof -
  have m: "mset ordered = mset rs" and len: "length rs = unat (remoteBoxCount dims)" and ix: "indexed_from dims 0 ordered"
    using arr by (simp_all add: arranges_def)
  have sl: "length ordered = unat (remoteBoxCount dims)" using mset_eq_length [OF m] len by simp
  have set: "set rs = set ordered" using m by (metis set_mset_mset)
  have "mset (map remoteBoxIndex ordered) = mset (map remoteBoxIndex rs)" using m by simp
  then have "distinct (map remoteBoxIndex rs)"
    using indexed_distinct [OF ix] sl n mset_eq_imp_distinct_iff by (metis (no_types))
  moreover have "unat (remoteBoxIndex r) < unat (remoteBoxCount dims)" if "r \<in> set rs" for r
    using that indexed_unat [OF ix] sl n by (auto simp: set in_set_conv_nth)
  ultimately obtain t where t: "PlaceRecords dims rs (replicate (unat (remoteBoxCount dims)) None) = Ok t"
    using PlaceRecords_complete [OF table_ok_empty, of rs dims] indexed_fits [OF ix] by (auto simp: set)
  from PlaceRecords_arranges [OF t len] obtain other where "t = map Some other" "arranges dims rs other" by blast
  with arranges_unique [OF arr _ n] t show ?thesis by blast
qed

lemma EncodeHomeBox_Ok_iff:
  "EncodeHomeBox d = Ok w \<longleftrightarrow> valid_dimensions (dimensions d)
    \<and> (\<exists>ordered. arranges (dimensions d) (records d) ordered \<and> w = home_wire (dimensions d) ordered)"
proof -
  let ?dims = "dimensions d"
  have wire: "EncodeHomeBox d = Ok (home_wire ?dims ordered)"
    if v: "valid_dimensions ?dims" and arr: "arranges ?dims (records d) ordered" for ordered
  proof -
    have n: "unat (remoteBoxCount ?dims) \<le> 255" and fits: "fst (CalculateFileSize ?dims)"
      using v by (simp_all add: valid_dimensions_def CalculateFileSize_iff)
    have v': "ValidateDimensions ?dims = Ok ()" using v by simp
    have len: "length (records d) = unat (remoteBoxCount ?dims)" and ix: "indexed_from ?dims 0 ordered"
      using arr by (simp_all add: arranges_def)
    have "length ordered = unat (remoteBoxCount ?dims)"
      using arr mset_eq_length by (fastforce simp: arranges_def)
    from length_home_wire [OF ix this] show ?thesis
      by (simp add: EncodeHomeBox_def Let_def v' len arranges_PlaceRecords [OF arr n] EncodeRecords_Some
          CalculateFileSize_size [OF fits] home_wire_def)
  qed
  show ?thesis
  proof
    assume enc: "EncodeHomeBox d = Ok w"
    then have v: "valid_dimensions ?dims" and len: "length (records d) = unat (remoteBoxCount ?dims)"
      by (auto simp: EncodeHomeBox_def Let_def andThen_Ok_iff split: if_splits)
    from enc len obtain t where "PlaceRecords ?dims (records d) (replicate (unat (remoteBoxCount ?dims)) None) = Ok t"
      by (auto simp: EncodeHomeBox_def Let_def andThen_Ok_iff)
    from PlaceRecords_arranges [OF this len] obtain ordered where "arranges ?dims (records d) ordered" by blast
    with wire [OF v this] enc v show "valid_dimensions ?dims
      \<and> (\<exists>ordered. arranges ?dims (records d) ordered \<and> w = home_wire ?dims ordered)" by auto
  qed (auto simp: wire)
qed

section \<open>Decoding\<close>

lemma DecodeRecordLoop_sound:
  "DecodeRecordLoop n k encoded dims position = Ok (rs, p) \<Longrightarrow>
   length rs = n \<and> indexed_from dims k rs \<and> drop position encoded = concat (map record_wire rs) @ drop p encoded"
proof (induction n arbitrary: k position rs)
  case (Suc n)
  from Suc.prems obtain meta p1 pokemon p2 c p3 rs' where
      m: "ReadBytes encoded position (unat (metadataSize dims)) = Some (meta, p1)"
    and d: "ReadBytes encoded p1 (unat (pokemonDataSize dims)) = Some (pokemon, p2)"
    and c: "ReadNext encoded p2 = Some (c, p3)"
    and cs: "c = RecordChecksum \<lparr>remoteBoxIndex = k, metadata = meta, pokemonData = pokemon\<rparr>"
    and rest: "DecodeRecordLoop n (k + 1) encoded dims p3 = Ok (rs', p)"
    and rs: "rs = \<lparr>remoteBoxIndex = k, metadata = meta, pokemonData = pokemon\<rparr> # rs'"
    by (auto simp: andThen_Ok_iff Option.bind_eq_Some_conv split: option.splits if_splits prod.splits)
  from Suc.IH [OF rest] ReadBytes_Some [OF m] ReadBytes_Some [OF d] ReadNext_u32 [OF c] show ?case
    by (simp add: rs record_wire_def fits_record_def cs)
qed simp

lemma DecodeRecordLoop_complete:
  "indexed_from dims k rs \<Longrightarrow> length pre = position \<Longrightarrow>
   DecodeRecordLoop (length rs) k (pre @ concat (map record_wire rs) @ post) dims position
     = Ok (rs, position + length (concat (map record_wire rs)))"
proof (induction rs arbitrary: k pre position)
  case (Cons r rs)
  let ?rest = "concat (map record_wire rs) @ post"
  let ?e = "pre @ concat (map record_wire (r # rs)) @ post"
  have r: "remoteBoxIndex r = k" "length (metadata r) = unat (metadataSize dims)"
      "length (pokemonData r) = unat (pokemonDataSize dims)" and ix: "indexed_from dims (k + 1) rs"
    using Cons.prems(1) by (auto simp: fits_record_def)
  have m: "ReadBytes ?e position (unat (metadataSize dims)) = Some (metadata r, position + length (metadata r))"
    using ReadBytes_append [OF Cons.prems(2), of "metadata r" "pokemonData r @ le_bytes (RecordChecksum r) @ ?rest"]
    by (simp add: record_wire_def r)
  have d: "ReadBytes ?e (position + length (metadata r)) (unat (pokemonDataSize dims))
      = Some (pokemonData r, position + length (metadata r) + length (pokemonData r))"
    using ReadBytes_append [of "pre @ metadata r" _ "pokemonData r" "le_bytes (RecordChecksum r) @ ?rest"] Cons.prems(2)
    by (simp add: record_wire_def r)
  have c: "ReadNext ?e (position + length (metadata r) + length (pokemonData r))
      = Some (RecordChecksum r, position + length (record_wire r))"
    using ReadNext_append [of "pre @ metadata r @ pokemonData r" _ "RecordChecksum r" ?rest] Cons.prems(2)
    by (simp add: record_wire_def add.assoc)
  have rest: "DecodeRecordLoop (length rs) (k + 1) ?e dims (position + length (record_wire r))
      = Ok (rs, position + length (record_wire r) + length (concat (map record_wire rs)))"
    using Cons.IH [OF ix, of "pre @ record_wire r"] Cons.prems(2) by simp
  have eta: "\<lparr>remoteBoxIndex = k, metadata = metadata r, pokemonData = pokemonData r\<rparr> = r"
    using r(1) by simp
  show ?case
    by (simp only: DecodeRecordLoop.simps length_Cons m d c rest bind.bind_lunit prod.case option.case eta simp_thms
        if_False andThen_simps) simp
qed simp

definition valid_home :: "HomeBoxDimensions \<Rightarrow> HomeBoxData \<Rightarrow> bool" where
  "valid_home dims d \<longleftrightarrow> dimensions d = dims \<and> valid_dimensions dims
     \<and> length (records d) = unat (remoteBoxCount dims) \<and> indexed_from dims 0 (records d)"

lemma arranges_self: "valid_home dims d \<Longrightarrow> arranges dims (records d) (records d)"
  by (simp add: valid_home_def arranges_def)

lemma EncodeHomeBox_valid: "valid_home dims d \<Longrightarrow> EncodeHomeBox d = Ok (home_wire dims (records d))"
  using arranges_self by (auto simp: EncodeHomeBox_Ok_iff valid_home_def)

lemma DecodeFooter_iff: "DecodeFooter bs dims x = Ok d \<longleftrightarrow>
    ReadNext bs (snd x) = Some (FooterMagic, length bs) \<and> d = \<lparr>dimensions = dims, records = fst x\<rparr>"
  by (auto simp: DecodeFooter_def split: option.splits if_splits)

lemma DecodeRecords_sound:
  assumes "DecodeRecords bs dims = Ok d"
  shows "dimensions d = dims \<and> length (records d) = unat (remoteBoxCount dims)
    \<and> indexed_from dims 0 (records d) \<and> bs = home_wire dims (records d)"
proof -
  from assms obtain p1 p2 p3 p4 p5 x where
      r: "ReadNext bs 0 = Some (HeaderMagic, p1)" "ReadNext bs p1 = Some (HomeBoxFormatVersion, p2)"
         "ReadNext bs p2 = Some (remoteBoxCount dims, p3)" "ReadNext bs p3 = Some (metadataSize dims, p4)"
         "ReadNext bs p4 = Some (pokemonDataSize dims, p5)"
    and loop: "DecodeRecordLoop (unat (remoteBoxCount dims)) 0 bs dims p5 = Ok x"
    and footer: "DecodeFooter bs dims x = Ok d"
    by (auto simp: DecodeRecords_def Let_def andThen_Ok_iff Option.bind_eq_Some_conv split_beta
        split: option.splits if_splits)
  from footer have d: "dimensions d = dims" "records d = fst x" and f: "ReadNext bs (snd x) = Some (FooterMagic, length bs)"
    by (simp_all add: DecodeFooter_iff)
  have l: "DecodeRecordLoop (unat (remoteBoxCount dims)) 0 bs dims p5 = Ok (records d, snd x)"
    using loop d by simp
  note reads = r [THEN ReadNext_u32] f [THEN ReadNext_u32]
  from DecodeRecordLoop_sound [OF l] reads have "drop 0 bs = home_wire dims (records d)"
    by (simp only: home_wire_def) simp
  with DecodeRecordLoop_sound [OF l] d show ?thesis by simp
qed

lemma ReadNext_u32_append: "length pre = position \<Longrightarrow>
    ReadNext (pre @ le_bytes (v :: u32) @ post) position = Some (v, position + 4)"
  using ReadNext_append [where v = v and pre = pre and position = position and post = post] by simp

lemma DecodeRecords_complete:
  assumes "valid_home dims d"
  shows "DecodeRecords (home_wire dims (records d)) dims = Ok d"
proof -
  let ?w = "home_wire dims (records d)" and ?body = "concat (map record_wire (records d))"
  have ix: "indexed_from dims 0 (records d)" and len: "length (records d) = unat (remoteBoxCount dims)"
    and dims: "dimensions d = dims" and fits: "fst (CalculateFileSize dims)"
    using assms by (simp_all add: valid_home_def valid_dimensions_def CalculateFileSize_iff)
  have calc: "CalculateFileSize dims = (True, home_box_size dims)"
    using CalculateFileSize_size [OF fits] fits by (metis prod.collapse)
  let ?h1 = "le_bytes HeaderMagic" and ?h2 = "le_bytes HomeBoxFormatVersion" and ?h3 = "le_bytes (remoteBoxCount dims)"
    and ?h4 = "le_bytes (metadataSize dims)" and ?h5 = "le_bytes (pokemonDataSize dims)" and ?f = "le_bytes FooterMagic"
  note field = ReadNext_u32_append [unfolded append_assoc]
  have r: "ReadNext ?w 0 = Some (HeaderMagic, 4)" "ReadNext ?w 4 = Some (HomeBoxFormatVersion, 8)"
      "ReadNext ?w 8 = Some (remoteBoxCount dims, 12)" "ReadNext ?w 12 = Some (metadataSize dims, 16)"
      "ReadNext ?w 16 = Some (pokemonDataSize dims, 20)"
    using field [of "[]" 0 HeaderMagic "?h2 @ ?h3 @ ?h4 @ ?h5 @ ?body @ ?f"]
      field [of ?h1 4 HomeBoxFormatVersion "?h3 @ ?h4 @ ?h5 @ ?body @ ?f"]
      field [of "?h1 @ ?h2" 8 "remoteBoxCount dims" "?h4 @ ?h5 @ ?body @ ?f"]
      field [of "?h1 @ ?h2 @ ?h3" 12 "metadataSize dims" "?h5 @ ?body @ ?f"]
      field [of "?h1 @ ?h2 @ ?h3 @ ?h4" 16 "pokemonDataSize dims" "?body @ ?f"]
    by (simp_all add: home_wire_def)
  have loop: "DecodeRecordLoop (unat (remoteBoxCount dims)) 0 ?w dims 20 = Ok (records d, 20 + length ?body)"
    using DecodeRecordLoop_complete [OF ix, of "?h1 @ ?h2 @ ?h3 @ ?h4 @ ?h5" 20 ?f] len by (simp add: home_wire_def)
  have wl: "length ?w = 24 + length ?body" by (simp add: home_wire_def)
  have footer: "ReadNext ?w (20 + length ?body) = Some (FooterMagic, length ?w)"
    using field [of "?h1 @ ?h2 @ ?h3 @ ?h4 @ ?h5 @ ?body" "20 + length ?body" FooterMagic "[]"] wl
    by (simp add: home_wire_def)
  show ?thesis
    using length_home_wire [OF ix len] dims
    by (simp add: DecodeRecords_def calc r loop footer DecodeFooter_iff)
qed

lemma DecodeHomeBox_iff: "DecodeHomeBox bs dims = Ok d \<longleftrightarrow> valid_home dims d \<and> EncodeHomeBox d = Ok bs"
proof
  assume "DecodeHomeBox bs dims = Ok d"
  then have "valid_dimensions dims" and "DecodeRecords bs dims = Ok d"
    by (auto simp: DecodeHomeBox_def andThen_Ok_iff split: if_splits prod.splits)
  with DecodeRecords_sound [OF this(2)] have "valid_home dims d" "bs = home_wire dims (records d)"
    by (simp_all add: valid_home_def)
  then show "valid_home dims d \<and> EncodeHomeBox d = Ok bs" by (simp add: EncodeHomeBox_valid)
next
  assume "valid_home dims d \<and> EncodeHomeBox d = Ok bs"
  then have v: "valid_home dims d" and bs: "bs = home_wire dims (records d)"
    by (auto simp: EncodeHomeBox_valid)
  have "length bs = home_box_size dims" and "valid_dimensions dims"
    using v bs by (simp_all add: valid_home_def length_home_wire)
  then have "ValidateDimensions dims = Ok ()" "length bs \<le> 67108864" "4 \<le> length bs"
    by (simp_all add: valid_dimensions_def home_box_size_def)
  moreover have "ReadLittle bs 0 = (True, HeaderMagic)"
    by (simp add: bs home_wire_def codec_simps)
  ultimately show "DecodeHomeBox bs dims = Ok d"
    using DecodeRecords_complete [OF v] by (simp add: DecodeHomeBox_def bs andThen_Ok_iff)
qed

interpretation home: partial_codec EncodeHomeBox "\<lambda>bs. DecodeHomeBox bs dims" "valid_home dims" for dims
  by unfold_locales (rule DecodeHomeBox_iff)

lemma EncodeHomeBox_decodes:
  assumes "EncodeHomeBox d = Ok bs"
  shows "\<exists>ordered. mset ordered = mset (records d) \<and> map remoteBoxIndex ordered = map word_of_nat [0..<length (records d)]
    \<and> DecodeHomeBox bs (dimensions d) = Ok (d\<lparr>records := ordered\<rparr>) \<and> length bs = home_box_size (dimensions d)"
proof -
  from assms obtain ordered where v: "valid_dimensions (dimensions d)" and arr: "arranges (dimensions d) (records d) ordered"
    and bs: "bs = home_wire (dimensions d) ordered"
    by (auto simp: EncodeHomeBox_Ok_iff)
  have m: "mset ordered = mset (records d)" and ix: "indexed_from (dimensions d) 0 ordered"
    and len: "length ordered = unat (remoteBoxCount (dimensions d))" "length ordered = length (records d)"
    using arr mset_eq_length [of ordered "records d"] by (simp_all add: arranges_def)
  have valid: "valid_home (dimensions d) (d\<lparr>records := ordered\<rparr>)"
    using v ix len by (simp add: valid_home_def)
  moreover have "EncodeHomeBox (d\<lparr>records := ordered\<rparr>) = Ok bs"
    using EncodeHomeBox_valid [OF valid] bs by simp
  moreover have "map remoteBoxIndex ordered = map word_of_nat [0..<length (records d)]"
    using ix len by (intro nth_equalityI) (simp_all add: indexed_from_iff)
  ultimately show ?thesis
    using m ix len bs by (intro exI [of _ ordered]) (simp add: DecodeHomeBox_iff length_home_wire)
qed

section \<open>An example\<close>

definition exampleDimensions :: HomeBoxDimensions where
  "exampleDimensions = \<lparr>hbRomAssistantApi = 3, hbEdition = 1, hbTrainerId = 77, remoteBoxCount = 2,
     metadataSize = 1, pokemonDataSize = 2\<rparr>"

definition exampleRecord :: "u32 \<Rightarrow> u8 \<Rightarrow> HomeBoxRecord" where
  "exampleRecord i b = \<lparr>remoteBoxIndex = i, metadata = [b], pokemonData = [5, 250]\<rparr>"

definition exampleHome :: HomeBoxData where
  "exampleHome = \<lparr>dimensions = exampleDimensions, records = [exampleRecord 1 9, exampleRecord 0 4]\<rparr>"

lemma example_dimensions_valid: "valid_dimensions exampleDimensions"
  by (simp add: valid_dimensions_def exampleDimensions_def home_box_size_def)

lemma example_arranged: "arranges exampleDimensions (records exampleHome) [exampleRecord 0 4, exampleRecord 1 9]"
  by (simp add: arranges_def exampleHome_def exampleDimensions_def exampleRecord_def fits_record_def)

lemma example_encodes:
  "EncodeHomeBox exampleHome = Ok (home_wire exampleDimensions [exampleRecord 0 4, exampleRecord 1 9])"
  using example_dimensions_valid example_arranged
  by (auto simp: EncodeHomeBox_Ok_iff exampleHome_def)

end
