(* ===== verification/HomeBoxProps.thy ===== *)
theory HomeBoxProps
  imports HomeBoxFormat
begin

text \<open>
  What the Home Box format guarantees: round trips, exactly which data is encoded, that damage to a
  single byte is always noticed, and that an accepted layout keeps every field inside the state.
\<close>

section \<open>Differences between byte strings\<close>

definition differences :: "'a list \<Rightarrow> 'a list \<Rightarrow> nat" where
  "differences xs ys = length (filter (\<lambda>(x, y). x \<noteq> y) (zip xs ys))"

lemma differences_simps [simp]:
  "differences [] ys = 0" "differences (x # xs) (y # ys) = (if x = y then 0 else 1) + differences xs ys"
  by (simp_all add: differences_def)

lemma differences_self [simp]: "differences xs xs = 0"
  by (induction xs) simp_all

lemma differences_append [simp]:
  "length xs = length ys \<Longrightarrow> differences (xs @ us) (ys @ vs) = differences xs ys + differences us vs"
  by (simp add: differences_def)

lemma differences_0: "length xs = length ys \<Longrightarrow> differences xs ys = 0 \<longleftrightarrow> xs = ys"
  by (induction xs ys rule: list_induct2) auto

lemma differences_update:
  "i < length xs \<Longrightarrow> b \<noteq> xs ! i \<Longrightarrow> differences xs (xs[i := b]) = 1"
  by (induction xs arbitrary: i) (auto split: nat.split simp: less_Suc_eq_0_disj)

definition byte_sum :: "bytes \<Rightarrow> u32" where
  "byte_sum bs = sum_list (map ucast bs)"

lemma foldl_byte_sum: "foldl (\<lambda>checksum byte. checksum + ucast byte) c bs = c + byte_sum bs"
  by (induction bs arbitrary: c) (simp_all add: byte_sum_def add.assoc)

lemma RecordChecksum_sum: "RecordChecksum r = byte_sum (metadata r @ pokemonData r)"
  by (simp add: RecordChecksum_def foldl_byte_sum byte_sum_def)

lemma ucast_u8_inject: "(ucast (a :: u8) :: u32) = ucast b \<longleftrightarrow> a = b"
  by (metis unat_ucast_u32 word_unat_eq_iff)

text \<open>A sum of bytes notices a change of one byte.\<close>

lemma byte_sum_one_difference:
  "length xs = length ys \<Longrightarrow> differences xs ys = 1 \<Longrightarrow> byte_sum xs \<noteq> byte_sum ys"
proof (induction xs ys rule: list_induct2)
  case (Cons x xs y ys)
  show ?case
  proof (cases "x = y")
    case True
    with Cons show ?thesis by (simp add: byte_sum_def)
  next
    case False
    with Cons have "xs = ys" by (simp add: differences_0)
    with False show ?thesis by (simp add: byte_sum_def ucast_u8_inject)
  qed
qed simp

lemma record_wire_differences:
  assumes "fits_record dims r" and "fits_record dims q"
  shows "length (record_wire r) = length (record_wire q) \<and> differences (record_wire r) (record_wire q) \<noteq> 1"
proof -
  let ?a = "metadata r @ pokemonData r" and ?b = "metadata q @ pokemonData q"
  have len: "length ?a = length ?b" using assms by (simp add: fits_record_def)
  have wire: "record_wire r = ?a @ le_bytes (byte_sum ?a)" "record_wire q = ?b @ le_bytes (byte_sum ?b)"
    by (simp_all add: record_wire_def RecordChecksum_sum)
  have inj: "differences (le_bytes (byte_sum ?a)) (le_bytes (byte_sum ?b)) = 0 \<longleftrightarrow> byte_sum ?a = byte_sum ?b"
    by (auto simp: differences_0 dest: le_bytes_inject [where 'a = 32, simplified])
  have "differences (record_wire r) (record_wire q)
      = differences ?a ?b + differences (le_bytes (byte_sum ?a)) (le_bytes (byte_sum ?b))"
    unfolding wire using len by (rule differences_append)
  moreover have "differences ?a ?b = 0 \<Longrightarrow> byte_sum ?a = byte_sum ?b"
    using len differences_0 by metis
  moreover have "differences ?a ?b = 1 \<Longrightarrow> byte_sum ?a \<noteq> byte_sum ?b"
    using len by (rule byte_sum_one_difference)
  ultimately have "differences (record_wire r) (record_wire q) \<noteq> 1"
    using inj by (cases "differences ?a ?b"; force)
  with len wire show ?thesis by simp
qed

lemma record_wires_differences:
  "length rs = length qs \<Longrightarrow> indexed_from dims k rs \<Longrightarrow> indexed_from dims k qs \<Longrightarrow>
   length (concat (map record_wire rs)) = length (concat (map record_wire qs))
   \<and> differences (concat (map record_wire rs)) (concat (map record_wire qs)) \<noteq> 1"
proof (induction rs qs arbitrary: k rule: list_induct2)
  case (Cons r rs q qs)
  then have r: "length (record_wire r) = length (record_wire q) \<and> differences (record_wire r) (record_wire q) \<noteq> 1"
    by (intro record_wire_differences [of dims]) simp_all
  have "length (concat (map record_wire rs)) = length (concat (map record_wire qs))
      \<and> differences (concat (map record_wire rs)) (concat (map record_wire qs)) \<noteq> 1"
    using Cons.prems by (intro Cons.IH [of "k + 1"]) simp_all
  with r show ?case by (cases "differences (record_wire r) (record_wire q)") auto
qed simp

lemma home_wire_differences:
  assumes "indexed_from dims 0 rs" "indexed_from dims 0 qs" "length rs = length qs"
  shows "differences (home_wire dims rs) (home_wire dims qs) \<noteq> 1"
  using record_wires_differences [OF assms(3,1,2)] by (simp add: home_wire_def)

section \<open>Layouts\<close>

lemma CheckedMultiply_u32: "CheckedMultiply (unat (a :: u32)) (unat (b :: u32)) = Some (unat a * unat b)"
proof -
  have "unat a * unat b \<le> 4294967295 * 4294967295"
    using unat_u32_bound [of a] unat_u32_bound [of b] by (intro mult_le_mono) simp_all
  then show ?thesis by (simp add: CheckedMultiply_eq size_max_def)
qed

lemma spanFits_iff: "spanFits l off n \<longleftrightarrow> unat off + n \<le> unat (stateSize l)"
  by (auto simp: spanFits_def unat_sub word_le_nat_alt)

section \<open>The table of records\<close>

lemma arranges_listed:
  assumes v: "valid_dimensions (dimensions d)" and arr: "arranges (dimensions d) (records d) ordered"
  shows "distinct (map remoteBoxIndex (records d)) \<and> list_all (\<lambda>r. fits_record (dimensions d) r
    \<and> remoteBoxIndex r < remoteBoxCount (dimensions d)) (records d)"
proof -
  let ?dims = "dimensions d"
  have m: "mset ordered = mset (records d)" and ix: "indexed_from ?dims 0 ordered"
    and n: "length ordered \<le> 255" "length ordered = unat (remoteBoxCount ?dims)"
    using arr v mset_eq_length [of ordered "records d"] by (simp_all add: arranges_def valid_dimensions_def)
  have set: "set (records d) = set ordered" using m by (metis set_mset_mset)
  have "mset (map remoteBoxIndex (records d)) = mset (map remoteBoxIndex ordered)" using m by simp
  then have "distinct (map remoteBoxIndex (records d))"
    using indexed_distinct [OF ix n(1)] mset_eq_imp_distinct_iff by metis
  moreover have "remoteBoxIndex r < remoteBoxCount ?dims" if "r \<in> set ordered" for r
    using that indexed_unat [OF ix _ n(1)] n(2) by (auto simp: in_set_conv_nth word_less_nat_alt)
  ultimately show ?thesis using indexed_fits [OF ix] by (auto simp: list_all_iff set)
qed

lemma listed_arranges:
  assumes len: "length (records d) = unat (remoteBoxCount (dimensions d))"
    and dist: "distinct (map remoteBoxIndex (records d))"
    and ok: "list_all (\<lambda>r. fits_record (dimensions d) r \<and> remoteBoxIndex r < remoteBoxCount (dimensions d)) (records d)"
  shows "\<exists>ordered. arranges (dimensions d) (records d) ordered"
proof -
  have "\<exists>t. PlaceRecords (dimensions d) (records d) (replicate (unat (remoteBoxCount (dimensions d))) None) = Ok t"
    using ok by (intro PlaceRecords_complete table_ok_empty dist) (auto simp: list_all_iff word_less_nat_alt)
  then show ?thesis using PlaceRecords_arranges len by blast
qed

lemma PlaceRecords_no_null: "PlaceRecords dims rs t \<noteq> Err ''null record''"
  by (induction rs arbitrary: t) simp_all

lemma EncodeHomeBox_no_null: "EncodeHomeBox d \<noteq> Err ''null record''"
proof
  let ?t = "replicate (unat (remoteBoxCount (dimensions d))) None"
  assume null: "EncodeHomeBox d = Err ''null record''"
  have "ValidateDimensions (dimensions d) \<noteq> Err ''null record''" by (simp add: ValidateDimensions_def)
  with null obtain u where v: "ValidateDimensions (dimensions d) = Ok u"
    by (cases "ValidateDimensions (dimensions d)") (auto simp: EncodeHomeBox_def Let_def)
  with null have len: "length (records d) = unat (remoteBoxCount (dimensions d))"
    by (auto simp: EncodeHomeBox_def Let_def split: if_splits)
  from null v len obtain t where t: "PlaceRecords (dimensions d) (records d) ?t = Ok t"
    using PlaceRecords_no_null by (cases "PlaceRecords (dimensions d) (records d) ?t") (auto simp: EncodeHomeBox_def Let_def)
  from PlaceRecords_arranges [OF t len] obtain ordered where "t = map Some ordered" by blast
  with null v len t show False by (simp add: EncodeHomeBox_def Let_def EncodeRecords_Some split: if_splits)
qed

section \<open>Properties\<close>

text \<open>
  C20. The Home Box decoder accepts exactly what the encoder writes for data of the expected
  dimensions with the records in the order of their indices, and gives that data back: no two
  data share a file, and nothing but an encoding is accepted.
\<close>

theorem home_box_decode_exact:
  "DecodeHomeBox bs dims = Ok d \<longleftrightarrow> valid_home dims d \<and> EncodeHomeBox d = Ok bs"
  by (rule home.dec_iff)

text \<open>
  The Home Box encoder succeeds exactly when the dimensions are valid, there is one record for
  each index and each record has the declared sizes. The table of record pointers it builds is then
  full, so the loop that dereferences it never meets a null pointer.
\<close>

theorem home_box_encode_exact:
  "(is_ok (EncodeHomeBox d) \<longleftrightarrow> valid_dimensions (dimensions d)
     \<and> length (records d) = unat (remoteBoxCount (dimensions d))
     \<and> distinct (map remoteBoxIndex (records d))
     \<and> list_all (\<lambda>r. fits_record (dimensions d) r
          \<and> remoteBoxIndex r < remoteBoxCount (dimensions d)) (records d))
   \<and> EncodeHomeBox d \<noteq> Err ''null record''"
  using arranges_listed [of d] listed_arranges [of d] EncodeHomeBox_no_null [of d]
  by (auto simp: is_ok_iff EncodeHomeBox_Ok_iff arranges_def)

text \<open>
  Whatever the order of its records, an encoded Home Box decodes to the same dimensions and the
  same records, in the order of their indices, and the file has exactly the size computed from the
  dimensions.
\<close>

theorem home_box_round_trip:
  assumes "EncodeHomeBox d = Ok bs"
  shows "\<exists>ordered. mset ordered = mset (records d) \<and> map remoteBoxIndex ordered = map word_of_nat [0..<length (records d)]
    \<and> DecodeHomeBox bs (dimensions d) = Ok (d\<lparr>records := ordered\<rparr>) \<and> length bs = home_box_size (dimensions d)"
  using assms by (rule EncodeHomeBox_decodes)

theorem home_box_round_trip_witness:
  "\<exists>bs ordered. EncodeHomeBox exampleHome = Ok bs \<and> length bs = 38
     \<and> DecodeHomeBox bs exampleDimensions = Ok (exampleHome\<lparr>records := ordered\<rparr>)
     \<and> map remoteBoxIndex ordered = [0, 1]"
  using home_box_round_trip [OF example_encodes] example_encodes
  by (fastforce simp: exampleHome_def exampleDimensions_def home_box_size_def)

text \<open>
  Damage to a single byte of a Home Box file is always noticed: no file that differs from a valid
  one in exactly one byte is accepted. (The checksum of a record is a plain sum; it is the position
  of the fields and the sum together that give this.)
\<close>

theorem home_box_detects_damage:
  assumes "DecodeHomeBox bs dims = Ok d" and "i < length bs" and "b \<noteq> bs ! i"
  shows "\<not> is_ok (DecodeHomeBox (bs[i := b]) dims)"
proof
  assume "is_ok (DecodeHomeBox (bs[i := b]) dims)"
  then obtain d' where d': "DecodeHomeBox (bs[i := b]) dims = Ok d'" by (auto simp: is_ok_iff)
  have "valid_home dims d" "bs = home_wire dims (records d)"
    using assms(1) by (auto simp: DecodeHomeBox_iff EncodeHomeBox_valid)
  moreover have "valid_home dims d'" "bs[i := b] = home_wire dims (records d')"
    using d' by (auto simp: DecodeHomeBox_iff EncodeHomeBox_valid)
  ultimately have "differences bs (bs[i := b]) \<noteq> 1"
    using home_wire_differences [of dims "records d" "records d'"] by (simp add: valid_home_def)
  with differences_update [OF assms(2,3)] show False by simp
qed

theorem home_box_detects_damage_witness:
  "\<exists>bs. EncodeHomeBox exampleHome = Ok bs \<and> is_ok (DecodeHomeBox bs exampleDimensions)
     \<and> \<not> is_ok (DecodeHomeBox (bs[20 := 3]) exampleDimensions)"
proof -
  let ?d = "exampleHome\<lparr>records := [exampleRecord 0 4, exampleRecord 1 9]\<rparr>"
  let ?bs = "home_wire exampleDimensions [exampleRecord 0 4, exampleRecord 1 9]"
  have v: "valid_home exampleDimensions ?d"
    using example_dimensions_valid example_arranged
    by (simp add: valid_home_def arranges_def exampleHome_def exampleDimensions_def)
  have dec: "DecodeHomeBox ?bs exampleDimensions = Ok ?d"
    using v EncodeHomeBox_valid [OF v] by (simp add: DecodeHomeBox_iff)
  have "?bs ! 20 = 4" "20 < length ?bs"
    by (simp_all add: home_wire_def nth_append record_wire_def exampleRecord_def)
  then have "\<not> is_ok (DecodeHomeBox (?bs[20 := 3]) exampleDimensions)"
    using home_box_detects_damage [OF dec, of 20 3] by simp
  with example_encodes dec show ?thesis by (intro exI [of _ ?bs]) simp
qed

lemma ValidateHomeBoxLayout_Ok:
  "is_ok (ValidateHomeBoxLayout l) \<longleftrightarrow>
     unat (stateSize l) \<in> {1..1048568} \<and> unat (totalBoxCount l) \<in> {1..255} \<and> localBoxCount l \<le> totalBoxCount l
     \<and> unat (minimalBoxSize l) \<in> {1..1048568} \<and> unat (pokemonBoxSize l) \<in> {1..1048568}
     \<and> unat (minimalBoxOffset l) + unat (minimalBoxSize l) * unat (totalBoxCount l) \<le> unat (stateSize l)
     \<and> unat (pokemonStoragePointerOffset l) + 4 \<le> unat (stateSize l)
     \<and> unat (remoteIndexOrderOffset l) + unat (totalBoxCount l) \<le> unat (stateSize l)
     \<and> unat (trainerIdOffset l) + 4 \<le> unat (stateSize l)"
  by (auto simp: ValidateHomeBoxLayout_def CheckedMultiply_u32 spanFits_iff MaximumHomeBoxStateSize_def
      MaximumHomeBoxRecordCount_def MaximumHomeBoxRecordDataSize_def u32_pos_iff word_less_nat_alt word_le_nat_alt not_less)

text \<open>
  A Home Box layout is accepted exactly when its counts and sizes are in range and every field
  that will be read lies inside the observed state, with the sums taken over the integers: no
  accepted layout relies on a wrap-around of 32-bit offsets.
\<close>

theorem home_box_layout_in_bounds:
  "is_ok (ValidateHomeBoxLayout l) \<longleftrightarrow>
     unat (stateSize l) \<in> {1..1048568} \<and> unat (totalBoxCount l) \<in> {1..255} \<and> localBoxCount l \<le> totalBoxCount l
     \<and> unat (minimalBoxSize l) \<in> {1..1048568} \<and> unat (pokemonBoxSize l) \<in> {1..1048568}
     \<and> unat (minimalBoxOffset l) + unat (minimalBoxSize l) * unat (totalBoxCount l) \<le> unat (stateSize l)
     \<and> unat (pokemonStoragePointerOffset l) + 4 \<le> unat (stateSize l)
     \<and> unat (remoteIndexOrderOffset l) + unat (totalBoxCount l) \<le> unat (stateSize l)
     \<and> unat (trainerIdOffset l) + 4 \<le> unat (stateSize l)"
  by (rule ValidateHomeBoxLayout_Ok)

end
