(* ===== verification/StdString.thy ===== *)
theory StdString
  imports Prelude
begin

text \<open>
  The parts of the C++ standard library on text that the components use: \<^verbatim>\<open>std::to_string\<close>,
  \<^verbatim>\<open>std::from_chars\<close> (base ten, unsigned), \<^verbatim>\<open>std::string::find\<close>, \<^verbatim>\<open>std::getline\<close> and
  \<^verbatim>\<open>std::filesystem::path::parent_path\<close>, with the lemmas that relate printing to parsing and
  joining lines to splitting them.
\<close>

type_synonym path = string

section \<open>Numbers\<close>

definition digit_char :: "nat \<Rightarrow> char" where
  "digit_char n = char_of (48 + n)"

definition is_digit :: "char \<Rightarrow> bool" where
  "is_digit c \<longleftrightarrow> 48 \<le> (of_char c :: nat) \<and> (of_char c :: nat) \<le> 57"

definition digit_value :: "char \<Rightarrow> nat" where
  "digit_value c = of_char c - 48"

fun to_string :: "nat \<Rightarrow> string" where
  "to_string n = (if n < 10 then [digit_char n] else to_string (n div 10) @ [digit_char (n mod 10)])"

declare to_string.simps [simp del]

definition int_to_string :: "int \<Rightarrow> string" where
  "int_to_string n = (if n < 0 then ''-'' @ to_string (nat (- n)) else to_string (nat n))"

definition decimal_value :: "string \<Rightarrow> nat" where
  "decimal_value s = foldl (\<lambda>v c. 10 * v + digit_value c) 0 s"

text \<open>
  \<^verbatim>\<open>std::from_chars(first, last, parsed, 10)\<close> for an unsigned 32-bit number: the longest run of
  digits is taken, an empty run is \<^verbatim>\<open>invalid_argument\<close>, a value past the type's range is
  \<^verbatim>\<open>result_out_of_range\<close>, and otherwise the value and the unread rest are given.
\<close>

definition from_chars_u32 :: "string \<Rightarrow> (u32 \<times> string) option" where
  "from_chars_u32 s = (let ds = takeWhile is_digit s in
     if ds = [] \<or> decimal_value ds \<ge> 2 ^ 32 then None
     else Some (word_of_nat (decimal_value ds), dropWhile is_digit s))"

lemma is_digit_char [simp]: "n < 10 \<Longrightarrow> is_digit (digit_char n)"
  by (simp add: is_digit_def digit_char_def)

lemma digit_value_char [simp]: "n < 10 \<Longrightarrow> digit_value (digit_char n) = n"
  by (simp add: digit_value_def digit_char_def)

lemma digit_chars [simp]:
  "digit_char 0 = CHR ''0''" "digit_char (Suc 0) = CHR ''1''" "digit_char 2 = CHR ''2''" "digit_char 3 = CHR ''3''"
  "digit_char 4 = CHR ''4''" "digit_char 5 = CHR ''5''" "digit_char 6 = CHR ''6''" "digit_char 7 = CHR ''7''"
  "digit_char 8 = CHR ''8''" "digit_char 9 = CHR ''9''"
  by (simp_all add: digit_char_def char_of_def bit_0)

lemma to_string_nonempty [simp]: "to_string n \<noteq> []"
  by (subst to_string.simps) simp

lemma to_string_digits: "c \<in> set (to_string n) \<Longrightarrow> is_digit c"
proof (induction n rule: to_string.induct)
  case (1 n)
  show ?case
  proof (cases "n < 10")
    case True
    with 1(2) show ?thesis by (subst (asm) to_string.simps) simp
  next
    case False
    with 1(2) have "c \<in> set (to_string (n div 10)) \<or> c = digit_char (n mod 10)"
      by (subst (asm) to_string.simps) auto
    with 1(1) [OF False] show ?thesis by auto
  qed
qed

lemma decimal_value_append: "decimal_value (s @ [c]) = 10 * decimal_value s + digit_value c"
  by (simp add: decimal_value_def)

lemma decimal_value_to_string [simp]: "decimal_value (to_string n) = n"
proof (induction n rule: to_string.induct)
  case (1 n)
  then show ?case
    by (subst to_string.simps) (auto simp: decimal_value_append, simp add: decimal_value_def)
qed

lemma to_string_inject [simp]: "to_string m = to_string n \<longleftrightarrow> m = n"
  by (metis decimal_value_to_string)

lemma from_chars_to_string: "n < 2 ^ 32 \<Longrightarrow> from_chars_u32 (to_string n) = Some (word_of_nat n, [])"
proof -
  assume n: "n < 2 ^ 32"
  have run: "takeWhile is_digit (to_string n) = to_string n" "dropWhile is_digit (to_string n) = []"
    using to_string_digits by (auto simp: takeWhile_eq_all_conv dropWhile_eq_Nil_conv)
  show ?thesis using n by (simp add: from_chars_u32_def run)
qed

lemma from_chars_all:
  "from_chars_u32 s = Some (v, []) \<longleftrightarrow>
   s \<noteq> [] \<and> (\<forall>c \<in> set s. is_digit c) \<and> decimal_value s < 2 ^ 32 \<and> v = word_of_nat (decimal_value s)"
proof (cases "\<forall>c \<in> set s. is_digit c")
  case True
  then have run: "takeWhile is_digit s = s" "dropWhile is_digit s = []"
    by (auto simp: takeWhile_eq_all_conv dropWhile_eq_Nil_conv)
  show ?thesis using True by (auto simp: from_chars_u32_def run)
next
  case False
  then have "dropWhile is_digit s \<noteq> []" by (simp add: dropWhile_eq_Nil_conv)
  with False show ?thesis by (auto simp: from_chars_u32_def Let_def)
qed

section \<open>Searching\<close>

definition starts_with :: "string \<Rightarrow> string \<Rightarrow> bool" where
  "starts_with s p \<longleftrightarrow> take (length p) s = p"

text \<open>\<open>find_from s p i\<close> is \<^verbatim>\<open>s.find(p, i)\<close>; nothing stands for \<^verbatim>\<open>npos\<close>.\<close>

fun find_first :: "string \<Rightarrow> string \<Rightarrow> nat option" where
  "find_first [] p = (if p = [] then Some 0 else None)"
| "find_first (c # s) p = (if starts_with (c # s) p then Some 0 else map_option Suc (find_first s p))"

definition find_from :: "string \<Rightarrow> string \<Rightarrow> nat \<Rightarrow> nat option" where
  "find_from s p i = (if i > length s then None else map_option (\<lambda>k. i + k) (find_first (drop i s) p))"

lemma starts_with_append [simp]: "starts_with (p @ s) p"
  by (simp add: starts_with_def)

lemma starts_with_iff: "starts_with s p \<longleftrightarrow> (\<exists>r. s = p @ r)"
  by (metis append_take_drop_id starts_with_append starts_with_def)

lemma find_first_Some:
  "find_first s p = Some k \<longleftrightarrow>
   k \<le> length s \<and> starts_with (drop k s) p \<and> (\<forall>j < k. \<not> starts_with (drop j s) p)"
proof (induction s arbitrary: k)
  case Nil
  then show ?case by (auto simp: starts_with_def)
next
  case (Cons c s)
  show ?case
  proof (cases k)
    case 0
    then show ?thesis by auto
  next
    case (Suc j)
    then show ?thesis using Cons.IH [of j]
      by (auto simp: All_less_Suc2)
  qed
qed

lemma find_first_None: "find_first s p = None \<longleftrightarrow> (\<forall>j \<le> length s. \<not> starts_with (drop j s) p)"
proof (induction s)
  case (Cons c s)
  then show ?case by (simp add: All_less_Suc2 less_Suc_eq_le [symmetric] del: less_Suc_eq_le)
qed (simp add: starts_with_def)

lemma find_first_char: "find_first s [c] = (if c \<in> set s then Some (length (takeWhile (\<lambda>x. x \<noteq> c) s)) else None)"
  by (induction s) (auto simp: starts_with_def)

section \<open>Lines\<close>

text \<open>
  The lines \<^verbatim>\<open>std::getline\<close> gives in turn: the text is cut at each newline and the last line
  may lack one. \<open>complete_lines\<close> leaves out a last line without a newline, which is what the loop
  sees when the stream fails while that line is read.
\<close>

fun getlines :: "string \<Rightarrow> string \<Rightarrow> string list" where
  "getlines acc [] = (if acc = [] then [] else [acc])"
| "getlines acc (c # s) = (if c = CHR 0x0A then acc # getlines [] s else getlines (acc @ [c]) s)"

fun complete_lines :: "string \<Rightarrow> string \<Rightarrow> string list" where
  "complete_lines acc [] = []"
| "complete_lines acc (c # s) = (if c = CHR 0x0A then acc # complete_lines [] s else complete_lines (acc @ [c]) s)"

lemma getlines_line:
  "CHR 0x0A \<notin> set line \<Longrightarrow> getlines acc (line @ CHR 0x0A # s) = (acc @ line) # getlines [] s"
  by (induction line arbitrary: acc) auto

lemma getlines_concat:
  "(\<forall>l \<in> set ls. CHR 0x0A \<notin> set l) \<Longrightarrow> getlines [] (concat (map (\<lambda>l. l @ [CHR 0x0A]) ls)) = ls"
  by (induction ls) (simp_all add: getlines_line)

section \<open>Paths\<close>

definition parent_path :: "path \<Rightarrow> path" where
  "parent_path p = (let r = dropWhile (\<lambda>c. c \<noteq> CHR ''/'') (rev p) in
     if r = [] then ''''
     else let t = dropWhile (\<lambda>c. c = CHR ''/'') r in if t = [] then ''/'' else rev t)"

definition append_path :: "path \<Rightarrow> path \<Rightarrow> path" where
  "append_path a b =
     (if b \<noteq> [] \<and> hd b = CHR ''/'' then b
      else if a = [] \<or> last a = CHR ''/'' then a @ b else a @ ''/'' @ b)"

end
