(* ===== verification/FileSystem.thy ===== *)
theory FileSystem
  imports StdString
begin

text \<open>
  \<^verbatim>\<open>RogueAssistantCpp/Src/Platform/FileSystem.cpp\<close>: reading a whole file within a size limit and
  replacing a file atomically. The operating system is a \<open>Disk\<close>: the regular files, the
  directories, and the list of what will happen at the coming calls, which may work, fail after part
  of the work, or find that another process has replaced the file. \<open>history\<close> lists every state the
  files have been in, so that what a crash at any moment leaves on the disk can be stated.
\<close>

section \<open>The operating system\<close>

datatype OsEvent = Works | Fails string nat | Finds bytes

record Disk =
  files :: "path \<Rightarrow> bytes option"
  directories :: "path set"
  events :: "OsEvent list"
  osMessage :: "path \<Rightarrow> string"
  successMessage :: string
  steadyClock :: "nat \<Rightarrow> int"
  TemporaryFileSequence :: u64
  history :: "(path \<Rightarrow> bytes option) list"

definition nextEvent :: "Disk \<Rightarrow> OsEvent \<times> Disk" where
  "nextEvent d = (case events d of [] \<Rightarrow> (Works, d) | e # es \<Rightarrow> (e, d\<lparr>events := es\<rparr>))"

definition putFiles :: "(path \<Rightarrow> bytes option) \<Rightarrow> Disk \<Rightarrow> Disk" where
  "putFiles fs d = d\<lparr>files := fs, history := history d @ [fs]\<rparr>"

definition os_exists :: "path \<Rightarrow> Disk \<Rightarrow> (bool \<times> string option) \<times> Disk" where
  "os_exists p d = (case nextEvent d of
     (Fails m n, d) \<Rightarrow> ((False, Some m), d)
   | (e, d) \<Rightarrow> ((files d p \<noteq> None \<or> p \<in> directories d, None), d))"

definition os_file_size :: "path \<Rightarrow> Disk \<Rightarrow> nat result \<times> Disk" where
  "os_file_size p d = (case nextEvent d of
     (Fails m n, d) \<Rightarrow> (Err m, d)
   | (e, d) \<Rightarrow> ((case files d p of None \<Rightarrow> Err (osMessage d p) | Some bs \<Rightarrow> Ok (length bs)), d))"

text \<open>Opening gives what the stream will find; another process may have replaced the file.\<close>

definition os_open_read :: "path \<Rightarrow> Disk \<Rightarrow> bytes option \<times> Disk" where
  "os_open_read p d = (case nextEvent d of
     (Fails m n, d) \<Rightarrow> (None, d)
   | (Works, d) \<Rightarrow> (files d p, d)
   | (Finds bs, d) \<Rightarrow> (Some bs, putFiles ((files d)(p \<mapsto> bs)) d))"

text \<open>Reading the open stream to its end: what could be read, and whether all of it was.\<close>

definition os_read :: "bytes \<Rightarrow> Disk \<Rightarrow> (bytes \<times> bool) \<times> Disk" where
  "os_read bs d = (case nextEvent d of
     (Fails m n, d) \<Rightarrow> ((take n bs, False), d)
   | (e, d) \<Rightarrow> ((bs, True), d))"

definition os_create_directories :: "path \<Rightarrow> Disk \<Rightarrow> string option \<times> Disk" where
  "os_create_directories p d = (case nextEvent d of
     (Fails m n, d) \<Rightarrow> (Some m, d)
   | (e, d) \<Rightarrow> if files d p \<noteq> None then (Some (osMessage d p), d)
               else (None, d\<lparr>directories := insert p (directories d)\<rparr>))"

definition os_is_directory :: "path \<Rightarrow> Disk \<Rightarrow> (bool \<times> string option) \<times> Disk" where
  "os_is_directory p d = (case nextEvent d of
     (Fails m n, d) \<Rightarrow> ((False, Some m), d)
   | (e, d) \<Rightarrow> ((p \<in> directories d, None), d))"

definition os_open_write :: "path \<Rightarrow> Disk \<Rightarrow> bool \<times> Disk" where
  "os_open_write p d = (case nextEvent d of
     (Fails m n, d) \<Rightarrow> (False, d)
   | (e, d) \<Rightarrow> if p \<in> directories d \<or> parent_path p \<noteq> '''' \<and> parent_path p \<notin> directories d
               then (False, d) else (True, putFiles ((files d)(p \<mapsto> [])) d))"

text \<open>Writing passes through every prefix of the bytes; a failing write stops at one of them.\<close>

definition os_write :: "path \<Rightarrow> bytes \<Rightarrow> Disk \<Rightarrow> bool \<times> Disk" where
  "os_write p bs d =
     (let (e, d) = nextEvent d;
          n = (case e of Fails m n \<Rightarrow> min n (length bs) | _ \<Rightarrow> length bs);
          states = map (\<lambda>k. (files d)(p \<mapsto> take k bs)) [0..<Suc n]
      in ((case e of Fails m n \<Rightarrow> False | _ \<Rightarrow> True),
          d\<lparr>files := (files d)(p \<mapsto> take n bs), history := history d @ states\<rparr>))"

definition os_rename :: "path \<Rightarrow> path \<Rightarrow> Disk \<Rightarrow> string option \<times> Disk" where
  "os_rename a b d = (case nextEvent d of
     (Fails m n, d) \<Rightarrow> (Some m, d)
   | (e, d) \<Rightarrow> if files d a = None \<or> b \<in> directories d then (Some (osMessage d b), d)
               else (None, putFiles ((files d)(a := None, b := files d a)) d))"

definition os_remove :: "path \<Rightarrow> Disk \<Rightarrow> Disk" where
  "os_remove p d = (case nextEvent d of
     (Fails m n, d) \<Rightarrow> d
   | (e, d) \<Rightarrow> putFiles ((files d)(p := None)) d)"

section \<open>The operations\<close>

definition streamsize_max :: nat where
  "streamsize_max = 2 ^ 63 - 1"

definition MakeTemporarySibling :: "path \<Rightarrow> Disk \<Rightarrow> path \<times> Disk" where
  "MakeTemporarySibling destination d =
     (let sequence = TemporaryFileSequence d;
          timestamp = steadyClock d (unat sequence)
      in (destination @ ''.tmp.'' @ int_to_string timestamp @ ''.'' @ to_string (unat sequence),
          d\<lparr>TemporaryFileSequence := sequence + 1\<rparr>))"

definition ReplaceFile :: "path \<Rightarrow> path \<Rightarrow> Disk \<Rightarrow> unit result \<times> Disk" where
  "ReplaceFile temporary destination d = (case os_rename temporary destination d of
     (None, d) \<Rightarrow> (Ok (), d)
   | (Some m, d) \<Rightarrow> (Err (''cannot replace destination file: '' @ m), d))"

definition EnsureDirectory :: "path \<Rightarrow> Disk \<Rightarrow> unit result \<times> Disk" where
  "EnsureDirectory directory d =
     (if directory = '''' then (Ok (), d)
      else case os_create_directories directory d of
        (Some m, d) \<Rightarrow> (Err (''cannot create directory: '' @ m), d)
      | (None, d) \<Rightarrow> (case os_is_directory directory d of
          ((True, ec), d) \<Rightarrow> (Ok (), d)
        | ((False, ec), d) \<Rightarrow>
            (Err (''cannot create directory: '' @ (case ec of None \<Rightarrow> successMessage d | Some m \<Rightarrow> m)), d)))"

text \<open>
  A file shorter than its size makes \<^verbatim>\<open>read\<close> fail, a longer one is seen by \<^verbatim>\<open>peek\<close>. A
  stream that fails while peeking reports the end of the file, so only the number of bytes counts.
\<close>

definition ReadFile :: "path \<Rightarrow> nat \<Rightarrow> Disk \<Rightarrow> bytes result \<times> Disk" where
  "ReadFile source maximumSize d = (case os_file_size source d of
     (Inl m, d) \<Rightarrow> (Err (''cannot determine file size: '' @ m), d)
   | (Inr fileSize, d) \<Rightarrow>
       if fileSize > maximumSize \<or> fileSize > streamsize_max then (Err ''file exceeds its size limit'', d)
       else case os_open_read source d of
         (None, d) \<Rightarrow> (Err ''cannot open file for reading'', d)
       | (Some content, d) \<Rightarrow> (case os_read content d of
           ((bytes, complete), d) \<Rightarrow>
             if length bytes < fileSize \<or> length bytes > fileSize
             then (Err ''cannot read file exactly'', d) else (Ok bytes, d)))"

definition ReadTextFile :: "path \<Rightarrow> nat \<Rightarrow> Disk \<Rightarrow> string result \<times> Disk" where
  "ReadTextFile source maximumSize d = (case ReadFile source maximumSize d of
     (Inl m, d) \<Rightarrow> (Err m, d)
   | (Inr bytes, d) \<Rightarrow> (Ok (map char_of_byte bytes), d))"

definition WriteFileAtomically :: "path \<Rightarrow> bytes \<Rightarrow> Disk \<Rightarrow> unit result \<times> Disk" where
  "WriteFileAtomically destination bytes d = (case EnsureDirectory (parent_path destination) d of
     (Inl m, d) \<Rightarrow> (Err m, d)
   | (Inr _, d) \<Rightarrow>
      (let (temporary, d) = MakeTemporarySibling destination d in
       if length bytes > streamsize_max then (Err ''file is too large to write'', d)
       else case os_open_write temporary d of
         (False, d) \<Rightarrow> (Err ''cannot open temporary file for writing'', d)
       | (True, d) \<Rightarrow> (case os_write temporary bytes d of
           (False, d) \<Rightarrow> (Err ''cannot write temporary file'', os_remove temporary d)
         | (True, d) \<Rightarrow> (case ReplaceFile temporary destination d of
             (Inr _, d) \<Rightarrow> (Ok (), d)
           | (Inl m, d) \<Rightarrow> (Err m, os_remove temporary d)))))"

definition WriteTextFileAtomically :: "path \<Rightarrow> string \<Rightarrow> Disk \<Rightarrow> unit result \<times> Disk" where
  "WriteTextFileAtomically destination t d = WriteFileAtomically destination (map byte_of_char t) d"

section \<open>What the calls change\<close>

text \<open>
  \<open>only_touches S d d'\<close>: between the two states, and in every state passed through, the files
  outside \<open>S\<close> are as they were.
\<close>

definition only_touches :: "path set \<Rightarrow> Disk \<Rightarrow> Disk \<Rightarrow> bool" where
  "only_touches S d d' \<longleftrightarrow> (\<exists>hs. history d' = history d @ hs
     \<and> (\<forall>h \<in> insert (files d') (set hs). \<forall>q. q \<notin> S \<longrightarrow> h q = files d q))"

lemma only_touches_refl [simp]: "only_touches S d d"
  by (simp add: only_touches_def)

lemma only_touches_trans: "only_touches S d e \<Longrightarrow> only_touches S e f \<Longrightarrow> only_touches S d f"
  unfolding only_touches_def by (elim exE conjE) (simp add: ball_Un)

lemma only_touches_files: "only_touches S d d' \<Longrightarrow> q \<notin> S \<Longrightarrow> files d' q = files d q"
  by (auto simp: only_touches_def)

lemma only_touches_mono: "only_touches S d d' \<Longrightarrow> S \<subseteq> T \<Longrightarrow> only_touches T d d'"
  unfolding only_touches_def by blast

lemma only_touches_same:
  "files d' = files d \<Longrightarrow> history d' = history d \<Longrightarrow> only_touches S d d'"
  by (simp add: only_touches_def)

lemma only_touches_put: "(\<forall>q. q \<notin> S \<longrightarrow> fs q = files d q) \<Longrightarrow> only_touches S d (putFiles fs d)"
  by (simp add: only_touches_def putFiles_def)

lemma nextEvent_touches: "nextEvent d = (e, d') \<Longrightarrow> only_touches S d d'"
  by (auto simp: nextEvent_def intro: only_touches_same split: list.splits)

lemma nextEvent_put:
  "nextEvent d = (e, d') \<Longrightarrow> (\<forall>q. q \<notin> S \<longrightarrow> fs q = files d' q) \<Longrightarrow> only_touches S d (putFiles fs d')"
  by (blast intro: only_touches_trans nextEvent_touches only_touches_put)

lemma nextEvent_put1: "nextEvent d = (e, d') \<Longrightarrow> only_touches {p} d (putFiles ((files d')(p := x)) d')"
  by (rule nextEvent_put) simp_all

lemma pure_calls_touch:
  "os_exists p d = (r1, d1) \<Longrightarrow> only_touches S d d1"
  "os_file_size p d = (r2, d2) \<Longrightarrow> only_touches S d d2"
  "os_read bs d = (r3, d3) \<Longrightarrow> only_touches S d d3"
  "os_is_directory p d = (r4, d4) \<Longrightarrow> only_touches S d d4"
  by (auto simp: os_exists_def os_file_size_def os_read_def os_is_directory_def
      split: prod.splits OsEvent.splits option.splits intro: nextEvent_touches)

lemma os_create_directories_touches: "os_create_directories p d = (r, d') \<Longrightarrow> only_touches S d d'"
  by (auto simp: os_create_directories_def split: prod.splits OsEvent.splits if_splits
      intro: nextEvent_touches only_touches_trans [OF nextEvent_touches only_touches_same])

lemma os_open_read_touches: "os_open_read p d = (r, d') \<Longrightarrow> only_touches {p} d d'"
  by (auto simp: os_open_read_def split: prod.splits OsEvent.splits intro: nextEvent_touches nextEvent_put1)

lemma os_open_read_Some: "os_open_read p d = (Some c, d') \<Longrightarrow> files d' p = Some c"
  by (auto simp: os_open_read_def putFiles_def split: prod.splits OsEvent.splits)

lemma os_open_write_touches: "os_open_write p d = (r, d') \<Longrightarrow> only_touches {p} d d'"
  by (auto simp: os_open_write_def split: prod.splits OsEvent.splits if_splits
      intro: nextEvent_touches nextEvent_put1)

lemma os_write_touches: "os_write p bs d = (r, d') \<Longrightarrow> only_touches {p} d d'"
  by (cases "nextEvent d")
    (auto simp: os_write_def Let_def only_touches_def nextEvent_def split: list.splits prod.splits)

lemma os_write_True: "os_write p bs d = (True, d') \<Longrightarrow> files d' p = Some bs"
  by (auto simp: os_write_def Let_def split: prod.splits OsEvent.splits)

lemma os_remove_touches: "only_touches {p} d (os_remove p d)"
  by (auto simp: os_remove_def split: prod.splits OsEvent.splits intro: nextEvent_touches nextEvent_put1)

lemma EnsureDirectory_touches: "EnsureDirectory p d = (r, d') \<Longrightarrow> only_touches S d d'"
  by (auto simp: EnsureDirectory_def split: if_splits prod.splits option.splits bool.splits
      dest!: os_create_directories_touches [where S = S] pure_calls_touch [where S = S]
      intro: only_touches_trans)

text \<open>A temporary sibling of a file.\<close>

definition is_temporary :: "path \<Rightarrow> path \<Rightarrow> bool" where
  "is_temporary destination q \<longleftrightarrow>
     (\<exists>ts n. q = destination @ ''.tmp.'' @ int_to_string ts @ ''.'' @ to_string n)"

lemma is_temporary_neq: "is_temporary destination q \<Longrightarrow> q \<noteq> destination"
  by (auto simp: is_temporary_def)

lemma MakeTemporarySibling_is: "MakeTemporarySibling p d = (t, d') \<Longrightarrow> is_temporary p t \<and> only_touches S d d'"
  by (auto simp: MakeTemporarySibling_def Let_def is_temporary_def intro: only_touches_same)

lemma ReplaceFile_Ok:
  "ReplaceFile t p d = (Ok u, d') \<Longrightarrow>
   \<exists>e. only_touches S d e \<and> files e t \<noteq> None \<and> files d' = (files e)(t := None, p := files e t)
     \<and> history d' = history e @ [files d']"
  by (auto simp: ReplaceFile_def os_rename_def putFiles_def split: prod.splits option.splits OsEvent.splits if_splits
      dest!: nextEvent_touches [where S = S])

lemma ReplaceFile_Err: "ReplaceFile t p d = (Err m, d') \<Longrightarrow> only_touches S d d'"
  by (auto simp: ReplaceFile_def os_rename_def split: prod.splits option.splits OsEvent.splits if_splits
      dest!: nextEvent_touches [where S = S])

text \<open>
  The two outcomes of an atomic replacement: an error, after which only temporary siblings can
  differ, or success, where the last state the files pass through is the first in which the
  destination differs, and there it holds the new bytes.
\<close>

definition siblings :: "path \<Rightarrow> path set" where
  "siblings p = {q. is_temporary p q}"

lemma siblings_iff [simp]: "q \<in> siblings p \<longleftrightarrow> is_temporary p q"
  by (simp add: siblings_def)

lemma touches_sibling: "only_touches {t} d d' \<Longrightarrow> is_temporary p t \<Longrightarrow> only_touches (siblings p) d d'"
  by (erule only_touches_mono) simp

lemma WriteFileAtomically_Err:
  assumes "WriteFileAtomically p bs d = (Err m, d')"
  shows "only_touches (siblings p) d d'"
proof -
  obtain r1 d1 t d2 where E: "EnsureDirectory (parent_path p) d = (r1, d1)" and M: "MakeTemporarySibling p d1 = (t, d2)"
    by (metis surj_pair)
  have t: "is_temporary p t" and d1: "only_touches (siblings p) d d1" and d2: "only_touches (siblings p) d d2"
    using EnsureDirectory_touches [OF E] MakeTemporarySibling_is [OF M] by (blast intro: only_touches_trans)+
  have w3: "only_touches (siblings p) d d3" if "os_open_write t d2 = (b, d3)" for b d3
    using only_touches_trans [OF d2 touches_sibling [OF os_open_write_touches [OF that] t]] .
  have w4: "only_touches (siblings p) d d4" if "os_open_write t d2 = (b, d3)" "os_write t bs d3 = (c, d4)" for b c d3 d4
    using only_touches_trans [OF w3 [OF that(1)] touches_sibling [OF os_write_touches [OF that(2)] t]] .
  have w5: "only_touches (siblings p) d (os_remove t d4)" if "only_touches (siblings p) d d4" for d4
    using only_touches_trans [OF that touches_sibling [OF os_remove_touches t]] .
  have w6: "only_touches (siblings p) d d5" if "only_touches (siblings p) d d4" "ReplaceFile t p d4 = (Err e, d5)" for d4 d5 e
    using only_touches_trans [OF that(1) ReplaceFile_Err [OF that(2)]] .
  show ?thesis
    using assms E M d1 d2
    by (auto simp: WriteFileAtomically_def split: prod.splits sum.splits bool.splits if_splits
        intro: w5 w6 [OF w4] dest: w3 w4)
qed

lemma WriteFileAtomically_Ok:
  assumes "WriteFileAtomically p bs d = (Ok u, d')"
  shows "\<exists>e t. only_touches (siblings p) d e \<and> is_temporary p t
    \<and> files d' = (files e)(t := None, p \<mapsto> bs) \<and> history d' = history e @ [files d']"
proof -
  from assms obtain d1 t d2 d3 d4 where
      "EnsureDirectory (parent_path p) d = (Ok (), d1)" "MakeTemporarySibling p d1 = (t, d2)"
      "os_open_write t d2 = (True, d3)" "os_write t bs d3 = (True, d4)" "ReplaceFile t p d4 = (Ok (), d')"
    by (auto simp: WriteFileAtomically_def Let_def split: prod.splits sum.splits bool.splits if_splits)
  note run = this
  have t: "is_temporary p t" and "only_touches (siblings p) d d2"
    using EnsureDirectory_touches [OF run(1)] MakeTemporarySibling_is [OF run(2)] by (blast intro: only_touches_trans)+
  then have d4: "only_touches (siblings p) d d4"
    using os_open_write_touches [OF run(3)] os_write_touches [OF run(4)]
    by (blast intro: only_touches_trans touches_sibling)
  note d4 = d4 os_write_True [OF run(4)] and rep = run(5)
  from ReplaceFile_Ok [OF rep, of "{}"] obtain e where
      e: "only_touches {} d4 e" "files d' = (files e)(t := None, p := files e t)" "history d' = history e @ [files d']"
    by blast
  have "files e t = Some bs" using only_touches_files [OF e(1)] d4(2) by simp
  moreover have "only_touches (siblings p) d e"
    using d4(1) e(1) by (blast intro: only_touches_trans only_touches_mono)
  ultimately show ?thesis using t e by (intro exI [of _ e] exI [of _ t]) simp
qed

lemma WriteFileAtomically_touches:
  assumes "WriteFileAtomically p bs d = (r, d')"
  shows "only_touches (insert p (siblings p)) d d'"
proof (cases r)
  case (Inl m)
  with assms show ?thesis by (blast intro: WriteFileAtomically_Err only_touches_mono)
next
  case (Inr u)
  with assms obtain e t where "only_touches (siblings p) d e" "is_temporary p t"
      "files d' = (files e)(t := None, p \<mapsto> bs)" "history d' = history e @ [files d']"
    using WriteFileAtomically_Ok by blast
  moreover from this have "only_touches (insert p (siblings p)) e d'"
    unfolding only_touches_def by (intro exI [of _ "[files d']"]) auto
  ultimately show ?thesis by (blast intro: only_touches_trans only_touches_mono)
qed

lemma ReadFile_touches: "ReadFile p n d = (r, d') \<Longrightarrow> only_touches {p} d d'"
  by (auto simp: ReadFile_def split: prod.splits sum.splits option.splits if_splits
      dest!: pure_calls_touch [where S = "{p}"] os_open_read_touches intro: only_touches_trans)

lemma ReadFile_Ok:
  assumes "ReadFile p n d = (Ok bs, d')"
  shows "\<exists>c. files d' p = Some c \<and> bs = take (length bs) c \<and> length bs \<le> n"
proof -
  from assms obtain s c d1 d2 b where "os_file_size p d = (Ok s, d1)" "s \<le> n"
      "os_open_read p d1 = (Some c, d2)" "os_read c d2 = ((bs, b), d')" "length bs = s"
    by (auto simp: ReadFile_def not_less split: prod.splits sum.splits option.splits if_splits)
  moreover from this have "files d' p = Some c"
    using only_touches_files [OF pure_calls_touch(3) [of c d2 "(bs, b)" d' "{}"], of p]
    by (simp add: os_open_read_Some)
  moreover have "bs = take (length bs) c"
    using \<open>os_read c d2 = ((bs, b), d')\<close>
    by (auto simp: os_read_def min_def split: prod.splits OsEvent.splits)
  ultimately show ?thesis by blast
qed

text \<open>With nothing going wrong, reading gives exactly the file.\<close>

lemma nextEvent_quiet: "events d = [] \<Longrightarrow> nextEvent d = (Works, d)"
  by (simp add: nextEvent_def)

lemma ReadFile_quiet:
  "events d = [] \<Longrightarrow> files d p = Some c \<Longrightarrow> length c \<le> n \<Longrightarrow> length c \<le> streamsize_max \<Longrightarrow>
   ReadFile p n d = (Ok c, d)"
  by (simp add: ReadFile_def os_file_size_def os_open_read_def os_read_def nextEvent_quiet)

end
