(* ===== verification/FileStore.thy ===== *)
theory FileStore
  imports FileSystem
begin

text \<open>
  The contract of the file operations that their clients (the Home Box file, the settings, the
  exported script, the paths of the application) rely on, as a locale, and its interpretation on the
  operations of \<open>FileSystem\<close>. A store is \<open>calm\<close> while no other process replaces its
  files; \<open>always I\<close> says that the files satisfy \<open>I\<close> now and did in every state they passed through,
  so whatever holds always also holds after a crash.
\<close>

type_synonym contents = "path \<Rightarrow> bytes option"

locale file_store =
  fixes readf :: "path \<Rightarrow> nat \<Rightarrow> 's \<Rightarrow> bytes result \<times> 's"
    and writef :: "path \<Rightarrow> bytes \<Rightarrow> 's \<Rightarrow> unit result \<times> 's"
    and existsf :: "path \<Rightarrow> 's \<Rightarrow> (bool \<times> string option) \<times> 's"
    and content :: "'s \<Rightarrow> contents"
    and always :: "(contents \<Rightarrow> bool) \<Rightarrow> 's \<Rightarrow> bool"
    and calm :: "'s \<Rightarrow> bool"
  assumes read_calm: "calm s \<Longrightarrow> readf p n s = (rd, s') \<Longrightarrow> calm s' \<and> content s' = content s
      \<and> (always I s \<longrightarrow> always I s')"
    and read_ok: "calm s \<Longrightarrow> readf p n s = (Ok bs, s') \<Longrightarrow> content s p = Some bs \<and> length bs \<le> n"
    and exists_calm: "calm s \<Longrightarrow> existsf p s = (ex, s') \<Longrightarrow> calm s' \<and> content s' = content s
      \<and> (always I s \<longrightarrow> always I s')"
    and exists_no: "existsf p s = ((False, None), s') \<Longrightarrow> content s p = None"
    and write_calm: "calm s \<Longrightarrow> writef p bs s = (r, s') \<Longrightarrow> calm s'"
    and write_ok: "writef p bs s = (Ok u, s') \<Longrightarrow> content s' p = Some bs"
    and write_err: "writef p bs s = (Err m, s') \<Longrightarrow> content s' p = content s p"
    and write_frame: "writef p bs s = (r, s') \<Longrightarrow> q \<noteq> p \<Longrightarrow> \<not> is_temporary p q \<Longrightarrow> content s' q = content s q"
    and write_always: "writef p bs s = (r, s') \<Longrightarrow> always I s \<Longrightarrow>
      (\<And>h. (\<forall>q. q \<noteq> p \<longrightarrow> \<not> is_temporary p q \<longrightarrow> h q = content s q) \<Longrightarrow> h p = content s p \<or> h p = Some bs \<Longrightarrow> I h)
      \<Longrightarrow> always I s'"
    and always_now: "always I s \<Longrightarrow> I (content s)"
begin

lemma write_result: "writef p bs s = (r, s') \<Longrightarrow> content s' p = (if is_ok r then Some bs else content s p)"
  by (cases r) (auto simp: write_ok write_err)

text \<open>Writing a file and reading it back.\<close>

lemma write_then_read:
  assumes "calm s" and "writef p bs s = (Ok u, s')" and "readf p n s' = (Ok c, s'')"
  shows "c = bs"
  using read_ok [OF write_calm [OF assms(1,2)] assms(3)] write_ok [OF assms(2)] by simp

text \<open>
  Replacing a file after keeping its old content in another: at every moment the file holds the old
  or the new content, and once it holds the new one the backup holds the old one.
\<close>

lemma backup_then_replace:
  assumes calm: "calm s" and p: "content s p = Some old" and b: "b \<noteq> p" "\<not> is_temporary p b" "\<not> is_temporary b p"
    and backup: "writef b old s = (Ok u, s1)" and replace: "writef p new s1 = (r, s2)"
    and now: "always (\<lambda>h. h p = Some old \<or> h p = Some new \<and> h b = Some old) s"
  shows "always (\<lambda>h. h p = Some old \<or> h p = Some new \<and> h b = Some old) s2
    \<and> content s2 b = Some old \<and> content s2 p = (if is_ok r then Some new else Some old)"
proof -
  let ?I = "\<lambda>h. h p = Some old \<or> h p = Some new \<and> h b = Some old"
  have "always ?I s1"
    using b p by (intro write_always [OF backup now]) auto
  moreover have s1: "content s1 b = Some old" "content s1 p = Some old"
    using write_ok [OF backup] write_frame [OF backup, of p] b p by auto
  ultimately have "always ?I s2"
    using b by (intro write_always [OF replace]) auto
  then show ?thesis
    using s1 write_result [OF replace] write_frame [OF replace, of b] b by simp
qed

end

section \<open>The operations provide the contract\<close>

definition calm_disk :: "Disk \<Rightarrow> bool" where
  "calm_disk d \<longleftrightarrow> (\<forall>bs. Finds bs \<notin> set (events d))"

definition always_disk :: "(contents \<Rightarrow> bool) \<Rightarrow> Disk \<Rightarrow> bool" where
  "always_disk I d \<longleftrightarrow> I (files d) \<and> (\<forall>h \<in> set (history d). I h)"

lemma calm_nextEvent: "nextEvent d = (e, d') \<Longrightarrow> calm_disk d \<Longrightarrow> calm_disk d' \<and> (\<forall>bs. e \<noteq> Finds bs)"
  by (auto simp: nextEvent_def calm_disk_def split: list.splits)

lemma events_putFiles [simp]: "events (putFiles fs d) = events d"
  by (simp add: putFiles_def)

lemma calm_calls:
  "os_exists p d = (r1, d1) \<Longrightarrow> calm_disk d \<Longrightarrow> calm_disk d1"
  "os_file_size p d = (r2, d2) \<Longrightarrow> calm_disk d \<Longrightarrow> calm_disk d2"
  "os_open_read p d = (r3, d3) \<Longrightarrow> calm_disk d \<Longrightarrow> calm_disk d3"
  "os_read bs d = (r4, d4) \<Longrightarrow> calm_disk d \<Longrightarrow> calm_disk d4"
  "os_create_directories p d = (r5, d5) \<Longrightarrow> calm_disk d \<Longrightarrow> calm_disk d5"
  "os_is_directory p d = (r6, d6) \<Longrightarrow> calm_disk d \<Longrightarrow> calm_disk d6"
  "os_open_write p d = (r7, d7) \<Longrightarrow> calm_disk d \<Longrightarrow> calm_disk d7"
  "os_write p bs d = (r8, d8) \<Longrightarrow> calm_disk d \<Longrightarrow> calm_disk d8"
  "os_rename p q d = (r9, d9) \<Longrightarrow> calm_disk d \<Longrightarrow> calm_disk d9"
  "calm_disk d \<Longrightarrow> calm_disk (os_remove p d)"
  by (auto simp: os_exists_def os_file_size_def os_open_read_def os_read_def os_create_directories_def
      os_is_directory_def os_open_write_def os_write_def os_rename_def os_remove_def Let_def calm_disk_def
      dest!: calm_nextEvent [unfolded calm_disk_def] split: prod.splits OsEvent.splits option.splits if_splits)

lemma calm_ReadFile: "ReadFile p n d = (r, d') \<Longrightarrow> calm_disk d \<Longrightarrow> calm_disk d'"
  by (auto simp: ReadFile_def dest: calm_calls split: prod.splits sum.splits option.splits if_splits)

lemma calm_EnsureDirectory: "EnsureDirectory p d = (r, d') \<Longrightarrow> calm_disk d \<Longrightarrow> calm_disk d'"
  by (auto simp: EnsureDirectory_def dest: calm_calls split: prod.splits bool.splits option.splits if_splits)

lemma calm_MakeTemporarySibling: "MakeTemporarySibling p d = (t, d') \<Longrightarrow> calm_disk d \<Longrightarrow> calm_disk d'"
  by (auto simp: MakeTemporarySibling_def Let_def calm_disk_def)

lemma calm_ReplaceFile: "ReplaceFile p q d = (r, d') \<Longrightarrow> calm_disk d \<Longrightarrow> calm_disk d'"
  by (auto simp: ReplaceFile_def dest: calm_calls split: prod.splits option.splits)

lemma calm_WriteFileAtomically: "WriteFileAtomically p bs d = (r, d') \<Longrightarrow> calm_disk d \<Longrightarrow> calm_disk d'"
  by (auto simp: WriteFileAtomically_def split: prod.splits sum.splits bool.splits if_splits
      dest!: calm_EnsureDirectory calm_MakeTemporarySibling calm_calls(7,8) calm_ReplaceFile intro!: calm_calls(10))

lemma calm_open_read: "os_open_read p d = (r, d') \<Longrightarrow> calm_disk d \<Longrightarrow>
    files d' = files d \<and> history d' = history d \<and> (\<forall>c. r = Some c \<longrightarrow> files d p = Some c)"
  by (auto simp: os_open_read_def nextEvent_def calm_disk_def split: list.splits OsEvent.splits)

lemma pure_calls_same:
  "os_file_size p d = (r2, d2) \<Longrightarrow> files d2 = files d \<and> history d2 = history d"
  "os_read bs d = (r3, d3) \<Longrightarrow> files d3 = files d \<and> history d3 = history d"
  "os_exists p d = (r1, d1) \<Longrightarrow> files d1 = files d \<and> history d1 = history d"
  by (auto simp: os_exists_def os_file_size_def os_read_def nextEvent_def
      split: list.splits OsEvent.splits option.splits)

lemma reading_calls:
  "os_file_size p d = (r1, d1) \<Longrightarrow> calm_disk d \<Longrightarrow> calm_disk d1 \<and> files d1 = files d \<and> history d1 = history d"
  "os_open_read p d = (r2, d2) \<Longrightarrow> calm_disk d \<Longrightarrow> calm_disk d2 \<and> files d2 = files d \<and> history d2 = history d"
  "os_read bs d = (r3, d3) \<Longrightarrow> calm_disk d \<Longrightarrow> calm_disk d3 \<and> files d3 = files d \<and> history d3 = history d"
  by (simp_all add: calm_calls(2) pure_calls_same(1) calm_calls(3) calm_open_read calm_calls(4) pure_calls_same(2))

lemma ReadFile_same:
  "ReadFile p n d = (r, d') \<Longrightarrow> calm_disk d \<Longrightarrow> files d' = files d \<and> history d' = history d"
  by (auto simp: ReadFile_def split: prod.splits sum.splits option.splits if_splits dest!: reading_calls)

lemma ReadFile_calm_ok:
  assumes "ReadFile p n d = (Ok bs, d')" and "calm_disk d"
  shows "files d p = Some bs \<and> length bs \<le> n"
proof -
  from assms(1) obtain s c d1 d2 b where run: "os_file_size p d = (Ok s, d1)" "s \<le> n"
      "os_open_read p d1 = (Some c, d2)" "os_read c d2 = ((bs, b), d')" "length bs = s"
    by (auto simp: ReadFile_def not_less split: prod.splits sum.splits option.splits if_splits)
  have d1: "calm_disk d1" "files d1 = files d"
    using calm_calls(2) [OF run(1) assms(2)] pure_calls_same(1) [OF run(1)] by auto
  then have c: "files d p = Some c" using calm_open_read [OF run(3)] by auto
  then have "length c = s" using run(1)
    by (auto simp: os_file_size_def nextEvent_def split: list.splits OsEvent.splits option.splits)
  moreover have "bs = take (length bs) c"
    using run(4) by (auto simp: os_read_def min_def split: prod.splits OsEvent.splits)
  ultimately show ?thesis using c run(2,5) by simp
qed

lemma always_touches:
  assumes "only_touches S d d'" and "always_disk I d" and "\<And>h. (\<forall>q. q \<notin> S \<longrightarrow> h q = files d q) \<Longrightarrow> I h"
  shows "always_disk I d'"
  using assms unfolding only_touches_def always_disk_def by (elim exE conjE) (simp add: ball_Un)

lemma WriteFileAtomically_always:
  assumes run: "WriteFileAtomically p bs d = (r, d')" and I: "always_disk I d"
    and step: "\<And>h. (\<forall>q. q \<noteq> p \<longrightarrow> \<not> is_temporary p q \<longrightarrow> h q = files d q) \<Longrightarrow> h p = files d p \<or> h p = Some bs \<Longrightarrow> I h"
  shows "always_disk I d'"
proof -
  have before: "always_disk I e" if "only_touches (siblings p) d e" for e
    using is_temporary_neq by (intro always_touches [OF that I] step) auto
  show ?thesis
  proof (cases r)
    case (Inl m)
    with run show ?thesis by (blast intro: before WriteFileAtomically_Err)
  next
    case (Inr u)
    with run obtain e t where e: "only_touches (siblings p) d e" "is_temporary p t"
        "files d' = (files e)(t := None, p \<mapsto> bs)" "history d' = history e @ [files d']"
      using WriteFileAtomically_Ok by blast
    have "I (files d')"
      using e(2,3) only_touches_files [OF e(1)] by (intro step) auto
    with before [OF e(1)] show ?thesis by (simp add: always_disk_def e(4))
  qed
qed

interpretation store: file_store ReadFile WriteFileAtomically os_exists files always_disk calm_disk
proof
  fix p n d r d' I assume "calm_disk d" and "ReadFile p n d = (r, d')"
  then show "calm_disk d' \<and> files d' = files d \<and> (always_disk I d \<longrightarrow> always_disk I d')"
    using calm_ReadFile ReadFile_same by (auto simp: always_disk_def)
next
  fix p d r d' I assume "calm_disk d" and "os_exists p d = (r, d')"
  then show "calm_disk d' \<and> files d' = files d \<and> (always_disk I d \<longrightarrow> always_disk I d')"
    using calm_calls(1) pure_calls_same(3) by (auto simp: always_disk_def)
next
  fix p d d' assume "os_exists p d = ((False, None), d')"
  then show "files d p = None"
    by (auto simp: os_exists_def nextEvent_def split: list.splits OsEvent.splits)
next
  fix p bs d u d' assume "WriteFileAtomically p bs d = (Ok u, d')"
  then show "files d' p = Some bs" using WriteFileAtomically_Ok by fastforce
next
  fix p bs d m d' assume "WriteFileAtomically p bs d = (Err m, d')"
  then show "files d' p = files d p"
    using only_touches_files [OF WriteFileAtomically_Err, of p bs d m d' p] is_temporary_neq by auto
next
  fix p bs d r d' q assume "WriteFileAtomically p bs d = (r, d')" "q \<noteq> p" "\<not> is_temporary p q"
  then show "files d' q = files d q"
    using only_touches_files [OF WriteFileAtomically_touches, of p bs d r d' q] by auto
next
  fix p bs d r d' I
  assume "WriteFileAtomically p bs d = (r, d')" and "always_disk I d"
    and "\<And>h. (\<forall>q. q \<noteq> p \<longrightarrow> \<not> is_temporary p q \<longrightarrow> h q = files d q) \<Longrightarrow> h p = files d p \<or> h p = Some bs \<Longrightarrow> I h"
  then show "always_disk I d'" by (rule WriteFileAtomically_always)
qed (simp_all add: calm_WriteFileAtomically ReadFile_calm_ok, simp add: always_disk_def)

section \<open>Properties\<close>

text \<open>
  C18. Replacing a file is atomic, whatever fails on the way and wherever the program is stopped: in
  every state the disk passes through, the destination holds its old content or, when the call
  succeeds, the complete new content, and no other file changes except temporary siblings of the
  destination. The call leaves the new content when it succeeds and the old one when it fails.
\<close>

theorem atomic_replace:
  assumes "WriteFileAtomically p bs d = (r, d')"
  shows "\<exists>hs. history d' = history d @ hs
    \<and> (\<forall>h \<in> set hs. (h p = files d p \<or> is_ok r \<and> h p = Some bs)
         \<and> (\<forall>q. q \<noteq> p \<longrightarrow> \<not> is_temporary p q \<longrightarrow> h q = files d q))
    \<and> files d' p = (if is_ok r then Some bs else files d p)"
proof -
  have frame: "\<forall>q. q \<noteq> p \<longrightarrow> \<not> is_temporary p q \<longrightarrow> h q = files d q"
    if "only_touches (insert p (siblings p)) d d'" "history d' = history d @ hs" "h \<in> set hs" for h hs
    using that by (auto simp: only_touches_def)
  have old: "\<exists>hs. history e = history d @ hs \<and> (\<forall>h \<in> insert (files e) (set hs). h p = files d p)"
    if "only_touches (siblings p) d e" for e
    using that is_temporary_neq unfolding only_touches_def by fastforce
  show ?thesis
  proof (cases r)
    case (Inl m)
    then have "only_touches (siblings p) d d'" using assms WriteFileAtomically_Err by blast
    with old [OF this] frame [OF WriteFileAtomically_touches [OF assms]] show ?thesis
      by (auto simp: Inl)
  next
    case (Inr u)
    with assms obtain e t where e: "only_touches (siblings p) d e" "is_temporary p t"
        "files d' = (files e)(t := None, p \<mapsto> bs)" "history d' = history e @ [files d']"
      using WriteFileAtomically_Ok by blast
    from old [OF e(1)] obtain hs where "history e = history d @ hs" "\<forall>h \<in> insert (files e) (set hs). h p = files d p"
      by blast
    with e(3,4) frame [OF WriteFileAtomically_touches [OF assms]] show ?thesis
      by (intro exI [of _ "hs @ [files d']"]) (auto simp: Inr)
  qed
qed

definition exampleDisk :: "OsEvent list \<Rightarrow> Disk" where
  "exampleDisk es = \<lparr>files = [''s/f'' \<mapsto> [9]], directories = {''s''}, events = es,
     osMessage = (\<lambda>p. ''no such file''), successMessage = ''success'', steadyClock = (\<lambda>n. 7),
     TemporaryFileSequence = 0, history = []\<rparr>"

theorem atomic_replace_witness:
  "let (r, d') = WriteFileAtomically ''s/f'' [1, 2, 3] (exampleDisk [Works, Works, Works, Fails ''disk full'' 2])
   in r = Err ''cannot write temporary file'' \<and> files d' ''s/f'' = Some [9] \<and> length (history d') = 5
      \<and> (\<forall>h \<in> set (history d'). h ''s/f'' = Some [9])"
proof -
  let ?d = "exampleDisk [Works, Works, Works, Fails ''disk full'' 2]"
  obtain r d' where run: "WriteFileAtomically ''s/f'' [1, 2, 3] ?d = (r, d')" by (metis surj_pair)
  then have "r = Err ''cannot write temporary file''" "length (history d') = 5"
    by (auto simp: WriteFileAtomically_def EnsureDirectory_def parent_path_def exampleDisk_def nextEvent_def
        os_create_directories_def os_is_directory_def MakeTemporarySibling_def int_to_string_def
        to_string.simps os_open_write_def putFiles_def os_write_def os_remove_def Let_def streamsize_max_def)
  with atomic_replace [OF run] show ?thesis
    by (auto simp: run) (auto simp: exampleDisk_def)
qed

end
