(* ===== verification/HomeBoxFile.thy ===== *)
theory HomeBoxFile
  imports HomeBoxFormat FileStore
begin

text \<open>
  Loading and saving the Home Box: the second part of
  \<^verbatim>\<open>RogueAssistantCpp/Src/Storage/HomeBoxFile.cpp\<close>, over the files of \<open>FileSystem\<close>.
\<close>

datatype HomeBoxLoadSource = SourceNone | Primary | Backup

record HomeBoxLoadResult =
  loadedData :: "HomeBoxData option"
  loadSource :: HomeBoxLoadSource
  primaryMissing :: bool
  primaryInvalid :: bool
  loadWarning :: string
  loadError :: string

definition emptyLoadResult :: HomeBoxLoadResult where
  "emptyLoadResult = \<lparr>loadedData = None, loadSource = SourceNone, primaryMissing = False,
     primaryInvalid = False, loadWarning = '''', loadError = ''''\<rparr>"

definition Succeeded :: "HomeBoxLoadResult \<Rightarrow> bool" where
  "Succeeded result \<longleftrightarrow> loadedData result \<noteq> None"

definition NotFound :: "HomeBoxLoadResult \<Rightarrow> bool" where
  "NotFound result \<longleftrightarrow> loadedData result = None \<and> primaryMissing result \<and> loadError result = ''''"

definition ReadCandidate :: "path \<Rightarrow> HomeBoxDimensions \<Rightarrow> Disk \<Rightarrow> (bytes \<times> HomeBoxData) result \<times> Disk" where
  "ReadCandidate p expected d = (case ReadFile p MaximumHomeBoxFileSize d of
     (Inl e, d) \<Rightarrow> (Err e, d)
   | (Inr bytes, d) \<Rightarrow> (andThen (DecodeHomeBox bytes expected) (\<lambda>data. Ok (bytes, data)), d))"

definition HomeBoxBackupPath :: "path \<Rightarrow> path" where
  "HomeBoxBackupPath primary = primary @ ''.bak''"

text \<open>The part of the loader that runs when the primary gave nothing.\<close>

definition LoadBackup :: "path \<Rightarrow> HomeBoxDimensions \<Rightarrow> HomeBoxLoadResult \<Rightarrow> string \<Rightarrow> Disk
    \<Rightarrow> HomeBoxLoadResult \<times> Disk" where
  "LoadBackup primary expected result primaryError d =
     (let backup = HomeBoxBackupPath primary in
      case os_exists backup d of
        ((found, Some ec), d) \<Rightarrow> (result\<lparr>loadError := ''cannot inspect the Home Box backup: '' @ ec\<rparr>, d)
      | ((True, None), d) \<Rightarrow> (case ReadCandidate backup expected d of
          (Inr (bytes, loaded), d) \<Rightarrow>
            (result\<lparr>loadedData := Some loaded, loadSource := Backup, loadWarning :=
               (if primaryInvalid result
                then ''Home Box primary is invalid; recovered from .bak. The invalid primary will not be overwritten.''
                else ''Home Box primary is missing; recovered from .bak.'')\<rparr>, d)
        | (Inl backupError, d) \<Rightarrow>
            (let message = ''Home Box backup is invalid: '' @ backupError in
             (result\<lparr>loadError := (if primaryInvalid result
                then ''Home Box primary is invalid: '' @ primaryError @ ''; '' @ message else message)\<rparr>, d)))
      | ((False, None), d) \<Rightarrow>
          (if primaryInvalid result then result\<lparr>loadError := ''Home Box primary is invalid: '' @ primaryError\<rparr>
           else result, d))"

definition LoadHomeBoxFile :: "path \<Rightarrow> HomeBoxDimensions \<Rightarrow> Disk \<Rightarrow> HomeBoxLoadResult \<times> Disk" where
  "LoadHomeBoxFile primary expected d = (case ValidateDimensions expected of
     Inl e \<Rightarrow> (emptyLoadResult\<lparr>loadError := e\<rparr>, d)
   | Inr _ \<Rightarrow> (case os_exists primary d of
       ((found, Some ec), d) \<Rightarrow> (emptyLoadResult\<lparr>loadError := ''cannot inspect the Home Box primary: '' @ ec\<rparr>, d)
     | ((False, None), d) \<Rightarrow> LoadBackup primary expected (emptyLoadResult\<lparr>primaryMissing := True\<rparr>) '''' d
     | ((True, None), d) \<Rightarrow> (case ReadCandidate primary expected d of
         (Inr (bytes, loaded), d) \<Rightarrow> (emptyLoadResult\<lparr>loadSource := Primary, loadedData := Some loaded\<rparr>, d)
       | (Inl primaryError, d) \<Rightarrow>
           LoadBackup primary expected (emptyLoadResult\<lparr>primaryInvalid := True\<rparr>) primaryError d)))"

definition SavePrimary :: "path \<Rightarrow> bytes \<Rightarrow> Disk \<Rightarrow> unit result \<times> Disk" where
  "SavePrimary primary replacement d = (case WriteFileAtomically primary replacement d of
     (Inl e, d) \<Rightarrow> (Err (''cannot atomically save Home Box data: '' @ e), d)
   | (Inr _, d) \<Rightarrow> (Ok (), d))"

definition SaveHomeBoxFile :: "path \<Rightarrow> HomeBoxData \<Rightarrow> Disk \<Rightarrow> unit result \<times> Disk" where
  "SaveHomeBoxFile primary data d = (case EncodeHomeBox data of
     Inl e \<Rightarrow> (Err e, d)
   | Inr replacement \<Rightarrow> (case os_exists primary d of
       ((found, Some ec), d) \<Rightarrow> (Err (''cannot inspect the existing Home Box file: '' @ ec), d)
     | ((False, None), d) \<Rightarrow> SavePrimary primary replacement d
     | ((True, None), d) \<Rightarrow> (case ReadCandidate primary (dimensions data) d of
         (Inl e, d) \<Rightarrow> (Err (''refusing to replace an invalid Home Box primary: '' @ e), d)
       | (Inr (previous, decoded), d) \<Rightarrow>
           (case WriteFileAtomically (HomeBoxBackupPath primary) previous d of
              (Inl e, d) \<Rightarrow> (Err (''cannot retain the previous Home Box backup: '' @ e), d)
            | (Inr _, d) \<Rightarrow> SavePrimary primary replacement d))))"

section \<open>Paths\<close>

lemma backup_path [simp]:
  "HomeBoxBackupPath p \<noteq> p" "p \<noteq> HomeBoxBackupPath p" "\<not> is_temporary p (HomeBoxBackupPath p)" "\<not> is_temporary (HomeBoxBackupPath p) p"
  by (auto simp: HomeBoxBackupPath_def is_temporary_def)

section \<open>Loading\<close>

text \<open>What a content of a file decodes to, and what the loader finds in the files.\<close>

definition decoded :: "HomeBoxDimensions \<Rightarrow> bytes option \<Rightarrow> HomeBoxData option" where
  "decoded dims c = (case c of None \<Rightarrow> None
     | Some bs \<Rightarrow> (case DecodeHomeBox bs dims of Inl e \<Rightarrow> None | Inr x \<Rightarrow> Some x))"

definition recovered :: "HomeBoxDimensions \<Rightarrow> path \<Rightarrow> contents \<Rightarrow> HomeBoxData option" where
  "recovered dims p h = (case decoded dims (h p) of
     Some x \<Rightarrow> Some x | None \<Rightarrow> decoded dims (h (HomeBoxBackupPath p)))"

lemma DecodeHomeBox_length: "DecodeHomeBox bs dims = Ok x \<Longrightarrow> length bs \<le> MaximumHomeBoxFileSize"
  by (auto simp: DecodeHomeBox_def andThen_Ok_iff split: if_splits)

lemma ReadCandidate_quiet:
  assumes quiet: "events d = []"
  shows "\<exists>r. ReadCandidate p dims d = (r, d) \<and> (case r of Inl e \<Rightarrow> decoded dims (files d p) = None
    | Inr (bs, x) \<Rightarrow> files d p = Some bs \<and> decoded dims (files d p) = Some x)"
proof (cases "decoded dims (files d p)")
  case (Some x)
  then obtain bs where bs: "files d p = Some bs" "DecodeHomeBox bs dims = Ok x"
    by (auto simp: decoded_def split: option.splits sum.splits)
  have "length bs \<le> streamsize_max"
    using DecodeHomeBox_length [OF bs(2)] by (simp add: streamsize_max_def)
  then show ?thesis
    using ReadFile_quiet [OF quiet bs(1) DecodeHomeBox_length [OF bs(2)]] bs Some
    by (simp add: ReadCandidate_def)
next
  case None
  obtain r d' where run: "ReadFile p MaximumHomeBoxFileSize d = (r, d')" by (metis surj_pair)
  then have d': "d' = d"
    by (auto simp: ReadFile_def os_file_size_def os_open_read_def os_read_def nextEvent_quiet [OF quiet]
        split: option.splits sum.splits if_splits)
  show ?thesis
  proof (cases r)
    case (Inr bs)
    with run d' have "files d p = Some bs"
      using ReadFile_calm_ok [of p _ d bs d'] quiet by (simp add: calm_disk_def)
    with None run d' Inr show ?thesis
      by (cases "DecodeHomeBox bs dims") (auto simp: ReadCandidate_def decoded_def)
  qed (use None run d' in \<open>simp add: ReadCandidate_def\<close>)
qed

lemma os_exists_quiet: "events d = [] \<Longrightarrow> os_exists p d = ((files d p \<noteq> None \<or> p \<in> directories d, None), d)"
  by (simp add: os_exists_def nextEvent_quiet)

lemma decoded_None [simp]: "decoded dims None = None"
  by (simp add: decoded_def)

lemma LoadBackup_quiet:
  assumes quiet: "events d = []" and none: "loadedData result = None"
  shows "\<exists>result'. LoadBackup p dims result primaryError d = (result', d)
    \<and> loadedData result' = decoded dims (files d (HomeBoxBackupPath p))"
proof -
  obtain r where r: "ReadCandidate (HomeBoxBackupPath p) dims d = (r, d)"
      "case r of Inl e \<Rightarrow> decoded dims (files d (HomeBoxBackupPath p)) = None
       | Inr (bs, x) \<Rightarrow> files d (HomeBoxBackupPath p) = Some bs \<and> decoded dims (files d (HomeBoxBackupPath p)) = Some x"
    using ReadCandidate_quiet [OF quiet] by blast
  with none show ?thesis
    by (cases r) (auto simp: LoadBackup_def Let_def os_exists_quiet [OF quiet] split: bool.split)
qed

lemma LoadHomeBoxFile_quiet:
  assumes quiet: "events d = []" and v: "valid_dimensions dims"
  shows "\<exists>result. LoadHomeBoxFile p dims d = (result, d) \<and> loadedData result = recovered dims p (files d)"
proof -
  obtain r where r: "ReadCandidate p dims d = (r, d)"
      "case r of Inl e \<Rightarrow> decoded dims (files d p) = None
       | Inr (bs, x) \<Rightarrow> files d p = Some bs \<and> decoded dims (files d p) = Some x"
    using ReadCandidate_quiet [OF quiet] by blast
  have v': "ValidateDimensions dims = Ok ()" using v by simp
  show ?thesis
  proof (cases "files d p \<noteq> None \<or> p \<in> directories d")
    case True
    show ?thesis
    proof (cases r)
      case (Inl e)
      with LoadBackup_quiet [OF quiet, of "emptyLoadResult\<lparr>primaryInvalid := True\<rparr>" p dims e] r True show ?thesis
        by (auto simp: LoadHomeBoxFile_def v' os_exists_quiet [OF quiet] recovered_def emptyLoadResult_def)
    next
      case (Inr x)
      with r True show ?thesis
        by (cases x) (auto simp: LoadHomeBoxFile_def v' os_exists_quiet [OF quiet] recovered_def)
    qed
  next
    case False
    with LoadBackup_quiet [OF quiet, of "emptyLoadResult\<lparr>primaryMissing := True\<rparr>" p dims "''''"] show ?thesis
      by (auto simp: LoadHomeBoxFile_def v' os_exists_quiet [OF quiet] recovered_def emptyLoadResult_def)
  qed
qed

section \<open>Saving\<close>

lemma SavePrimary_eq:
  "SavePrimary p w d = (r, d') \<Longrightarrow> \<exists>wr. WriteFileAtomically p w d = (wr, d') \<and> is_ok wr = is_ok r"
  by (auto simp: SavePrimary_def split: prod.splits sum.splits)

lemma ReadCandidate_calm:
  assumes "ReadCandidate p dims d = (r, d')" and "calm_disk d"
  shows "calm_disk d' \<and> files d' = files d \<and> history d' = history d
    \<and> (\<forall>bs x. r = Ok (bs, x) \<longrightarrow> files d p = Some bs \<and> decoded dims (Some bs) = Some x)"
proof -
  obtain fr d1 where run: "ReadFile p MaximumHomeBoxFileSize d = (fr, d1)" by (metis surj_pair)
  have d1: "calm_disk d1" "files d1 = files d" "history d1 = history d"
    using calm_ReadFile [OF run assms(2)] ReadFile_same [OF run assms(2)] by simp_all
  show ?thesis
  proof (cases fr)
    case (Inl e)
    with assms run d1 show ?thesis by (auto simp: ReadCandidate_def)
  next
    case (Inr bs)
    with run have "files d p = Some bs" using ReadFile_calm_ok [of p _ d bs d1] assms(2) by simp
    with assms run d1 Inr show ?thesis
      by (cases "DecodeHomeBox bs dims") (auto simp: ReadCandidate_def decoded_def)
  qed
qed

lemma always_disk_mono: "always_disk I d \<Longrightarrow> (\<And>h. I h \<Longrightarrow> J h) \<Longrightarrow> always_disk J d"
  by (auto simp: always_disk_def)

text \<open>The three ways a save can go.\<close>

lemma SaveHomeBoxFile_cases:
  assumes save: "SaveHomeBoxFile p data d = (r, d')" and calm: "calm_disk d"
  obtains (refused) "\<not> is_ok r" "files d' = files d" "history d' = history d"
  | (fresh) w wr d1 where "EncodeHomeBox data = Ok w" "files d p = None" "files d1 = files d" "history d1 = history d"
      "calm_disk d1" "WriteFileAtomically p w d1 = (wr, d')" "is_ok wr = is_ok r"
  | (kept) w old x br d1 d2 where "EncodeHomeBox data = Ok w" "files d p = Some old"
      "decoded (dimensions data) (Some old) = Some x" "files d1 = files d" "history d1 = history d" "calm_disk d1"
      "WriteFileAtomically (HomeBoxBackupPath p) old d1 = (br, d2)"
      "(\<not> is_ok br \<and> \<not> is_ok r \<and> d' = d2)
       \<or> (is_ok br \<and> (\<exists>wr. WriteFileAtomically p w d2 = (wr, d') \<and> is_ok wr = is_ok r))"
proof -
  obtain found ec d1 where ex: "os_exists p d = ((found, ec), d1)" by (metis surj_pair)
  have d1: "calm_disk d1" "files d1 = files d" "history d1 = history d"
    using calm_calls(1) [OF ex calm] pure_calls_same(3) [OF ex] by simp_all
  obtain rc d2 where rc: "ReadCandidate p (dimensions data) d1 = (rc, d2)" by (metis surj_pair)
  note d2 = ReadCandidate_calm [OF rc d1(1)]
  show thesis
  proof (cases "EncodeHomeBox data")
    case (Inl e)
    with save refused show thesis by (auto simp: SaveHomeBoxFile_def)
  next
    case enc: (Inr w)
    consider "ec \<noteq> None" | "ec = None" "\<not> found" | e where "ec = None" "found" "rc = Inl e"
      | bs x where "ec = None" "found" "rc = Ok (bs, x)" by (cases rc) auto
    then show thesis
    proof cases
      case 1
      with save enc ex d1 refused show thesis by (cases found) (auto simp: SaveHomeBoxFile_def)
    next
      case 2
      then have "files d p = None" using ex store.exists_no by (cases found) auto
      moreover have "SavePrimary p w d1 = (r, d')" using save enc ex 2 by (simp add: SaveHomeBoxFile_def)
      ultimately show thesis using SavePrimary_eq fresh [OF enc _ d1(2,3,1)] by blast
    next
      case 3
      with save enc ex rc d1 d2 refused show thesis by (auto simp: SaveHomeBoxFile_def)
    next
      case 4
      obtain br d3 where b: "WriteFileAtomically (HomeBoxBackupPath p) bs d2 = (br, d3)" by (metis surj_pair)
      have "(\<not> is_ok br \<and> \<not> is_ok r \<and> d' = d3)
          \<or> (is_ok br \<and> (\<exists>wr. WriteFileAtomically p w d3 = (wr, d') \<and> is_ok wr = is_ok r))"
        using save enc ex rc b 4 SavePrimary_eq by (cases br) (auto simp: SaveHomeBoxFile_def)
      with kept [OF enc _ _ _ _ _ b] d1 d2 4 show thesis by auto
    qed
  qed
qed

text \<open>
  While a primary that decodes is being replaced, it holds the old or the new bytes, and the new
  ones only once the backup holds the old ones.
\<close>

lemma kept_content:
  assumes "files d p = Some old" "files d1 = files d"
    and b: "WriteFileAtomically (HomeBoxBackupPath p) old d1 = (br, d2)"
    and rest: "(\<not> is_ok br \<and> \<not> is_ok r \<and> d' = d2)
       \<or> (is_ok br \<and> (\<exists>wr. WriteFileAtomically p w d2 = (wr, d') \<and> is_ok wr = is_ok r))"
  shows "files d' p = (if is_ok r then Some w else Some old)
    \<and> (is_ok r \<longrightarrow> files d' (HomeBoxBackupPath p) = Some old)"
proof -
  have p: "files d2 p = Some old" using store.write_frame [OF b, of p] assms(1,2) by simp
  from rest show ?thesis
  proof (elim disjE conjE exE)
    fix wr assume "is_ok br" and wr: "WriteFileAtomically p w d2 = (wr, d')" "is_ok wr = is_ok r"
    then have "files d2 (HomeBoxBackupPath p) = Some old" using store.write_result [OF b] by simp
    then show ?thesis
      using store.write_result [OF wr(1)] store.write_frame [OF wr(1), of "HomeBoxBackupPath p"] p wr(2) by simp
  qed (use p in simp)
qed

lemma kept_always:
  assumes "files d p = Some old" "files d1 = files d" "history d1 = []" "calm_disk d1"
    and b: "WriteFileAtomically (HomeBoxBackupPath p) old d1 = (br, d2)"
    and rest: "(\<not> is_ok br \<and> \<not> is_ok r \<and> d' = d2)
       \<or> (is_ok br \<and> (\<exists>wr. WriteFileAtomically p w d2 = (wr, d') \<and> is_ok wr = is_ok r))"
  shows "always_disk (\<lambda>h. h p = Some old \<or> h p = Some w \<and> h (HomeBoxBackupPath p) = Some old) d'"
proof -
  let ?I = "\<lambda>h. h p = Some old \<or> h p = Some w \<and> h (HomeBoxBackupPath p) = Some old"
  have now: "always_disk ?I d1" using assms(1-3) by (simp add: always_disk_def)
  from rest show ?thesis
  proof (elim disjE conjE exE)
    assume "d' = d2"
    then show ?thesis
      using assms(1,2) by (auto intro!: store.write_always [OF b now] dest: spec [of _ p])
  next
    fix wr assume "is_ok br" and wr: "WriteFileAtomically p w d2 = (wr, d')"
    then obtain u where "br = Ok u" by (auto simp: is_ok_iff)
    with store.backup_then_replace [OF assms(4) _ _ _ _ _ wr now, of u] b assms(1,2) show ?thesis by simp
  qed
qed

lemma recovered_primary: "decoded dims (h p) = Some x \<Longrightarrow> recovered dims p h = Some x"
  by (simp add: recovered_def)

text \<open>The records of the data, in the order of their indices: these determine the list.\<close>

definition in_index_order :: "HomeBoxData \<Rightarrow> HomeBoxRecord list \<Rightarrow> bool" where
  "in_index_order data ordered \<longleftrightarrow> mset ordered = mset (records data)
     \<and> map remoteBoxIndex ordered = map word_of_nat [0..<length (records data)]"

lemma EncodeHomeBox_decoded:
  assumes "EncodeHomeBox data = Ok w"
  shows "\<exists>ordered. in_index_order data ordered \<and> decoded (dimensions data) (Some w) = Some (data\<lparr>records := ordered\<rparr>)"
  using EncodeHomeBox_decodes [OF assms] by (auto simp: decoded_def in_index_order_def)

lemma fresh_always:
  assumes "files d p = None" "files d1 = files d" "history d1 = []" "decoded dims (Some w) = Some new"
    and run: "WriteFileAtomically p w d1 = (wr, d')"
  shows "always_disk (\<lambda>h. recovered dims p h \<in> {recovered dims p (files d), Some new}) d'"
proof (rule store.write_always [OF run])
  show "always_disk (\<lambda>h. recovered dims p h \<in> {recovered dims p (files d), Some new}) d1"
    using assms(2,3) by (simp add: always_disk_def)
  fix h assume "\<forall>q. q \<noteq> p \<longrightarrow> \<not> is_temporary p q \<longrightarrow> h q = files d1 q" and "h p = files d1 p \<or> h p = Some w"
  then have "h (HomeBoxBackupPath p) = files d (HomeBoxBackupPath p)" "h p = None \<or> h p = Some w"
    using assms(1,2) by simp_all
  then show "recovered dims p h \<in> {recovered dims p (files d), Some new}"
    using assms(1,4) by (auto simp: recovered_def)
qed

section \<open>Properties\<close>

text \<open>
  C17. Saving the Home Box is safe against failures and crashes: in every state the disk passes
  through, whether the save then succeeds, fails or is interrupted, what the loader would recover (from
  the primary, or else from the backup) is what it would have recovered before the save, or exactly
  the new data with its records in the order of their indices, and nothing else. When the save
  succeeds the loader recovers the new data, and when it reports a failure the same as before.
\<close>

theorem home_box_save_crash_safe:
  assumes save: "SaveHomeBoxFile p data d = (r, d')" and calm: "calm_disk d" and start: "history d = []"
  shows "(\<forall>h \<in> set (files d' # history d'). recovered (dimensions data) p h = recovered (dimensions data) p (files d)
        \<or> (\<exists>ordered. in_index_order data ordered \<and> recovered (dimensions data) p h = Some (data\<lparr>records := ordered\<rparr>)))
    \<and> (if is_ok r then \<exists>ordered. in_index_order data ordered
            \<and> recovered (dimensions data) p (files d') = Some (data\<lparr>records := ordered\<rparr>)
       else recovered (dimensions data) p (files d') = recovered (dimensions data) p (files d))"
  using save calm
proof (cases rule: SaveHomeBoxFile_cases)
  case refused
  then show ?thesis using start by simp
next
  case (fresh w wr d1)
  from EncodeHomeBox_decoded [OF fresh(1)] obtain ordered where o: "in_index_order data ordered"
      "decoded (dimensions data) (Some w) = Some (data\<lparr>records := ordered\<rparr>)" by blast
  have "files d' p = (if is_ok r then Some w else None)"
    using store.write_result [OF fresh(6)] fresh(2,3,7) by auto
  moreover have "files d' (HomeBoxBackupPath p) = files d (HomeBoxBackupPath p)"
    using store.write_frame [OF fresh(6), of "HomeBoxBackupPath p"] fresh(3) by simp
  ultimately have after: "recovered (dimensions data) p (files d') = (if is_ok r then Some (data\<lparr>records := ordered\<rparr>)
      else recovered (dimensions data) p (files d))"
    using fresh(2) o(2) by (simp add: recovered_def)
  have "\<forall>h \<in> set (files d' # history d'). recovered (dimensions data) p h
      \<in> {recovered (dimensions data) p (files d), Some (data\<lparr>records := ordered\<rparr>)}"
    using fresh_always [OF fresh(2,3) _ o(2) fresh(6)] fresh(4) start by (auto simp: always_disk_def list_all_iff)
  then show ?thesis using after o(1) by auto
next
  case (kept w old x br d1 d2)
  from EncodeHomeBox_decoded [OF kept(1)] obtain ordered where o: "in_index_order data ordered"
      "decoded (dimensions data) (Some w) = Some (data\<lparr>records := ordered\<rparr>)" by blast
  have before: "recovered (dimensions data) p (files d) = Some x"
    using kept(2,3) by (simp add: recovered_primary)
  from kept_always [OF kept(2,4) _ kept(6-8)] kept_content [OF kept(2,4,7,8)] kept(5) start
  have k: "always_disk (\<lambda>h. h p = Some old \<or> h p = Some w \<and> h (HomeBoxBackupPath p) = Some old) d'"
      "files d' p = (if is_ok r then Some w else Some old)" by auto
  have "always_disk (\<lambda>h. recovered (dimensions data) p h \<in> {recovered (dimensions data) p (files d), Some (data\<lparr>records := ordered\<rparr>)}) d'"
    using k(1) by (rule always_disk_mono) (auto simp: recovered_primary before o(2) kept(3))
  then have "\<forall>h \<in> set (files d' # history d'). recovered (dimensions data) p h
      \<in> {recovered (dimensions data) p (files d), Some (data\<lparr>records := ordered\<rparr>)}"
    by (auto simp: always_disk_def list_all_iff)
  moreover have "recovered (dimensions data) p (files d') = (if is_ok r then Some (data\<lparr>records := ordered\<rparr>) else Some x)"
    using k(2) o(2) kept(3) by (simp add: recovered_primary)
  ultimately show ?thesis using o(1) before by auto
qed

lemma example_save:
  "\<exists>d'. SaveHomeBoxFile ''s/h'' exampleHome (exampleDisk [Works, Works, Works, Works, Works, Fails ''busy'' 0])
     = (Err ''cannot atomically save Home Box data: cannot replace destination file: busy'', d')"
  "\<exists>d'. SaveHomeBoxFile ''s/h'' exampleHome (exampleDisk []) = (Ok (), d') \<and> events d' = []"
  by (simp_all add: SaveHomeBoxFile_def SavePrimary_def example_encodes os_exists_def WriteFileAtomically_def
      EnsureDirectory_def parent_path_def exampleDisk_def nextEvent_def ReplaceFile_def os_rename_def
      os_create_directories_def os_is_directory_def MakeTemporarySibling_def int_to_string_def
      to_string.simps os_open_write_def putFiles_def os_write_def os_remove_def Let_def streamsize_max_def
      home_wire_def record_wire_def exampleRecord_def)

theorem home_box_save_crash_safe_witness:
  "\<exists>d'. SaveHomeBoxFile ''s/h'' exampleHome (exampleDisk [Works, Works, Works, Works, Works, Fails ''busy'' 0])
      = (Err ''cannot atomically save Home Box data: cannot replace destination file: busy'', d')
    \<and> recovered exampleDimensions ''s/h'' (files d') = None
    \<and> length (filter (\<lambda>h. recovered exampleDimensions ''s/h'' h = None
        \<or> (\<exists>ordered. in_index_order exampleHome ordered
             \<and> recovered exampleDimensions ''s/h'' h = Some (exampleHome\<lparr>records := ordered\<rparr>))) (history d')) = length (history d')"
proof -
  let ?d = "exampleDisk [Works, Works, Works, Works, Works, Fails ''busy'' 0]"
  obtain d' where run: "SaveHomeBoxFile ''s/h'' exampleHome ?d
      = (Err ''cannot atomically save Home Box data: cannot replace destination file: busy'', d')"
    using example_save(1) by blast
  have "calm_disk ?d" "history ?d = []" "recovered (dimensions exampleHome) ''s/h'' (files ?d) = None"
    by (simp_all add: calm_disk_def exampleDisk_def recovered_def HomeBoxBackupPath_def)
  with home_box_save_crash_safe [OF run] have
    "recovered (dimensions exampleHome) ''s/h'' (files d') = None"
    "\<forall>h \<in> set (history d'). recovered (dimensions exampleHome) ''s/h'' h = None
        \<or> (\<exists>ordered. in_index_order exampleHome ordered
             \<and> recovered (dimensions exampleHome) ''s/h'' h = Some (exampleHome\<lparr>records := ordered\<rparr>))" by simp_all
  moreover have "dimensions exampleHome = exampleDimensions" by (simp add: exampleHome_def)
  ultimately show ?thesis using run by (intro exI [of _ d'] conjI) (simp_all add: filter_id_conv)
qed

text \<open>
  A save that succeeds leaves the encoding of the data in the primary and the bytes that were
  there in the backup; a save that fails leaves the primary as it was; and a primary that does not
  decode is never replaced: the save is refused and no file changes.
\<close>

theorem home_box_save_outcome:
  assumes save: "SaveHomeBoxFile p data d = (r, d')" and calm: "calm_disk d"
  shows "(if is_ok r then EncodeHomeBox data = Ok (the (files d' p)) \<and> files d' p \<noteq> None
            \<and> (case files d p of None \<Rightarrow> True | Some old \<Rightarrow> files d' (HomeBoxBackupPath p) = Some old)
          else files d' p = files d p)
    \<and> (files d p \<noteq> None \<and> decoded (dimensions data) (files d p) = None \<longrightarrow> \<not> is_ok r \<and> files d' = files d)"
  using save calm
proof (cases rule: SaveHomeBoxFile_cases)
  case (fresh w wr d1)
  then show ?thesis using store.write_result [OF fresh(6)] by simp
next
  case (kept w old x br d1 d2)
  from kept_content [OF kept(2,4,7,8)] kept(1-3) show ?thesis by auto
qed simp

theorem home_box_save_outcome_witness:
  "\<exists>r d'. SaveHomeBoxFile ''s/f'' exampleHome (exampleDisk []) = (r, d') \<and> \<not> is_ok r \<and> files d' ''s/f'' = Some [9]"
proof -
  obtain r d' where run: "SaveHomeBoxFile ''s/f'' exampleHome (exampleDisk []) = (r, d')" by (metis surj_pair)
  have "DecodeHomeBox [9] exampleDimensions \<noteq> Ok x" for x
    using example_dimensions_valid by (auto simp: DecodeHomeBox_def andThen_Ok_iff)
  then have "decoded (dimensions exampleHome) (files (exampleDisk []) ''s/f'') = None"
    by (auto simp: decoded_def exampleDisk_def exampleHome_def split: sum.split)
  moreover have "calm_disk (exampleDisk [])" "files (exampleDisk []) ''s/f'' = Some [9]"
    by (simp_all add: calm_disk_def exampleDisk_def)
  ultimately show ?thesis using home_box_save_outcome [OF run] run by simp
qed

text \<open>
  C19. After a successful save, and when nothing goes wrong while loading, the loader gives back the
  data that was saved, with its records in the order of their indices.
\<close>

theorem home_box_load_after_save:
  assumes "SaveHomeBoxFile p data d = (Ok u, d')" and "calm_disk d" and "events d' = []"
  shows "\<exists>ordered result. LoadHomeBoxFile p (dimensions data) d' = (result, d') \<and> Succeeded result
    \<and> loadedData result = Some (data\<lparr>records := ordered\<rparr>) \<and> mset ordered = mset (records data)
    \<and> map remoteBoxIndex ordered = map word_of_nat [0..<length (records data)]"
proof -
  obtain w where w: "EncodeHomeBox data = Ok w" "files d' p = Some w"
    using assms(1,2)
  proof (cases rule: SaveHomeBoxFile_cases)
    case (fresh w wr d1)
    then show ?thesis using that store.write_result [OF fresh(6)] by simp
  next
    case (kept w old x br d1 d2)
    then show ?thesis using that kept_content [OF kept(2,4,7,8)] by simp
  qed simp
  from EncodeHomeBox_decoded [OF w(1)] w(2) obtain ordered where o: "in_index_order data ordered"
      "recovered (dimensions data) p (files d') = Some (data\<lparr>records := ordered\<rparr>)"
    by (auto simp: recovered_def)
  have "valid_dimensions (dimensions data)" using w(1) by (simp add: EncodeHomeBox_Ok_iff)
  from LoadHomeBoxFile_quiet [OF assms(3) this] obtain result where
      "LoadHomeBoxFile p (dimensions data) d' = (result, d')" "loadedData result = recovered (dimensions data) p (files d')"
    by blast
  with o show ?thesis
    unfolding in_index_order_def by (intro exI [of _ ordered] exI [of _ result]) (simp add: Succeeded_def)
qed

theorem home_box_load_after_save_witness:
  "\<exists>d' ordered result. SaveHomeBoxFile ''s/h'' exampleHome (exampleDisk []) = (Ok (), d')
    \<and> LoadHomeBoxFile ''s/h'' exampleDimensions d' = (result, d')
    \<and> loadedData result = Some (exampleHome\<lparr>records := ordered\<rparr>) \<and> map remoteBoxIndex ordered = [0, 1]
    \<and> map remoteBoxIndex (records exampleHome) \<noteq> [0, 1]"
proof -
  from example_save(2) obtain d' where run: "SaveHomeBoxFile ''s/h'' exampleHome (exampleDisk []) = (Ok (), d')"
      "events d' = []" by blast
  have "calm_disk (exampleDisk [])" by (simp add: calm_disk_def exampleDisk_def)
  from home_box_load_after_save [OF run(1) this run(2)] run(1) show ?thesis by (auto simp: exampleHome_def exampleRecord_def)
qed

end
