(* ===== verification/Configuration.thy ===== *)
theory Configuration
  imports FileStore Utf8
begin

text \<open>
  The settings file: \<^verbatim>\<open>RogueAssistantCpp/Src/Platform/Configuration.cpp\<close>. Loading reads the file
  line by line and collects diagnostics; saving writes the three settings atomically.
\<close>

section \<open>Settings\<close>

definition MultiplayerHostPortKey :: string where "MultiplayerHostPortKey = ''Multiplayer.HostPort''"
definition MultiplayerJoinIpKey :: string where "MultiplayerJoinIpKey = ''Multiplayer.JoinIP''"
definition BridgePortKey :: string where "BridgePortKey = ''Bridge.Port''"
definition MaximumSettingsFileSize :: nat where "MaximumSettingsFileSize = 64 * 1024"

record Settings =
  multiplayerHostPort :: u16
  multiplayerJoinIp :: string
  bridgePort :: u16

definition defaultSettings :: Settings where
  "defaultSettings = \<lparr>multiplayerHostPort = 30025, multiplayerJoinIp = '''', bridgePort = 30125\<rparr>"

record SettingsLoadResult =
  loadedSettings :: Settings
  fileFound :: bool
  needsRewrite :: bool
  diagnostics :: "string list"

definition SettingsSucceeded :: "SettingsLoadResult \<Rightarrow> bool" where
  "SettingsSucceeded result \<longleftrightarrow> diagnostics result = []"

definition ParsePort :: "string \<Rightarrow> u16 option" where
  "ParsePort t =
     (if t = '''' then None
      else case from_chars_u32 t of
        None \<Rightarrow> None
      | Some (parsed, rest) \<Rightarrow> if rest \<noteq> '''' \<or> parsed = 0 \<or> parsed > 65535 then None else Some (ucast parsed))"

definition IsValidJoinAddress :: "string \<Rightarrow> bool" where
  "IsValidJoinAddress value \<longleftrightarrow> length value \<le> 255 \<and> IsValidUtf8 (map byte_of_char value)
     \<and> list_all (\<lambda>c. \<not> (byte_of_char c < 0x20 \<or> byte_of_char c = 0x7F)) value"

definition TrySetSetting :: "Settings \<Rightarrow> string \<Rightarrow> string \<Rightarrow> Settings result" where
  "TrySetSetting settings key value =
     (if key = MultiplayerHostPortKey then
        (case ParsePort value of
           None \<Rightarrow> Err ''Multiplayer.HostPort must be an integer from 1 through 65535''
         | Some port \<Rightarrow> Ok (settings\<lparr>multiplayerHostPort := port\<rparr>))
      else if key = MultiplayerJoinIpKey then
        (if \<not> IsValidJoinAddress value
         then Err ''Multiplayer.JoinIP must be valid UTF-8 without control characters and at most 255 bytes''
         else Ok (settings\<lparr>multiplayerJoinIp := value\<rparr>))
      else if key = BridgePortKey then
        (case ParsePort value of
           None \<Rightarrow> Err ''Bridge.Port must be an integer from 1 through 65535''
         | Some port \<Rightarrow> Ok (settings\<lparr>bridgePort := port\<rparr>))
      else Err (''unknown settings key: '' @ key))"

definition GetSetting :: "Settings \<Rightarrow> string \<Rightarrow> string" where
  "GetSetting settings key =
     (if key = MultiplayerHostPortKey then to_string (unat (multiplayerHostPort settings))
      else if key = MultiplayerJoinIpKey then multiplayerJoinIp settings
      else if key = BridgePortKey then to_string (unat (bridgePort settings))
      else '''')"

section \<open>The file\<close>

text \<open>The state of the loop over the lines: settings, seen keys, line number, diagnostics.\<close>

record ParseState =
  parsed :: Settings
  seenKeys :: "string list"
  lineNumber :: nat
  messages :: "string list"

definition ParseLine :: "string \<Rightarrow> ParseState \<Rightarrow> ParseState" where
  "ParseLine rawLine st =
     (let st = st\<lparr>lineNumber := lineNumber st + 1\<rparr>;
          line = (if rawLine \<noteq> '''' \<and> last rawLine = CHR 0x0D then butlast rawLine else rawLine);
          report = (\<lambda>st message. st\<lparr>messages := messages st @ [message]\<rparr>);
          prefix = ''settings.ini line '' @ to_string (lineNumber st)
      in if line = '''' \<or> hd line = CHR ''#'' then st
         else case find_from line ''='' 0 of
           None \<Rightarrow> report st (prefix @ '' is malformed'')
         | Some separator \<Rightarrow>
             if separator = 0 \<or> find_from line ''='' (separator + 1) \<noteq> None
             then report st (prefix @ '' is malformed'')
             else (let key = take separator line; value = drop (separator + 1) line in
               if key \<in> set (seenKeys st) then report st (prefix @ '' duplicates '' @ key)
               else let st = st\<lparr>seenKeys := seenKeys st @ [key]\<rparr> in
                 case TrySetSetting (parsed st) key value of
                   Inl e \<Rightarrow> report st (prefix @ '': '' @ e)
                 | Inr settings \<Rightarrow> st\<lparr>parsed := settings\<rparr>))"

definition ParseLines :: "string list \<Rightarrow> ParseState" where
  "ParseLines ls = fold ParseLine ls
     \<lparr>parsed = defaultSettings, seenKeys = [], lineNumber = 0, messages = []\<rparr>"

definition noSettings :: SettingsLoadResult where
  "noSettings = \<lparr>loadedSettings = defaultSettings, fileFound = False, needsRewrite = False, diagnostics = []\<rparr>"

definition LoadSettings :: "path \<Rightarrow> Disk \<Rightarrow> SettingsLoadResult \<times> Disk" where
  "LoadSettings p d = (case os_exists p d of
     ((False, ec), d) \<Rightarrow>
       (noSettings\<lparr>diagnostics := (case ec of None \<Rightarrow> [] | Some m \<Rightarrow> [''cannot inspect settings.ini: '' @ m])\<rparr>, d)
   | ((True, ec), d) \<Rightarrow>
      (let result = noSettings\<lparr>fileFound := True\<rparr> in
       case os_file_size p d of
         (Inl m, d) \<Rightarrow> (result\<lparr>diagnostics := [''cannot determine settings.ini size: '' @ m]\<rparr>, d)
       | (Inr fileSize, d) \<Rightarrow>
           if fileSize > MaximumSettingsFileSize
           then (result\<lparr>diagnostics := [''settings.ini exceeds 64 KiB'']\<rparr>, d)
           else case os_open_read p d of
             (None, d) \<Rightarrow> (result\<lparr>diagnostics := [''cannot open settings.ini'']\<rparr>, d)
           | (Some content, d) \<Rightarrow> (case os_read content d of
               ((bytes, complete), d) \<Rightarrow>
                 (let contents = map char_of_byte bytes;
                      st = ParseLines (if complete then getlines [] contents else complete_lines [] contents);
                      messages = messages st @ (if complete then [] else [''cannot finish reading settings.ini'']);
                      result = result\<lparr>diagnostics := messages\<rparr>
                  in (if messages = []
                      then result\<lparr>loadedSettings := parsed st, needsRewrite := length (seenKeys st) \<noteq> 3\<rparr>
                      else result, d)))))"

definition SettingsText :: "Settings \<Rightarrow> string" where
  "SettingsText settings =
     MultiplayerHostPortKey @ ''='' @ to_string (unat (multiplayerHostPort settings)) @ [CHR 0x0A]
     @ MultiplayerJoinIpKey @ ''='' @ multiplayerJoinIp settings @ [CHR 0x0A]
     @ BridgePortKey @ ''='' @ to_string (unat (bridgePort settings)) @ [CHR 0x0A]"

definition SaveSettings :: "path \<Rightarrow> Settings \<Rightarrow> Disk \<Rightarrow> unit result \<times> Disk" where
  "SaveSettings p settings d =
     (if multiplayerHostPort settings = 0 \<or> bridgePort settings = 0
         \<or> \<not> IsValidJoinAddress (multiplayerJoinIp settings)
      then (Err ''settings contain an invalid port or join address'', d)
      else WriteTextFileAtomically p (SettingsText settings) d)"

section \<open>Ports\<close>

lemma unat_of_nat_u32: "n < 65536 \<Longrightarrow> unat (word_of_nat n :: u32) = n"
  by (simp add: unat_of_nat)

lemma u16_of_u32:
  assumes "unat (v :: u32) < 65536"
  shows "unat (ucast v :: u16) = unat v"
  using assms by (simp add: unsigned_ucast_eq take_bit_nat_eq_self_iff)

lemma ParsePort_Some:
  "ParsePort t = Some port \<longleftrightarrow> t \<noteq> [] \<and> (\<forall>c \<in> set t. is_digit c) \<and> decimal_value t = unat port \<and> port \<noteq> 0"
proof
  assume "ParsePort t = Some port"
  then obtain v where v: "from_chars_u32 t = Some (v, [])" "v \<noteq> 0" "v \<le> 65535" "port = ucast v"
    by (auto simp: ParsePort_def not_less split: option.splits if_splits)
  from v(1) have t: "t \<noteq> []" "\<forall>c \<in> set t. is_digit c" "decimal_value t < 2 ^ 32" "v = word_of_nat (decimal_value t)"
    by (simp_all add: from_chars_all)
  then have n: "unat v = decimal_value t" by (simp add: unat_of_nat)
  have "unat v < 65536" "unat v \<noteq> 0" using v(2,3) by (simp_all add: word_le_nat_alt unat_eq_0)
  with u16_of_u32 v(4) n have "unat port = decimal_value t" "decimal_value t \<noteq> 0" by simp_all
  with t show "t \<noteq> [] \<and> (\<forall>c \<in> set t. is_digit c) \<and> decimal_value t = unat port \<and> port \<noteq> 0"
    by (metis unat_0)
next
  assume t: "t \<noteq> [] \<and> (\<forall>c \<in> set t. is_digit c) \<and> decimal_value t = unat port \<and> port \<noteq> 0"
  have p: "unat port < 65536" using unsigned_less [of port, where 'a = nat] by simp
  let ?v = "word_of_nat (unat port) :: u32"
  have v: "unat ?v = unat port" by (rule unat_of_nat_u32 [OF p])
  have "from_chars_u32 t = Some (?v, [])" using t p by (simp add: from_chars_all)
  moreover have "?v \<noteq> 0" using v t by (metis unat_0 unat_eq_zero)
  moreover have "?v \<le> 65535" using v p by (simp add: word_le_nat_alt)
  moreover have "ucast ?v = port" using u16_of_u32 [of ?v] v p by (metis word_unat_eq_iff)
  ultimately show "ParsePort t = Some port" using t by (simp add: ParsePort_def not_less)
qed

lemma ParsePort_to_string: "port \<noteq> 0 \<Longrightarrow> ParsePort (to_string (unat port)) = Some port"
  using to_string_digits by (auto simp: ParsePort_Some)

section \<open>Lines\<close>

definition plain_key :: "string \<Rightarrow> bool" where
  "plain_key key \<longleftrightarrow> key \<noteq> [] \<and> hd key \<noteq> CHR ''#'' \<and> CHR ''='' \<notin> set key"

lemma plain_keys [simp]:
  "plain_key MultiplayerHostPortKey" "plain_key MultiplayerJoinIpKey" "plain_key BridgePortKey"
  by (simp_all add: plain_key_def MultiplayerHostPortKey_def MultiplayerJoinIpKey_def BridgePortKey_def)

lemma keys_distinct [simp]:
  "MultiplayerJoinIpKey \<noteq> MultiplayerHostPortKey" "BridgePortKey \<noteq> MultiplayerHostPortKey"
  "BridgePortKey \<noteq> MultiplayerJoinIpKey"
  by (simp_all add: MultiplayerHostPortKey_def MultiplayerJoinIpKey_def BridgePortKey_def)

lemma takeWhile_key: "x \<notin> set key \<Longrightarrow> takeWhile (\<lambda>c. c \<noteq> x) (key @ x # v) = key"
  by (induction key) auto

lemma find_separator:
  "plain_key key \<Longrightarrow> find_from (key @ CHR ''='' # v) ''='' 0 = Some (length key)"
  "find_from (key @ CHR ''='' # v) ''='' (Suc (length key)) = None \<longleftrightarrow> CHR ''='' \<notin> set v"
  by (simp_all add: find_from_def find_first_char takeWhile_key plain_key_def)

definition SettingLine :: "string \<Rightarrow> string \<Rightarrow> string" where
  "SettingLine key v = key @ CHR ''='' # v"

lemma ParseLine_setting:
  assumes key: "plain_key key" and cr: "CHR 0x0D \<notin> set v" and new: "key \<notin> set (seenKeys st)"
  shows "ParseLine (SettingLine key v) st =
    (if CHR ''='' \<in> set v
     then st\<lparr>lineNumber := lineNumber st + 1, messages := messages st
       @ [''settings.ini line '' @ to_string (lineNumber st + 1) @ '' is malformed'']\<rparr>
     else case TrySetSetting (parsed st) key v of
       Inl e \<Rightarrow> st\<lparr>lineNumber := lineNumber st + 1, seenKeys := seenKeys st @ [key], messages := messages st
         @ [''settings.ini line '' @ to_string (lineNumber st + 1) @ '': '' @ e]\<rparr>
     | Inr s \<Rightarrow> st\<lparr>lineNumber := lineNumber st + 1, seenKeys := seenKeys st @ [key], parsed := s\<rparr>)"
proof -
  have "last (key @ CHR ''='' # v) \<noteq> CHR 0x0D" using cr by (cases v rule: rev_cases) auto
  moreover have "hd (key @ CHR ''='' # v) \<noteq> CHR ''#''" "key \<noteq> []"
    using key by (auto simp: plain_key_def)
  ultimately show ?thesis
    using find_separator(1) [OF key] find_separator(2) [of key v] new
    by (auto simp: ParseLine_def SettingLine_def Let_def split: sum.split)
qed

section \<open>Writing and reading the settings\<close>

lemma digits_plain: "\<forall>c \<in> set (to_string n). c \<noteq> CHR ''='' \<and> c \<noteq> CHR 0x0D \<and> c \<noteq> CHR 0x0A"
  using to_string_digits [of _ n] by (fastforce simp: is_digit_def)

lemma join_plain: "IsValidJoinAddress v \<Longrightarrow> CHR 0x0D \<notin> set v \<and> CHR 0x0A \<notin> set v"
proof -
  assume v: "IsValidJoinAddress v"
  have no: "c \<notin> set v" if "byte_of_char c < 0x20" for c
    using v that by (auto simp: IsValidJoinAddress_def list_all_iff)
  have "byte_of_char (CHR 0x0D) < 0x20" "byte_of_char (CHR 0x0A) < 0x20" by (simp_all add: byte_of_char_def)
  with no show ?thesis by blast
qed

definition valid_settings :: "Settings \<Rightarrow> bool" where
  "valid_settings s \<longleftrightarrow> multiplayerHostPort s \<noteq> 0 \<and> bridgePort s \<noteq> 0 \<and> IsValidJoinAddress (multiplayerJoinIp s)"

lemma SettingsText_lines:
  assumes "valid_settings s"
  shows "getlines [] (SettingsText s) =
    [SettingLine MultiplayerHostPortKey (to_string (unat (multiplayerHostPort s))),
     SettingLine MultiplayerJoinIpKey (multiplayerJoinIp s),
     SettingLine BridgePortKey (to_string (unat (bridgePort s)))]" (is "_ = ?ls")
proof -
  have "CHR 0x0A \<notin> set k" if "k = MultiplayerHostPortKey \<or> k = MultiplayerJoinIpKey \<or> k = BridgePortKey" for k
    using that by (auto simp: MultiplayerHostPortKey_def MultiplayerJoinIpKey_def BridgePortKey_def)
  then have "\<forall>l \<in> set ?ls. CHR 0x0A \<notin> set l"
    using assms digits_plain join_plain by (auto simp: SettingLine_def valid_settings_def)
  from getlines_concat [OF this] show ?thesis
    by (simp add: SettingsText_def SettingLine_def)
qed

lemma to_string_2: "to_string (Suc (Suc 0)) = ''2''"
  by (subst to_string.simps) (simp flip: numeral_2_eq_2)

lemma ParseLines_saved:
  assumes v: "valid_settings s"
  shows "ParseLines (getlines [] (SettingsText s)) =
    (if CHR ''='' \<in> set (multiplayerJoinIp s)
     then \<lparr>parsed = s\<lparr>multiplayerJoinIp := ''''\<rparr>, seenKeys = [MultiplayerHostPortKey, BridgePortKey], lineNumber = 3,
           messages = [''settings.ini line 2 is malformed'']\<rparr>
     else \<lparr>parsed = s, seenKeys = [MultiplayerHostPortKey, MultiplayerJoinIpKey, BridgePortKey], lineNumber = 3,
           messages = []\<rparr>)"
proof -
  obtain h ip b where s: "s = \<lparr>multiplayerHostPort = h, multiplayerJoinIp = ip, bridgePort = b\<rparr>" by (cases s)
  have ports: "ParsePort (to_string (unat h)) = Some h" "ParsePort (to_string (unat b)) = Some b"
    and ip: "IsValidJoinAddress ip" "CHR 0x0D \<notin> set ip"
    using v join_plain by (simp_all add: s valid_settings_def ParsePort_to_string)
  have clean: "CHR 0x0D \<notin> set (to_string n)" "CHR ''='' \<notin> set (to_string n)" for n
    using digits_plain [of n] by auto
  show ?thesis
    unfolding SettingsText_lines [OF v] ParseLines_def
    by (simp add: s ParseLine_setting clean ip TrySetSetting_def ports to_string_2 defaultSettings_def)
qed

lemma to_string_length: "n < 10 ^ Suc k \<Longrightarrow> length (to_string n) \<le> Suc k"
proof (induction k arbitrary: n)
  case 0
  then show ?case by (subst to_string.simps) simp
next
  case (Suc k)
  show ?case
  proof (cases "n < 10")
    case False
    have "n div 10 < 10 ^ Suc k" using Suc.prems by (simp add: less_mult_imp_div_less)
    with Suc.IH False show ?thesis by (subst to_string.simps) simp
  qed (subst to_string.simps, simp)
qed

lemma SettingsText_length: "valid_settings s \<Longrightarrow> length (SettingsText s) \<le> MaximumSettingsFileSize"
proof -
  assume v: "valid_settings s"
  have port: "length (to_string (unat port)) \<le> 5" for port :: u16
    using unsigned_less [of port, where 'a = nat] to_string_length [of "unat port" 4] by simp
  have "length (multiplayerJoinIp s) \<le> 255" using v by (simp add: valid_settings_def IsValidJoinAddress_def)
  with port [of "multiplayerHostPort s"] port [of "bridgePort s"] show ?thesis
    by (simp add: SettingsText_def MaximumSettingsFileSize_def MultiplayerHostPortKey_def MultiplayerJoinIpKey_def
        BridgePortKey_def)
qed

section \<open>Properties\<close>

lemma LoadSettings_saved:
  assumes v: "valid_settings s" and saved: "files d p = Some (map byte_of_char (SettingsText s))" and quiet: "events d = []"
  shows "LoadSettings p d =
    (if CHR ''='' \<in> set (multiplayerJoinIp s)
     then noSettings\<lparr>fileFound := True, diagnostics := [''settings.ini line 2 is malformed'']\<rparr>
     else \<lparr>loadedSettings = s, fileFound = True, needsRewrite = False, diagnostics = []\<rparr>, d)"
proof -
  have ex: "os_exists p d = ((True, None), d)" by (simp add: os_exists_def nextEvent_quiet [OF quiet] saved)
  have op: "os_file_size p d = (Ok (length (SettingsText s)), d)"
      "os_open_read p d = (Some (map byte_of_char (SettingsText s)), d)"
      "os_read (map byte_of_char (SettingsText s)) d = ((map byte_of_char (SettingsText s), True), d)"
    by (simp_all add: os_file_size_def os_open_read_def os_read_def nextEvent_quiet [OF quiet] saved)
  have id: "map (char_of_byte \<circ> byte_of_char) t = t" for t by (induction t) simp_all
  show ?thesis
    using SettingsText_length [OF v]
    by (simp add: LoadSettings_def ex op id ParseLines_saved [OF v] noSettings_def not_less Let_def)
qed

lemma SaveSettings_ok:
  assumes "SaveSettings p s d = (Ok u, d')"
  shows "valid_settings s \<and> files d' p = Some (map byte_of_char (SettingsText s))"
  using assms store.write_ok
  by (auto simp: SaveSettings_def WriteTextFileAtomically_def valid_settings_def split: if_splits)

text \<open>
  Settings that were saved are the settings that are loaded, without a diagnostic and without
  asking for a rewrite, whenever the join address has no equals sign.
\<close>

theorem settings_round_trip:
  assumes "SaveSettings p s d = (Ok u, d')" and "events d' = []" and "CHR ''='' \<notin> set (multiplayerJoinIp s)"
  shows "LoadSettings p d' = (\<lparr>loadedSettings = s, fileFound = True, needsRewrite = False, diagnostics = []\<rparr>, d')"
  using SaveSettings_ok [OF assms(1)] assms(2,3) LoadSettings_saved [of s d' p] by auto

definition exampleSettings :: "string \<Rightarrow> Settings" where
  "exampleSettings ip = \<lparr>multiplayerHostPort = 8, multiplayerJoinIp = ip, bridgePort = 9\<rparr>"

lemma valid_utf8_short: "IsValidUtf8 [0x61]" "IsValidUtf8 [0x61, 0x3D, 0x31]"
  by (simp_all add: IsValidUtf8_def IsValidUtf8From.simps Utf8Lead_def Let_def)

lemma example_settings_save:
  assumes "ip = ''a'' \<or> ip = ''a=1''"
  shows "\<exists>d'. SaveSettings ''s/i'' (exampleSettings ip) (exampleDisk []) = (Ok (), d') \<and> events d' = []"
proof -
  have v: "IsValidJoinAddress ip"
    using assms valid_utf8_short by (auto simp: IsValidJoinAddress_def byte_of_char_def)
  have "length ip \<le> 3" using assms by auto
  then show ?thesis
    by (simp add: SaveSettings_def exampleSettings_def v MultiplayerHostPortKey_def MultiplayerJoinIpKey_def BridgePortKey_def WriteTextFileAtomically_def WriteFileAtomically_def SettingsText_def
      EnsureDirectory_def parent_path_def exampleDisk_def nextEvent_def ReplaceFile_def os_rename_def
      os_create_directories_def os_is_directory_def MakeTemporarySibling_def int_to_string_def
      to_string.simps os_open_write_def putFiles_def os_write_def os_remove_def Let_def streamsize_max_def)
qed

theorem settings_round_trip_witness:
  "\<exists>d'. SaveSettings ''s/i'' (exampleSettings ''a'') (exampleDisk []) = (Ok (), d')
     \<and> loadedSettings (fst (LoadSettings ''s/i'' d')) = exampleSettings ''a''"
proof -
  obtain d' where run: "SaveSettings ''s/i'' (exampleSettings ''a'') (exampleDisk []) = (Ok (), d')" "events d' = []"
    using example_settings_save [of "''a''"] by auto
  then show ?thesis using settings_round_trip [OF run] by (auto simp: exampleSettings_def)
qed

text \<open>
  C22. A join address with an equals sign is accepted by \<^verbatim>\<open>TrySetSetting\<close> and saved without an
  error, but the saved file cannot be loaded: its line is reported as malformed and all settings,
  the ports too, come back as the defaults.
\<close>

theorem settings_with_equals_sign_lost:
  assumes "SaveSettings p s d = (Ok u, d')" and "events d' = []" and "CHR ''='' \<in> set (multiplayerJoinIp s)"
  shows "TrySetSetting defaultSettings MultiplayerJoinIpKey (multiplayerJoinIp s)
      = Ok (defaultSettings\<lparr>multiplayerJoinIp := multiplayerJoinIp s\<rparr>)
    \<and> LoadSettings p d' = (noSettings\<lparr>fileFound := True, diagnostics := [''settings.ini line 2 is malformed'']\<rparr>, d')
    \<and> loadedSettings (fst (LoadSettings p d')) = defaultSettings"
  using SaveSettings_ok [OF assms(1)] assms(2,3) LoadSettings_saved [of s d' p]
  by (simp add: TrySetSetting_def valid_settings_def noSettings_def)

theorem settings_with_equals_sign_lost_witness:
  "\<exists>d'. SaveSettings ''s/i'' (exampleSettings ''a=1'') (exampleDisk []) = (Ok (), d')
     \<and> loadedSettings (fst (LoadSettings ''s/i'' d')) = defaultSettings"
proof -
  obtain d' where run: "SaveSettings ''s/i'' (exampleSettings ''a=1'') (exampleDisk []) = (Ok (), d')" "events d' = []"
    using example_settings_save [of "''a=1''"] by auto
  then show ?thesis using settings_with_equals_sign_lost [OF run] by (auto simp: exampleSettings_def)
qed

text \<open>
  The text of a port is accepted exactly when it is a nonempty run of decimal digits with a value
  from 1 to 65535, and what \<^verbatim>\<open>GetSetting\<close> prints for a setting is what \<^verbatim>\<open>TrySetSetting\<close> reads back.
\<close>

theorem settings_text_exact:
  "(ParsePort t = Some port \<longleftrightarrow> t \<noteq> [] \<and> list_all is_digit t \<and> decimal_value t = unat port \<and> port \<noteq> 0)
   \<and> (port = 0 \<or> TrySetSetting s BridgePortKey (GetSetting (s\<lparr>bridgePort := port\<rparr>) BridgePortKey) = Ok (s\<lparr>bridgePort := port\<rparr>))"
  by (cases "port = 0") (simp_all add: ParsePort_Some list_all_iff TrySetSetting_def GetSetting_def ParsePort_to_string)

end
