(* ===== verification/CommandLine.thy ===== *)
theory CommandLine
  imports Configuration
begin

text \<open>
  The command line of the desktop program: \<^verbatim>\<open>RogueAssistantCpp/Src/Application/CommandLine.cpp\<close>.
\<close>

record DesktopOptions =
  optBridgePort :: "u16 option"
  showHelp :: bool
  showVersion :: bool
  optError :: string

definition defaultOptions :: DesktopOptions where
  "defaultOptions = \<lparr>optBridgePort = None, showHelp = False, showVersion = False, optError = ''''\<rparr>"

text \<open>The part of the loop body that takes the value of the port option.\<close>

definition SetBridgePort :: "string \<Rightarrow> DesktopOptions \<Rightarrow> bool \<Rightarrow> DesktopOptions result" where
  "SetBridgePort value options bridgePortSeen =
     (if bridgePortSeen then Err ''Use --bridge-port only once.''
      else case TrySetSetting defaultSettings BridgePortKey value of
        Inl _ \<Rightarrow> Err ''Set --bridge-port to a number from 1 to 65535.''
      | Inr candidate \<Rightarrow> Ok (options\<lparr>optBridgePort := Some (bridgePort candidate)\<rparr>))"

definition BridgePortPrefix :: string where "BridgePortPrefix = ''--bridge-port=''"

text \<open>
  The loop over the arguments. An error is stored in the options, which keep what was set before it.
\<close>

function ParseArguments :: "string list \<Rightarrow> DesktopOptions \<Rightarrow> bool \<Rightarrow> DesktopOptions" where
  "ParseArguments [] options seen = options"
| "ParseArguments (argument # rest) options seen =
     (if argument = ''--help'' \<or> argument = ''-h'' then ParseArguments rest (options\<lparr>showHelp := True\<rparr>) seen
      else if argument = ''--version'' then ParseArguments rest (options\<lparr>showVersion := True\<rparr>) seen
      else if argument = ''--bridge-port'' then
        (case rest of
           [] \<Rightarrow> options\<lparr>optError := ''Enter a value after --bridge-port.''\<rparr>
         | value # rest' \<Rightarrow> (case SetBridgePort value options seen of
             Inl e \<Rightarrow> options\<lparr>optError := e\<rparr>
           | Inr options' \<Rightarrow> ParseArguments rest' options' True))
      else if starts_with argument BridgePortPrefix then
        (case SetBridgePort (drop (length BridgePortPrefix) argument) options seen of
           Inl e \<Rightarrow> options\<lparr>optError := e\<rparr>
         | Inr options' \<Rightarrow> ParseArguments rest options' True)
      else options\<lparr>optError := ''Unknown option: '' @ argument @ ''.''\<rparr>)"
  by pat_completeness auto
termination by (relation "measure (\<lambda>(arguments, options, seen). length arguments)") auto

definition ParseDesktopOptions :: "string list \<Rightarrow> DesktopOptions" where
  "ParseDesktopOptions arguments = ParseArguments arguments defaultOptions False"

definition SelectBridgePort :: "u16 option \<Rightarrow> u16 \<Rightarrow> u16" where
  "SelectBridgePort currentRunOverride configuredPort = (case currentRunOverride of None \<Rightarrow> configuredPort | Some p \<Rightarrow> p)"

section \<open>A reference reading of the command line\<close>

text \<open>
  The arguments as a list of options, by a grammar that does not mention the state of the loop; a
  command line that is not such a list has no reading.
\<close>

datatype CommandOption = Help | Version | Port u16

fun read_options :: "string list \<Rightarrow> CommandOption list option" where
  "read_options [] = Some []"
| "read_options (a # rest) =
     (if a = ''--help'' \<or> a = ''-h'' then map_option (Cons Help) (read_options rest)
      else if a = ''--version'' then map_option (Cons Version) (read_options rest)
      else if a = ''--bridge-port'' then
        (case rest of [] \<Rightarrow> None
         | v # rest' \<Rightarrow> (case ParsePort v of None \<Rightarrow> None | Some p \<Rightarrow> map_option (Cons (Port p)) (read_options rest')))
      else if starts_with a BridgePortPrefix then
        (case ParsePort (drop (length BridgePortPrefix) a) of None \<Rightarrow> None | Some p \<Rightarrow> map_option (Cons (Port p)) (read_options rest))
      else None)"

fun ports :: "CommandOption list \<Rightarrow> u16 list" where
  "ports [] = []"
| "ports (Port p # os) = p # ports os"
| "ports (_ # os) = ports os"

lemma SetBridgePort_iff:
  "SetBridgePort value options seen = Ok options' \<longleftrightarrow>
   \<not> seen \<and> (\<exists>p. ParsePort value = Some p \<and> options' = options\<lparr>optBridgePort := Some p\<rparr>)"
  by (auto simp: SetBridgePort_def TrySetSetting_def split: option.splits)

lemma SetBridgePort_error: "SetBridgePort value options seen = Err e \<Longrightarrow> e \<noteq> ''''"
  by (auto simp: SetBridgePort_def split: if_splits sum.splits)

lemma SetBridgePort_cases:
  "SetBridgePort value options seen = (if seen then Err ''Use --bridge-port only once.''
    else case ParsePort value of None \<Rightarrow> Err ''Set --bridge-port to a number from 1 to 65535.''
      | Some p \<Rightarrow> Ok (options\<lparr>optBridgePort := Some p\<rparr>))"
  by (simp add: SetBridgePort_def TrySetSetting_def split: option.split)

definition apply_options :: "CommandOption list \<Rightarrow> DesktopOptions \<Rightarrow> DesktopOptions" where
  "apply_options os options = options\<lparr>
     optBridgePort := (case ports os of [] \<Rightarrow> optBridgePort options | p # ps \<Rightarrow> Some p),
     showHelp := showHelp options \<or> Help \<in> set os, showVersion := showVersion options \<or> Version \<in> set os\<rparr>"

lemma apply_options_simps [simp]:
  "apply_options [] options = options"
  "apply_options (Help # os) options = apply_options os (options\<lparr>showHelp := True\<rparr>)"
  "apply_options (Version # os) options = apply_options os (options\<lparr>showVersion := True\<rparr>)"
  "ports os = [] \<Longrightarrow> apply_options (Port p # os) options = apply_options os (options\<lparr>optBridgePort := Some p\<rparr>)"
  by (cases "ports os"; simp add: apply_options_def)+

lemma ParseArguments_reads:
  "read_options args = Some os \<Longrightarrow> length (ports os) + of_bool seen \<le> 1 \<Longrightarrow>
   ParseArguments args options seen = apply_options os options"
proof (induction args options seen arbitrary: os rule: ParseArguments.induct)
  case (2 a rest options seen)
  consider "a = ''--help'' \<or> a = ''-h''" | "a = ''--version''" | "a = ''--bridge-port''"
    | "\<not> (a = ''--help'' \<or> a = ''-h'')" "a \<noteq> ''--version''" "a \<noteq> ''--bridge-port''" by blast
  then show ?case
  proof cases
    case 1
    with 2 show ?thesis by auto
  next
    case 2
    with "2.prems" "2.IH"(2) show ?thesis by auto
  next
    case 3
    then obtain v rest' p os' where "rest = v # rest'" "ParsePort v = Some p" "read_options rest' = Some os'" "os = Port p # os'"
      using "2.prems"(1) by (auto split: list.splits option.splits)
    with 3 "2.prems"(2) "2.IH"(3) show ?thesis by (auto simp: SetBridgePort_cases)
  next
    case 4
    then obtain p os' where "ParsePort (drop (length BridgePortPrefix) a) = Some p" "read_options rest = Some os'" "os = Port p # os'"
        "starts_with a BridgePortPrefix"
      using "2.prems"(1) by (auto split: option.splits if_splits)
    with 4 "2.prems"(2) "2.IH"(4) show ?thesis by (auto simp: SetBridgePort_cases)
  qed
qed simp

lemma ParseArguments_error:
  "optError options = '''' \<Longrightarrow> optError (ParseArguments args options seen) = '''' \<Longrightarrow>
   \<exists>os. read_options args = Some os \<and> length (ports os) + of_bool seen \<le> 1"
proof (induction args options seen rule: ParseArguments.induct)
  case (2 a rest options seen)
  consider "a = ''--help'' \<or> a = ''-h''" | "a = ''--version''" | "a = ''--bridge-port''"
    | "\<not> (a = ''--help'' \<or> a = ''-h'')" "a \<noteq> ''--version''" "a \<noteq> ''--bridge-port''" by blast
  then show ?case
  proof cases
    case 1
    with 2 show ?thesis by auto
  next
    case 2
    with "2.prems" "2.IH"(2) show ?thesis by auto
  next
    case 3
    with "2.prems" obtain v rest' b where run: "rest = v # rest'" "SetBridgePort v options seen = Ok b"
        "optError (ParseArguments rest' b True) = ''''"
      using SetBridgePort_error by (fastforce split: list.splits sum.splits)
    then obtain p where p: "\<not> seen" "ParsePort v = Some p" "optError b = ''''"
      using "2.prems"(1) by (auto simp: SetBridgePort_iff)
    with run 3 "2.IH"(3) obtain os where "read_options rest' = Some os" "ports os = []" by auto
    with run 3 p show ?thesis by (intro exI [of _ "Port p # os"]) simp
  next
    case 4
    with "2.prems" "2.IH"(4) show ?thesis
      by (auto simp: SetBridgePort_cases split: option.splits if_splits)
  qed
qed auto

section \<open>Properties\<close>

text \<open>
  The command line is accepted exactly when it reads as a list of the documented options with at
  most one port, and then the result has exactly what that list says; the loop with its look-ahead
  and its flag agrees with the grammar.
\<close>

theorem command_line_exact:
  "(optError (ParseDesktopOptions args) = '''' \<longleftrightarrow> (\<exists>os. read_options args = Some os \<and> length (ports os) \<le> 1))
   \<and> (case read_options args of None \<Rightarrow> True
      | Some os \<Rightarrow> length (ports os) > 1 \<or> ParseDesktopOptions args =
          \<lparr>optBridgePort = (case ports os of [] \<Rightarrow> None | p # ps \<Rightarrow> Some p),
           showHelp = (Help \<in> set os), showVersion = (Version \<in> set os), optError = ''''\<rparr>)"
proof -
  have read: "ParseDesktopOptions args = \<lparr>optBridgePort = (case ports os of [] \<Rightarrow> None | p # ps \<Rightarrow> Some p),
      showHelp = (Help \<in> set os), showVersion = (Version \<in> set os), optError = ''''\<rparr>"
    if "read_options args = Some os" "length (ports os) \<le> 1" for os
    using ParseArguments_reads [of args os False defaultOptions] that
    by (simp add: ParseDesktopOptions_def apply_options_def defaultOptions_def split: list.split)
  moreover have "\<exists>os. read_options args = Some os \<and> length (ports os) \<le> 1" if "optError (ParseDesktopOptions args) = ''''"
    using ParseArguments_error [of defaultOptions args False] that by (simp add: ParseDesktopOptions_def defaultOptions_def)
  ultimately show ?thesis by (force split: option.split)
qed

end
