(* ===== verification/BridgeScript.thy ===== *)
theory BridgeScript
  imports FileStore
begin

text \<open>
  Exporting the mGBA script with the configured port:
  \<^verbatim>\<open>RogueAssistantCpp/Src/Platform/BridgeScript.cpp\<close>. Revealing the script directory starts the
  file manager of the platform and is not modelled.
\<close>

definition MaximumBridgeScriptSize :: nat where "MaximumBridgeScriptSize = 2 * 1024 * 1024"
definition PortPrefix :: string where "PortPrefix = ''local BRIDGE_PORT = ''"
definition PortMarker :: string where "PortMarker = '' -- ROGUE_ASSISTANT_BRIDGE_PORT''"
definition ExportedScriptName :: string where "ExportedScriptName = ''RogueAssistant_mGBA.lua''"

record ScriptExportResult =
  scriptPath :: path
  scriptError :: string

text \<open>
  The text with the port field replaced. A comparison with \<^verbatim>\<open>npos\<close>, the largest number, is
  written out: no newline counts as one after every position.
\<close>

definition PatchPort :: "string \<Rightarrow> nat \<Rightarrow> string result" where
  "PatchPort script port = (case find_from script PortPrefix 0 of
     None \<Rightarrow> Err ''bundled bridge script has no unique port field''
   | Some prefix \<Rightarrow>
       if find_from script PortPrefix (prefix + length PortPrefix) \<noteq> None
       then Err ''bundled bridge script has no unique port field''
       else (let valueBegin = prefix + length PortPrefix in
         case find_from script PortMarker valueBegin of
           None \<Rightarrow> Err ''bundled bridge script port marker is malformed''
         | Some marker \<Rightarrow>
             if (case find_from script [CHR 0x0A] valueBegin of None \<Rightarrow> False | Some n \<Rightarrow> n < marker)
             then Err ''bundled bridge script port marker is malformed''
             else if list_ex (\<lambda>index. \<not> is_digit (script ! index)) [valueBegin..<marker]
             then Err ''bundled bridge script port is not numeric''
             else Ok (take valueBegin script @ to_string port @ drop marker script)))"

definition ExportBridgeScript :: "path \<Rightarrow> path \<Rightarrow> u16 \<Rightarrow> Disk \<Rightarrow> ScriptExportResult \<times> Disk" where
  "ExportBridgeScript source scriptDirectory port d =
     (let result = \<lparr>scriptPath = append_path scriptDirectory ExportedScriptName, scriptError = ''''\<rparr> in
      if port = 0 then (result\<lparr>scriptError := ''bridge port must be from 1 through 65535''\<rparr>, d)
      else case ReadTextFile source MaximumBridgeScriptSize d of
        (Inl e, d) \<Rightarrow> (result\<lparr>scriptError := ''cannot read bundled bridge script: '' @ e\<rparr>, d)
      | (Inr script, d) \<Rightarrow> (case PatchPort script (unat port) of
          Inl e \<Rightarrow> (result\<lparr>scriptError := e\<rparr>, d)
        | Inr patched \<Rightarrow> (case WriteTextFileAtomically (scriptPath result) patched d of
            (Inl e, d) \<Rightarrow> (result\<lparr>scriptError := ''cannot export bridge script: '' @ e\<rparr>, d)
          | (Inr _, d) \<Rightarrow> (result, d))))"

section \<open>Searching in the script\<close>

lemma length_markers [simp]: "length PortPrefix = 20" "length PortMarker = 31"
  by (simp_all add: PortPrefix_def PortMarker_def)

lemma starts_with_inside: "j + length p \<le> length a \<Longrightarrow> starts_with (drop j (a @ b)) p = starts_with (drop j a) p"
  by (simp add: starts_with_def)

lemma find_first_skip:
  "list_all is_digit ds \<Longrightarrow> \<not> is_digit x \<Longrightarrow>
   find_first (ds @ s) (x # xs) = map_option (\<lambda>k. length ds + k) (find_first s (x # xs))"
proof (induction ds)
  case (Cons c ds)
  then have "\<not> starts_with (c # ds @ s) (x # xs)" by (auto simp: starts_with_def)
  with Cons show ?case by (simp add: option.map_comp comp_def)
next
  case Nil
  show ?case by (cases "find_first s (x # xs)") simp_all
qed

lemma markers_no_digit:
  "PortPrefix = CHR ''l'' # tl PortPrefix" "PortMarker = CHR '' '' # tl PortMarker"
  "\<not> is_digit (CHR ''l'')" "\<not> is_digit (CHR '' '')" "\<not> is_digit (CHR 0x0A)"
  by (simp_all add: PortPrefix_def PortMarker_def is_digit_def)

lemma find_first_skip_markers:
  assumes "list_all is_digit ds"
  shows "find_first (ds @ s) PortPrefix = map_option (\<lambda>k. length ds + k) (find_first s PortPrefix)"
    and "find_first (ds @ s) PortMarker = map_option (\<lambda>k. length ds + k) (find_first s PortMarker)"
    and "find_first (ds @ s) [CHR 0x0A] = map_option (\<lambda>k. length ds + k) (find_first s [CHR 0x0A])"
  using find_first_skip [OF assms] markers_no_digit by metis+

lemma find_first_here: "find_first (p @ s) p = Some 0"
  by (simp add: find_first_Some)

text \<open>
  A script with one port field: the prefix does not start earlier and does not occur again.
\<close>

definition one_field :: "string \<Rightarrow> string \<Rightarrow> bool" where
  "one_field pre post \<longleftrightarrow> list_all (\<lambda>j. \<not> starts_with (drop j (pre @ PortPrefix)) PortPrefix) [0..<length pre]
     \<and> find_first (PortMarker @ post) PortPrefix = None"

definition script_with :: "string \<Rightarrow> string \<Rightarrow> string \<Rightarrow> string" where
  "script_with pre value post = pre @ PortPrefix @ value @ PortMarker @ post"

lemma PatchPort_complete:
  assumes old: "list_all is_digit old" and field: "one_field pre post"
  shows "PatchPort (script_with pre old post) port = Ok (script_with pre (to_string port) post)"
proof -
  let ?s = "script_with pre old post" and ?vb = "length pre + 20"
  have before: "\<not> starts_with (drop j ?s) PortPrefix" if "j < length pre" for j
    using field that starts_with_inside [of j PortPrefix "pre @ PortPrefix" "old @ PortMarker @ post"]
    by (simp add: one_field_def list_all_iff script_with_def)
  have p: "find_from ?s PortPrefix 0 = Some (length pre)"
    using before by (simp add: find_from_def find_first_Some option.map_ident) (simp add: script_with_def)
  have drop_vb: "drop ?vb ?s = old @ PortMarker @ post" and len: "?vb \<le> length ?s"
    by (simp_all add: script_with_def)
  have again: "find_from ?s PortPrefix ?vb = None"
    using field len unfolding find_from_def drop_vb by (simp add: find_first_skip_markers [OF old] one_field_def)
  have m: "find_from ?s PortMarker ?vb = Some (?vb + length old)"
    using len unfolding find_from_def drop_vb by (simp add: find_first_skip_markers [OF old] find_first_here)
  have nl: "(case find_from ?s [CHR 0x0A] ?vb of None \<Rightarrow> False | Some n \<Rightarrow> n < ?vb + length old) = False"
    using len unfolding find_from_def drop_vb by (auto simp: find_first_skip_markers [OF old] split: option.split)
  have dig: "list_ex (\<lambda>index. \<not> is_digit (?s ! index)) [?vb..<?vb + length old] = False"
  proof -
    have "?s ! index = old ! (index - ?vb)" if "?vb \<le> index" "index < ?vb + length old" for index
    proof -
      have "?s ! index = drop ?vb ?s ! (index - ?vb)" using that len by simp
      also have "\<dots> = old ! (index - ?vb)" unfolding drop_vb using that by (auto simp: nth_append)
      finally show ?thesis .
    qed
    then show ?thesis using old by (auto simp: list_ex_iff list_all_length)
  qed
  show ?thesis
    unfolding PatchPort_def by (simp add: p again m nl dig Let_def) (simp add: script_with_def)
qed

lemma PatchPort_sound:
  assumes "PatchPort script port = Ok out"
  shows "\<exists>pre old post. script = script_with pre old post \<and> list_all is_digit old \<and> one_field pre post
    \<and> out = script_with pre (to_string port) post"
proof -
  from assms obtain k m where k: "find_from script PortPrefix 0 = Some k"
      and again: "find_from script PortPrefix (k + 20) = None"
      and m: "find_from script PortMarker (k + 20) = Some m"
      and dig: "\<not> list_ex (\<lambda>index. \<not> is_digit (script ! index)) [k + 20..<m]"
      and out: "out = take (k + 20) script @ to_string port @ drop m script"
    by (auto simp: PatchPort_def Let_def split: option.splits if_splits)
  define pre where "pre = take k script"
  define old where "old = take (m - (k + 20)) (drop (k + 20) script)"
  define post where "post = drop (m + 31) script"
  have kf: "starts_with (drop k script) PortPrefix" "k \<le> length script"
      and kb: "\<forall>j < k. \<not> starts_with (drop j script) PortPrefix"
    using k by (auto simp: find_from_def find_first_Some)
  have kd: "drop k script = PortPrefix @ drop (k + 20) script"
    using kf(1) by (metis add.commute append_take_drop_id drop_drop length_markers(1) starts_with_def)
  from m have le: "k + 20 \<le> length script" by (auto simp: find_from_def split: if_splits)
  from m obtain j where j: "m = k + 20 + j" "find_first (drop (k + 20) script) PortMarker = Some j"
    by (auto simp: find_from_def split: if_splits)
  then have md: "starts_with (drop m script) PortMarker" and ml: "m \<le> length script"
    using le by (auto simp: find_first_Some add.commute)
  have "drop m script = PortMarker @ post"
    using md by (metis add.commute append_take_drop_id drop_drop length_markers(2) post_def starts_with_def)
  then have rest: "drop (k + 20) script = old @ PortMarker @ post"
    using j(1) by (metis add.commute add_diff_cancel_left' append_take_drop_id drop_drop old_def)
  have script: "script = script_with pre old post"
    using kd rest by (metis append_take_drop_id pre_def script_with_def)
  have lp: "length pre = k" "length old = m - (k + 20)" using kf(2) ml j(1) by (simp_all add: pre_def old_def)
  have "old ! i = script ! (k + 20 + i)" if "i < length old" for i
    using that le by (simp add: old_def)
  with dig lp have old: "list_all is_digit old"
    by (auto simp: list_all_length list_ex_iff)
  have "\<not> starts_with (drop j (pre @ PortPrefix)) PortPrefix" if "j < k" for j
    using kb that starts_with_inside [of j PortPrefix "pre @ PortPrefix" "old @ PortMarker @ post"] lp
    by (simp add: script script_with_def)
  moreover have "find_first (PortMarker @ post) PortPrefix = None"
    using again le unfolding find_from_def rest by (simp add: find_first_skip_markers [OF old])
  ultimately have "one_field pre post" by (simp add: one_field_def list_all_iff lp)
  moreover have "out = script_with pre (to_string port) post"
  proof -
    have "take (k + 20) script = pre @ PortPrefix" using lp by (simp add: script script_with_def)
    then show ?thesis using out \<open>drop m script = PortMarker @ post\<close> by (simp add: script_with_def)
  qed
  ultimately show ?thesis using script old by blast
qed

section \<open>Properties\<close>

text \<open>
  Patching the script replaces exactly the digits of its port field and nothing else, and the
  result is again a script whose port field can be patched: exporting once more with another port
  gives what exporting the bundled script with that port gives.
\<close>

theorem script_port_patched:
  assumes "PatchPort script port = Ok out"
  shows "\<exists>pre old post. list_all is_digit old \<and> script = pre @ PortPrefix @ old @ PortMarker @ post
    \<and> out = pre @ PortPrefix @ to_string port @ PortMarker @ post
    \<and> PatchPort out port' = PatchPort script port'"
proof -
  from PatchPort_sound [OF assms] obtain pre old post where s: "script = script_with pre old post"
      "list_all is_digit old" "one_field pre post" "out = script_with pre (to_string port) post" by blast
  have "list_all is_digit (to_string port)" using to_string_digits by (simp add: list_all_iff)
  with s have "PatchPort out port' = PatchPort script port'" by (simp add: PatchPort_complete)
  with s show ?thesis by (auto simp: script_with_def)
qed

theorem script_port_patched_witness:
  "\<exists>out. PatchPort (''-- a'' @ PortPrefix @ ''30125'' @ PortMarker) 7 = Ok out
     \<and> out = ''-- a'' @ PortPrefix @ ''7'' @ PortMarker \<and> PatchPort out 30125 = Ok (''-- a'' @ PortPrefix @ ''30125'' @ PortMarker)"
proof -
  have "PatchPort (script_with ''-- a'' ''30125'' []) p = Ok (script_with ''-- a'' (to_string p) [])" for p
    by (rule PatchPort_complete) (simp_all add: is_digit_def one_field_def starts_with_def PortPrefix_def PortMarker_def upt_rec)
  moreover have "to_string 7 = ''7''" "to_string 30125 = ''30125''" by (simp_all add: to_string.simps)
  ultimately show ?thesis
    using script_port_patched [of "script_with ''-- a'' ''30125'' []" 7 _ 30125] by (auto simp: script_with_def)
qed

end
