(* ===== verification/GameStrings.thy ===== *)
theory GameStrings
  imports Utf8
begin

text \<open>
  The text of the game: \<^verbatim>\<open>RogueAssistantCpp/Src/GameData.cpp\<close>. The table has the string literals of
  the source (in UTF-8) with their character codes, in the order of the source.
\<close>

definition ascii :: "string \<Rightarrow> bytes" where
  "ascii t = map byte_of_char t"

definition CharMapping :: "(bytes \<times> u8) list" where
  "CharMapping = [
    (ascii '' '', 0x00), (utf8_encode 0xC0, 0x01), (utf8_encode 0xC1, 0x02), (utf8_encode 0xC2, 0x03),
    (utf8_encode 0xC7, 0x04), (utf8_encode 0xC8, 0x05), (utf8_encode 0xC9, 0x06),
    (utf8_encode 0xCA, 0x07), (utf8_encode 0xCB, 0x08), (utf8_encode 0xCC, 0x09),
    (utf8_encode 0xCE, 0x0B), (utf8_encode 0xCF, 0x0C), (utf8_encode 0xD2, 0x0D),
    (utf8_encode 0xD3, 0x0E), (utf8_encode 0xD4, 0x0F), (utf8_encode 0x152, 0x10),
    (utf8_encode 0xD9, 0x11), (utf8_encode 0xDA, 0x12), (utf8_encode 0xDB, 0x13),
    (utf8_encode 0xD1, 0x14), (utf8_encode 0xDF, 0x15), (utf8_encode 0xE0, 0x16),
    (utf8_encode 0xE1, 0x17), (utf8_encode 0xE7, 0x19), (utf8_encode 0xE8, 0x1A),
    (utf8_encode 0xE9, 0x1B), (utf8_encode 0xEA, 0x1C), (utf8_encode 0xEB, 0x1D),
    (utf8_encode 0xEC, 0x1E), (utf8_encode 0xEE, 0x20), (utf8_encode 0xEF, 0x21),
    (utf8_encode 0xF2, 0x22), (utf8_encode 0xF3, 0x23), (utf8_encode 0xF4, 0x24),
    (utf8_encode 0x153, 0x25), (utf8_encode 0xF9, 0x26), (utf8_encode 0xFA, 0x27),
    (utf8_encode 0xFB, 0x28), (utf8_encode 0xF1, 0x29), (utf8_encode 0xBA, 0x2A),
    (utf8_encode 0xAA, 0x2B), (ascii ''SUPER_ER'', 0x2C), (ascii ''&'', 0x2D), (ascii ''+'', 0x2E),
    (ascii ''LV'', 0x34), (ascii ''='', 0x35), (ascii '';'', 0x36), (utf8_encode 0xBF, 0x51),
    (utf8_encode 0xA1, 0x52), (ascii ''PK'', 0x53), (ascii ''MN'', 0x54), (ascii ''PO'', 0x55),
    (ascii ''KE'', 0x56), (ascii ''BL'', 0x57), (ascii ''O'', 0x58), (ascii ''CK'', 0x59),
    (utf8_encode 0xCD, 0x5A), (ascii ''%'', 0x5B), (ascii ''('', 0x5C), (ascii '' }'', 0x5D),
    (utf8_encode 0xE2, 0x68), (utf8_encode 0xED, 0x6F), (ascii ''UNK_SPACER'', 0x77),
    (ascii ''UP_ARROW'', 0x79), (ascii ''DOWN_ARROW'', 0x7A), (ascii ''LEFT_ARROW'', 0x7B),
    (ascii ''RIGHT_ARROW'', 0x7C), (ascii ''SUPER_E'', 0x84), (ascii ''<'', 0x85), (ascii ''>'', 0x86),
    (ascii ''SUPER_RE'', 0xA0), (ascii ''0'', 0xA1), (ascii ''1'', 0xA2), (ascii ''2'', 0xA3),
    (ascii ''3'', 0xA4), (ascii ''4'', 0xA5), (ascii ''5'', 0xA6), (ascii ''6'', 0xA7),
    (ascii ''7'', 0xA8), (ascii ''8'', 0xA9), (ascii ''9'', 0xAA), (ascii ''!'', 0xAB),
    (ascii ''?'', 0xAC), (ascii ''.'', 0xAD), (ascii ''-'', 0xAE), (utf8_encode 0xB7, 0xAF),
    (utf8_encode 0x2026, 0xB0), (utf8_encode 0x201C, 0xB1), (utf8_encode 0x201D, 0xB2),
    (utf8_encode 0x2018, 0xB3), (utf8_encode 0x2019, 0xB4), ([0x22], 0xB4), (ascii ''M'', 0xB5),
    (ascii ''F'', 0xB6), (utf8_encode 0xA5, 0xB7), (ascii '','', 0xB8), (utf8_encode 0xD7, 0xB9),
    (ascii ''/'', 0xBA), (ascii ''A'', 0xBB), (ascii ''B'', 0xBC), (ascii ''C'', 0xBD),
    (ascii ''D'', 0xBE), (ascii ''E'', 0xBF), (ascii ''F'', 0xC0), (ascii ''G'', 0xC1),
    (ascii ''H'', 0xC2), (ascii ''I'', 0xC3), (ascii ''J'', 0xC4), (ascii ''K'', 0xC5),
    (ascii ''L'', 0xC6), (ascii ''M'', 0xC7), (ascii ''N'', 0xC8), (ascii ''O'', 0xC9),
    (ascii ''P'', 0xCA), (ascii ''Q'', 0xCB), (ascii ''R'', 0xCC), (ascii ''S'', 0xCD),
    (ascii ''T'', 0xCE), (ascii ''U'', 0xCF), (ascii ''V'', 0xD0), (ascii ''W'', 0xD1),
    (ascii ''X'', 0xD2), (ascii ''Y'', 0xD3), (ascii ''Z'', 0xD4), (ascii ''a'', 0xD5),
    (ascii ''b'', 0xD6), (ascii ''c'', 0xD7), (ascii ''d'', 0xD8), (ascii ''e'', 0xD9),
    (ascii ''f'', 0xDA), (ascii ''g'', 0xDB), (ascii ''h'', 0xDC), (ascii ''i'', 0xDD),
    (ascii ''j'', 0xDE), (ascii ''k'', 0xDF), (ascii ''l'', 0xE0), (ascii ''m'', 0xE1),
    (ascii ''n'', 0xE2), (ascii ''o'', 0xE3), (ascii ''p'', 0xE4), (ascii ''q'', 0xE5),
    (ascii ''r'', 0xE6), (ascii ''s'', 0xE7), (ascii ''t'', 0xE8), (ascii ''u'', 0xE9),
    (ascii ''v'', 0xEA), (ascii ''w'', 0xEB), (ascii ''x'', 0xEC), (ascii ''y'', 0xED),
    (ascii ''z'', 0xEE), (ascii ''?'', 0xEF), (ascii '':'', 0xF0), (utf8_encode 0xC4, 0xF1),
    (utf8_encode 0xD6, 0xF2), (utf8_encode 0xDC, 0xF3), (utf8_encode 0xE4, 0xF4),
    (utf8_encode 0xF6, 0xF5), (utf8_encode 0xFC, 0xF6), (ascii ''$'', 0xFF)]"

text \<open>The inner loop: the first entry of the table with the character code, if any.\<close>

fun ResolveChar :: "(bytes \<times> u8) list \<Rightarrow> u8 \<Rightarrow> bytes" where
  "ResolveChar [] c = []"
| "ResolveChar ((resolved, code) # table) c = (if code = c then resolved else ResolveChar table c)"

fun ParseGameStringLoop :: "bytes \<Rightarrow> bytes \<Rightarrow> bytes" where
  "ParseGameStringLoop output [] = output"
| "ParseGameStringLoop output (c # str) =
     (if c = 0xFF then output else ParseGameStringLoop (output @ ResolveChar CharMapping c) str)"

definition ParseGameString :: "bytes \<Rightarrow> nat \<Rightarrow> bytes" where
  "ParseGameString str len = ParseGameStringLoop [] (take len str)"

section \<open>The output is text\<close>

lemma text_ascii: "list_all (\<lambda>b. b \<le> 0x7F) bs \<Longrightarrow> utf8_text bs"
  using IsValidUtf8_ascii IsValidUtf8_text by blast

lemma table_text: "list_all (\<lambda>(resolved, code). utf8_text resolved) CharMapping"
  by (simp add: CharMapping_def utf8_text_encode scalar_value_def) (simp add: text_ascii ascii_def byte_of_char_def)

lemma ResolveChar_text: "list_all (\<lambda>(resolved, code). utf8_text resolved) table \<Longrightarrow> utf8_text (ResolveChar table c)"
  by (induction table c rule: ResolveChar.induct) auto

lemma ParseGameStringLoop_eq:
  "ParseGameStringLoop out str =
   out @ concat (map (ResolveChar CharMapping) (takeWhile (\<lambda>c. c \<noteq> 0xFF) str))"
  by (induction str arbitrary: out) auto

lemma concat_text: "list_all utf8_text bs \<Longrightarrow> utf8_text (concat bs)"
  by (induction bs) (auto intro: utf8_text_append)

text \<open>
  A game string is read up to its terminator or the given length, whichever comes first, each
  character replaced by its entry of the table (nothing when it has none), and the result is always
  valid UTF-8, whatever bytes the game memory holds.
\<close>

theorem game_string_valid_text:
  "ParseGameString str len = concat (map (ResolveChar CharMapping) (takeWhile (\<lambda>c. c \<noteq> 0xFF) (take len str)))
   \<and> IsValidUtf8 (ParseGameString str len)"
proof -
  have "list_all utf8_text (map (ResolveChar CharMapping) cs)" for cs
    using ResolveChar_text [OF table_text] by (simp add: list_all_iff)
  then show ?thesis by (simp add: ParseGameString_def ParseGameStringLoop_eq IsValidUtf8_text concat_text)
qed

end
