(* ===== verification/Timer.thy ===== *)
theory Timer
  imports Prelude
begin

text \<open>
  The rate limiter of the update loop: \<^verbatim>\<open>RogueAssistantCpp/Src/Timer.cpp\<close> and \<^verbatim>\<open>Inc/Timer.h\<close>.
  The reading of the steady clock is an argument. Times are 64-bit nanosecond counts; they are
  integers here, and \<open>timer_no_overflow\<close> shows that no operation leaves the 64-bit range for
  clock readings below \<open>2 ^ 62\<close> (146 years) and intervals up to \<open>2 ^ 60\<close> (36 years).
\<close>

definition NanosecondsPerSecond :: int where "NanosecondsPerSecond = 1000000000"
definition c_10UPS :: int where "c_10UPS = NanosecondsPerSecond div 10"
definition c_60UPS :: int where "c_60UPS = NanosecondsPerSecond div 60"

record UpdateTimer =
  m_LastUpdate :: int
  m_Timer :: int
  m_UpdateInterval :: int
  m_WasPaused :: bool

definition newUpdateTimer :: "int \<Rightarrow> UpdateTimer" where
  "newUpdateTimer interval =
     \<lparr>m_LastUpdate = 0, m_Timer = 0, m_UpdateInterval = interval, m_WasPaused = True\<rparr>"

definition TimerUpdate :: "int \<Rightarrow> UpdateTimer \<Rightarrow> bool \<times> UpdateTimer" where
  "TimerUpdate currentTime t =
     (let deltaTime = currentTime - m_LastUpdate t;
          t = t\<lparr>m_LastUpdate := currentTime, m_Timer := m_Timer t + deltaTime\<rparr>
      in if m_WasPaused t \<or> m_Timer t \<ge> m_UpdateInterval t then
           (if m_WasPaused t then (True, t\<lparr>m_Timer := 0, m_WasPaused := False\<rparr>)
            else (let t = t\<lparr>m_Timer := m_Timer t - m_UpdateInterval t\<rparr>;
                      t = (if m_Timer t \<ge> m_UpdateInterval t * 3 then t\<lparr>m_Timer := m_UpdateInterval t\<rparr> else t);
                      t = (if m_Timer t < 0 then t\<lparr>m_Timer := 0\<rparr> else t)
                  in (True, t)))
         else (False, t))"

text \<open>A run of the loop: the clock readings in order, and whether an update was due at each.\<close>

fun timer_run :: "int list \<Rightarrow> UpdateTimer \<Rightarrow> bool list \<times> UpdateTimer" where
  "timer_run [] t = ([], t)"
| "timer_run (now # rest) t =
     (let (due, t) = TimerUpdate now t; (dues, t) = timer_run rest t in (due # dues, t))"

definition timer_inv :: "UpdateTimer \<Rightarrow> bool" where
  "timer_inv t \<longleftrightarrow> 0 < m_UpdateInterval t \<and> \<not> m_WasPaused t
     \<and> 0 \<le> m_Timer t \<and> m_Timer t < 3 * m_UpdateInterval t"

lemma TimerUpdate_first:
  "TimerUpdate now (newUpdateTimer i) = (True, \<lparr>m_LastUpdate = now, m_Timer = 0, m_UpdateInterval = i, m_WasPaused = False\<rparr>)"
  by (simp add: TimerUpdate_def newUpdateTimer_def Let_def)

lemma TimerUpdate_step:
  assumes "timer_inv t" and "m_LastUpdate t \<le> now" and "TimerUpdate now t = (due, t')"
  shows "timer_inv t' \<and> m_LastUpdate t' = now \<and> m_UpdateInterval t' = m_UpdateInterval t
    \<and> (due \<longleftrightarrow> m_UpdateInterval t \<le> m_Timer t + (now - m_LastUpdate t))
    \<and> m_Timer t' + (if due then m_UpdateInterval t else 0) \<le> m_Timer t + (now - m_LastUpdate t)"
  using assms by (auto simp: TimerUpdate_def timer_inv_def Let_def split: if_splits)

lemma timer_run_spec:
  "timer_inv t \<Longrightarrow> sorted (m_LastUpdate t # readings) \<Longrightarrow> timer_run readings t = (dues, t') \<Longrightarrow>
   timer_inv t' \<and> m_LastUpdate t' = last (m_LastUpdate t # readings) \<and> m_UpdateInterval t' = m_UpdateInterval t
   \<and> int (length (filter id dues)) * m_UpdateInterval t + m_Timer t' \<le> m_Timer t + (last (m_LastUpdate t # readings) - m_LastUpdate t)"
proof (induction readings arbitrary: t dues)
  case (Cons now rest)
  obtain due t1 where u: "TimerUpdate now t = (due, t1)" by (metis surj_pair)
  from TimerUpdate_step [OF Cons.prems(1) _ u] Cons.prems(2)
  have t1: "timer_inv t1" "m_LastUpdate t1 = now" "m_UpdateInterval t1 = m_UpdateInterval t"
      "m_Timer t1 + (if due then m_UpdateInterval t else 0) \<le> m_Timer t + (now - m_LastUpdate t)" by auto
  obtain dues' where r: "timer_run rest t1 = (dues', t')" "dues = due # dues'"
    using Cons.prems(3) u by (auto split: prod.splits)
  from Cons.IH [OF t1(1) _ r(1)] Cons.prems(2) t1 show ?case
    by (auto simp: r(2) algebra_simps split: if_splits)
qed simp

text \<open>
  The rate limiter never runs faster than its interval: over any run with a monotone clock, the
  first call is due, and the number of further updates times the interval is at most the time
  that has passed. It never falls more than three intervals behind, and an update is due whenever a
  whole interval has passed since the last call.
\<close>

theorem timer_rate_limited:
  assumes "0 < i" and "sorted (t0 # readings)" and "timer_run (t0 # readings) (newUpdateTimer i) = (dues, t)"
  shows "hd dues \<and> int (length (filter id (tl dues))) * i \<le> last (t0 # readings) - t0
    \<and> 0 \<le> m_Timer t \<and> m_Timer t < 3 * i
    \<and> list_all (\<lambda>now. now < last (t0 # readings) + i \<or> fst (TimerUpdate now t)) nows"
proof -
  let ?t1 = "\<lparr>m_LastUpdate = t0, m_Timer = 0, m_UpdateInterval = i, m_WasPaused = False\<rparr>"
  obtain dues' where r: "timer_run readings ?t1 = (dues', t)" "dues = True # dues'"
    using assms(3) by (auto simp: TimerUpdate_first split: prod.splits)
  have inv: "timer_inv ?t1" using assms(1) by (simp add: timer_inv_def)
  have "sorted (m_LastUpdate ?t1 # readings)" using assms(2) by simp
  from timer_run_spec [OF inv this r(1)] have spec: "timer_inv t" "m_LastUpdate t = last (t0 # readings)"
      "m_UpdateInterval t = i" "int (length (filter id dues')) * i + m_Timer t \<le> last (t0 # readings) - t0"
    by simp_all
  have "fst (TimerUpdate now t)" if "last (t0 # readings) + i \<le> now" for now
  proof -
    obtain due t' where u: "TimerUpdate now t = (due, t')" by (metis surj_pair)
    from TimerUpdate_step [OF spec(1) _ u] that spec assms(1) show ?thesis
      by (auto simp: u timer_inv_def)
  qed
  then have "now < last (t0 # readings) + i \<or> fst (TimerUpdate now t)" for now
    by (meson linorder_not_less)
  then have "list_all (\<lambda>now. now < last (t0 # readings) + i \<or> fst (TimerUpdate now t)) nows"
    by (simp only: list_all_iff) blast
  moreover have "int (length (filter id dues')) * i \<le> last (t0 # readings) - t0"
    using spec(1,4) by (simp add: timer_inv_def)
  ultimately show ?thesis using spec r(2) by (simp add: timer_inv_def)
qed

theorem timer_rate_limited_witness:
  "let (dues, t) = timer_run [5, 8, 20, 100, 101] (newUpdateTimer 10)
   in dues = [True, False, True, True, True] \<and> m_Timer t = 1 \<and> fst (TimerUpdate 111 t)"
proof -
  obtain dues t where run: "timer_run [5, 8, 20, 100, 101] (newUpdateTimer 10) = (dues, t)" by (metis surj_pair)
  then have eq: "dues = [True, False, True, True, True]" "m_Timer t = 1"
    by (auto simp: newUpdateTimer_def TimerUpdate_def Let_def)
  from timer_rate_limited [OF _ _ run, of "[111]"] eq run show ?thesis by simp
qed

text \<open>
  With clock readings below \<open>2 ^ 62\<close> and an interval of at most \<open>2 ^ 60\<close> nanoseconds, every
  intermediate value of an update fits in a signed 64-bit integer, so the integers of the model are
  the integers of the code.
\<close>

theorem timer_no_overflow:
  assumes "0 < i" "i \<le> 2 ^ 60" and "0 \<le> m_LastUpdate t" "m_LastUpdate t \<le> now" "now < 2 ^ 62"
    and "m_UpdateInterval t = i" "0 \<le> m_Timer t" "m_Timer t < 3 * i"
  shows "list_all (\<lambda>v. - (2 ^ 63) \<le> v \<and> v < 2 ^ 63)
    [now - m_LastUpdate t, m_Timer t + (now - m_LastUpdate t), m_Timer t + (now - m_LastUpdate t) - i, i * 3,
     m_Timer (snd (TimerUpdate now t))]"
  using assms by (auto simp: TimerUpdate_def Let_def)

theorem timer_no_overflow_witness:
  "m_Timer (snd (TimerUpdate 900000000 \<lparr>m_LastUpdate = 0, m_Timer = 5, m_UpdateInterval = c_10UPS, m_WasPaused = False\<rparr>)) < 2 ^ 63"
  using timer_no_overflow [of c_10UPS "\<lparr>m_LastUpdate = 0, m_Timer = 5, m_UpdateInterval = c_10UPS, m_WasPaused = False\<rparr>" 900000000]
  by (simp add: c_10UPS_def NanosecondsPerSecond_def)

end
