(* ===== verification/DataStream.thy ===== *)
theory DataStream
  imports Endian
begin

text \<open>
  The serializer of saved data: \<^verbatim>\<open>RogueAssistantCpp/Src/DataStream.cpp\<close>. The eight overloads for
  integers are one generic function in the code and here; a signed integer is the word with its bits.
\<close>

record DataStream =
  m_Pos :: nat
  m_Data :: bytes
  m_IsWrite :: bool

definition newDataStream :: DataStream where
  "newDataStream = \<lparr>m_Pos = 0, m_Data = [], m_IsWrite = True\<rparr>"

definition readDataStream :: "string \<Rightarrow> DataStream" where
  "readDataStream inStream = \<lparr>m_Pos = 0, m_Data = map byte_of_char inStream, m_IsWrite = False\<rparr>"

definition GetSize :: "DataStream \<Rightarrow> nat" where
  "GetSize s = length (m_Data s)"

text \<open>Each operation gives its result, the value left in the argument, and the stream.\<close>

definition SerializeInternalWrite :: "'a::len word \<Rightarrow> DataStream \<Rightarrow> bool \<times> 'a word \<times> DataStream" where
  "SerializeInternalWrite val s =
     (True, val, s\<lparr>m_Data := AppendLittle (m_Data s) val, m_Pos := m_Pos s + sizeof TYPE('a)\<rparr>)"

text \<open>\<^verbatim>\<open>ReadLittle\<close> sets its output to zero first, also when it then fails.\<close>

definition SerializeInternalRead :: "'a::len word \<Rightarrow> DataStream \<Rightarrow> bool \<times> 'a word \<times> DataStream" where
  "SerializeInternalRead val s = (case ReadLittle (m_Data s) (m_Pos s) of
     (False, v) \<Rightarrow> (False, v, s)
   | (True, v) \<Rightarrow> (True, v, s\<lparr>m_Pos := m_Pos s + sizeof TYPE('a)\<rparr>))"

definition SerializeInternal :: "'a::len word \<Rightarrow> DataStream \<Rightarrow> bool \<times> 'a word \<times> DataStream" where
  "SerializeInternal val s = (if m_IsWrite s then SerializeInternalWrite val s else SerializeInternalRead val s)"

definition SerializeU8 :: "u8 \<Rightarrow> DataStream \<Rightarrow> bool \<times> u8 \<times> DataStream" where
  "SerializeU8 = SerializeInternal"
definition SerializeU16 :: "u16 \<Rightarrow> DataStream \<Rightarrow> bool \<times> u16 \<times> DataStream" where
  "SerializeU16 = SerializeInternal"
definition SerializeU32 :: "u32 \<Rightarrow> DataStream \<Rightarrow> bool \<times> u32 \<times> DataStream" where
  "SerializeU32 = SerializeInternal"
definition SerializeU64 :: "u64 \<Rightarrow> DataStream \<Rightarrow> bool \<times> u64 \<times> DataStream" where
  "SerializeU64 = SerializeInternal"

text \<open>The block overload; nothing stands for a null pointer, and a block is as long as its size.\<close>

definition SerializeBytes :: "bytes option \<Rightarrow> nat \<Rightarrow> DataStream \<Rightarrow> bool \<times> bytes option \<times> DataStream" where
  "SerializeBytes data n s =
     (if n = 0 then (True, data, s)
      else case data of
        None \<Rightarrow> (False, None, s)
      | Some bs \<Rightarrow>
          if m_IsWrite s then (True, data, s\<lparr>m_Data := m_Data s @ bs, m_Pos := m_Pos s + n\<rparr>)
          else (let available = (if m_Pos s \<le> length (m_Data s) then length (m_Data s) - m_Pos s else 0);
                    copySize = min n available;
                    copied = take copySize (drop (m_Pos s) (m_Data s)) @ replicate (n - copySize) 0
                in (copySize = n, Some copied, s\<lparr>m_Pos := m_Pos s + copySize\<rparr>)))"

section \<open>Sequences of calls\<close>

datatype Item = I8 u8 | I16 u16 | I32 u32 | I64 u64 | IBytes bytes

text \<open>One call on an item: the result, the item with the value it then holds, and the stream.\<close>

fun SerializeItem :: "Item \<Rightarrow> DataStream \<Rightarrow> bool \<times> Item \<times> DataStream" where
  "SerializeItem (I8 v) s = (let (ok, v, s) = SerializeU8 v s in (ok, I8 v, s))"
| "SerializeItem (I16 v) s = (let (ok, v, s) = SerializeU16 v s in (ok, I16 v, s))"
| "SerializeItem (I32 v) s = (let (ok, v, s) = SerializeU32 v s in (ok, I32 v, s))"
| "SerializeItem (I64 v) s = (let (ok, v, s) = SerializeU64 v s in (ok, I64 v, s))"
| "SerializeItem (IBytes bs) s =
     (let (ok, r, s) = SerializeBytes (Some bs) (length bs) s in (ok, IBytes (the r), s))"

fun SerializeItems :: "Item list \<Rightarrow> DataStream \<Rightarrow> bool \<times> Item list \<times> DataStream" where
  "SerializeItems [] s = (True, [], s)"
| "SerializeItems (i # is) s =
     (let (ok, i, s) = SerializeItem i s; (oks, is, s) = SerializeItems is s in (ok \<and> oks, i # is, s))"

fun same_shape :: "Item \<Rightarrow> Item \<Rightarrow> bool" where
  "same_shape (I8 _) (I8 _) = True"
| "same_shape (I16 _) (I16 _) = True"
| "same_shape (I32 _) (I32 _) = True"
| "same_shape (I64 _) (I64 _) = True"
| "same_shape (IBytes a) (IBytes b) = (length a = length b)"
| "same_shape _ _ = False"

fun item_bytes :: "Item \<Rightarrow> bytes" where
  "item_bytes (I8 v) = le_bytes v"
| "item_bytes (I16 v) = le_bytes v"
| "item_bytes (I32 v) = le_bytes v"
| "item_bytes (I64 v) = le_bytes v"
| "item_bytes (IBytes bs) = bs"

lemma SerializeItem_write:
  "m_IsWrite s \<Longrightarrow> SerializeItem i s =
   (True, i, s\<lparr>m_Data := m_Data s @ item_bytes i, m_Pos := m_Pos s + length (item_bytes i)\<rparr>)"
  by (cases i) (auto simp: SerializeU8_def SerializeU16_def SerializeU32_def SerializeU64_def SerializeInternal_def
      SerializeInternalWrite_def SerializeBytes_def)

lemma SerializeItems_write:
  "m_IsWrite s \<Longrightarrow> SerializeItems is s = (True, is, s\<lparr>m_Data := m_Data s @ concat (map item_bytes is),
     m_Pos := m_Pos s + length (concat (map item_bytes is))\<rparr>)"
  by (induction "is" arbitrary: s) (simp_all add: SerializeItem_write add.assoc)

lemma ReadLittle_middle:
  fixes v :: "'a::len word"
  assumes "8 dvd LENGTH('a)" and "drop p data = le_bytes v @ rest" and "p \<le> length data"
  shows "ReadLittle data p = (True, v)"
proof -
  have "length data - p = sizeof TYPE('a) + length rest" using arg_cong [OF assms(2), of length] by simp
  then have "p + sizeof TYPE('a) \<le> length data" using assms(3) by linarith
  then show ?thesis using assms by (intro ReadLittle_complete) simp_all
qed

lemma SerializeItem_read:
  assumes "\<not> m_IsWrite s" and "same_shape i j" and "m_Pos s \<le> length (m_Data s)"
    and "drop (m_Pos s) (m_Data s) = item_bytes i @ rest"
  shows "SerializeItem j s = (True, i, s\<lparr>m_Pos := m_Pos s + length (item_bytes i)\<rparr>)"
  using assms
proof (cases i)
  case (IBytes a)
  then obtain b where b: "j = IBytes b" "length a = length b" using assms(2) by (cases j) auto
  have "length (m_Data s) - m_Pos s = length a + length rest"
    using arg_cong [OF assms(4), of length] IBytes by simp
  with IBytes b assms show ?thesis
    by (cases "b = []") (auto simp: SerializeBytes_def)
qed (cases j; auto simp: SerializeU8_def SerializeU16_def SerializeU32_def SerializeU64_def SerializeInternal_def
    SerializeInternalRead_def ReadLittle_middle)+

lemma SerializeItems_read:
  "\<not> m_IsWrite s \<Longrightarrow> list_all2 same_shape is js \<Longrightarrow> m_Pos s \<le> length (m_Data s) \<Longrightarrow>
   drop (m_Pos s) (m_Data s) = concat (map item_bytes is) @ rest \<Longrightarrow>
   SerializeItems js s = (True, is, s\<lparr>m_Pos := m_Pos s + length (concat (map item_bytes is))\<rparr>)"
proof (induction "is" arbitrary: js s)
  case (Cons i "is")
  then obtain j js' where js: "js = j # js'" "same_shape i j" "list_all2 same_shape is js'"
    by (auto simp: list_all2_Cons1)
  let ?s = "s\<lparr>m_Pos := m_Pos s + length (item_bytes i)\<rparr>"
  have item: "SerializeItem j s = (True, i, ?s)"
    using Cons.prems js(2) by (intro SerializeItem_read [where rest = "concat (map item_bytes is) @ rest"]) simp_all
  have "length (m_Data s) - m_Pos s = length (item_bytes i) + (length (concat (map item_bytes is)) + length rest)"
    using arg_cong [OF Cons.prems(4), of length] by simp
  then have "m_Pos ?s \<le> length (m_Data ?s)" using Cons.prems(3) by simp
  moreover have "drop (m_Pos ?s) (m_Data ?s) = concat (map item_bytes is) @ rest"
    using Cons.prems(4) by (simp add: add.commute [of "m_Pos s"] flip: drop_drop)
  ultimately have "SerializeItems js' ?s = (True, is, ?s\<lparr>m_Pos := m_Pos ?s + length (concat (map item_bytes is))\<rparr>)"
    using Cons.prems(1) js(3) by (intro Cons.IH) simp_all
  with item show ?case by (simp add: js(1) add.assoc)
qed simp

text \<open>
  What a sequence of calls writes to a stream, the same sequence of calls on a stream over those
  bytes reads back: every call succeeds, every argument then holds the value that was written,
  whatever it held before, and the position ends at the end of the data.
\<close>

theorem data_stream_round_trip:
  assumes "list_all2 same_shape is js" and "SerializeItems is newDataStream = (ok, is', w)"
  shows "ok \<and> is' = is \<and> SerializeItems js (readDataStream (map char_of_byte (m_Data w)))
    = (True, is, (readDataStream (map char_of_byte (m_Data w)))\<lparr>m_Pos := GetSize w\<rparr>)"
proof -
  have w: "ok" "is' = is" "m_Data w = concat (map item_bytes is)"
    using assms(2) SerializeItems_write [of newDataStream "is"] by (auto simp: newDataStream_def)
  have id: "map (byte_of_char \<circ> char_of_byte) bs = bs" for bs by (induction bs) simp_all
  show ?thesis
    using w SerializeItems_read [of "readDataStream (map char_of_byte (m_Data w))" "is" js "[]"] assms(1)
    by (simp add: readDataStream_def GetSize_def id)
qed

theorem data_stream_round_trip_witness:
  "SerializeItems [I16 0, IBytes [0, 0], I8 0] (readDataStream (map char_of_byte
     (m_Data (snd (snd (SerializeItems [I16 0x1234, IBytes [5, 6], I8 7] newDataStream))))))
   = (True, [I16 0x1234, IBytes [5, 6], I8 7], (readDataStream (map char_of_byte [0x34, 0x12, 5, 6, 7]))\<lparr>m_Pos := 5\<rparr>)"
proof -
  obtain ok is' w where run: "SerializeItems [I16 0x1234, IBytes [5, 6], I8 7] newDataStream = (ok, is', w)"
    by (metis surj_pair)
  have "m_Data w = [0x34, 0x12, 5, 6, 7]"
    using run SerializeItems_write [of newDataStream "[I16 0x1234, IBytes [5, 6], I8 7]"]
    by (auto simp: newDataStream_def le_bytes_def upt_rec)
  with data_stream_round_trip [OF _ run, of "[I16 0, IBytes [0, 0], I8 0]"] run show ?thesis
    by (simp add: GetSize_def)
qed

end
