(* ===== verification/GameData.thy ===== *)
theory GameData
  imports Endian
begin

text \<open>
  The structures of the game that the assistant copies out of its memory:
  \<^verbatim>\<open>RogueAssistantCpp/Inc/GameData.h\<close>, and the message IDs of
  \<^verbatim>\<open>Inc/GameConnectionMessage.h\<close>. A structure is read with \<^verbatim>\<open>memcpy\<close> on a little-endian host, so
  it is its bytes, and a field is read at the offset that the natural alignment of its type gives it.
\<close>

section \<open>Layouts\<close>

datatype CType = CU8 | CU16 | CU32 | CBytes nat

fun csize :: "CType \<Rightarrow> nat" where
  "csize CU8 = 1" | "csize CU16 = 2" | "csize CU32 = 4" | "csize (CBytes n) = n"

fun calign :: "CType \<Rightarrow> nat" where
  "calign CU8 = 1" | "calign CU16 = 2" | "calign CU32 = 4" | "calign (CBytes n) = 1"

definition align_up :: "nat \<Rightarrow> nat \<Rightarrow> nat" where
  "align_up offset a = (offset + a - 1) div a * a"

fun field_offset :: "(string \<times> CType) list \<Rightarrow> string \<Rightarrow> nat \<Rightarrow> nat option" where
  "field_offset [] name offset = None"
| "field_offset ((n, t) # fields) name offset =
     (let start = align_up offset (calign t) in
      if n = name then Some start else field_offset fields name (start + csize t))"

fun struct_end :: "(string \<times> CType) list \<Rightarrow> nat \<Rightarrow> nat" where
  "struct_end [] offset = offset"
| "struct_end ((n, t) # fields) offset = struct_end fields (align_up offset (calign t) + csize t)"

definition struct_size :: "(string \<times> CType) list \<Rightarrow> nat" where
  "struct_size fields = align_up (struct_end fields 0) (fold max (map (calign \<circ> snd) fields) 1)"

definition field_u32 :: "(string \<times> CType) list \<Rightarrow> string \<Rightarrow> bytes \<Rightarrow> u32" where
  "field_u32 fields name img = snd (ReadLittle img (the (field_offset fields name 0)))"

definition field_u8 :: "(string \<times> CType) list \<Rightarrow> string \<Rightarrow> bytes \<Rightarrow> u8" where
  "field_u8 fields name img = img ! the (field_offset fields name 0)"

definition GFRomHeader :: "(string \<times> CType) list" where
  "GFRomHeader = [
     (''version'', CU32), (''language'', CU32), (''gameName'', CBytes 32), (''monFrontPics'', CU32),
     (''monBackPics'', CU32), (''monNormalPalettes'', CU32), (''monShinyPalettes'', CU32),
     (''monIcons'', CU32), (''monIconPaletteIds'', CU32), (''monIconPalettes'', CU32),
     (''monSpeciesNames'', CU32), (''moveNames'', CU32), (''decorations'', CU32),
     (''flagsOffset'', CU32), (''varsOffset'', CU32), (''pokedexOffset'', CU32), (''seenOffset'', CU32),
     (''unusedSeenOffset'', CU32), (''pokedexVar'', CU32), (''pokedexFlag'', CU32),
     (''mysteryEventFlag'', CU32), (''pokedexCount'', CU32), (''playerNameLength'', CU8),
     (''unk2'', CU8), (''pokemonNameLength1'', CU8), (''pokemonNameLength2'', CU8),
     (''rogueAssistantHandshake1'', CU32), (''rogueAssistantHeader'', CU32),
     (''rogueAssistantHandshake2'', CU32), (''unk17'', CU8), (''reservedAfterUnk17'', CBytes 3),
     (''saveBlock2Size'', CU32), (''saveBlock1Size'', CU32), (''partyCountOffset'', CU32),
     (''partyOffset'', CU32), (''warpFlagsOffset'', CU32), (''trainerIdOffset'', CU32),
     (''playerNameOffset'', CU32), (''playerGenderOffset'', CU32), (''frontierStatusOffset'', CU32),
     (''frontierStatusOffset2'', CU32), (''externalEventFlagsOffset'', CU32),
     (''externalEventDataOffset'', CU32), (''unk18'', CU32), (''baseStats'', CU32),
     (''abilityNames'', CU32), (''abilityDescriptions'', CU32), (''items'', CU32), (''moves'', CU32),
     (''ballGfx'', CU32), (''ballPalettes'', CU32), (''gcnLinkFlagsOffset'', CU32),
     (''gameClearFlag'', CU32), (''ribbonFlag'', CU32), (''bagCountItems'', CU8),
     (''bagCountKeyItems'', CU8), (''bagCountPokeballs'', CU8), (''bagCountTMHMs'', CU8),
     (''bagCountBerries'', CU8), (''pcItemsCount'', CU8), (''reservedAfterBagCounts'', CBytes 2),
     (''pcItemsOffset'', CU32), (''giftRibbonsOffset'', CU32), (''enigmaBerryOffset'', CU32),
     (''enigmaBerrySize'', CU32), (''moveDescriptions'', CU32), (''unk20'', CU32)]"

definition RogueAssistantHeader :: "(string \<times> CType) list" where
  "RogueAssistantHeader = [
     (''rogueVersion'', CU8), (''rogueDebug'', CU8), (''reserved'', CU16),
     (''rogueAssistantCompatVersion'', CU32), (''assistantConfirmSize'', CU32),
     (''assistantConfirmOffset'', CU32), (''netMultiplayerSize'', CU32), (''netHandshakeOffset'', CU32),
     (''netHandshakeSize'', CU32), (''netHandshakeStateOffset'', CU32),
     (''netHandshakePlayerIdOffset'', CU32), (''netGameStateOffset'', CU32),
     (''netGameStateSize'', CU32), (''netPlayerProfileOffset'', CU32), (''netPlayerProfileSize'', CU32),
     (''netPlayerStateOffset'', CU32), (''netPlayerStateSize'', CU32), (''netPlayerCount'', CU32),
     (''netRequestStateOffset'', CU32), (''netCurrentStateOffset'', CU32), (''homeLocalBoxCount'', CU32),
     (''homeTotalBoxCount'', CU32), (''homeBoxSize'', CU32), (''homeMinimalBoxOffset'', CU32),
     (''homeMinimalBoxSize'', CU32), (''homeDestMonOffset'', CU32), (''homeDestMonSize'', CU32),
     (''homeRemoteIndexOrderOffset'', CU32), (''homeTrainerIdOffset'', CU32), (''saveBlock1Ptr'', CU32),
     (''saveBlock2Ptr'', CU32), (''rogueBlockPtr'', CU32), (''assistantState'', CU32),
     (''multiplayerPtr'', CU32), (''homeBoxPtr'', CU32)]"

definition RogueAssistantState :: "(string \<times> CType) list" where
  "RogueAssistantState = [
     (''inCommBuffer'', CBytes 16), (''outCommBuffer'', CBytes 32), (''assistantState'', CU16),
     (''assistantSubstate'', CU16), (''requestState'', CU16)]"

type_synonym GameAddress = u32

definition c_RomAddress :: GameAddress where "c_RomAddress = 0x08000000"
definition c_GFHeaderAddress :: GameAddress where "c_GFHeaderAddress = c_RomAddress + 0x100"

section \<open>Message IDs\<close>

definition AnonymousChannel :: u16 where "AnonymousChannel = 0"
definition CommonReadChannel :: u16 where "CommonReadChannel = 1"

definition CreateMessageId :: "u16 \<Rightarrow> u16 \<Rightarrow> u32" where
  "CreateMessageId channel param = ucast channel OR push_bit 16 (ucast param)"

definition GetChannel :: "u32 \<Rightarrow> u16" where
  "GetChannel CompactedID = ucast (CompactedID AND 0xFFFF)"

definition GetParam16 :: "u32 \<Rightarrow> u16" where
  "GetParam16 CompactedID = ucast (drop_bit 16 CompactedID)"

definition GetParam8 :: "u32 \<Rightarrow> nat \<Rightarrow> u8" where
  "GetParam8 CompactedID index = (if index < 2 then ucast (drop_bit (index * 8) (GetParam16 CompactedID)) else 0)"

lemma message_id_parts [simp]:
  "GetChannel (CreateMessageId channel param) = channel" "GetParam16 (CreateMessageId channel param) = param"
proof -
  have m: "(0xFFFF :: u32) = mask 16" by (simp add: mask_eq_exp_minus_1)
  show "GetChannel (CreateMessageId channel param) = channel"
    by (rule bit_word_eqI) (auto simp: GetChannel_def CreateMessageId_def bit_simps m)
  show "GetParam16 (CreateMessageId channel param) = param"
    by (rule bit_word_eqI) (auto simp: GetParam16_def CreateMessageId_def bit_simps dest: bit_imp_le_length)
qed

section \<open>The layouts are those the source asserts\<close>

lemma align_up_simps [simp]: "align_up n (Suc 0) = n"
  by (simp add: align_up_def)

lemma struct_sizes [simp]:
  "struct_size GFRomHeader = 260" "struct_size RogueAssistantHeader = 132" "struct_size RogueAssistantState = 54"
  by (simp_all add: struct_size_def GFRomHeader_def RogueAssistantHeader_def RogueAssistantState_def align_up_def
      flip: numeral_2_eq_2)

lemma game_layout_offsets:
  "field_offset GFRomHeader ''rogueAssistantHandshake1'' 0 = Some 120"
  "field_offset GFRomHeader ''rogueAssistantHeader'' 0 = Some 124"
  "field_offset GFRomHeader ''rogueAssistantHandshake2'' 0 = Some 128"
  "field_offset RogueAssistantHeader ''netMultiplayerSize'' 0 = Some 16"
  "field_offset RogueAssistantHeader ''homeBoxSize'' 0 = Some 80"
  "field_offset RogueAssistantHeader ''multiplayerPtr'' 0 = Some 124"
  "field_offset RogueAssistantHeader ''homeBoxPtr'' 0 = Some 128"
  by (simp_all add: GFRomHeader_def RogueAssistantHeader_def align_up_def)

text \<open>
  The layouts of the game structures are the ones the source asserts at compile time: their
  sizes and the offsets of the checked fields, computed from the field types with natural
  alignment.
\<close>

theorem game_struct_layouts:
  "struct_size GFRomHeader = 260
   \<and> field_offset GFRomHeader ''rogueAssistantHandshake1'' 0 = Some 120
   \<and> field_offset GFRomHeader ''rogueAssistantHeader'' 0 = Some 124
   \<and> field_offset GFRomHeader ''rogueAssistantHandshake2'' 0 = Some 128
   \<and> struct_size RogueAssistantHeader = 132
   \<and> field_offset RogueAssistantHeader ''rogueAssistantCompatVersion'' 0 = Some 4
   \<and> field_offset RogueAssistantHeader ''homeBoxPtr'' 0 = Some 128
   \<and> struct_size RogueAssistantState = 54
   \<and> field_offset RogueAssistantState ''assistantState'' 0 = Some 48"
  by (simp add: GFRomHeader_def RogueAssistantHeader_def RogueAssistantState_def align_up_def
      struct_sizes [unfolded GFRomHeader_def RogueAssistantHeader_def RogueAssistantState_def])

end
