(* ===== verification/ObservedMemory.thy ===== *)
theory ObservedMemory
  imports GameData BridgeFrame GameMemory MultiplayerProtocol
begin

text \<open>
  The copies of game memory: \<^verbatim>\<open>RogueAssistantCpp/Src/ObservedGameMemory.cpp\<close>. What they and the
  behaviours ask of the game connection (read and write requests, error reports, disconnecting, the
  removal of the behaviour itself) is a list of effects in the order of the calls: nothing they do
  later depends on what such a call returns, except where a parameter says so.
  \<open>RemoveMultiplayer\<close> is \<^verbatim>\<open>game.RemoveBehaviour(this)\<close>, which only multiplayer calls.
\<close>

section \<open>Observed blobs\<close>

record ObservedBlob =
  m_IsValid :: bool
  m_Data :: bytes

definition BlobResize :: "nat \<Rightarrow> ObservedBlob \<Rightarrow> ObservedBlob" where
  "BlobResize n b =
     b\<lparr>m_IsValid := (if length (m_Data b) \<noteq> n then False else m_IsValid b),
       m_Data := take n (m_Data b) @ replicate (n - length (m_Data b)) 0\<rparr>"

definition newBlob :: "nat \<Rightarrow> ObservedBlob" where
  "newBlob n = BlobResize n \<lparr>m_IsValid = False, m_Data = []\<rparr>"

definition BlobSetData :: "bytes \<Rightarrow> ObservedBlob \<Rightarrow> bool \<times> ObservedBlob" where
  "BlobSetData data b =
     (if length data = length (m_Data b) then (True, b\<lparr>m_Data := data, m_IsValid := True\<rparr>) else (False, b))"

definition BlobClear :: "ObservedBlob \<Rightarrow> ObservedBlob" where
  "BlobClear b = b\<lparr>m_IsValid := False\<rparr>"

record ObservedStruct =
  m_Blob :: ObservedBlob
  m_Value :: bytes

definition newStruct :: "nat \<Rightarrow> ObservedStruct" where
  "newStruct n = \<lparr>m_Blob = newBlob n, m_Value = replicate n 0\<rparr>"

definition StructSetData :: "bytes \<Rightarrow> ObservedStruct \<Rightarrow> bool \<times> ObservedStruct" where
  "StructSetData data s = (case BlobSetData data (m_Blob s) of
     (False, b) \<Rightarrow> (False, s\<lparr>m_Blob := b\<rparr>)
   | (True, b) \<Rightarrow> (True, s\<lparr>m_Blob := b, m_Value := ObservedBlob.m_Data b\<rparr>))"

abbreviation struct_valid :: "ObservedStruct \<Rightarrow> bool" where
  "struct_valid s \<equiv> m_IsValid (m_Blob s)"

section \<open>The observed memory\<close>

datatype ObservedMemoryID =
  GFHeader | RogueHeader | AssitantState | MultiplayerStatePtr | MultiplayerState
| HomeBoxStatePtr | HomeBoxState | GamePokemonStorageData

fun ObservedMemoryIDValue :: "ObservedMemoryID \<Rightarrow> u16" where
  "ObservedMemoryIDValue GFHeader = 0" | "ObservedMemoryIDValue RogueHeader = 1"
| "ObservedMemoryIDValue AssitantState = 2" | "ObservedMemoryIDValue MultiplayerStatePtr = 3"
| "ObservedMemoryIDValue MultiplayerState = 4" | "ObservedMemoryIDValue HomeBoxStatePtr = 5"
| "ObservedMemoryIDValue HomeBoxState = 6" | "ObservedMemoryIDValue GamePokemonStorageData = 7"

definition ObservedMemoryIDCast :: "u16 \<Rightarrow> ObservedMemoryID option" where
  "ObservedMemoryIDCast v = List.find (\<lambda>i. ObservedMemoryIDValue i = v)
     [GFHeader, RogueHeader, AssitantState, MultiplayerStatePtr, MultiplayerState, HomeBoxStatePtr, HomeBoxState,
      GamePokemonStorageData]"

definition MaximumObservedReadSize :: u32 where
  "MaximumObservedReadSize = word_of_nat (MaximumFrameBodyLength - FrameBodyHeaderSize)"

datatype GameEffect =
  ReadReq u32 GameAddress nat
| WriteReq u32 GameAddress bytes
| ReportError string
| Disconnect
| RemoveMultiplayer

record ObservedGameMemory =
  m_GFRomHeader :: ObservedStruct
  m_RogueHeader :: ObservedStruct
  m_AssistantState :: ObservedStruct
  m_MultiplayerStatePtr :: ObservedStruct
  m_MultiplayerState :: ObservedBlob
  m_HomeBoxStatePtr :: ObservedStruct
  m_HomeBoxState :: ObservedBlob
  m_PokemonStorageData :: ObservedBlob

definition newObservedGameMemory :: ObservedGameMemory where
  "newObservedGameMemory =
     \<lparr>m_GFRomHeader = newStruct 260, m_RogueHeader = newStruct 132, m_AssistantState = newStruct 54,
      m_MultiplayerStatePtr = newStruct 4, m_MultiplayerState = newBlob 0,
      m_HomeBoxStatePtr = newStruct 4, m_HomeBoxState = newBlob 0, m_PokemonStorageData = newBlob 0\<rparr>"

definition blob_size :: "ObservedBlob \<Rightarrow> nat" where
  "blob_size b = length (m_Data b)"

definition address_value :: "ObservedStruct \<Rightarrow> GameAddress" where
  "address_value s = snd (ReadLittle (m_Value s) 0)"

definition gf_u32 :: "string \<Rightarrow> ObservedGameMemory \<Rightarrow> u32" where
  "gf_u32 name m = field_u32 GFRomHeader name (m_Value (m_GFRomHeader m))"

definition rogue_u32 :: "string \<Rightarrow> ObservedGameMemory \<Rightarrow> u32" where
  "rogue_u32 name m = field_u32 RogueAssistantHeader name (m_Value (m_RogueHeader m))"

definition CommonReadId :: "ObservedMemoryID \<Rightarrow> u32" where
  "CommonReadId i = CreateMessageId CommonReadChannel (ObservedMemoryIDValue i)"

text \<open>
  One dynamic region of the update: its pointer and then, when the pointer is set, its state. The
  first component says whether the update goes on (the early return of the code is \<open>False\<close>).
\<close>

definition UpdateMultiplayer :: "ObservedGameMemory \<Rightarrow> bool \<times> GameEffect list \<times> ObservedGameMemory" where
  "UpdateMultiplayer m =
     (let pointerRead = ReadReq (CommonReadId MultiplayerStatePtr) (rogue_u32 ''multiplayerPtr'' m)
                          (blob_size (m_Blob (m_MultiplayerStatePtr m)));
          n = rogue_u32 ''netMultiplayerSize'' m
      in if struct_valid (m_MultiplayerStatePtr m) \<and> address_value (m_MultiplayerStatePtr m) \<noteq> 0 then
           (if n = 0 \<or> n > MaximumObservedReadSize
            then (False, [pointerRead,
                          ReportError (''Cannot start multiplayer.'' @ [CHR 0x0A] @ ''The ROM multiplayer data is invalid.''),
                          Disconnect], m)
            else let m = (if blob_size (m_MultiplayerState m) \<noteq> unat n
                          then m\<lparr>m_MultiplayerState := BlobResize (unat n) (m_MultiplayerState m)\<rparr> else m)
              in (True, [pointerRead,
                         ReadReq (CommonReadId MultiplayerState) (address_value (m_MultiplayerStatePtr m))
                           (blob_size (m_MultiplayerState m))], m))
         else (True, [pointerRead], m\<lparr>m_MultiplayerState := BlobClear (m_MultiplayerState m)\<rparr>))"

definition UpdateHomeBox :: "ObservedGameMemory \<Rightarrow> GameEffect list \<times> ObservedGameMemory" where
  "UpdateHomeBox m =
     (let pointerRead = ReadReq (CommonReadId HomeBoxStatePtr) (rogue_u32 ''homeBoxPtr'' m)
                          (blob_size (m_Blob (m_HomeBoxStatePtr m)));
          n = rogue_u32 ''homeBoxSize'' m
      in if struct_valid (m_HomeBoxStatePtr m) \<and> address_value (m_HomeBoxStatePtr m) \<noteq> 0 then
           (if n = 0 \<or> n > MaximumObservedReadSize
            then ([pointerRead,
                   ReportError (''Cannot use Home Box.'' @ [CHR 0x0A] @ ''The ROM Home Box data is invalid.''),
                   Disconnect], m)
            else let m = (if blob_size (m_HomeBoxState m) \<noteq> unat n
                          then m\<lparr>m_HomeBoxState := BlobResize (unat n) (m_HomeBoxState m)\<rparr> else m)
              in ([pointerRead,
                   ReadReq (CommonReadId HomeBoxState) (address_value (m_HomeBoxStatePtr m))
                     (blob_size (m_HomeBoxState m))], m))
         else ([pointerRead], m\<lparr>m_HomeBoxState := BlobClear (m_HomeBoxState m),
                                m_PokemonStorageData := BlobClear (m_PokemonStorageData m)\<rparr>))"

definition ObservedUpdate :: "ObservedGameMemory \<Rightarrow> GameEffect list \<times> ObservedGameMemory" where
  "ObservedUpdate m =
     (if \<not> struct_valid (m_GFRomHeader m) then
        ([ReadReq (CommonReadId GFHeader) c_GFHeaderAddress (blob_size (m_Blob (m_GFRomHeader m)))], m)
      else if \<not> struct_valid (m_RogueHeader m) then
        ([ReadReq (CommonReadId RogueHeader) (gf_u32 ''rogueAssistantHeader'' m) (blob_size (m_Blob (m_RogueHeader m)))], m)
      else case UpdateMultiplayer m of
          (False, effects, m) \<Rightarrow> (effects, m)
        | (True, effects, m) \<Rightarrow> (case UpdateHomeBox m of (effects', m) \<Rightarrow> (effects @ effects', m)))"

definition OnRecieveMessage :: "u32 \<Rightarrow> bytes \<Rightarrow> ObservedGameMemory \<Rightarrow> GameEffect list \<times> ObservedGameMemory" where
  "OnRecieveMessage messageId data m = (case ObservedMemoryIDCast (GetParam16 messageId) of
     None \<Rightarrow> ([], m)
   | Some GFHeader \<Rightarrow> (case StructSetData data (m_GFRomHeader m) of (ok, s) \<Rightarrow>
       let m = m\<lparr>m_GFRomHeader := s\<rparr> in
       if ok then (if gf_u32 ''rogueAssistantHandshake1'' m \<noteq> 20012 \<or> gf_u32 ''rogueAssistantHandshake2'' m \<noteq> 30035
                   then ([Disconnect], m) else ([], m))
       else ([Disconnect], m))
   | Some RogueHeader \<Rightarrow> (case StructSetData data (m_RogueHeader m) of (ok, s) \<Rightarrow>
       (if ok then [] else [Disconnect], m\<lparr>m_RogueHeader := s\<rparr>))
   | Some AssitantState \<Rightarrow> ([], m\<lparr>m_AssistantState := snd (StructSetData data (m_AssistantState m))\<rparr>)
   | Some MultiplayerStatePtr \<Rightarrow> ([], m\<lparr>m_MultiplayerStatePtr := snd (StructSetData data (m_MultiplayerStatePtr m))\<rparr>)
   | Some MultiplayerState \<Rightarrow> ([], m\<lparr>m_MultiplayerState := snd (BlobSetData data (m_MultiplayerState m))\<rparr>)
   | Some HomeBoxStatePtr \<Rightarrow> ([], m\<lparr>m_HomeBoxStatePtr := snd (StructSetData data (m_HomeBoxStatePtr m))\<rparr>)
   | Some HomeBoxState \<Rightarrow> ([], m\<lparr>m_HomeBoxState := snd (BlobSetData data (m_HomeBoxState m))\<rparr>)
   | Some GamePokemonStorageData \<Rightarrow> ([], m\<lparr>m_PokemonStorageData := snd (BlobSetData data (m_PokemonStorageData m))\<rparr>))"

definition AreHeadersValid :: "ObservedGameMemory \<Rightarrow> bool" where
  "AreHeadersValid m \<longleftrightarrow> struct_valid (m_GFRomHeader m) \<and> struct_valid (m_RogueHeader m)"

definition IsMultiplayerStateValid :: "ObservedGameMemory \<Rightarrow> bool" where
  "IsMultiplayerStateValid m \<longleftrightarrow> struct_valid (m_MultiplayerStatePtr m)
     \<and> address_value (m_MultiplayerStatePtr m) \<noteq> 0 \<and> m_IsValid (m_MultiplayerState m)"

definition IsHomeBoxStateValid :: "ObservedGameMemory \<Rightarrow> bool" where
  "IsHomeBoxStateValid m \<longleftrightarrow> struct_valid (m_HomeBoxStatePtr m)
     \<and> address_value (m_HomeBoxStatePtr m) \<noteq> 0 \<and> m_IsValid (m_HomeBoxState m)"

definition GetPokemonStoragePtr :: "ObservedGameMemory \<Rightarrow> GameAddress" where
  "GetPokemonStoragePtr m =
     (if IsHomeBoxStateValid m
      then (case ReadLittle (ObservedBlob.m_Data (m_HomeBoxState m)) (unat (rogue_u32 ''homeDestMonOffset'' m)) of
              (True, v) \<Rightarrow> v | (False, _) \<Rightarrow> 0)
      else 0)"

text \<open>\<open>accepted\<close> is what the game connection answers to the read request.\<close>

definition RequestPokemonStorageData :: "(GameEffect \<Rightarrow> bool) \<Rightarrow> u32 \<Rightarrow> ObservedGameMemory
    \<Rightarrow> bool \<times> GameEffect list \<times> ObservedGameMemory" where
  "RequestPokemonStorageData accepted boxId m =
     (let m = m\<lparr>m_PokemonStorageData := BlobClear (m_PokemonStorageData m)\<rparr> in
      if IsHomeBoxStateValid m then
        (let n = rogue_u32 ''homeDestMonSize'' m;
             request = ReadReq (CommonReadId GamePokemonStorageData) (GetPokemonStoragePtr m + n * boxId) (unat n)
         in if \<not> accepted request then (False, [request], m)
            else (True, [request], m\<lparr>m_PokemonStorageData := BlobResize (unat n) (m_PokemonStorageData m)\<rparr>))
      else (False, [], m))"

section \<open>Regions\<close>

fun region :: "ObservedMemoryID \<Rightarrow> ObservedGameMemory \<Rightarrow> ObservedBlob" where
  "region GFHeader m = m_Blob (m_GFRomHeader m)"
| "region RogueHeader m = m_Blob (m_RogueHeader m)"
| "region AssitantState m = m_Blob (m_AssistantState m)"
| "region MultiplayerStatePtr m = m_Blob (m_MultiplayerStatePtr m)"
| "region MultiplayerState m = m_MultiplayerState m"
| "region HomeBoxStatePtr m = m_Blob (m_HomeBoxStatePtr m)"
| "region HomeBoxState m = m_HomeBoxState m"
| "region GamePokemonStorageData m = m_PokemonStorageData m"

definition struct_ok :: "nat \<Rightarrow> ObservedStruct \<Rightarrow> bool" where
  "struct_ok n s \<longleftrightarrow> blob_size (m_Blob s) = n \<and> length (m_Value s) = n
     \<and> (struct_valid s \<longrightarrow> m_Value s = ObservedBlob.m_Data (m_Blob s))"

definition observed_inv :: "ObservedGameMemory \<Rightarrow> bool" where
  "observed_inv m \<longleftrightarrow> struct_ok 260 (m_GFRomHeader m) \<and> struct_ok 132 (m_RogueHeader m)
     \<and> struct_ok 54 (m_AssistantState m) \<and> struct_ok 4 (m_MultiplayerStatePtr m) \<and> struct_ok 4 (m_HomeBoxStatePtr m)
     \<and> blob_size (m_MultiplayerState m) \<le> 1048568 \<and> blob_size (m_HomeBoxState m) \<le> 1048568
     \<and> blob_size (m_PokemonStorageData m) \<le> 1048568"

lemma MaximumObservedReadSize_unat [simp]: "unat MaximumObservedReadSize = 1048568"
  by (simp add: MaximumObservedReadSize_def unat_of_nat)

lemma blob_size_simps [simp]:
  "blob_size (BlobResize n b) = n" "blob_size (BlobClear b) = blob_size b" "blob_size (newBlob n) = n"
  "blob_size (snd (BlobSetData data b)) = blob_size b"
  by (simp_all add: blob_size_def BlobResize_def BlobClear_def newBlob_def BlobSetData_def)

lemma invalid_new: "\<not> m_IsValid (newBlob n)"
  by (simp add: newBlob_def BlobResize_def)

lemma StructSetData_ok: "struct_ok n s \<Longrightarrow> struct_ok n (snd (StructSetData data s))"
  by (auto simp: struct_ok_def StructSetData_def BlobSetData_def blob_size_def)

lemma struct_ok_new: "struct_ok n (newStruct n)"
  by (simp add: struct_ok_def newStruct_def) (simp add: newBlob_def BlobResize_def)

lemma ObservedMemoryIDCast_Value [simp]: "ObservedMemoryIDCast (ObservedMemoryIDValue i) = Some i"
  by (cases i) (simp_all add: ObservedMemoryIDCast_def)

lemma read_size_word: "\<not> (n = 0 \<or> n > MaximumObservedReadSize) \<Longrightarrow> 0 < unat n \<and> unat n \<le> 1048568"
  by (simp add: word_less_nat_alt unat_gt_0)

lemma observed_inv_new: "observed_inv newObservedGameMemory"
  by (simp add: observed_inv_def newObservedGameMemory_def struct_ok_new)

lemma OnRecieveMessage_inv: "observed_inv m \<Longrightarrow> observed_inv (snd (OnRecieveMessage messageId data m))"
  by (cases "ObservedMemoryIDCast (GetParam16 messageId)"; cases "the (ObservedMemoryIDCast (GetParam16 messageId))")
    (auto simp: OnRecieveMessage_def observed_inv_def Let_def split_beta intro: StructSetData_ok)

lemma RequestPokemonStorageData_inv:
  assumes "observed_inv m" and "\<And>i a n. accepted (ReadReq i a n) \<Longrightarrow> n \<le> 1048568"
  shows "observed_inv (snd (snd (RequestPokemonStorageData accepted boxId m)))"
  using assms by (auto simp: RequestPokemonStorageData_def observed_inv_def Let_def)

text \<open>A read request whose answer fits the region it is for.\<close>

definition fitting_read :: "ObservedGameMemory \<Rightarrow> GameEffect \<Rightarrow> bool" where
  "fitting_read m e = (case e of ReadReq messageId a n \<Rightarrow>
      0 < n \<and> n \<le> 1048568 \<and> (\<exists>i. messageId = CommonReadId i \<and> n = blob_size (region i m)) | _ \<Rightarrow> True)"

lemma fitting_readI:
  "n = blob_size (region i m) \<Longrightarrow> 0 < n \<Longrightarrow> n \<le> 1048568 \<Longrightarrow> fitting_read m (ReadReq (CommonReadId i) a n)"
  by (auto simp: fitting_read_def)

lemma fitting_read_other [simp]: "fitting_read m (ReportError s)" "fitting_read m Disconnect"
  by (simp_all add: fitting_read_def)

lemma UpdateMultiplayer_fits:
  assumes "observed_inv m" and "UpdateMultiplayer m = (go, effects, m')"
  shows "observed_inv m' \<and> list_all (fitting_read m') effects
    \<and> (\<forall>i. i \<noteq> MultiplayerState \<longrightarrow> region i m' = region i m)"
proof -
  have sizes: "blob_size (m_Blob (m_MultiplayerStatePtr m)) = 4"
    using assms(1) by (simp add: observed_inv_def struct_ok_def)
  show ?thesis
    using assms sizes read_size_word [of "rogue_u32 ''netMultiplayerSize'' m"]
    by (auto simp: UpdateMultiplayer_def Let_def observed_inv_def split: if_splits
        intro!: fitting_readI elim: region.elims) (case_tac [!] i, auto)
qed

lemma UpdateHomeBox_fits:
  assumes "observed_inv m" and "UpdateHomeBox m = (effects, m')"
  shows "observed_inv m' \<and> list_all (fitting_read m') effects
    \<and> (\<forall>i. i \<noteq> HomeBoxState \<longrightarrow> blob_size (region i m') = blob_size (region i m))"
proof -
  have sizes: "blob_size (m_Blob (m_HomeBoxStatePtr m)) = 4"
    using assms(1) by (simp add: observed_inv_def struct_ok_def)
  show ?thesis
    using assms sizes read_size_word [of "rogue_u32 ''homeBoxSize'' m"]
    by (auto simp: UpdateHomeBox_def Let_def observed_inv_def split: if_splits
        intro!: fitting_readI elim: region.elims) (case_tac [!] i, auto)
qed

lemma fitting_read_keep:
  assumes "fitting_read m e" and "\<And>i. i \<noteq> HomeBoxState \<Longrightarrow> blob_size (region i m') = blob_size (region i m)"
    and "\<And>a n. e \<noteq> ReadReq (CommonReadId HomeBoxState) a n"
  shows "fitting_read m' e"
  using assms by (auto simp: fitting_read_def split: GameEffect.splits) metis

lemma CommonReadId_inject: "CommonReadId i = CommonReadId j \<Longrightarrow> i = j"
  unfolding CommonReadId_def by (metis ObservedMemoryIDCast_Value message_id_parts(2) option.inject)

lemma UpdateMultiplayer_ids:
  "UpdateMultiplayer m = (go, effects, m') \<Longrightarrow> e \<in> set effects \<Longrightarrow> e \<noteq> ReadReq (CommonReadId HomeBoxState) a n"
  by (auto simp: UpdateMultiplayer_def Let_def split: if_splits dest!: CommonReadId_inject)

lemma ObservedUpdate_fits:
  assumes inv: "observed_inv m" and up: "ObservedUpdate m = (effects, m')"
  shows "observed_inv m' \<and> list_all (fitting_read m') effects"
proof -
  have headers: "blob_size (m_Blob (m_GFRomHeader m)) = 260" "blob_size (m_Blob (m_RogueHeader m)) = 132"
    using inv by (simp_all add: observed_inv_def struct_ok_def)
  show ?thesis
  proof (cases "struct_valid (m_GFRomHeader m) \<and> struct_valid (m_RogueHeader m)")
    case False
    then consider "\<not> struct_valid (m_GFRomHeader m)"
      | "struct_valid (m_GFRomHeader m)" "\<not> struct_valid (m_RogueHeader m)" by blast
    then show ?thesis
    proof cases
      case 1
      have "fitting_read m (ReadReq (CommonReadId GFHeader) c_GFHeaderAddress (blob_size (m_Blob (m_GFRomHeader m))))"
        using headers by (intro fitting_readI) simp_all
      with 1 up inv show ?thesis by (auto simp add: ObservedUpdate_def simp del: blob_size_simps)
    next
      case 2
      have "fitting_read m (ReadReq (CommonReadId RogueHeader) (gf_u32 ''rogueAssistantHeader'' m)
              (blob_size (m_Blob (m_RogueHeader m))))"
        using headers by (intro fitting_readI) simp_all
      with 2 up inv show ?thesis by (auto simp add: ObservedUpdate_def simp del: blob_size_simps)
    qed
  next
    case True
    obtain go es1 m1 where mp: "UpdateMultiplayer m = (go, es1, m1)" by (metis surj_pair)
    obtain es2 m2 where hb: "UpdateHomeBox m1 = (es2, m2)" by (metis surj_pair)
    note fits1 = UpdateMultiplayer_fits [OF inv mp]
    note fits2 = UpdateHomeBox_fits [OF conjunct1 [OF fits1] hb]
    have kept: "list_all (fitting_read m2) es1"
      unfolding list_all_iff
    proof (intro ballI)
      fix e assume e: "e \<in> set es1"
      show "fitting_read m2 e"
      proof (rule fitting_read_keep)
        show "fitting_read m1 e" using fits1 e by (simp only: list_all_iff)
        show "blob_size (region i m2) = blob_size (region i m1)" if "i \<noteq> HomeBoxState" for i using fits2 that by blast
        show "e \<noteq> ReadReq (CommonReadId HomeBoxState) a n" for a n by (rule UpdateMultiplayer_ids [OF mp e])
      qed
    qed
    show ?thesis
    proof (cases go)
      case go: True
      from up True mp hb go have "effects = es1 @ es2" "m' = m2" by (simp_all add: ObservedUpdate_def)
      with kept fits2 show ?thesis by simp
    next
      case go: False
      from up True mp go have "effects = es1" "m' = m1" by (simp_all add: ObservedUpdate_def)
      with fits1 show ?thesis by simp
    qed
  qed
qed

text \<open>
  C24. Every read an update of the observed memory asks for is one the bridge can answer, and its
  answer fits: the size is from 1 to the largest payload of a frame and is the size of the region
  the answer is for, whatever the ROM's headers say. The update and every message keep the sizes of
  the structures fixed and the decoded values those of the last complete read.
\<close>

theorem observed_reads_fit:
  assumes "observed_inv m" and "ObservedUpdate m = (effects, m')"
  shows "observed_inv m' \<and> list_all (fitting_read m') effects \<and> observed_inv (snd (OnRecieveMessage messageId data m'))"
  using ObservedUpdate_fits [OF assms] OnRecieveMessage_inv by blast

theorem observed_reads_fit_witness:
  "let (effects, m) = ObservedUpdate newObservedGameMemory
   in effects = [ReadReq (CommonReadId GFHeader) 0x08000100 260] \<and> list_all (fitting_read m) effects"
proof -
  obtain effects m where up: "ObservedUpdate newObservedGameMemory = (effects, m)" by (metis surj_pair)
  then have "effects = [ReadReq (CommonReadId GFHeader) 0x08000100 260]"
    by (simp add: ObservedUpdate_def newObservedGameMemory_def newStruct_def c_GFHeaderAddress_def c_RomAddress_def
        invalid_new)
  with observed_reads_fit [OF observed_inv_new up] up show ?thesis by simp
qed

section \<open>What an update and a message keep\<close>

lemma UpdateMultiplayer_keeps:
  "UpdateMultiplayer m = (go, es, m') \<Longrightarrow> m_RogueHeader m' = m_RogueHeader m \<and> m_PokemonStorageData m' = m_PokemonStorageData m"
  by (auto simp: UpdateMultiplayer_def Let_def split: if_splits)

lemma UpdateHomeBox_keeps:
  "UpdateHomeBox m = (es, m') \<Longrightarrow> m_RogueHeader m' = m_RogueHeader m
   \<and> blob_size (m_PokemonStorageData m') = blob_size (m_PokemonStorageData m)"
  by (auto simp: UpdateHomeBox_def Let_def split: if_splits)

lemma ObservedUpdate_keeps:
  "m_RogueHeader (snd (ObservedUpdate m)) = m_RogueHeader m
   \<and> blob_size (m_PokemonStorageData (snd (ObservedUpdate m))) = blob_size (m_PokemonStorageData m)"
proof (cases "struct_valid (m_GFRomHeader m) \<and> struct_valid (m_RogueHeader m)")
  case True
  obtain go es1 m1 where mp: "UpdateMultiplayer m = (go, es1, m1)" by (metis surj_pair)
  obtain es2 m2 where hb: "UpdateHomeBox m1 = (es2, m2)" by (metis surj_pair)
  have "snd (ObservedUpdate m) = (if go then m2 else m1)" using True mp hb by (simp add: ObservedUpdate_def split: bool.split)
  with UpdateMultiplayer_keeps [OF mp] UpdateHomeBox_keeps [OF hb] show ?thesis by simp
next
  case False
  then have "snd (ObservedUpdate m) = m" by (auto simp: ObservedUpdate_def)
  then show ?thesis by simp
qed

lemma OnRecieveMessage_keeps:
  "blob_size (m_PokemonStorageData (snd (OnRecieveMessage i bs m))) = blob_size (m_PokemonStorageData m)"
  by (cases "ObservedMemoryIDCast (GetParam16 i)"; cases "the (ObservedMemoryIDCast (GetParam16 i))")
    (simp_all add: OnRecieveMessage_def Let_def split_beta)

section \<open>A game that answers\<close>

text \<open>
  \<open>mem a n\<close> are the \<open>n\<close> bytes of the game memory at \<open>a\<close>. A round updates the observed memory and
  delivers the answer to each read in order.
\<close>

fun deliver :: "(GameAddress \<Rightarrow> nat \<Rightarrow> bytes) \<Rightarrow> GameEffect \<Rightarrow> ObservedGameMemory \<Rightarrow> ObservedGameMemory" where
  "deliver mem (ReadReq i a n) m = snd (OnRecieveMessage i (mem a n) m)"
| "deliver mem _ m = m"

definition observe_round :: "(GameAddress \<Rightarrow> nat \<Rightarrow> bytes) \<Rightarrow> ObservedGameMemory \<Rightarrow> ObservedGameMemory" where
  "observe_round mem m = (case ObservedUpdate m of (effects, m) \<Rightarrow> fold (deliver mem) effects m)"

definition le_u32 :: "bytes \<Rightarrow> u32" where
  "le_u32 bs = snd (ReadLittle bs 0)"

text \<open>A game memory with a good header chain, and both states present with sizes in range.\<close>

definition good_game :: "(GameAddress \<Rightarrow> nat \<Rightarrow> bytes) \<Rightarrow> bytes \<Rightarrow> bytes \<Rightarrow> u32 \<Rightarrow> u32 \<Rightarrow> u32 \<Rightarrow> u32 \<Rightarrow> bool" where
  "good_game mem gf rogue mp mn hp hn \<longleftrightarrow>
     mem c_GFHeaderAddress 260 = gf \<and> length gf = 260
     \<and> field_u32 GFRomHeader ''rogueAssistantHandshake1'' gf = 20012
     \<and> field_u32 GFRomHeader ''rogueAssistantHandshake2'' gf = 30035
     \<and> mem (field_u32 GFRomHeader ''rogueAssistantHeader'' gf) 132 = rogue \<and> length rogue = 132
     \<and> length (mem (field_u32 RogueAssistantHeader ''multiplayerPtr'' rogue) 4) = 4
     \<and> le_u32 (mem (field_u32 RogueAssistantHeader ''multiplayerPtr'' rogue) 4) = mp \<and> mp \<noteq> 0
     \<and> field_u32 RogueAssistantHeader ''netMultiplayerSize'' rogue = mn \<and> mn \<noteq> 0 \<and> unat mn \<le> 1048568
     \<and> length (mem mp (unat mn)) = unat mn
     \<and> length (mem (field_u32 RogueAssistantHeader ''homeBoxPtr'' rogue) 4) = 4
     \<and> le_u32 (mem (field_u32 RogueAssistantHeader ''homeBoxPtr'' rogue) 4) = hp \<and> hp \<noteq> 0
     \<and> field_u32 RogueAssistantHeader ''homeBoxSize'' rogue = hn \<and> hn \<noteq> 0 \<and> unat hn \<le> 1048568
     \<and> length (mem hp (unat hn)) = unat hn"

lemma deliver_read:
  "deliver mem (ReadReq (CommonReadId i) a n) m = snd (OnRecieveMessage (CommonReadId i) (mem a n) m)"
  by simp

definition filled :: "bytes \<Rightarrow> ObservedStruct" where
  "filled bs = \<lparr>m_Blob = \<lparr>m_IsValid = True, m_Data = bs\<rparr>, m_Value = bs\<rparr>"

definition filled_blob :: "bytes \<Rightarrow> ObservedBlob" where
  "filled_blob bs = \<lparr>m_IsValid = True, m_Data = bs\<rparr>"

lemma StructSetData_filled: "struct_ok (length bs) s \<Longrightarrow> StructSetData bs s = (True, filled bs)"
  by (cases s; cases "m_Blob s") (auto simp: StructSetData_def BlobSetData_def struct_ok_def blob_size_def filled_def)

lemma BlobSetData_filled: "blob_size b = length bs \<Longrightarrow> BlobSetData bs b = (True, filled_blob bs)"
  by (cases b) (auto simp: BlobSetData_def blob_size_def filled_blob_def)

lemma filled_simps [simp]:
  "struct_valid (filled bs)" "m_Value (filled bs) = bs" "blob_size (m_Blob (filled bs)) = length bs"
  "address_value (filled bs) = le_u32 bs" "m_IsValid (filled_blob bs)" "blob_size (filled_blob bs) = length bs"
  by (simp_all add: filled_def filled_blob_def address_value_def le_u32_def blob_size_def)

lemma received:
  "OnRecieveMessage (CommonReadId RogueHeader) data m = (case StructSetData data (m_RogueHeader m) of (ok, s) \<Rightarrow>
       (if ok then [] else [Disconnect], m\<lparr>m_RogueHeader := s\<rparr>))"
  "OnRecieveMessage (CommonReadId MultiplayerStatePtr) data m =
     ([], m\<lparr>m_MultiplayerStatePtr := snd (StructSetData data (m_MultiplayerStatePtr m))\<rparr>)"
  "OnRecieveMessage (CommonReadId MultiplayerState) data m =
     ([], m\<lparr>m_MultiplayerState := snd (BlobSetData data (m_MultiplayerState m))\<rparr>)"
  "OnRecieveMessage (CommonReadId HomeBoxStatePtr) data m =
     ([], m\<lparr>m_HomeBoxStatePtr := snd (StructSetData data (m_HomeBoxStatePtr m))\<rparr>)"
  "OnRecieveMessage (CommonReadId HomeBoxState) data m =
     ([], m\<lparr>m_HomeBoxState := snd (BlobSetData data (m_HomeBoxState m))\<rparr>)"
  by (simp_all add: OnRecieveMessage_def CommonReadId_def del: ObservedMemoryIDValue.simps)

lemma received_gf:
  "OnRecieveMessage (CommonReadId GFHeader) data m = (case StructSetData data (m_GFRomHeader m) of (ok, s) \<Rightarrow>
       let m = m\<lparr>m_GFRomHeader := s\<rparr> in
       if ok then (if gf_u32 ''rogueAssistantHandshake1'' m \<noteq> 20012 \<or> gf_u32 ''rogueAssistantHandshake2'' m \<noteq> 30035
                   then ([Disconnect], m) else ([], m))
       else ([Disconnect], m))"
  by (simp add: OnRecieveMessage_def CommonReadId_def del: ObservedMemoryIDValue.simps)

lemma BlobClear_new [simp]: "BlobClear (newBlob n) = newBlob n"
  by (simp add: BlobClear_def newBlob_def BlobResize_def)

lemma struct_ok_newD: "struct_ok 260 (newStruct 260)" "struct_ok 132 (newStruct 132)" "struct_ok 4 (newStruct 4)"
  by (simp_all add: struct_ok_new)

lemma newStruct_simps: "\<not> struct_valid (newStruct n)" "blob_size (m_Blob (newStruct n)) = n"
  by (simp_all add: newStruct_def invalid_new)

text \<open>The observed memory after the first, second and third round with such a game.\<close>

definition observed_headers :: "bytes \<Rightarrow> bytes \<Rightarrow> ObservedGameMemory" where
  "observed_headers gf rogue = newObservedGameMemory\<lparr>m_GFRomHeader := filled gf, m_RogueHeader := filled rogue\<rparr>"

definition observed_pointers :: "bytes \<Rightarrow> bytes \<Rightarrow> bytes \<Rightarrow> bytes \<Rightarrow> ObservedGameMemory" where
  "observed_pointers gf rogue mp hp =
     (observed_headers gf rogue)\<lparr>m_MultiplayerStatePtr := filled mp, m_HomeBoxStatePtr := filled hp\<rparr>"

lemma observe_round_1:
  assumes "mem c_GFHeaderAddress 260 = gf" "length gf = 260"
    "field_u32 GFRomHeader ''rogueAssistantHandshake1'' gf = 20012"
    "field_u32 GFRomHeader ''rogueAssistantHandshake2'' gf = 30035"
  shows "observe_round mem newObservedGameMemory = newObservedGameMemory\<lparr>m_GFRomHeader := filled gf\<rparr>"
  using assms StructSetData_filled [of gf "newStruct 260"] struct_ok_newD
  by (simp add: observe_round_def ObservedUpdate_def newObservedGameMemory_def newStruct_simps received_gf gf_u32_def)

lemma observe_round_2:
  assumes "mem (field_u32 GFRomHeader ''rogueAssistantHeader'' gf) 132 = rogue" "length rogue = 132"
  shows "observe_round mem (newObservedGameMemory\<lparr>m_GFRomHeader := filled gf\<rparr>) = observed_headers gf rogue"
  using assms StructSetData_filled [of rogue "newStruct 132"] struct_ok_newD
  by (simp add: observe_round_def ObservedUpdate_def newObservedGameMemory_def newStruct_simps received gf_u32_def
      observed_headers_def)

lemma observe_round_3:
  assumes "mem (field_u32 RogueAssistantHeader ''multiplayerPtr'' rogue) 4 = mp" "length mp = 4"
    "mem (field_u32 RogueAssistantHeader ''homeBoxPtr'' rogue) 4 = hp" "length hp = 4"
  shows "observe_round mem (observed_headers gf rogue) = observed_pointers gf rogue mp hp"
  using assms StructSetData_filled [of mp "newStruct 4"] StructSetData_filled [of hp "newStruct 4"] struct_ok_newD
  by (simp add: observe_round_def ObservedUpdate_def UpdateMultiplayer_def UpdateHomeBox_def newObservedGameMemory_def
      newStruct_simps received rogue_u32_def observed_headers_def observed_pointers_def Let_def)

lemma four_times: "(f ^^ 4) x = f (f (f (f x)))"
  by (simp add: numeral_eq_Suc)

lemma observe_round_4:
  assumes mp: "le_u32 mp \<noteq> 0" "field_u32 RogueAssistantHeader ''netMultiplayerSize'' rogue = mn" "mn \<noteq> 0" "unat mn \<le> 1048568"
    "mem (le_u32 mp) (unat mn) = mdata" "length mdata = unat mn" "length mp = 4"
    and hp: "le_u32 hp \<noteq> 0" "field_u32 RogueAssistantHeader ''homeBoxSize'' rogue = hn" "hn \<noteq> 0" "unat hn \<le> 1048568"
    "mem (le_u32 hp) (unat hn) = hdata" "length hdata = unat hn" "length hp = 4"
    and same: "mem (field_u32 RogueAssistantHeader ''multiplayerPtr'' rogue) 4 = mp"
    "mem (field_u32 RogueAssistantHeader ''homeBoxPtr'' rogue) 4 = hp"
  shows "observe_round mem (observed_pointers gf rogue mp hp) =
     (observed_pointers gf rogue mp hp)\<lparr>m_MultiplayerState := filled_blob mdata, m_HomeBoxState := filled_blob hdata\<rparr>"
proof -
  have sizes: "\<not> mn > MaximumObservedReadSize" "\<not> hn > MaximumObservedReadSize" "unat mn \<noteq> 0" "unat hn \<noteq> 0"
    using mp hp by (simp_all add: word_less_nat_alt unat_eq_0)
  have structs: "StructSetData mp (filled mp) = (True, filled mp)" "StructSetData hp (filled hp) = (True, filled hp)"
    by (simp_all add: StructSetData_def BlobSetData_def filled_def)
  have blobs: "BlobSetData mdata (BlobResize (unat mn) (newBlob 0)) = (True, filled_blob mdata)"
    "BlobSetData hdata (BlobResize (unat hn) (newBlob 0)) = (True, filled_blob hdata)"
    using mp hp by (simp_all add: BlobSetData_filled)
  show ?thesis
    using mp hp same sizes structs blobs
    by (simp add: observe_round_def ObservedUpdate_def UpdateMultiplayer_def UpdateHomeBox_def newObservedGameMemory_def
      newStruct_simps received rogue_u32_def observed_headers_def observed_pointers_def Let_def)
qed

text \<open>
  C23. When the game answers, the observed memory becomes valid: with a game whose header chain is
  good, four updates whose reads are answered leave the headers, the multiplayer state and the
  Home Box state valid, and they hold exactly the bytes the game has at the addresses that its
  headers and pointers name.
\<close>

theorem observed_states_arrive:
  assumes "good_game mem gf rogue mp mn hp hn"
  shows "let m = (observe_round mem ^^ 4) newObservedGameMemory
    in AreHeadersValid m \<and> IsMultiplayerStateValid m \<and> IsHomeBoxStateValid m
     \<and> m_Value (m_GFRomHeader m) = gf \<and> m_Value (m_RogueHeader m) = rogue
     \<and> ObservedBlob.m_Data (m_MultiplayerState m) = mem mp (unat mn)
     \<and> ObservedBlob.m_Data (m_HomeBoxState m) = mem hp (unat hn)"
proof -
  let ?mp = "mem (field_u32 RogueAssistantHeader ''multiplayerPtr'' rogue) 4"
  let ?hp = "mem (field_u32 RogueAssistantHeader ''homeBoxPtr'' rogue) 4"
  note g = assms [unfolded good_game_def]
  have r1: "observe_round mem newObservedGameMemory = newObservedGameMemory\<lparr>m_GFRomHeader := filled gf\<rparr>"
    using g by (intro observe_round_1) blast+
  have r2: "observe_round mem (newObservedGameMemory\<lparr>m_GFRomHeader := filled gf\<rparr>) = observed_headers gf rogue"
    using g by (intro observe_round_2) blast+
  have r3: "observe_round mem (observed_headers gf rogue) = observed_pointers gf rogue ?mp ?hp"
    using g by (intro observe_round_3) blast+
  have ptrs: "le_u32 ?mp = mp" "le_u32 ?hp = hp" using g by blast+
  have r4: "observe_round mem (observed_pointers gf rogue ?mp ?hp) = (observed_pointers gf rogue ?mp ?hp)
      \<lparr>m_MultiplayerState := filled_blob (mem mp (unat mn)), m_HomeBoxState := filled_blob (mem hp (unat hn))\<rparr>"
    using g by (intro observe_round_4 [where mn = mn and hn = hn]) (simp only: ptrs; blast)+
  have "(observe_round mem ^^ 4) newObservedGameMemory =
      (observed_pointers gf rogue ?mp ?hp)\<lparr>m_MultiplayerState := filled_blob (mem mp (unat mn)),
        m_HomeBoxState := filled_blob (mem hp (unat hn))\<rparr>"
    by (simp only: four_times r1 r2 r3 r4)
  moreover have "mp \<noteq> 0" "hp \<noteq> 0" using g by blast+
  ultimately show ?thesis
    by (simp add: AreHeadersValid_def IsMultiplayerStateValid_def IsHomeBoxStateValid_def observed_pointers_def
        observed_headers_def filled_blob_def ptrs)
qed

definition exampleGF :: bytes where
  "exampleGF = replicate 120 0 @ [0x2C, 0x4E, 0, 0, 0, 0, 0, 8, 0x53, 0x75, 0, 0] @ replicate 128 0"

definition exampleRogue :: bytes where
  "exampleRogue = replicate 16 0 @ [3, 0, 0, 0] @ replicate 60 0 @ [2, 0, 0, 0] @ replicate 40 0 @ [0, 0, 0, 2, 4, 0, 0, 2]"

definition exampleGame :: "GameAddress \<Rightarrow> nat \<Rightarrow> bytes" where
  "exampleGame a n =
     (if a = 0x08000100 then exampleGF else if a = 0x08000000 then exampleRogue
      else if a = 0x02000000 then [0, 0x10, 0, 2] else if a = 0x02000004 then [0, 0x20, 0, 2]
      else if a = 0x02001000 then [1, 2, 3] else [4, 5])"

lemma ReadLittle_u32:
  "off + 4 \<le> length bs \<Longrightarrow> ReadLittle bs off = (True, ucast (bs ! off) OR push_bit 8 (ucast (bs ! (off + 1)))
     OR push_bit 16 (ucast (bs ! (off + 2))) OR push_bit 24 (ucast (bs ! (off + 3))) :: u32)"
  by (auto simp: ReadLittle_def upt_rec or.assoc numeral_3_eq_3)

lemma exampleGF_fields:
  "length exampleGF = 260" "field_u32 GFRomHeader ''rogueAssistantHandshake1'' exampleGF = 20012"
  "field_u32 GFRomHeader ''rogueAssistantHandshake2'' exampleGF = 30035"
  "field_u32 GFRomHeader ''rogueAssistantHeader'' exampleGF = 0x08000000"
  by (simp_all add: field_u32_def game_layout_offsets ReadLittle_u32 exampleGF_def nth_append)

lemma exampleRogue_fields:
  "length exampleRogue = 132" "field_u32 RogueAssistantHeader ''multiplayerPtr'' exampleRogue = 0x02000000"
  "field_u32 RogueAssistantHeader ''homeBoxPtr'' exampleRogue = 0x02000004"
  "field_u32 RogueAssistantHeader ''netMultiplayerSize'' exampleRogue = 3"
  "field_u32 RogueAssistantHeader ''homeBoxSize'' exampleRogue = 2"
  by (simp_all add: field_u32_def game_layout_offsets ReadLittle_u32 exampleRogue_def nth_append)

lemma good_exampleGame: "good_game exampleGame exampleGF exampleRogue 0x02001000 3 0x02002000 2"
  by (simp add: good_game_def exampleGame_def exampleGF_fields exampleRogue_fields c_GFHeaderAddress_def c_RomAddress_def)
    (simp add: le_u32_def ReadLittle_u32)

theorem observed_states_arrive_witness:
  "let m = (observe_round exampleGame ^^ 4) newObservedGameMemory
   in IsMultiplayerStateValid m \<and> ObservedBlob.m_Data (m_MultiplayerState m) = [1, 2, 3]
    \<and> ObservedBlob.m_Data (m_HomeBoxState m) = [4, 5]"
  using observed_states_arrive [OF good_exampleGame] by (simp add: Let_def exampleGame_def)

end
