(* ===== verification/HomeBoxBehaviour.thy ===== *)
theory HomeBoxBehaviour
  imports ObservedMemory HomeBoxProps HomeBoxFile
begin

text \<open>
  The Home Box: \<^verbatim>\<open>RogueAssistantCpp/Src/Behaviours/HomeBoxBehaviour.cpp\<close>. The behaviour copies the
  boxes of the game and the stored boxes, follows the order the player gives them, writes boxes that
  move into the game in chunks, and saves the others to the file.

  A function takes the behaviour and its surroundings and returns both. \<open>answer\<close> says what becomes of
  a request to the game: accepted (its result comes later), refused (nothing happens), or rejected (the
  session completes it at once with an error, so the connection reports it and disconnects, and the
  behaviour is detached inside the call). \<open>hw_fault\<close> records an access outside an array.
\<close>

section \<open>State\<close>

datatype HomeState =
  OpenOfflineFile | InitialiseBoxData | WaitingForBoxData | SendGameDataInit | WaitForInit | Update

record BoxData =
  bd_minimalData :: bytes
  bd_pokemonData :: bytes

text \<open>The pointer \<^verbatim>\<open>data\<close> of a write request points into \<^verbatim>\<open>m_ActiveBoxData\<close>: it is the index of the box.\<close>

record BoxWriteRequest =
  wr_boxId :: u32
  wr_data :: nat
  wr_offset :: nat
  wr_bytesRemaining :: nat

record HomeBoxBehaviour =
  hb_State :: HomeState
  hb_Dimensions :: HomeBoxDimensions
  hb_LocalBoxCount :: u32
  hb_LocalActiveBoxIndices :: "u8 list"
  hb_RemoteActiveBoxIndices :: "u8 list"
  hb_ActiveBoxData :: "BoxData list"
  hb_StoredBoxData :: "BoxData list"
  hb_BoxWriteRequests :: "BoxWriteRequest list"
  hb_WaitingForBoxWrite :: bool
  hb_InitialiseBoxWriteIndex :: u32
  hb_WriteFilePath :: path
  hb_HasPendingFileWrite :: bool
  hb_RequiresReopen :: bool
  hb_NextSaveAttempt :: int

record HomeWorld =
  hw_memory :: ObservedGameMemory
  hw_disk :: Disk
  hw_clock :: "nat \<Rightarrow> int"
  hw_reads :: nat
  hw_effects :: "GameEffect list"
  hw_disconnected :: bool
  hw_fault :: bool

type_synonym Home = "HomeBoxBehaviour \<times> HomeWorld"

datatype Answer = Accepted | Refused | Rejected

definition noDimensions :: HomeBoxDimensions where
  "noDimensions = \<lparr>hbRomAssistantApi = 0, hbEdition = 0, hbTrainerId = 0, remoteBoxCount = 0, metadataSize = 0,
     pokemonDataSize = 0\<rparr>"

definition HomeOnAttach :: HomeBoxBehaviour where
  "HomeOnAttach =
     \<lparr>hb_State = OpenOfflineFile, hb_Dimensions = noDimensions, hb_LocalBoxCount = 0, hb_LocalActiveBoxIndices = [],
      hb_RemoteActiveBoxIndices = [], hb_ActiveBoxData = [], hb_StoredBoxData = [], hb_BoxWriteRequests = [],
      hb_WaitingForBoxWrite = False, hb_InitialiseBoxWriteIndex = 0, hb_WriteFilePath = [],
      hb_HasPendingFileWrite = False, hb_RequiresReopen = False, hb_NextSaveAttempt = 0\<rparr>"

definition IsLoading :: "HomeBoxBehaviour \<Rightarrow> bool" where
  "IsLoading b \<longleftrightarrow> \<not> hb_RequiresReopen b \<and> hb_State b \<noteq> Update"

definition IsSaving :: "HomeBoxBehaviour \<Rightarrow> bool" where
  "IsSaving b = hb_HasPendingFileWrite b"

section \<open>Surroundings\<close>

definition effect :: "GameEffect \<Rightarrow> HomeWorld \<Rightarrow> HomeWorld" where
  "effect e w = w\<lparr>hw_effects := hw_effects w @ [e]\<rparr>"

definition access :: "bool \<Rightarrow> HomeWorld \<Rightarrow> HomeWorld" where
  "access inside w = w\<lparr>hw_fault := (hw_fault w \<or> \<not> inside)\<rparr>"

definition now :: "HomeWorld \<Rightarrow> int \<times> HomeWorld" where
  "now w = (hw_clock w (hw_reads w), w\<lparr>hw_reads := Suc (hw_reads w)\<rparr>)"

definition lineFeed :: string where "lineFeed = [CHR 0x0A]"

abbreviation hdr :: "string \<Rightarrow> HomeWorld \<Rightarrow> u32" where
  "hdr field w \<equiv> rogue_u32 field (hw_memory w)"

abbreviation stateBlob :: "HomeWorld \<Rightarrow> bytes" where
  "stateBlob w \<equiv> ObservedBlob.m_Data (m_HomeBoxState (hw_memory w))"

abbreviation storageBlob :: "HomeWorld \<Rightarrow> bytes" where
  "storageBlob w \<equiv> ObservedBlob.m_Data (m_PokemonStorageData (hw_memory w))"

section \<open>Saving\<close>

text \<open>The records of the loop of \<^verbatim>\<open>HandlePendingFileWrite\<close>; nothing when an index is out of range.\<close>

fun CollectRecords :: "HomeBoxBehaviour \<Rightarrow> nat \<Rightarrow> nat \<Rightarrow> HomeBoxRecord list option" where
  "CollectRecords b 0 remoteIndex = Some []"
| "CollectRecords b (Suc n) remoteIndex =
     (let slot = unat (hb_LocalBoxCount b + word_of_nat remoteIndex) in
      if slot \<ge> length (hb_LocalActiveBoxIndices b)
         \<or> unat (hb_LocalActiveBoxIndices b ! slot) \<ge> length (hb_ActiveBoxData b) then None
      else let box = hb_ActiveBoxData b ! unat (hb_LocalActiveBoxIndices b ! slot) in
        map_option (\<lambda>rs. \<lparr>remoteBoxIndex = word_of_nat remoteIndex, metadata = bd_minimalData box,
            pokemonData = bd_pokemonData box\<rparr> # rs) (CollectRecords b n (Suc remoteIndex)))"

definition retryLater :: "Home \<Rightarrow> Home" where
  "retryLater s = (case s of (b, w) \<Rightarrow> case now w of (t, w) \<Rightarrow> (b\<lparr>hb_NextSaveAttempt := t + 5000000000\<rparr>, w))"

definition SaveNow :: "Home \<Rightarrow> Home" where
  "SaveNow s = (case s of (b, w) \<Rightarrow>
     case CollectRecords b (unat (remoteBoxCount (hb_Dimensions b))) 0 of
       None \<Rightarrow> retryLater (b, effect (ReportError (''Cannot save Home Box.'' @ lineFeed @ ''The box order is invalid.'')) w)
     | Some rs \<Rightarrow> (case SaveHomeBoxFile (hb_WriteFilePath b) \<lparr>dimensions = hb_Dimensions b, records = rs\<rparr> (hw_disk w) of
         (Inl e, d) \<Rightarrow> retryLater (b, effect (ReportError
            (''Could not save Home Box.'' @ lineFeed @ ''The main file was not changed.'')) (w\<lparr>hw_disk := d\<rparr>))
       | (Inr _, d) \<Rightarrow> (b\<lparr>hb_HasPendingFileWrite := False, hb_NextSaveAttempt := 0\<rparr>, w\<lparr>hw_disk := d\<rparr>)))"

definition HandlePendingFileWrite :: "bool \<Rightarrow> Home \<Rightarrow> Home" where
  "HandlePendingFileWrite force s = (case s of (b, w) \<Rightarrow>
     if \<not> hb_HasPendingFileWrite b \<or> hb_WriteFilePath b = [] \<or> hb_ActiveBoxData b = []
        \<or> hb_LocalActiveBoxIndices b = [] \<or> hb_BoxWriteRequests b \<noteq> [] then (b, w)
     else if force then SaveNow (b, w)
     else case now w of (t, w) \<Rightarrow> if t < hb_NextSaveAttempt b then (b, w) else SaveNow (b, w))"

section \<open>Detaching\<close>

definition HomeOnDetach :: "Home \<Rightarrow> Home" where
  "HomeOnDetach s = (case s of (b, w) \<Rightarrow>
     let b = (if hb_WaitingForBoxWrite b then b
              else b\<lparr>hb_BoxWriteRequests := dropWhile (\<lambda>r. wr_bytesRemaining r = 0) (hb_BoxWriteRequests b)\<rparr>) in
     if hb_BoxWriteRequests b \<noteq> [] then
       (b\<lparr>hb_BoxWriteRequests := [], hb_HasPendingFileWrite := False\<rparr>,
        effect (ReportError (''Storage transfer stopped.'' @ lineFeed @ ''Home Box file was not changed.'')) w)
     else HandlePendingFileWrite True (b, w))"

text \<open>\<^verbatim>\<open>GameConnection::Disconnect\<close> detaches its behaviours at once.\<close>

definition HomeDisconnect :: "Home \<Rightarrow> Home" where
  "HomeDisconnect s = (case s of (b, w) \<Rightarrow>
     if hw_disconnected w then (b, w) else HomeOnDetach (b, (effect Disconnect w)\<lparr>hw_disconnected := True\<rparr>))"

definition ReportAndDisconnect :: "string \<Rightarrow> Home \<Rightarrow> Home" where
  "ReportAndDisconnect message s = (case s of (b, w) \<Rightarrow> HomeDisconnect (b, effect (ReportError message) w))"

definition Request :: "(GameEffect \<Rightarrow> Answer) \<Rightarrow> GameEffect \<Rightarrow> Home \<Rightarrow> bool \<times> Home" where
  "Request answer e s = (case s of (b, w) \<Rightarrow> case answer e of
     Accepted \<Rightarrow> (True, b, effect e w)
   | Refused \<Rightarrow> (False, b, w)
   | Rejected \<Rightarrow> (False, ReportAndDisconnect ''The connection to mGBA was lost.'' (b, w)))"

end
