(* ===== verification/HomeBoxUpdate.thy ===== *)
theory HomeBoxUpdate
  imports HomeBoxBehaviour
begin

text \<open>
  The update of the Home Box: the second part of \<^verbatim>\<open>RogueAssistantCpp/Src/Behaviours/HomeBoxBehaviour.cpp\<close>,
  from the layout check to the state machine of \<^verbatim>\<open>OnUpdate\<close>.
\<close>

section \<open>Layout and order\<close>

definition headerLayout :: "HomeWorld \<Rightarrow> HomeBoxLayout" where
  "headerLayout w =
     \<lparr>stateSize = hdr ''homeBoxSize'' w, localBoxCount = hdr ''homeLocalBoxCount'' w,
      totalBoxCount = hdr ''homeTotalBoxCount'' w, minimalBoxOffset = hdr ''homeMinimalBoxOffset'' w,
      minimalBoxSize = hdr ''homeMinimalBoxSize'' w, pokemonStoragePointerOffset = hdr ''homeDestMonOffset'' w,
      pokemonBoxSize = hdr ''homeDestMonSize'' w, remoteIndexOrderOffset = hdr ''homeRemoteIndexOrderOffset'' w,
      trainerIdOffset = hdr ''homeTrainerIdOffset'' w\<rparr>"

definition ValidateLayout :: "HomeWorld \<Rightarrow> bool" where
  "ValidateLayout w \<longleftrightarrow> unat (hdr ''homeBoxSize'' w) = blob_size (m_HomeBoxState (hw_memory w))
     \<and> is_ok (ValidateHomeBoxLayout (headerLayout w))"

text \<open>The loop over the indices, with the flags \<^verbatim>\<open>seen\<close>.\<close>

fun OrderLoop :: "u8 list \<Rightarrow> bool list \<Rightarrow> bool" where
  "OrderLoop [] seen = True"
| "OrderLoop (index # indices) seen =
     (if unat index \<ge> length seen \<or> seen ! unat index then False else OrderLoop indices (seen[unat index := True]))"

definition ValidateIndexOrder :: "HomeBoxBehaviour \<Rightarrow> u8 list \<Rightarrow> bool" where
  "ValidateIndexOrder b indices =
     (if length indices \<noteq> unat (remoteBoxCount (hb_Dimensions b) + hb_LocalBoxCount b) then False
      else OrderLoop indices (replicate (length indices) False))"

section \<open>Loading the file\<close>

definition PlaceStored :: "HomeBoxRecord list \<Rightarrow> Home \<Rightarrow> Home" where
  "PlaceStored rs s = fold (\<lambda>r (b, w).
     (b\<lparr>hb_StoredBoxData := (hb_StoredBoxData b)[unat (remoteBoxIndex r) :=
          \<lparr>bd_minimalData = metadata r, bd_pokemonData = pokemonData r\<rparr>]\<rparr>,
      access (unat (remoteBoxIndex r) < length (hb_StoredBoxData b)) w)) rs s"

definition headerDimensions :: "u32 \<Rightarrow> HomeWorld \<Rightarrow> HomeBoxDimensions" where
  "headerDimensions trainerId w =
     \<lparr>hbRomAssistantApi = hdr ''rogueAssistantCompatVersion'' w,
      hbEdition = field_u8 RogueAssistantHeader ''rogueVersion'' (m_Value (m_RogueHeader (hw_memory w))),
      hbTrainerId = trainerId, remoteBoxCount = hdr ''homeTotalBoxCount'' w - hdr ''homeLocalBoxCount'' w,
      metadataSize = hdr ''homeMinimalBoxSize'' w, pokemonDataSize = hdr ''homeDestMonSize'' w\<rparr>"

definition StartBoxData :: "Home \<Rightarrow> Home" where
  "StartBoxData s = (case s of (b, w) \<Rightarrow>
     (b\<lparr>hb_ActiveBoxData := [], hb_InitialiseBoxWriteIndex := hb_LocalBoxCount b, hb_State := InitialiseBoxData\<rparr>, w))"

text \<open>Everything before the file is read: the dimensions, the path and the empty stored boxes.\<close>

definition PrepareLoad :: "path \<Rightarrow> u32 \<Rightarrow> Home \<Rightarrow> HomeBoxBehaviour" where
  "PrepareLoad dataDirectory trainerId s = (case s of (b, w) \<Rightarrow>
     let dims = headerDimensions trainerId w in
     b\<lparr>hb_LocalBoxCount := hdr ''homeLocalBoxCount'' w, hb_Dimensions := dims,
       hb_WriteFilePath := append_path (append_path (append_path dataDirectory (to_string (unat (hbEdition dims))))
          (to_string (unat trainerId))) ''boxes.dat'',
       hb_StoredBoxData := replicate (unat (remoteBoxCount dims))
          \<lparr>bd_minimalData = replicate (unat (metadataSize dims)) 0,
           bd_pokemonData = replicate (unat (pokemonDataSize dims)) 0\<rparr>\<rparr>)"

text \<open>What follows a load that succeeded or found no file.\<close>

definition FinishLoad :: "HomeBoxLoadResult \<Rightarrow> Home \<Rightarrow> Home" where
  "FinishLoad loaded s = (case s of (b, w) \<Rightarrow>
     if loadWarning loaded \<noteq> [] then
       (if primaryInvalid loaded then
          ReportAndDisconnect (''Home Box needs recovery.'' @ lineFeed @ ''Back up its files before continuing.'') (b, w)
        else StartBoxData (b, effect (ReportError
          (''Loaded Home Box with a warning.'' @ lineFeed @ ''See RogueAssistant.log for details.'')) w))
     else StartBoxData (b, w))"

definition LoadOfflineData :: "path \<Rightarrow> u32 \<Rightarrow> Home \<Rightarrow> Home" where
  "LoadOfflineData dataDirectory trainerId s =
     (let b = PrepareLoad dataDirectory trainerId s in
      case LoadHomeBoxFile (hb_WriteFilePath b) (hb_Dimensions b) (hw_disk (snd s)) of (loaded, d) \<Rightarrow>
        let w = (snd s)\<lparr>hw_disk := d\<rparr> in
        if \<not> Succeeded loaded \<and> \<not> NotFound loaded then
          ReportAndDisconnect (''Cannot load Home Box.'' @ lineFeed @ ''Back up its files before recovery.'') (b, w)
        else FinishLoad loaded
          (case loadedData loaded of None \<Rightarrow> (b, w) | Some data \<Rightarrow> PlaceStored (records data) (b, w)))"

section \<open>The states of the update\<close>

definition lastOrderEntry :: "HomeWorld \<Rightarrow> u8 \<times> HomeWorld" where
  "lastOrderEntry w =
     (let i = unat (hdr ''homeRemoteIndexOrderOffset'' w + hdr ''homeTotalBoxCount'' w - 1)
      in (stateBlob w ! i, access (i < length (stateBlob w)) w))"

definition DoOpen :: "path \<Rightarrow> Home \<Rightarrow> Home" where
  "DoOpen dataDirectory s = (case s of (b, w) \<Rightarrow> case lastOrderEntry w of (entry, w) \<Rightarrow>
     if entry \<noteq> 255 then (b\<lparr>hb_RequiresReopen := True\<rparr>, w)
     else (case ReadLittle (stateBlob w) (unat (hdr ''homeTrainerIdOffset'' w)) of
         (False, _) \<Rightarrow> ReportAndDisconnect (''Cannot use Home Box.'' @ lineFeed @ ''The trainer data is invalid.'') (b, w)
       | (True, trainerId) \<Rightarrow> LoadOfflineData dataDirectory trainerId (b, w)))"

definition RequestStorage :: "(GameEffect \<Rightarrow> Answer) \<Rightarrow> u32 \<Rightarrow> Home \<Rightarrow> bool \<times> Home" where
  "RequestStorage answer boxId s = (case s of (b, w) \<Rightarrow>
     case RequestPokemonStorageData (\<lambda>e. answer e = Accepted) boxId (hw_memory w) of
       (ok, [], m) \<Rightarrow> (ok, b, w\<lparr>hw_memory := m\<rparr>)
     | (ok, e # _, m) \<Rightarrow> (case Request answer e (b, w\<lparr>hw_memory := m\<rparr>) of (_, s) \<Rightarrow> (ok, s)))"

definition emptyBox :: BoxData where
  "emptyBox = \<lparr>bd_minimalData = [], bd_pokemonData = []\<rparr>"

definition DoInitialise :: "(GameEffect \<Rightarrow> Answer) \<Rightarrow> Home \<Rightarrow> Home" where
  "DoInitialise answer s = (case s of (b, w) \<Rightarrow>
     if length (hb_ActiveBoxData b) < unat (hb_LocalBoxCount b) then
       (case RequestStorage answer (word_of_nat (length (hb_ActiveBoxData b))) (b, w) of
          (True, b, w) \<Rightarrow> (b\<lparr>hb_ActiveBoxData := hb_ActiveBoxData b @ [emptyBox], hb_State := WaitingForBoxData\<rparr>, w)
        | (False, b, w) \<Rightarrow> (b, w))
     else let b = b\<lparr>hb_ActiveBoxData := hb_ActiveBoxData b @ hb_StoredBoxData b\<rparr> in
       if length (hb_ActiveBoxData b) \<noteq> unat (hdr ''homeTotalBoxCount'' w) then
         ReportAndDisconnect (''Cannot use Home Box.'' @ lineFeed @ ''The number of boxes changed.'') (b, w)
       else (b\<lparr>hb_State := SendGameDataInit\<rparr>, w))"

definition InitialiseLocalBoxData :: "u32 \<Rightarrow> Home \<Rightarrow> Home" where
  "InitialiseLocalBoxData boxId s = (case s of (b, w) \<Rightarrow>
     let start = unat (hdr ''homeMinimalBoxOffset'' w + hdr ''homeMinimalBoxSize'' w * boxId);
         n = unat (hdr ''homeMinimalBoxSize'' w); p = unat (hdr ''homeDestMonSize'' w)
     in (b\<lparr>hb_ActiveBoxData := (hb_ActiveBoxData b)[unat boxId :=
            \<lparr>bd_minimalData = take n (drop start (stateBlob w)), bd_pokemonData = take p (storageBlob w)\<rparr>]\<rparr>,
         access (unat boxId < length (hb_ActiveBoxData b) \<and> start + n \<le> length (stateBlob w)
           \<and> p \<le> length (storageBlob w)) w))"

definition DoWaitBox :: "Home \<Rightarrow> Home" where
  "DoWaitBox s = (case s of (b, w) \<Rightarrow>
     if m_IsValid (m_PokemonStorageData (hw_memory w)) then
       (case InitialiseLocalBoxData (word_of_nat (length (hb_ActiveBoxData b) - 1)) (b, w) of
          (b, w) \<Rightarrow> (b\<lparr>hb_State := InitialiseBoxData\<rparr>, w))
     else (b, w))"

definition WriteMinimalBox :: "(GameEffect \<Rightarrow> Answer) \<Rightarrow> u32 \<Rightarrow> Home \<Rightarrow> bool \<times> Home" where
  "WriteMinimalBox answer boxId s = (case s of (b, w) \<Rightarrow>
     let n = unat (hdr ''homeMinimalBoxSize'' w); source = bd_minimalData (hb_ActiveBoxData b ! unat boxId)
     in Request answer (WriteReq (CreateMessageId AnonymousChannel 0)
          (address_value (m_HomeBoxStatePtr (hw_memory w)) + hdr ''homeMinimalBoxOffset'' w + hdr ''homeMinimalBoxSize'' w * boxId)
          (take n source))
        (b, access (unat boxId < length (hb_ActiveBoxData b) \<and> n \<le> length source) w))"

definition SendOrder :: "(GameEffect \<Rightarrow> Answer) \<Rightarrow> Home \<Rightarrow> Home" where
  "SendOrder answer s = (case s of (b, w) \<Rightarrow>
     let indices = map word_of_nat [0..<unat (hdr ''homeTotalBoxCount'' w)];
         b = b\<lparr>hb_LocalActiveBoxIndices := indices, hb_RemoteActiveBoxIndices := indices\<rparr> in
     case Request answer (WriteReq (CreateMessageId AnonymousChannel 0)
            (address_value (m_HomeBoxStatePtr (hw_memory w)) + hdr ''homeRemoteIndexOrderOffset'' w) indices) (b, w) of
       (True, b, w) \<Rightarrow> (b\<lparr>hb_State := WaitForInit\<rparr>, w)
     | (False, b, w) \<Rightarrow> (b, w))"

definition DoSend :: "(GameEffect \<Rightarrow> Answer) \<Rightarrow> Home \<Rightarrow> Home" where
  "DoSend answer s = (case s of (b, w) \<Rightarrow>
     if hb_InitialiseBoxWriteIndex b < hdr ''homeTotalBoxCount'' w then
       (case WriteMinimalBox answer (hb_InitialiseBoxWriteIndex b) (b, w) of
          (False, s) \<Rightarrow> s
        | (True, b, w) \<Rightarrow>
            let b = b\<lparr>hb_InitialiseBoxWriteIndex := hb_InitialiseBoxWriteIndex b + 1\<rparr> in
            if hb_InitialiseBoxWriteIndex b < hdr ''homeTotalBoxCount'' w then (b, w) else SendOrder answer (b, w))
     else SendOrder answer (b, w))"

definition DoWaitInit :: "Home \<Rightarrow> Home" where
  "DoWaitInit s = (case s of (b, w) \<Rightarrow> case lastOrderEntry w of (entry, w) \<Rightarrow>
     if entry \<noteq> 255 then (b\<lparr>hb_State := Update\<rparr>, w) else (b, w))"

section \<open>Transfers\<close>

definition BeginWriteMonBox :: "u32 \<Rightarrow> nat \<Rightarrow> Home \<Rightarrow> Home" where
  "BeginWriteMonBox boxId data s = (case s of (b, w) \<Rightarrow>
     (b\<lparr>hb_BoxWriteRequests := hb_BoxWriteRequests b @
        [\<lparr>wr_boxId = boxId, wr_data = data, wr_offset = 0, wr_bytesRemaining = unat (hdr ''homeDestMonSize'' w)\<rparr>]\<rparr>,
      access (data < length (hb_ActiveBoxData b)) w))"

text \<open>The part of \<^verbatim>\<open>PumpWriteMonBox\<close> that writes a chunk of the request at the front.\<close>

definition WriteChunk :: "(GameEffect \<Rightarrow> Answer) \<Rightarrow> BoxWriteRequest \<Rightarrow> BoxWriteRequest list \<Rightarrow> Home \<Rightarrow> Home" where
  "WriteChunk answer request rest s = (case s of (b, w) \<Rightarrow>
     let writeSize = min (wr_bytesRemaining request) 1024;
         source = bd_pokemonData (hb_ActiveBoxData b ! wr_data request);
         w = access (wr_data request < length (hb_ActiveBoxData b) \<and> wr_offset request + writeSize \<le> length source) w
     in case Request answer (WriteReq (CreateMessageId AnonymousChannel 0)
            (GetPokemonStoragePtr (hw_memory w) + hdr ''homeDestMonSize'' w * wr_boxId request
              + word_of_nat (wr_offset request))
            (take writeSize (drop (wr_offset request) source))) (b\<lparr>hb_WaitingForBoxWrite := True\<rparr>, w) of
       (False, b, w) \<Rightarrow> (b\<lparr>hb_WaitingForBoxWrite := False\<rparr>, w)
     | (True, b, w) \<Rightarrow> (b\<lparr>hb_BoxWriteRequests := request\<lparr>wr_bytesRemaining := wr_bytesRemaining request - writeSize,
           wr_offset := wr_offset request + writeSize\<rparr> # rest\<rparr>, w))"

definition PumpWriteMonBox :: "(GameEffect \<Rightarrow> Answer) \<Rightarrow> Home \<Rightarrow> bool \<times> Home" where
  "PumpWriteMonBox answer s = (case s of (b, w) \<Rightarrow> case hb_BoxWriteRequests b of
     [] \<Rightarrow> (False, b, w)
   | request # rest \<Rightarrow>
       if hb_WaitingForBoxWrite b then (True, b, w)
       else if wr_bytesRemaining request = 0 then (True, b\<lparr>hb_BoxWriteRequests := rest\<rparr>, w)
       else (True, WriteChunk answer request rest (b, w)))"

text \<open>The body of the loop of the state \<^const>\<open>Update\<close>.\<close>

definition FollowOrder :: "nat \<Rightarrow> Home \<Rightarrow> Home" where
  "FollowOrder index s = (case s of (b, w) \<Rightarrow>
     let w = access (index < length (hb_RemoteActiveBoxIndices b) \<and> index < length (hb_LocalActiveBoxIndices b)) w in
     if hb_RemoteActiveBoxIndices b ! index = hb_LocalActiveBoxIndices b ! index then (b, w)
     else case (if index < unat (hdr ''homeLocalBoxCount'' w)
                then BeginWriteMonBox (word_of_nat index) (unat (hb_RemoteActiveBoxIndices b ! index)) (b, w) else (b, w)) of
       (b, w) \<Rightarrow> (b\<lparr>hb_LocalActiveBoxIndices := (hb_LocalActiveBoxIndices b)[index := hb_RemoteActiveBoxIndices b ! index],
                    hb_HasPendingFileWrite := True\<rparr>, w))"

definition DoUpdate :: "(GameEffect \<Rightarrow> Answer) \<Rightarrow> Home \<Rightarrow> Home" where
  "DoUpdate answer s = (case PumpWriteMonBox answer s of
     (True, s) \<Rightarrow> s
   | (False, b, w) \<Rightarrow>
       let n = length (hb_RemoteActiveBoxIndices b); off = unat (hdr ''homeRemoteIndexOrderOffset'' w);
           w = access (off + n \<le> length (stateBlob w)) w;
           b = b\<lparr>hb_RemoteActiveBoxIndices := take n (drop off (stateBlob w))\<rparr> in
       if \<not> ValidateIndexOrder b (hb_RemoteActiveBoxIndices b) then
         ReportAndDisconnect (''Cannot use Home Box.'' @ lineFeed @ ''The box order is invalid.'') (b, w)
       else fold FollowOrder [0..<unat (hdr ''homeTotalBoxCount'' w)] (b, w))"

definition HomeOnUpdate :: "path \<Rightarrow> (GameEffect \<Rightarrow> Answer) \<Rightarrow> Home \<Rightarrow> Home" where
  "HomeOnUpdate dataDirectory answer s = (case s of (b, w) \<Rightarrow>
     if \<not> IsHomeBoxStateValid (hw_memory w) then (b, w)
     else if \<not> ValidateLayout w then
       ReportAndDisconnect (''Cannot use Home Box.'' @ lineFeed @ ''The ROM layout is invalid.'') (b, w)
     else if hb_RequiresReopen b then (b, w)
     else let (b, w) = HandlePendingFileWrite False (b, w) in
       (case hb_State b of
          OpenOfflineFile \<Rightarrow> DoOpen dataDirectory (b, w)
        | InitialiseBoxData \<Rightarrow> DoInitialise answer (b, w)
        | WaitingForBoxData \<Rightarrow> DoWaitBox (b, w)
        | SendGameDataInit \<Rightarrow> DoSend answer (b, w)
        | WaitForInit \<Rightarrow> DoWaitInit (b, w)
        | Update \<Rightarrow> DoUpdate answer (b, w)))"

section \<open>Steps\<close>

text \<open>
  What can happen to the behaviour: an update while the game is connected, the observed memory
  changing by its own update or by an answer (the ROM header keeps its value: the ROM cannot
  change), the completion of the write that is under way, time passing on the disk, and the removal of
  the behaviour.
\<close>

inductive home_step :: "path \<Rightarrow> Home \<Rightarrow> Home \<Rightarrow> bool" for dataDirectory where
  update: "\<not> hw_disconnected w \<Longrightarrow> home_step dataDirectory (b, w) (HomeOnUpdate dataDirectory answer (b, w))"
| observe: "m' = snd (ObservedUpdate (hw_memory w)) \<Longrightarrow> home_step dataDirectory (b, w) (b, w\<lparr>hw_memory := m'\<rparr>)"
| answer: "m' = snd (OnRecieveMessage messageId bytes (hw_memory w)) \<Longrightarrow>
    m_Value (m_RogueHeader m') = m_Value (m_RogueHeader (hw_memory w)) \<Longrightarrow>
    home_step dataDirectory (b, w) (b, w\<lparr>hw_memory := m'\<rparr>)"
| written: "home_step dataDirectory (b, w) (b\<lparr>hb_WaitingForBoxWrite := False\<rparr>, w)"
| disk: "home_step dataDirectory (b, w) (b, w\<lparr>hw_disk := d\<rparr>)"
| detach: "home_step dataDirectory (b, w) (HomeOnDetach (b, w\<lparr>hw_disconnected := True\<rparr>))"

inductive home_reachable :: "path \<Rightarrow> Home \<Rightarrow> bool" for dataDirectory where
  attach: "\<not> hw_fault w \<Longrightarrow> home_reachable dataDirectory (HomeOnAttach, w)"
| step: "home_reachable dataDirectory s \<Longrightarrow> home_step dataDirectory s t \<Longrightarrow> home_reachable dataDirectory t"

inductive_cases home_stepE: "home_step dataDirectory s t"

end
