(* ===== verification/HomeBoxSafety.thy ===== *)
theory HomeBoxSafety
  imports HomeBoxUpdate
begin

text \<open>
  What holds of the Home Box behaviour in every reachable state: the sizes of its arrays and boxes, and
  that its order of boxes is a permutation.
\<close>

section \<open>What the helpers change\<close>

text \<open>Fields that saving and detaching may change.\<close>

definition home_keeps :: "Home \<Rightarrow> Home \<Rightarrow> bool" where
  "home_keeps s s' \<longleftrightarrow> (\<exists>q p t. fst s' = (fst s)\<lparr>hb_BoxWriteRequests := q, hb_HasPendingFileWrite := p, hb_NextSaveAttempt := t\<rparr>
     \<and> set q \<subseteq> set (hb_BoxWriteRequests (fst s)))
     \<and> hw_memory (snd s') = hw_memory (snd s) \<and> hw_fault (snd s') = hw_fault (snd s)"

lemma home_keeps_refl [simp, intro]: "home_keeps s s"
proof -
  have "fst s = (fst s)\<lparr>hb_BoxWriteRequests := hb_BoxWriteRequests (fst s),
      hb_HasPendingFileWrite := hb_HasPendingFileWrite (fst s), hb_NextSaveAttempt := hb_NextSaveAttempt (fst s)\<rparr>" by simp
  then show ?thesis unfolding home_keeps_def by blast
qed

lemma home_keepsI:
  "b' = b\<lparr>hb_BoxWriteRequests := q, hb_HasPendingFileWrite := p, hb_NextSaveAttempt := t\<rparr> \<Longrightarrow> set q \<subseteq> set (hb_BoxWriteRequests b)
   \<Longrightarrow> hw_memory w' = hw_memory w \<Longrightarrow> hw_fault w' = hw_fault w \<Longrightarrow> home_keeps (b, w) (b', w')"
  unfolding home_keeps_def by auto

lemma home_keeps_world:
  "home_keeps (b, w) s' \<Longrightarrow> hw_memory w = hw_memory w0 \<Longrightarrow> hw_fault w = hw_fault w0 \<Longrightarrow> home_keeps (b, w0) s'"
  unfolding home_keeps_def by auto

lemma home_keeps_same: "hw_memory w' = hw_memory w \<Longrightarrow> hw_fault w' = hw_fault w \<Longrightarrow> home_keeps (b, w) (b, w')"
  by (rule home_keeps_world [OF home_keeps_refl])

lemma home_keeps_snd: "home_keeps (b, w) (b', w') \<Longrightarrow> home_keeps (b1, w) (b1, w')"
  by (rule home_keeps_same) (simp_all add: home_keeps_def)

lemma world_simps [simp]:
  "hw_memory (effect e w) = hw_memory w" "hw_fault (effect e w) = hw_fault w" "hw_disk (effect e w) = hw_disk w"
  "hw_memory (access c w) = hw_memory w" "hw_fault (access c w) \<longleftrightarrow> hw_fault w \<or> \<not> c" "hw_disk (access c w) = hw_disk w"
  "hw_disconnected (effect e w) = hw_disconnected w" "hw_disconnected (access c w) = hw_disconnected w"
  "hw_effects (effect e w) = hw_effects w @ [e]" "hw_effects (access c w) = hw_effects w"
  "now w = (hw_clock w (hw_reads w), w\<lparr>hw_reads := Suc (hw_reads w)\<rparr>)"
  by (simp_all add: effect_def access_def now_def)

lemma retryLater_keeps: "home_keeps (b, w) (retryLater (b, w))"
  by (auto simp: retryLater_def intro!: home_keepsI [where q = "hb_BoxWriteRequests b" and p = "hb_HasPendingFileWrite b"])

lemma SaveNow_keeps: "home_keeps (b, w) (SaveNow (b, w))"
proof -
  have "home_keeps (b, w) (retryLater (b, w'))" if "hw_memory w' = hw_memory w" "hw_fault w' = hw_fault w" for w'
    using home_keeps_world [OF retryLater_keeps that] .
  then show ?thesis
    by (auto simp: SaveNow_def split: option.split prod.split sum.split
        intro!: home_keepsI [where q = "hb_BoxWriteRequests b" and p = False and t = 0])
qed

lemma HandlePendingFileWrite_keeps: "home_keeps (b, w) (HandlePendingFileWrite force (b, w))"
  by (auto simp: HandlePendingFileWrite_def intro: SaveNow_keeps home_keeps_world [OF SaveNow_keeps]
      intro!: home_keepsI [where q = "hb_BoxWriteRequests b" and p = "hb_HasPendingFileWrite b" and t = "hb_NextSaveAttempt b"])

lemma home_keeps_trans_requests:
  assumes "home_keeps (b\<lparr>hb_BoxWriteRequests := q\<rparr>, w) s'" and "set q \<subseteq> set (hb_BoxWriteRequests b)"
  shows "home_keeps (b, w) s'"
  using assms unfolding home_keeps_def by fastforce

lemma HomeOnDetach_keeps: "home_keeps (b, w) (HomeOnDetach (b, w))"
proof (cases "hb_WaitingForBoxWrite b")
  case True
  then show ?thesis
    by (auto simp: HomeOnDetach_def Let_def intro: HandlePendingFileWrite_keeps
        intro!: home_keepsI [where q = "[]" and p = False and t = "hb_NextSaveAttempt b"])
next
  case False
  let ?q = "dropWhile (\<lambda>r. wr_bytesRemaining r = 0) (hb_BoxWriteRequests b)"
  have sub: "set ?q \<subseteq> set (hb_BoxWriteRequests b)" by (auto dest: set_dropWhileD)
  show ?thesis
  proof (cases "?q = []")
    case True
    with False have "HomeOnDetach (b, w) = HandlePendingFileWrite True (b\<lparr>hb_BoxWriteRequests := ?q\<rparr>, w)"
      by (simp add: HomeOnDetach_def)
    with home_keeps_trans_requests [OF HandlePendingFileWrite_keeps sub] show ?thesis by simp
  next
    case nonempty: False
    with False have "HomeOnDetach (b, w) = (b\<lparr>hb_BoxWriteRequests := [], hb_HasPendingFileWrite := False\<rparr>,
        effect (ReportError (''Storage transfer stopped.'' @ lineFeed @ ''Home Box file was not changed.'')) w)"
      by (simp add: HomeOnDetach_def Let_def)
    then show ?thesis
      by (auto intro!: home_keepsI [where q = "[]" and p = False and t = "hb_NextSaveAttempt b"])
  qed
qed

lemma HomeDisconnect_keeps: "home_keeps (b, w) (HomeDisconnect (b, w))"
  by (auto simp: HomeDisconnect_def intro: home_keeps_world [OF HomeOnDetach_keeps])

lemma ReportAndDisconnect_keeps: "home_keeps (b, w) (ReportAndDisconnect e (b, w))"
  by (auto simp: ReportAndDisconnect_def intro: home_keeps_world [OF HomeDisconnect_keeps])

lemma Request_keeps:
  assumes "Request answer e (b, w) = (ok, s)" shows "home_keeps (b, w) s" "ok \<longleftrightarrow> answer e = Accepted"
    "ok \<Longrightarrow> fst s = b"
  using assms ReportAndDisconnect_keeps
  by (auto simp: Request_def split: Answer.splits intro!: home_keepsI [where q = "hb_BoxWriteRequests b"
        and p = "hb_HasPendingFileWrite b" and t = "hb_NextSaveAttempt b"])

section \<open>The invariant\<close>

definition box_sized :: "HomeWorld \<Rightarrow> BoxData \<Rightarrow> bool" where
  "box_sized w box \<longleftrightarrow> length (bd_minimalData box) = unat (hdr ''homeMinimalBoxSize'' w)
     \<and> length (bd_pokemonData box) = unat (hdr ''homeDestMonSize'' w)"

abbreviation total :: "HomeWorld \<Rightarrow> nat" where
  "total w \<equiv> unat (hdr ''homeTotalBoxCount'' w)"

abbreviation localCount :: "HomeWorld \<Rightarrow> nat" where
  "localCount w \<equiv> unat (hdr ''homeLocalBoxCount'' w)"

definition is_order :: "u8 list \<Rightarrow> nat \<Rightarrow> bool" where
  "is_order indices n \<longleftrightarrow> length indices = n \<and> distinct indices \<and> (\<forall>i \<in> set indices. unat i < n)"

definition loaded_inv :: "HomeBoxBehaviour \<Rightarrow> HomeWorld \<Rightarrow> bool" where
  "loaded_inv b w \<longleftrightarrow> is_ok (ValidateHomeBoxLayout (headerLayout w)) \<and> hb_LocalBoxCount b = hdr ''homeLocalBoxCount'' w
     \<and> remoteBoxCount (hb_Dimensions b) = hdr ''homeTotalBoxCount'' w - hdr ''homeLocalBoxCount'' w
     \<and> length (hb_StoredBoxData b) = total w - localCount w \<and> (\<forall>box \<in> set (hb_StoredBoxData b). box_sized w box)"

definition active_inv :: "HomeBoxBehaviour \<Rightarrow> HomeWorld \<Rightarrow> bool" where
  "active_inv b w \<longleftrightarrow> length (hb_ActiveBoxData b) = total w \<and> (\<forall>box \<in> set (hb_ActiveBoxData b). box_sized w box)"

definition request_ok :: "HomeWorld \<Rightarrow> BoxWriteRequest \<Rightarrow> bool" where
  "request_ok w r \<longleftrightarrow> wr_data r < total w \<and> wr_offset r + wr_bytesRemaining r = unat (hdr ''homeDestMonSize'' w)"

fun state_inv :: "HomeState \<Rightarrow> HomeBoxBehaviour \<Rightarrow> HomeWorld \<Rightarrow> bool" where
  "state_inv OpenOfflineFile b w \<longleftrightarrow> hb_BoxWriteRequests b = [] \<and> hb_LocalActiveBoxIndices b = []"
| "state_inv InitialiseBoxData b w \<longleftrightarrow> hb_BoxWriteRequests b = [] \<and> loaded_inv b w
     \<and> length (hb_ActiveBoxData b) \<le> localCount w \<and> (\<forall>box \<in> set (hb_ActiveBoxData b). box_sized w box)"
| "state_inv WaitingForBoxData b w \<longleftrightarrow> hb_BoxWriteRequests b = [] \<and> loaded_inv b w
     \<and> hb_ActiveBoxData b \<noteq> [] \<and> length (hb_ActiveBoxData b) \<le> localCount w
     \<and> (\<forall>box \<in> set (butlast (hb_ActiveBoxData b)). box_sized w box)
     \<and> length (storageBlob w) = unat (hdr ''homeDestMonSize'' w)"
| "state_inv SendGameDataInit b w \<longleftrightarrow> hb_BoxWriteRequests b = [] \<and> loaded_inv b w \<and> active_inv b w"
| "state_inv WaitForInit b w \<longleftrightarrow> hb_BoxWriteRequests b = [] \<and> loaded_inv b w \<and> active_inv b w
     \<and> is_order (hb_LocalActiveBoxIndices b) (total w) \<and> length (hb_RemoteActiveBoxIndices b) = total w"
| "state_inv Update b w \<longleftrightarrow> (\<forall>r \<in> set (hb_BoxWriteRequests b). request_ok w r) \<and> loaded_inv b w \<and> active_inv b w
     \<and> is_order (hb_LocalActiveBoxIndices b) (total w) \<and> length (hb_RemoteActiveBoxIndices b) = total w"

definition home_inv :: "Home \<Rightarrow> bool" where
  "home_inv s \<longleftrightarrow> \<not> hw_fault (snd s) \<and> state_inv (hb_State (fst s)) (fst s) (snd s)"

lemma box_sized_cong:
  "m_Value (m_RogueHeader (hw_memory w')) = m_Value (m_RogueHeader (hw_memory w)) \<Longrightarrow> hdr field w' = hdr field w"
  by (simp add: rogue_u32_def)

lemma state_inv_world:
  assumes same: "m_Value (m_RogueHeader (hw_memory w')) = m_Value (m_RogueHeader (hw_memory w))"
    and blob: "length (storageBlob w') = length (storageBlob w)" and inv: "state_inv st b w"
  shows "state_inv st b w'"
proof -
  note hdr = box_sized_cong [OF same]
  have "headerLayout w' = headerLayout w" by (simp add: headerLayout_def hdr)
  then have "loaded_inv b w' = loaded_inv b w" "active_inv b w' = active_inv b w" "request_ok w' = request_ok w"
      "box_sized w' = box_sized w"
    by (simp_all add: loaded_inv_def active_inv_def request_ok_def box_sized_def hdr fun_eq_iff)
  with inv blob show ?thesis by (cases st) (simp_all add: hdr)
qed

lemma home_inv_keeps:
  assumes inv: "home_inv s" and keeps: "home_keeps s s'" shows "home_inv s'"
proof -
  obtain b w b' w' where s: "s = (b, w)" "s' = (b', w')" by (metis surj_pair)
  from keeps obtain q p t where b': "b' = b\<lparr>hb_BoxWriteRequests := q, hb_HasPendingFileWrite := p, hb_NextSaveAttempt := t\<rparr>"
      "set q \<subseteq> set (hb_BoxWriteRequests b)" and w': "hw_memory w' = hw_memory w" "hw_fault w' = hw_fault w"
    by (auto simp: home_keeps_def s)
  from inv have "state_inv (hb_State b) b w" by (simp add: home_inv_def s)
  then have "state_inv (hb_State b) b' w"
    using b' by (cases "hb_State b") (auto simp: loaded_inv_def active_inv_def)
  then have "state_inv (hb_State b) b' w'" by (rule state_inv_world [rotated 2]) (simp_all add: w')
  with inv w' b' show ?thesis by (simp add: home_inv_def s)
qed

section \<open>Every update keeps it\<close>

lemma layout_facts:
  assumes "is_ok (ValidateHomeBoxLayout (headerLayout w))"
  shows "0 < total w" "total w \<le> 255" "localCount w \<le> total w"
    "unat (hdr ''homeDestMonSize'' w) \<le> 1048568"
    "unat (hdr ''homeMinimalBoxOffset'' w) + unat (hdr ''homeMinimalBoxSize'' w) * total w \<le> unat (hdr ''homeBoxSize'' w)"
    "unat (hdr ''homeRemoteIndexOrderOffset'' w) + total w \<le> unat (hdr ''homeBoxSize'' w)"
    "unat (hdr ''homeBoxSize'' w) \<le> 1048568"
    "unat (hdr ''homeTotalBoxCount'' w - hdr ''homeLocalBoxCount'' w) = total w - localCount w"
proof -
  note ok = assms [unfolded ValidateHomeBoxLayout_Ok headerLayout_def, simplified]
  have le: "hdr ''homeLocalBoxCount'' w \<le> hdr ''homeTotalBoxCount'' w" using ok by simp
  then show "localCount w \<le> total w" by (simp add: word_le_nat_alt)
  show "unat (hdr ''homeTotalBoxCount'' w - hdr ''homeLocalBoxCount'' w) = total w - localCount w"
    using le by (simp add: size_sub_le unat_sub)
  show "0 < total w" "total w \<le> 255" "unat (hdr ''homeDestMonSize'' w) \<le> 1048568"
    "unat (hdr ''homeMinimalBoxOffset'' w) + unat (hdr ''homeMinimalBoxSize'' w) * total w \<le> unat (hdr ''homeBoxSize'' w)"
    "unat (hdr ''homeRemoteIndexOrderOffset'' w) + total w \<le> unat (hdr ''homeBoxSize'' w)"
    "unat (hdr ''homeBoxSize'' w) \<le> 1048568"
    using ok by simp_all
qed

lemma unat_add_small: "unat (a :: u32) + unat b < 2 ^ 32 \<Longrightarrow> unat (a + b) = unat a + unat b"
  by (simp add: unat_word_ariths)

lemma unat_mult_small: "unat (a :: u32) * unat b < 2 ^ 32 \<Longrightarrow> unat (a * b) = unat a * unat b"
  by (simp add: unat_word_ariths)

definition layout_valid :: "HomeWorld \<Rightarrow> bool" where
  "layout_valid w \<longleftrightarrow> is_ok (ValidateHomeBoxLayout (headerLayout w)) \<and> length (stateBlob w) = unat (hdr ''homeBoxSize'' w)"

lemma lastOrderEntry_safe:
  assumes "layout_valid w" and "lastOrderEntry w = (entry, w')" shows "hw_fault w' = hw_fault w" "hw_memory w' = hw_memory w"
proof -
  let ?off = "hdr ''homeRemoteIndexOrderOffset'' w"
  from assms(1) have l: "is_ok (ValidateHomeBoxLayout (headerLayout w))" "length (stateBlob w) = unat (hdr ''homeBoxSize'' w)"
    by (simp_all add: layout_valid_def)
  note f = layout_facts [OF l(1)]
  have sum: "unat (?off + hdr ''homeTotalBoxCount'' w) = unat ?off + total w"
    using f by (intro unat_add_small) simp
  then have "?off + hdr ''homeTotalBoxCount'' w \<noteq> 0" using f(1) by auto
  then have "unat (?off + hdr ''homeTotalBoxCount'' w - 1) = unat ?off + total w - 1"
    using sum by (simp add: unat_minus_one)
  with f l(2) assms(2) show "hw_fault w' = hw_fault w" "hw_memory w' = hw_memory w"
    by (auto simp: lastOrderEntry_def Let_def)
qed

lemma LoadHomeBoxFile_decodes:
  assumes "LoadHomeBoxFile p dims d = (r, d')" and "loadedData r = Some data"
  shows "\<exists>bs. DecodeHomeBox bs dims = Ok data"
proof -
  have cand: "\<exists>bs. DecodeHomeBox bs dims = Ok x" if "ReadCandidate q dims d1 = (Inr (b, x), d2)" for q d1 b x d2
    using that by (auto simp: ReadCandidate_def andThen_Ok_iff split: prod.splits sum.splits)
  have backup: "\<exists>bs. DecodeHomeBox bs dims = Ok data"
    if "LoadBackup p dims res m d1 = (r', d2)" "loadedData r' = Some data" "loadedData res = None" for res m d1 r' d2
    using that by (auto simp: LoadBackup_def Let_def split: prod.splits option.splits bool.splits sum.splits if_splits
        intro: cand)
  show ?thesis
    using assms by (auto simp: LoadHomeBoxFile_def emptyLoadResult_def split: prod.splits option.splits bool.splits sum.splits
        intro: cand backup)
qed

lemma PlaceStored_ok:
  assumes "\<forall>r \<in> set rs. unat (remoteBoxIndex r) < length (hb_StoredBoxData b)
      \<and> box_sized w \<lparr>bd_minimalData = metadata r, bd_pokemonData = pokemonData r\<rparr>"
    and "\<forall>box \<in> set (hb_StoredBoxData b). box_sized w box" and "PlaceStored rs (b, w1) = (b', w')"
  shows "\<exists>stored. b' = b\<lparr>hb_StoredBoxData := stored\<rparr> \<and> length stored = length (hb_StoredBoxData b)
    \<and> (\<forall>box \<in> set stored. box_sized w box) \<and> hw_fault w' = hw_fault w1 \<and> hw_memory w' = hw_memory w1"
  using assms
proof (induction rs arbitrary: b w1)
  case Nil
  then show ?case by (intro exI [of _ "hb_StoredBoxData b"]) (auto simp: PlaceStored_def)
next
  case (Cons r rs)
  let ?stored = "(hb_StoredBoxData b)[unat (remoteBoxIndex r) := \<lparr>bd_minimalData = metadata r, bd_pokemonData = pokemonData r\<rparr>]"
  let ?w = "access (unat (remoteBoxIndex r) < length (hb_StoredBoxData b)) w1"
  have sized: "\<forall>box \<in> set ?stored. box_sized w box"
    using Cons.prems(1,2) by (auto dest!: subsetD [OF set_update_subset_insert])
  have run: "PlaceStored rs (b\<lparr>hb_StoredBoxData := ?stored\<rparr>, ?w) = (b', w')"
    using Cons.prems(3) by (simp add: PlaceStored_def)
  have "\<exists>stored. b' = b\<lparr>hb_StoredBoxData := ?stored\<rparr>\<lparr>hb_StoredBoxData := stored\<rparr>
      \<and> length stored = length (hb_StoredBoxData (b\<lparr>hb_StoredBoxData := ?stored\<rparr>))
      \<and> (\<forall>box \<in> set stored. box_sized w box) \<and> hw_fault w' = hw_fault ?w \<and> hw_memory w' = hw_memory ?w"
    by (rule Cons.IH [OF _ _ run]) (use Cons.prems(1) sized in simp_all)
  then show ?case using Cons.prems(1) by auto
qed

lemma decoded_records_fit:
  assumes "DecodeHomeBox bs dims = Ok data" and "r \<in> set (records data)"
  shows "unat (remoteBoxIndex r) < unat (remoteBoxCount dims)" "length (metadata r) = unat (metadataSize dims)"
    "length (pokemonData r) = unat (pokemonDataSize dims)"
proof -
  from assms(1) have v: "length (records data) = unat (remoteBoxCount dims)" "indexed_from dims 0 (records data)"
    by (simp_all add: DecodeHomeBox_iff valid_home_def)
  from assms(2) obtain i where i: "i < length (records data)" "records data ! i = r" by (metis in_set_conv_nth)
  have "remoteBoxIndex r = word_of_nat i" using i v by (auto simp: indexed_from_iff)
  moreover have "i < 2 ^ 32" using i(1) v(1) unsigned_less [of "remoteBoxCount dims", where 'a = nat] by simp
  ultimately show "unat (remoteBoxIndex r) < unat (remoteBoxCount dims)" using i(1) v(1) by (simp add: unat_of_nat)
  show "length (metadata r) = unat (metadataSize dims)" "length (pokemonData r) = unat (pokemonDataSize dims)"
    using indexed_fits [OF v(2) assms(2)] by (simp_all add: fits_record_def)
qed

lemma home_inv_open:
  "hb_State b = OpenOfflineFile \<Longrightarrow> hb_BoxWriteRequests b = [] \<Longrightarrow> hb_LocalActiveBoxIndices b = [] \<Longrightarrow> \<not> hw_fault w \<Longrightarrow> home_inv (b, w)"
  by (simp add: home_inv_def)

lemma failed_load:
  "hb_State b = OpenOfflineFile \<Longrightarrow> hb_BoxWriteRequests b = [] \<Longrightarrow> hb_LocalActiveBoxIndices b = [] \<Longrightarrow> \<not> hw_fault w
   \<Longrightarrow> home_inv (ReportAndDisconnect e (b, w))"
  by (rule home_inv_keeps [OF home_inv_open ReportAndDisconnect_keeps])

lemma StartBoxData_inv:
  assumes "loaded_inv b w" and "hb_BoxWriteRequests b = []" and "\<not> hw_fault w"
  shows "home_inv (StartBoxData (b, w))"
proof -
  have "loaded_inv (fst (StartBoxData (b, w))) w" using assms(1) by (simp add: loaded_inv_def StartBoxData_def)
  then show ?thesis using assms by (simp add: home_inv_def StartBoxData_def)
qed

lemma loaded_inv_effect [simp]: "loaded_inv b (effect e w) = loaded_inv b w"
  by (simp add: loaded_inv_def headerLayout_def box_sized_def [abs_def])

lemma FinishLoad_inv:
  assumes "loaded_inv b w" and "hb_BoxWriteRequests b = []" and "\<not> hw_fault w"
    and "hb_State b = OpenOfflineFile" "hb_LocalActiveBoxIndices b = []"
  shows "home_inv (FinishLoad loaded (b, w))"
proof (cases "loadWarning loaded = []")
  case True
  then show ?thesis using StartBoxData_inv [OF assms(1-3)] by (simp add: FinishLoad_def)
next
  case warned: False
  show ?thesis
  proof (cases "primaryInvalid loaded")
    case True
    with warned failed_load [OF assms(4,2,5,3)] show ?thesis by (simp only: FinishLoad_def prod.case if_True not_False_eq_True simp_thms)
  next
    case False
    have "home_inv (StartBoxData (b, effect e w))" for e by (rule StartBoxData_inv) (use assms in simp_all)
    with warned False show ?thesis by (simp only: FinishLoad_def prod.case if_True if_False not_False_eq_True simp_thms)
  qed
qed

lemma PrepareLoad_inv:
  assumes lay: "layout_valid w"
  shows "loaded_inv (PrepareLoad dataDirectory trainerId (b, w)) w"
proof -
  have l: "is_ok (ValidateHomeBoxLayout (headerLayout w))" using lay by (simp add: layout_valid_def)
  show ?thesis
    using l layout_facts [OF l] by (simp add: loaded_inv_def PrepareLoad_def headerDimensions_def box_sized_def Let_def)
qed

lemma PrepareLoad_sel:
  "hb_State (PrepareLoad dataDirectory trainerId (b, w)) = hb_State b"
  "hb_BoxWriteRequests (PrepareLoad dataDirectory trainerId (b, w)) = hb_BoxWriteRequests b"
  "hb_LocalActiveBoxIndices (PrepareLoad dataDirectory trainerId (b, w)) = hb_LocalActiveBoxIndices b"
  "hb_Dimensions (PrepareLoad dataDirectory trainerId (b, w)) = headerDimensions trainerId w"
  by (simp_all add: PrepareLoad_def Let_def)

lemma loaded_inv_stored:
  assumes "loaded_inv b w" and "length stored = length (hb_StoredBoxData b)" and "\<forall>box \<in> set stored. box_sized w box"
  shows "loaded_inv (b\<lparr>hb_StoredBoxData := stored\<rparr>) w"
  using assms by (simp add: loaded_inv_def)

lemma loaded_inv_memory: "hw_memory w' = hw_memory w \<Longrightarrow> loaded_inv b w' = loaded_inv b w"
  by (simp add: loaded_inv_def headerLayout_def box_sized_def [abs_def])

lemma LoadOfflineData_inv:
  assumes inv: "home_inv (b, w)" and st: "hb_State b = OpenOfflineFile" and lay: "layout_valid w"
  shows "home_inv (LoadOfflineData dataDirectory trainerId (b, w))"
proof -
  define b1 where "b1 = PrepareLoad dataDirectory trainerId (b, w)"
  obtain loaded d where load: "LoadHomeBoxFile (hb_WriteFilePath b1) (hb_Dimensions b1) (hw_disk w) = (loaded, d)"
    by (metis surj_pair)
  define w1 where "w1 = w\<lparr>hw_disk := d\<rparr>"
  have dims: "hb_Dimensions b1 = headerDimensions trainerId w" by (simp add: b1_def PrepareLoad_sel)
  have b1: "hb_State b1 = OpenOfflineFile" "hb_BoxWriteRequests b1 = []" "hb_LocalActiveBoxIndices b1 = []" "\<not> hw_fault w1"
    using inv st by (simp_all add: home_inv_def b1_def PrepareLoad_sel w1_def)
  have l1: "loaded_inv b1 w" unfolding b1_def by (rule PrepareLoad_inv [OF lay])
  define s2 where "s2 = (case loadedData loaded of None \<Rightarrow> (b1, w1) | Some data \<Rightarrow> PlaceStored (records data) (b1, w1))"
  obtain b2 w2 where s2: "s2 = (b2, w2)" by (metis surj_pair)
  have "(\<exists>stored. b2 = b1\<lparr>hb_StoredBoxData := stored\<rparr> \<and> loaded_inv b2 w) \<and> hw_memory w2 = hw_memory w \<and> \<not> hw_fault w2"
  proof (cases "loadedData loaded")
    case None
    with s2 b1 l1 show ?thesis by (auto simp: s2_def w1_def intro!: exI [of _ "hb_StoredBoxData b1"])
  next
    case (Some data)
    from LoadHomeBoxFile_decodes [OF load Some] obtain bs where "DecodeHomeBox bs (headerDimensions trainerId w) = Ok data"
      by (auto simp: dims)
    note fit = decoded_records_fit [OF this]
    have sized: "\<forall>box \<in> set (hb_StoredBoxData b1). box_sized w box" using l1 by (simp add: loaded_inv_def)
    have "length (hb_StoredBoxData b1) = unat (remoteBoxCount (headerDimensions trainerId w))"
      using l1 layout_facts(8) by (simp add: loaded_inv_def headerDimensions_def)
    with fit have ok: "\<forall>r \<in> set (records data). unat (remoteBoxIndex r) < length (hb_StoredBoxData b1)
        \<and> box_sized w \<lparr>bd_minimalData = metadata r, bd_pokemonData = pokemonData r\<rparr>"
      by (simp add: box_sized_def headerDimensions_def)
    have run: "PlaceStored (records data) (b1, w1) = (b2, w2)" using s2 Some by (simp add: s2_def)
    from PlaceStored_ok [OF ok sized run] loaded_inv_stored [OF l1] b1(4) show ?thesis by (auto simp: w1_def)
  qed
  then have b2: "hb_State b2 = OpenOfflineFile" "hb_BoxWriteRequests b2 = []" "hb_LocalActiveBoxIndices b2 = []"
      "\<not> hw_fault w2" "loaded_inv b2 w2"
    using b1 loaded_inv_memory [of w2 w] by auto
  have "LoadOfflineData dataDirectory trainerId (b, w) =
     (if \<not> Succeeded loaded \<and> \<not> NotFound loaded then
        ReportAndDisconnect (''Cannot load Home Box.'' @ lineFeed @ ''Back up its files before recovery.'') (b1, w1)
      else FinishLoad loaded s2)"
    by (simp only: LoadOfflineData_def b1_def [symmetric] Let_def snd_conv load prod.case w1_def [symmetric] s2_def)
  moreover have "home_inv (FinishLoad loaded s2)" using FinishLoad_inv [OF b2(5,2,4,1,3)] by (simp add: s2)
  moreover note failed_load [OF b1]
  ultimately show ?thesis by (simp only: split: if_split) blast
qed

lemma home_invI: "\<not> hw_fault w \<Longrightarrow> state_inv (hb_State b) b w \<Longrightarrow> home_inv (b, w)"
  by (simp add: home_inv_def)

lemma DoOpen_inv:
  assumes inv: "home_inv (b, w)" and st: "hb_State b = OpenOfflineFile" and lay: "layout_valid w"
  shows "home_inv (DoOpen dataDirectory (b, w))"
proof -
  obtain entry w1 where last: "lastOrderEntry w = (entry, w1)" by (metis surj_pair)
  note safe = lastOrderEntry_safe [OF lay last]
  have base: "hb_BoxWriteRequests b = []" "hb_LocalActiveBoxIndices b = []" "\<not> hw_fault w1"
    using inv st safe by (simp_all add: home_inv_def)
  have lay1: "layout_valid w1" using lay safe(2) by (simp add: layout_valid_def headerLayout_def)
  have inv1: "home_inv (b, w1)" by (rule home_inv_open [OF st base])
  obtain ok and trainerId :: u32 where trainer: "ReadLittle (stateBlob w1) (unat (hdr ''homeTrainerIdOffset'' w1)) = (ok, trainerId)"
    by (metis surj_pair)
  show ?thesis
  proof (cases "entry = 255")
    case False
    have "home_inv (b\<lparr>hb_RequiresReopen := True\<rparr>, w1)" by (rule home_inv_open) (simp_all add: st base)
    with False last show ?thesis by (simp add: DoOpen_def)
  next
    case True
    show ?thesis
    proof (cases ok)
      case loaded: True
      with True last trainer LoadOfflineData_inv [OF inv1 st lay1] show ?thesis by (simp add: DoOpen_def)
    next
      case False
      with True last trainer failed_load [OF st base] show ?thesis by (simp add: DoOpen_def)
    qed
  qed
qed

lemma RequestPokemonStorageData_cases:
  "RequestPokemonStorageData accepted boxId m = (ok, es, m') \<Longrightarrow>
   m_RogueHeader m' = m_RogueHeader m \<and> (es = [] \<and> \<not> ok \<or> (\<exists>e. es = [e] \<and> ok = accepted e))
   \<and> (ok \<longrightarrow> blob_size (m_PokemonStorageData m') = unat (rogue_u32 ''homeDestMonSize'' m))"
  by (auto simp: RequestPokemonStorageData_def Let_def rogue_u32_def split: if_splits)

lemma state_inv_init_world:
  assumes "m_Value (m_RogueHeader (hw_memory w')) = m_Value (m_RogueHeader (hw_memory w))"
    and "state_inv InitialiseBoxData b w"
  shows "state_inv InitialiseBoxData b w'"
proof -
  note hdr = box_sized_cong [OF assms(1)]
  have "headerLayout w' = headerLayout w" by (simp add: headerLayout_def hdr)
  then have "loaded_inv b w' = loaded_inv b w" "box_sized w' = box_sized w"
    by (simp_all add: loaded_inv_def box_sized_def hdr fun_eq_iff)
  with assms(2) show ?thesis by (simp add: hdr)
qed

lemma RequestStorage_inv:
  assumes inv: "home_inv (b, w)" and st: "hb_State b = InitialiseBoxData"
    and run: "RequestStorage answer boxId (b, w) = (ok, b', w')"
  shows "home_inv (b', w') \<and> (ok \<longrightarrow> b' = b \<and> length (storageBlob w') = unat (hdr ''homeDestMonSize'' w')
    \<and> hdr ''homeLocalBoxCount'' w' = hdr ''homeLocalBoxCount'' w)"
proof -
  obtain ok1 es m where req: "RequestPokemonStorageData (\<lambda>e. answer e = Accepted) boxId (hw_memory w) = (ok1, es, m)"
    by (metis surj_pair)
  note c = RequestPokemonStorageData_cases [OF req]
  let ?w = "w\<lparr>hw_memory := m\<rparr>"
  have "state_inv InitialiseBoxData b w" using inv st by (simp add: home_inv_def)
  then have "state_inv InitialiseBoxData b ?w" by (rule state_inv_init_world [rotated]) (use c in simp)
  with inv st have inv1: "home_inv (b, ?w)" by (simp add: home_inv_def)
  show ?thesis
  proof (cases es)
    case Nil
    with c run req inv1 show ?thesis by (auto simp: RequestStorage_def)
  next
    case (Cons e es')
    with c have es: "es = [e]" "ok1 = (answer e = Accepted)" by auto
    obtain ok2 b2 w2 where sub: "Request answer e (b, ?w) = (ok2, b2, w2)" by (metis surj_pair)
    note keeps = Request_keeps [OF sub]
    have eq: "ok = ok1" "b' = b2" "w' = w2" using run req es sub by (simp_all add: RequestStorage_def)
    have "home_inv (b', w')" using home_inv_keeps [OF inv1 keeps(1)] by (simp add: eq)
    moreover have "hw_memory w' = m" using keeps(1) by (simp add: home_keeps_def eq)
    ultimately show ?thesis using c es keeps(2,3) eq by (auto simp: blob_size_def rogue_u32_def)
  qed
qed

lemma DoInitialise_inv:
  assumes inv: "home_inv (b, w)" and st: "hb_State b = InitialiseBoxData"
  shows "home_inv (DoInitialise answer (b, w))"
proof (cases "length (hb_ActiveBoxData b) < unat (hb_LocalBoxCount b)")
  case True
  obtain ok b' w' where run: "RequestStorage answer (word_of_nat (length (hb_ActiveBoxData b))) (b, w) = (ok, b', w')"
    by (metis surj_pair)
  note r = RequestStorage_inv [OF inv st run]
  show ?thesis
  proof (cases ok)
    case ok: True
    with r have b': "b' = b" "home_inv (b, w')" "length (storageBlob w') = unat (hdr ''homeDestMonSize'' w')" by auto
    from b'(2) st have base: "state_inv InitialiseBoxData b w'" "\<not> hw_fault w'" by (simp_all add: home_inv_def)
    have "loaded_inv (b\<lparr>hb_ActiveBoxData := hb_ActiveBoxData b @ [emptyBox], hb_State := WaitingForBoxData\<rparr>) w'"
      using base by (simp add: loaded_inv_def)
    then have "home_inv (b\<lparr>hb_ActiveBoxData := hb_ActiveBoxData b @ [emptyBox], hb_State := WaitingForBoxData\<rparr>, w')"
      using base b' True by (intro home_invI) (simp_all add: loaded_inv_def)
    with True run ok b' show ?thesis by (simp add: DoInitialise_def)
  next
    case False
    with True run r show ?thesis by (simp add: DoInitialise_def)
  qed
next
  case False
  let ?b = "b\<lparr>hb_ActiveBoxData := hb_ActiveBoxData b @ hb_StoredBoxData b\<rparr>"
  from inv st have s: "state_inv InitialiseBoxData b w" and nf: "\<not> hw_fault w" by (simp_all add: home_inv_def)
  then have l: "loaded_inv b w" by simp
  then have valid: "is_ok (ValidateHomeBoxLayout (headerLayout w))" by (simp add: loaded_inv_def)
  have len: "length (hb_ActiveBoxData b) = localCount w" using s l False by (simp add: loaded_inv_def)
  then have total: "length (hb_ActiveBoxData ?b) = total w"
    using l layout_facts(3) [OF valid] by (simp add: loaded_inv_def)
  have "loaded_inv (?b\<lparr>hb_State := SendGameDataInit\<rparr>) w" "active_inv (?b\<lparr>hb_State := SendGameDataInit\<rparr>) w"
    using s l total by (auto simp: loaded_inv_def active_inv_def)
  then have "home_inv (?b\<lparr>hb_State := SendGameDataInit\<rparr>, w)" using s nf by (intro home_invI) simp_all
  with False total show ?thesis by (simp add: DoInitialise_def Let_def)
qed

lemma minimal_span:
  assumes lay: "layout_valid w" and box: "unat boxId < total w"
  shows "unat (hdr ''homeMinimalBoxOffset'' w + hdr ''homeMinimalBoxSize'' w * boxId) + unat (hdr ''homeMinimalBoxSize'' w)
    \<le> length (stateBlob w)"
proof -
  have l: "is_ok (ValidateHomeBoxLayout (headerLayout w))" "length (stateBlob w) = unat (hdr ''homeBoxSize'' w)"
    using lay by (simp_all add: layout_valid_def)
  note f = layout_facts [OF l(1)]
  let ?n = "unat (hdr ''homeMinimalBoxSize'' w)" and ?o = "unat (hdr ''homeMinimalBoxOffset'' w)"
  have "Suc (unat boxId) \<le> total w" using box by simp
  then have "?n * Suc (unat boxId) \<le> ?n * total w" by (rule mult_le_mono2)
  then have span: "?o + ?n * unat boxId + ?n \<le> unat (hdr ''homeBoxSize'' w)" using f(5) by simp
  have mul: "unat (hdr ''homeMinimalBoxSize'' w * boxId) = ?n * unat boxId"
    using span f(7) by (intro unat_mult_small) simp
  have "unat (hdr ''homeMinimalBoxOffset'' w + hdr ''homeMinimalBoxSize'' w * boxId) = ?o + ?n * unat boxId"
    using span f(7) by (subst unat_add_small) (simp_all add: mul)
  with span l(2) show ?thesis by simp
qed

lemma unat_small_index: "n < 256 \<Longrightarrow> unat (word_of_nat n :: u32) = n"
  by (simp add: unat_of_nat)

lemma update_last: "xs \<noteq> [] \<Longrightarrow> xs[length xs - Suc 0 := x] = butlast xs @ [x]"
  by (cases xs rule: rev_cases) simp_all

lemma DoWaitBox_inv:
  assumes inv: "home_inv (b, w)" and st: "hb_State b = WaitingForBoxData" and lay: "layout_valid w"
  shows "home_inv (DoWaitBox (b, w))"
proof (cases "m_IsValid (m_PokemonStorageData (hw_memory w))")
  case True
  from inv st have s: "state_inv WaitingForBoxData b w" and nf: "\<not> hw_fault w" by (simp_all add: home_inv_def)
  then have l: "loaded_inv b w" and ne: "hb_ActiveBoxData b \<noteq> []" and len: "length (hb_ActiveBoxData b) \<le> localCount w"
    by simp_all
  have valid: "is_ok (ValidateHomeBoxLayout (headerLayout w))" using l by (simp add: loaded_inv_def)
  note f = layout_facts [OF valid]
  define boxId :: u32 where "boxId = word_of_nat (length (hb_ActiveBoxData b) - 1)"
  have id: "unat boxId = length (hb_ActiveBoxData b) - 1"
    unfolding boxId_def using len f by (intro unat_small_index) simp
  have inside: "unat boxId < length (hb_ActiveBoxData b)" "unat boxId < total w"
    using id ne len f by (simp_all add: order_less_le_trans [OF _ order_trans [OF len f(3)]])
  define start where "start = unat (hdr ''homeMinimalBoxOffset'' w + hdr ''homeMinimalBoxSize'' w * boxId)"
  note span = minimal_span [OF lay inside(2), folded start_def]
  define box where "box = \<lparr>bd_minimalData = take (unat (hdr ''homeMinimalBoxSize'' w)) (drop start (stateBlob w)),
      bd_pokemonData = take (unat (hdr ''homeDestMonSize'' w)) (storageBlob w)\<rparr>"
  have box: "box_sized w box" using span s by (simp add: box_sized_def box_def)
  define active where "active = (hb_ActiveBoxData b)[unat boxId := box]"
  have "active = butlast (hb_ActiveBoxData b) @ [box]"
    using ne by (simp add: active_def id update_last)
  with s box have "\<forall>x \<in> set active. box_sized w x" by simp
  moreover have "length active \<le> localCount w" using len by (simp add: active_def)
  moreover have "loaded_inv (b\<lparr>hb_ActiveBoxData := active, hb_State := InitialiseBoxData\<rparr>) w"
    using l by (simp add: loaded_inv_def)
  ultimately have "home_inv (b\<lparr>hb_ActiveBoxData := active, hb_State := InitialiseBoxData\<rparr>, w)"
    using s nf by (intro home_invI) simp_all
  moreover have "DoWaitBox (b, w) = (b\<lparr>hb_ActiveBoxData := active, hb_State := InitialiseBoxData\<rparr>,
      access (unat boxId < length (hb_ActiveBoxData b) \<and> start + unat (hdr ''homeMinimalBoxSize'' w) \<le> length (stateBlob w)
           \<and> unat (hdr ''homeDestMonSize'' w) \<le> length (storageBlob w)) w)"
    using True by (simp add: DoWaitBox_def InitialiseLocalBoxData_def Let_def active_def box_def start_def boxId_def)
  moreover have "home_keeps (b', w) (b', access c w)" if c for b' c
    using that by (intro home_keeps_same) simp_all
  ultimately show ?thesis using home_inv_keeps inside span s by simp
next
  case False
  with inv show ?thesis by (simp add: DoWaitBox_def)
qed

lemma unat_u8_index: "i < n \<Longrightarrow> n \<le> 255 \<Longrightarrow> unat (word_of_nat i :: u8) = i"
  by (simp add: unat_of_nat)

lemma is_order_identity: "n \<le> 255 \<Longrightarrow> is_order (map word_of_nat [0..<n]) n"
  by (auto simp: is_order_def distinct_map unat_u8_index intro!: inj_onI) (metis unat_u8_index order_less_le_trans)

lemma SendOrder_inv:
  assumes inv: "home_inv (b, w)" and st: "hb_State b = SendGameDataInit"
  shows "home_inv (SendOrder answer (b, w))"
proof -
  from inv st have s: "state_inv SendGameDataInit b w" and nf: "\<not> hw_fault w" by (simp_all add: home_inv_def)
  then have valid: "is_ok (ValidateHomeBoxLayout (headerLayout w))" by (simp add: loaded_inv_def)
  define indices :: "u8 list" where "indices = map word_of_nat [0..<total w]"
  have order: "is_order indices (total w)" unfolding indices_def by (rule is_order_identity [OF layout_facts(2) [OF valid]])
  define b1 where "b1 = b\<lparr>hb_LocalActiveBoxIndices := indices, hb_RemoteActiveBoxIndices := indices\<rparr>"
  have same: "loaded_inv (b1\<lparr>hb_State := st\<rparr>) w" "active_inv (b1\<lparr>hb_State := st\<rparr>) w" for st
    using s by (simp_all add: b1_def loaded_inv_def active_inv_def)
  have inv1: "home_inv (b1, w)" and inv2: "home_inv (b1\<lparr>hb_State := WaitForInit\<rparr>, w)"
    using same [of SendGameDataInit] same [of WaitForInit] s nf st order
    by (simp_all add: home_inv_def b1_def is_order_def loaded_inv_def active_inv_def)
  let ?e = "WriteReq (CreateMessageId AnonymousChannel 0)
            (address_value (m_HomeBoxStatePtr (hw_memory w)) + hdr ''homeRemoteIndexOrderOffset'' w) indices"
  obtain ok b' w' where req: "Request answer ?e (b1, w) = (ok, b', w')" by (metis surj_pair)
  note keeps = Request_keeps [OF req]
  have eq: "SendOrder answer (b, w) = (if ok then (b'\<lparr>hb_State := WaitForInit\<rparr>, w') else (b', w'))"
    using req by (simp add: SendOrder_def Let_def b1_def indices_def split: bool.split)
  show ?thesis
  proof (cases ok)
    case True
    then have "b' = b1" using keeps(3) by simp
    moreover from keeps(1) this have "home_keeps (b1\<lparr>hb_State := WaitForInit\<rparr>, w) (b1\<lparr>hb_State := WaitForInit\<rparr>, w')"
      by (intro home_keeps_snd [OF keeps(1)])
    ultimately show ?thesis using True eq home_inv_keeps [OF inv2] by simp
  next
    case False
    with eq home_inv_keeps [OF inv1 keeps(1)] show ?thesis by simp
  qed
qed

lemma DoSend_inv:
  assumes inv: "home_inv (b, w)" and st: "hb_State b = SendGameDataInit"
  shows "home_inv (DoSend answer (b, w))"
proof (cases "hb_InitialiseBoxWriteIndex b < hdr ''homeTotalBoxCount'' w")
  case False
  with SendOrder_inv [OF inv st] show ?thesis by (simp add: DoSend_def)
next
  case True
  let ?i = "hb_InitialiseBoxWriteIndex b"
  from inv st have a: "active_inv b w" and nf: "\<not> hw_fault w" by (simp_all add: home_inv_def)
  have inside: "unat ?i < length (hb_ActiveBoxData b)" using True a by (simp add: active_inv_def word_less_nat_alt)
  then have "box_sized w (hb_ActiveBoxData b ! unat ?i)" using a by (simp add: active_inv_def)
  then have ok_access: "unat ?i < length (hb_ActiveBoxData b)
      \<and> unat (hdr ''homeMinimalBoxSize'' w) \<le> length (bd_minimalData (hb_ActiveBoxData b ! unat ?i))" (is ?c)
    using inside by (simp add: box_sized_def)
  have inv1: "home_inv (b, access ?c w)" by (rule home_inv_keeps [OF inv home_keeps_same]) (simp_all add: ok_access)
  obtain ok b' w' where wr: "WriteMinimalBox answer ?i (b, w) = (ok, b', w')" by (metis surj_pair)
  then have "Request answer (WriteReq (CreateMessageId AnonymousChannel 0)
          (address_value (m_HomeBoxStatePtr (hw_memory w)) + hdr ''homeMinimalBoxOffset'' w + hdr ''homeMinimalBoxSize'' w * ?i)
          (take (unat (hdr ''homeMinimalBoxSize'' w)) (bd_minimalData (hb_ActiveBoxData b ! unat ?i))))
        (b, access ?c w) = (ok, b', w')"
    by (simp add: WriteMinimalBox_def Let_def)
  note keeps = Request_keeps [OF this]
  have inv': "home_inv (b', w')" by (rule home_inv_keeps [OF inv1 keeps(1)])
  show ?thesis
  proof (cases ok)
    case False
    with True wr inv' show ?thesis by (simp add: DoSend_def)
  next
    case okT: True
    then have b': "b' = b" using keeps(3) by simp
    let ?b = "b\<lparr>hb_InitialiseBoxWriteIndex := ?i + 1\<rparr>"
    have "home_inv (?b, w')"
      using inv' st by (simp add: b' home_inv_def loaded_inv_def active_inv_def)
    moreover from SendOrder_inv [OF this] have "home_inv (SendOrder answer (?b, w'))" by (simp add: st)
    ultimately show ?thesis using True wr okT b' by (simp add: DoSend_def Let_def)
  qed
qed

lemma DoWaitInit_inv:
  assumes inv: "home_inv (b, w)" and st: "hb_State b = WaitForInit" and lay: "layout_valid w"
  shows "home_inv (DoWaitInit (b, w))"
proof -
  obtain entry w1 where last: "lastOrderEntry w = (entry, w1)" by (metis surj_pair)
  note safe = lastOrderEntry_safe [OF lay last]
  have inv1: "home_inv (b, w1)" by (rule home_inv_keeps [OF inv home_keeps_same [OF safe(2,1)]])
  then have "home_inv (b\<lparr>hb_State := Update\<rparr>, w1)"
    using st by (simp add: home_inv_def loaded_inv_def active_inv_def)
  with inv1 last show ?thesis by (simp add: DoWaitInit_def)
qed

section \<open>The order of the boxes\<close>

lemma OrderLoop_iff:
  "OrderLoop indices seen \<longleftrightarrow> distinct indices \<and> (\<forall>i \<in> set indices. unat i < length seen \<and> \<not> seen ! unat i)"
proof (induction indices arbitrary: seen)
  case (Cons i indices)
  show ?case
  proof (cases "unat i < length seen \<and> \<not> seen ! unat i")
    case True
    have "(\<forall>j \<in> set indices. unat j < length (seen[unat i := True]) \<and> \<not> seen[unat i := True] ! unat j)
        \<longleftrightarrow> i \<notin> set indices \<and> (\<forall>j \<in> set indices. unat j < length seen \<and> \<not> seen ! unat j)"
      using True by (auto simp: nth_list_update dest: word_unat_eq_iff [THEN iffD2])
    with True Cons.IH [of "seen[unat i := True]"] show ?thesis by auto
  qed (use Cons.IH in auto)
qed simp

lemma ValidateIndexOrder_iff:
  "ValidateIndexOrder b indices \<longleftrightarrow> is_order indices (unat (remoteBoxCount (hb_Dimensions b) + hb_LocalBoxCount b))"
  by (auto simp: ValidateIndexOrder_def OrderLoop_iff is_order_def)

text \<open>The update of the order, up to an index: the order read from the game replaces the one followed so far.\<close>

definition follow_ok :: "HomeWorld \<Rightarrow> HomeBoxBehaviour \<Rightarrow> Home \<Rightarrow> nat \<Rightarrow> bool" where
  "follow_ok w b s n \<longleftrightarrow> (\<exists>q p. fst s = b\<lparr>hb_LocalActiveBoxIndices :=
        take n (hb_RemoteActiveBoxIndices b) @ drop n (hb_LocalActiveBoxIndices b),
        hb_BoxWriteRequests := hb_BoxWriteRequests b @ q, hb_HasPendingFileWrite := p\<rparr>
      \<and> list_all (request_ok w) q) \<and> hw_memory (snd s) = hw_memory w \<and> hw_fault (snd s) = hw_fault w
      \<and> hw_disk (snd s) = hw_disk w \<and> hw_effects (snd s) = hw_effects w"

lemma FollowOrder_step:
  assumes len: "length (hb_RemoteActiveBoxIndices b) = total w" "length (hb_LocalActiveBoxIndices b) = total w"
    "length (hb_ActiveBoxData b) = total w"
    and order: "\<forall>i \<in> set (hb_RemoteActiveBoxIndices b). unat i < total w" and n: "n < total w"
    and ok: "follow_ok w b s n"
  shows "follow_ok w b (FollowOrder n s) (Suc n)"
proof -
  let ?R = "hb_RemoteActiveBoxIndices b" and ?L = "hb_LocalActiveBoxIndices b"
  obtain b' w' where s: "s = (b', w')" by (metis surj_pair)
  from ok s obtain q p where b': "b' = b\<lparr>hb_LocalActiveBoxIndices := take n ?R @ drop n ?L,
      hb_BoxWriteRequests := hb_BoxWriteRequests b @ q, hb_HasPendingFileWrite := p\<rparr>" "list_all (request_ok w) q"
      and w': "hw_memory w' = hw_memory w" "hw_fault w' = hw_fault w" "hw_disk w' = hw_disk w" "hw_effects w' = hw_effects w"
    by (auto simp: follow_ok_def)
  have at: "(take n ?R @ drop n ?L) ! n = ?L ! n" using len n by (simp add: nth_append)
  have same: "take n ?R @ drop n ?L = take (Suc n) ?R @ drop (Suc n) ?L" if "?R ! n = ?L ! n"
    using that len n by (simp add: take_Suc_conv_app_nth) (metis Cons_nth_drop_Suc append_Cons append_Nil)
  have upd: "(take n ?R @ drop n ?L)[n := ?R ! n] = take (Suc n) ?R @ drop (Suc n) ?L"
    using len n by (simp add: list_update_append take_Suc_conv_app_nth flip: Cons_nth_drop_Suc)
  have R: "unat (?R ! n) < total w" using order len n by simp
  let ?r = "\<lparr>wr_boxId = word_of_nat n, wr_data = unat (?R ! n), wr_offset = 0,
      wr_bytesRemaining = unat (hdr ''homeDestMonSize'' w)\<rparr>"
  have r: "request_ok w ?r" using R by (simp add: request_ok_def)
  have acc: "n < length ?R" "n < length (take n ?R @ drop n ?L)" using len n by simp_all
  show ?thesis
  proof (cases "?R ! n = ?L ! n")
    case True
    then have eq: "FollowOrder n s = (b', access True w')"
      using acc at by (simp add: FollowOrder_def s b' Let_def)
    then show ?thesis using b' w' same [OF True] by (auto simp: follow_ok_def)
  next
    case False
    show ?thesis
    proof (cases "n < localCount w")
      case local: True
      have "FollowOrder n s = (b\<lparr>hb_LocalActiveBoxIndices := take (Suc n) ?R @ drop (Suc n) ?L,
          hb_BoxWriteRequests := hb_BoxWriteRequests b @ q @ [?r], hb_HasPendingFileWrite := True\<rparr>, access True (access True w'))"
        using False acc at local R w' len
        by (simp add: FollowOrder_def s b' Let_def BeginWriteMonBox_def upd rogue_u32_def)
      then show ?thesis using b'(2) r w' by (auto simp: follow_ok_def intro!: exI [of _ "q @ [?r]"])
    next
      case remote: False
      then have "FollowOrder n s = (b\<lparr>hb_LocalActiveBoxIndices := take (Suc n) ?R @ drop (Suc n) ?L,
          hb_BoxWriteRequests := hb_BoxWriteRequests b @ q, hb_HasPendingFileWrite := True\<rparr>, access True w')"
        using False acc at w' len by (simp add: FollowOrder_def s b' Let_def upd rogue_u32_def)
      then show ?thesis using b'(2) w' by (auto simp: follow_ok_def)
    qed
  qed
qed

lemma FollowOrder_all:
  assumes len: "length (hb_RemoteActiveBoxIndices b) = total w" "length (hb_LocalActiveBoxIndices b) = total w"
    "length (hb_ActiveBoxData b) = total w" and order: "\<forall>i \<in> set (hb_RemoteActiveBoxIndices b). unat i < total w"
    and n: "n \<le> total w"
  shows "follow_ok w b (fold FollowOrder [0..<n] (b, w)) n"
  using n
proof (induction n)
  case 0
  have "fst (b, w) = b\<lparr>hb_LocalActiveBoxIndices := hb_LocalActiveBoxIndices b,
      hb_BoxWriteRequests := hb_BoxWriteRequests b @ [], hb_HasPendingFileWrite := hb_HasPendingFileWrite b\<rparr>" by simp
  then show ?case unfolding follow_ok_def by (auto intro!: exI [of _ "[]"] exI [of _ "hb_HasPendingFileWrite b"])
next
  case (Suc n)
  then have "follow_ok w b (fold FollowOrder [0..<n] (b, w)) n" by simp
  from FollowOrder_step [OF len order _ this] Suc.prems show ?case by simp
qed

section \<open>Transfers\<close>

lemma WriteChunk_inv:
  assumes inv: "home_inv (b, w)" and st: "hb_State b = Update" and q: "hb_BoxWriteRequests b = request # rest"
  shows "home_inv (WriteChunk answer request rest (b, w))"
proof -
  from inv st have s: "state_inv Update b w" and nf: "\<not> hw_fault w" by (simp_all add: home_inv_def)
  then have a: "active_inv b w" and r: "request_ok w request" "\<forall>r \<in> set rest. request_ok w r" using q by simp_all
  let ?n = "min (wr_bytesRemaining request) 1024"
  let ?source = "bd_pokemonData (hb_ActiveBoxData b ! wr_data request)"
  let ?c = "wr_data request < length (hb_ActiveBoxData b) \<and> wr_offset request + ?n \<le> length ?source"
  have inside: "wr_data request < length (hb_ActiveBoxData b)" using r(1) a by (simp add: request_ok_def active_inv_def)
  then have "box_sized w (hb_ActiveBoxData b ! wr_data request)" using a by (simp add: active_inv_def)
  then have c: ?c using inside r(1) by (auto simp: box_sized_def request_ok_def)
  have "home_inv (b\<lparr>hb_WaitingForBoxWrite := True\<rparr>, w)"
    using s nf st by (simp add: home_inv_def loaded_inv_def active_inv_def)
  from home_inv_keeps [OF this home_keeps_same] c
  have inv1: "home_inv (b\<lparr>hb_WaitingForBoxWrite := True\<rparr>, access ?c w)" by simp
  obtain ok b' w' where req: "Request answer (WriteReq (CreateMessageId AnonymousChannel 0)
            (GetPokemonStoragePtr (hw_memory w) + hdr ''homeDestMonSize'' w * wr_boxId request
              + word_of_nat (wr_offset request))
            (take ?n (drop (wr_offset request) ?source))) (b\<lparr>hb_WaitingForBoxWrite := True\<rparr>, access ?c w) = (ok, b', w')"
    by (metis surj_pair)
  note keeps = Request_keeps [OF req]
  have inv': "home_inv (b', w')" by (rule home_inv_keeps [OF inv1 keeps(1)])
  have eq: "WriteChunk answer request rest (b, w) = (if ok
     then (b'\<lparr>hb_BoxWriteRequests := request\<lparr>wr_bytesRemaining := wr_bytesRemaining request - ?n,
           wr_offset := wr_offset request + ?n\<rparr> # rest\<rparr>, w')
     else (b'\<lparr>hb_WaitingForBoxWrite := False\<rparr>, w'))"
    using req by (simp add: WriteChunk_def Let_def split: bool.split)
  have hdr: "hw_memory w' = hw_memory w" using keeps(1) by (simp add: home_keeps_def)
  have "hb_State b' = Update" using keeps(1) st by (auto simp: home_keeps_def)
  with inv' have i: "state_inv Update b' w'" "\<not> hw_fault w'" by (simp_all add: home_inv_def)
  show ?thesis
  proof (cases ok)
    case True
    have "request_ok w' r = request_ok w r" for r by (simp add: request_ok_def hdr)
    moreover have "request_ok w (request\<lparr>wr_bytesRemaining := wr_bytesRemaining request - ?n,
           wr_offset := wr_offset request + ?n\<rparr>)" using r(1) by (auto simp: request_ok_def)
    ultimately show ?thesis using True eq i r(2) \<open>hb_State b' = Update\<close>
      by (simp add: home_inv_def loaded_inv_def active_inv_def)
  next
    case False
    with eq i \<open>hb_State b' = Update\<close> show ?thesis by (simp add: home_inv_def loaded_inv_def active_inv_def)
  qed
qed

lemma PumpWriteMonBox_inv:
  assumes inv: "home_inv (b, w)" and st: "hb_State b = Update" and run: "PumpWriteMonBox answer (b, w) = (pumped, s)"
  shows "home_inv s" "\<not> pumped \<Longrightarrow> s = (b, w) \<and> hb_BoxWriteRequests b = []"
proof -
  have pop: "home_inv (b\<lparr>hb_BoxWriteRequests := rest\<rparr>, w)" if "hb_BoxWriteRequests b = request # rest" for request rest
    using inv st that by (simp add: home_inv_def loaded_inv_def active_inv_def)
  show "home_inv s" "\<not> pumped \<Longrightarrow> s = (b, w) \<and> hb_BoxWriteRequests b = []"
    using run inv pop WriteChunk_inv [OF inv st]
    by (auto simp: PumpWriteMonBox_def split: list.splits if_splits)
qed

text \<open>The order the game shows.\<close>

definition shownOrder :: "HomeWorld \<Rightarrow> u8 list" where
  "shownOrder w = take (total w) (drop (unat (hdr ''homeRemoteIndexOrderOffset'' w)) (stateBlob w))"

lemma DoUpdate_follow:
  assumes inv: "home_inv (b, w)" and st: "hb_State b = Update" and lay: "layout_valid w" and q: "hb_BoxWriteRequests b = []"
  shows "\<exists>w1. hw_memory w1 = hw_memory w \<and> hw_fault w1 = hw_fault w \<and>
     (if is_order (shownOrder w) (total w)
      then \<exists>q p. DoUpdate answer (b, w) = (b\<lparr>hb_RemoteActiveBoxIndices := shownOrder w, hb_LocalActiveBoxIndices := shownOrder w,
             hb_BoxWriteRequests := q, hb_HasPendingFileWrite := p\<rparr>, w1) \<and> list_all (request_ok w) q
             \<and> hw_effects w1 = hw_effects w \<and> hw_disk w1 = hw_disk w
      else DoUpdate answer (b, w) = ReportAndDisconnect (''Cannot use Home Box.'' @ lineFeed @ ''The box order is invalid.'')
             (b\<lparr>hb_RemoteActiveBoxIndices := shownOrder w\<rparr>, w1)) \<and> length (shownOrder w) = total w"
proof -
  from inv st have i: "state_inv Update b w" by (simp add: home_inv_def)
  then have valid: "is_ok (ValidateHomeBoxLayout (headerLayout w))" and l: "loaded_inv b w" by (simp_all add: loaded_inv_def)
  let ?off = "unat (hdr ''homeRemoteIndexOrderOffset'' w)"
  have blob: "?off + total w \<le> length (stateBlob w)" using layout_facts(6) [OF valid] lay by (simp add: layout_valid_def)
  define b1 where "b1 = b\<lparr>hb_RemoteActiveBoxIndices := shownOrder w\<rparr>"
  define w1 where "w1 = access (?off + total w \<le> length (stateBlob w)) w"
  have w1: "hw_memory w1 = hw_memory w" "hw_fault w1 = hw_fault w" "hw_effects w1 = hw_effects w" "hw_disk w1 = hw_disk w"
    using blob by (simp_all add: w1_def)
  have len: "length (shownOrder w) = total w" using blob by (simp add: shownOrder_def)
  have sum: "unat (remoteBoxCount (hb_Dimensions b1) + hb_LocalBoxCount b1) = total w"
    using l by (simp add: b1_def loaded_inv_def)
  have valid_iff: "ValidateIndexOrder b1 (shownOrder w) \<longleftrightarrow> is_order (shownOrder w) (total w)"
    by (simp add: ValidateIndexOrder_iff sum)
  have remote: "length (hb_RemoteActiveBoxIndices b) = total w" using i by simp
  have eq: "DoUpdate answer (b, w) = (if \<not> ValidateIndexOrder b1 (shownOrder w)
      then ReportAndDisconnect (''Cannot use Home Box.'' @ lineFeed @ ''The box order is invalid.'') (b1, w1)
      else fold FollowOrder [0..<total w] (b1, w1))"
    using q remote by (simp add: DoUpdate_def PumpWriteMonBox_def Let_def b1_def w1_def shownOrder_def)
  show ?thesis
  proof (cases "is_order (shownOrder w) (total w)")
    case False
    with eq valid_iff have "DoUpdate answer (b, w) =
        ReportAndDisconnect (''Cannot use Home Box.'' @ lineFeed @ ''The box order is invalid.'') (b1, w1)" by simp
    with False w1 len show ?thesis unfolding b1_def by (intro exI [of _ w1]) simp
  next
    case True
    obtain b2 w2 where s2: "fold FollowOrder [0..<total w] (b1, w1) = (b2, w2)" by (metis surj_pair)
    have "follow_ok w1 b1 (fold FollowOrder [0..<total w] (b1, w1)) (total w)"
      using i True w1 by (intro FollowOrder_all) (simp_all add: b1_def is_order_def active_inv_def)
    then obtain q' p where b2: "b2 = b1\<lparr>hb_LocalActiveBoxIndices :=
          take (total w) (hb_RemoteActiveBoxIndices b1) @ drop (total w) (hb_LocalActiveBoxIndices b1),
        hb_BoxWriteRequests := hb_BoxWriteRequests b1 @ q', hb_HasPendingFileWrite := p\<rparr>" "list_all (request_ok w1) q'"
        and w2: "hw_memory w2 = hw_memory w1" "hw_fault w2 = hw_fault w1" "hw_effects w2 = hw_effects w1" "hw_disk w2 = hw_disk w1"
      unfolding follow_ok_def s2 by auto
    have "length (hb_LocalActiveBoxIndices b) = total w" using i by (simp add: is_order_def)
    then have "b2 = b\<lparr>hb_RemoteActiveBoxIndices := shownOrder w, hb_LocalActiveBoxIndices := shownOrder w,
        hb_BoxWriteRequests := q', hb_HasPendingFileWrite := p\<rparr>" using b2(1) len q by (simp add: b1_def)
    moreover have "list_all (request_ok w) q'" using b2(2) w1 by (simp add: list_all_iff request_ok_def)
    moreover have "DoUpdate answer (b, w) = (b2, w2)" using eq s2 True valid_iff by simp
    ultimately show ?thesis using True w1 w2 len by (intro exI [of _ w2]) auto
  qed
qed

lemma DoUpdate_inv:
  assumes inv: "home_inv (b, w)" and st: "hb_State b = Update" and lay: "layout_valid w"
  shows "home_inv (DoUpdate answer (b, w))"
proof -
  obtain pumped s where pump: "PumpWriteMonBox answer (b, w) = (pumped, s)" by (metis surj_pair)
  note p = PumpWriteMonBox_inv [OF inv st pump]
  show ?thesis
  proof (cases pumped)
    case True
    with p pump show ?thesis by (simp add: DoUpdate_def)
  next
    case False
    with p(2) have q: "hb_BoxWriteRequests b = []" by simp
    from inv st have i: "state_inv Update b w" and nf: "\<not> hw_fault w" by (simp_all add: home_inv_def)
    from DoUpdate_follow [OF inv st lay q, of answer] obtain w1 where w1: "hw_memory w1 = hw_memory w" "hw_fault w1 = hw_fault w"
      and len: "length (shownOrder w) = total w"
      and run: "if is_order (shownOrder w) (total w)
        then \<exists>q p. DoUpdate answer (b, w) = (b\<lparr>hb_RemoteActiveBoxIndices := shownOrder w,
             hb_LocalActiveBoxIndices := shownOrder w, hb_BoxWriteRequests := q, hb_HasPendingFileWrite := p\<rparr>, w1)
             \<and> list_all (request_ok w) q \<and> hw_effects w1 = hw_effects w \<and> hw_disk w1 = hw_disk w
        else DoUpdate answer (b, w) = ReportAndDisconnect (''Cannot use Home Box.'' @ lineFeed @ ''The box order is invalid.'')
             (b\<lparr>hb_RemoteActiveBoxIndices := shownOrder w\<rparr>, w1)" by blast
    have upd: "home_inv (b2, w1)" if "state_inv Update b2 w" "hb_State b2 = Update" for b2
      using that state_inv_world [of w1 w Update b2] w1 nf by (simp add: home_inv_def)
    show ?thesis
    proof (cases "is_order (shownOrder w) (total w)")
      case False
      have "home_inv (b\<lparr>hb_RemoteActiveBoxIndices := shownOrder w\<rparr>, w1)"
        using i len st by (intro upd) (simp_all add: loaded_inv_def active_inv_def)
      from home_inv_keeps [OF this ReportAndDisconnect_keeps] False run show ?thesis by simp
    next
      case True
      with run obtain q p where r: "DoUpdate answer (b, w) = (b\<lparr>hb_RemoteActiveBoxIndices := shownOrder w,
             hb_LocalActiveBoxIndices := shownOrder w, hb_BoxWriteRequests := q, hb_HasPendingFileWrite := p\<rparr>, w1)"
        "list_all (request_ok w) q" by auto
      have "home_inv (b\<lparr>hb_RemoteActiveBoxIndices := shownOrder w, hb_LocalActiveBoxIndices := shownOrder w,
          hb_BoxWriteRequests := q, hb_HasPendingFileWrite := p\<rparr>, w1)"
        using i len st r(2) True by (intro upd) (simp_all add: loaded_inv_def active_inv_def list_all_iff)
      with r(1) show ?thesis by simp
    qed
  qed
qed

section \<open>Every reachable state\<close>

lemma HomeOnUpdate_inv:
  assumes inv: "home_inv (b, w)" shows "home_inv (HomeOnUpdate dataDirectory answer (b, w))"
proof -
  have rep: "home_inv (ReportAndDisconnect e (b, w))" for e by (rule home_inv_keeps [OF inv ReportAndDisconnect_keeps])
  obtain b1 w1 where save: "HandlePendingFileWrite False (b, w) = (b1, w1)" by (metis surj_pair)
  have keeps: "home_keeps (b, w) (b1, w1)" using HandlePendingFileWrite_keeps [of b w False] by (simp add: save)
  have inv1: "home_inv (b1, w1)" by (rule home_inv_keeps [OF inv keeps])
  have lay: "layout_valid w1" if "ValidateLayout w"
    using that keeps by (simp add: ValidateLayout_def layout_valid_def home_keeps_def headerLayout_def blob_size_def)
  consider "\<not> IsHomeBoxStateValid (hw_memory w)" | "IsHomeBoxStateValid (hw_memory w)" "\<not> ValidateLayout w"
    | "IsHomeBoxStateValid (hw_memory w)" "ValidateLayout w" "hb_RequiresReopen b"
    | "IsHomeBoxStateValid (hw_memory w)" "ValidateLayout w" "\<not> hb_RequiresReopen b" by blast
  then show ?thesis
  proof cases
    case 2
    have "HomeOnUpdate dataDirectory answer (b, w) =
        ReportAndDisconnect (''Cannot use Home Box.'' @ lineFeed @ ''The ROM layout is invalid.'') (b, w)"
      using 2 by (simp only: HomeOnUpdate_def prod.case if_True if_False not_False_eq_True simp_thms)
    with rep show ?thesis by simp
  next
    case 4
    then have "HomeOnUpdate dataDirectory answer (b, w) = (case hb_State b1 of
          OpenOfflineFile \<Rightarrow> DoOpen dataDirectory (b1, w1) | InitialiseBoxData \<Rightarrow> DoInitialise answer (b1, w1)
        | WaitingForBoxData \<Rightarrow> DoWaitBox (b1, w1) | SendGameDataInit \<Rightarrow> DoSend answer (b1, w1)
        | WaitForInit \<Rightarrow> DoWaitInit (b1, w1) | Update \<Rightarrow> DoUpdate answer (b1, w1))"
      by (simp add: HomeOnUpdate_def save)
    with inv1 lay [OF 4(2)] show ?thesis
      by (cases "hb_State b1") (simp_all add: DoOpen_inv DoInitialise_inv DoWaitBox_inv DoSend_inv DoWaitInit_inv DoUpdate_inv)
  qed (use inv in \<open>simp_all add: HomeOnUpdate_def\<close>)
qed

end
