(* ===== verification/HomeBoxOrder.thy ===== *)
theory HomeBoxOrder
  imports HomeBoxSafety
begin

text \<open>
  The properties of the Home Box behaviour: memory safety, no box lost or doubled, saving only when
  every transfer is complete, and transfers that write a box exactly.
\<close>

section \<open>Reachable states\<close>

lemma home_inv_memory:
  assumes "home_inv (b, w)" and "m_Value (m_RogueHeader m) = m_Value (m_RogueHeader (hw_memory w))"
    and "blob_size (m_PokemonStorageData m) = blob_size (m_PokemonStorageData (hw_memory w))"
  shows "home_inv (b, w\<lparr>hw_memory := m\<rparr>)"
  using assms state_inv_world [of "w\<lparr>hw_memory := m\<rparr>" w "hb_State b" b] by (simp add: home_inv_def blob_size_def)

lemma home_inv_frame:
  "home_inv (b, w) \<Longrightarrow> hw_memory w' = hw_memory w \<Longrightarrow> hw_fault w' = hw_fault w \<Longrightarrow> home_inv (b, w')"
  by (rule home_inv_keeps [OF _ home_keeps_same])

lemma home_step_inv: "home_step dataDirectory s t \<Longrightarrow> home_inv s \<Longrightarrow> home_inv t"
proof (induction rule: home_step.induct)
  case (update w b answer)
  from HomeOnUpdate_inv [OF update.prems] show ?case .
next
  case (observe m' w b)
  show ?case by (rule home_inv_memory [OF observe.prems]) (simp_all add: observe.hyps ObservedUpdate_keeps)
next
  case (answer m' messageId bytes w b)
  show ?case
    by (rule home_inv_memory [OF answer.prems answer.hyps(2)]) (simp add: answer.hyps(1) OnRecieveMessage_keeps)
next
  case (written b w)
  then show ?case by (cases "hb_State b") (simp_all add: home_inv_def loaded_inv_def active_inv_def)
next
  case (disk b w d)
  show ?case by (rule home_inv_frame [OF disk.prems]) simp_all
next
  case (detach b w)
  have "home_inv (b, w\<lparr>hw_disconnected := True\<rparr>)" by (rule home_inv_frame [OF detach.prems]) simp_all
  then show ?case by (rule home_inv_keeps [OF _ HomeOnDetach_keeps])
qed

lemma home_reachable_inv: "home_reachable dataDirectory s \<Longrightarrow> home_inv s"
proof (induction rule: home_reachable.induct)
  case (attach w)
  then show ?case by (simp add: home_inv_def HomeOnAttach_def)
qed (rule home_step_inv)

lemma is_order_mset:
  assumes order: "is_order indices n" shows "mset (map unat indices) = mset [0..<n]"
proof -
  have dist: "distinct (map unat indices)"
    using order by (auto simp: is_order_def distinct_map word_unat_eq_iff intro!: inj_onI)
  have "card (set (map unat indices)) = n" using order distinct_card [OF dist] by (simp add: is_order_def)
  moreover have "set (map unat indices) \<subseteq> {0..<n}" using order by (auto simp: is_order_def)
  ultimately have "set (map unat indices) = {0..<n}" by (intro card_subset_eq) simp_all
  with dist show ?thesis by (intro set_eq_iff_mset_eq_distinct [THEN iffD1]) simp_all
qed


text \<open>
  An order is accepted exactly when it is a permutation of all boxes: as many entries as the
  dimensions say, and each box index from 0 on exactly once.
\<close>

theorem home_box_order_exact:
  "ValidateIndexOrder b indices \<longleftrightarrow>
     mset (map unat indices) = mset [0..<unat (remoteBoxCount (hb_Dimensions b) + hb_LocalBoxCount b)]"
proof -
  let ?n = "unat (remoteBoxCount (hb_Dimensions b) + hb_LocalBoxCount b)"
  have "is_order indices ?n" if m: "mset (map unat indices) = mset [0..<?n]"
  proof -
    have "distinct (map unat indices)" using m mset_eq_imp_distinct_iff by fastforce
    moreover have "length (map unat indices) = length [0..<?n]" using m by (rule mset_eq_length)
    moreover have "set (map unat indices) = set [0..<?n]" using m by (rule mset_eq_setD)
    ultimately show ?thesis by (auto simp: is_order_def distinct_map)
  qed
  with is_order_mset [of indices ?n] show ?thesis by (auto simp: ValidateIndexOrder_iff)
qed

section \<open>Saving\<close>

text \<open>The content of a box, and the box of a slot of the order.\<close>

definition slot_box :: "HomeBoxBehaviour \<Rightarrow> u8 \<Rightarrow> BoxData" where
  "slot_box b i = hb_ActiveBoxData b ! unat i"

definition record_box :: "HomeBoxRecord \<Rightarrow> BoxData" where
  "record_box r = \<lparr>bd_minimalData = metadata r, bd_pokemonData = pokemonData r\<rparr>"

lemma CollectRecords_all:
  assumes "length (hb_LocalActiveBoxIndices b) \<le> 255" "\<forall>i \<in> set (hb_LocalActiveBoxIndices b). unat i < length (hb_ActiveBoxData b)"
    and "unat (hb_LocalBoxCount b) + k + n = length (hb_LocalActiveBoxIndices b)"
  shows "\<exists>rs. CollectRecords b n k = Some rs \<and> map remoteBoxIndex rs = map word_of_nat [k..<k + n]
    \<and> map record_box rs = map (slot_box b) (drop (unat (hb_LocalBoxCount b) + k) (hb_LocalActiveBoxIndices b))"
  using assms(3)
proof (induction n arbitrary: k)
  case (Suc n)
  let ?L = "hb_LocalActiveBoxIndices b" and ?slot = "unat (hb_LocalBoxCount b) + k"
  have slot: "unat (hb_LocalBoxCount b + word_of_nat k) = ?slot"
    using assms(1) Suc.prems by (subst unat_add_small) (simp_all add: unat_small_index)
  have inside: "?slot < length ?L" using Suc.prems by simp
  then have box: "unat (?L ! ?slot) < length (hb_ActiveBoxData b)" using assms(2) by simp
  from Suc.IH [of "Suc k"] Suc.prems obtain rs where rs: "CollectRecords b n (Suc k) = Some rs"
      "map remoteBoxIndex rs = map word_of_nat [Suc k..<Suc k + n]"
      "map record_box rs = map (slot_box b) (drop (Suc ?slot) ?L)" by auto
  let ?r = "\<lparr>remoteBoxIndex = word_of_nat k, metadata = bd_minimalData (hb_ActiveBoxData b ! unat (?L ! ?slot)),
      pokemonData = bd_pokemonData (hb_ActiveBoxData b ! unat (?L ! ?slot))\<rparr>"
  have c1: "CollectRecords b (Suc n) k = Some (?r # rs)" using slot inside box rs(1) by (simp add: Let_def)
  have c2: "map record_box (?r # rs) = map (slot_box b) (?L ! ?slot # drop (Suc ?slot) ?L)"
    by (simp only: list.map rs(3)) (simp add: record_box_def slot_box_def)
  have c3: "?L ! ?slot # drop (Suc ?slot) ?L = drop ?slot ?L" using inside by (rule Cons_nth_drop_Suc)
  have c4: "map remoteBoxIndex (?r # rs) = map word_of_nat (k # [Suc k..<Suc k + n])" using rs(2) by simp
  have c5: "k # [Suc k..<Suc k + n] = [k..<k + Suc n]" by (subst upt_conv_Cons [of k]) simp_all
  show ?case by (intro exI conjI, rule c1, rule c4 [unfolded c5], rule c2 [unfolded c3])
qed simp

lemma slot_boxes:
  assumes "is_order (hb_LocalActiveBoxIndices b) (length (hb_ActiveBoxData b))"
  shows "mset (map (slot_box b) (hb_LocalActiveBoxIndices b)) = mset (hb_ActiveBoxData b)"
proof -
  have "map (slot_box b) (hb_LocalActiveBoxIndices b)
      = map (\<lambda>i. hb_ActiveBoxData b ! i) (map unat (hb_LocalActiveBoxIndices b))"
    by (simp add: slot_box_def)
  then have "mset (map (slot_box b) (hb_LocalActiveBoxIndices b))
      = image_mset (\<lambda>i. hb_ActiveBoxData b ! i) (mset [0..<length (hb_ActiveBoxData b)])"
    using is_order_mset [OF assms] by (metis mset_map)
  then show ?thesis by (simp only: mset_map [symmetric] map_nth)
qed

text \<open>
  C26. No box is lost or doubled by a save: while boxes can move, the records a save would write are
  numbered from 0 and are exactly the boxes of the slots outside the game, in slot order; together
  with the boxes of the slots inside the game they are all boxes, each once.
\<close>

theorem home_box_nothing_lost:
  assumes "home_reachable dataDirectory (b, w)" and "hb_State b = Update"
  shows "\<exists>rs. CollectRecords b (unat (remoteBoxCount (hb_Dimensions b))) 0 = Some rs
    \<and> map remoteBoxIndex rs = map word_of_nat [0..<total w - localCount w]
    \<and> map record_box rs = map (slot_box b) (drop (localCount w) (hb_LocalActiveBoxIndices b))
    \<and> mset (map (slot_box b) (take (localCount w) (hb_LocalActiveBoxIndices b))) + mset (map record_box rs)
      = mset (hb_ActiveBoxData b)"
proof -
  have "state_inv Update b w" using home_reachable_inv [OF assms(1)] assms(2) by (simp add: home_inv_def)
  then have l: "loaded_inv b w" and a: "active_inv b w" and o: "is_order (hb_LocalActiveBoxIndices b) (total w)" by simp_all
  from l have valid: "is_ok (ValidateHomeBoxLayout (headerLayout w))"
      and counts: "hb_LocalBoxCount b = hdr ''homeLocalBoxCount'' w"
        "remoteBoxCount (hb_Dimensions b) = hdr ''homeTotalBoxCount'' w - hdr ''homeLocalBoxCount'' w"
    by (simp_all add: loaded_inv_def)
  note f = layout_facts [OF valid]
  have "length (hb_LocalActiveBoxIndices b) \<le> 255" using o f(2) by (simp add: is_order_def)
  moreover have "\<forall>i \<in> set (hb_LocalActiveBoxIndices b). unat i < length (hb_ActiveBoxData b)"
    using o a by (simp add: is_order_def active_inv_def)
  moreover have "unat (hb_LocalBoxCount b) + 0 + (total w - localCount w) = length (hb_LocalActiveBoxIndices b)"
    using o f(3) counts by (simp add: is_order_def)
  ultimately obtain rs where rs: "CollectRecords b (total w - localCount w) 0 = Some rs"
      "map remoteBoxIndex rs = map word_of_nat [0..<total w - localCount w]"
      "map record_box rs = map (slot_box b) (drop (localCount w) (hb_LocalActiveBoxIndices b))"
    using CollectRecords_all [of b 0 "total w - localCount w"] counts by auto
  have "mset (map (slot_box b) (take (localCount w) (hb_LocalActiveBoxIndices b))) + mset (map record_box rs)
      = mset (map (slot_box b) (hb_LocalActiveBoxIndices b))"
    by (simp only: rs(3) mset_append [symmetric] map_append [symmetric] append_take_drop_id)
  also have "\<dots> = mset (hb_ActiveBoxData b)" using o a by (intro slot_boxes) (simp add: active_inv_def)
  finally show ?thesis using rs f(8) counts by (intro exI [of _ rs]) simp
qed

section \<open>Interrupted transfers\<close>

text \<open>A transfer is incomplete while a write is under way or a request has bytes left.\<close>

definition incomplete :: "HomeBoxBehaviour \<Rightarrow> bool" where
  "incomplete b \<longleftrightarrow> hb_WaitingForBoxWrite b \<and> hb_BoxWriteRequests b \<noteq> []
     \<or> (\<exists>r \<in> set (hb_BoxWriteRequests b). wr_bytesRemaining r \<noteq> 0)"

definition transferStopped :: GameEffect where
  "transferStopped = ReportError (''Storage transfer stopped.'' @ lineFeed @ ''Home Box file was not changed.'')"

lemma HomeOnDetach_incomplete:
  assumes "incomplete b"
  shows "HomeOnDetach (b, w) = (b\<lparr>hb_BoxWriteRequests := [], hb_HasPendingFileWrite := False\<rparr>, effect transferStopped w)"
proof (cases "hb_WaitingForBoxWrite b")
  case True
  with assms have "hb_BoxWriteRequests b \<noteq> []" by (auto simp: incomplete_def)
  with True show ?thesis by (simp add: HomeOnDetach_def transferStopped_def)
next
  case False
  with assms have "dropWhile (\<lambda>r. wr_bytesRemaining r = 0) (hb_BoxWriteRequests b) \<noteq> []"
    by (auto simp: incomplete_def dropWhile_eq_Nil_conv)
  with False show ?thesis by (simp add: HomeOnDetach_def transferStopped_def)
qed

lemma ReportAndDisconnect_incomplete: "incomplete b \<Longrightarrow> hw_disk (snd (ReportAndDisconnect e (b, w))) = hw_disk w"
  by (simp add: ReportAndDisconnect_def HomeDisconnect_def HomeOnDetach_incomplete)

lemma Request_incomplete: "incomplete b \<Longrightarrow> hw_disk (snd (snd (Request answer e (b, w)))) = hw_disk w"
  by (simp add: Request_def ReportAndDisconnect_incomplete split: Answer.split)

lemma HandlePendingFileWrite_busy: "hb_BoxWriteRequests b \<noteq> [] \<Longrightarrow> HandlePendingFileWrite force (b, w) = (b, w)"
  by (simp add: HandlePendingFileWrite_def)

lemma WriteChunk_disk:
  assumes "hb_BoxWriteRequests b = request # rest"
  shows "hw_disk (snd (WriteChunk answer request rest (b, w))) = hw_disk w"
proof -
  let ?b = "b\<lparr>hb_WaitingForBoxWrite := True\<rparr>"
  have "incomplete ?b" using assms by (simp add: incomplete_def)
  then have "hw_disk (snd (snd (Request answer e (?b, access c w)))) = hw_disk w" for e c
    by (simp add: Request_incomplete)
  then show ?thesis by (simp add: WriteChunk_def Let_def split: prod.split bool.split) (metis snd_conv)
qed

lemma DoUpdate_busy: "hb_BoxWriteRequests b \<noteq> [] \<Longrightarrow> hw_disk (snd (DoUpdate answer (b, w))) = hw_disk w"
  by (cases "hb_BoxWriteRequests b") (simp_all add: DoUpdate_def PumpWriteMonBox_def WriteChunk_disk)

text \<open>
  C27. The file never runs ahead of the game: while a box is still being written into the game, no update
  and no disconnect touches the disk, whatever becomes of the requests. A disconnect then reports that
  the transfer stopped, drops what was queued and cancels the save, so the file keeps the state from
  before the transfer.
\<close>

theorem home_box_saves_after_transfers:
  assumes "home_reachable dataDirectory (b, w)" and "incomplete b"
  shows "hw_disk (snd (HomeOnUpdate dataDirectory answer (b, w))) = hw_disk w
    \<and> HomeOnDetach (b, w) = (b\<lparr>hb_BoxWriteRequests := [], hb_HasPendingFileWrite := False\<rparr>, effect transferStopped w)"
proof -
  have q: "hb_BoxWriteRequests b \<noteq> []" using assms(2) by (auto simp: incomplete_def)
  have st: "hb_State b = Update"
    using home_reachable_inv [OF assms(1)] q by (cases "hb_State b") (simp_all add: home_inv_def)
  have "hw_disk (snd (HomeOnUpdate dataDirectory answer (b, w))) = hw_disk w"
    using q st ReportAndDisconnect_incomplete [OF assms(2)] DoUpdate_busy [OF q]
    by (simp add: HomeOnUpdate_def HandlePendingFileWrite_busy)
  with HomeOnDetach_incomplete [OF assms(2)] show ?thesis by blast
qed

section \<open>A whole transfer\<close>

text \<open>The writes of a box as the specification has them: consecutive chunks of at most 1024 bytes.\<close>

function box_writes :: "GameAddress \<Rightarrow> bytes \<Rightarrow> GameEffect list" where
  "box_writes a data = (if data = [] then []
     else WriteReq (CreateMessageId AnonymousChannel 0) a (take 1024 data)
       # box_writes (a + word_of_nat (min (length data) 1024)) (drop 1024 data))"
  by pat_completeness auto
termination by (relation "measure (\<lambda>(a, data). length data)") auto

declare box_writes.simps [simp del]

lemma box_writes_Nil [simp]: "box_writes a [] = []"
  by (simp add: box_writes.simps)

fun written_bytes :: "GameEffect \<Rightarrow> bytes" where
  "written_bytes (WriteReq i a bs) = bs" | "written_bytes _ = []"

lemma box_writes_bytes: "concat (map written_bytes (box_writes a data)) = data"
  by (induction a data rule: box_writes.induct) (subst box_writes.simps, simp)

text \<open>An update in the state \<^const>\<open>Update\<close> followed by the completion of the write it made.\<close>

definition transfer_round :: "(GameEffect \<Rightarrow> Answer) \<Rightarrow> Home \<Rightarrow> Home" where
  "transfer_round answer s = (case PumpWriteMonBox answer s of (_, b, w) \<Rightarrow> (b\<lparr>hb_WaitingForBoxWrite := False\<rparr>, w))"

lemma transfer_rounds:
  assumes "home_inv (b, w)" "hb_State b = Update" "\<not> hb_WaitingForBoxWrite b" "\<forall>e. answer e = Accepted"
    and "hb_BoxWriteRequests b = request # rest"
    and "data = drop (wr_offset request) (bd_pokemonData (hb_ActiveBoxData b ! wr_data request))"
    and "a = GetPokemonStoragePtr (hw_memory w) + hdr ''homeDestMonSize'' w * wr_boxId request + word_of_nat (wr_offset request)"
  shows "\<exists>k. (transfer_round answer ^^ k) (b, w) = (b\<lparr>hb_BoxWriteRequests := rest\<rparr>,
      w\<lparr>hw_effects := hw_effects w @ box_writes a data\<rparr>)"
  using assms
proof (induction "length data" arbitrary: b w request data a rule: less_induct)
  case less
  from less.prems(1,2) have i: "state_inv Update b w" by (simp add: home_inv_def)
  then have act: "active_inv b w" and r: "request_ok w request" using less.prems(5) by simp_all
  have inside: "wr_data request < length (hb_ActiveBoxData b)" using r act by (simp add: request_ok_def active_inv_def)
  then have "box_sized w (hb_ActiveBoxData b ! wr_data request)" using act by (simp add: active_inv_def)
  then have len: "length data = wr_bytesRemaining request" and whole: "wr_offset request + length data = length (bd_pokemonData (hb_ActiveBoxData b ! wr_data request))"
    using r by (auto simp: less.prems(6) box_sized_def request_ok_def)
  show ?case
  proof (cases "data = []")
    case True
    have "(transfer_round answer ^^ 1) (b, w) = (b\<lparr>hb_BoxWriteRequests := rest\<rparr>, w\<lparr>hw_effects := hw_effects w @ box_writes a data\<rparr>)"
      using less.prems len True by (simp add: transfer_round_def PumpWriteMonBox_def)
    then show ?thesis by blast
  next
    case False
    let ?n = "min (length data) 1024"
    let ?request = "request\<lparr>wr_bytesRemaining := wr_bytesRemaining request - ?n, wr_offset := wr_offset request + ?n\<rparr>"
    let ?b = "b\<lparr>hb_BoxWriteRequests := ?request # rest\<rparr>"
    let ?e = "WriteReq (CreateMessageId AnonymousChannel 0) a (take 1024 data)"
    let ?w = "w\<lparr>hw_effects := hw_effects w @ [?e]\<rparr>"
    have chunk: "take ?n data = take 1024 data" by (simp add: min_def)
    have acc: "access True w = w" by (simp add: access_def)
    have rem: "wr_bytesRemaining request \<noteq> 0" using len False by (metis length_0_conv)
    have bound: "wr_offset request + min (wr_bytesRemaining request) 1024 \<le> length (bd_pokemonData (hb_ActiveBoxData b ! wr_data request))"
      using whole len by (auto simp: min_def)
    have step: "transfer_round answer (b, w) = (?b, ?w)"
      using less.prems(3-5,7) inside chunk rem bound
      by (simp add: len less.prems(6) [symmetric] transfer_round_def PumpWriteMonBox_def WriteChunk_def Let_def Request_def effect_def acc)
    have inv': "home_inv (?b, ?w)"
      using i less.prems(1,2,5) len r by (simp add: home_inv_def loaded_inv_def active_inv_def request_ok_def headerLayout_def box_sized_def)
    have data': "drop 1024 data = drop (wr_offset ?request) (bd_pokemonData (hb_ActiveBoxData ?b ! wr_data ?request))"
      using less.prems(6) by (simp add: add.commute min_def)
    have "length (drop 1024 data) < length data" using False by simp
    from less.hyps [OF this inv' _ _ less.prems(4) _ data' refl] less.prems(2,3)
    obtain k where k: "(transfer_round answer ^^ k) (?b, ?w) = (?b\<lparr>hb_BoxWriteRequests := rest\<rparr>,
        ?w\<lparr>hw_effects := hw_effects ?w @ box_writes (GetPokemonStoragePtr (hw_memory ?w) + hdr ''homeDestMonSize'' ?w * wr_boxId ?request
          + word_of_nat (wr_offset ?request)) (drop 1024 data)\<rparr>)" by auto
    have "box_writes a data = ?e # box_writes (a + word_of_nat ?n) (drop 1024 data)"
      using False by (subst box_writes.simps) simp
    then have "(transfer_round answer ^^ Suc k) (b, w) = (b\<lparr>hb_BoxWriteRequests := rest\<rparr>,
        w\<lparr>hw_effects := hw_effects w @ box_writes a data\<rparr>)"
      using k step less.prems(7) by (simp add: funpow_swap1 add.assoc)
    then show ?thesis by blast
  qed
qed

text \<open>
  C28. A transfer writes the box, the whole box and nothing but the box: when the game accepts the writes,
  after finitely many updates the request is done, and the writes that were made for it are consecutive
  chunks of at most 1024 bytes from the address of the box's slot on, whose bytes together are the
  box's data.
\<close>

theorem home_box_transfer_writes_box:
  assumes "home_reachable dataDirectory (b, w)" and "hb_State b = Update" and "\<not> hb_WaitingForBoxWrite b"
    and "\<forall>e. answer e = Accepted" and "hb_BoxWriteRequests b = request # rest" and "wr_offset request = 0"
  shows "\<exists>k writes. (transfer_round answer ^^ k) (b, w)
      = (b\<lparr>hb_BoxWriteRequests := rest\<rparr>, w\<lparr>hw_effects := hw_effects w @ writes\<rparr>)
    \<and> writes = box_writes (GetPokemonStoragePtr (hw_memory w) + hdr ''homeDestMonSize'' w * wr_boxId request)
        (bd_pokemonData (hb_ActiveBoxData b ! wr_data request))
    \<and> concat (map written_bytes writes) = bd_pokemonData (hb_ActiveBoxData b ! wr_data request)"
  using transfer_rounds [OF home_reachable_inv [OF assms(1)] assms(2-5) refl refl]
  by (auto simp: assms(6) box_writes_bytes)

end
