(* ===== verification/HomeBoxExample.thy ===== *)
theory HomeBoxExample
  imports HomeBoxOrder
begin

text \<open>
  A run of the Home Box behaviour on a concrete game: two boxes, one of them in the game, which the player
  swaps. It shows that the properties of \<open>HomeBoxOrder\<close> apply.
\<close>

definition exampleHeader :: bytes where
  "exampleHeader = [0, 0, 0, 0, 3, 0, 0, 0] @ replicate 64 0 @
     [1, 0, 0, 0, 2, 0, 0, 0, 14, 0, 0, 0, 8, 0, 0, 0, 2, 0, 0, 0, 0, 0, 0, 0, 3, 0, 0, 0, 12, 0, 0, 0, 4, 0, 0, 0]
     @ replicate 24 0"

definition exampleState :: "bytes \<Rightarrow> bytes" where
  "exampleState order = [0, 0x30, 0, 2, 77, 0, 0, 0, 1, 2, 3, 4] @ order"

definition exampleMemory :: "bytes \<Rightarrow> ObservedBlob \<Rightarrow> ObservedGameMemory" where
  "exampleMemory order storage = newObservedGameMemory\<lparr>m_RogueHeader := filled exampleHeader,
     m_HomeBoxStatePtr := filled [0, 0x20, 0, 2], m_HomeBoxState := filled_blob (exampleState order),
     m_PokemonStorageData := storage\<rparr>"

definition emptyDisk :: Disk where
  "emptyDisk = \<lparr>files = Map.empty, directories = {}, events = [], osMessage = (\<lambda>_. []), successMessage = [],
     steadyClock = (\<lambda>_. 0), TemporaryFileSequence = 0, history = []\<rparr>"

definition exampleWorld :: "bytes \<Rightarrow> ObservedBlob \<Rightarrow> GameEffect list \<Rightarrow> HomeWorld" where
  "exampleWorld order storage effects = \<lparr>hw_memory = exampleMemory order storage, hw_disk = emptyDisk, hw_clock = (\<lambda>_. 0),
     hw_reads = 0, hw_effects = effects, hw_disconnected = False, hw_fault = False\<rparr>"

definition accepting :: "GameEffect \<Rightarrow> Answer" where
  "accepting e = Accepted"

lemma header_offsets:
  "field_offset RogueAssistantHeader ''homeLocalBoxCount'' 0 = Some 72"
  "field_offset RogueAssistantHeader ''homeTotalBoxCount'' 0 = Some 76"
  "field_offset RogueAssistantHeader ''homeMinimalBoxOffset'' 0 = Some 84"
  "field_offset RogueAssistantHeader ''homeMinimalBoxSize'' 0 = Some 88"
  "field_offset RogueAssistantHeader ''homeDestMonOffset'' 0 = Some 92"
  "field_offset RogueAssistantHeader ''homeDestMonSize'' 0 = Some 96"
  "field_offset RogueAssistantHeader ''homeRemoteIndexOrderOffset'' 0 = Some 100"
  "field_offset RogueAssistantHeader ''homeTrainerIdOffset'' 0 = Some 104"
  "field_offset RogueAssistantHeader ''rogueAssistantCompatVersion'' 0 = Some 4"
  "field_offset RogueAssistantHeader ''rogueVersion'' 0 = Some 0"
  by (simp_all add: RogueAssistantHeader_def align_up_def)

lemma header_values [simp]:
  "rogue_u32 ''homeLocalBoxCount'' (exampleMemory order storage) = 1"
  "rogue_u32 ''homeTotalBoxCount'' (exampleMemory order storage) = 2"
  "rogue_u32 ''homeBoxSize'' (exampleMemory order storage) = 14"
  "rogue_u32 ''homeMinimalBoxOffset'' (exampleMemory order storage) = 8"
  "rogue_u32 ''homeMinimalBoxSize'' (exampleMemory order storage) = 2"
  "rogue_u32 ''homeDestMonOffset'' (exampleMemory order storage) = 0"
  "rogue_u32 ''homeDestMonSize'' (exampleMemory order storage) = 3"
  "rogue_u32 ''homeRemoteIndexOrderOffset'' (exampleMemory order storage) = 12"
  "rogue_u32 ''homeTrainerIdOffset'' (exampleMemory order storage) = 4"
  "rogue_u32 ''rogueAssistantCompatVersion'' (exampleMemory order storage) = 3"
  by (simp_all add: rogue_u32_def exampleMemory_def field_u32_def header_offsets game_layout_offsets ReadLittle_u32
      exampleHeader_def nth_append)

lemma header_edition [simp]:
  "field_u8 RogueAssistantHeader ''rogueVersion'' (m_Value (m_RogueHeader (exampleMemory order storage))) = 0"
  by (simp add: exampleMemory_def field_u8_def header_offsets exampleHeader_def)

lemma memory_values [simp]:
  "ObservedBlob.m_Data (m_HomeBoxState (exampleMemory order storage)) = exampleState order"
  "m_PokemonStorageData (exampleMemory order storage) = storage"
  "address_value (m_HomeBoxStatePtr (exampleMemory order storage)) = 0x02002000"
  "IsHomeBoxStateValid (exampleMemory order storage)"
  by (simp_all add: exampleMemory_def filled_blob_def le_u32_def ReadLittle_u32 IsHomeBoxStateValid_def)

lemma example_layout: "length order = 2 \<Longrightarrow> ValidateLayout (exampleWorld order storage effects)"
  by (simp add: ValidateLayout_def ValidateHomeBoxLayout_Ok headerLayout_def exampleWorld_def blob_size_def exampleState_def)

lemma example_pointer [simp]: "GetPokemonStoragePtr (exampleMemory order storage) = 0x02003000"
  by (simp add: GetPokemonStoragePtr_def exampleState_def ReadLittle_u32)

definition exampleBox :: BoxData where
  "exampleBox = \<lparr>bd_minimalData = [1, 2], bd_pokemonData = [7, 8, 9]\<rparr>"

definition exampleStored :: BoxData where
  "exampleStored = \<lparr>bd_minimalData = [0, 0], bd_pokemonData = [0, 0, 0]\<rparr>"

definition exampleDims :: HomeBoxDimensions where
  "exampleDims = \<lparr>hbRomAssistantApi = 3, hbEdition = 0, hbTrainerId = 77, remoteBoxCount = 1, metadataSize = 2,
     pokemonDataSize = 3\<rparr>"

definition exampleBehaviour :: "HomeState \<Rightarrow> BoxData list \<Rightarrow> u8 list \<Rightarrow> BoxWriteRequest list \<Rightarrow> u32 \<Rightarrow> bool \<Rightarrow> HomeBoxBehaviour" where
  "exampleBehaviour st active order requests i pending =
     \<lparr>hb_State = st, hb_Dimensions = exampleDims, hb_LocalBoxCount = 1, hb_LocalActiveBoxIndices = order,
      hb_RemoteActiveBoxIndices = order, hb_ActiveBoxData = active, hb_StoredBoxData = [exampleStored],
      hb_BoxWriteRequests = requests, hb_WaitingForBoxWrite = False, hb_InitialiseBoxWriteIndex = i,
      hb_WriteFilePath = ''d/0/77/boxes.dat'', hb_HasPendingFileWrite = pending, hb_RequiresReopen = False,
      hb_NextSaveAttempt = 0\<rparr>"

lemma example_world_sel [simp]:
  "hw_memory (exampleWorld order storage effects) = exampleMemory order storage"
  "hw_fault (exampleWorld order storage effects) = False" "hw_disk (exampleWorld order storage effects) = emptyDisk"
  "hw_disconnected (exampleWorld order storage effects) = False"
  "access True (exampleWorld order storage effects) = exampleWorld order storage effects"
  "effect e (exampleWorld order storage effects) = exampleWorld order storage (effects @ [e])"
  "(exampleWorld order storage effects)\<lparr>hw_memory := exampleMemory order' storage'\<rparr> = exampleWorld order' storage' effects"
  "(exampleWorld order storage effects)\<lparr>hw_disk := emptyDisk\<rparr> = exampleWorld order storage effects"
  by (simp_all add: exampleWorld_def access_def effect_def)

lemma example_load:
  "LoadHomeBoxFile ''d/0/77/boxes.dat'' exampleDims emptyDisk = (emptyLoadResult\<lparr>primaryMissing := True\<rparr>, emptyDisk)"
  by (simp add: LoadHomeBoxFile_def ValidateDimensions_def exampleDims_def SupportedRomAssistantApi_def RequiredAssistantApi_def
      IsSupportedEdition_def VanillaEdition_def ExEdition_def CalculateFileSize_def CheckedAdd_def CheckedMultiply_def
      HeaderSize_def FooterSize_def MaximumHomeBoxFileSize_def MaximumHomeBoxRecordCount_def MaximumHomeBoxRecordDataSize_def
      size_max_def os_exists_def nextEvent_def emptyDisk_def LoadBackup_def HomeBoxBackupPath_def emptyLoadResult_def Let_def)

lemma replicates: "replicate 2 x = [x, x]" "replicate 3 x = [x, x, x]"
  by (simp_all add: eval_nat_numeral)

lemma example_open:
  "HomeOnUpdate ''d'' accepting (HomeOnAttach, exampleWorld [255, 255] (newBlob 0) []) =
     (exampleBehaviour InitialiseBoxData [] [] [] 1 False, exampleWorld [255, 255] (newBlob 0) [])"
proof -
  have path: "append_path (append_path (append_path ''d'' (to_string 0)) (to_string 77)) ''boxes.dat'' = ''d/0/77/boxes.dat''"
    by (simp add: append_path_def to_string.simps digit_chars)
  have dims: "headerDimensions 77 (exampleWorld [255, 255] (newBlob 0) []) = exampleDims"
    by (simp add: headerDimensions_def exampleDims_def)
  have prep: "PrepareLoad ''d'' 77 (HomeOnAttach, exampleWorld [255, 255] (newBlob 0) []) =
      exampleBehaviour OpenOfflineFile [] [] [] 0 False"
    by (simp add: PrepareLoad_def dims Let_def HomeOnAttach_def exampleBehaviour_def path)
      (simp add: exampleDims_def exampleStored_def path replicates)
  have trainer: "ReadLittle (exampleState [255, 255]) 4 = (True, 77 :: u32)"
    by (simp add: exampleState_def ReadLittle_u32)
  have last: "lastOrderEntry (exampleWorld [255, 255] (newBlob 0) []) = (255, exampleWorld [255, 255] (newBlob 0) [])"
    by (simp add: lastOrderEntry_def exampleState_def)
  have load: "LoadOfflineData ''d'' 77 (HomeOnAttach, exampleWorld [255, 255] (newBlob 0) []) =
      (exampleBehaviour InitialiseBoxData [] [] [] 1 False, exampleWorld [255, 255] (newBlob 0) [])"
    unfolding LoadOfflineData_def prep
    by (simp add: exampleBehaviour_def example_load FinishLoad_def StartBoxData_def Succeeded_def NotFound_def emptyLoadResult_def)
  show ?thesis
    by (simp add: HomeOnUpdate_def example_layout HandlePendingFileWrite_def HomeOnAttach_def)
      (simp add: HomeOnAttach_def [symmetric] DoOpen_def last trainer load)
qed

definition exampleRequests :: "GameEffect list" where
  "exampleRequests = [ReadReq (CommonReadId GamePokemonStorageData) 0x02003000 3]"

definition exampleWrites :: "GameEffect list" where
  "exampleWrites = exampleRequests @ [WriteReq 0 0x0200200A [0, 0], WriteReq 0 0x0200200C [0, 1]]"

lemma anonymous_id [simp]: "CreateMessageId AnonymousChannel 0 = 0"
  by (simp add: CreateMessageId_def AnonymousChannel_def)

lemma example_update:
  "length order = 2 \<Longrightarrow> HomeOnUpdate ''d'' accepting (exampleBehaviour st active indices requests i False, exampleWorld order storage effects) =
     (case st of OpenOfflineFile \<Rightarrow> DoOpen ''d'' | InitialiseBoxData \<Rightarrow> DoInitialise accepting | WaitingForBoxData \<Rightarrow> DoWaitBox
       | SendGameDataInit \<Rightarrow> DoSend accepting | WaitForInit \<Rightarrow> DoWaitInit | Update \<Rightarrow> DoUpdate accepting)
     (exampleBehaviour st active indices requests i False, exampleWorld order storage effects)"
  by (simp add: HomeOnUpdate_def example_layout HandlePendingFileWrite_def) (simp add: exampleBehaviour_def split: HomeState.split)

lemma behaviour_sel [simp]:
  "hb_State (exampleBehaviour st active order requests i p) = st"
  "hb_ActiveBoxData (exampleBehaviour st active order requests i p) = active"
  "hb_LocalBoxCount (exampleBehaviour st active order requests i p) = 1"
  "hb_StoredBoxData (exampleBehaviour st active order requests i p) = [exampleStored]"
  "hb_InitialiseBoxWriteIndex (exampleBehaviour st active order requests i p) = i"
  "hb_BoxWriteRequests (exampleBehaviour st active order requests i p) = requests"
  "hb_WaitingForBoxWrite (exampleBehaviour st active order requests i p) = False"
  "hb_LocalActiveBoxIndices (exampleBehaviour st active order requests i p) = order"
  "hb_RemoteActiveBoxIndices (exampleBehaviour st active order requests i p) = order"
  "hb_Dimensions (exampleBehaviour st active order requests i p) = exampleDims"
  by (simp_all add: exampleBehaviour_def)

lemma example_request:
  "DoInitialise accepting (exampleBehaviour InitialiseBoxData [] [] [] 1 False, exampleWorld [255, 255] (newBlob 0) []) =
     (exampleBehaviour WaitingForBoxData [emptyBox] [] [] 1 False,
      exampleWorld [255, 255] (BlobResize 3 (newBlob 0)) exampleRequests)"
proof -
  have m: "(exampleMemory [255, 255] b)\<lparr>m_PokemonStorageData := c\<rparr> = exampleMemory [255, 255] c" for b c
    by (simp add: exampleMemory_def)
  have "RequestPokemonStorageData (\<lambda>e. accepting e = Accepted) 0 (exampleMemory [255, 255] (newBlob 0)) =
      (True, exampleRequests, exampleMemory [255, 255] (BlobResize 3 (newBlob 0)))"
    by (simp add: RequestPokemonStorageData_def accepting_def exampleRequests_def m)
  then show ?thesis
    by (simp add: DoInitialise_def RequestStorage_def exampleRequests_def Request_def accepting_def)
      (simp add: exampleBehaviour_def)
qed

lemma example_box:
  "DoWaitBox (exampleBehaviour WaitingForBoxData [emptyBox] [] [] 1 False, exampleWorld [255, 255] (filled_blob [7, 8, 9]) exampleRequests) =
     (exampleBehaviour InitialiseBoxData [exampleBox] [] [] 1 False, exampleWorld [255, 255] (filled_blob [7, 8, 9]) exampleRequests)"
  by (simp add: DoWaitBox_def InitialiseLocalBoxData_def filled_blob_def exampleState_def)
    (simp add: exampleBehaviour_def exampleBox_def)

lemma example_boxes:
  "DoInitialise accepting (exampleBehaviour InitialiseBoxData [exampleBox] [] [] 1 False,
      exampleWorld [255, 255] (filled_blob [7, 8, 9]) exampleRequests) =
     (exampleBehaviour SendGameDataInit [exampleBox, exampleStored] [] [] 1 False,
      exampleWorld [255, 255] (filled_blob [7, 8, 9]) exampleRequests)"
  by (simp add: DoInitialise_def) (simp add: exampleBehaviour_def)

lemma example_send:
  "DoSend accepting (exampleBehaviour SendGameDataInit [exampleBox, exampleStored] [] [] 1 False,
      exampleWorld [255, 255] (filled_blob [7, 8, 9]) exampleRequests) =
     (exampleBehaviour WaitForInit [exampleBox, exampleStored] [0, 1] [] 2 False,
      exampleWorld [255, 255] (filled_blob [7, 8, 9]) exampleWrites)"
  by (simp add: DoSend_def WriteMinimalBox_def Request_def accepting_def exampleStored_def SendOrder_def exampleWrites_def
      upt_rec Let_def) (simp add: exampleBehaviour_def exampleStored_def)

lemma example_ready:
  "DoWaitInit (exampleBehaviour WaitForInit active order [] 2 False, exampleWorld [0, 1] storage effects) =
     (exampleBehaviour Update active order [] 2 False, exampleWorld [0, 1] storage effects)"
  by (simp add: DoWaitInit_def lastOrderEntry_def exampleState_def) (simp add: exampleBehaviour_def)

lemma example_swap:
  "DoUpdate accepting (exampleBehaviour Update [exampleBox, exampleStored] [0, 1] [] 2 False, exampleWorld [1, 0] storage effects) =
     (exampleBehaviour Update [exampleBox, exampleStored] [1, 0]
        [\<lparr>wr_boxId = 0, wr_data = 1, wr_offset = 0, wr_bytesRemaining = 3\<rparr>] 2 True, exampleWorld [1, 0] storage effects)"
  by (simp add: DoUpdate_def PumpWriteMonBox_def exampleState_def ValidateIndexOrder_def exampleDims_def upt_rec FollowOrder_def
      BeginWriteMonBox_def Let_def) (simp add: exampleBehaviour_def exampleDims_def)

section \<open>The run is reachable\<close>

definition exampleSwapped :: Home where
  "exampleSwapped = (exampleBehaviour Update [exampleBox, exampleStored] [1, 0]
     [\<lparr>wr_boxId = 0, wr_data = 1, wr_offset = 0, wr_bytesRemaining = 3\<rparr>] 2 True,
     exampleWorld [1, 0] (filled_blob [7, 8, 9]) exampleWrites)"

lemma example_answers:
  "snd (OnRecieveMessage (CommonReadId GamePokemonStorageData) [7, 8, 9] (exampleMemory order (BlobResize 3 (newBlob 0))))
     = exampleMemory order (filled_blob [7, 8, 9])"
  "length order = 2 \<Longrightarrow> length order' = 2 \<Longrightarrow>
   snd (OnRecieveMessage (CommonReadId HomeBoxState) (exampleState order') (exampleMemory order storage)) = exampleMemory order' storage"
proof -
  have "OnRecieveMessage (CommonReadId GamePokemonStorageData) data m =
      ([], m\<lparr>m_PokemonStorageData := snd (BlobSetData data (m_PokemonStorageData m))\<rparr>)" for data m
    by (simp add: OnRecieveMessage_def CommonReadId_def del: ObservedMemoryIDValue.simps)
  moreover have "BlobSetData [7, 8, 9] (BlobResize 3 (newBlob 0)) = (True, filled_blob [7, 8, 9])"
    by (rule BlobSetData_filled) simp
  ultimately show "snd (OnRecieveMessage (CommonReadId GamePokemonStorageData) [7, 8, 9]
      (exampleMemory order (BlobResize 3 (newBlob 0)))) = exampleMemory order (filled_blob [7, 8, 9])"
    by simp (simp add: exampleMemory_def)
next
  assume len: "length order = 2" "length order' = 2"
  have "BlobSetData (exampleState order') (filled_blob (exampleState order)) = (True, filled_blob (exampleState order'))"
    by (rule BlobSetData_filled) (simp add: exampleState_def len)
  then show "snd (OnRecieveMessage (CommonReadId HomeBoxState) (exampleState order') (exampleMemory order storage))
      = exampleMemory order' storage"
    by (simp add: received) (simp add: exampleMemory_def)
qed

lemma reachable_update:
  "home_reachable ''d'' (b, exampleWorld order storage effects)
   \<Longrightarrow> HomeOnUpdate ''d'' accepting (b, exampleWorld order storage effects) = t \<Longrightarrow> home_reachable ''d'' t"
  using home_reachable.step home_step.update [of "exampleWorld order storage effects" "''d''" b accepting] by auto

lemma reachable_answer:
  assumes "home_reachable ''d'' (b, exampleWorld order storage effects)"
    and "snd (OnRecieveMessage i bytes (exampleMemory order storage)) = exampleMemory order' storage'"
  shows "home_reachable ''d'' (b, exampleWorld order' storage' effects)"
proof -
  have "home_step ''d'' (b, exampleWorld order storage effects)
      (b, (exampleWorld order storage effects)\<lparr>hw_memory := exampleMemory order' storage'\<rparr>)"
    by (rule home_step.answer [where messageId = i and bytes = bytes]) (simp_all add: assms(2), simp add: exampleMemory_def)
  with assms(1) show ?thesis using home_reachable.step by fastforce
qed

lemma exampleSwapped_reachable: "home_reachable ''d'' exampleSwapped"
proof -
  note go = reachable_update and got = reachable_answer
  have "home_reachable ''d'' (HomeOnAttach, exampleWorld [255, 255] (newBlob 0) [])" by (rule home_reachable.attach) simp
  from go [OF this example_open] have "home_reachable ''d'' (exampleBehaviour InitialiseBoxData [] [] [] 1 False,
      exampleWorld [255, 255] (newBlob 0) [])" .
  from go [OF this] have "home_reachable ''d'' (exampleBehaviour WaitingForBoxData [emptyBox] [] [] 1 False,
      exampleWorld [255, 255] (BlobResize 3 (newBlob 0)) exampleRequests)" by (simp add: example_update example_request)
  from got [OF this example_answers(1)] have "home_reachable ''d'' (exampleBehaviour WaitingForBoxData [emptyBox] [] [] 1 False,
      exampleWorld [255, 255] (filled_blob [7, 8, 9]) exampleRequests)" .
  from go [OF this] have "home_reachable ''d'' (exampleBehaviour InitialiseBoxData [exampleBox] [] [] 1 False,
      exampleWorld [255, 255] (filled_blob [7, 8, 9]) exampleRequests)" by (simp add: example_update example_box)
  from go [OF this] have "home_reachable ''d'' (exampleBehaviour SendGameDataInit [exampleBox, exampleStored] [] [] 1 False,
      exampleWorld [255, 255] (filled_blob [7, 8, 9]) exampleRequests)" by (simp add: example_update example_boxes)
  from go [OF this] have "home_reachable ''d'' (exampleBehaviour WaitForInit [exampleBox, exampleStored] [0, 1] [] 2 False,
      exampleWorld [255, 255] (filled_blob [7, 8, 9]) exampleWrites)" by (simp add: example_update example_send)
  from got [OF this example_answers(2) [where order' = "[0, 1]"]]
  have "home_reachable ''d'' (exampleBehaviour WaitForInit [exampleBox, exampleStored] [0, 1] [] 2 False,
      exampleWorld [0, 1] (filled_blob [7, 8, 9]) exampleWrites)" by simp
  from go [OF this] have "home_reachable ''d'' (exampleBehaviour Update [exampleBox, exampleStored] [0, 1] [] 2 False,
      exampleWorld [0, 1] (filled_blob [7, 8, 9]) exampleWrites)" by (simp add: example_update example_ready)
  from got [OF this example_answers(2) [where order' = "[1, 0]"]]
  have "home_reachable ''d'' (exampleBehaviour Update [exampleBox, exampleStored] [0, 1] [] 2 False,
      exampleWorld [1, 0] (filled_blob [7, 8, 9]) exampleWrites)" by simp
  from go [OF this] show ?thesis by (simp add: example_update example_swap exampleSwapped_def)
qed

section \<open>Witnesses\<close>


theorem home_box_nothing_lost_witness:
  "\<exists>rs. CollectRecords (fst exampleSwapped) 1 0 = Some rs \<and> map record_box rs = [exampleBox]"
  using home_box_nothing_lost [of "''d''" "fst exampleSwapped" "snd exampleSwapped"] exampleSwapped_reachable
  by (auto simp: exampleSwapped_def slot_box_def exampleDims_def)

theorem home_box_saves_after_transfers_witness:
  "hb_HasPendingFileWrite (fst exampleSwapped)
   \<and> hw_disk (snd (HomeOnUpdate ''d'' (\<lambda>e. Rejected) exampleSwapped)) = emptyDisk"
  using home_box_saves_after_transfers [of "''d''" "fst exampleSwapped" "snd exampleSwapped" "\<lambda>e. Rejected"]
    exampleSwapped_reachable
  by (simp add: exampleSwapped_def incomplete_def) (simp add: exampleBehaviour_def)

theorem home_box_transfer_writes_box_witness:
  "\<exists>k. hw_effects (snd ((transfer_round accepting ^^ k) exampleSwapped)) = exampleWrites @ [WriteReq 0 0x02003000 [0, 0, 0]]"
proof -
  let ?r = "\<lparr>wr_boxId = 0, wr_data = 1, wr_offset = 0, wr_bytesRemaining = 3\<rparr>"
  have writes: "box_writes 0x02003000 [0, 0, 0] = [WriteReq 0 0x02003000 [0, 0, 0]]" by (simp add: box_writes.simps [of _ "_ # _"])
  have reach: "home_reachable ''d'' (fst exampleSwapped, snd exampleSwapped)" using exampleSwapped_reachable by simp
  have "\<exists>k writes. (transfer_round accepting ^^ k) (fst exampleSwapped, snd exampleSwapped)
      = ((fst exampleSwapped)\<lparr>hb_BoxWriteRequests := []\<rparr>, (snd exampleSwapped)\<lparr>hw_effects := hw_effects (snd exampleSwapped) @ writes\<rparr>)
    \<and> writes = box_writes (GetPokemonStoragePtr (hw_memory (snd exampleSwapped))
          + hdr ''homeDestMonSize'' (snd exampleSwapped) * wr_boxId ?r)
        (bd_pokemonData (hb_ActiveBoxData (fst exampleSwapped) ! wr_data ?r))
    \<and> concat (map written_bytes writes) = bd_pokemonData (hb_ActiveBoxData (fst exampleSwapped) ! wr_data ?r)"
    by (rule home_box_transfer_writes_box [OF reach]) (simp_all add: exampleSwapped_def accepting_def)
  then obtain k where "(transfer_round accepting ^^ k) (fst exampleSwapped, snd exampleSwapped)
      = ((fst exampleSwapped)\<lparr>hb_BoxWriteRequests := []\<rparr>,
         (snd exampleSwapped)\<lparr>hw_effects := hw_effects (snd exampleSwapped) @ [WriteReq 0 0x02003000 [0, 0, 0]]\<rparr>)"
    by (auto simp: exampleSwapped_def exampleStored_def writes)
  then have "hw_effects (snd ((transfer_round accepting ^^ k) exampleSwapped)) = hw_effects (snd exampleSwapped) @ [WriteReq 0 0x02003000 [0, 0, 0]]"
    by simp
  moreover have "hw_effects (snd exampleSwapped) = exampleWrites" by (simp add: exampleSwapped_def exampleWorld_def)
  ultimately show ?thesis by auto
qed

end
