(* ===== verification/UiModel.thy ===== *)
theory UiModel
  imports GameMemory
begin

text \<open>
  The data the user interface and the session exchange: \<^verbatim>\<open>RogueAssistantCpp/Inc/Application/UiModel.h\<close>,
  the interface \<^verbatim>\<open>ISessionRuntime\<close>, and the redraw rule of \<^verbatim>\<open>Inc/UI/RefreshState.h\<close>.
\<close>

section \<open>Snapshots and commands\<close>

definition MaximumPendingUiCommands :: nat where "MaximumPendingUiCommands = 256"

datatype WorkerState = WsStarting | WsRunning | WsStopping | WsStopped | WsFailed

datatype UiPage = PageAwaiting | PageMultiplayer | PageHomeBox

record MultiplayerSnapshot =
  requestingHost :: bool
  awaitingAddress :: bool
  isConnected :: bool
  port :: u16

record HomeBoxSnapshot =
  loading :: bool
  saving :: bool
  requiresReopen :: bool

record ConnectionSnapshot =
  conn_id :: u64
  page :: UiPage
  multiplayer :: MultiplayerSnapshot
  homeBox :: HomeBoxSnapshot

record UiSnapshot =
  revision :: u64
  workerState :: WorkerState
  transportState :: TransportState
  connections :: "ConnectionSnapshot list"
  snap_error :: string
  multiplayerHostPort :: string
  multiplayerJoinAddress :: string
  bridgePort :: u16
  bridgeScriptPath :: string
  bridgeMessage :: string

definition defaultUiSnapshot :: UiSnapshot where
  "defaultUiSnapshot =
     \<lparr>revision = 0, workerState = WsStarting, transportState = Disconnected, connections = [], snap_error = [],
      multiplayerHostPort = ''30025'', multiplayerJoinAddress = [], bridgePort = 30125, bridgeScriptPath = [],
      bridgeMessage = []\<rparr>"

datatype UiCommandType = ProvideMultiplayerAddress | SetBridgePort | ExportBridgeScript

record UiCommand =
  cmd_type :: UiCommandType
  connectionId :: u64
  cmd_value :: string

section \<open>The session runtime\<close>

text \<open>What a call of the runtime can throw: an exception with a text, or anything else.\<close>

datatype Thrown = StdException string | UnknownThrown

record 'r ISessionRuntime =
  rtStart :: "'r \<Rightarrow> Thrown option \<times> 'r"
  rtHandleCommand :: "UiCommand \<Rightarrow> 'r \<Rightarrow> Thrown option \<times> 'r"
  rtTick :: "'r \<Rightarrow> Thrown option \<times> 'r"
  rtSnapshot :: "'r \<Rightarrow> Thrown + UiSnapshot"
  rtStop :: "'r \<Rightarrow> Thrown option \<times> 'r"

section \<open>When to redraw\<close>

record RefreshState =
  m_LastSnapshot :: "UiSnapshot option"
  m_AnimationFrame :: u32
  m_ConnectionIndex :: nat
  m_EditingPort :: bool

definition newRefreshState :: RefreshState where
  "newRefreshState = \<lparr>m_LastSnapshot = None, m_AnimationFrame = 0, m_ConnectionIndex = 0, m_EditingPort = False\<rparr>"

definition HasAnimation :: "UiSnapshot \<Rightarrow> nat \<Rightarrow> bool" where
  "HasAnimation snapshot connectionIndex =
     (if connections snapshot = [] then True
      else let connection = connections snapshot ! (connectionIndex mod length (connections snapshot)) in
        case page connection of
          PageMultiplayer \<Rightarrow> awaitingAddress (multiplayer connection) \<or> \<not> isConnected (multiplayer connection)
        | PageHomeBox \<Rightarrow> \<not> requiresReopen (homeBox connection)
            \<and> (loading (homeBox connection) \<or> saving (homeBox connection))
        | PageAwaiting \<Rightarrow> False)"

definition ShouldDraw :: "UiSnapshot \<Rightarrow> bool \<Rightarrow> u32 \<Rightarrow> nat \<Rightarrow> bool \<Rightarrow> RefreshState \<Rightarrow> bool \<times> RefreshState" where
  "ShouldDraw snapshot windowChanged animationFrame connectionIndex editingPort s =
     (let snapshot = snapshot\<lparr>revision := 0\<rparr>; animate = HasAnimation snapshot connectionIndex in
      if \<not> windowChanged \<and> m_LastSnapshot s = Some snapshot \<and> connectionIndex = m_ConnectionIndex s
         \<and> editingPort = m_EditingPort s \<and> (\<not> animate \<or> animationFrame = m_AnimationFrame s)
      then (False, s)
      else (True, \<lparr>m_LastSnapshot = Some snapshot, m_AnimationFrame = animationFrame,
                   m_ConnectionIndex = connectionIndex, m_EditingPort = editingPort\<rparr>))"

text \<open>One frame of the user interface: everything a drawing depends on.\<close>

record Frame_input =
  fi_snapshot :: UiSnapshot
  fi_changed :: bool
  fi_frame :: u32
  fi_index :: nat
  fi_editing :: bool

definition visible :: "Frame_input \<Rightarrow> UiSnapshot \<times> u32 \<times> nat \<times> bool" where
  "visible f = ((fi_snapshot f)\<lparr>revision := 0\<rparr>, if HasAnimation (fi_snapshot f) (fi_index f) then fi_frame f else 0,
     fi_index f, fi_editing f)"

text \<open>The screen after a run of frames: what was visible in the last frame that was drawn.\<close>

fun draw_run :: "Frame_input list \<Rightarrow> RefreshState \<Rightarrow> (UiSnapshot \<times> u32 \<times> nat \<times> bool) option
    \<Rightarrow> RefreshState \<times> (UiSnapshot \<times> u32 \<times> nat \<times> bool) option" where
  "draw_run [] s screen = (s, screen)"
| "draw_run (f # fs) s screen =
     (let (drawn, s) = ShouldDraw (fi_snapshot f) (fi_changed f) (fi_frame f) (fi_index f) (fi_editing f) s
      in draw_run fs s (if drawn then Some (visible f) else screen))"

definition screen_ok :: "RefreshState \<Rightarrow> (UiSnapshot \<times> u32 \<times> nat \<times> bool) option \<Rightarrow> bool" where
  "screen_ok s screen \<longleftrightarrow> (case m_LastSnapshot s of None \<Rightarrow> screen = None
     | Some snapshot \<Rightarrow> screen = Some (snapshot, if HasAnimation snapshot (m_ConnectionIndex s) then m_AnimationFrame s else 0,
         m_ConnectionIndex s, m_EditingPort s))"

lemma HasAnimation_revision [simp]: "HasAnimation (s\<lparr>revision := r\<rparr>) i = HasAnimation s i"
  by (simp add: HasAnimation_def)

lemma ShouldDraw_screen:
  assumes "screen_ok s screen"
    and "ShouldDraw (fi_snapshot f) (fi_changed f) (fi_frame f) (fi_index f) (fi_editing f) s = (drawn, s')"
  shows "screen_ok s' (if drawn then Some (visible f) else screen)
    \<and> (if drawn then Some (visible f) else screen) = Some (visible f)"
  using assms by (auto simp: ShouldDraw_def screen_ok_def visible_def Let_def split: if_splits option.splits)

lemma draw_run_screen:
  "screen_ok s screen \<Longrightarrow> draw_run fs s screen = (s', screen') \<Longrightarrow>
   screen_ok s' screen' \<and> (fs \<noteq> [] \<longrightarrow> screen' = Some (visible (last fs)))"
proof (induction fs arbitrary: s screen)
  case (Cons f fs)
  obtain drawn s1 where d: "ShouldDraw (fi_snapshot f) (fi_changed f) (fi_frame f) (fi_index f) (fi_editing f) s = (drawn, s1)"
    by (metis surj_pair)
  note step = ShouldDraw_screen [OF Cons.prems(1) d]
  from Cons.prems(2) d have run: "draw_run fs s1 (if drawn then Some (visible f) else screen) = (s', screen')" by simp
  from Cons.IH [OF conjunct1 [OF step] run] step run show ?case by (cases fs) (auto split: if_splits)
qed simp

text \<open>
  Skipping frames never shows: after any run of frames, the screen shows what the last frame would
  have drawn, up to the animation frame of a page that has no animation. A frame is skipped only
  when the window is unchanged and the frame would draw what is on the screen already; the
  revision number, which changes with every tick of the worker, never causes a redraw.
\<close>

theorem screen_up_to_date:
  "snd (draw_run (fs @ [f]) newRefreshState None) = Some (visible f)
   \<and> (let s = fst (draw_run (fs @ [f]) newRefreshState None)
      in \<not> fst (ShouldDraw ((fi_snapshot f)\<lparr>revision := r\<rparr>) False (fi_frame f) (fi_index f) (fi_editing f) s))"
proof -
  obtain s' screen' where run: "draw_run (fs @ [f]) newRefreshState None = (s', screen')" by (metis surj_pair)
  have "screen_ok newRefreshState None" by (simp add: screen_ok_def newRefreshState_def)
  from draw_run_screen [OF this run] have ok: "screen_ok s' screen'" "screen' = Some (visible f)" by auto
  then have "\<not> fst (ShouldDraw ((fi_snapshot f)\<lparr>revision := r\<rparr>) False (fi_frame f) (fi_index f) (fi_editing f) s')"
    by (auto simp: ShouldDraw_def screen_ok_def visible_def split: option.splits if_splits)
  with ok(2) run show ?thesis by (simp add: Let_def)
qed

end
