(* ===== verification/SessionWorker.thy ===== *)
theory SessionWorker
  imports UiModel
begin

text \<open>
  The worker thread: \<^verbatim>\<open>RogueAssistantCpp/Src/Application/SessionWorker.cpp\<close>.

  The threads interleave. The worker is a program counter with the locals of \<^verbatim>\<open>Run\<close>; each of its
  transitions is one call of the runtime, one access of shared memory, or one section under a
  mutex. Any number of other threads call \<^verbatim>\<open>Submit\<close> (a first look at the flag, then the section
  under the mutex, as two steps) and \<^verbatim>\<open>Stop\<close> (two stores, then the join, which waits for the
  worker to be \<open>Finished\<close>). The condition variable wakes at any time, which its timeout allows.
  The runtime is any \<^typ>\<open>'r ISessionRuntime\<close>, and each of its calls can throw.
\<close>

section \<open>State\<close>

datatype WorkerPc =
  AtStart                     \<comment> \<open>\<^verbatim>\<open>m_Runtime->Start()\<close>\<close>
| AtSnapshot                  \<comment> \<open>\<^verbatim>\<open>m_Runtime->Snapshot()\<close> of the loop or after the start\<close>
| AtPublish                   \<comment> \<open>\<^verbatim>\<open>Publish(lastSnapshot, Running)\<close>\<close>
| AtLoop                      \<comment> \<open>\<^verbatim>\<open>while (!stop_requested())\<close>\<close>
| AtTake                      \<comment> \<open>wait, then \<^verbatim>\<open>commands.swap(m_Commands)\<close>\<close>
| AtTaken "UiCommand list"    \<comment> \<open>\<^verbatim>\<open>if (stop_requested()) break\<close>\<close>
| AtHandle "UiCommand list"   \<comment> \<open>\<^verbatim>\<open>for (command : commands)\<close>\<close>
| AtTick                      \<comment> \<open>\<^verbatim>\<open>m_Runtime->Tick()\<close>\<close>
| AtRefuse                    \<comment> \<open>\<^verbatim>\<open>m_AcceptingCommands.store(false)\<close>\<close>
| AtPublishStopping
| AtStop                      \<comment> \<open>\<^verbatim>\<open>m_Runtime->Stop()\<close>\<close>
| AtLastSnapshot
| AtPublishFinal
| Finished

record 'r SessionWorker =
  m_Runtime :: 'r
  m_AcceptingCommands :: bool
  stop_requested :: bool
  m_Commands :: "UiCommand list"
  m_Snapshot :: UiSnapshot
  m_NextRevision :: u64
  w_pc :: WorkerPc
  w_finalState :: WorkerState
  w_failure :: string
  w_lastSnapshot :: UiSnapshot
  submitting :: "UiCommand list"
  h_accepted :: "UiCommand list"
  h_handled :: "UiCommand list"
  h_published :: "UiSnapshot list"

text \<open>
  \<open>submitting\<close> are the commands of calls of \<^verbatim>\<open>Submit\<close> between their two looks at the flag. The \<open>h_\<close>
  fields are history: what \<^verbatim>\<open>Submit\<close> returned true for, what the runtime was given, and every
  snapshot that was published.
\<close>

definition newSessionWorker :: "'r option \<Rightarrow> int \<Rightarrow> 'r SessionWorker result" where
  "newSessionWorker runtime tickInterval = (case runtime of
     None \<Rightarrow> Err ''SessionWorker requires a session runtime''
   | Some r \<Rightarrow>
     if tickInterval \<le> 0 then Err ''SessionWorker requires a positive tick interval''
     else Ok \<lparr>m_Runtime = r, m_AcceptingCommands = True, stop_requested = False, m_Commands = [],
        m_Snapshot = defaultUiSnapshot, m_NextRevision = 1, w_pc = AtStart, w_finalState = WsStopped,
        w_failure = [], w_lastSnapshot = defaultUiSnapshot, submitting = [], h_accepted = [], h_handled = [],
        h_published = []\<rparr>)"

section \<open>Operations\<close>

definition SubmitLocked :: "UiCommand \<Rightarrow> 'r SessionWorker \<Rightarrow> bool \<times> 'r SessionWorker" where
  "SubmitLocked command s =
     (if \<not> m_AcceptingCommands s \<or> length (m_Commands s) \<ge> MaximumPendingUiCommands then (False, s)
      else (True, s\<lparr>m_Commands := m_Commands s @ [command], h_accepted := h_accepted s @ [command]\<rparr>))"

definition Publish :: "UiSnapshot \<Rightarrow> WorkerState \<Rightarrow> string \<Rightarrow> 'r SessionWorker \<Rightarrow> 'r SessionWorker" where
  "Publish snapshot state failure s =
     (let snapshot = snapshot\<lparr>workerState := state\<rparr>;
          snapshot = (if failure \<noteq> [] then snapshot\<lparr>snap_error := failure\<rparr> else snapshot);
          snapshot = snapshot\<lparr>revision := m_NextRevision s\<rparr>
      in s\<lparr>m_NextRevision := m_NextRevision s + 1, m_Snapshot := snapshot, h_published := h_published s @ [snapshot]\<rparr>)"

text \<open>The handlers of the two \<^verbatim>\<open>try\<close> blocks.\<close>

definition CatchRun :: "Thrown \<Rightarrow> 'r SessionWorker \<Rightarrow> 'r SessionWorker" where
  "CatchRun e s = s\<lparr>w_pc := AtRefuse, w_finalState := WsFailed,
     w_failure := (case e of StdException what \<Rightarrow> what | UnknownThrown \<Rightarrow> ''The app stopped after an unknown error.'')\<rparr>"

definition CatchStop :: "Thrown \<Rightarrow> 'r SessionWorker \<Rightarrow> 'r SessionWorker" where
  "CatchStop e s = s\<lparr>w_pc := AtPublishFinal, w_finalState := WsFailed,
     w_failure := (if w_failure s = []
       then (case e of StdException what \<Rightarrow> what | UnknownThrown \<Rightarrow> ''The app could not stop correctly.'')
       else w_failure s)\<rparr>"

definition call :: "('r \<Rightarrow> Thrown option \<times> 'r) \<Rightarrow> (Thrown \<Rightarrow> 'r SessionWorker \<Rightarrow> 'r SessionWorker) \<Rightarrow> WorkerPc
    \<Rightarrow> 'r SessionWorker \<Rightarrow> 'r SessionWorker" where
  "call f handler next_pc s = (case f (m_Runtime s) of
     (None, r) \<Rightarrow> s\<lparr>m_Runtime := r, w_pc := next_pc\<rparr>
   | (Some e, r) \<Rightarrow> handler e (s\<lparr>m_Runtime := r\<rparr>))"

definition takeSnapshot :: "'r ISessionRuntime \<Rightarrow> (Thrown \<Rightarrow> 'r SessionWorker \<Rightarrow> 'r SessionWorker) \<Rightarrow> WorkerPc
    \<Rightarrow> 'r SessionWorker \<Rightarrow> 'r SessionWorker" where
  "takeSnapshot ops handler next_pc s = (case rtSnapshot ops (m_Runtime s) of
     Inr snapshot \<Rightarrow> s\<lparr>w_lastSnapshot := snapshot, w_pc := next_pc\<rparr>
   | Inl e \<Rightarrow> handler e s)"

text \<open>\<^verbatim>\<open>Run\<close>, one transition per program counter.\<close>

fun RunStep :: "'r ISessionRuntime \<Rightarrow> WorkerPc \<Rightarrow> 'r SessionWorker \<Rightarrow> 'r SessionWorker" where
  "RunStep ops AtStart s = call (rtStart ops) CatchRun AtSnapshot s"
| "RunStep ops AtSnapshot s = takeSnapshot ops CatchRun AtPublish s"
| "RunStep ops AtPublish s = (Publish (w_lastSnapshot s) WsRunning [] s)\<lparr>w_pc := AtLoop\<rparr>"
| "RunStep ops AtLoop s = (if stop_requested s then s\<lparr>w_pc := AtRefuse\<rparr> else s\<lparr>w_pc := AtTake\<rparr>)"
| "RunStep ops AtTake s = s\<lparr>m_Commands := [], w_pc := AtTaken (m_Commands s)\<rparr>"
| "RunStep ops (AtTaken commands) s =
     (if stop_requested s then s\<lparr>w_pc := AtRefuse\<rparr> else s\<lparr>w_pc := AtHandle commands\<rparr>)"
| "RunStep ops (AtHandle []) s = s\<lparr>w_pc := AtTick\<rparr>"
| "RunStep ops (AtHandle (command # commands)) s =
     call (rtHandleCommand ops command) CatchRun (AtHandle commands) (s\<lparr>h_handled := h_handled s @ [command]\<rparr>)"
| "RunStep ops AtTick s = call (rtTick ops) CatchRun AtSnapshot s"
| "RunStep ops AtRefuse s = s\<lparr>m_AcceptingCommands := False, w_pc := AtPublishStopping\<rparr>"
| "RunStep ops AtPublishStopping s = (Publish (w_lastSnapshot s) WsStopping (w_failure s) s)\<lparr>w_pc := AtStop\<rparr>"
| "RunStep ops AtStop s = call (rtStop ops) CatchStop AtLastSnapshot s"
| "RunStep ops AtLastSnapshot s = takeSnapshot ops CatchStop AtPublishFinal s"
| "RunStep ops AtPublishFinal s = (Publish (w_lastSnapshot s) (w_finalState s) (w_failure s) s)\<lparr>w_pc := Finished\<rparr>"
| "RunStep ops Finished s = s"

text \<open>One step of any thread.\<close>

inductive worker_step :: "'r ISessionRuntime \<Rightarrow> 'r SessionWorker \<Rightarrow> 'r SessionWorker \<Rightarrow> bool" for ops where
  worker: "w_pc s \<noteq> Finished \<Longrightarrow> worker_step ops s (RunStep ops (w_pc s) s)"
| submit_check: "m_AcceptingCommands s \<Longrightarrow> worker_step ops s (s\<lparr>submitting := command # submitting s\<rparr>)"
| submit_locked: "command \<in> set (submitting s) \<Longrightarrow>
    worker_step ops s (snd (SubmitLocked command (s\<lparr>submitting := remove1 command (submitting s)\<rparr>)))"
| stop_accepting: "worker_step ops s (s\<lparr>m_AcceptingCommands := False\<rparr>)"
| stop_request: "worker_step ops s (s\<lparr>stop_requested := True\<rparr>)"

inductive worker_reachable :: "'r ISessionRuntime \<Rightarrow> 'r \<Rightarrow> 'r SessionWorker \<Rightarrow> bool" for ops r where
  start: "newSessionWorker (Some r) tickInterval = Ok s \<Longrightarrow> worker_reachable ops r s"
| step: "worker_reachable ops r s \<Longrightarrow> worker_step ops s t \<Longrightarrow> worker_reachable ops r t"

inductive_cases worker_stepE: "worker_step ops s t"

section \<open>Commands\<close>

text \<open>The commands the worker has taken and not handled, and whether it has left its loop.\<close>

fun taken :: "WorkerPc \<Rightarrow> UiCommand list" where
  "taken (AtTaken commands) = commands" | "taken (AtHandle commands) = commands" | "taken pc = []"

fun leaving :: "WorkerPc \<Rightarrow> bool" where
  "leaving AtRefuse = True" | "leaving AtPublishStopping = True" | "leaving AtStop = True"
| "leaving AtLastSnapshot = True" | "leaving AtPublishFinal = True" | "leaving Finished = True" | "leaving pc = False"

definition commands_inv :: "'r SessionWorker \<Rightarrow> bool" where
  "commands_inv s \<longleftrightarrow> length (m_Commands s) \<le> 256 \<and> length (taken (w_pc s)) \<le> 256
     \<and> (\<exists>dropped. h_accepted s = h_handled s @ taken (w_pc s) @ dropped @ m_Commands s
          \<and> (dropped \<noteq> [] \<longrightarrow> leaving (w_pc s)))"

lemma Publish_sel [simp]:
  "m_Runtime (Publish a b c s) = m_Runtime s" "m_AcceptingCommands (Publish a b c s) = m_AcceptingCommands s"
  "stop_requested (Publish a b c s) = stop_requested s" "m_Commands (Publish a b c s) = m_Commands s"
  "w_pc (Publish a b c s) = w_pc s" "w_finalState (Publish a b c s) = w_finalState s"
  "w_failure (Publish a b c s) = w_failure s" "w_lastSnapshot (Publish a b c s) = w_lastSnapshot s"
  "h_accepted (Publish a b c s) = h_accepted s" "h_handled (Publish a b c s) = h_handled s"
  "submitting (Publish a b c s) = submitting s"
  by (simp_all add: Publish_def Let_def)

lemmas worker_calls = call_def takeSnapshot_def CatchRun_def CatchStop_def

lemma commands_inv_intro:
  "length (m_Commands s) \<le> 256 \<Longrightarrow> length (taken (w_pc s)) \<le> 256
   \<Longrightarrow> h_accepted s = h_handled s @ taken (w_pc s) @ dropped @ m_Commands s
   \<Longrightarrow> (dropped \<noteq> [] \<Longrightarrow> leaving (w_pc s)) \<Longrightarrow> commands_inv s"
  by (auto simp: commands_inv_def)

lemma RunStep_commands:
  assumes "commands_inv s" shows "commands_inv (RunStep ops (w_pc s) s)"
proof -
  from assms obtain dropped where inv: "length (m_Commands s) \<le> 256" "length (taken (w_pc s)) \<le> 256"
      "h_accepted s = h_handled s @ taken (w_pc s) @ dropped @ m_Commands s" "dropped \<noteq> [] \<longrightarrow> leaving (w_pc s)"
    by (auto simp: commands_inv_def)
  show ?thesis
  proof (cases "w_pc s")
    case (AtHandle commands)
    then show ?thesis
    proof (cases commands)
      case (Cons c cs)
      with AtHandle inv show ?thesis
        by (cases "rtHandleCommand ops c (m_Runtime s)"; cases "fst (rtHandleCommand ops c (m_Runtime s))")
          (auto simp: worker_calls intro: commands_inv_intro [where dropped = cs] commands_inv_intro [where dropped = "[]"])
    qed (use inv in \<open>auto simp: intro: commands_inv_intro [where dropped = "[]"]\<close>)
  next
    case (AtTaken commands)
    with inv show ?thesis
      by (auto intro: commands_inv_intro [where dropped = commands] commands_inv_intro [where dropped = "[]"])
  qed (use inv in \<open>auto simp: worker_calls split: option.splits prod.splits sum.splits
        intro: commands_inv_intro [where dropped = "[]"] commands_inv_intro [where dropped = dropped]\<close>)
qed

lemma SubmitLocked_sel:
  "m_Runtime (snd (SubmitLocked c s)) = m_Runtime s" "stop_requested (snd (SubmitLocked c s)) = stop_requested s"
  "w_pc (snd (SubmitLocked c s)) = w_pc s" "h_handled (snd (SubmitLocked c s)) = h_handled s"
  "h_published (snd (SubmitLocked c s)) = h_published s" "m_Snapshot (snd (SubmitLocked c s)) = m_Snapshot s"
  "m_NextRevision (snd (SubmitLocked c s)) = m_NextRevision s" "w_finalState (snd (SubmitLocked c s)) = w_finalState s"
  "w_failure (snd (SubmitLocked c s)) = w_failure s" "w_lastSnapshot (snd (SubmitLocked c s)) = w_lastSnapshot s"
  "m_AcceptingCommands (snd (SubmitLocked c s)) = m_AcceptingCommands s"
  by (simp_all add: SubmitLocked_def)

lemma SubmitLocked_commands: "commands_inv s \<Longrightarrow> commands_inv (snd (SubmitLocked c s))"
  by (auto simp: SubmitLocked_def commands_inv_def MaximumPendingUiCommands_def)

lemma worker_step_commands: "worker_step ops s t \<Longrightarrow> commands_inv s \<Longrightarrow> commands_inv t"
proof (induction rule: worker_step.induct)
  case (submit_locked command s)
  have "commands_inv (s\<lparr>submitting := remove1 command (submitting s)\<rparr>)"
    using submit_locked.prems by (simp add: commands_inv_def)
  then show ?case by (rule SubmitLocked_commands)
next
  case (worker s)
  show ?case by (rule RunStep_commands [OF worker.prems])
qed (simp_all add: commands_inv_def)

lemma worker_reachable_commands: "worker_reachable ops r s \<Longrightarrow> commands_inv s"
proof (induction rule: worker_reachable.induct)
  case (start tickInterval s)
  then show ?case by (auto simp: newSessionWorker_def commands_inv_def split: if_splits)
qed (rule worker_step_commands)

text \<open>
  C29. The command queue is a bounded FIFO whatever the threads do: at most 256 commands wait, the
  runtime is given accepted commands in the order they were accepted, each at most once, and none
  is skipped. Commands are lost only when the worker leaves its loop (a stop or an exception): what it had
  taken by then and what waits after that.
\<close>

theorem worker_commands_fifo:
  assumes "worker_reachable ops r s"
  shows "length (m_Commands s) \<le> MaximumPendingUiCommands
    \<and> (\<exists>rest. h_accepted s = h_handled s @ rest @ m_Commands s \<and> (\<not> leaving (w_pc s) \<longrightarrow> rest = taken (w_pc s)))"
  using worker_reachable_commands [OF assms]
  by (auto simp: commands_inv_def MaximumPendingUiCommands_def)

section \<open>Snapshots\<close>

fun closing :: "WorkerPc \<Rightarrow> WorkerState \<Rightarrow> WorkerState list" where
  "closing AtStop final = [WsStopping]" | "closing AtLastSnapshot final = [WsStopping]"
| "closing AtPublishFinal final = [WsStopping]" | "closing Finished final = [WsStopping, final]" | "closing pc final = []"

definition numbered :: "UiSnapshot list \<Rightarrow> bool" where
  "numbered ss \<longleftrightarrow> map revision ss = map (\<lambda>i. word_of_nat (i + 1)) [0..<length ss]"

definition snapshots_inv :: "'r SessionWorker \<Rightarrow> bool" where
  "snapshots_inv s \<longleftrightarrow> numbered (h_published s) \<and> m_NextRevision s = word_of_nat (length (h_published s) + 1)
     \<and> m_Snapshot s = last (defaultUiSnapshot # h_published s)
     \<and> (\<exists>n. map workerState (h_published s) = replicate n WsRunning @ closing (w_pc s) (w_finalState s))"

definition outcome_inv :: "'r SessionWorker \<Rightarrow> bool" where
  "outcome_inv s \<longleftrightarrow> (w_finalState s = WsStopped \<or> w_finalState s = WsFailed)
     \<and> (w_finalState s = WsStopped \<longrightarrow> w_failure s = [] \<and> (leaving (w_pc s) \<longrightarrow> stop_requested s))
     \<and> (\<not> leaving (w_pc s) \<longrightarrow> w_finalState s = WsStopped)
     \<and> (leaving (w_pc s) \<and> w_pc s \<noteq> AtRefuse \<longrightarrow> \<not> m_AcceptingCommands s)
     \<and> (w_pc s = Finished \<and> w_failure s \<noteq> [] \<longrightarrow> snap_error (m_Snapshot s) = w_failure s)"

lemma Publish_snapshots:
  assumes "snapshots_inv s" and "closing (w_pc s) (w_finalState s) = before"
    and "replicate n WsRunning @ before @ [state] = replicate m WsRunning @ closing pc (w_finalState s)"
    and "map workerState (h_published s) = replicate n WsRunning @ before"
  shows "snapshots_inv ((Publish snapshot state failure s)\<lparr>w_pc := pc\<rparr>)"
proof -
  have "map workerState (h_published (Publish snapshot state failure s)) = replicate m WsRunning @ closing pc (w_finalState s)"
    using assms(3,4) by (auto simp: Publish_def Let_def)
  moreover have "numbered (h_published (Publish snapshot state failure s))"
    using assms(1) by (auto simp: snapshots_inv_def numbered_def Publish_def Let_def)
  ultimately show ?thesis
    using assms(1) by (auto simp: snapshots_inv_def Publish_def Let_def)
qed

lemma snapshots_keep:
  assumes "snapshots_inv s" and "h_published t = h_published s" "m_NextRevision t = m_NextRevision s"
    "m_Snapshot t = m_Snapshot s" "closing (w_pc t) (w_finalState t) = closing (w_pc s) (w_finalState s)"
  shows "snapshots_inv t"
  using assms by (simp add: snapshots_inv_def)

lemma RunStep_snapshots:
  assumes inv: "snapshots_inv s" shows "snapshots_inv (RunStep ops (w_pc s) s)"
proof -
  from inv obtain n where n: "map workerState (h_published s) = replicate n WsRunning @ closing (w_pc s) (w_finalState s)"
    by (auto simp: snapshots_inv_def)
  show ?thesis
  proof (cases "w_pc s")
    case AtPublish
    have "snapshots_inv ((Publish (w_lastSnapshot s) WsRunning [] s)\<lparr>w_pc := AtLoop\<rparr>)"
      using n AtPublish by (intro Publish_snapshots [OF inv, where before = "[]" and m = "Suc n"])
        (auto simp flip: replicate_append_same)
    then show ?thesis by (simp add: AtPublish)
  next
    case AtPublishStopping
    have "snapshots_inv ((Publish (w_lastSnapshot s) WsStopping (w_failure s) s)\<lparr>w_pc := AtStop\<rparr>)"
      using n AtPublishStopping by (intro Publish_snapshots [OF inv, where before = "[]"]) auto
    then show ?thesis by (simp add: AtPublishStopping)
  next
    case AtPublishFinal
    have "snapshots_inv ((Publish (w_lastSnapshot s) (w_finalState s) (w_failure s) s)\<lparr>w_pc := Finished\<rparr>)"
      using n AtPublishFinal by (intro Publish_snapshots [OF inv, where before = "[WsStopping]"]) auto
    then show ?thesis by (simp add: AtPublishFinal)
  next
    case (AtHandle commands)
    then show ?thesis
      by (cases commands) (auto simp: worker_calls split: option.splits prod.splits intro!: snapshots_keep [OF inv])
  qed (auto simp: worker_calls split: option.splits prod.splits sum.splits intro!: snapshots_keep [OF inv])
qed

lemma worker_step_snapshots: "worker_step ops s t \<Longrightarrow> snapshots_inv s \<Longrightarrow> snapshots_inv t"
proof (induction rule: worker_step.induct)
  case (worker s)
  show ?case by (rule RunStep_snapshots [OF worker.prems])
qed (simp_all add: snapshots_inv_def SubmitLocked_sel)

lemma worker_step_outcome: "worker_step ops s t \<Longrightarrow> outcome_inv s \<Longrightarrow> outcome_inv t"
proof (induction rule: worker_step.induct)
  case (worker s)
  show ?case
  proof (cases "w_pc s")
    case (AtHandle commands)
    with worker show ?thesis
      by (cases commands) (auto simp: worker_calls outcome_inv_def split: option.splits prod.splits)
  qed (use worker in \<open>auto simp: worker_calls outcome_inv_def Publish_def Let_def
      split: option.splits prod.splits sum.splits\<close>)
qed (auto simp: outcome_inv_def SubmitLocked_sel)

lemma worker_reachable_snapshots: "worker_reachable ops r s \<Longrightarrow> snapshots_inv s \<and> outcome_inv s"
proof (induction rule: worker_reachable.induct)
  case (start tickInterval s)
  then show ?case
    by (auto simp: newSessionWorker_def snapshots_inv_def outcome_inv_def numbered_def split: if_splits)
next
  case (step s t)
  then show ?case by (blast intro: worker_step_snapshots worker_step_outcome)
qed

text \<open>
  C30. What the user interface sees of the worker: published snapshots carry the revisions
  1, 2, 3, ... without gaps, the current one is the last published, and their states are any number of
  Running, then one Stopping, then Stopped or Failed. The worker ends as Stopped only after a stop was
  requested and without an error; an error text is in the last snapshot. From the first snapshot
  that says Stopping on, no command is accepted.
\<close>

theorem worker_snapshots_ordered:
  assumes "worker_reachable ops r s"
  shows "map revision (h_published s) = map (\<lambda>i. word_of_nat (i + 1)) [0..<length (h_published s)]
    \<and> m_Snapshot s = last (defaultUiSnapshot # h_published s)
    \<and> (\<exists>n. map workerState (h_published s) = replicate n WsRunning @ closing (w_pc s) (w_finalState s))
    \<and> (w_pc s = Finished \<longrightarrow> w_finalState s \<in> {WsStopped, WsFailed}
        \<and> (w_finalState s = WsStopped \<longrightarrow> stop_requested s \<and> w_failure s = [])
        \<and> (w_failure s \<noteq> [] \<longrightarrow> snap_error (m_Snapshot s) = w_failure s))
    \<and> (closing (w_pc s) (w_finalState s) \<noteq> [] \<longrightarrow> \<not> fst (SubmitLocked command s))"
proof -
  have "closing (w_pc s) (w_finalState s) \<noteq> [] \<Longrightarrow> leaving (w_pc s) \<and> w_pc s \<noteq> AtRefuse"
    by (cases "w_pc s") auto
  with worker_reachable_snapshots [OF assms] show ?thesis
    by (auto simp: snapshots_inv_def outcome_inv_def numbered_def SubmitLocked_def)
qed

section \<open>Stopping\<close>

text \<open>At most how many steps of its own the worker takes after a stop request.\<close>

fun steps_left :: "WorkerPc \<Rightarrow> nat" where
  "steps_left Finished = 0" | "steps_left AtPublishFinal = 1" | "steps_left AtLastSnapshot = 2"
| "steps_left AtStop = 3" | "steps_left AtPublishStopping = 4" | "steps_left AtRefuse = 5"
| "steps_left AtLoop = 6" | "steps_left AtPublish = 7" | "steps_left AtSnapshot = 8" | "steps_left AtTick = 9"
| "steps_left AtStart = 9" | "steps_left (AtTaken commands) = 6" | "steps_left AtTake = 7"
| "steps_left (AtHandle commands) = 10 + length commands"

text \<open>\<open>worker_run ops k s t\<close>: any interleaving from \<open>s\<close> to \<open>t\<close> in which the worker takes \<open>k\<close> steps.\<close>

inductive worker_run :: "'r ISessionRuntime \<Rightarrow> nat \<Rightarrow> 'r SessionWorker \<Rightarrow> 'r SessionWorker \<Rightarrow> bool" for ops where
  none: "worker_run ops 0 s s"
| worker: "worker_run ops k s t \<Longrightarrow> w_pc t \<noteq> Finished \<Longrightarrow> worker_run ops (Suc k) s (RunStep ops (w_pc t) t)"
| other: "worker_run ops k s t \<Longrightarrow> worker_step ops t u \<Longrightarrow> w_pc u = w_pc t \<Longrightarrow> worker_run ops k s u"

lemma worker_step_stop_kept: "worker_step ops s t \<Longrightarrow> stop_requested s \<Longrightarrow> stop_requested t"
proof (induction rule: worker_step.induct)
  case (worker s)
  then show ?case
    by (cases "(ops, w_pc s, s)" rule: RunStep.cases)
      (auto simp: worker_calls split: option.splits prod.splits sum.splits)
qed (simp_all add: SubmitLocked_sel)

lemma RunStep_steps_left:
  assumes "stop_requested s" "w_pc s \<noteq> Finished"
  shows "steps_left (w_pc (RunStep ops (w_pc s) s)) < steps_left (w_pc s)"
  using assms by (cases "(ops, w_pc s, s)" rule: RunStep.cases)
    (auto simp: worker_calls split: option.splits prod.splits sum.splits)

text \<open>
  C31. Stopping takes a bounded number of steps: after a stop request, in every interleaving with other
  threads, the worker takes at most 10 steps more than the commands it is about to handle (so at most
  266) before it is finished, which is when the join of \<^verbatim>\<open>Stop\<close> returns; and while it is not
  finished it can always take the next step. No call of the runtime waits for another thread.
\<close>

theorem worker_stops:
  assumes "worker_reachable ops r s" and "stop_requested s" and "worker_run ops k s t"
  shows "k + steps_left (w_pc t) \<le> steps_left (w_pc s) \<and> k \<le> 10 + length (taken (w_pc s)) \<and> k \<le> 266
    \<and> (w_pc t \<noteq> Finished \<longrightarrow> worker_run ops (Suc k) s (RunStep ops (w_pc t) t))
    \<and> (k = steps_left (w_pc s) \<longrightarrow> w_pc t = Finished)"
proof -
  from assms(3,2) have run: "stop_requested t \<and> k + steps_left (w_pc t) \<le> steps_left (w_pc s)"
  proof (induction rule: worker_run.induct)
    case (worker k s t)
    with worker_step.worker [of t ops] worker_step_stop_kept [of ops t] RunStep_steps_left [of t ops]
    show ?case by fastforce
  next
    case (other k s t u)
    with worker_step_stop_kept [of ops t u] show ?case by auto
  qed simp
  have "steps_left (w_pc s) \<le> 10 + length (taken (w_pc s))" by (cases "w_pc s") auto
  moreover have "length (taken (w_pc s)) \<le> 256"
    using worker_reachable_commands [OF assms(1)] by (simp add: commands_inv_def)
  moreover have "w_pc t = Finished" if "steps_left (w_pc t) = 0" using that by (cases "w_pc t") auto
  ultimately show ?thesis using run worker_run.worker [OF assms(3)] by auto
qed

section \<open>An example\<close>

text \<open>A runtime that counts its calls and never throws, one command, and a stop after it was handled.\<close>

definition countingRuntime :: "nat ISessionRuntime" where
  "countingRuntime = \<lparr>rtStart = (\<lambda>n. (None, n + 1)), rtHandleCommand = (\<lambda>c n. (None, n + 1)), rtTick = (\<lambda>n. (None, n + 1)),
     rtSnapshot = (\<lambda>n. Inr defaultUiSnapshot), rtStop = (\<lambda>n. (None, n + 1))\<rparr>"

definition exampleCommand :: UiCommand where
  "exampleCommand = \<lparr>cmd_type = ExportBridgeScript, connectionId = 0, cmd_value = []\<rparr>"

definition exampleStart :: "nat SessionWorker" where
  "exampleStart = \<lparr>m_Runtime = 0, m_AcceptingCommands = True, stop_requested = False, m_Commands = [],
     m_Snapshot = defaultUiSnapshot, m_NextRevision = 1, w_pc = AtStart, w_finalState = WsStopped,
     w_failure = [], w_lastSnapshot = defaultUiSnapshot, submitting = [], h_accepted = [], h_handled = [],
     h_published = []\<rparr>"

definition exampleSubmitted :: "nat SessionWorker" where
  "exampleSubmitted = snd (SubmitLocked exampleCommand exampleStart)"

fun run_worker :: "nat \<Rightarrow> nat SessionWorker \<Rightarrow> nat SessionWorker" where
  "run_worker 0 s = s"
| "run_worker (Suc n) s = run_worker n (RunStep countingRuntime (w_pc s) s)"

definition exampleHandled :: "nat SessionWorker" where
  "exampleHandled = run_worker 7 exampleSubmitted"

definition exampleStopped :: "nat SessionWorker" where
  "exampleStopped = exampleHandled\<lparr>stop_requested := True\<rparr>"

lemma run_worker_reachable:
  "worker_reachable countingRuntime r s \<Longrightarrow> worker_reachable countingRuntime r (run_worker n s)"
proof (induction n arbitrary: s)
  case (Suc n)
  show ?case
  proof (cases "w_pc s = Finished")
    case True
    then have "RunStep countingRuntime (w_pc s) s = s" by simp
    with Suc show ?thesis by simp
  next
    case False
    from Suc.IH [OF worker_reachable.step [OF Suc.prems worker_step.worker [OF False]]] show ?thesis by simp
  qed
qed simp

lemma exampleStopped_reachable: "worker_reachable countingRuntime 0 exampleStopped"
proof -
  have "newSessionWorker (Some 0) 33 = Ok exampleStart" by (simp add: newSessionWorker_def exampleStart_def)
  then have "worker_reachable countingRuntime 0 exampleStart" by (rule worker_reachable.start)
  from worker_reachable.step [OF this worker_step.submit_check [of _ _ exampleCommand]]
  have "worker_reachable countingRuntime 0 (exampleStart\<lparr>submitting := [exampleCommand]\<rparr>)"
    by (simp add: exampleStart_def)
  from worker_reachable.step [OF this worker_step.submit_locked [of exampleCommand]]
  have "worker_reachable countingRuntime 0 exampleSubmitted"
    by (simp add: exampleStart_def exampleSubmitted_def)
  then have "worker_reachable countingRuntime 0 exampleHandled" unfolding exampleHandled_def by (rule run_worker_reachable)
  then show ?thesis unfolding exampleStopped_def by (rule worker_reachable.step [OF _ worker_step.stop_request])
qed

lemma exampleHandled_eq:
  "w_pc exampleStopped = AtHandle []" "h_handled exampleStopped = [exampleCommand]"
  "h_accepted exampleStopped = [exampleCommand]" "m_Commands exampleStopped = []" "stop_requested exampleStopped"
  "map workerState (h_published exampleStopped) = [WsRunning]"
  by (simp_all add: exampleStopped_def exampleHandled_def exampleSubmitted_def exampleStart_def SubmitLocked_def
      MaximumPendingUiCommands_def eval_nat_numeral countingRuntime_def call_def takeSnapshot_def Publish_def Let_def)

definition exampleFinished :: "nat SessionWorker" where
  "exampleFinished = run_worker 9 (RunStep countingRuntime (w_pc exampleStopped) exampleStopped)"

lemma exampleFinished_reachable: "worker_reachable countingRuntime 0 exampleFinished"
  unfolding exampleFinished_def
  by (rule run_worker_reachable)
    (rule worker_reachable.step [OF exampleStopped_reachable worker_step.worker], simp add: exampleHandled_eq)

lemma exampleFinished_eq:
  "w_pc exampleFinished = Finished"
  "map workerState (h_published exampleFinished) = [WsRunning, WsRunning, WsStopping, WsStopped]"
  "map revision (h_published exampleFinished) = [1, 2, 3, 4]"
  by (simp_all add: exampleFinished_def exampleStopped_def exampleHandled_def exampleSubmitted_def exampleStart_def
      SubmitLocked_def MaximumPendingUiCommands_def eval_nat_numeral countingRuntime_def call_def takeSnapshot_def
      Publish_def Let_def)

theorem worker_commands_fifo_witness:
  "h_handled exampleStopped = [exampleCommand] \<and> (\<exists>rest. h_accepted exampleStopped = [exampleCommand] @ rest)"
  using worker_commands_fifo [OF exampleStopped_reachable] exampleHandled_eq by auto

theorem worker_snapshots_ordered_witness:
  "map workerState (h_published exampleFinished) = [WsRunning, WsRunning, WsStopping, WsStopped]
   \<and> map revision (h_published exampleFinished) = [1, 2, 3, 4]
   \<and> \<not> fst (SubmitLocked exampleCommand exampleFinished)"
  using worker_snapshots_ordered [OF exampleFinished_reachable, of exampleCommand] exampleFinished_eq by simp

theorem worker_stops_witness:
  "let t = RunStep countingRuntime (w_pc exampleStopped) exampleStopped
   in worker_run countingRuntime 1 exampleStopped t \<and> steps_left (w_pc t) < steps_left (w_pc exampleStopped)"
proof -
  let ?t = "RunStep countingRuntime (w_pc exampleStopped) exampleStopped"
  have run: "worker_run countingRuntime (Suc 0) exampleStopped ?t"
    by (rule worker_run.worker [OF worker_run.none]) (simp add: exampleHandled_eq)
  from worker_stops [OF exampleStopped_reachable exampleHandled_eq(5) run] run show ?thesis by (simp add: Let_def)
qed

end
