(* ===== verification/MultiplayerData.thy ===== *)
theory MultiplayerData
  imports ObservedMemory Timer StdString "HOL-Library.AList"
begin

text \<open>
  Multiplayer, first part: the state of \<^verbatim>\<open>RogueAssistantCpp/Src/Behaviours/MultiplayerBehaviour.cpp\<close>,
  the layout check, and what the behaviour asks of its surroundings.

  ENet is a library outside the repository. A peer is a pointer it hands out, here a number, and each
  call that can fail takes its outcome from \<open>mw_enet\<close>, any function. \<open>mw_host\<close> says whether the host
  (and the peers inside it) exists: every call on a host or a peer records a fault in \<open>mw_fault\<close> when
  it does not, as do an access outside an array and an assertion that does not hold. Requests to the
  game are answered as for the Home Box: accepted, refused, or rejected at once, which disconnects.
\<close>

section \<open>Constants\<close>

datatype RogueNetChannel = Control | Handshake | GameState | PlayerState | PlayerProfiles | Count

fun RogueNetChannelValue :: "RogueNetChannel \<Rightarrow> u8" where
  "RogueNetChannelValue Control = 0" | "RogueNetChannelValue Handshake = 1" | "RogueNetChannelValue GameState = 2"
| "RogueNetChannelValue PlayerState = 3" | "RogueNetChannelValue PlayerProfiles = 4" | "RogueNetChannelValue Count = 5"

definition c_DefaultPort :: u16 where "c_DefaultPort = 30025"
definition NetStateHost :: u8 where "NetStateHost = 4"
definition HandshakeStateSendToHost :: u8 where "HandshakeStateSendToHost = 1"
definition HandshakeStateSendToClient :: u8 where "HandshakeStateSendToClient = 2"
definition CompatibilityTimeout :: int where "CompatibilityTimeout = 5 * NanosecondsPerSecond"
definition MaxRomPayloadSize :: nat where "MaxRomPayloadSize = MaximumFrameBodyLength - FrameBodyHeaderSize"
definition c_5UPS :: int where "c_5UPS = NanosecondsPerSecond div 5"
definition c_30UPS :: int where "c_30UPS = NanosecondsPerSecond div 30"

section \<open>State\<close>

type_synonym ENetPeer = nat

datatype ConnectionState =
  Connecting | AwaitingCompatibility | AwaitingHandshake | AwaitingResponse | ConnectionConfirmed | Connected

record PeerState =
  ps_HelloReceived :: bool
  ps_Compatible :: bool
  ps_RomConnected :: bool
  ps_PlayerId :: u8
  ps_CompatibilityDeadline :: int
  ps_EarlyHandshake :: bytes

record ServerState =
  ss_PlayerProfiles :: bytes
  ss_PendingHandshake :: "ENetPeer option"
  ss_PendingHandshakeData :: bytes
  ss_GameStateTimer :: UpdateTimer
  ss_PlayerStateTimer :: UpdateTimer

record ClientState =
  cs_PendingHandshakeData :: bytes
  cs_PendingPlayerProfiles :: bytes
  cs_PlayerStateTimer :: UpdateTimer

text \<open>\<open>mb_NetServer\<close> and \<open>mb_NetClient\<close> say whether the pointer to the host is set.\<close>

record MultiplayerBehaviour =
  mb_Port :: u16
  mb_ConnState :: ConnectionState
  mb_ConnectionAddressRaw :: string
  mb_HasAttemptedConnection :: bool
  mb_RequestFlags :: u8
  mb_EnetInitialised :: bool
  mb_NetServer :: bool
  mb_PlayerId :: u8
  mb_NetClient :: bool
  mb_NetPeer :: "ENetPeer option"
  mb_ConnectDeadline :: int
  mb_PeerStates :: "(ENetPeer \<times> PeerState) list"
  mb_ServerState :: ServerState
  mb_ClientState :: ClientState

definition newMultiplayerBehaviour :: MultiplayerBehaviour where
  "newMultiplayerBehaviour =
     \<lparr>mb_Port = c_DefaultPort, mb_ConnState = Connecting, mb_ConnectionAddressRaw = [],
      mb_HasAttemptedConnection = False, mb_RequestFlags = 0, mb_EnetInitialised = False, mb_NetServer = False,
      mb_PlayerId = 0, mb_NetClient = False, mb_NetPeer = None, mb_ConnectDeadline = 0, mb_PeerStates = [],
      mb_ServerState = \<lparr>ss_PlayerProfiles = [], ss_PendingHandshake = None, ss_PendingHandshakeData = [],
        ss_GameStateTimer = newUpdateTimer c_5UPS, ss_PlayerStateTimer = newUpdateTimer c_30UPS\<rparr>,
      mb_ClientState = \<lparr>cs_PendingHandshakeData = [], cs_PendingPlayerProfiles = [],
        cs_PlayerStateTimer = newUpdateTimer c_30UPS\<rparr>\<rparr>"

definition IsHost :: "MultiplayerBehaviour \<Rightarrow> bool" where
  "IsHost b = mb_NetServer b"

definition GetPort :: "MultiplayerBehaviour \<Rightarrow> u16" where
  "GetPort b = mb_Port b"

definition IsAwaitingAddress :: "MultiplayerBehaviour \<Rightarrow> bool" where
  "IsAwaitingAddress b \<longleftrightarrow> \<not> mb_HasAttemptedConnection b"

definition IsConnected :: "MultiplayerBehaviour \<Rightarrow> bool" where
  "IsConnected b \<longleftrightarrow> mb_ConnState b = Connected"

definition IsRequestingHostConnection :: "MultiplayerBehaviour \<Rightarrow> bool" where
  "IsRequestingHostConnection b \<longleftrightarrow> mb_RequestFlags b AND NetStateHost \<noteq> 0"

section \<open>The header of the game\<close>

text \<open>The fields of \<^verbatim>\<open>RogueAssistantHeader\<close> that the behaviour reads, by their names in the source.\<close>

record NetHeader =
  rogueVersion :: u8
  rogueAssistantCompatVersion :: u32
  netMultiplayerSize :: u32
  netHandshakeOffset :: u32
  netHandshakeSize :: u32
  netHandshakeStateOffset :: u32
  netHandshakePlayerIdOffset :: u32
  netGameStateOffset :: u32
  netGameStateSize :: u32
  netPlayerProfileOffset :: u32
  netPlayerProfileSize :: u32
  netPlayerStateOffset :: u32
  netPlayerStateSize :: u32
  netPlayerCount :: u32
  netRequestStateOffset :: u32
  netCurrentStateOffset :: u32

definition GetRogueHeader :: "ObservedGameMemory \<Rightarrow> NetHeader" where
  "GetRogueHeader m =
     \<lparr>rogueVersion = field_u8 RogueAssistantHeader ''rogueVersion'' (m_Value (m_RogueHeader m)),
      rogueAssistantCompatVersion = rogue_u32 ''rogueAssistantCompatVersion'' m,
      netMultiplayerSize = rogue_u32 ''netMultiplayerSize'' m,
      netHandshakeOffset = rogue_u32 ''netHandshakeOffset'' m,
      netHandshakeSize = rogue_u32 ''netHandshakeSize'' m,
      netHandshakeStateOffset = rogue_u32 ''netHandshakeStateOffset'' m,
      netHandshakePlayerIdOffset = rogue_u32 ''netHandshakePlayerIdOffset'' m,
      netGameStateOffset = rogue_u32 ''netGameStateOffset'' m,
      netGameStateSize = rogue_u32 ''netGameStateSize'' m,
      netPlayerProfileOffset = rogue_u32 ''netPlayerProfileOffset'' m,
      netPlayerProfileSize = rogue_u32 ''netPlayerProfileSize'' m,
      netPlayerStateOffset = rogue_u32 ''netPlayerStateOffset'' m,
      netPlayerStateSize = rogue_u32 ''netPlayerStateSize'' m,
      netPlayerCount = rogue_u32 ''netPlayerCount'' m,
      netRequestStateOffset = rogue_u32 ''netRequestStateOffset'' m,
      netCurrentStateOffset = rogue_u32 ''netCurrentStateOffset'' m\<rparr>"

section \<open>Layout\<close>

text \<open>Sizes are \<^verbatim>\<open>std::size_t\<close>, 64 bits wide.\<close>

definition CheckedProduct :: "u32 \<Rightarrow> u32 \<Rightarrow> nat option" where
  "CheckedProduct left right =
     (if left \<noteq> 0 \<and> unat right > (2 ^ 64 - 1) div unat left then None
      else Some (unat left * unat right mod 2 ^ 64))"

definition SpanFits :: "nat \<Rightarrow> u32 \<times> nat \<Rightarrow> bool" where
  "SpanFits blobSize span \<longleftrightarrow> \<not> (unat (fst span) > blobSize \<or> snd span > size_sub blobSize (unat (fst span)))"

definition ValidateMultiplayerLayout :: "NetHeader \<Rightarrow> nat \<Rightarrow> bool" where
  "ValidateMultiplayerLayout h blobSize =
     (if rogueAssistantCompatVersion h \<noteq> RequiredRomAssistantApi then False
      else if \<not> IsSupportedEdition (rogueVersion h) then False
      else if netPlayerCount h = 0 \<or> netPlayerCount h > 255 then False
      else if netHandshakeSize h = 0 \<or> netGameStateSize h = 0 \<or> netPlayerProfileSize h = 0 \<or> netPlayerStateSize h = 0
        then False
      else if blobSize = 0 \<or> blobSize > MaxRomPayloadSize then False
      else case (CheckedProduct (netPlayerProfileSize h) (netPlayerCount h),
                 CheckedProduct (netPlayerStateSize h) (netPlayerCount h)) of
        (Some playerProfilesSize, Some playerStatesSize) \<Rightarrow>
          if \<not> list_all (SpanFits blobSize)
               [(netRequestStateOffset h, 1), (netCurrentStateOffset h, 1),
                (netHandshakeOffset h, unat (netHandshakeSize h)), (netGameStateOffset h, unat (netGameStateSize h)),
                (netPlayerProfileOffset h, playerProfilesSize), (netPlayerStateOffset h, playerStatesSize)]
            then False
          else \<not> (netHandshakeStateOffset h \<ge> netHandshakeSize h \<or> netHandshakePlayerIdOffset h \<ge> netHandshakeSize h)
      | _ \<Rightarrow> False)"

definition IsValidClientPlayerId :: "NetHeader \<Rightarrow> u8 \<Rightarrow> bool" where
  "IsValidClientPlayerId h playerId \<longleftrightarrow> playerId \<noteq> 0 \<and> ucast playerId < netPlayerCount h"

definition MpParsePort :: "string \<Rightarrow> u16 option" where
  "MpParsePort txt = (case from_chars_u32 txt of
     None \<Rightarrow> None
   | Some (parsed, rest) \<Rightarrow> if rest \<noteq> [] \<or> parsed = 0 \<or> parsed > 65535 then None else Some (ucast parsed))"

section \<open>Surroundings\<close>

datatype Answer = Accepted | Refused | Rejected

datatype PacketFlags = Reliable | UnreliableFragment

record Packet =
  pk_peer :: ENetPeer
  pk_channel :: RogueNetChannel
  pk_data :: bytes
  pk_flags :: PacketFlags

datatype NetEvent =
  PeerConnected ENetPeer
| PacketReceived ENetPeer u8 "bytes option"
| PeerDisconnected ENetPeer
| UnknownEvent

record MultiplayerWorld =
  mw_memory :: ObservedGameMemory
  mw_clock :: "nat \<Rightarrow> int"
  mw_reads :: nat
  mw_enet :: "nat \<Rightarrow> bool"
  mw_calls :: nat
  mw_peer :: ENetPeer
  mw_host :: bool
  mw_sent :: "Packet list"
  mw_effects :: "GameEffect list"
  mw_disconnected :: bool
  mw_fault :: bool

type_synonym Multi = "MultiplayerBehaviour \<times> MultiplayerWorld"

abbreviation hdr :: "MultiplayerWorld \<Rightarrow> NetHeader" where
  "hdr w \<equiv> GetRogueHeader (mw_memory w)"

definition stateBlob :: "MultiplayerWorld \<Rightarrow> bytes" where
  "stateBlob w = ObservedBlob.m_Data (m_MultiplayerState (mw_memory w))"

definition GetMultiplayerStatePtr :: "MultiplayerWorld \<Rightarrow> GameAddress" where
  "GetMultiplayerStatePtr w = address_value (m_MultiplayerStatePtr (mw_memory w))"

definition LayoutValid :: "MultiplayerWorld \<Rightarrow> bool" where
  "LayoutValid w = ValidateMultiplayerLayout (hdr w) (blob_size (m_MultiplayerState (mw_memory w)))"

definition effect :: "GameEffect \<Rightarrow> MultiplayerWorld \<Rightarrow> MultiplayerWorld" where
  "effect e w = w\<lparr>mw_effects := mw_effects w @ [e]\<rparr>"

definition access :: "bool \<Rightarrow> MultiplayerWorld \<Rightarrow> MultiplayerWorld" where
  "access inside w = w\<lparr>mw_fault := (mw_fault w \<or> \<not> inside)\<rparr>"

text \<open>A call on the host or on a peer.\<close>

definition use_host :: "MultiplayerWorld \<Rightarrow> MultiplayerWorld" where
  "use_host w = access (mw_host w) w"

definition now :: "MultiplayerWorld \<Rightarrow> int \<times> MultiplayerWorld" where
  "now w = (mw_clock w (mw_reads w), w\<lparr>mw_reads := Suc (mw_reads w)\<rparr>)"

text \<open>The outcome of the next call of ENet that can fail.\<close>

definition enet :: "MultiplayerWorld \<Rightarrow> bool \<times> MultiplayerWorld" where
  "enet w = (mw_enet w (mw_calls w), w\<lparr>mw_calls := Suc (mw_calls w)\<rparr>)"

text \<open>The byte of the multiplayer state at an offset, and a span of it.\<close>

definition peek :: "nat \<Rightarrow> MultiplayerWorld \<Rightarrow> u8 \<times> MultiplayerWorld" where
  "peek offset w = (stateBlob w ! offset, access (offset < length (stateBlob w)) w)"

definition slice :: "nat \<Rightarrow> nat \<Rightarrow> MultiplayerWorld \<Rightarrow> bytes \<times> MultiplayerWorld" where
  "slice offset n w = (take n (drop offset (stateBlob w)), access (offset + n \<le> length (stateBlob w)) w)"

definition lineFeed :: string where "lineFeed = [CHR 0x0A]"

section \<open>Sending, closing, requests\<close>

definition SendPacket :: "ENetPeer option \<Rightarrow> RogueNetChannel \<Rightarrow> bytes \<Rightarrow> PacketFlags \<Rightarrow> MultiplayerWorld
    \<Rightarrow> bool \<times> MultiplayerWorld" where
  "SendPacket peer channel data reliability w = (case peer of
     None \<Rightarrow> (False, w)
   | Some p \<Rightarrow> (case enet w of
       (False, w) \<Rightarrow> (False, w)
     | (True, w) \<Rightarrow> (case enet (use_host w) of
         (False, w) \<Rightarrow> (False, w)
       | (True, w) \<Rightarrow> (True, w\<lparr>mw_sent := mw_sent w @
           [\<lparr>pk_peer = p, pk_channel = channel, pk_data = data, pk_flags = reliability\<rparr>]\<rparr>))))"

definition dropPending :: "MultiplayerBehaviour \<Rightarrow> MultiplayerBehaviour" where
  "dropPending b = b\<lparr>mb_ServerState := (mb_ServerState b)\<lparr>ss_PendingHandshake := None, ss_PendingHandshakeData := []\<rparr>\<rparr>"

definition CloseConnection :: "Multi \<Rightarrow> Multi" where
  "CloseConnection s = (case s of (b, w) \<Rightarrow>
     let (b, w) = (if mb_NetServer b then (b\<lparr>mb_NetServer := False\<rparr>, (use_host w)\<lparr>mw_host := False\<rparr>) else (b, w));
         (b, w) = (if mb_NetClient b
                   then (b\<lparr>mb_NetClient := False, mb_NetPeer := None\<rparr>,
                         (use_host (if mb_NetPeer b \<noteq> None then use_host w else w))\<lparr>mw_host := False\<rparr>)
                   else (b, w));
         b = dropPending b;
         b = b\<lparr>mb_ClientState := (mb_ClientState b)\<lparr>cs_PendingHandshakeData := [], cs_PendingPlayerProfiles := []\<rparr>,
               mb_PeerStates := [], mb_EnetInitialised := False\<rparr>
     in (b, w))"

definition MpDisconnect :: "Multi \<Rightarrow> Multi" where
  "MpDisconnect s = (case s of (b, w) \<Rightarrow>
     if mw_disconnected w then (b, w) else CloseConnection (b, (effect Disconnect w)\<lparr>mw_disconnected := True\<rparr>))"

text \<open>
  \<^verbatim>\<open>GameConnection::WriteRequest\<close>. Once the game is disconnected its session is stopped and takes no
  request.
\<close>

definition WriteRequest :: "(GameEffect \<Rightarrow> Answer) \<Rightarrow> GameAddress \<Rightarrow> bytes \<Rightarrow> Multi \<Rightarrow> bool \<times> Multi" where
  "WriteRequest answer a data s = (case s of (b, w) \<Rightarrow>
     if mw_disconnected w then (False, b, w)
     else let e = WriteReq (CreateMessageId AnonymousChannel 0) a data in case answer e of
       Accepted \<Rightarrow> (True, b, effect e w)
     | Refused \<Rightarrow> (False, b, w)
     | Rejected \<Rightarrow> (False, MpDisconnect (b, effect (ReportError ''The connection to mGBA was lost.'') w)))"

text \<open>\<^verbatim>\<open>game.ReportError(message); game.RemoveBehaviour(this)\<close>\<close>

definition ReportAndRemove :: "string \<Rightarrow> Multi \<Rightarrow> Multi" where
  "ReportAndRemove message s = (case s of (b, w) \<Rightarrow> (b, effect RemoveMultiplayer (effect (ReportError message) w)))"

definition RejectPeer :: "ENetPeer \<Rightarrow> string \<Rightarrow> Multi \<Rightarrow> Multi" where
  "RejectPeer peer userMessage s = (case s of (b, w) \<Rightarrow>
     let w = effect (ReportError (if userMessage = []
               then ''Rejected the multiplayer connection.'' @ lineFeed @ ''The other game sent invalid data.''
               else userMessage)) w;
         b = (if ss_PendingHandshake (mb_ServerState b) = Some peer then dropPending b else b);
         b = b\<lparr>mb_PeerStates := AList.delete peer (mb_PeerStates b)\<rparr>;
         w = use_host w
     in (b, if IsHost b then w else effect RemoveMultiplayer w))"

definition HandlePeerDisconnect :: "ENetPeer \<Rightarrow> Multi \<Rightarrow> Multi" where
  "HandlePeerDisconnect peer s = (case s of (b, w) \<Rightarrow>
     let knownPeer = (map_of (mb_PeerStates b) peer \<noteq> None);
         b = b\<lparr>mb_PeerStates := AList.delete peer (mb_PeerStates b)\<rparr>;
         b = (if ss_PendingHandshake (mb_ServerState b) = Some peer then dropPending b else b)
     in if \<not> knownPeer \<or> IsHost b then (b, w) else ReportAndRemove ''The other player disconnected.'' (b, w))"

text \<open>The order in which an \<^verbatim>\<open>unordered_map\<close> lists the peers is not specified; it is that of the list here.\<close>

definition BroadcastToConnectedPeers :: "RogueNetChannel \<Rightarrow> bytes \<Rightarrow> PacketFlags \<Rightarrow> Multi \<Rightarrow> Multi" where
  "BroadcastToConnectedPeers channel data reliability s = (case s of (b, w) \<Rightarrow>
     (b, fold (\<lambda>(peer, state) w. if ps_Compatible state \<and> ps_RomConnected state
            then snd (SendPacket (Some peer) channel data reliability w) else w) (mb_PeerStates b) w))"

end
