(* ===== verification/MultiplayerUpdate.thy ===== *)
theory MultiplayerUpdate
  imports MultiplayerData
begin

text \<open>
  Multiplayer, second part: the operations of \<^verbatim>\<open>RogueAssistantCpp/Src/Behaviours/MultiplayerBehaviour.cpp\<close>,
  from attaching to the update, in the order they call each other. Log messages are not modelled;
  \<open>answer\<close> says what becomes of a request to the game.
\<close>

section \<open>Attaching and the address\<close>

definition OnAttach :: "Multi \<Rightarrow> Multi" where
  "OnAttach s = (case s of (b, w) \<Rightarrow>
     let b = dropPending b;
         b = b\<lparr>mb_ConnState := Connecting, mb_ConnectionAddressRaw := [], mb_HasAttemptedConnection := False,
               mb_RequestFlags := 0, mb_PlayerId := 0, mb_PeerStates := [],
               mb_ServerState := (mb_ServerState b)\<lparr>ss_PlayerProfiles := []\<rparr>,
               mb_ClientState := (mb_ClientState b)\<lparr>cs_PendingHandshakeData := [], cs_PendingPlayerProfiles := []\<rparr>\<rparr>
     in if IsMultiplayerStateValid (mw_memory w) \<and> LayoutValid w then
          (case peek (unat (netRequestStateOffset (hdr w))) w of (requestFlags, w) \<Rightarrow> (b\<lparr>mb_RequestFlags := requestFlags\<rparr>, w))
        else (b, w))"

definition ProvideConnectionAddress :: "string \<Rightarrow> MultiplayerBehaviour \<Rightarrow> MultiplayerBehaviour" where
  "ProvideConnectionAddress addr b =
     (if \<not> mb_HasAttemptedConnection b then b\<lparr>mb_ConnectionAddressRaw := addr\<rparr> else b)"

definition SanitiseConnectionAddress :: "MultiplayerBehaviour \<Rightarrow> string \<Rightarrow> string" where
  "SanitiseConnectionAddress b addr = (if IsRequestingHostConnection b then filter is_digit addr else addr)"

section \<open>Compatibility\<close>

definition BuildCompatibilityHello :: "NetHeader \<Rightarrow> Hello" where
  "BuildCompatibilityHello h =
     \<lparr>protocolMajor = MpProtocolMajor, protocolMinor = MpProtocolMinor, romAssistantApi = rogueAssistantCompatVersion h,
      edition = rogueVersion h, playerCount = netPlayerCount h, multiplayerStateSize = netMultiplayerSize h,
      handshakeSize = netHandshakeSize h, gameStateSize = netGameStateSize h,
      playerProfileSize = netPlayerProfileSize h, playerStateSize = netPlayerStateSize h\<rparr>"

definition SendCompatibilityHello :: "ENetPeer \<Rightarrow> Multi \<Rightarrow> Multi" where
  "SendCompatibilityHello peer s = (case s of (b, w) \<Rightarrow>
     case EncodeHello (BuildCompatibilityHello (hdr w)) of
       Inl e \<Rightarrow> RejectPeer peer ''Could not start multiplayer.'' (b, w)
     | Inr encoded \<Rightarrow> (case SendPacket (Some peer) Control encoded Reliable w of
         (True, w) \<Rightarrow> (b, w)
       | (False, w) \<Rightarrow> RejectPeer peer ''Could not start multiplayer.'' (b, w)))"

section \<open>The ROM handshake\<close>

definition TrySubmitHostHandshake :: "(GameEffect \<Rightarrow> Answer) \<Rightarrow> Multi \<Rightarrow> bool \<times> Multi" where
  "TrySubmitHostHandshake answer s = (case s of (b, w) \<Rightarrow>
     let server = mb_ServerState b in
     if ss_PendingHandshake server = None \<or> ss_PendingHandshakeData server = [] then (False, b, w)
     else case WriteRequest answer (GetMultiplayerStatePtr w + netHandshakeOffset (hdr w))
                 (ss_PendingHandshakeData server) (b, w) of
       (False, s) \<Rightarrow> (False, s)
     | (True, b, w) \<Rightarrow> (True, b\<lparr>mb_ServerState := (mb_ServerState b)\<lparr>ss_PendingHandshakeData := []\<rparr>\<rparr>, w))"

definition TrySubmitClientHandshake :: "(GameEffect \<Rightarrow> Answer) \<Rightarrow> Multi \<Rightarrow> bool \<times> Multi" where
  "TrySubmitClientHandshake answer s = (case s of (b, w) \<Rightarrow>
     let data = cs_PendingHandshakeData (mb_ClientState b) in
     case mb_NetPeer b of None \<Rightarrow> (False, b, w) | Some peer \<Rightarrow>
       if data = [] then (False, b, w)
       else case map_of (mb_PeerStates b) peer of None \<Rightarrow> (False, b, w) | Some state \<Rightarrow>
         if \<not> ps_Compatible state then (False, b, w)
         else case WriteRequest answer (GetMultiplayerStatePtr w + netHandshakeOffset (hdr w)) data (b, w) of
           (False, s) \<Rightarrow> (False, s)
         | (True, b, w) \<Rightarrow>
             let offset = unat (netHandshakePlayerIdOffset (hdr w));
                 w = access (offset < length data) w;
                 playerId = data ! offset
             in (True, b\<lparr>mb_ClientState := (mb_ClientState b)\<lparr>cs_PendingHandshakeData := []\<rparr>, mb_PlayerId := playerId,
                    mb_PeerStates := AList.update peer (state\<lparr>ps_PlayerId := playerId, ps_RomConnected := True\<rparr>) (mb_PeerStates b),
                    mb_ConnState := ConnectionConfirmed\<rparr>, w))"

definition TrySubmitClientPlayerProfiles :: "(GameEffect \<Rightarrow> Answer) \<Rightarrow> Multi \<Rightarrow> bool \<times> Multi" where
  "TrySubmitClientPlayerProfiles answer s = (case s of (b, w) \<Rightarrow>
     let data = cs_PendingPlayerProfiles (mb_ClientState b) in
     if data = [] then (False, b, w)
     else case WriteRequest answer (GetMultiplayerStatePtr w + netPlayerProfileOffset (hdr w)) data (b, w) of
       (False, s) \<Rightarrow> (False, s)
     | (True, b, w) \<Rightarrow> (True, b\<lparr>mb_ClientState := (mb_ClientState b)\<lparr>cs_PendingPlayerProfiles := []\<rparr>\<rparr>, w))"

definition HandleRomHandshake :: "(GameEffect \<Rightarrow> Answer) \<Rightarrow> ENetPeer \<Rightarrow> bytes \<Rightarrow> Multi \<Rightarrow> Multi" where
  "HandleRomHandshake answer peer data s = (case s of (b, w) \<Rightarrow>
     if length data \<noteq> unat (netHandshakeSize (hdr w)) then RejectPeer peer [] (b, w)
     else case map_of (mb_PeerStates b) peer of None \<Rightarrow> RejectPeer peer [] (b, w) | Some state \<Rightarrow>
       if \<not> ps_Compatible state then RejectPeer peer [] (b, w)
       else if IsHost b then
         (if ps_RomConnected state then RejectPeer peer [] (b, w)
          else if ss_PendingHandshake (mb_ServerState b) \<noteq> None then RejectPeer peer [] (b, w)
          else snd (TrySubmitHostHandshake answer
                 (b\<lparr>mb_ServerState := (mb_ServerState b)\<lparr>ss_PendingHandshake := Some peer, ss_PendingHandshakeData := data\<rparr>\<rparr>, w)))
       else if mb_NetPeer b \<noteq> Some peer \<or> mb_ConnState b \<noteq> AwaitingResponse then RejectPeer peer [] (b, w)
       else if cs_PendingHandshakeData (mb_ClientState b) \<noteq> [] then RejectPeer peer [] (b, w)
       else let offset = unat (netHandshakePlayerIdOffset (hdr w)); w = access (offset < length data) w in
         if \<not> IsValidClientPlayerId (hdr w) (data ! offset) then RejectPeer peer [] (b, w)
         else snd (TrySubmitClientHandshake answer
                (b\<lparr>mb_ClientState := (mb_ClientState b)\<lparr>cs_PendingHandshakeData := data\<rparr>\<rparr>, w)))"

definition HandleCompatibilityHello :: "(GameEffect \<Rightarrow> Answer) \<Rightarrow> ENetPeer \<Rightarrow> bytes \<Rightarrow> Multi \<Rightarrow> Multi" where
  "HandleCompatibilityHello answer peer data s = (case s of (b, w) \<Rightarrow>
     case map_of (mb_PeerStates b) peer of None \<Rightarrow> RejectPeer peer [] (b, w) | Some state \<Rightarrow>
       if ps_HelloReceived state then RejectPeer peer [] (b, w)
       else case DecodeHello data of Inl e \<Rightarrow> RejectPeer peer [] (b, w) | Inr remoteHello \<Rightarrow>
         let compatibility = CheckCompatibility (BuildCompatibilityHello (hdr w)) remoteHello in
         if \<not> compatible compatibility then RejectPeer peer (compatibilityError compatibility) (b, w)
         else
           let earlyHandshake = ps_EarlyHandshake state;
               b = b\<lparr>mb_PeerStates := AList.update peer
                       (state\<lparr>ps_HelloReceived := True, ps_Compatible := True, ps_EarlyHandshake := []\<rparr>) (mb_PeerStates b)\<rparr>;
               b = (if \<not> IsHost b \<and> mb_NetPeer b = Some peer \<and> mb_ConnState b = AwaitingCompatibility
                    then b\<lparr>mb_ConnState := AwaitingHandshake\<rparr> else b)
           in if earlyHandshake \<noteq> [] then HandleRomHandshake answer peer earlyHandshake (b, w) else (b, w))"

section \<open>Incoming messages\<close>

text \<open>
  The table of player states that a client receives: \<open>playerIds\<close> are the values of the loop's
  8-bit counter, which does not wrap because the layout allows 255 players at most.
\<close>

definition WritePlayerState :: "(GameEffect \<Rightarrow> Answer) \<Rightarrow> bytes \<Rightarrow> u8 \<Rightarrow> Multi \<Rightarrow> Multi" where
  "WritePlayerState answer data playerId s = (case s of (b, w) \<Rightarrow>
     if playerId = mb_PlayerId b then (b, w)
     else let n = unat (netPlayerStateSize (hdr w));
              playerOffset = (word_of_nat (n * unat playerId) :: GameAddress);
              w = access (unat playerOffset + n \<le> length data) w
       in snd (WriteRequest answer (GetMultiplayerStatePtr w + netPlayerStateOffset (hdr w) + playerOffset)
             (take n (drop (unat playerOffset) data)) (b, w)))"

definition HandlePlayerState :: "(GameEffect \<Rightarrow> Answer) \<Rightarrow> ENetPeer \<Rightarrow> PeerState \<Rightarrow> bytes \<Rightarrow> Multi \<Rightarrow> Multi" where
  "HandlePlayerState answer peer state data s = (case s of (b, w) \<Rightarrow>
     let n = unat (netPlayerStateSize (hdr w)) in
     if IsHost b then
       (if length data \<noteq> n then RejectPeer peer [] (b, w)
        else if \<not> IsValidClientPlayerId (hdr w) (ps_PlayerId state) then RejectPeer peer [] (b, w)
        else snd (WriteRequest answer (GetMultiplayerStatePtr w + netPlayerStateOffset (hdr w)
                     + word_of_nat (n * unat (ps_PlayerId state))) data (b, w)))
     else if length data \<noteq> n * unat (netPlayerCount (hdr w)) then RejectPeer peer [] (b, w)
     else fold (WritePlayerState answer data) (map word_of_nat [0..<unat (netPlayerCount (hdr w))]) (b, w))"

definition HandlePlayerProfiles :: "(GameEffect \<Rightarrow> Answer) \<Rightarrow> ENetPeer \<Rightarrow> bytes \<Rightarrow> Multi \<Rightarrow> Multi" where
  "HandlePlayerProfiles answer peer data s = (case s of (b, w) \<Rightarrow>
     if IsHost b then RejectPeer peer [] (b, w)
     else if length data \<noteq> unat (netPlayerProfileSize (hdr w)) * unat (netPlayerCount (hdr w)) then RejectPeer peer [] (b, w)
     else snd (TrySubmitClientPlayerProfiles answer
            (b\<lparr>mb_ClientState := (mb_ClientState b)\<lparr>cs_PendingPlayerProfiles := data\<rparr>\<rparr>, w)))"

definition HandleGameState :: "(GameEffect \<Rightarrow> Answer) \<Rightarrow> ENetPeer \<Rightarrow> bytes \<Rightarrow> Multi \<Rightarrow> Multi" where
  "HandleGameState answer peer data s = (case s of (b, w) \<Rightarrow>
     if IsHost b then RejectPeer peer [] (b, w)
     else if length data \<noteq> unat (netGameStateSize (hdr w)) then RejectPeer peer [] (b, w)
     else snd (WriteRequest answer (GetMultiplayerStatePtr w + netGameStateOffset (hdr w)) data (b, w)))"

definition HandleIncomingMessage :: "(GameEffect \<Rightarrow> Answer) \<Rightarrow> ENetPeer \<Rightarrow> u8 \<Rightarrow> bytes option \<Rightarrow> Multi \<Rightarrow> Multi" where
  "HandleIncomingMessage answer peer channel packet s = (case s of (b, w) \<Rightarrow>
     case packet of None \<Rightarrow> (b, w) | Some data \<Rightarrow>
       let w = access (IsMultiplayerStateValid (mw_memory w)) w in
       if channel = RogueNetChannelValue Control then HandleCompatibilityHello answer peer data (b, w)
       else case map_of (mb_PeerStates b) peer of None \<Rightarrow> RejectPeer peer [] (b, w) | Some state \<Rightarrow>
         if \<not> ps_Compatible state then
           (if channel = RogueNetChannelValue Handshake \<and> ps_EarlyHandshake state = []
               \<and> length data = unat (netHandshakeSize (hdr w))
            then (b\<lparr>mb_PeerStates := AList.update peer (state\<lparr>ps_EarlyHandshake := data\<rparr>) (mb_PeerStates b)\<rparr>, w)
            else RejectPeer peer [] (b, w))
         else if channel \<noteq> RogueNetChannelValue Handshake \<and> \<not> ps_RomConnected state then RejectPeer peer [] (b, w)
         else if channel = RogueNetChannelValue Handshake then HandleRomHandshake answer peer data (b, w)
         else if channel = RogueNetChannelValue PlayerProfiles then HandlePlayerProfiles answer peer data (b, w)
         else if channel = RogueNetChannelValue GameState then HandleGameState answer peer data (b, w)
         else if channel = RogueNetChannelValue PlayerState then HandlePlayerState answer peer state data (b, w)
         else RejectPeer peer [] (b, w))"

section \<open>Polling\<close>

text \<open>\<open>events\<close> are those that \<^verbatim>\<open>enet_host_service\<close> delivers before it returns zero or an error.\<close>

definition HandleEvent :: "(GameEffect \<Rightarrow> Answer) \<Rightarrow> NetEvent \<Rightarrow> Multi \<Rightarrow> Multi" where
  "HandleEvent answer e s = (case s of (b, w) \<Rightarrow>
     let w = use_host w in
     case e of
       PeerConnected peer \<Rightarrow>
         (case now (use_host w) of (t, w) \<Rightarrow>
           let b = b\<lparr>mb_PeerStates := AList.update peer
                 \<lparr>ps_HelloReceived = False, ps_Compatible = False, ps_RomConnected = False, ps_PlayerId = 0,
                  ps_CompatibilityDeadline = t + CompatibilityTimeout, ps_EarlyHandshake = []\<rparr> (mb_PeerStates b)\<rparr>;
               b = (if mb_NetClient b \<and> mb_ConnState b = Connecting then b\<lparr>mb_ConnState := AwaitingCompatibility\<rparr> else b)
           in SendCompatibilityHello peer (b, w))
     | PacketReceived peer channel packet \<Rightarrow> HandleIncomingMessage answer peer channel packet (b, w)
     | PeerDisconnected peer \<Rightarrow> HandlePeerDisconnect peer (b, w)
     | UnknownEvent \<Rightarrow> (b, w))"

definition RejectExpired :: "Multi \<Rightarrow> Multi" where
  "RejectExpired s = (case s of (b, w) \<Rightarrow> case now w of (t, w) \<Rightarrow>
     fold (\<lambda>peer. RejectPeer peer ''The multiplayer connection timed out.'')
       (map fst (filter (\<lambda>(peer, state). \<not> ps_Compatible state \<and> t \<ge> ps_CompatibilityDeadline state) (mb_PeerStates b)))
       (b, w))"

definition PollConnection :: "(GameEffect \<Rightarrow> Answer) \<Rightarrow> NetEvent list \<Rightarrow> Multi \<Rightarrow> Multi" where
  "PollConnection answer events s = (case s of (b, w) \<Rightarrow>
     if \<not> (mb_NetServer b \<or> mb_NetClient b) then (b, w)
     else case fold (HandleEvent answer) events (b, w) of (b, w) \<Rightarrow> RejectExpired (b, use_host w))"

section \<open>The connected update\<close>

definition UpdateBinaryBlob :: "bytes \<Rightarrow> bytes \<Rightarrow> bool \<times> bytes" where
  "UpdateBinaryBlob copy raw = (length copy \<noteq> length raw \<or> copy \<noteq> raw, raw)"

definition BroadcastProfiles :: "Multi \<Rightarrow> Multi" where
  "BroadcastProfiles s = (case s of (b, w) \<Rightarrow>
     case slice (unat (netPlayerProfileOffset (hdr w))) (unat (netPlayerProfileSize (hdr w)) * unat (netPlayerCount (hdr w))) w of
       (profiles, w) \<Rightarrow> case UpdateBinaryBlob (ss_PlayerProfiles (mb_ServerState b)) profiles of (changed, copy) \<Rightarrow>
       let b = b\<lparr>mb_ServerState := (mb_ServerState b)\<lparr>ss_PlayerProfiles := copy\<rparr>\<rparr> in
       if changed then BroadcastToConnectedPeers PlayerProfiles copy Reliable (b, w) else (b, w))"

definition BroadcastGameState :: "Multi \<Rightarrow> Multi" where
  "BroadcastGameState s = (case s of (b, w) \<Rightarrow> case now w of (t, w) \<Rightarrow>
     case TimerUpdate t (ss_GameStateTimer (mb_ServerState b)) of (due, timer) \<Rightarrow>
     let b = b\<lparr>mb_ServerState := (mb_ServerState b)\<lparr>ss_GameStateTimer := timer\<rparr>\<rparr> in
     if due then (case slice (unat (netGameStateOffset (hdr w))) (unat (netGameStateSize (hdr w))) w of
       (data, w) \<Rightarrow> BroadcastToConnectedPeers GameState data Reliable (b, w)) else (b, w))"

definition BroadcastPlayerStates :: "Multi \<Rightarrow> Multi" where
  "BroadcastPlayerStates s = (case s of (b, w) \<Rightarrow> case now w of (t, w) \<Rightarrow>
     case TimerUpdate t (ss_PlayerStateTimer (mb_ServerState b)) of (due, timer) \<Rightarrow>
     let b = b\<lparr>mb_ServerState := (mb_ServerState b)\<lparr>ss_PlayerStateTimer := timer\<rparr>\<rparr> in
     if due then (case slice (unat (netPlayerStateOffset (hdr w))) (unat (netPlayerStateSize (hdr w)) * unat (netPlayerCount (hdr w))) w of
       (data, w) \<Rightarrow> BroadcastToConnectedPeers PlayerState data UnreliableFragment (b, w)) else (b, w))"

definition HostConnectedUpdate :: "Multi \<Rightarrow> Multi" where
  "HostConnectedUpdate s = BroadcastPlayerStates (BroadcastGameState (BroadcastProfiles s))"

definition ClientConnectedUpdate :: "Multi \<Rightarrow> Multi" where
  "ClientConnectedUpdate s = (case s of (b, w) \<Rightarrow> case now w of (t, w) \<Rightarrow>
     case TimerUpdate t (cs_PlayerStateTimer (mb_ClientState b)) of (due, timer) \<Rightarrow>
     let b = b\<lparr>mb_ClientState := (mb_ClientState b)\<lparr>cs_PlayerStateTimer := timer\<rparr>\<rparr>;
         n = unat (netPlayerStateSize (hdr w)) in
     if \<not> due \<or> \<not> IsValidClientPlayerId (hdr w) (mb_PlayerId b) then (b, w)
     else case slice (unat (netPlayerStateOffset (hdr w)) + n * unat (mb_PlayerId b)) n w of (data, w) \<Rightarrow>
       (b, snd (SendPacket (mb_NetPeer b) PlayerState data UnreliableFragment w)))"

definition ConnectedUpdate :: "Multi \<Rightarrow> Multi" where
  "ConnectedUpdate s = (if IsHost (fst s) then HostConnectedUpdate s else ClientConnectedUpdate s)"

section \<open>Opening\<close>

definition is_space :: "char \<Rightarrow> bool" where
  "is_space c \<longleftrightarrow> c = CHR '' '' \<or> (9 \<le> (of_char c :: nat) \<and> (of_char c :: nat) \<le> 13)"

definition trim :: "string \<Rightarrow> string" where
  "trim txt = rev (dropWhile is_space (rev (dropWhile is_space txt)))"

definition rfind :: "string \<Rightarrow> char \<Rightarrow> nat option" where
  "rfind txt c = (if c \<in> set txt then Some (length txt - 1 - length (takeWhile (\<lambda>x. x \<noteq> c) (rev txt))) else None)"

definition OpenHostConnection :: "Multi \<Rightarrow> Multi" where
  "OpenHostConnection s = (case s of (b, w) \<Rightarrow> case enet w of
     (False, w) \<Rightarrow> ReportAndRemove ''Could not start multiplayer.'' (b, w)
   | (True, w) \<Rightarrow> (case enet w of
       (False, w) \<Rightarrow> ReportAndRemove ''Cannot use the selected multiplayer port.''
                      (b\<lparr>mb_EnetInitialised := True, mb_NetServer := False\<rparr>, w)
     | (True, w) \<Rightarrow> (b\<lparr>mb_EnetInitialised := True, mb_NetServer := True, mb_ConnState := ConnectionConfirmed\<rparr>,
                     w\<lparr>mw_host := True\<rparr>)))"

text \<open>The host name and the port of the address; \<^const>\<open>None\<close> when the port is not a port.\<close>

definition SplitAddress :: "string \<Rightarrow> (string \<times> u16) option" where
  "SplitAddress raw = (let raw = trim raw in
     case rfind raw (CHR '':'') of
       Some separator \<Rightarrow>
         if separator \<noteq> 0 \<and> separator + 1 < length raw
         then map_option (\<lambda>port. (take separator raw, port)) (MpParsePort (drop (separator + 1) raw))
         else Some (raw, c_DefaultPort)
     | None \<Rightarrow> Some (raw, c_DefaultPort))"

definition ConnectClient :: "Multi \<Rightarrow> Multi" where
  "ConnectClient s = (case s of (b, w) \<Rightarrow> case SplitAddress (mb_ConnectionAddressRaw b) of
     None \<Rightarrow> ReportAndRemove ''Enter a port from 1 to 65535.'' (b\<lparr>mb_ConnectionAddressRaw := trim (mb_ConnectionAddressRaw b)\<rparr>, w)
   | Some (name, port) \<Rightarrow>
       let b = b\<lparr>mb_ConnectionAddressRaw := name, mb_Port := port\<rparr> in
       case (if name = [] then (False, w) else enet w) of
         (False, w) \<Rightarrow> ReportAndRemove ''Cannot find the multiplayer host.'' (b, w)
       | (True, w) \<Rightarrow> (case enet (use_host w) of
           (False, w) \<Rightarrow> ReportAndRemove ''Could not connect to the multiplayer host.'' (b\<lparr>mb_NetPeer := None\<rparr>, w)
         | (True, w) \<Rightarrow> (case now w of (t, w) \<Rightarrow>
             (b\<lparr>mb_NetPeer := Some (mw_peer w), mb_ConnectDeadline := t + 5 * NanosecondsPerSecond,
                mb_ConnState := Connecting\<rparr>, w))))"

definition OpenClientConnection :: "Multi \<Rightarrow> Multi" where
  "OpenClientConnection s = (case s of (b, w) \<Rightarrow> case enet w of
     (False, w) \<Rightarrow> ReportAndRemove ''Could not start multiplayer.'' (b, w)
   | (True, w) \<Rightarrow> (case enet w of
       (False, w) \<Rightarrow> ReportAndRemove ''Could not start multiplayer.'' (b\<lparr>mb_EnetInitialised := True, mb_NetClient := False\<rparr>, w)
     | (True, w) \<Rightarrow> ConnectClient (b\<lparr>mb_EnetInitialised := True, mb_NetClient := True\<rparr>, w\<lparr>mw_host := True\<rparr>)))"

definition OpenConnection :: "Multi \<Rightarrow> Multi" where
  "OpenConnection s = (case s of (b, w) \<Rightarrow>
     if mb_ConnectionAddressRaw b = [] then (b, w)
     else let b = b\<lparr>mb_HasAttemptedConnection := True\<rparr> in
       if IsRequestingHostConnection b then
         (case MpParsePort (mb_ConnectionAddressRaw b) of
            None \<Rightarrow> ReportAndRemove ''Enter a port from 1 to 65535.'' (b, w)
          | Some port \<Rightarrow> OpenHostConnection (b\<lparr>mb_Port := port\<rparr>, w))
       else OpenClientConnection (b, w))"

section \<open>The update\<close>

definition SendMultiplayerConfirmationToGame :: "(GameEffect \<Rightarrow> Answer) \<Rightarrow> Multi \<Rightarrow> bool \<times> Multi" where
  "SendMultiplayerConfirmationToGame answer s = (case s of (b, w) \<Rightarrow>
     WriteRequest answer (GetMultiplayerStatePtr w + netCurrentStateOffset (hdr w)) [mb_RequestFlags b] (b, w))"

text \<open>The answer of the ROM to a pending handshake; the first component says that the update returns.\<close>

definition FinishHostHandshake :: "ENetPeer \<Rightarrow> Multi \<Rightarrow> bool \<times> Multi" where
  "FinishHostHandshake peer s = (case s of (b, w) \<Rightarrow>
     let h = hdr w; w = access (IsHost b) w in
     case peek (unat (netHandshakeOffset h + netHandshakeStateOffset h)) w of (handshakeState, w) \<Rightarrow>
     if handshakeState \<noteq> HandshakeStateSendToClient then (False, b, w)
     else case peek (unat (netHandshakeOffset h + netHandshakePlayerIdOffset h)) w of (playerId, w) \<Rightarrow>
       let b = b\<lparr>mb_ServerState := (mb_ServerState b)\<lparr>ss_PendingHandshake := None\<rparr>\<rparr> in
       if \<not> IsValidClientPlayerId h playerId then (True, RejectPeer peer [] (b, w))
       else case map_of (mb_PeerStates b) peer of None \<Rightarrow> (True, b, w) | Some state \<Rightarrow>
         if \<not> ps_Compatible state then (True, b, w)
         else let b = b\<lparr>mb_PeerStates :=
                  AList.update peer (state\<lparr>ps_PlayerId := playerId, ps_RomConnected := True\<rparr>) (mb_PeerStates b)\<rparr> in
           case slice (unat (netHandshakeOffset h)) (unat (netHandshakeSize h)) w of (data, w) \<Rightarrow>
           case SendPacket (Some peer) Handshake data Reliable w of
             (False, w) \<Rightarrow> (True, RejectPeer peer ''Could not connect to the other player.'' (b, w))
           | (True, w) \<Rightarrow> (True, b\<lparr>mb_ServerState := (mb_ServerState b)\<lparr>ss_PlayerProfiles := []\<rparr>\<rparr>, w))"

definition AdvanceHandshake :: "(GameEffect \<Rightarrow> Answer) \<Rightarrow> Multi \<Rightarrow> Multi" where
  "AdvanceHandshake answer s = (case s of (b, w) \<Rightarrow>
     if mb_ConnState b = Connecting \<or> mb_ConnState b = AwaitingCompatibility then
       (case now w of (t, w) \<Rightarrow> if t \<ge> mb_ConnectDeadline b
          then ReportAndRemove ''The multiplayer connection timed out.'' (b, w) else (b, w))
     else if mb_ConnState b = AwaitingHandshake then
       (let h = hdr w in
        case peek (unat (netHandshakeOffset h + netHandshakeStateOffset h)) w of (handshakeState, w) \<Rightarrow>
        if handshakeState \<noteq> HandshakeStateSendToHost then (b, w)
        else case slice (unat (netHandshakeOffset h)) (unat (netHandshakeSize h)) w of (data, w) \<Rightarrow>
          (case SendPacket (mb_NetPeer b) Handshake data Reliable w of
             (True, w) \<Rightarrow> (b\<lparr>mb_ConnState := AwaitingResponse\<rparr>, w)
           | (False, w) \<Rightarrow> ReportAndRemove ''Could not start multiplayer.'' (b, w)))
     else if mb_ConnState b = AwaitingResponse then (b, w)
     else if mb_ConnState b = ConnectionConfirmed then
       (case SendMultiplayerConfirmationToGame answer (b, w) of
          (True, b, w) \<Rightarrow> (b\<lparr>mb_ConnState := Connected\<rparr>, w)
        | (False, s) \<Rightarrow> s)
     else ConnectedUpdate (b, w))"

definition SubmitPending :: "(GameEffect \<Rightarrow> Answer) \<Rightarrow> Multi \<Rightarrow> Multi" where
  "SubmitPending answer s =
     (let s = (if cs_PendingHandshakeData (mb_ClientState (fst s)) \<noteq> [] then snd (TrySubmitClientHandshake answer s) else s);
          s = (if cs_PendingPlayerProfiles (mb_ClientState (fst s)) \<noteq> [] then snd (TrySubmitClientPlayerProfiles answer s) else s)
      in s)"

definition RunConnection :: "(GameEffect \<Rightarrow> Answer) \<Rightarrow> NetEvent list \<Rightarrow> Multi \<Rightarrow> Multi" where
  "RunConnection answer events s =
     (let s = SubmitPending answer s;
          hadPendingHandshakeData = (ss_PendingHandshakeData (mb_ServerState (fst s)) \<noteq> []);
          s = (if hadPendingHandshakeData then snd (TrySubmitHostHandshake answer s) else s);
          pendingBeforePoll = ss_PendingHandshake (mb_ServerState (fst s));
          s = PollConnection answer events s;
          server = mb_ServerState (fst s)
      in case (if hadPendingHandshakeData then None else pendingBeforePoll) of
           None \<Rightarrow> AdvanceHandshake answer s
         | Some peer \<Rightarrow>
             if ss_PendingHandshake server = Some peer \<and> ss_PendingHandshakeData server = []
             then (case FinishHostHandshake peer s of (True, s) \<Rightarrow> s | (False, s) \<Rightarrow> AdvanceHandshake answer s)
             else AdvanceHandshake answer s)"

definition OnUpdate :: "(GameEffect \<Rightarrow> Answer) \<Rightarrow> NetEvent list \<Rightarrow> Multi \<Rightarrow> Multi" where
  "OnUpdate answer events s = (case s of (b, w) \<Rightarrow>
     if \<not> IsMultiplayerStateValid (mw_memory w) then (b, w)
     else if \<not> LayoutValid w then
       ReportAndRemove (''Cannot start multiplayer.'' @ lineFeed @ ''The ROM multiplayer data is invalid.'') (b, w)
     else if \<not> mb_HasAttemptedConnection b then OpenConnection (b, w)
     else case peek (unat (netRequestStateOffset (hdr w))) w of (requestFlags, w) \<Rightarrow>
       if mb_RequestFlags b \<noteq> requestFlags then (b, effect RemoveMultiplayer w)
       else RunConnection answer events (b, w))"

end
