(* ===== verification/MultiplayerSafety.thy ===== *)
theory MultiplayerSafety
  imports MultiplayerUpdate
begin

text \<open>
  What holds of the multiplayer behaviour in every reachable state, and which writes it asks the game
  for. \<open>run_inv\<close> is the invariant of one update: the memory does not change while it runs.
\<close>

section \<open>The layout\<close>

lemma CheckedProduct_eq: "CheckedProduct a b = Some (unat a * unat b)"
proof -
  have a: "unat a < 2 ^ 32" and b: "unat b < 2 ^ 32" using unsigned_less [of a] unsigned_less [of b] by simp_all
  have "unat a * unat b \<le> (2 ^ 32 - 1) * (2 ^ 32 - 1)" using a b by (intro mult_le_mono) simp_all
  then have bound: "unat a * unat b < 2 ^ 64" by simp
  moreover have "\<not> unat b > (2 ^ 64 - 1) div unat a" if "a \<noteq> 0"
  proof -
    have "0 < unat a" using that by (simp add: unat_gt_0)
    then have "unat b = (unat a * unat b) div unat a" by simp
    also have "\<dots> \<le> (2 ^ 64 - 1) div unat a" using bound by (intro div_le_mono) simp
    finally show ?thesis by simp
  qed
  ultimately show ?thesis by (auto simp: CheckedProduct_def)
qed

lemma SpanFits_iff: "SpanFits n (off, len) \<longleftrightarrow> unat off + len \<le> n"
  by (auto simp: SpanFits_def size_sub_def)

definition layout_ok :: "NetHeader \<Rightarrow> nat \<Rightarrow> bool" where
  "layout_ok h n \<longleftrightarrow> n \<le> 1048568 \<and> unat (netPlayerCount h) \<in> {1..255}
     \<and> 0 < unat (netHandshakeSize h) \<and> 0 < unat (netGameStateSize h) \<and> 0 < unat (netPlayerProfileSize h)
     \<and> 0 < unat (netPlayerStateSize h)
     \<and> unat (netRequestStateOffset h) < n \<and> unat (netCurrentStateOffset h) < n
     \<and> unat (netHandshakeOffset h) + unat (netHandshakeSize h) \<le> n
     \<and> unat (netGameStateOffset h) + unat (netGameStateSize h) \<le> n
     \<and> unat (netPlayerProfileOffset h) + unat (netPlayerProfileSize h) * unat (netPlayerCount h) \<le> n
     \<and> unat (netPlayerStateOffset h) + unat (netPlayerStateSize h) * unat (netPlayerCount h) \<le> n
     \<and> unat (netHandshakeStateOffset h) < unat (netHandshakeSize h)
     \<and> unat (netHandshakePlayerIdOffset h) < unat (netHandshakeSize h)"

lemma u32_pos: "(x :: u32) \<noteq> 0 \<longleftrightarrow> 0 < unat x"
  by (simp add: unat_gt_0)

lemma ValidateMultiplayerLayout_ok:
  assumes "ValidateMultiplayerLayout h n" shows "layout_ok h n"
proof -
  have "MaxRomPayloadSize = 1048568" by (simp add: MaxRomPayloadSize_def)
  with assms show ?thesis
    by (auto simp: ValidateMultiplayerLayout_def CheckedProduct_eq SpanFits_iff layout_ok_def u32_pos
        word_less_nat_alt word_le_nat_alt not_less not_le split: if_splits)
qed

lemma small_sum:
  assumes "unat (a :: u32) + unat b < 2 ^ 32" shows "unat (a + b) = unat a + unat b"
  using assms by (simp add: unat_word_ariths)

section \<open>Writes\<close>

text \<open>The writes an update may ask for, by the role of the behaviour: as the host, or as a client.\<close>

definition state_pointer :: "ObservedGameMemory \<Rightarrow> GameAddress" where
  "state_pointer M = address_value (m_MultiplayerStatePtr M)"

definition permitted :: "ObservedGameMemory \<Rightarrow> bool \<Rightarrow> GameAddress \<Rightarrow> nat \<Rightarrow> bool" where
  "permitted M host a n \<longleftrightarrow> (let h = GetRogueHeader M; p = state_pointer M in
     (a = p + netCurrentStateOffset h \<and> n = 1)
     \<or> (a = p + netHandshakeOffset h \<and> n = unat (netHandshakeSize h))
     \<or> (\<exists>i :: u8. (if host then IsValidClientPlayerId h i else unat i < unat (netPlayerCount h))
          \<and> a = p + netPlayerStateOffset h + word_of_nat (unat (netPlayerStateSize h) * unat i) \<and> n = unat (netPlayerStateSize h))
     \<or> (\<not> host \<and> a = p + netGameStateOffset h \<and> n = unat (netGameStateSize h))
     \<or> (\<not> host \<and> a = p + netPlayerProfileOffset h \<and> n = unat (netPlayerProfileSize h) * unat (netPlayerCount h)))"

fun permitted_effect :: "ObservedGameMemory \<Rightarrow> bool \<Rightarrow> GameEffect \<Rightarrow> bool" where
  "permitted_effect M host (WriteReq i a bs) = permitted M host a (length bs)"
| "permitted_effect M host (ReadReq i a n) = False"
| "permitted_effect M host (ReportError e) = True"
| "permitted_effect M host RemoveMultiplayer = True"
| "permitted_effect M host _ = False"

text \<open>The state lies in memory the bridge may write.\<close>

definition writable_state :: "ObservedGameMemory \<Rightarrow> bool" where
  "writable_state M = IsRangeAllowed (state_pointer M) (word_of_nat (blob_size (m_MultiplayerState M))) WritableRanges"

text \<open>The session rejects only a write that the validation of memory requests rejects.\<close>

definition session_answers :: "(GameEffect \<Rightarrow> Answer) \<Rightarrow> bool" where
  "session_answers answer \<longleftrightarrow> (\<forall>i a bs r. answer (WriteReq i a bs) = Rejected \<longrightarrow> r \<noteq> 0 \<longrightarrow>
     ValidateMemoryRequest \<lparr>mr_id = r, mr_operation = Write, mr_address = a, mr_data = bs, mr_readSize = 0\<rparr> \<noteq> MsOk)"

definition run_ok :: "(GameEffect \<Rightarrow> Answer) \<Rightarrow> ObservedGameMemory \<Rightarrow> bool" where
  "run_ok answer M \<longleftrightarrow> session_answers answer \<and> IsMultiplayerStateValid M
     \<and> layout_ok (GetRogueHeader M) (blob_size (m_MultiplayerState M)) \<and> writable_state M"

lemma slot_fits:
  assumes "layout_ok h n" and "unat (i :: u8) < unat (netPlayerCount h)"
  shows "unat (netPlayerStateOffset h) + unat (netPlayerStateSize h) * unat i + unat (netPlayerStateSize h) \<le> n"
proof -
  have "unat (netPlayerStateSize h) * unat i + unat (netPlayerStateSize h) = unat (netPlayerStateSize h) * Suc (unat i)" by simp
  also have "\<dots> \<le> unat (netPlayerStateSize h) * unat (netPlayerCount h)" using assms(2) by (intro mult_le_mono2) simp
  finally show ?thesis using assms(1) by (simp add: layout_ok_def)
qed

lemma valid_id: "IsValidClientPlayerId h i \<Longrightarrow> i \<noteq> 0 \<and> unat i < unat (netPlayerCount h)"
  by (simp add: IsValidClientPlayerId_def word_less_nat_alt unsigned_ucast_eq)

text \<open>A permitted write lies inside the multiplayer state.\<close>

lemma permitted_inside:
  assumes "layout_ok (GetRogueHeader M) n" and "permitted M host a len"
  shows "\<exists>off. a = state_pointer M + word_of_nat off \<and> off + len \<le> n \<and> 0 < len"
proof -
  let ?h = "GetRogueHeader M"
  have ok: "unat (netCurrentStateOffset ?h) + 1 \<le> n" "unat (netHandshakeOffset ?h) + unat (netHandshakeSize ?h) \<le> n"
    "unat (netGameStateOffset ?h) + unat (netGameStateSize ?h) \<le> n"
    "unat (netPlayerProfileOffset ?h) + unat (netPlayerProfileSize ?h) * unat (netPlayerCount ?h) \<le> n"
    "0 < unat (netHandshakeSize ?h)" "0 < unat (netGameStateSize ?h)" "0 < unat (netPlayerStateSize ?h)"
    "0 < unat (netPlayerProfileSize ?h) * unat (netPlayerCount ?h)"
    using assms(1) by (simp_all add: layout_ok_def)
  have slot: ?thesis if "unat (i :: u8) < unat (netPlayerCount ?h)"
      "a = state_pointer M + netPlayerStateOffset ?h + word_of_nat (unat (netPlayerStateSize ?h) * unat i)"
      "len = unat (netPlayerStateSize ?h)" for i
    using slot_fits [OF assms(1) that(1)] that(2,3) ok(7)
    by (intro exI [of _ "unat (netPlayerStateOffset ?h) + unat (netPlayerStateSize ?h) * unat i"])
      (simp add: of_nat_add add.assoc)
  from assms(2) consider
      "a = state_pointer M + netCurrentStateOffset ?h" "len = 1"
    | "a = state_pointer M + netHandshakeOffset ?h" "len = unat (netHandshakeSize ?h)"
    | i :: u8 where "if host then IsValidClientPlayerId ?h i else unat i < unat (netPlayerCount ?h)"
        "a = state_pointer M + netPlayerStateOffset ?h + word_of_nat (unat (netPlayerStateSize ?h) * unat i)"
        "len = unat (netPlayerStateSize ?h)"
    | "a = state_pointer M + netGameStateOffset ?h" "len = unat (netGameStateSize ?h)"
    | "a = state_pointer M + netPlayerProfileOffset ?h" "len = unat (netPlayerProfileSize ?h) * unat (netPlayerCount ?h)"
    unfolding permitted_def Let_def by blast
  then show ?thesis
  proof cases
    case 1 with ok show ?thesis by (intro exI [of _ "unat (netCurrentStateOffset ?h)"]) simp
  next
    case 2 with ok show ?thesis by (intro exI [of _ "unat (netHandshakeOffset ?h)"]) simp
  next
    case (3 i) with slot [of i] valid_id [of ?h i] show ?thesis by (simp split: if_splits)
  next
    case 4 with ok show ?thesis by (intro exI [of _ "unat (netGameStateOffset ?h)"]) simp
  next
    case 5 with ok show ?thesis by (intro exI [of _ "unat (netPlayerProfileOffset ?h)"]) simp
  qed
qed

text \<open>So the session does not reject it.\<close>

lemma permitted_not_rejected:
  assumes "run_ok answer M" and "permitted M host a (length bs)"
  shows "answer (WriteReq i a bs) \<noteq> Rejected"
proof -
  let ?n = "blob_size (m_MultiplayerState M)"
  from assms(1) have ok: "session_answers answer" "layout_ok (GetRogueHeader M) ?n" "writable_state M" by (simp_all add: run_ok_def)
  have small: "?n \<le> 1048568" using ok(2) by (simp add: layout_ok_def)
  then have n: "unat (word_of_nat ?n :: u32) = ?n" by (simp add: unat_of_nat)
  obtain off where off: "a = state_pointer M + word_of_nat off" "off + length bs \<le> ?n" "0 < length bs"
    using permitted_inside [OF ok(2) assms(2)] by blast
  have offs: "unat (word_of_nat off :: u32) = off" "unat (word_of_nat (length bs) :: u32) = length bs"
    using off(2) small by (simp_all add: unat_of_nat)
  obtain lo hi where region: "(lo, hi) \<in> gba_regions Write" "lo \<le> unat (state_pointer M)" "unat (state_pointer M) + ?n \<le> hi"
    using ok(3) n by (auto simp: writable_state_def IsRangeAllowed_writable)
  then have "hi \<le> 0x03008000" by (auto simp: gba_regions_def)
  with region(3) off(2) have "unat a = unat (state_pointer M) + off"
    unfolding off(1) by (subst small_sum) (simp_all add: offs)
  then have "IsRangeAllowed a (word_of_nat (length bs)) WritableRanges"
    using region off(2) by (auto simp: IsRangeAllowed_writable offs intro!: bexI [of _ "(lo, hi)"])
  then have "ValidateMemoryRequest \<lparr>mr_id = 1, mr_operation = Write, mr_address = a, mr_data = bs, mr_readSize = 0\<rparr> = MsOk"
    using off(2,3) small by (simp add: ValidateMemoryRequest_def)
  with ok(1) show ?thesis unfolding session_answers_def by (metis one_neq_zero)
qed

end
