(* ===== verification/MultiplayerInv.thy ===== *)
theory MultiplayerInv
  imports MultiplayerSafety
begin

text \<open>
  The invariant of the multiplayer behaviour and its preservation by every operation of an update:
  which flags of a peer imply which, that a handshake waits only for a known peer of a host, that what
  waits to be written has its size from the layout, and that a host exists while it is used.
\<close>

section \<open>The invariant\<close>

definition peer_ok :: "NetHeader \<Rightarrow> PeerState \<Rightarrow> bool" where
  "peer_ok h st \<longleftrightarrow> (ps_Compatible st \<longrightarrow> ps_HelloReceived st)
     \<and> (ps_RomConnected st \<longrightarrow> ps_Compatible st \<and> IsValidClientPlayerId h (ps_PlayerId st))
     \<and> (ps_EarlyHandshake st \<noteq> [] \<longrightarrow> \<not> ps_Compatible st \<and> length (ps_EarlyHandshake st) = unat (netHandshakeSize h))"

definition peers_inv :: "NetHeader \<Rightarrow> (ENetPeer \<times> PeerState) list \<Rightarrow> bool" where
  "peers_inv h ps \<longleftrightarrow> distinct (map fst ps) \<and> (\<forall>p st. map_of ps p = Some st \<longrightarrow> peer_ok h st)"

definition server_inv :: "NetHeader \<Rightarrow> bool \<Rightarrow> (ENetPeer \<times> PeerState) list \<Rightarrow> ServerState \<Rightarrow> bool" where
  "server_inv h server ps ss \<longleftrightarrow>
     (\<forall>p. ss_PendingHandshake ss = Some p \<longrightarrow> server \<and> map_of ps p \<noteq> None)
     \<and> (ss_PendingHandshakeData ss \<noteq> [] \<longrightarrow> ss_PendingHandshake ss \<noteq> None
         \<and> length (ss_PendingHandshakeData ss) = unat (netHandshakeSize h))"

definition client_inv :: "NetHeader \<Rightarrow> bool \<Rightarrow> ClientState \<Rightarrow> bool" where
  "client_inv h client cs \<longleftrightarrow>
     (cs_PendingHandshakeData cs \<noteq> [] \<longrightarrow> client \<and> length (cs_PendingHandshakeData cs) = unat (netHandshakeSize h)
        \<and> IsValidClientPlayerId h (cs_PendingHandshakeData cs ! unat (netHandshakePlayerIdOffset h)))
     \<and> (cs_PendingPlayerProfiles cs \<noteq> [] \<longrightarrow> client
        \<and> length (cs_PendingPlayerProfiles cs) = unat (netPlayerProfileSize h) * unat (netPlayerCount h))"

definition conn_inv :: "NetHeader \<Rightarrow> bool \<Rightarrow> MultiplayerBehaviour \<Rightarrow> bool" where
  "conn_inv h alive b \<longleftrightarrow> (mb_NetServer b \<or> mb_NetClient b \<longrightarrow> alive) \<and> \<not> (mb_NetServer b \<and> mb_NetClient b)
     \<and> peers_inv h (mb_PeerStates b) \<and> server_inv h (mb_NetServer b) (mb_PeerStates b) (mb_ServerState b)
     \<and> client_inv h (mb_NetClient b) (mb_ClientState b) \<and> (mb_NetPeer b \<noteq> None \<longrightarrow> mb_NetClient b)"

definition role :: "MultiplayerBehaviour \<Rightarrow> bool \<times> bool \<times> bool" where
  "role b = (mb_NetServer b, mb_NetClient b, mb_HasAttemptedConnection b)"

definition open_role :: "bool \<times> bool \<times> bool \<Rightarrow> bool" where
  "open_role R \<longleftrightarrow> fst R \<or> fst (snd R)"

definition run_inv :: "ObservedGameMemory \<Rightarrow> bool \<times> bool \<times> bool \<Rightarrow> GameEffect list \<Rightarrow> Multi \<Rightarrow> bool" where
  "run_inv M R E s \<longleftrightarrow> mw_memory (snd s) = M \<and> \<not> mw_fault (snd s) \<and> \<not> mw_disconnected (snd s) \<and> role (fst s) = R
     \<and> conn_inv (GetRogueHeader M) (mw_host (snd s)) (fst s)
     \<and> (\<exists>new. mw_effects (snd s) = E @ new \<and> list_all (permitted_effect M (fst R)) new)"

section \<open>Library\<close>

lemma multi_simps [simp]:
  "mw_memory (effect e w) = mw_memory w" "mw_fault (effect e w) = mw_fault w" "mw_host (effect e w) = mw_host w"
  "mw_disconnected (effect e w) = mw_disconnected w" "mw_effects (effect e w) = mw_effects w @ [e]"
  "mw_sent (effect e w) = mw_sent w"
  "mw_memory (access c w) = mw_memory w" "mw_fault (access c w) \<longleftrightarrow> mw_fault w \<or> \<not> c" "mw_host (access c w) = mw_host w"
  "mw_disconnected (access c w) = mw_disconnected w" "mw_effects (access c w) = mw_effects w"
  "mw_sent (access c w) = mw_sent w" "stateBlob (access c w) = stateBlob w"
  by (simp_all add: effect_def access_def stateBlob_def)

lemma length_stateBlob: "length (stateBlob w) = blob_size (m_MultiplayerState (mw_memory w))"
  by (simp add: stateBlob_def blob_size_def)

text \<open>Worlds that an invariant does not tell apart.\<close>

definition same_world :: "MultiplayerWorld \<Rightarrow> MultiplayerWorld \<Rightarrow> bool" where
  "same_world w w' \<longleftrightarrow> mw_memory w' = mw_memory w \<and> mw_fault w' = mw_fault w \<and> mw_host w' = mw_host w
     \<and> mw_disconnected w' = mw_disconnected w \<and> mw_effects w' = mw_effects w"

lemma same_world_refl [simp]: "same_world w w"
  by (simp add: same_world_def)

lemma same_world_trans: "same_world w w' \<Longrightarrow> same_world w' w'' \<Longrightarrow> same_world w w''"
  by (simp add: same_world_def)

lemma access_same: "c \<Longrightarrow> same_world w (access c w)"
  by (simp add: same_world_def)

lemma use_host_same: "mw_host w \<Longrightarrow> same_world w (use_host w)"
  by (simp add: use_host_def access_same)

lemma now_same: "now w = (t, w') \<Longrightarrow> same_world w w'"
  by (auto simp: now_def same_world_def)

lemma enet_same: "enet w = (ok, w') \<Longrightarrow> same_world w w'"
  by (auto simp: enet_def same_world_def)

lemma peek_same: "peek off w = (x, w') \<Longrightarrow> off < length (stateBlob w) \<Longrightarrow> same_world w w'"
  by (auto simp: peek_def intro: access_same)

lemma slice_same: "slice off n w = (bs, w') \<Longrightarrow> off + n \<le> length (stateBlob w) \<Longrightarrow> same_world w w'"
  by (auto simp: slice_def intro: access_same)

lemma SendPacket_same:
  assumes "SendPacket peer channel data reliability w = (ok, w')" and "peer \<noteq> None \<Longrightarrow> mw_host w"
  shows "same_world w w'"
  using assms
  by (auto simp: SendPacket_def enet_def use_host_def access_def same_world_def split: option.splits prod.splits bool.splits)

lemma run_inv_same: "run_inv M R E (b, w) \<Longrightarrow> same_world w w' \<Longrightarrow> run_inv M R E (b, w')"
  by (simp add: run_inv_def same_world_def)

lemma run_inv_behaviour:
  "run_inv M R E (b, w) \<Longrightarrow> role b' = role b \<Longrightarrow> conn_inv (GetRogueHeader M) (mw_host w) b' \<Longrightarrow> run_inv M R E (b', w)"
  by (simp add: run_inv_def)

lemma run_inv_effect:
  "run_inv M R E (b, w) \<Longrightarrow> permitted_effect M (fst R) e \<Longrightarrow> run_inv M R E (b, effect e w)"
  by (auto simp: run_inv_def)

lemma run_inv_sel:
  assumes "run_inv M R E (b, w)"
  shows "mw_memory w = M" "\<not> mw_fault w" "\<not> mw_disconnected w" "mb_NetServer b = fst R" "mb_NetClient b = fst (snd R)"
    "conn_inv (GetRogueHeader M) (mw_host w) b" "open_role R \<Longrightarrow> mw_host w"
  using assms by (auto simp: run_inv_def role_def conn_inv_def open_role_def)

lemma run_inv_fold:
  assumes "run_inv M R E s" and "\<And>x s. x \<in> set xs \<Longrightarrow> run_inv M R E s \<Longrightarrow> run_inv M R E (f x s)"
  shows "run_inv M R E (fold f xs s)"
  using assms by (induction xs arbitrary: s) simp_all

section \<open>Tables of peers\<close>

lemma map_of_AList [simp]:
  "map_of (AList.update k v xs) = (map_of xs)(k \<mapsto> v)" "map_of (AList.delete k xs) = (map_of xs)(k := None)"
  by (simp_all add: update_conv' delete_conv')

lemma peers_inv_update: "peers_inv h ps \<Longrightarrow> peer_ok h st \<Longrightarrow> peers_inv h (AList.update p st ps)"
  by (auto simp: peers_inv_def distinct_update split: if_splits)

lemma peers_inv_delete: "peers_inv h ps \<Longrightarrow> peers_inv h (AList.delete p ps)"
  by (auto simp: peers_inv_def distinct_delete split: if_splits)

lemma peers_inv_get: "peers_inv h ps \<Longrightarrow> map_of ps p = Some st \<Longrightarrow> peer_ok h st"
  by (simp add: peers_inv_def)

lemma conn_inv_update_peer:
  "conn_inv h alive b \<Longrightarrow> peer_ok h st \<Longrightarrow> conn_inv h alive (b\<lparr>mb_PeerStates := AList.update p st (mb_PeerStates b)\<rparr>)"
  by (auto simp: conn_inv_def server_inv_def peers_inv_update)

lemma conn_inv_dropPending: "conn_inv h alive b \<Longrightarrow> conn_inv h alive (dropPending b)"
  by (auto simp: conn_inv_def dropPending_def server_inv_def)

lemma dropPending_sel [simp]:
  "mb_PeerStates (dropPending b) = mb_PeerStates b" "mb_NetServer (dropPending b) = mb_NetServer b" "role (dropPending b) = role b"
  "ss_PendingHandshake (mb_ServerState (dropPending b)) = None" "mb_ClientState (dropPending b) = mb_ClientState b"
  "mb_NetClient (dropPending b) = mb_NetClient b" "mb_ConnState (dropPending b) = mb_ConnState b"
  "mb_NetPeer (dropPending b) = mb_NetPeer b"
  by (simp_all add: dropPending_def role_def)

lemma conn_inv_forget:
  assumes "conn_inv h alive b"
  shows "conn_inv h alive ((if ss_PendingHandshake (mb_ServerState b) = Some p then dropPending b else b)
    \<lparr>mb_PeerStates := AList.delete p (mb_PeerStates b)\<rparr>)"
proof (cases "ss_PendingHandshake (mb_ServerState b) = Some p")
  case True
  with conn_inv_dropPending [OF assms] show ?thesis by (auto simp: conn_inv_def server_inv_def peers_inv_delete)
next
  case False
  with assms show ?thesis by (auto simp: conn_inv_def server_inv_def peers_inv_delete)
qed

lemma role_simps [simp]:
  "role (b\<lparr>mb_PeerStates := ps\<rparr>) = role b" "role (b\<lparr>mb_ServerState := ss\<rparr>) = role b" "role (b\<lparr>mb_ClientState := cs\<rparr>) = role b"
  "role (b\<lparr>mb_ConnState := c\<rparr>) = role b" "role (b\<lparr>mb_PlayerId := i\<rparr>) = role b"
  by (simp_all add: role_def)

section \<open>Rejecting and losing peers\<close>

lemma permitted_report [simp]: "permitted_effect M H (ReportError e)" "permitted_effect M H RemoveMultiplayer"
  by simp_all

lemma RejectPeer_inv:
  assumes inv: "run_inv M R E (b, w)" and "open_role R"
  shows "run_inv M R E (RejectPeer p m (b, w))"
proof -
  let ?b = "(if ss_PendingHandshake (mb_ServerState b) = Some p then dropPending b else b)\<lparr>mb_PeerStates := AList.delete p (mb_PeerStates b)\<rparr>"
  have "run_inv M R E (?b, use_host (effect e w))" if "permitted_effect M (fst R) e" for e
    using run_inv_sel(6,7) [OF inv] assms(2) that
    by (intro run_inv_same [OF run_inv_behaviour [OF run_inv_effect [OF inv that] _ ] use_host_same]) (simp_all add: conn_inv_forget)
  then show ?thesis by (auto simp: RejectPeer_def Let_def intro!: run_inv_effect)
qed

lemma ReportAndRemove_inv: "run_inv M R E (b, w) \<Longrightarrow> run_inv M R E (ReportAndRemove m (b, w))"
  by (auto simp: ReportAndRemove_def intro!: run_inv_effect)

lemma HandlePeerDisconnect_inv:
  assumes inv: "run_inv M R E (b, w)" shows "run_inv M R E (HandlePeerDisconnect p (b, w))"
proof -
  let ?b = "(if ss_PendingHandshake (mb_ServerState b) = Some p then dropPending b else b)\<lparr>mb_PeerStates := AList.delete p (mb_PeerStates b)\<rparr>"
  have "run_inv M R E (?b, w)"
    using run_inv_sel(6) [OF inv] by (intro run_inv_behaviour [OF inv]) (simp_all add: conn_inv_forget)
  moreover have "?b = (if ss_PendingHandshake (mb_ServerState b) = Some p
      then dropPending (b\<lparr>mb_PeerStates := AList.delete p (mb_PeerStates b)\<rparr>)
      else b\<lparr>mb_PeerStates := AList.delete p (mb_PeerStates b)\<rparr>)" by (simp add: dropPending_def)
  ultimately show ?thesis
    by (simp add: HandlePeerDisconnect_def Let_def ReportAndRemove_inv split: if_split_asm)
qed

section \<open>Requests\<close>

lemma WriteRequest_inv:
  assumes ok: "run_ok answer M" and inv: "run_inv M R E (b, w)" and p: "permitted M (fst R) a (length data)"
  obtains accepted w' where "WriteRequest answer a data (b, w) = (accepted, b, w')" and "run_inv M R E (b, w')"
proof -
  let ?e = "WriteReq (CreateMessageId AnonymousChannel 0) a data"
  from permitted_not_rejected [OF ok p] have "answer ?e = Accepted \<or> answer ?e = Refused" by (metis Answer.exhaust)
  then show thesis
  proof
    assume "answer ?e = Accepted"
    with run_inv_sel(3) [OF inv] have "WriteRequest answer a data (b, w) = (True, b, effect ?e w)" by (simp add: WriteRequest_def)
    then show thesis by (rule that) (use p in \<open>auto intro!: run_inv_effect [OF inv]\<close>)
  next
    assume "answer ?e = Refused"
    with run_inv_sel(3) [OF inv] have "WriteRequest answer a data (b, w) = (False, b, w)" by (simp add: WriteRequest_def)
    then show thesis by (rule that) (rule inv)
  qed
qed

lemma permitted_simps:
  "permitted M H (state_pointer M + netHandshakeOffset (GetRogueHeader M)) (unat (netHandshakeSize (GetRogueHeader M)))"
  "permitted M H (state_pointer M + netCurrentStateOffset (GetRogueHeader M)) (Suc 0)"
  "permitted M False (state_pointer M + netGameStateOffset (GetRogueHeader M)) (unat (netGameStateSize (GetRogueHeader M)))"
  "permitted M False (state_pointer M + netPlayerProfileOffset (GetRogueHeader M))
     (unat (netPlayerProfileSize (GetRogueHeader M)) * unat (netPlayerCount (GetRogueHeader M)))"
  by (simp_all add: permitted_def Let_def)

lemma permitted_slot:
  "(if H then IsValidClientPlayerId (GetRogueHeader M) i else unat i < unat (netPlayerCount (GetRogueHeader M))) \<Longrightarrow>
   n = unat (netPlayerStateSize (GetRogueHeader M)) \<Longrightarrow>
   permitted M H (state_pointer M + netPlayerStateOffset (GetRogueHeader M)
     + word_of_nat (unat (netPlayerStateSize (GetRogueHeader M)) * unat i)) n"
  unfolding permitted_def Let_def by blast

lemma pointer: "GetMultiplayerStatePtr w = state_pointer (mw_memory w)"
  by (simp add: GetMultiplayerStatePtr_def state_pointer_def)

lemma client_not_host: "run_inv M R E (b, w) \<Longrightarrow> mb_NetClient b \<Longrightarrow> fst R = False"
  by (auto simp: run_inv_def role_def conn_inv_def)

lemma TrySubmitHostHandshake_inv:
  assumes ok: "run_ok answer M" and inv: "run_inv M R E (b, w)"
  shows "run_inv M R E (snd (TrySubmitHostHandshake answer (b, w)))"
proof (cases "ss_PendingHandshake (mb_ServerState b) = None \<or> ss_PendingHandshakeData (mb_ServerState b) = []")
  case True
  with inv show ?thesis by (auto simp: TrySubmitHostHandshake_def Let_def)
next
  case False
  let ?data = "ss_PendingHandshakeData (mb_ServerState b)"
  let ?b = "b\<lparr>mb_ServerState := (mb_ServerState b)\<lparr>ss_PendingHandshakeData := []\<rparr>\<rparr>"
  note conn = run_inv_sel(6) [OF inv]
  with False have size: "length ?data = unat (netHandshakeSize (GetRogueHeader M))" by (simp add: conn_inv_def server_inv_def)
  obtain accepted w' where res: "WriteRequest answer (state_pointer M + netHandshakeOffset (GetRogueHeader M)) ?data (b, w) = (accepted, b, w')"
      and inv': "run_inv M R E (b, w')"
    by (rule WriteRequest_inv [OF ok inv permitted_simps(1) [where M = M and H = "fst R", folded size]])
  have "run_inv M R E (?b, w')"
    using run_inv_sel(6) [OF inv'] by (intro run_inv_behaviour [OF inv']) (auto simp: conn_inv_def server_inv_def)
  with False res inv' run_inv_sel(1) [OF inv] show ?thesis
    by (cases accepted) (auto simp: TrySubmitHostHandshake_def Let_def pointer)
qed

lemma TrySubmitClientPlayerProfiles_inv:
  assumes ok: "run_ok answer M" and inv: "run_inv M R E (b, w)"
  shows "run_inv M R E (snd (TrySubmitClientPlayerProfiles answer (b, w)))"
proof (cases "cs_PendingPlayerProfiles (mb_ClientState b) = []")
  case True
  with inv show ?thesis by (simp add: TrySubmitClientPlayerProfiles_def)
next
  case False
  let ?data = "cs_PendingPlayerProfiles (mb_ClientState b)"
  let ?b = "b\<lparr>mb_ClientState := (mb_ClientState b)\<lparr>cs_PendingPlayerProfiles := []\<rparr>\<rparr>"
  note conn = run_inv_sel(6) [OF inv]
  with False have size: "length ?data = unat (netPlayerProfileSize (GetRogueHeader M)) * unat (netPlayerCount (GetRogueHeader M))"
      and client: "mb_NetClient b" by (simp_all add: conn_inv_def client_inv_def)
  from client_not_host [OF inv client] have "permitted M (fst R) (state_pointer M + netPlayerProfileOffset (GetRogueHeader M)) (length ?data)"
    by (simp add: size permitted_simps)
  from WriteRequest_inv [OF ok inv this] obtain accepted w' where
      res: "WriteRequest answer (state_pointer M + netPlayerProfileOffset (GetRogueHeader M)) ?data (b, w) = (accepted, b, w')"
      and inv': "run_inv M R E (b, w')" .
  have "run_inv M R E (?b, w')"
    using run_inv_sel(6) [OF inv'] by (intro run_inv_behaviour [OF inv']) (auto simp: conn_inv_def client_inv_def)
  with False res inv' run_inv_sel(1) [OF inv] show ?thesis
    by (cases accepted) (simp_all add: TrySubmitClientPlayerProfiles_def pointer)
qed

lemma TrySubmitClientHandshake_inv:
  assumes ok: "run_ok answer M" and inv: "run_inv M R E (b, w)"
  shows "run_inv M R E (snd (TrySubmitClientHandshake answer (b, w)))"
proof (cases "\<exists>peer st. mb_NetPeer b = Some peer \<and> cs_PendingHandshakeData (mb_ClientState b) \<noteq> []
    \<and> map_of (mb_PeerStates b) peer = Some st \<and> ps_Compatible st")
  case False
  with inv show ?thesis by (auto simp: TrySubmitClientHandshake_def Let_def split: option.split)
next
  case True
  then obtain peer st where c: "mb_NetPeer b = Some peer" "cs_PendingHandshakeData (mb_ClientState b) \<noteq> []"
    "map_of (mb_PeerStates b) peer = Some st" "ps_Compatible st" by blast
  let ?data = "cs_PendingHandshakeData (mb_ClientState b)"
  let ?off = "unat (netHandshakePlayerIdOffset (GetRogueHeader M))"
  let ?b = "b\<lparr>mb_ClientState := (mb_ClientState b)\<lparr>cs_PendingHandshakeData := []\<rparr>, mb_PlayerId := ?data ! ?off,
      mb_PeerStates := AList.update peer (st\<lparr>ps_PlayerId := ?data ! ?off, ps_RomConnected := True\<rparr>) (mb_PeerStates b),
      mb_ConnState := ConnectionConfirmed\<rparr>"
  note conn = run_inv_sel(6) [OF inv]
  with c have size: "length ?data = unat (netHandshakeSize (GetRogueHeader M))"
      and id: "IsValidClientPlayerId (GetRogueHeader M) (?data ! ?off)" by (simp_all add: conn_inv_def client_inv_def)
  have off: "?off < length ?data" using ok size by (simp add: run_ok_def layout_ok_def)
  have "peer_ok (GetRogueHeader M) st" using conn c(3) by (auto simp: conn_inv_def dest: peers_inv_get)
  with id c(4) have st: "peer_ok (GetRogueHeader M) (st\<lparr>ps_PlayerId := ?data ! ?off, ps_RomConnected := True\<rparr>)"
    by (simp add: peer_ok_def)
  obtain accepted w' where res: "WriteRequest answer (state_pointer M + netHandshakeOffset (GetRogueHeader M)) ?data (b, w) = (accepted, b, w')"
      and inv': "run_inv M R E (b, w')"
    by (rule WriteRequest_inv [OF ok inv permitted_simps(1) [where M = M and H = "fst R", folded size]])
  have "run_inv M R E (?b, w')"
    using run_inv_sel(6) [OF inv'] st
    by (intro run_inv_behaviour [OF inv']) (auto simp: conn_inv_def client_inv_def server_inv_def peers_inv_update)
  then have "run_inv M R E (?b, access (?off < length ?data) w')" by (rule run_inv_same) (rule access_same [OF off])
  with c res inv' run_inv_sel(1) [OF inv] run_inv_sel(1) [OF inv'] show ?thesis
    by (cases accepted) (simp_all add: TrySubmitClientHandshake_def pointer Let_def)
qed


section \<open>Incoming messages\<close>

lemma HandleRomHandshake_inv:
  assumes ok: "run_ok answer M" and inv: "run_inv M R E (b, w)" and R: "open_role R"
  shows "run_inv M R E (HandleRomHandshake answer p data (b, w))"
proof -
  let ?h = "GetRogueHeader M"
  note conn = run_inv_sel(6) [OF inv]
  have reject: "run_inv M R E (RejectPeer p [] (b, w'))" if "same_world w w'" for w'
    by (rule RejectPeer_inv [OF run_inv_same [OF inv that] R])
  let ?host = "b\<lparr>mb_ServerState := (mb_ServerState b)\<lparr>ss_PendingHandshake := Some p, ss_PendingHandshakeData := data\<rparr>\<rparr>"
  let ?client = "b\<lparr>mb_ClientState := (mb_ClientState b)\<lparr>cs_PendingHandshakeData := data\<rparr>\<rparr>"
  let ?off = "unat (netHandshakePlayerIdOffset ?h)"
  have host: "run_inv M R E (?host, w)"
    if "length data = unat (netHandshakeSize ?h)" "map_of (mb_PeerStates b) p = Some st" "IsHost b" for st
    using conn that by (intro run_inv_behaviour [OF inv]) (auto simp: conn_inv_def server_inv_def IsHost_def)
  have off: "?off < length data" if "length data = unat (netHandshakeSize ?h)"
    using ok that by (simp add: run_ok_def layout_ok_def)
  have client: "run_inv M R E (?client, access (?off < length data) w)"
    if "length data = unat (netHandshakeSize ?h)" "mb_NetPeer b = Some p" "IsValidClientPlayerId ?h (data ! ?off)"
    using conn that
    by (intro run_inv_same [OF run_inv_behaviour [OF inv]] access_same [OF off]) (auto simp: conn_inv_def client_inv_def)
  show ?thesis
  proof (cases "length data = unat (netHandshakeSize ?h)")
    case False
    with reject [OF same_world_refl] run_inv_sel(1) [OF inv] show ?thesis by (simp add: HandleRomHandshake_def)
  next
    case size: True
    show ?thesis
    proof (cases "map_of (mb_PeerStates b) p")
      case None
      with size reject [OF same_world_refl] run_inv_sel(1) [OF inv] show ?thesis by (simp add: HandleRomHandshake_def)
    next
      case (Some st)
      show ?thesis
      proof (cases "IsHost b")
        case True
        with size Some reject [OF same_world_refl] run_inv_sel(1) [OF inv] TrySubmitHostHandshake_inv [OF ok host [OF size Some True]]
        show ?thesis by (simp add: HandleRomHandshake_def)
      next
        case False
        show ?thesis
        proof (cases "mb_NetPeer b = Some p \<and> IsValidClientPlayerId ?h (data ! ?off)")
          case True
          with False size Some reject [OF same_world_refl] run_inv_sel(1) [OF inv]
            TrySubmitClientHandshake_inv [OF ok client [OF size]]
          show ?thesis by (simp add: HandleRomHandshake_def Let_def)
        next
          case bad: False
          with False size Some reject [OF same_world_refl] reject [OF access_same [OF off [OF size]]] run_inv_sel(1) [OF inv]
          show ?thesis by (simp add: HandleRomHandshake_def Let_def)
        qed
      qed
    qed
  qed
qed

lemma HandleCompatibilityHello_inv:
  assumes ok: "run_ok answer M" and inv: "run_inv M R E (b, w)" and R: "open_role R"
  shows "run_inv M R E (HandleCompatibilityHello answer p data (b, w))"
proof (cases "map_of (mb_PeerStates b) p")
  case None
  with RejectPeer_inv [OF inv R] show ?thesis by (simp add: HandleCompatibilityHello_def)
next
  case (Some st)
  let ?st = "st\<lparr>ps_HelloReceived := True, ps_Compatible := True, ps_EarlyHandshake := []\<rparr>"
  let ?b = "b\<lparr>mb_PeerStates := AList.update p ?st (mb_PeerStates b)\<rparr>"
  note conn = run_inv_sel(6) [OF inv]
  have "peer_ok (GetRogueHeader M) st" using conn Some by (auto simp: conn_inv_def dest: peers_inv_get)
  then have "peer_ok (GetRogueHeader M) ?st" by (simp add: peer_ok_def)
  with conn have "run_inv M R E (?b, w)"
    by (intro run_inv_behaviour [OF inv] conn_inv_update_peer) simp_all
  moreover from this have "run_inv M R E (?b\<lparr>mb_ConnState := c\<rparr>, w)" for c
    by (rule run_inv_behaviour) (use run_inv_sel(6) [OF \<open>run_inv M R E (?b, w)\<close>] in \<open>simp_all add: conn_inv_def\<close>)
  ultimately have next_state: "run_inv M R E (if c then ?b\<lparr>mb_ConnState := AwaitingHandshake\<rparr> else ?b, w)" for c by simp
  from Some RejectPeer_inv [OF inv R] next_state HandleRomHandshake_inv [OF ok next_state R]
  show ?thesis by (simp add: HandleCompatibilityHello_def Let_def IsHost_def split: sum.split)
qed

lemma unat_u8_of_nat: "n < 256 \<Longrightarrow> unat (word_of_nat n :: u8) = n"
  by (simp add: unat_of_nat)

lemma unat_small_u32: "n < 2 ^ 32 \<Longrightarrow> unat (word_of_nat n :: u32) = n"
  by (simp add: unat_of_nat)

lemma WritePlayerState_inv:
  assumes ok: "run_ok answer M" and inv: "run_inv M R E (b, w)" and c: "fst R = False" and R: "open_role R"
    and i: "unat i < unat (netPlayerCount (GetRogueHeader M))"
    and size: "length data = unat (netPlayerStateSize (GetRogueHeader M)) * unat (netPlayerCount (GetRogueHeader M))"
  shows "run_inv M R E (WritePlayerState answer data i (b, w))"
proof (cases "i = mb_PlayerId b")
  case True
  with inv show ?thesis by (simp add: WritePlayerState_def)
next
  case False
  let ?h = "GetRogueHeader M"
  let ?n = "unat (netPlayerStateSize ?h)"
  let ?o = "word_of_nat (?n * unat i) :: u32"
  let ?a = "state_pointer M + netPlayerStateOffset ?h + ?o"
  have l: "layout_ok ?h (blob_size (m_MultiplayerState M))" using ok by (simp add: run_ok_def)
  have "?n * unat i + ?n = ?n * Suc (unat i)" by simp
  also have "\<dots> \<le> ?n * unat (netPlayerCount ?h)" using i by (intro mult_le_mono2) simp
  finally have fits: "?n * unat i + ?n \<le> length data" by (simp add: size)
  with l size have "?n * unat i < 2 ^ 32" by (simp add: layout_ok_def)
  then have o: "unat ?o = ?n * unat i" by (rule unat_small_u32)
  with fits have inside: "unat ?o + ?n \<le> length data" by simp
  have p: "permitted M (fst R) ?a (length (take ?n (drop (unat ?o) data)))"
    by (rule permitted_slot) (use c i fits o in simp_all)
  have "run_inv M R E (b, access (unat ?o + ?n \<le> length data) w)"
    by (rule run_inv_same [OF inv access_same [OF inside]])
  from WriteRequest_inv [OF ok this p] obtain accepted w' where
      "WriteRequest answer ?a (take ?n (drop (unat ?o) data)) (b, access (unat ?o + ?n \<le> length data) w) = (accepted, b, w')"
      "run_inv M R E (b, w')" .
  with False run_inv_sel(1) [OF inv] show ?thesis by (simp add: WritePlayerState_def Let_def pointer)
qed

lemma HandlePlayerState_inv:
  assumes ok: "run_ok answer M" and inv: "run_inv M R E (b, w)" and R: "open_role R"
  shows "run_inv M R E (HandlePlayerState answer p st data (b, w))"
proof (cases "IsHost b")
  case True
  let ?h = "GetRogueHeader M"
  let ?a = "state_pointer M + netPlayerStateOffset ?h + word_of_nat (unat (netPlayerStateSize ?h) * unat (ps_PlayerId st))"
  have host: "fst R" using True run_inv_sel(4) [OF inv] by (simp add: IsHost_def)
  have "run_inv M R E (snd (WriteRequest answer ?a data (b, w)))"
    if "length data = unat (netPlayerStateSize ?h)" "IsValidClientPlayerId ?h (ps_PlayerId st)"
  proof -
    have "permitted M (fst R) ?a (length data)" by (rule permitted_slot) (use host that in simp_all)
    from WriteRequest_inv [OF ok inv this] show ?thesis by (metis snd_conv)
  qed
  with True RejectPeer_inv [OF inv R] run_inv_sel(1) [OF inv] show ?thesis
    by (simp add: HandlePlayerState_def Let_def pointer)
next
  case False
  let ?h = "GetRogueHeader M"
  let ?ids = "map word_of_nat [0..<unat (netPlayerCount ?h)] :: u8 list"
  have c: "fst R = False" using False run_inv_sel(4) [OF inv] by (simp add: IsHost_def)
  have count: "unat (netPlayerCount ?h) \<le> 255" using ok by (simp add: run_ok_def layout_ok_def)
  have "run_inv M R E (fold (WritePlayerState answer data) ?ids (b, w))"
    if size: "length data = unat (netPlayerStateSize ?h) * unat (netPlayerCount ?h)"
  proof (rule run_inv_fold [OF inv])
    fix i s assume i: "i \<in> set ?ids" and s: "run_inv M R E s"
    from i count have "unat i < unat (netPlayerCount ?h)" by (auto simp: unat_u8_of_nat)
    from WritePlayerState_inv [OF ok _ c R this size, of E "fst s" "snd s"] s
    show "run_inv M R E (WritePlayerState answer data i s)" by simp
  qed
  with False RejectPeer_inv [OF inv R] run_inv_sel(1) [OF inv] show ?thesis
    by (simp add: HandlePlayerState_def Let_def)
qed

lemma HandlePlayerProfiles_inv:
  assumes ok: "run_ok answer M" and inv: "run_inv M R E (b, w)" and R: "open_role R"
  shows "run_inv M R E (HandlePlayerProfiles answer p data (b, w))"
proof -
  let ?h = "GetRogueHeader M"
  let ?b = "b\<lparr>mb_ClientState := (mb_ClientState b)\<lparr>cs_PendingPlayerProfiles := data\<rparr>\<rparr>"
  have "run_inv M R E (?b, w)"
    if "\<not> IsHost b" "length data = unat (netPlayerProfileSize ?h) * unat (netPlayerCount ?h)"
    using run_inv_sel(4-6) [OF inv] R that
    by (intro run_inv_behaviour [OF inv]) (auto simp: conn_inv_def client_inv_def IsHost_def open_role_def)
  from TrySubmitClientPlayerProfiles_inv [OF ok this] RejectPeer_inv [OF inv R] run_inv_sel(1) [OF inv]
  show ?thesis by (simp add: HandlePlayerProfiles_def)
qed

lemma HandleGameState_inv:
  assumes ok: "run_ok answer M" and inv: "run_inv M R E (b, w)" and R: "open_role R"
  shows "run_inv M R E (HandleGameState answer p data (b, w))"
proof -
  let ?h = "GetRogueHeader M"
  have "run_inv M R E (snd (WriteRequest answer (state_pointer M + netGameStateOffset ?h) data (b, w)))"
    if "\<not> IsHost b" "length data = unat (netGameStateSize ?h)"
  proof -
    have "permitted M (fst R) (state_pointer M + netGameStateOffset ?h) (length data)"
      using that run_inv_sel(4) [OF inv] by (simp add: permitted_simps IsHost_def)
    from WriteRequest_inv [OF ok inv this] show ?thesis by (metis snd_conv)
  qed
  with RejectPeer_inv [OF inv R] run_inv_sel(1) [OF inv] show ?thesis by (simp add: HandleGameState_def pointer)
qed

lemma HandleIncomingMessage_inv:
  assumes ok: "run_ok answer M" and inv: "run_inv M R E (b, w)" and R: "open_role R"
  shows "run_inv M R E (HandleIncomingMessage answer p channel packet (b, w))"
proof (cases packet)
  case None
  with inv show ?thesis by (simp add: HandleIncomingMessage_def)
next
  case (Some data)
  let ?w = "access (IsMultiplayerStateValid M) w"
  have valid: "IsMultiplayerStateValid M" using ok by (simp add: run_ok_def)
  note inv' = run_inv_same [OF inv access_same [OF valid]]
  note cases = RejectPeer_inv [OF inv' R] HandleCompatibilityHello_inv [OF ok inv' R] HandleRomHandshake_inv [OF ok inv' R]
    HandlePlayerProfiles_inv [OF ok inv' R] HandleGameState_inv [OF ok inv' R] HandlePlayerState_inv [OF ok inv' R]
  show ?thesis
  proof (cases "map_of (mb_PeerStates b) p")
    case None
    with Some cases run_inv_sel(1) [OF inv] show ?thesis by (simp add: HandleIncomingMessage_def Let_def)
  next
    case peer: (Some st)
    have "peer_ok (GetRogueHeader M) st" using run_inv_sel(6) [OF inv] peer by (auto simp: conn_inv_def dest: peers_inv_get)
    then have "peer_ok (GetRogueHeader M) (st\<lparr>ps_EarlyHandshake := data\<rparr>)"
      if "\<not> ps_Compatible st" "length data = unat (netHandshakeSize (GetRogueHeader M))" using that by (simp add: peer_ok_def)
    with run_inv_sel(6) [OF inv'] have
        "run_inv M R E (b\<lparr>mb_PeerStates := AList.update p (st\<lparr>ps_EarlyHandshake := data\<rparr>) (mb_PeerStates b)\<rparr>, ?w)"
      if "\<not> ps_Compatible st" "length data = unat (netHandshakeSize (GetRogueHeader M))"
      using that by (intro run_inv_behaviour [OF inv'] conn_inv_update_peer) simp_all
    with Some peer cases run_inv_sel(1) [OF inv] show ?thesis by (simp add: HandleIncomingMessage_def Let_def)
  qed
qed


section \<open>Polling\<close>

lemma SendCompatibilityHello_inv:
  assumes inv: "run_inv M R E (b, w)" and R: "open_role R"
  shows "run_inv M R E (SendCompatibilityHello p (b, w))"
proof -
  have sent: "run_inv M R E (b, w')" if "SendPacket (Some p) Control encoded Reliable w = (ok, w')" for encoded ok w'
    using run_inv_same [OF inv SendPacket_same [OF that]] run_inv_sel(7) [OF inv R] by blast
  with RejectPeer_inv [OF inv R] RejectPeer_inv [OF sent R] show ?thesis
    by (auto simp: SendCompatibilityHello_def split: sum.split prod.split bool.split)
qed

lemma HandleEvent_inv:
  assumes ok: "run_ok answer M" and inv: "run_inv M R E (b, w)" and R: "open_role R"
  shows "run_inv M R E (HandleEvent answer e (b, w))"
proof -
  have alive: "mw_host w" by (rule run_inv_sel(7) [OF inv R])
  note used = run_inv_same [OF inv use_host_same [OF alive]]
  show ?thesis
  proof (cases e)
    case (PeerConnected p)
    have alive': "mw_host (use_host w)" by (rule run_inv_sel(7) [OF used R])
    obtain t w' where t: "now (use_host (use_host w)) = (t, w')" by (metis surj_pair)
    let ?st = "\<lparr>ps_HelloReceived = False, ps_Compatible = False, ps_RomConnected = False, ps_PlayerId = 0,
        ps_CompatibilityDeadline = t + CompatibilityTimeout, ps_EarlyHandshake = []\<rparr>"
    let ?b = "b\<lparr>mb_PeerStates := AList.update p ?st (mb_PeerStates b)\<rparr>"
    have inv': "run_inv M R E (b, w')"
      by (rule run_inv_same [OF run_inv_same [OF used use_host_same [OF alive']] now_same [OF t]])
    have upd: "run_inv M R E (?b, w')"
      using run_inv_sel(6) [OF inv'] by (intro run_inv_behaviour [OF inv'] conn_inv_update_peer) (simp_all add: peer_ok_def)
    then have "run_inv M R E (?b\<lparr>mb_ConnState := c\<rparr>, w')" for c
      by (rule run_inv_behaviour) (use run_inv_sel(6) [OF upd] in \<open>simp_all add: conn_inv_def\<close>)
    with upd have "run_inv M R E (if c then ?b\<lparr>mb_ConnState := AwaitingCompatibility\<rparr> else ?b, w')" for c by simp
    from SendCompatibilityHello_inv [OF this R] PeerConnected t show ?thesis by (simp add: HandleEvent_def Let_def)
  next
    case (PacketReceived p channel packet)
    with HandleIncomingMessage_inv [OF ok used R] show ?thesis by (simp add: HandleEvent_def)
  next
    case (PeerDisconnected p)
    with HandlePeerDisconnect_inv [OF used] show ?thesis by (simp add: HandleEvent_def)
  next
    case UnknownEvent
    with used show ?thesis by (simp add: HandleEvent_def)
  qed
qed

lemma RejectExpired_inv:
  assumes inv: "run_inv M R E (b, w)" and R: "open_role R"
  shows "run_inv M R E (RejectExpired (b, w))"
proof -
  obtain t w' where t: "now w = (t, w')" by (metis surj_pair)
  note inv' = run_inv_same [OF inv now_same [OF t]]
  have "run_inv M R E (fold (\<lambda>p. RejectPeer p m) ps (b, w'))" for ps m
    by (rule run_inv_fold [OF inv']) (metis RejectPeer_inv [OF _ R] prod.collapse)
  with t show ?thesis by (simp add: RejectExpired_def)
qed

lemma PollConnection_inv:
  assumes ok: "run_ok answer M" and inv: "run_inv M R E (b, w)"
  shows "run_inv M R E (PollConnection answer events (b, w))"
proof (cases "mb_NetServer b \<or> mb_NetClient b")
  case False
  with inv show ?thesis by (simp add: PollConnection_def)
next
  case True
  with run_inv_sel(4,5) [OF inv] have R: "open_role R" by (simp add: open_role_def)
  obtain b' w' where s: "fold (HandleEvent answer) events (b, w) = (b', w')" by (metis surj_pair)
  have "run_inv M R E (fold (HandleEvent answer) events (b, w))"
    by (rule run_inv_fold [OF inv]) (metis HandleEvent_inv [OF ok _ R] prod.collapse)
  then have s': "run_inv M R E (b', w')" using s by simp
  then have "run_inv M R E (b', use_host w')" by (rule run_inv_same [OF _ use_host_same [OF run_inv_sel(7) [OF s' R]]])
  from RejectExpired_inv [OF this R] s True show ?thesis by (auto simp: PollConnection_def)
qed

section \<open>The update\<close>

lemma run_inv_server:
  assumes "run_inv M R E (b, w)" and "ss_PendingHandshake ss = ss_PendingHandshake (mb_ServerState b)"
    and "ss_PendingHandshakeData ss = ss_PendingHandshakeData (mb_ServerState b)"
  shows "run_inv M R E (b\<lparr>mb_ServerState := ss\<rparr>, w)"
  using run_inv_sel(6) [OF assms(1)] assms(2,3)
  by (intro run_inv_behaviour [OF assms(1)]) (auto simp: conn_inv_def server_inv_def)

lemma BroadcastToConnectedPeers_inv:
  assumes inv: "run_inv M R E (b, w)" and "open_role R"
  shows "run_inv M R E (BroadcastToConnectedPeers channel data reliability (b, w))"
proof -
  let ?f = "\<lambda>(peer, state) w. if ps_Compatible state \<and> ps_RomConnected state
      then snd (SendPacket (Some peer) channel data reliability w) else w"
  have "run_inv M R E (b, fold ?f ps w)" if "run_inv M R E (b, w)" for ps w
    using that
  proof (induction ps arbitrary: w)
    case (Cons p ps)
    have "run_inv M R E (b, ?f p w)"
      using Cons.prems run_inv_sel(7) [OF Cons.prems assms(2)] SendPacket_same
      by (auto split: prod.split intro!: run_inv_same [OF Cons.prems]) (metis prod.collapse)
    with Cons.IH show ?case by simp
  qed simp
  with inv show ?thesis by (simp add: BroadcastToConnectedPeers_def)
qed

lemma layout_spans:
  assumes "run_ok answer M" and "mw_memory w = M"
  shows "unat (netPlayerProfileOffset (GetRogueHeader M)) + unat (netPlayerProfileSize (GetRogueHeader M)) * unat (netPlayerCount (GetRogueHeader M)) \<le> length (stateBlob w)"
    "unat (netPlayerStateOffset (GetRogueHeader M)) + unat (netPlayerStateSize (GetRogueHeader M)) * unat (netPlayerCount (GetRogueHeader M)) \<le> length (stateBlob w)"
    "unat (netGameStateOffset (GetRogueHeader M)) + unat (netGameStateSize (GetRogueHeader M)) \<le> length (stateBlob w)"
    "unat (netHandshakeOffset (GetRogueHeader M)) + unat (netHandshakeSize (GetRogueHeader M)) \<le> length (stateBlob w)"
    "unat (netRequestStateOffset (GetRogueHeader M)) < length (stateBlob w)"
    "unat (netHandshakeOffset (GetRogueHeader M) + netHandshakeStateOffset (GetRogueHeader M)) < length (stateBlob w)"
    "unat (netHandshakeOffset (GetRogueHeader M) + netHandshakePlayerIdOffset (GetRogueHeader M)) < length (stateBlob w)"
  using assms by (simp_all add: run_ok_def layout_ok_def length_stateBlob small_sum)

lemma slice_inv:
  assumes "run_inv M R E (b, w)" and "off + n \<le> length (stateBlob w)"
  shows "run_inv M R E (b, snd (slice off n w))"
  using assms by (metis prod.collapse run_inv_same slice_same)

lemma now_inv: "run_inv M R E (b, w) \<Longrightarrow> run_inv M R E (b, snd (now w))"
  by (metis prod.collapse run_inv_same now_same)

lemma length_stateBlob_run: "run_inv M R E (b, w) \<Longrightarrow> length (stateBlob w) = blob_size (m_MultiplayerState M)"
  by (simp add: length_stateBlob run_inv_sel(1))

lemma BroadcastProfiles_inv:
  assumes ok: "run_ok answer M" and inv: "run_inv M R E (b, w)" and R: "open_role R"
  shows "run_inv M R E (BroadcastProfiles (b, w))"
proof -
  let ?h = "GetRogueHeader M"
  obtain profiles w1 where 1: "slice (unat (netPlayerProfileOffset ?h)) (unat (netPlayerProfileSize ?h) * unat (netPlayerCount ?h)) w = (profiles, w1)"
    by (metis surj_pair)
  from slice_inv [OF inv layout_spans(1) [OF ok run_inv_sel(1) [OF inv]]] 1 have "run_inv M R E (b, w1)" by simp
  then have "run_inv M R E (b\<lparr>mb_ServerState := (mb_ServerState b)\<lparr>ss_PlayerProfiles := copy\<rparr>\<rparr>, w1)" for copy
    by (rule run_inv_server) simp_all
  with BroadcastToConnectedPeers_inv [OF this R] 1 run_inv_sel(1) [OF inv] show ?thesis
    by (simp add: BroadcastProfiles_def Let_def split: prod.split)
qed

lemma broadcast_due:
  assumes "run_inv M R E (b, w)" and "open_role R" and "off + n \<le> length (stateBlob w)"
  shows "run_inv M R E (if due then (case slice off n w of (data, w) \<Rightarrow> BroadcastToConnectedPeers c data reliability (b, w)) else (b, w))"
proof -
  obtain data w' where "slice off n w = (data, w')" by (metis surj_pair)
  with slice_inv [OF assms(1,3)] BroadcastToConnectedPeers_inv [OF _ assms(2)] assms(1) show ?thesis by simp
qed

lemma BroadcastGameState_inv:
  assumes ok: "run_ok answer M" and inv: "run_inv M R E (b, w)" and R: "open_role R"
  shows "run_inv M R E (BroadcastGameState (b, w))"
proof -
  obtain t w1 where t: "now w = (t, w1)" by (metis surj_pair)
  have i1: "run_inv M R E (b, w1)" using now_inv [OF inv] t by simp
  have i: "run_inv M R E (b\<lparr>mb_ServerState := (mb_ServerState b)\<lparr>ss_GameStateTimer := timer\<rparr>\<rparr>, w1)" for timer
    by (rule run_inv_server [OF i1]) simp_all
  obtain due timer where "TimerUpdate t (ss_GameStateTimer (mb_ServerState b)) = (due, timer)" by (metis surj_pair)
  with broadcast_due [OF i R layout_spans(3) [OF ok run_inv_sel(1) [OF i1]]] t run_inv_sel(1) [OF i1] show ?thesis
    by (simp add: BroadcastGameState_def Let_def split del: if_split cong: if_cong)
qed

lemma BroadcastPlayerStates_inv:
  assumes ok: "run_ok answer M" and inv: "run_inv M R E (b, w)" and R: "open_role R"
  shows "run_inv M R E (BroadcastPlayerStates (b, w))"
proof -
  obtain t w1 where t: "now w = (t, w1)" by (metis surj_pair)
  have i1: "run_inv M R E (b, w1)" using now_inv [OF inv] t by simp
  have i: "run_inv M R E (b\<lparr>mb_ServerState := (mb_ServerState b)\<lparr>ss_PlayerStateTimer := timer\<rparr>\<rparr>, w1)" for timer
    by (rule run_inv_server [OF i1]) simp_all
  obtain due timer where "TimerUpdate t (ss_PlayerStateTimer (mb_ServerState b)) = (due, timer)" by (metis surj_pair)
  with broadcast_due [OF i R layout_spans(2) [OF ok run_inv_sel(1) [OF i1]]] t run_inv_sel(1) [OF i1] show ?thesis
    by (simp add: BroadcastPlayerStates_def Let_def split del: if_split cong: if_cong)
qed

lemma HostConnectedUpdate_inv:
  assumes ok: "run_ok answer M" and inv: "run_inv M R E s" and R: "open_role R"
  shows "run_inv M R E (HostConnectedUpdate s)"
proof -
  from inv have "run_inv M R E (BroadcastProfiles s)" by (metis BroadcastProfiles_inv [OF ok _ R] prod.collapse)
  then have "run_inv M R E (BroadcastGameState (BroadcastProfiles s))" by (metis BroadcastGameState_inv [OF ok _ R] prod.collapse)
  then show ?thesis unfolding HostConnectedUpdate_def by (metis BroadcastPlayerStates_inv [OF ok _ R] prod.collapse)
qed

lemma run_inv_net_peer: "run_inv M R E (b, w) \<Longrightarrow> mb_NetPeer b \<noteq> None \<Longrightarrow> mw_host w"
  by (auto simp: run_inv_def conn_inv_def)

lemma ClientConnectedUpdate_inv:
  assumes ok: "run_ok answer M" and inv: "run_inv M R E (b, w)"
  shows "run_inv M R E (ClientConnectedUpdate (b, w))"
proof -
  let ?h = "GetRogueHeader M"
  let ?off = "unat (netPlayerStateOffset ?h) + unat (netPlayerStateSize ?h) * unat (mb_PlayerId b)"
  obtain t w1 where t: "now w = (t, w1)" by (metis surj_pair)
  have i1: "run_inv M R E (b, w1)" using now_inv [OF inv] t by simp
  have "run_inv M R E (b\<lparr>mb_ClientState := (mb_ClientState b)\<lparr>cs_PlayerStateTimer := timer\<rparr>\<rparr>, w1)" for timer
    using run_inv_sel(6) [OF i1] by (intro run_inv_behaviour [OF i1]) (auto simp: conn_inv_def client_inv_def)
  note i = this
  have sent: "run_inv M R E (b', snd (SendPacket (mb_NetPeer b') PlayerState data UnreliableFragment w'))"
    if "run_inv M R E (b', w')" for b' w' data
    using SendPacket_same [where w = w' and peer = "mb_NetPeer b'"] run_inv_net_peer [OF that] run_inv_same [OF that]
    by (metis prod.collapse)
  have "layout_ok ?h (blob_size (m_MultiplayerState M))" using ok by (simp add: run_ok_def)
  from slot_fits [OF this] valid_id have "?off + unat (netPlayerStateSize ?h) \<le> length (stateBlob w1)"
    if "IsValidClientPlayerId ?h (mb_PlayerId b)" using that by (simp add: length_stateBlob_run [OF i1])
  from sent [OF slice_inv [OF i this]] i t run_inv_sel(1) [OF i1] show ?thesis
    by (simp add: ClientConnectedUpdate_def Let_def split_beta)
qed

lemma FinishHostHandshake_inv:
  assumes ok: "run_ok answer M" and inv: "run_inv M R E (b, w)" and host: "IsHost b"
    and none: "ss_PendingHandshakeData (mb_ServerState b) = []"
  shows "run_inv M R E (snd (FinishHostHandshake p (b, w)))"
proof -
  let ?h = "GetRogueHeader M"
  have R: "open_role R" using host run_inv_sel(4) [OF inv] by (simp add: IsHost_def open_role_def)
  have i0: "run_inv M R E (b, access (IsHost b) w)" by (rule run_inv_same [OF inv access_same [OF host]])
  obtain x w1 where x: "peek (unat (netHandshakeOffset ?h + netHandshakeStateOffset ?h)) (access (IsHost b) w) = (x, w1)"
    by (metis surj_pair)
  have i1: "run_inv M R E (b, w1)"
    by (rule run_inv_same [OF i0 peek_same [OF x layout_spans(6) [OF ok run_inv_sel(1) [OF i0]]]])
  obtain i w2 where i: "peek (unat (netHandshakeOffset ?h + netHandshakePlayerIdOffset ?h)) w1 = (i, w2)" by (metis surj_pair)
  have i2: "run_inv M R E (b, w2)"
    by (rule run_inv_same [OF i1 peek_same [OF i layout_spans(7) [OF ok run_inv_sel(1) [OF i1]]]])
  let ?b = "b\<lparr>mb_ServerState := (mb_ServerState b)\<lparr>ss_PendingHandshake := None\<rparr>\<rparr>"
  have i3: "run_inv M R E (?b, w2)"
    using run_inv_sel(6) [OF i2] none by (intro run_inv_behaviour [OF i2]) (auto simp: conn_inv_def server_inv_def)
  obtain data w3 where d: "slice (unat (netHandshakeOffset ?h)) (unat (netHandshakeSize ?h)) w2 = (data, w3)" by (metis surj_pair)
  have same: "same_world w2 w3" by (rule slice_same [OF d layout_spans(4) [OF ok run_inv_sel(1) [OF i2]]])
  let ?c = "\<lambda>st. ?b\<lparr>mb_PeerStates := AList.update p (st\<lparr>ps_PlayerId := i, ps_RomConnected := True\<rparr>) (mb_PeerStates b)\<rparr>"
  have i4: "run_inv M R E (?c st, w3)"
    if "map_of (mb_PeerStates b) p = Some st" "ps_Compatible st" "IsValidClientPlayerId ?h i" for st
  proof -
    have "peer_ok ?h st" using run_inv_sel(6) [OF inv] that(1) by (auto simp: conn_inv_def dest: peers_inv_get)
    with that have "peer_ok ?h (st\<lparr>ps_PlayerId := i, ps_RomConnected := True\<rparr>)" by (simp add: peer_ok_def)
    from conn_inv_update_peer [OF run_inv_sel(6) [OF i3] this, of p]
    show ?thesis by (intro run_inv_same [OF run_inv_behaviour [OF i3] same]) simp_all
  qed
  have sent: "run_inv M R E (?c st, w')"
    if "map_of (mb_PeerStates b) p = Some st" "ps_Compatible st" "IsValidClientPlayerId ?h i"
      "SendPacket (Some p) Handshake data Reliable w3 = (ok', w')" for st ok' w'
    using run_inv_same [OF i4 [OF that(1-3)] SendPacket_same [OF that(4)]] run_inv_sel(7) [OF i4 [OF that(1-3)] R] by blast
  have finished: "run_inv M R E ((?c st)\<lparr>mb_ServerState := (mb_ServerState (?c st))\<lparr>ss_PlayerProfiles := []\<rparr>\<rparr>, w')"
    if "run_inv M R E (?c st, w')" for st w'
    by (rule run_inv_server [OF that]) simp_all
  show ?thesis
    using x i d i1 i3 RejectPeer_inv [OF i3 R] run_inv_sel(1) [OF inv] run_inv_sel(1) [OF i2] sent finished RejectPeer_inv [OF sent R]
    by (auto simp: FinishHostHandshake_def Let_def split: option.split prod.split bool.split)
qed


lemma AdvanceHandshake_inv:
  assumes ok: "run_ok answer M" and inv: "run_inv M R E (b, w)"
  shows "run_inv M R E (AdvanceHandshake answer (b, w))"
proof -
  let ?h = "GetRogueHeader M"
  have conn_state: "run_inv M R E (b\<lparr>mb_ConnState := c\<rparr>, w')" if "run_inv M R E (b, w')" for c w'
    using run_inv_sel(6) [OF that] by (intro run_inv_behaviour [OF that]) (simp_all add: conn_inv_def)
  consider "mb_ConnState b = Connecting \<or> mb_ConnState b = AwaitingCompatibility" | "mb_ConnState b = AwaitingHandshake"
    | "mb_ConnState b = AwaitingResponse" | "mb_ConnState b = ConnectionConfirmed" | "mb_ConnState b = Connected"
    by (cases "mb_ConnState b") auto
  then show ?thesis
  proof cases
    case 1
    obtain t w1 where t: "now w = (t, w1)" by (metis surj_pair)
    from now_inv [OF inv] t have "run_inv M R E (b, w1)" by simp
    with 1 t ReportAndRemove_inv [OF this] show ?thesis by (simp add: AdvanceHandshake_def)
  next
    case 2
    obtain x w1 where x: "peek (unat (netHandshakeOffset ?h + netHandshakeStateOffset ?h)) w = (x, w1)" by (metis surj_pair)
    have i1: "run_inv M R E (b, w1)"
      by (rule run_inv_same [OF inv peek_same [OF x layout_spans(6) [OF ok run_inv_sel(1) [OF inv]]]])
    obtain data w2 where d: "slice (unat (netHandshakeOffset ?h)) (unat (netHandshakeSize ?h)) w1 = (data, w2)" by (metis surj_pair)
    have i2: "run_inv M R E (b, w2)"
      by (rule run_inv_same [OF i1 slice_same [OF d layout_spans(4) [OF ok run_inv_sel(1) [OF i1]]]])
    obtain sent w3 where s: "SendPacket (mb_NetPeer b) Handshake data Reliable w2 = (sent, w3)" by (metis surj_pair)
    have i3: "run_inv M R E (b, w3)" by (rule run_inv_same [OF i2 SendPacket_same [OF s]]) (rule run_inv_net_peer [OF i2])
    from 2 x d s i1 conn_state [OF i3] ReportAndRemove_inv [OF i3] run_inv_sel(1) [OF inv] show ?thesis
      by (cases sent) (simp_all add: AdvanceHandshake_def Let_def)
  next
    case 3 with inv show ?thesis by (simp add: AdvanceHandshake_def)
  next
    case 4
    have "permitted M (fst R) (state_pointer M + netCurrentStateOffset ?h) (length [mb_RequestFlags b])"
      using permitted_simps(2) by simp
    from WriteRequest_inv [OF ok inv this] obtain accepted w' where
        r: "WriteRequest answer (state_pointer M + netCurrentStateOffset ?h) [mb_RequestFlags b] (b, w) = (accepted, b, w')"
        and i: "run_inv M R E (b, w')" .
    with 4 conn_state [OF i] run_inv_sel(1) [OF inv] show ?thesis
      by (cases accepted) (simp_all add: AdvanceHandshake_def SendMultiplayerConfirmationToGame_def pointer)
  next
    case 5
    have "run_inv M R E (ConnectedUpdate (b, w))"
    proof (cases "IsHost b")
      case True
      then have "open_role R" using run_inv_sel(4) [OF inv] by (simp add: IsHost_def open_role_def)
      with True HostConnectedUpdate_inv [OF ok inv] show ?thesis by (simp add: ConnectedUpdate_def)
    next
      case False
      with ClientConnectedUpdate_inv [OF ok inv] show ?thesis by (simp add: ConnectedUpdate_def)
    qed
    with 5 show ?thesis by (simp add: AdvanceHandshake_def)
  qed
qed

lemma SubmitPending_inv:
  assumes ok: "run_ok answer M" and inv: "run_inv M R E s" shows "run_inv M R E (SubmitPending answer s)"
proof -
  let ?s = "if cs_PendingHandshakeData (mb_ClientState (fst s)) \<noteq> [] then snd (TrySubmitClientHandshake answer s) else s"
  have "run_inv M R E ?s" using inv by (cases s) (simp add: TrySubmitClientHandshake_inv [OF ok])
  then show ?thesis by (cases ?s) (simp add: SubmitPending_def Let_def TrySubmitClientPlayerProfiles_inv [OF ok])
qed

lemma RunConnection_inv:
  assumes ok: "run_ok answer M" and inv: "run_inv M R E s" shows "run_inv M R E (RunConnection answer events s)"
proof -
  define s1 where "s1 = SubmitPending answer s"
  define had where "had \<longleftrightarrow> ss_PendingHandshakeData (mb_ServerState (fst s1)) \<noteq> []"
  define s2 where "s2 = (if had then snd (TrySubmitHostHandshake answer s1) else s1)"
  define before where "before = ss_PendingHandshake (mb_ServerState (fst s2))"
  define s3 where "s3 = PollConnection answer events s2"
  have i1: "run_inv M R E s1" unfolding s1_def by (rule SubmitPending_inv [OF ok inv])
  have i2: "run_inv M R E s2" using i1 TrySubmitHostHandshake_inv [OF ok] unfolding s2_def by (metis prod.collapse)
  have i3: "run_inv M R E s3" using i2 PollConnection_inv [OF ok] unfolding s3_def by (metis prod.collapse)
  have advance: "run_inv M R E (AdvanceHandshake answer s')" if "run_inv M R E s'" for s'
    using that AdvanceHandshake_inv [OF ok] by (metis prod.collapse)
  have finish: "run_inv M R E (case FinishHostHandshake p s3 of (True, s) \<Rightarrow> s | (False, s) \<Rightarrow> AdvanceHandshake answer s)"
    if "ss_PendingHandshake (mb_ServerState (fst s3)) = Some p" "ss_PendingHandshakeData (mb_ServerState (fst s3)) = []" for p
  proof -
    obtain b w where s3: "s3 = (b, w)" by (metis surj_pair)
    have "IsHost b" using i3 that(1) by (auto simp: s3 run_inv_def conn_inv_def server_inv_def IsHost_def)
    moreover obtain over b' w' where f: "FinishHostHandshake p (b, w) = (over, b', w')" by (metis surj_pair)
    ultimately have "run_inv M R E (b', w')"
      using FinishHostHandshake_inv [OF ok i3 [unfolded s3], of p] that(2) by (simp add: s3)
    with advance [OF this] f show ?thesis by (cases over) (simp_all add: s3)
  qed
  have "RunConnection answer events s = (case (if had then None else before) of None \<Rightarrow> AdvanceHandshake answer s3
     | Some peer \<Rightarrow> if ss_PendingHandshake (mb_ServerState (fst s3)) = Some peer \<and> ss_PendingHandshakeData (mb_ServerState (fst s3)) = []
         then (case FinishHostHandshake peer s3 of (True, s) \<Rightarrow> s | (False, s) \<Rightarrow> AdvanceHandshake answer s) else AdvanceHandshake answer s3)"
    unfolding RunConnection_def Let_def s1_def [symmetric] had_def [symmetric] s2_def [symmetric] before_def [symmetric] s3_def [symmetric]
    by (rule refl)
  with advance [OF i3] finish show ?thesis by (auto split: option.split)
qed

end
