(* ===== verification/MultiplayerSteps.thy ===== *)
theory MultiplayerSteps
  imports MultiplayerInv
begin

text \<open>
  The reachable states of the multiplayer behaviour: updates with any events of the network, any
  outcome of the calls of ENet, the observed memory changing between updates, an address given by the
  user, and the removal of the behaviour. In \<open>mp_reachable\<close> the session rejects only invalid writes and
  the state lies in memory that may be written; \<open>mp_run\<close> is without both.
\<close>

section \<open>One update\<close>

definition mp_inv :: "Multi \<Rightarrow> bool" where
  "mp_inv s \<longleftrightarrow> (case s of (b, w) \<Rightarrow> \<not> mw_fault w \<and> conn_inv (hdr w) (mw_host w) b
     \<and> (\<not> mb_HasAttemptedConnection b \<longrightarrow> \<not> mb_NetServer b \<and> \<not> mb_NetClient b))"

lemma mp_inv_run:
  "mp_inv (b, w) \<Longrightarrow> \<not> mw_disconnected w \<Longrightarrow> run_inv (mw_memory w) (role b) (mw_effects w) (b, w)"
  by (auto simp: mp_inv_def run_inv_def)

text \<open>What an update leaves behind.\<close>

definition updated :: "Multi \<Rightarrow> Multi \<Rightarrow> bool" where
  "updated s s' \<longleftrightarrow> mp_inv s' \<and> mw_memory (snd s') = mw_memory (snd s) \<and> \<not> mw_disconnected (snd s')
     \<and> (\<exists>new. mw_effects (snd s') = mw_effects (snd s) @ new
          \<and> list_all (permitted_effect (mw_memory (snd s)) (mb_NetServer (fst s))) new)"

lemma run_inv_updated:
  assumes "run_inv (mw_memory w) (role b) (mw_effects w) s'" and "mp_inv (b, w)"
  shows "updated (b, w) s'"
  using assms by (cases s') (auto simp: run_inv_def updated_def mp_inv_def role_def)

lemma updated_effects:
  assumes "mp_inv (b', w')" and "mw_memory w' = mw_memory w" and "\<not> mw_disconnected w'"
    and "mw_effects w' = mw_effects w @ new" and "list_all (permitted_effect (mw_memory w) (mb_NetServer b)) new"
  shows "updated (b, w) (b', w')"
  using assms by (auto simp: updated_def)

lemma conn_inv_open:
  assumes "conn_inv h alive b" and "\<not> mb_NetServer b" "\<not> mb_NetClient b" and "\<not> (mb_NetServer b' \<and> mb_NetClient b')"
    and "mb_NetServer b' \<or> mb_NetClient b' \<longrightarrow> alive'"
    and "mb_PeerStates b' = mb_PeerStates b" "mb_ServerState b' = mb_ServerState b" "mb_ClientState b' = mb_ClientState b"
    and "mb_NetPeer b' \<noteq> None \<longrightarrow> mb_NetClient b'"
  shows "conn_inv h alive' b'"
  using assms by (auto simp: conn_inv_def server_inv_def client_inv_def)

text \<open>The states that opening a connection can end in.\<close>

definition opened :: "Multi \<Rightarrow> Multi \<Rightarrow> bool" where
  "opened s s' \<longleftrightarrow> (case (s, s') of ((b, w), (b', w')) \<Rightarrow>
     \<not> (mb_NetServer b' \<and> mb_NetClient b') \<and> (mb_NetServer b' \<or> mb_NetClient b' \<longrightarrow> mw_host w')
     \<and> mb_PeerStates b' = mb_PeerStates b \<and> mb_ServerState b' = mb_ServerState b \<and> mb_ClientState b' = mb_ClientState b
     \<and> (mb_NetPeer b' \<noteq> None \<longrightarrow> mb_NetClient b') \<and> mb_HasAttemptedConnection b' = mb_HasAttemptedConnection b
     \<and> mw_memory w' = mw_memory w \<and> mw_disconnected w' = mw_disconnected w \<and> mw_fault w' = mw_fault w
     \<and> (\<exists>new. mw_effects w' = mw_effects w @ new \<and> set new \<subseteq> {RemoveMultiplayer} \<union> range ReportError))"

lemma enet_sel [simp]:
  "enet w = (mw_enet w (mw_calls w), w\<lparr>mw_calls := Suc (mw_calls w)\<rparr>)" by (simp add: enet_def)

lemma OpenHostConnection_opened:
  assumes "\<not> mb_NetServer b" "\<not> mb_NetClient b" "mb_NetPeer b = None"
  shows "opened (b, w) (OpenHostConnection (b, w))"
  using assms by (auto simp: OpenHostConnection_def opened_def ReportAndRemove_def split: bool.split)

lemma OpenClientConnection_opened:
  assumes "\<not> mb_NetServer b" "\<not> mb_NetClient b" "mb_NetPeer b = None"
  shows "opened (b, w) (OpenClientConnection (b, w))"
proof -
  have "opened (b, w) (ConnectClient (b\<lparr>mb_EnetInitialised := True, mb_NetClient := True\<rparr>,
      w\<lparr>mw_calls := c, mw_host := True\<rparr>))" for c
    using assms
    by (auto simp: ConnectClient_def opened_def ReportAndRemove_def Let_def use_host_def access_def effect_def now_def
        split: option.split bool.split)
  with assms show ?thesis
    by (auto simp: OpenClientConnection_def opened_def ReportAndRemove_def split: bool.split)
qed

lemma OpenConnection_updated:
  assumes inv: "mp_inv (b, w)" and "\<not> mb_HasAttemptedConnection b" and "\<not> mw_disconnected w"
  shows "updated (b, w) (OpenConnection (b, w))"
proof -
  have closed: "\<not> mb_NetServer b" "\<not> mb_NetClient b" "mb_NetPeer b = None"
    using assms(1,2) by (auto simp: mp_inv_def conn_inv_def)
  have up: "updated (b, w) s'" if "opened (b\<lparr>mb_HasAttemptedConnection := True, mb_Port := p\<rparr>, w) s'" for p s'
  proof -
    obtain b' w' where s': "s' = (b', w')" by (metis surj_pair)
    from that obtain new where new: "mw_effects w' = mw_effects w @ new" "set new \<subseteq> {RemoveMultiplayer} \<union> range ReportError"
      by (auto simp: opened_def s')
    have "list_all (permitted_effect M H) new" for M H using new(2) by (induction new) auto
    moreover have "mp_inv (b', w')"
      using that inv closed conn_inv_open [of "hdr w" "mw_host w" b b' "mw_host w'"] by (auto simp: mp_inv_def opened_def s')
    ultimately show ?thesis using that new(1) assms(3) by (auto simp: updated_def opened_def s')
  qed
  have same: "b\<lparr>mb_HasAttemptedConnection := True\<rparr> = b\<lparr>mb_HasAttemptedConnection := True, mb_Port := mb_Port b\<rparr>" by simp
  have removed: "opened (b', w) (ReportAndRemove m (b', w))" if "\<not> mb_NetServer b'" "\<not> mb_NetClient b'" "mb_NetPeer b' = None" for b' m
    using that by (auto simp: opened_def ReportAndRemove_def)
  show ?thesis
  proof (cases "mb_ConnectionAddressRaw b = []")
    case True
    with inv assms(3) show ?thesis by (simp add: OpenConnection_def updated_def)
  next
    case False
    note host = up [OF OpenHostConnection_opened] and client = up [OF OpenClientConnection_opened, where p = "mb_Port b", folded same]
      and bad = up [OF removed, where p = "mb_Port b", folded same]
    from False closed host client bad show ?thesis
      by (auto simp: OpenConnection_def Let_def split: option.split)
  qed
qed

lemma LayoutValid_ok: "LayoutValid w \<Longrightarrow> layout_ok (hdr w) (blob_size (m_MultiplayerState (mw_memory w)))"
  by (simp add: LayoutValid_def ValidateMultiplayerLayout_ok)

lemma OnUpdate_updated:
  assumes inv: "mp_inv (b, w)" and conn: "\<not> mw_disconnected w" and answers: "session_answers answer"
    and writable: "IsMultiplayerStateValid (mw_memory w) \<Longrightarrow> writable_state (mw_memory w)"
  shows "updated (b, w) (OnUpdate answer events (b, w))"
proof -
  note run = mp_inv_run [OF inv conn]
  have by_run: "updated (b, w) s'" if "run_inv (mw_memory w) (role b) (mw_effects w) s'" for s'
    by (rule run_inv_updated [OF that inv])
  show ?thesis
  proof (cases "IsMultiplayerStateValid (mw_memory w) \<and> LayoutValid w")
    case False
    with by_run [OF run] by_run [OF ReportAndRemove_inv [OF run]] show ?thesis by (auto simp: OnUpdate_def)
  next
    case True
    then have ok: "run_ok answer (mw_memory w)" using answers writable LayoutValid_ok by (simp add: run_ok_def)
    show ?thesis
    proof (cases "mb_HasAttemptedConnection b")
      case False
      with True OpenConnection_updated [OF inv False conn] show ?thesis by (simp add: OnUpdate_def)
    next
      case attempted: True
      obtain x w1 where x: "peek (unat (netRequestStateOffset (hdr w))) w = (x, w1)" by (metis surj_pair)
      have i1: "run_inv (mw_memory w) (role b) (mw_effects w) (b, w1)"
        by (rule run_inv_same [OF run peek_same [OF x layout_spans(5) [OF ok refl]]])
      from True attempted x by_run [OF run_inv_effect [OF i1]] by_run [OF RunConnection_inv [OF ok i1]]
      show ?thesis by (simp add: OnUpdate_def)
    qed
  qed
qed


section \<open>Closing and attaching\<close>

lemma CloseConnection_inv:
  assumes "mp_inv (b, w)" shows "mp_inv (CloseConnection (b, w)) \<and> mw_memory (snd (CloseConnection (b, w))) = mw_memory w"
proof -
  obtain b' w' where c: "CloseConnection (b, w) = (b', w')" by (metis surj_pair)
  have conn: "conn_inv (hdr w) (mw_host w) b" and fault: "\<not> mw_fault w" using assms by (simp_all add: mp_inv_def)
  have w': "mw_memory w' = mw_memory w \<and> \<not> mw_fault w'"
    using c conn fault by (auto simp: CloseConnection_def Let_def use_host_def conn_inv_def split: if_splits)
  have b': "\<not> mb_NetServer b' \<and> \<not> mb_NetClient b' \<and> mb_PeerStates b' = [] \<and> mb_NetPeer b' = None
      \<and> ss_PendingHandshake (mb_ServerState b') = None \<and> ss_PendingHandshakeData (mb_ServerState b') = []
      \<and> cs_PendingHandshakeData (mb_ClientState b') = [] \<and> cs_PendingPlayerProfiles (mb_ClientState b') = []"
    using c conn by (auto simp: CloseConnection_def Let_def conn_inv_def dropPending_def split: if_splits)
  then have "conn_inv h alive b'" for h alive
    by (simp add: conn_inv_def peers_inv_def server_inv_def client_inv_def)
  with b' w' c show ?thesis by (simp add: mp_inv_def)
qed

lemma OnAttach_inv:
  assumes "\<not> mw_fault w" shows "mp_inv (OnAttach (newMultiplayerBehaviour, w))"
proof -
  have "unat (netRequestStateOffset (hdr w)) < length (stateBlob w)" if "LayoutValid w"
    using LayoutValid_ok [OF that] by (simp add: layout_ok_def length_stateBlob)
  with assms show ?thesis
    by (auto simp: OnAttach_def Let_def peek_def mp_inv_def conn_inv_def peers_inv_def server_inv_def client_inv_def
        newMultiplayerBehaviour_def dropPending_def)
qed

section \<open>Steps\<close>

text \<open>
  As for the Home Box, the answer to a read keeps the header: the ROM cannot change. An update runs
  while the game is connected, and the state of the ROM, when it is valid, lies in writable memory.
\<close>

inductive mp_step :: "Multi \<Rightarrow> Multi \<Rightarrow> bool" where
  update: "\<not> mw_disconnected w \<Longrightarrow> session_answers answer \<Longrightarrow>
    (IsMultiplayerStateValid (mw_memory w) \<Longrightarrow> writable_state (mw_memory w)) \<Longrightarrow>
    mp_step (b, w) (OnUpdate answer events (b, w))"
| observe: "m' = snd (ObservedUpdate (mw_memory w)) \<Longrightarrow> mp_step (b, w) (b, w\<lparr>mw_memory := m'\<rparr>)"
| answer: "m' = snd (OnRecieveMessage messageId bytes (mw_memory w)) \<Longrightarrow>
    m_Value (m_RogueHeader m') = m_Value (m_RogueHeader (mw_memory w)) \<Longrightarrow> mp_step (b, w) (b, w\<lparr>mw_memory := m'\<rparr>)"
| address: "mp_step (b, w) (ProvideConnectionAddress addr b, w)"
| detach: "mp_step (b, w) (CloseConnection (b, w\<lparr>mw_disconnected := True\<rparr>))"

inductive mp_reachable :: "Multi \<Rightarrow> bool" where
  attach: "\<not> mw_fault w \<Longrightarrow> mp_reachable (OnAttach (newMultiplayerBehaviour, w))"
| step: "mp_reachable s \<Longrightarrow> mp_step s t \<Longrightarrow> mp_reachable t"

inductive_cases mp_stepE: "mp_step s t"

lemma GetRogueHeader_cong: "m_Value (m_RogueHeader m') = m_Value (m_RogueHeader m) \<Longrightarrow> GetRogueHeader m' = GetRogueHeader m"
  by (simp add: GetRogueHeader_def rogue_u32_def)

lemma mp_inv_memory:
  "mp_inv (b, w) \<Longrightarrow> m_Value (m_RogueHeader m') = m_Value (m_RogueHeader (mw_memory w)) \<Longrightarrow> mp_inv (b, w\<lparr>mw_memory := m'\<rparr>)"
  using GetRogueHeader_cong [of m' "mw_memory w"] by (simp add: mp_inv_def)

lemma mp_step_inv: "mp_step s t \<Longrightarrow> mp_inv s \<Longrightarrow> mp_inv t"
proof (induction rule: mp_step.induct)
  case (update w answer b events)
  from OnUpdate_updated [OF update.prems update.hyps] show ?case by (simp add: updated_def)
next
  case (observe m' w b)
  then show ?case by (intro mp_inv_memory) (simp_all add: ObservedUpdate_keeps)
next
  case (answer m' messageId bytes w b)
  then show ?case by (intro mp_inv_memory)
next
  case (address b w addr)
  then show ?case by (auto simp: mp_inv_def ProvideConnectionAddress_def conn_inv_def)
next
  case (detach b w)
  have "mp_inv (b, w\<lparr>mw_disconnected := True\<rparr>)" using detach by (simp add: mp_inv_def)
  from CloseConnection_inv [OF this] show ?case by simp
qed

lemma mp_reachable_inv: "mp_reachable s \<Longrightarrow> mp_inv s"
  by (induction rule: mp_reachable.induct) (simp_all add: OnAttach_inv mp_step_inv)

section \<open>Runs of any session\<close>

text \<open>
  The same steps under any session and any state: the run records, for every update, the session's answers
  and the memory the update saw, and assumes nothing of them.
\<close>

inductive mp_run :: "((GameEffect \<Rightarrow> Answer) \<times> ObservedGameMemory) list \<Rightarrow> Multi \<Rightarrow> bool" where
  attach: "\<not> mw_fault w \<Longrightarrow> mp_run [] (OnAttach (newMultiplayerBehaviour, w))"
| update: "mp_run us (b, w) \<Longrightarrow> \<not> mw_disconnected w \<Longrightarrow>
    mp_run (us @ [(answer, mw_memory w)]) (OnUpdate answer events (b, w))"
| observe: "mp_run us (b, w) \<Longrightarrow> m' = snd (ObservedUpdate (mw_memory w)) \<Longrightarrow> mp_run us (b, w\<lparr>mw_memory := m'\<rparr>)"
| answer: "mp_run us (b, w) \<Longrightarrow> m' = snd (OnRecieveMessage messageId bytes (mw_memory w)) \<Longrightarrow>
    m_Value (m_RogueHeader m') = m_Value (m_RogueHeader (mw_memory w)) \<Longrightarrow> mp_run us (b, w\<lparr>mw_memory := m'\<rparr>)"
| address: "mp_run us (b, w) \<Longrightarrow> mp_run us (ProvideConnectionAddress addr b, w)"
| detach: "mp_run us (b, w) \<Longrightarrow> mp_run us (CloseConnection (b, w\<lparr>mw_disconnected := True\<rparr>))"

text \<open>What an update needs of the two: the session rejects only what the validation of requests rejects, and a
  valid state lies in memory that may be written.\<close>

definition fair_update :: "(GameEffect \<Rightarrow> Answer) \<times> ObservedGameMemory \<Rightarrow> bool" where
  "fair_update u \<longleftrightarrow> session_answers (fst u) \<and> (IsMultiplayerStateValid (snd u) \<longrightarrow> writable_state (snd u))"

lemma mp_run_reachable: "mp_run us s \<Longrightarrow> list_all fair_update us \<Longrightarrow> mp_reachable s"
proof (induction rule: mp_run.induct)
  case (update us b w answer events)
  then have "mp_step (b, w) (OnUpdate answer events (b, w))" by (intro mp_step.update) (simp_all add: fair_update_def)
  with update show ?case by (auto intro: mp_reachable.step)
qed (auto intro: mp_reachable.intros mp_step.intros)

end
