(* ===== verification/MultiplayerProps.thy ===== *)
theory MultiplayerProps
  imports MultiplayerSteps
begin

text \<open>
  The properties of multiplayer: memory safety and the state machine of the peers, the writes an update
  may ask for, the admission of peers, the order of hello and handshake, what the host broadcasts and
  to whom, and what a client writes of the other players.
\<close>


text \<open>
  C33. An update writes only inside the multiplayer state, and only the parts its role may write: the
  confirmation byte, the handshake block, as a host the state of a client's player, as a client the
  game state, the profiles and the players' states. It reads nothing and never disconnects the game.
\<close>

theorem multiplayer_writes_inside:
  assumes "mp_reachable (b, w)" and "\<not> mw_disconnected w" and "session_answers answer"
    and "IsMultiplayerStateValid (mw_memory w) \<Longrightarrow> writable_state (mw_memory w)"
    and "LayoutValid w"
  shows "\<exists>new. mw_effects (snd (OnUpdate answer events (b, w))) = mw_effects w @ new
    \<and> (\<forall>e \<in> set new. (case e of
          WriteReq i a bs \<Rightarrow> permitted (mw_memory w) (IsHost b) a (length bs)
            \<and> (\<exists>off. a = GetMultiplayerStatePtr w + word_of_nat off \<and> 0 < length bs
                 \<and> off + length bs \<le> blob_size (m_MultiplayerState (mw_memory w)))
        | ReportError m \<Rightarrow> True | RemoveMultiplayer \<Rightarrow> True | _ \<Rightarrow> False))"
proof -
  obtain new where new: "mw_effects (snd (OnUpdate answer events (b, w))) = mw_effects w @ new"
      "list_all (permitted_effect (mw_memory w) (IsHost b)) new"
    using OnUpdate_updated [OF mp_reachable_inv [OF assms(1)] assms(2-4)] by (auto simp: updated_def IsHost_def)
  have "case e of WriteReq i a bs \<Rightarrow> permitted (mw_memory w) (IsHost b) a (length bs)
            \<and> (\<exists>off. a = GetMultiplayerStatePtr w + word_of_nat off \<and> 0 < length bs
                 \<and> off + length bs \<le> blob_size (m_MultiplayerState (mw_memory w)))
        | ReportError m \<Rightarrow> True | RemoveMultiplayer \<Rightarrow> True | _ \<Rightarrow> False"
    if "permitted_effect (mw_memory w) (IsHost b) e" for e
    using that permitted_inside [OF LayoutValid_ok [OF assms(5)], of "IsHost b"] by (cases e) (auto simp: pointer)
  with new show ?thesis by (auto simp: list_all_iff)
qed

section \<open>Admission\<close>

definition localHello :: "MultiplayerWorld \<Rightarrow> Hello" where
  "localHello w = BuildCompatibilityHello (hdr w)"

lemma RejectPeer_peers: "map_of (mb_PeerStates (fst (RejectPeer p m (b, w)))) = (map_of (mb_PeerStates b))(p := None)"
  by (simp add: RejectPeer_def Let_def)

text \<open>The hello is the peer's first and the encoding of a valid hello of the same game.\<close>

definition admits :: "Hello \<Rightarrow> PeerState \<Rightarrow> bytes \<Rightarrow> bool" where
  "admits local st data \<longleftrightarrow> \<not> ps_HelloReceived st \<and> valid_hello local \<and> (\<exists>remote. EncodeHello remote = Ok data \<and> same_game local remote)"

definition admitted :: "PeerState \<Rightarrow> PeerState" where
  "admitted st = st\<lparr>ps_HelloReceived := True, ps_Compatible := True, ps_EarlyHandshake := []\<rparr>"

text \<open>The behaviour with the peer admitted; a client that waited for it now waits for the ROM.\<close>

definition admit_peer :: "ENetPeer \<Rightarrow> PeerState \<Rightarrow> MultiplayerBehaviour \<Rightarrow> MultiplayerBehaviour" where
  "admit_peer p st b = b\<lparr>mb_PeerStates := AList.update p (admitted st) (mb_PeerStates b),
     mb_ConnState := (if \<not> IsHost b \<and> mb_NetPeer b = Some p \<and> mb_ConnState b = AwaitingCompatibility
                      then AwaitingHandshake else mb_ConnState b)\<rparr>"

lemma admit_peer_sel [simp]:
  "map_of (mb_PeerStates (admit_peer p st b)) = (map_of (mb_PeerStates b))(p \<mapsto> admitted st)"
  "mb_ServerState (admit_peer p st b) = mb_ServerState b" "IsHost (admit_peer p st b) = IsHost b"
  "ps_Compatible (admitted st)" "ps_RomConnected (admitted st) = ps_RomConnected st"
  by (simp_all add: admit_peer_def admitted_def update_conv' IsHost_def)

lemma hello_outcome:
  assumes "map_of (mb_PeerStates b) p = Some st"
  shows "admits (localHello w) st data \<Longrightarrow> HandleCompatibilityHello answer p data (b, w) =
      (if ps_EarlyHandshake st = [] then (admit_peer p st b, w)
       else HandleRomHandshake answer p (ps_EarlyHandshake st) (admit_peer p st b, w))"
    and "\<not> admits (localHello w) st data \<Longrightarrow> \<exists>m. HandleCompatibilityHello answer p data (b, w) = RejectPeer p m (b, w)"
proof -
  have local: "BuildCompatibilityHello (hdr w) = localHello w" by (simp add: localHello_def)
  have decoded: "EncodeHello r = Ok data \<longleftrightarrow> DecodeHello data = Ok r" for r
    by (metis DecodeHello_iff EncodeHello_Ok_iff)
  have compat: "compatible (CheckCompatibility (localHello w) r) \<longleftrightarrow> valid_hello (localHello w) \<and> same_game (localHello w) r"
    if "DecodeHello data = Ok r" for r
    using that by (auto simp: CheckCompatibility_compatible DecodeHello_iff)
  have cases: "admits (localHello w) st data \<longleftrightarrow> \<not> ps_HelloReceived st \<and>
      (case DecodeHello data of Inl e \<Rightarrow> False | Inr r \<Rightarrow> compatible (CheckCompatibility (localHello w) r))"
  proof (cases "DecodeHello data")
    case (Inr r)
    show ?thesis unfolding admits_def decoded using compat [OF Inr] Inr by auto
  qed (simp add: admits_def decoded)
  show "admits (localHello w) st data \<Longrightarrow> HandleCompatibilityHello answer p data (b, w) =
      (if ps_EarlyHandshake st = [] then (admit_peer p st b, w)
       else HandleRomHandshake answer p (ps_EarlyHandshake st) (admit_peer p st b, w))"
    unfolding cases using assms
    by (cases "DecodeHello data") (simp_all add: HandleCompatibilityHello_def Let_def local admit_peer_def admitted_def IsHost_def)
  show "\<not> admits (localHello w) st data \<Longrightarrow> \<exists>m. HandleCompatibilityHello answer p data (b, w) = RejectPeer p m (b, w)"
    unfolding cases using assms
    by (cases "DecodeHello data") (auto simp: HandleCompatibilityHello_def Let_def local)
qed

text \<open>The handshake that was kept, on a host: refused, or submitted to the ROM.\<close>

lemma host_early_handshake:
  assumes "IsHost b" and "map_of (mb_PeerStates b) p = Some st" and "ps_Compatible st" and "data \<noteq> []"
    and "\<forall>i a bs. answer (WriteReq i a bs) \<noteq> Rejected"
  shows "map_of (mb_PeerStates (fst (HandleRomHandshake answer p data (b, w)))) =
     (if length data = unat (netHandshakeSize (hdr w)) \<and> \<not> ps_RomConnected st \<and> ss_PendingHandshake (mb_ServerState b) = None
      then map_of (mb_PeerStates b) else (map_of (mb_PeerStates b))(p := None))"
  using assms
  by (auto simp: HandleRomHandshake_def RejectPeer_peers TrySubmitHostHandshake_def WriteRequest_def Let_def split: Answer.split)

text \<open>
  C34. When a hello admits a peer. It is admitted exactly when the hello is the peer's first and the encoding of a valid hello of
  the same game as the local one, and, on a host that has kept a ROM handshake which came before the hello, when that
  handshake has the size of the ROM's and can start at once: the peer is not connected to the ROM and no other peer's handshake is
  pending. Otherwise the peer is forgotten. No other peer is touched, as long as the session does not reject the
  write of the handshake. On a client, a kept handshake is handled as if it arrived right after the admission.
\<close>

theorem multiplayer_admission:
  assumes "map_of (mb_PeerStates b) p = Some st"
  shows "(ps_EarlyHandshake st = [] \<or> IsHost b \<and> (\<forall>i a bs. answer (WriteReq i a bs) \<noteq> Rejected) \<longrightarrow> map_of (mb_PeerStates (fst (HandleCompatibilityHello answer p data (b, w)))) =
      (map_of (mb_PeerStates b))(p :=
         if \<not> ps_HelloReceived st \<and> valid_hello (localHello w) \<and> (\<exists>remote. EncodeHello remote = Ok data \<and> same_game (localHello w) remote)
           \<and> (ps_EarlyHandshake st = [] \<or> length (ps_EarlyHandshake st) = unat (netHandshakeSize (hdr w)) \<and> \<not> ps_RomConnected st
              \<and> ss_PendingHandshake (mb_ServerState b) = None)
         then Some (st\<lparr>ps_HelloReceived := True, ps_Compatible := True, ps_EarlyHandshake := []\<rparr>) else None))
    \<and> (ps_EarlyHandshake st \<noteq> [] \<and> \<not> IsHost b \<longrightarrow>
      (if \<not> ps_HelloReceived st \<and> valid_hello (localHello w) \<and> (\<exists>remote. EncodeHello remote = Ok data \<and> same_game (localHello w) remote)
       then HandleCompatibilityHello answer p data (b, w)
         = HandleRomHandshake answer p (ps_EarlyHandshake st)
             (HandleCompatibilityHello answer p data
               (b\<lparr>mb_PeerStates := AList.update p (st\<lparr>ps_EarlyHandshake := []\<rparr>) (mb_PeerStates b)\<rparr>, w))
       else map_of (mb_PeerStates (fst (HandleCompatibilityHello answer p data (b, w)))) = (map_of (mb_PeerStates b))(p := None)))"
proof (cases "admits (localHello w) st data")
  case False
  from hello_outcome(2) [OF assms(1) False] obtain m
    where "HandleCompatibilityHello answer p data (b, w) = RejectPeer p m (b, w)" by blast
  with False show ?thesis by (simp add: RejectPeer_peers admits_def) blast
next
  case True
  note outcome = hello_outcome(1) [OF assms(1) True]
  let ?b = "b\<lparr>mb_PeerStates := AList.update p (st\<lparr>ps_EarlyHandshake := []\<rparr>) (mb_PeerStates b)\<rparr>"
  have peer: "map_of (mb_PeerStates ?b) p = Some (st\<lparr>ps_EarlyHandshake := []\<rparr>)" by (simp add: update_conv')
  have again: "admits (localHello w) (st\<lparr>ps_EarlyHandshake := []\<rparr>) data" using True by (simp add: admits_def)
  have "AList.update p x (AList.update p y xs) = AList.update p x xs" for x y :: PeerState and xs by (induction xs) auto
  then have same: "admit_peer p (st\<lparr>ps_EarlyHandshake := []\<rparr>) ?b = admit_peer p st b"
    by (simp add: admit_peer_def admitted_def IsHost_def)
  note kept = hello_outcome(1) [OF peer again, where answer = answer, unfolded same]
  have host: "IsHost b \<Longrightarrow> \<forall>i a bs. answer (WriteReq i a bs) \<noteq> Rejected \<Longrightarrow> ps_EarlyHandshake st \<noteq> [] \<Longrightarrow>
      map_of (mb_PeerStates (fst (HandleRomHandshake answer p (ps_EarlyHandshake st) (admit_peer p st b, w)))) =
      (map_of (mb_PeerStates b))(p := if length (ps_EarlyHandshake st) = unat (netHandshakeSize (hdr w)) \<and> \<not> ps_RomConnected st
         \<and> ss_PendingHandshake (mb_ServerState b) = None then Some (admitted st) else None)"
    using host_early_handshake [of "admit_peer p st b" p "admitted st" "ps_EarlyHandshake st" answer w] by simp
  from True outcome kept host show ?thesis by (auto simp: admits_def admitted_def)
qed

lemma access_twice [simp]: "access c (access c w) = access c w"
  by (cases c) (simp_all add: access_def)

text \<open>
  C35. The order in which hello and ROM handshake arrive does not matter: a handshake that comes before
  the hello is kept, and after an accepted hello the state is the one the other order gives.
\<close>

theorem multiplayer_handshake_order:
  assumes "map_of (mb_PeerStates b) p = Some st" and "\<not> ps_HelloReceived st" and "\<not> ps_Compatible st"
    and "ps_EarlyHandshake st = []" and "length handshake = unat (netHandshakeSize (hdr w))" and "handshake \<noteq> []"
    and "EncodeHello remote = Ok hello" and "valid_hello (localHello w)" and "same_game (localHello w) remote"
  shows "HandleIncomingMessage answer p (RogueNetChannelValue Control) (Some hello)
       (HandleIncomingMessage answer p (RogueNetChannelValue Handshake) (Some handshake) (b, w))
    = HandleIncomingMessage answer p (RogueNetChannelValue Handshake) (Some handshake)
       (HandleIncomingMessage answer p (RogueNetChannelValue Control) (Some hello) (b, w))"
proof -
  have decoded: "DecodeHello hello = Ok remote" using assms(7) by (simp add: DecodeHello_iff EncodeHello_Ok_iff)
  have compatible: "compatible (CheckCompatibility (BuildCompatibilityHello (hdr w)) remote)"
    using assms(7-9) by (simp add: CheckCompatibility_compatible localHello_def EncodeHello_Ok_iff)
  show ?thesis
    using assms(1-6) decoded compatible
    by (cases st) (simp add: HandleIncomingMessage_def HandleCompatibilityHello_def Let_def IsHost_def)
qed


section \<open>Broadcasts\<close>

lemma SendPacket_sent:
  "mw_sent (snd (SendPacket (Some p) channel data reliability w)) = mw_sent w
   \<or> mw_sent (snd (SendPacket (Some p) channel data reliability w)) = mw_sent w
        @ [\<lparr>pk_peer = p, pk_channel = channel, pk_data = data, pk_flags = reliability\<rparr>]"
  by (auto simp: SendPacket_def use_host_def split: bool.split)

lemma SendPacket_memory: "mw_memory (snd (SendPacket p channel data reliability w)) = mw_memory w"
  by (auto simp: SendPacket_def use_host_def split: bool.split option.split)

text \<open>The packets sent since \<open>w\<close>: each to a connected peer of \<open>ps\<close>, and with content from \<open>C\<close>.\<close>

definition sends :: "(ENetPeer \<times> PeerState) list \<Rightarrow> (RogueNetChannel \<times> bytes) set \<Rightarrow> MultiplayerWorld \<Rightarrow> MultiplayerWorld \<Rightarrow> bool" where
  "sends ps C w w' \<longleftrightarrow> mw_memory w' = mw_memory w \<and> (\<exists>new. mw_sent w' = mw_sent w @ new \<and>
     (\<forall>pk \<in> set new. (pk_channel pk, pk_data pk) \<in> C \<and> (\<exists>st. (pk_peer pk, st) \<in> set ps \<and> ps_Compatible st \<and> ps_RomConnected st)))"

lemma sends_refl [intro]: "mw_memory w' = mw_memory w \<Longrightarrow> mw_sent w' = mw_sent w \<Longrightarrow> sends ps C w w'"
  by (simp add: sends_def)

lemma sends_trans: "sends ps C w w' \<Longrightarrow> sends ps C w' w'' \<Longrightarrow> sends ps C w w''"
  unfolding sends_def by (metis (no_types, lifting) Un_iff append.assoc set_append)

lemma Broadcast_sends:
  assumes "(channel, data) \<in> C"
  shows "sends (mb_PeerStates b) C w (snd (BroadcastToConnectedPeers channel data reliability (b, w)))"
proof -
  let ?f = "\<lambda>(peer, state) w. if ps_Compatible state \<and> ps_RomConnected state
      then snd (SendPacket (Some peer) channel data reliability w) else w"
  have one: "sends ps C w (?f x w)" if "x \<in> set ps" for x ps w
  proof -
    obtain p st where x: "x = (p, st)" by (metis surj_pair)
    show ?thesis
      using that assms SendPacket_sent [of p channel data reliability w] SendPacket_memory [of "Some p" channel data reliability w]
      unfolding x by (auto simp: sends_def)
  qed
  have "sends ps C w (fold ?f qs w)" if "set qs \<subseteq> set ps" for qs ps w
    using that
  proof (induction qs arbitrary: w)
    case (Cons x qs)
    from Cons.prems have x: "x \<in> set ps" and qs: "set qs \<subseteq> set ps" by auto
    from sends_trans [OF one [OF x] Cons.IH [OF qs]] show ?case by simp
  qed auto
  then show ?thesis by (simp add: BroadcastToConnectedPeers_def)
qed

definition blob_span :: "MultiplayerWorld \<Rightarrow> u32 \<Rightarrow> nat \<Rightarrow> bytes" where
  "blob_span w off n = take n (drop (unat off) (stateBlob w))"

definition broadcast_content :: "MultiplayerWorld \<Rightarrow> (RogueNetChannel \<times> bytes) set" where
  "broadcast_content w =
     {(PlayerProfiles, blob_span w (netPlayerProfileOffset (hdr w)) (unat (netPlayerProfileSize (hdr w)) * unat (netPlayerCount (hdr w)))),
      (GameState, blob_span w (netGameStateOffset (hdr w)) (unat (netGameStateSize (hdr w)))),
      (PlayerState, blob_span w (netPlayerStateOffset (hdr w)) (unat (netPlayerStateSize (hdr w)) * unat (netPlayerCount (hdr w))))}"

lemma broadcast_content_cong: "mw_memory w' = mw_memory w \<Longrightarrow> broadcast_content w' = broadcast_content w"
  by (simp add: broadcast_content_def blob_span_def stateBlob_def)

lemma slice_span: "slice (unat off) n w = (blob_span w off n, access (unat off + n \<le> length (stateBlob w)) w)"
  by (simp add: slice_def blob_span_def)

lemma sends_access: "sends ps C (access c w) w' \<longleftrightarrow> sends ps C w w'"
  by (simp add: sends_def)

lemma Broadcast_fst: "fst (BroadcastToConnectedPeers channel data reliability (b, w)) = b"
  by (simp add: BroadcastToConnectedPeers_def)

lemma Broadcast_after_access:
  assumes "(channel, data) \<in> C" and "mb_PeerStates b' = ps"
  shows "sends ps C w (snd (BroadcastToConnectedPeers channel data reliability (b', access c w)))"
  using Broadcast_sends [OF assms(1), of b' "access c w" reliability] assms(2) by (simp add: sends_access)

lemma BroadcastProfiles_sends:
  "sends (mb_PeerStates b) (broadcast_content w) w (snd (BroadcastProfiles (b, w)))
   \<and> mb_PeerStates (fst (BroadcastProfiles (b, w))) = mb_PeerStates b"
  by (auto simp: BroadcastProfiles_def slice_span UpdateBinaryBlob_def Let_def Broadcast_fst broadcast_content_def
      intro!: Broadcast_after_access)

lemma now_sends: "now w = (t, w') \<Longrightarrow> sends ps C w' w'' \<Longrightarrow> sends ps C w w''"
  by (auto simp: now_def sends_def)

lemma BroadcastGameState_sends:
  "sends (mb_PeerStates b) (broadcast_content w) w (snd (BroadcastGameState (b, w)))
   \<and> mb_PeerStates (fst (BroadcastGameState (b, w))) = mb_PeerStates b"
proof -
  obtain t w' where t: "now w = (t, w')" by (metis surj_pair)
  then have "mw_memory w' = mw_memory w" by (auto simp: now_def)
  note content = broadcast_content_cong [OF this]
  obtain due timer where due: "TimerUpdate t (ss_GameStateTimer (mb_ServerState b)) = (due, timer)" by (metis surj_pair)
  have "sends (mb_PeerStates b) (broadcast_content w') w' (snd (BroadcastGameState (b, w)))"
    using t due by (cases due)
      (auto simp: BroadcastGameState_def slice_span Let_def broadcast_content_def intro!: Broadcast_after_access)
  with t now_sends [OF t] content due show ?thesis
    by (cases due) (auto simp: BroadcastGameState_def slice_span Let_def Broadcast_fst)
qed

lemma BroadcastPlayerStates_sends:
  "sends (mb_PeerStates b) (broadcast_content w) w (snd (BroadcastPlayerStates (b, w)))
   \<and> mb_PeerStates (fst (BroadcastPlayerStates (b, w))) = mb_PeerStates b"
proof -
  obtain t w' where t: "now w = (t, w')" by (metis surj_pair)
  then have "mw_memory w' = mw_memory w" by (auto simp: now_def)
  note content = broadcast_content_cong [OF this]
  obtain due timer where due: "TimerUpdate t (ss_PlayerStateTimer (mb_ServerState b)) = (due, timer)" by (metis surj_pair)
  have "sends (mb_PeerStates b) (broadcast_content w') w' (snd (BroadcastPlayerStates (b, w)))"
    using t due by (cases due)
      (auto simp: BroadcastPlayerStates_def slice_span Let_def broadcast_content_def intro!: Broadcast_after_access)
  with t now_sends [OF t] content due show ?thesis
    by (cases due) (auto simp: BroadcastPlayerStates_def slice_span Let_def Broadcast_fst)
qed

text \<open>
  C36. What the host broadcasts, and to whom: every packet of a connected update goes to a peer that has
  passed the compatibility check and the ROM handshake, and carries the profiles, the game state or the
  players' states as they are in the multiplayer state.
\<close>

theorem multiplayer_broadcast_connected:
  assumes "mp_reachable (b, w)" and "IsHost b"
  shows "\<exists>new. mw_sent (snd (ConnectedUpdate (b, w))) = mw_sent w @ new \<and>
    (\<forall>pk \<in> set new. (pk_channel pk, pk_data pk) \<in> broadcast_content w
       \<and> (\<exists>st. map_of (mb_PeerStates b) (pk_peer pk) = Some st \<and> ps_HelloReceived st \<and> ps_Compatible st \<and> ps_RomConnected st))"
proof -
  obtain b1 w1 where 1: "BroadcastProfiles (b, w) = (b1, w1)" by (metis surj_pair)
  obtain b2 w2 where 2: "BroadcastGameState (b1, w1) = (b2, w2)" by (metis surj_pair)
  from BroadcastProfiles_sends [of b w] 1 have s1: "sends (mb_PeerStates b) (broadcast_content w) w w1" "mb_PeerStates b1 = mb_PeerStates b" by simp_all
  from s1(1) have c1: "broadcast_content w1 = broadcast_content w" by (intro broadcast_content_cong) (simp add: sends_def)
  from BroadcastGameState_sends [of b1 w1] 2 s1(2) c1
  have s2: "sends (mb_PeerStates b) (broadcast_content w) w1 w2" "mb_PeerStates b2 = mb_PeerStates b" by simp_all
  from s2(1) c1 have c2: "broadcast_content w2 = broadcast_content w" by (metis broadcast_content_cong sends_def)
  from BroadcastPlayerStates_sends [of b2 w2] s2(2) c2
  have s3: "sends (mb_PeerStates b) (broadcast_content w) w2 (snd (BroadcastPlayerStates (b2, w2)))" by simp
  from sends_trans [OF sends_trans [OF s1(1) s2(1)] s3] assms(2) 1 2
  have "sends (mb_PeerStates b) (broadcast_content w) w (snd (ConnectedUpdate (b, w)))"
    by (simp add: ConnectedUpdate_def HostConnectedUpdate_def)
  moreover have peers: "distinct (map fst (mb_PeerStates b))" "\<And>p st. map_of (mb_PeerStates b) p = Some st \<Longrightarrow> peer_ok (hdr w) st"
    using mp_reachable_inv [OF assms(1)] by (auto simp: mp_inv_def conn_inv_def peers_inv_def)
  have "\<exists>st. map_of (mb_PeerStates b) p = Some st \<and> ps_HelloReceived st \<and> ps_Compatible st \<and> ps_RomConnected st"
    if "(p, st) \<in> set (mb_PeerStates b)" "ps_Compatible st" "ps_RomConnected st" for p st
    using map_of_is_SomeI [OF peers(1) that(1)] peers(2) that by (auto simp: peer_ok_def)
  ultimately show ?thesis unfolding sends_def by blast
qed

section \<open>The states of the other players\<close>

lemma WritePlayerState_own: "i = mb_PlayerId b \<Longrightarrow> WritePlayerState answer data i (b, w) = (b, w)"
  by (simp add: WritePlayerState_def)

lemma WritePlayerState_accepted:
  assumes "\<not> mw_disconnected w" and "\<forall>e. answer e = Accepted" and "i \<noteq> mb_PlayerId b"
    and "unat (netPlayerStateSize (hdr w)) * unat i < 2 ^ 32"
  shows "\<exists>w'. WritePlayerState answer data i (b, w) = (b, w') \<and> mw_memory w' = mw_memory w \<and> \<not> mw_disconnected w'
    \<and> mw_effects w' = mw_effects w @ [WriteReq (CreateMessageId AnonymousChannel 0)
        (GetMultiplayerStatePtr w + netPlayerStateOffset (hdr w) + word_of_nat (unat (netPlayerStateSize (hdr w)) * unat i))
        (take (unat (netPlayerStateSize (hdr w))) (drop (unat (netPlayerStateSize (hdr w)) * unat i) data))]"
  using assms(1-3)
  unfolding WritePlayerState_def Let_def prod.case unat_small_u32 [OF assms(4)]
  by (simp add: WriteRequest_def pointer)

text \<open>
  C37. What a client writes of the players' states it receives: one write per other player, with that player's part
  of the payload at that player's slot, and nothing at its own slot.
\<close>

theorem multiplayer_client_writes_others:
  assumes "\<not> IsHost b" and "\<not> mw_disconnected w" and "\<forall>e. answer e = Accepted" and "LayoutValid w"
    and "length data = unat (netPlayerStateSize (hdr w)) * unat (netPlayerCount (hdr w))"
  shows "mw_effects (snd (HandlePlayerState answer peer st data (b, w))) = mw_effects w
    @ map (\<lambda>i. WriteReq (CreateMessageId AnonymousChannel 0)
          (GetMultiplayerStatePtr w + netPlayerStateOffset (hdr w) + word_of_nat (unat (netPlayerStateSize (hdr w)) * i))
          (take (unat (netPlayerStateSize (hdr w))) (drop (unat (netPlayerStateSize (hdr w)) * i) data)))
        (filter (\<lambda>i. i \<noteq> unat (mb_PlayerId b)) [0..<unat (netPlayerCount (hdr w))])"
proof -
  let ?h = "hdr w" and ?n = "unat (netPlayerStateSize (hdr w))"
  have layout: "layout_ok ?h (blob_size (m_MultiplayerState (mw_memory w)))" by (rule LayoutValid_ok [OF assms(4)])
  let ?W = "\<lambda>i. WriteReq (CreateMessageId AnonymousChannel 0)
      (state_pointer (mw_memory w) + netPlayerStateOffset ?h + word_of_nat (?n * i)) (take ?n (drop (?n * i) data))"
  have "\<exists>w'. fold (WritePlayerState answer data) (map word_of_nat [0..<k]) (b, w) = (b, w') \<and> mw_memory w' = mw_memory w
      \<and> \<not> mw_disconnected w' \<and> mw_effects w' = mw_effects w @ map ?W (filter (\<lambda>i. i \<noteq> unat (mb_PlayerId b)) [0..<k])"
    if "k \<le> unat (netPlayerCount ?h)" for k
    using that
  proof (induction k)
    case 0
    then show ?case using assms(2) by simp
  next
    case (Suc k)
    then obtain w' where IH: "fold (WritePlayerState answer data) (map word_of_nat [0..<k]) (b, w) = (b, w')"
      "mw_memory w' = mw_memory w" "\<not> mw_disconnected w'"
      "mw_effects w' = mw_effects w @ map ?W (filter (\<lambda>i. i \<noteq> unat (mb_PlayerId b)) [0..<k])" by auto
    have k: "unat (word_of_nat k :: u8) = k" using Suc.prems layout by (intro unat_u8_of_nat) (simp add: layout_ok_def)
    have "?n * k \<le> ?n * unat (netPlayerCount ?h)" using Suc.prems by (intro mult_le_mono2) simp
    also have "\<dots> \<le> 1048568" using layout by (simp add: layout_ok_def)
    also have "\<dots> < 2 ^ 32" by simp
    finally have small: "?n * unat (word_of_nat k :: u8) < 2 ^ 32" by (simp only: k)
    have same: "(word_of_nat k = mb_PlayerId b) \<longleftrightarrow> k = unat (mb_PlayerId b)" using k by (auto simp: word_unat_eq_iff)
    show ?case
    proof (cases "k = unat (mb_PlayerId b)")
      case True
      with IH same show ?thesis by (simp add: WritePlayerState_own)
    next
      case False
      with same have other: "word_of_nat k \<noteq> mb_PlayerId b" by simp
      from WritePlayerState_accepted [OF IH(3) assms(3) other small [folded IH(2)], of data] IH False
      show ?thesis by (auto simp: k pointer)
    qed
  qed
  from this [OF order_refl] assms(1,5) show ?thesis by (auto simp: HandlePlayerState_def Let_def pointer)
qed

section \<open>Polling after the connection is closed\<close>

lemma RejectPeer_fault: "mw_fault (snd s) \<Longrightarrow> mw_fault (snd (RejectPeer p m s))"
  by (cases s) (simp add: RejectPeer_def Let_def use_host_def)

lemma RejectExpired_fault: "mw_fault w \<Longrightarrow> mw_fault (snd (RejectExpired (b, w)))"
proof -
  assume fault: "mw_fault w"
  have "mw_fault (snd (fold (\<lambda>p. RejectPeer p m) ps s))" if "mw_fault (snd s)" for ps s m
    using that by (induction ps arbitrary: s) (simp_all add: RejectPeer_fault)
  with fault show ?thesis by (simp add: RejectExpired_def now_def)
qed

text \<open>
  C38. A request that the session rejects while the network is polled: the disconnect destroys the host, and the loop of
  \<^verbatim>\<open>PollConnection\<close> goes on with it. It takes a state outside the writable memory, for example a pointer into the
  ROM, which can be read but not written.
\<close>

theorem multiplayer_poll_after_close:
  assumes "IsHost b" and "\<not> mw_disconnected w" and "map_of (mb_PeerStates b) p = Some st" and "ps_Compatible st"
    and "\<not> ps_RomConnected st" and "ss_PendingHandshake (mb_ServerState b) = None"
    and "length data = unat (netHandshakeSize (hdr w))" and "data \<noteq> []"
    and "answer (WriteReq (CreateMessageId AnonymousChannel 0) (GetMultiplayerStatePtr w + netHandshakeOffset (hdr w)) data) = Rejected"
  shows "mw_fault (snd (PollConnection answer [PacketReceived p (RogueNetChannelValue Handshake) (Some data)] (b, w)))"
proof -
  obtain b' w' where s: "HandleEvent answer (PacketReceived p (RogueNetChannelValue Handshake) (Some data)) (b, w) = (b', w')"
    by (metis surj_pair)
  have "\<not> mw_host w'"
    using s assms
    by (auto simp: HandleEvent_def HandleIncomingMessage_def HandleRomHandshake_def TrySubmitHostHandshake_def Let_def IsHost_def
        WriteRequest_def MpDisconnect_def CloseConnection_def use_host_def pointer split: if_splits)
  then have "mw_fault (use_host w')" by (simp add: use_host_def)
  from RejectExpired_fault [OF this] s assms(1) show ?thesis by (simp add: PollConnection_def IsHost_def)
qed

end
