(* ===== verification/MultiplayerExample.thy ===== *)
theory MultiplayerExample
  imports MultiplayerProps
begin

text \<open>
  A host on a concrete game of two players: it opens its port, a peer connects and sends its hello and its ROM
  handshake. The run shows that the properties of \<open>MultiplayerProps\<close> apply.
\<close>

section \<open>The game\<close>

definition netHeaderBytes :: bytes where
  "netHeaderBytes = [0, 0, 0, 0, 3, 0, 0, 0, 4, 0, 0, 0, 0, 0, 0, 0, 12, 0, 0, 0, 2, 0, 0, 0, 3, 0, 0, 0, 0, 0, 0, 0, 1, 0, 0, 0,
     5, 0, 0, 0, 1, 0, 0, 0, 6, 0, 0, 0, 1, 0, 0, 0, 8, 0, 0, 0, 2, 0, 0, 0, 2, 0, 0, 0, 0, 0, 0, 0, 1, 0, 0, 0] @ replicate 60 0"

definition netBlob :: bytes where
  "netBlob = [4, 0, 2, 1, 0, 9, 21, 22, 31, 32, 33, 34]"

definition netMemory :: ObservedGameMemory where
  "netMemory = newObservedGameMemory\<lparr>m_RogueHeader := filled netHeaderBytes,
     m_MultiplayerStatePtr := filled [0, 0x10, 0, 2], m_MultiplayerState := filled_blob netBlob\<rparr>"

definition netHeader :: NetHeader where
  "netHeader = \<lparr>rogueVersion = 0, rogueAssistantCompatVersion = 3, netMultiplayerSize = 12, netHandshakeOffset = 2,
     netHandshakeSize = 3, netHandshakeStateOffset = 0, netHandshakePlayerIdOffset = 1, netGameStateOffset = 5,
     netGameStateSize = 1, netPlayerProfileOffset = 6, netPlayerProfileSize = 1, netPlayerStateOffset = 8,
     netPlayerStateSize = 2, netPlayerCount = 2, netRequestStateOffset = 0, netCurrentStateOffset = 1\<rparr>"

lemma net_offsets:
  "field_offset RogueAssistantHeader ''rogueVersion'' 0 = Some 0"
  "field_offset RogueAssistantHeader ''rogueAssistantCompatVersion'' 0 = Some 4"
  "field_offset RogueAssistantHeader ''netMultiplayerSize'' 0 = Some 16"
  "field_offset RogueAssistantHeader ''netHandshakeOffset'' 0 = Some 20"
  "field_offset RogueAssistantHeader ''netHandshakeSize'' 0 = Some 24"
  "field_offset RogueAssistantHeader ''netHandshakeStateOffset'' 0 = Some 28"
  "field_offset RogueAssistantHeader ''netHandshakePlayerIdOffset'' 0 = Some 32"
  "field_offset RogueAssistantHeader ''netGameStateOffset'' 0 = Some 36"
  "field_offset RogueAssistantHeader ''netGameStateSize'' 0 = Some 40"
  "field_offset RogueAssistantHeader ''netPlayerProfileOffset'' 0 = Some 44"
  "field_offset RogueAssistantHeader ''netPlayerProfileSize'' 0 = Some 48"
  "field_offset RogueAssistantHeader ''netPlayerStateOffset'' 0 = Some 52"
  "field_offset RogueAssistantHeader ''netPlayerStateSize'' 0 = Some 56"
  "field_offset RogueAssistantHeader ''netPlayerCount'' 0 = Some 60"
  "field_offset RogueAssistantHeader ''netRequestStateOffset'' 0 = Some 64"
  "field_offset RogueAssistantHeader ''netCurrentStateOffset'' 0 = Some 68"
  by (simp_all add: RogueAssistantHeader_def align_up_def)

lemma net_header [simp]: "GetRogueHeader netMemory = netHeader"
  by (simp add: GetRogueHeader_def rogue_u32_def field_u32_def field_u8_def net_offsets netMemory_def ReadLittle_u32
      netHeaderBytes_def nth_append netHeader_def)

lemma net_memory [simp]:
  "state_pointer netMemory = 0x02001000" "IsMultiplayerStateValid netMemory"
  "blob_size (m_MultiplayerState netMemory) = 12" "ObservedBlob.m_Data (m_MultiplayerState netMemory) = netBlob"
proof -
  show pointer: "state_pointer netMemory = 0x02001000"
    by (simp add: state_pointer_def netMemory_def le_u32_def ReadLittle_u32)
  then show "IsMultiplayerStateValid netMemory"
    by (simp add: IsMultiplayerStateValid_def state_pointer_def) (simp add: netMemory_def)
  show "blob_size (m_MultiplayerState netMemory) = 12" by (simp add: netMemory_def netBlob_def)
  show "ObservedBlob.m_Data (m_MultiplayerState netMemory) = netBlob" by (simp add: netMemory_def filled_blob_def)
qed

lemma net_layout: "ValidateMultiplayerLayout netHeader 12"
  by (simp add: ValidateMultiplayerLayout_def netHeader_def RequiredRomAssistantApi_def RequiredAssistantApi_def
      IsSupportedEdition_def VanillaEdition_def MaxRomPayloadSize_def CheckedProduct_eq SpanFits_iff word_le_nat_alt)

lemma net_writable: "writable_state netMemory"
  by (simp add: writable_state_def IsRangeAllowed_def WritableRanges_def Ewram_def Let_def)

definition netHello :: Hello where
  "netHello = BuildCompatibilityHello netHeader"

lemma net_hello: "valid_hello netHello" "EncodeHello netHello = Ok (hello_wire netHello)"
  by (simp_all add: EncodeHello_Ok_iff) (simp_all add: valid_hello_def netHello_def BuildCompatibilityHello_def netHeader_def MpProtocolMajor_def)

lemma net_compatible: "DecodeHello (hello_wire netHello) = Ok netHello" "same_game netHello netHello"
  "compatible (CheckCompatibility netHello netHello)"
  by (simp_all add: DecodeHello_iff net_hello CheckCompatibility_compatible same_game_def)

section \<open>The run\<close>

definition netWorld :: "nat \<Rightarrow> nat \<Rightarrow> bool \<Rightarrow> Packet list \<Rightarrow> GameEffect list \<Rightarrow> MultiplayerWorld" where
  "netWorld reads calls host sent effects = \<lparr>mw_memory = netMemory, mw_clock = (\<lambda>_. 0), mw_reads = reads, mw_enet = (\<lambda>_. True),
     mw_calls = calls, mw_peer = 1, mw_host = host, mw_sent = sent, mw_effects = effects, mw_disconnected = False, mw_fault = False\<rparr>"

lemma net_world [simp]:
  "mw_memory (netWorld r c host sent es) = netMemory" "mw_disconnected (netWorld r c host sent es) = False"
  "mw_fault (netWorld r c host sent es) = False" "mw_host (netWorld r c host sent es) = host"
  "mw_effects (netWorld r c host sent es) = es" "mw_sent (netWorld r c host sent es) = sent"
  "stateBlob (netWorld r c host sent es) = netBlob"
  "access True (netWorld r c host sent es) = netWorld r c host sent es"
  "effect e (netWorld r c host sent es) = netWorld r c host sent (es @ [e])"
  "now (netWorld r c host sent es) = (0, netWorld (Suc r) c host sent es)"
  "enet (netWorld r c host sent es) = (True, netWorld r (Suc c) host sent es)"
  "use_host (netWorld r c True sent es) = netWorld r c True sent es"
  "(netWorld r c host sent es)\<lparr>mw_host := host'\<rparr> = netWorld r c host' sent es"
  "(netWorld r c host sent es)\<lparr>mw_sent := sent'\<rparr> = netWorld r c host sent' es"
  "LayoutValid (netWorld r c host sent es)"
  "GetMultiplayerStatePtr (netWorld r c host sent es) = 0x02001000"
  by (simp_all add: netWorld_def access_def effect_def now_def enet_def use_host_def stateBlob_def LayoutValid_def net_layout pointer)

lemma net_send [simp]:
  "SendPacket (Some p) channel data reliability (netWorld r c True sent es) =
     (True, netWorld r (Suc (Suc c)) True (sent @ [\<lparr>pk_peer = p, pk_channel = channel, pk_data = data, pk_flags = reliability\<rparr>]) es)"
  by (simp add: SendPacket_def del: enet_sel)

definition allowing :: "GameEffect \<Rightarrow> Answer" where
  "allowing e = Accepted"

lemma allowing_answers: "session_answers allowing"
  by (simp add: session_answers_def allowing_def)

lemma net_write [simp]:
  "WriteRequest allowing a data (b, netWorld r c host sent es) =
     (True, b, netWorld r c host sent (es @ [WriteReq (CreateMessageId AnonymousChannel 0) a data]))"
  by (simp add: WriteRequest_def allowing_def Let_def)

definition hostWaiting :: MultiplayerBehaviour where
  "hostWaiting = newMultiplayerBehaviour\<lparr>mb_RequestFlags := 4, mb_ConnectionAddressRaw := ''7''\<rparr>"

definition hostOpen :: MultiplayerBehaviour where
  "hostOpen = newMultiplayerBehaviour\<lparr>mb_RequestFlags := 4, mb_ConnectionAddressRaw := ''7'', mb_Port := 7,
     mb_HasAttemptedConnection := True, mb_EnetInitialised := True, mb_NetServer := True, mb_ConnState := ConnectionConfirmed\<rparr>"

lemma attach_state:
  "OnAttach (newMultiplayerBehaviour, netWorld 0 0 False [] []) = (newMultiplayerBehaviour\<lparr>mb_RequestFlags := 4\<rparr>, netWorld 0 0 False [] [])"
  by (simp add: OnAttach_def Let_def peek_def dropPending_def newMultiplayerBehaviour_def netBlob_def netHeader_def)

lemma waiting_state: "ProvideConnectionAddress ''7'' (newMultiplayerBehaviour\<lparr>mb_RequestFlags := 4\<rparr>) = hostWaiting"
  by (simp add: ProvideConnectionAddress_def hostWaiting_def newMultiplayerBehaviour_def)

lemma attach_reachable: "mp_reachable (newMultiplayerBehaviour\<lparr>mb_RequestFlags := 4\<rparr>, netWorld 0 0 False [] [])"
  using mp_reachable.attach [of "netWorld 0 0 False [] []"] by (simp add: attach_state)

lemma waiting_reachable: "mp_reachable (hostWaiting, netWorld 0 0 False [] [])"
  using mp_reachable.step [OF attach_reachable mp_step.address [of _ _ "''7''"]] by (simp add: waiting_state)

lemma port_7: "MpParsePort ''7'' = Some 7"
  by (simp add: MpParsePort_def from_chars_u32_def is_digit_def decimal_value_def digit_value_def Let_def)

lemma open_update: "OnUpdate allowing [] (hostWaiting, netWorld 0 0 False [] []) = (hostOpen, netWorld 0 (Suc (Suc 0)) True [] [])"
  by (simp add: OnUpdate_def OpenConnection_def OpenHostConnection_def hostWaiting_def hostOpen_def newMultiplayerBehaviour_def
      IsRequestingHostConnection_def NetStateHost_def port_7 Let_def del: enet_sel)

lemma open_reachable: "mp_reachable (hostOpen, netWorld 0 (Suc (Suc 0)) True [] [])"
proof -
  have "mp_step (hostWaiting, netWorld 0 0 False [] []) (OnUpdate allowing [] (hostWaiting, netWorld 0 0 False [] []))"
    by (rule mp_step.update) (simp_all add: allowing_answers net_writable)
  then show ?thesis unfolding open_update by (rule mp_reachable.step [OF waiting_reachable])
qed


definition freshPeer :: PeerState where
  "freshPeer = \<lparr>ps_HelloReceived = False, ps_Compatible = False, ps_RomConnected = False, ps_PlayerId = 0,
     ps_CompatibilityDeadline = CompatibilityTimeout, ps_EarlyHandshake = []\<rparr>"

definition compatiblePeer :: PeerState where
  "compatiblePeer = freshPeer\<lparr>ps_HelloReceived := True, ps_Compatible := True\<rparr>"

definition hostWith :: "PeerState \<Rightarrow> MultiplayerBehaviour" where
  "hostWith st = hostOpen\<lparr>mb_PeerStates := [(7, st)]\<rparr>"

definition hostJoined :: MultiplayerBehaviour where
  "hostJoined = (hostWith compatiblePeer)\<lparr>mb_ServerState := (mb_ServerState hostOpen)\<lparr>ss_PendingHandshake := Some 7\<rparr>,
     mb_ConnState := Connected\<rparr>"

definition helloPacket :: Packet where
  "helloPacket = \<lparr>pk_peer = 7, pk_channel = Control, pk_data = hello_wire netHello, pk_flags = Reliable\<rparr>"

definition joinEvents :: "NetEvent list" where
  "joinEvents = [PeerConnected 7, PacketReceived 7 0 (Some (hello_wire netHello)), PacketReceived 7 1 (Some [1, 0, 0])]"

definition joinWrites :: "GameEffect list" where
  "joinWrites = [WriteReq (CreateMessageId AnonymousChannel 0) 0x02001002 [1, 0, 0],
     WriteReq (CreateMessageId AnonymousChannel 0) 0x02001001 [4]]"

lemma host_sel [simp]:
  "mb_NetServer hostOpen" "\<not> mb_NetClient hostOpen" "mb_ConnState hostOpen = ConnectionConfirmed" "mb_PeerStates hostOpen = []"
  "ss_PendingHandshake (mb_ServerState hostOpen) = None" "ss_PendingHandshakeData (mb_ServerState hostOpen) = []"
  "cs_PendingHandshakeData (mb_ClientState hostOpen) = []" "cs_PendingPlayerProfiles (mb_ClientState hostOpen) = []"
  "mb_RequestFlags hostOpen = 4" "mb_HasAttemptedConnection hostOpen"
  by (simp_all add: hostOpen_def newMultiplayerBehaviour_def)

lemma peer_sel [simp]:
  "\<not> ps_HelloReceived freshPeer" "\<not> ps_Compatible freshPeer" "ps_EarlyHandshake freshPeer = []"
  "ps_HelloReceived compatiblePeer" "ps_Compatible compatiblePeer" "ps_EarlyHandshake compatiblePeer = []"
  "\<not> ps_RomConnected compatiblePeer"
  "freshPeer\<lparr>ps_HelloReceived := True, ps_Compatible := True, ps_EarlyHandshake := []\<rparr> = compatiblePeer"
  by (simp_all add: compatiblePeer_def freshPeer_def)

lemma join_connect:
  "HandleEvent allowing (PeerConnected 7) (hostOpen, netWorld r c True sent es)
   = (hostWith freshPeer, netWorld (Suc r) (Suc (Suc c)) True (sent @ [helloPacket]) es)"
  by (simp add: HandleEvent_def SendCompatibilityHello_def net_hello [unfolded netHello_def] helloPacket_def netHello_def
      hostWith_def freshPeer_def del: enet_sel)

lemma join_hello:
  "HandleEvent allowing (PacketReceived 7 0 (Some (hello_wire netHello))) (hostWith freshPeer, netWorld r c True sent es)
   = (hostWith compatiblePeer, netWorld r c True sent es)"
  by (simp add: HandleEvent_def HandleIncomingMessage_def HandleCompatibilityHello_def net_compatible
      net_compatible(3) [unfolded netHello_def] netHello_def [symmetric] hostWith_def Let_def IsHost_def del: enet_sel)

lemma join_handshake:
  "HandleEvent allowing (PacketReceived 7 1 (Some [1, 0, 0])) (hostWith compatiblePeer, netWorld r c True sent es)
   = ((hostWith compatiblePeer)\<lparr>mb_ServerState := (mb_ServerState hostOpen)\<lparr>ss_PendingHandshake := Some 7\<rparr>\<rparr>,
      netWorld r c True sent (es @ [WriteReq (CreateMessageId AnonymousChannel 0) 0x02001002 [1, 0, 0]]))"
proof -
  have "(mb_ServerState hostOpen)\<lparr>ss_PendingHandshake := Some 7, ss_PendingHandshakeData := []\<rparr>
      = (mb_ServerState hostOpen)\<lparr>ss_PendingHandshake := Some 7\<rparr>" by (simp add: hostOpen_def newMultiplayerBehaviour_def)
  then show ?thesis
    by (simp add: HandleEvent_def HandleIncomingMessage_def HandleRomHandshake_def TrySubmitHostHandshake_def hostWith_def
        Let_def IsHost_def netHeader_def del: enet_sel)
qed

lemma join_update:
  "OnUpdate allowing joinEvents (hostOpen, netWorld 0 (Suc (Suc 0)) True [] [])
   = (hostJoined, netWorld (Suc (Suc 0)) (Suc (Suc (Suc (Suc 0)))) True [helloPacket] joinWrites)"
proof -
  let ?b = "(hostWith compatiblePeer)\<lparr>mb_ServerState := (mb_ServerState hostOpen)\<lparr>ss_PendingHandshake := Some 7\<rparr>\<rparr>"
  let ?w = "netWorld (Suc 0) (Suc (Suc (Suc (Suc 0)))) True [helloPacket] [WriteReq (CreateMessageId AnonymousChannel 0) 0x02001002 [1, 0, 0]]"
  have events: "fold (HandleEvent allowing) joinEvents (hostOpen, netWorld 0 (Suc (Suc 0)) True [] []) = (?b, ?w)"
    by (simp add: joinEvents_def join_connect join_hello join_handshake)
  have poll: "PollConnection allowing joinEvents (hostOpen, netWorld 0 (Suc (Suc 0)) True [] []) =
      (?b, netWorld (Suc (Suc 0)) (Suc (Suc (Suc (Suc 0)))) True [helloPacket] [WriteReq (CreateMessageId AnonymousChannel 0) 0x02001002 [1, 0, 0]])"
    by (simp add: PollConnection_def events RejectExpired_def) (simp add: hostWith_def)
  show ?thesis
    by (simp add: OnUpdate_def peek_def netBlob_def netHeader_def RunConnection_def SubmitPending_def Let_def poll
        AdvanceHandshake_def SendMultiplayerConfirmationToGame_def hostWith_def hostJoined_def joinWrites_def del: enet_sel)
qed

lemma joined_reachable: "mp_reachable (hostJoined, netWorld (Suc (Suc 0)) (Suc (Suc (Suc (Suc 0)))) True [helloPacket] joinWrites)"
proof -
  have "mp_step (hostOpen, netWorld 0 (Suc (Suc 0)) True [] []) (OnUpdate allowing joinEvents (hostOpen, netWorld 0 (Suc (Suc 0)) True [] []))"
    by (rule mp_step.update) (simp_all add: allowing_answers net_writable)
  then show ?thesis unfolding join_update by (rule mp_reachable.step [OF open_reachable])
qed


section \<open>The properties on the run\<close>

abbreviation joinedWorld :: MultiplayerWorld where
  "joinedWorld \<equiv> netWorld (Suc (Suc 0)) (Suc (Suc (Suc (Suc 0)))) True [helloPacket] joinWrites"

lemma joined_run: "mp_run [(allowing, netMemory), (allowing, netMemory)] (hostJoined, joinedWorld)"
proof -
  have "mp_run [] (newMultiplayerBehaviour\<lparr>mb_RequestFlags := 4\<rparr>, netWorld 0 0 False [] [])"
    using mp_run.attach [of "netWorld 0 0 False [] []"] by (simp add: attach_state)
  from mp_run.address [OF this, of "''7''"] have "mp_run [] (hostWaiting, netWorld 0 0 False [] [])" by (simp add: waiting_state)
  from mp_run.update [OF this, where answer = allowing and events = "[]"]
  have "mp_run [(allowing, netMemory)] (hostOpen, netWorld 0 (Suc (Suc 0)) True [] [])" by (simp add: open_update)
  from mp_run.update [OF this, where answer = allowing and events = joinEvents] show ?thesis by (simp add: join_update)
qed


theorem multiplayer_writes_inside_witness:
  "mw_effects joinedWorld = joinWrites \<and> list_all (\<lambda>e. case e of
     WriteReq i a bs \<Rightarrow> (\<exists>off. a = 0x02001000 + word_of_nat off \<and> 0 < length bs \<and> off + length bs \<le> 12) | _ \<Rightarrow> True) joinWrites"
proof -
  have "LayoutValid (netWorld 0 (Suc (Suc 0)) True [] [])" "writable_state (mw_memory (netWorld 0 (Suc (Suc 0)) True [] []))"
    by (simp_all add: net_writable)
  with multiplayer_writes_inside [OF open_reachable _ allowing_answers, of joinEvents, unfolded join_update]
  show ?thesis unfolding list_all_iff by (fastforce split: GameEffect.splits)
qed

definition earlyPeer :: PeerState where
  "earlyPeer = freshPeer\<lparr>ps_EarlyHandshake := [1, 0, 0]\<rparr>"

definition busyHost :: MultiplayerBehaviour where
  "busyHost = (hostWith earlyPeer)\<lparr>mb_ServerState := (mb_ServerState hostOpen)\<lparr>ss_PendingHandshake := Some 8\<rparr>\<rparr>"

theorem multiplayer_admission_witness:
  "map_of (mb_PeerStates (fst (HandleCompatibilityHello allowing 7 (hello_wire netHello) (hostWith freshPeer, joinedWorld)))) 7
     = Some compatiblePeer
   \<and> map_of (mb_PeerStates (fst (HandleCompatibilityHello allowing 7 (hello_wire netHello) (hostWith earlyPeer, joinedWorld)))) 7
     = Some compatiblePeer
   \<and> map_of (mb_PeerStates (fst (HandleCompatibilityHello allowing 7 (hello_wire netHello) (busyHost, joinedWorld)))) 7 = None"
proof -
  have local: "localHello joinedWorld = netHello" by (simp add: localHello_def netHello_def)
  have early: "earlyPeer\<lparr>ps_HelloReceived := True, ps_Compatible := True, ps_EarlyHandshake := []\<rparr> = compatiblePeer"
    "ps_EarlyHandshake earlyPeer = [1, 0, 0]" "\<not> ps_HelloReceived earlyPeer" "\<not> ps_RomConnected earlyPeer"
    by (simp_all add: compatiblePeer_def earlyPeer_def freshPeer_def)
  have host: "IsHost (hostWith earlyPeer)" "IsHost busyHost" "ss_PendingHandshake (mb_ServerState (hostWith earlyPeer)) = None"
    "ss_PendingHandshake (mb_ServerState busyHost) = Some 8"
    by (simp_all add: IsHost_def hostWith_def busyHost_def)
  have known: "map_of (mb_PeerStates (hostWith st)) 7 = Some st" "map_of (mb_PeerStates busyHost) 7 = Some earlyPeer" for st
    by (simp_all add: hostWith_def busyHost_def)
  have size: "unat (netHandshakeSize netHeader) = Suc (Suc (Suc 0))" by (simp add: netHeader_def)
  have game: "\<exists>remote. EncodeHello remote = Ok (hello_wire netHello) \<and> same_game netHello remote"
    using net_hello(2) net_compatible(2) by blast
  show ?thesis
    using multiplayer_admission [OF known(1), of freshPeer allowing "hello_wire netHello" joinedWorld]
      multiplayer_admission [OF known(1), of earlyPeer allowing "hello_wire netHello" joinedWorld]
      multiplayer_admission [OF known(2), of allowing "hello_wire netHello" joinedWorld]
    by (simp add: local early host size game net_hello(1) allowing_def)
qed

theorem multiplayer_handshake_order_witness:
  "HandleIncomingMessage allowing 7 0 (Some (hello_wire netHello))
       (HandleIncomingMessage allowing 7 1 (Some [1, 0, 0]) (hostWith freshPeer, joinedWorld))
   = HandleIncomingMessage allowing 7 1 (Some [1, 0, 0])
       (HandleIncomingMessage allowing 7 0 (Some (hello_wire netHello)) (hostWith freshPeer, joinedWorld))"
proof -
  have local: "localHello joinedWorld = netHello" by (simp add: localHello_def netHello_def)
  have peer: "map_of (mb_PeerStates (hostWith freshPeer)) 7 = Some freshPeer" by (simp add: hostWith_def)
  have "length [1 :: u8, 0, 0] = unat (netHandshakeSize (hdr joinedWorld))" by (simp add: netHeader_def)
  from multiplayer_handshake_order [OF peer _ _ _ this _ net_hello(2), of allowing] net_hello(1) net_compatible(2) local
  show ?thesis by simp
qed

definition connectedPeer :: PeerState where
  "connectedPeer = compatiblePeer\<lparr>ps_PlayerId := 1, ps_RomConnected := True\<rparr>"

definition hostConnected :: MultiplayerBehaviour where
  "hostConnected = hostOpen\<lparr>mb_PeerStates := [(7, connectedPeer)], mb_ConnState := Connected\<rparr>"

definition answerPacket :: Packet where
  "answerPacket = \<lparr>pk_peer = 7, pk_channel = Handshake, pk_data = [2, 1, 0], pk_flags = Reliable\<rparr>"

abbreviation connectedWorld :: MultiplayerWorld where
  "connectedWorld \<equiv> netWorld (Suc (Suc (Suc 0))) (Suc (Suc (Suc (Suc (Suc (Suc 0)))))) True [helloPacket, answerPacket] joinWrites"

lemma finish_update: "OnUpdate allowing [] (hostJoined, joinedWorld) = (hostConnected, connectedWorld)"
proof -
  have poll: "PollConnection allowing [] (hostJoined, joinedWorld)
      = (hostJoined, netWorld (Suc (Suc (Suc 0))) (Suc (Suc (Suc (Suc 0)))) True [helloPacket] joinWrites)"
    by (simp add: PollConnection_def RejectExpired_def hostJoined_def hostWith_def)
  have finish: "FinishHostHandshake 7 (hostJoined, netWorld (Suc (Suc (Suc 0))) c True [helloPacket] joinWrites)
      = (True, hostConnected, netWorld (Suc (Suc (Suc 0))) (Suc (Suc c)) True [helloPacket, answerPacket] joinWrites)" for c
    by (simp add: FinishHostHandshake_def hostJoined_def hostWith_def hostOpen_def newMultiplayerBehaviour_def peek_def slice_def netBlob_def
        netHeader_def Let_def IsHost_def HandshakeStateSendToClient_def IsValidClientPlayerId_def connectedPeer_def hostConnected_def
        answerPacket_def del: enet_sel)
  have pending: "ss_PendingHandshake (mb_ServerState hostJoined) = Some 7" "ss_PendingHandshakeData (mb_ServerState hostJoined) = []"
      "cs_PendingHandshakeData (mb_ClientState hostJoined) = []" "cs_PendingPlayerProfiles (mb_ClientState hostJoined) = []"
      "mb_HasAttemptedConnection hostJoined" "mb_RequestFlags hostJoined = 4"
    by (simp_all add: hostJoined_def hostWith_def)
  show ?thesis
    by (simp add: OnUpdate_def peek_def netBlob_def netHeader_def RunConnection_def SubmitPending_def Let_def poll finish pending del: enet_sel)
qed

lemma connected_reachable: "mp_reachable (hostConnected, connectedWorld)"
proof -
  have "mp_step (hostJoined, joinedWorld) (OnUpdate allowing [] (hostJoined, joinedWorld))"
    by (rule mp_step.update) (simp_all add: allowing_answers net_writable)
  then show ?thesis unfolding finish_update by (rule mp_reachable.step [OF joined_reachable])
qed

lemma connected_sends:
  "map pk_channel (mw_sent (snd (ConnectedUpdate (hostConnected, connectedWorld)))) = [Control, Handshake, PlayerProfiles, GameState, PlayerState]"
  by (simp add: ConnectedUpdate_def HostConnectedUpdate_def BroadcastProfiles_def BroadcastGameState_def BroadcastPlayerStates_def
      BroadcastToConnectedPeers_def UpdateBinaryBlob_def slice_def netHeader_def netBlob_def Let_def IsHost_def hostConnected_def
      hostOpen_def newMultiplayerBehaviour_def TimerUpdate_first connectedPeer_def helloPacket_def answerPacket_def
      del: enet_sel)

theorem multiplayer_broadcast_connected_witness:
  "\<exists>new. map pk_channel new = [PlayerProfiles, GameState, PlayerState] \<and> (\<forall>pk \<in> set new. pk_peer pk = 7)
     \<and> mw_sent (snd (ConnectedUpdate (hostConnected, connectedWorld))) = [helloPacket, answerPacket] @ new"
proof -
  have host: "IsHost hostConnected" by (simp add: IsHost_def hostConnected_def)
  obtain new where sent: "mw_sent (snd (ConnectedUpdate (hostConnected, connectedWorld))) = mw_sent connectedWorld @ new"
    and new: "\<forall>pk \<in> set new. (pk_channel pk, pk_data pk) \<in> broadcast_content connectedWorld
       \<and> (\<exists>st. map_of (mb_PeerStates hostConnected) (pk_peer pk) = Some st \<and> ps_HelloReceived st \<and> ps_Compatible st \<and> ps_RomConnected st)"
    using multiplayer_broadcast_connected [OF connected_reachable host] by blast
  have "pk_peer pk = 7" if "pk \<in> set new" for pk
    using bspec [OF new that] by (auto simp: hostConnected_def split: if_splits)
  moreover have "map pk_channel new = [PlayerProfiles, GameState, PlayerState]"
    using connected_sends unfolding sent by (simp add: helloPacket_def answerPacket_def)
  ultimately show ?thesis using sent by auto
qed

theorem multiplayer_client_writes_others_witness:
  "mw_effects (snd (HandlePlayerState allowing 7 compatiblePeer [1, 2, 3, 4]
     (newMultiplayerBehaviour\<lparr>mb_PlayerId := 1\<rparr>, netWorld 0 0 True [] [])))
   = [WriteReq (CreateMessageId AnonymousChannel 0) 0x02001008 [1, 2]]"
proof -
  have "length [1 :: u8, 2, 3, 4] = unat (netPlayerStateSize (hdr (netWorld 0 0 True [] []))) * unat (netPlayerCount (hdr (netWorld 0 0 True [] [])))"
    by (simp add: netHeader_def)
  from multiplayer_client_writes_others [OF _ _ _ _ this, of "newMultiplayerBehaviour\<lparr>mb_PlayerId := 1\<rparr>" allowing 7 compatiblePeer]
  show ?thesis by (simp add: IsHost_def newMultiplayerBehaviour_def allowing_def netHeader_def upt_rec)
qed

theorem multiplayer_poll_after_close_witness:
  "mw_fault (snd (PollConnection (\<lambda>e. Rejected) [PacketReceived 7 1 (Some [1, 0, 0])] (hostWith compatiblePeer, netWorld 0 0 True [] [])))"
  using multiplayer_poll_after_close [of "hostWith compatiblePeer" "netWorld 0 0 True [] []" 7 compatiblePeer "[1, 0, 0]" "\<lambda>e. Rejected"]
  by (simp add: IsHost_def hostWith_def netHeader_def)

end
