(* ===== verification/GameConnection.thy ===== *)
theory GameConnection
  imports ObservedMemory GameSession Timer
begin

text \<open>
  One connection to the game: \<^verbatim>\<open>RogueAssistantCpp/Src/GameConnection.cpp\<close>, and the behaviour that
  follows the ROM's requests, \<^verbatim>\<open>Src/Behaviours/CommonBehaviour.cpp\<close>.

  The connection owns a session, the observed memory and the list of behaviours. It runs in the
  world of \<open>GameSession\<close>: what the session's completions reach beside the session (the transport's
  state and the connection) is the second component of the pair \<open>sw_transport\<close>, and a completion of the
  session is the closure the connection passes, as data. The two behaviours with a state of their
  own are behind the interface \<^verbatim>\<open>IGameConnectionBehaviour\<close>: what \<^verbatim>\<open>OnUpdate\<close> calls, call by call and
  depending on the answers, is a \<open>Script\<close> of the environment, and all properties hold for every
  environment. No \<^verbatim>\<open>OnAttach\<close> and no \<^verbatim>\<open>onSuccess\<close> closure of the program calls the connection, and
  \<^verbatim>\<open>OnDetach\<close> only reports errors. \<^verbatim>\<open>PushError\<close> of the manager keeps the last report.
\<close>

section \<open>State\<close>

datatype GameConnectionState = AwaitingFirstHandshake | AwaitingSecondHandshake | GcConnected | GcDisconnected

datatype BehaviourKind = CommonKind | MultiplayerKind | HomeBoxKind

text \<open>A \<^verbatim>\<open>GameConnectionBehaviourRef\<close>: the class and the identity of the object.\<close>

datatype BehaviourRef = BehaviourRef (ref_kind: BehaviourKind) (ref_id: nat)

datatype 'k GameEvent =
  Attached BehaviourRef
| Updated BehaviourRef
| Detached BehaviourRef
| Reported string
| Succeeded 'k
| Dropped

text \<open>
  \<open>gc_MultiplayerBehaviour\<close> and \<open>gc_HomeBoxBehaviour\<close> are the two \<^verbatim>\<open>weak_ptr\<close> of the common behaviour.
  \<open>gc_Held\<close> is the copy of the list that \<^verbatim>\<open>Update\<close> keeps on its stack, \<open>gc_Fresh\<close> the identity of the next
  object, and \<open>gc_Events\<close> the history of the calls of behaviours, of the reports and of the disconnect
  (\<open>Dropped\<close>).
\<close>

record 'k GameConnection =
  gc_State :: GameConnectionState
  gc_UpdateTimer :: UpdateTimer
  gc_Observed :: ObservedGameMemory
  gc_Behaviours :: "BehaviourRef list"
  gc_BehavioursToRemove :: "BehaviourRef list"
  gc_MultiplayerBehaviour :: "nat option"
  gc_HomeBoxBehaviour :: "nat option"
  gc_Held :: "BehaviourRef list"
  gc_Fresh :: nat
  gc_Events :: "'k GameEvent list"

text \<open>The closures passed to the session: of \<^verbatim>\<open>ReadRequest\<close>, and of \<^verbatim>\<open>WriteRequest\<close> with its \<^verbatim>\<open>onSuccess\<close>.\<close>

datatype 'k Completion = ReadCompletion u32 | WriteCompletion u32 "'k option"

type_synonym ('k, 't) GameWorld = "('k Completion, 't \<times> 'k GameConnection) SessionWorld"

text \<open>The interface of the transport, for the session inside this world.\<close>

definition game_ops :: "'t IGameMemoryTransport \<Rightarrow> ('t \<times> 'k GameConnection) IGameMemoryTransport" where
  "game_ops ops =
     \<lparr>tSubmit = (\<lambda>request (t, g). case tSubmit ops request t of (accepted, t) \<Rightarrow> (accepted, (t, g))),
      tPollResults = (\<lambda>(t, g). case tPollResults ops t of (results, t) \<Rightarrow> (results, (t, g))),
      tState = (\<lambda>(t, g). tState ops t),
      tStop = (\<lambda>(t, g). (tStop ops t, g))\<rparr>"

text \<open>What a behaviour asks of the connection, and a whole callback of it.\<close>

datatype 'k GameCall =
  Effect GameEffect
| WriteThen u32 GameAddress bytes 'k
| StorageRequest u32

datatype 'k Script = EndScript | Call "'k GameCall" "bool \<Rightarrow> bool \<Rightarrow> ObservedGameMemory \<Rightarrow> 'k Script"

text \<open>
  After a call the script goes on with what the call returned, whether the connection is ready, and the
  observed memory. The first argument of the callbacks is the number of events so far: what a
  behaviour does may depend on everything that happened. \<open>be_rank\<close> is the iteration order of the
  session's table.
\<close>

record 'k Behaviours =
  be_update :: "nat \<Rightarrow> BehaviourRef \<Rightarrow> ObservedGameMemory \<Rightarrow> 'k Script"
  be_detach :: "nat \<Rightarrow> BehaviourRef \<Rightarrow> string list"
  be_rank :: "u32 \<Rightarrow> nat"

definition newGameConnection :: "int \<Rightarrow> 'k GameConnection" where
  "newGameConnection updateInterval =
     \<lparr>gc_State = AwaitingFirstHandshake, gc_UpdateTimer = newUpdateTimer updateInterval,
      gc_Observed = newObservedGameMemory, gc_Behaviours = [], gc_BehavioursToRemove = [],
      gc_MultiplayerBehaviour = None, gc_HomeBoxBehaviour = None, gc_Held = [], gc_Fresh = 0, gc_Events = []\<rparr>"

definition startGameConnection :: "'t option \<Rightarrow> int \<Rightarrow> ('k, 't) GameWorld result" where
  "startGameConnection transport updateInterval = (case transport of
     None \<Rightarrow> Err ''GameConnection requires a memory transport''
   | Some t \<Rightarrow> newGameSession (Some (t, newGameConnection updateInterval)))"

definition conn :: "('k, 't) GameWorld \<Rightarrow> 'k GameConnection" where
  "conn W = snd (sw_transport W)"

definition onConn :: "('k GameConnection \<Rightarrow> 'k GameConnection) \<Rightarrow> ('k, 't) GameWorld \<Rightarrow> ('k, 't) GameWorld" where
  "onConn f W = W\<lparr>sw_transport := (fst (sw_transport W), f (conn W))\<rparr>"

definition happen :: "'k GameEvent \<Rightarrow> ('k, 't) GameWorld \<Rightarrow> ('k, 't) GameWorld" where
  "happen e = onConn (\<lambda>g. g\<lparr>gc_Events := gc_Events g @ [e]\<rparr>)"

definition IsReady :: "'k GameConnection \<Rightarrow> bool" where
  "IsReady g \<longleftrightarrow> gc_State g = GcConnected"

definition HasDisconnected :: "'k GameConnection \<Rightarrow> bool" where
  "HasDisconnected g \<longleftrightarrow> gc_State g = GcDisconnected"

definition IsMemoryReadable :: "'k GameConnection \<Rightarrow> bool" where
  "IsMemoryReadable g \<longleftrightarrow> IsReady g \<and> AreHeadersValid (gc_Observed g)"

section \<open>Disconnecting and results\<close>

definition GameReportError :: "string \<Rightarrow> ('k, 't) GameWorld \<Rightarrow> ('k, 't) GameWorld" where
  "GameReportError message = happen (Reported message)"

definition CallOnDetach :: "'k Behaviours \<Rightarrow> BehaviourRef \<Rightarrow> ('k, 't) GameWorld \<Rightarrow> ('k, 't) GameWorld" where
  "CallOnDetach env b W =
     foldl (\<lambda>W message. GameReportError message W) (happen (Detached b) W)
       (be_detach env (length (gc_Events (conn W))) b)"

definition GameDisconnectWith ::
  "'k Behaviours \<Rightarrow> ('k Completion, 't \<times> 'k GameConnection) Callback \<Rightarrow> ('k, 't) GameWorld \<Rightarrow> ('k, 't) GameWorld" where
  "GameDisconnectWith env run W =
     (if HasDisconnected (conn W) then W
      else let behaviours = gc_Behaviours (conn W);
               W = onConn (\<lambda>g. g\<lparr>gc_State := GcDisconnected, gc_Behaviours := [], gc_BehavioursToRemove := []\<rparr>) (happen Dropped W);
               W = foldl (\<lambda>W b. CallOnDetach env b W) W behaviours
        in SessionStop (be_rank env) run W)"

text \<open>
  \<^verbatim>\<open>OnRecieveMessage\<close>. The observed memory asks for nothing or for a disconnect
  (\<open>OnRecieveMessage_effects\<close>).
\<close>

definition GameOnRecieveMessage ::
  "(('k, 't) GameWorld \<Rightarrow> ('k, 't) GameWorld) \<Rightarrow> u32 \<Rightarrow> bytes \<Rightarrow> ('k, 't) GameWorld \<Rightarrow> ('k, 't) GameWorld" where
  "GameOnRecieveMessage disconnect messageId data W =
     (if GetChannel messageId = CommonReadChannel
      then (case OnRecieveMessage messageId data (gc_Observed (conn W)) of (effects, m) \<Rightarrow>
        let W = onConn (\<lambda>g. g\<lparr>gc_Observed := m\<rparr>) W in
        if Disconnect \<in> set effects then disconnect W else W)
      else W)"

definition OnMemoryResult ::
  "(('k, 't) GameWorld \<Rightarrow> ('k, 't) GameWorld) \<Rightarrow> u32 \<Rightarrow> MemoryResult \<Rightarrow> ('k, 't) GameWorld \<Rightarrow> ('k, 't) GameWorld" where
  "OnMemoryResult disconnect messageId result W =
     (if HasDisconnected (conn W) then W
      else if res_status result = MsDisconnected then disconnect W
      else if res_status result \<noteq> MsOk then disconnect (GameReportError ''The connection to mGBA was lost.'' W)
      else GameOnRecieveMessage disconnect messageId (res_data result) W)"

text \<open>
  Calling a completion. A completion may disconnect, which stops the session, which calls the waiting
  completions: these see a disconnected connection and do nothing. The first argument bounds that
  nesting; \<open>completion_depth\<close> shows that 2 is enough.
\<close>

fun RunCompletion :: "nat \<Rightarrow> 'k Behaviours \<Rightarrow> ('k Completion, 't \<times> 'k GameConnection) Callback" where
  "RunCompletion 0 env c result W = W"
| "RunCompletion (Suc n) env (ReadCompletion messageId) result W =
     OnMemoryResult (GameDisconnectWith env (RunCompletion n env)) messageId result W"
| "RunCompletion (Suc n) env (WriteCompletion messageId onSuccess) result W =
     (let succeeded = (res_status result = MsOk);
          W = OnMemoryResult (GameDisconnectWith env (RunCompletion n env)) messageId result W
      in case onSuccess of
           None \<Rightarrow> W
         | Some k \<Rightarrow> if succeeded \<and> IsReady (conn W) then happen (Succeeded k) W else W)"

definition runCompletion :: "'k Behaviours \<Rightarrow> ('k Completion, 't \<times> 'k GameConnection) Callback" where
  "runCompletion env = RunCompletion 2 env"

definition GameDisconnect :: "'k Behaviours \<Rightarrow> ('k, 't) GameWorld \<Rightarrow> ('k, 't) GameWorld" where
  "GameDisconnect env = GameDisconnectWith env (runCompletion env)"

section \<open>Requests\<close>

definition GameWriteRequest ::
  "'t IGameMemoryTransport \<Rightarrow> 'k Behaviours \<Rightarrow> u32 \<Rightarrow> GameAddress \<Rightarrow> bytes \<Rightarrow> 'k option \<Rightarrow> ('k, 't) GameWorld
    \<Rightarrow> bool \<times> ('k, 't) GameWorld" where
  "GameWriteRequest ops env messageId addr data onSuccess W =
     (if length data > 2 ^ 32 - 1 then (False, GameDisconnect env W)
      else SessionWrite (game_ops ops) (runCompletion env) addr data (Some (WriteCompletion messageId onSuccess)) W)"

definition GameReadRequest ::
  "'t IGameMemoryTransport \<Rightarrow> 'k Behaviours \<Rightarrow> u32 \<Rightarrow> GameAddress \<Rightarrow> nat \<Rightarrow> ('k, 't) GameWorld
    \<Rightarrow> bool \<times> ('k, 't) GameWorld" where
  "GameReadRequest ops env messageId addr sz W =
     (if sz > 2 ^ 32 - 1 then (False, GameDisconnect env W)
      else SessionRead (game_ops ops) (runCompletion env) addr (word_of_nat sz) (Some (ReadCompletion messageId)) W)"

section \<open>The list of behaviours\<close>

definition AddBehaviour :: "BehaviourKind \<Rightarrow> ('k, 't) GameWorld \<Rightarrow> BehaviourRef \<times> ('k, 't) GameWorld" where
  "AddBehaviour kind W =
     (let ref = BehaviourRef kind (gc_Fresh (conn W))
      in (ref, happen (Attached ref)
                 (onConn (\<lambda>g. g\<lparr>gc_Fresh := gc_Fresh g + 1, gc_Behaviours := gc_Behaviours g @ [ref]\<rparr>) W)))"

definition RemoveBehaviour :: "BehaviourRef \<Rightarrow> ('k, 't) GameWorld \<Rightarrow> ('k, 't) GameWorld" where
  "RemoveBehaviour ref = onConn (\<lambda>g. g\<lparr>gc_BehavioursToRemove := gc_BehavioursToRemove g @ [ref]\<rparr>)"

definition RemoveBehaviourInternal :: "'k Behaviours \<Rightarrow> BehaviourRef \<Rightarrow> ('k, 't) GameWorld \<Rightarrow> ('k, 't) GameWorld" where
  "RemoveBehaviourInternal env ref W =
     (if ref \<in> set (gc_Behaviours (conn W))
      then CallOnDetach env ref (onConn (\<lambda>g. g\<lparr>gc_Behaviours := remove1 ref (gc_Behaviours g)\<rparr>) W)
      else W)"

definition FindBehaviour :: "BehaviourKind \<Rightarrow> 'k GameConnection \<Rightarrow> BehaviourRef option" where
  "FindBehaviour kind g = List.find (\<lambda>b. ref_kind b = kind) (gc_Behaviours g)"

text \<open>\<^verbatim>\<open>weak_ptr::lock\<close>: an object lives as long as one of the lists holds it.\<close>

definition lock :: "nat option \<Rightarrow> 'k GameConnection \<Rightarrow> BehaviourRef option" where
  "lock weak g = (case weak of
     None \<Rightarrow> None
   | Some i \<Rightarrow> List.find (\<lambda>b. ref_id b = i) (gc_Behaviours g @ gc_BehavioursToRemove g @ gc_Held g))"

definition expired :: "nat option \<Rightarrow> 'k GameConnection \<Rightarrow> bool" where
  "expired weak g \<longleftrightarrow> lock weak g = None"

section \<open>Callbacks of behaviours\<close>

fun performEffect ::
  "'t IGameMemoryTransport \<Rightarrow> 'k Behaviours \<Rightarrow> BehaviourRef \<Rightarrow> GameEffect \<Rightarrow> ('k, 't) GameWorld \<Rightarrow> bool \<times> ('k, 't) GameWorld" where
  "performEffect ops env self (ReadReq messageId addr sz) W = GameReadRequest ops env messageId addr sz W"
| "performEffect ops env self (WriteReq messageId addr data) W = GameWriteRequest ops env messageId addr data None W"
| "performEffect ops env self (ReportError message) W = (True, GameReportError message W)"
| "performEffect ops env self Disconnect W = (True, GameDisconnect env W)"
| "performEffect ops env self RemoveMultiplayer W = (True, RemoveBehaviour self W)"

fun perform ::
  "'t IGameMemoryTransport \<Rightarrow> 'k Behaviours \<Rightarrow> BehaviourRef \<Rightarrow> 'k GameCall \<Rightarrow> ('k, 't) GameWorld \<Rightarrow> bool \<times> ('k, 't) GameWorld" where
  "perform ops env self (Effect e) W = performEffect ops env self e W"
| "perform ops env self (WriteThen messageId addr data onSuccess) W =
     GameWriteRequest ops env messageId addr data (Some onSuccess) W"
| "perform ops env self (StorageRequest boxId) W =
     (case RequestPokemonStorageData (\<lambda>_. True) boxId (gc_Observed (conn W)) of
        (_, ReadReq messageId addr sz # _, resized) \<Rightarrow>
          (let W = onConn (\<lambda>g. g\<lparr>gc_Observed := snd (snd (RequestPokemonStorageData (\<lambda>_. False) boxId (gc_Observed g)))\<rparr>) W in
           case GameReadRequest ops env messageId addr sz W of
             (True, W) \<Rightarrow> (True, onConn (\<lambda>g. g\<lparr>gc_Observed := resized\<rparr>) W)
           | (False, W) \<Rightarrow> (False, W))
      | (_, _, cleared) \<Rightarrow> (False, onConn (\<lambda>g. g\<lparr>gc_Observed := cleared\<rparr>) W))"

primrec RunScript ::
  "'t IGameMemoryTransport \<Rightarrow> 'k Behaviours \<Rightarrow> BehaviourRef \<Rightarrow> 'k Script \<Rightarrow> ('k, 't) GameWorld \<Rightarrow> ('k, 't) GameWorld" where
  "RunScript ops env self EndScript = (\<lambda>W. W)"
| "RunScript ops env self (Call c rest) = (\<lambda>W. case perform ops env self c W of
     (answer, W) \<Rightarrow> RunScript ops env self (rest answer (IsReady (conn W)) (gc_Observed (conn W))) W)"

section \<open>The common behaviour\<close>

text \<open>
  \<^verbatim>\<open>CommonBehaviour::OnUpdate\<close>. The first component of a part says whether the function goes on (the
  early return of the code is \<open>False\<close>).
\<close>

definition common_u32 :: "string \<Rightarrow> ('k, 't) GameWorld \<Rightarrow> u32" where
  "common_u32 field W = rogue_u32 field (gc_Observed (conn W))"

definition common_edition :: "('k, 't) GameWorld \<Rightarrow> u8" where
  "common_edition W = field_u8 RogueAssistantHeader ''rogueVersion'' (m_Value (m_RogueHeader (gc_Observed (conn W))))"

definition reject_game :: "'k Behaviours \<Rightarrow> string \<Rightarrow> string \<Rightarrow> ('k, 't) GameWorld \<Rightarrow> ('k, 't) GameWorld" where
  "reject_game env line1 line2 W = GameDisconnect env (GameReportError (line1 @ [CHR 0x0A] @ line2) W)"

definition FollowMultiplayer :: "'k Behaviours \<Rightarrow> ('k, 't) GameWorld \<Rightarrow> bool \<times> ('k, 't) GameWorld" where
  "FollowMultiplayer env W =
     (let m = gc_Observed (conn W); offset = unat (common_u32 ''netRequestStateOffset'' W) in
      if IsMultiplayerStateValid m then
        (if expired (gc_MultiplayerBehaviour (conn W)) (conn W) then
           (if offset \<ge> blob_size (m_MultiplayerState m)
            then (False, reject_game env ''Cannot start multiplayer.'' ''The ROM multiplayer data is invalid.'' W)
            else if ObservedBlob.m_Data (m_MultiplayerState m) ! offset \<noteq> 0
            then (case AddBehaviour MultiplayerKind W of
                    (ref, W) \<Rightarrow> (True, onConn (\<lambda>g. g\<lparr>gc_MultiplayerBehaviour := Some (ref_id ref)\<rparr>) W))
            else (True, W))
         else (True, W))
      else (case lock (gc_MultiplayerBehaviour (conn W)) (conn W) of
              None \<Rightarrow> (True, W)
            | Some ref \<Rightarrow> (True, onConn (\<lambda>g. g\<lparr>gc_MultiplayerBehaviour := None\<rparr>) (RemoveBehaviour ref W))))"

definition FollowHomeBox :: "('k, 't) GameWorld \<Rightarrow> ('k, 't) GameWorld" where
  "FollowHomeBox W =
     (if IsHomeBoxStateValid (gc_Observed (conn W)) then
        (if expired (gc_HomeBoxBehaviour (conn W)) (conn W)
         then (case AddBehaviour HomeBoxKind W of
                 (ref, W) \<Rightarrow> onConn (\<lambda>g. g\<lparr>gc_HomeBoxBehaviour := Some (ref_id ref)\<rparr>) W)
         else W)
      else (case lock (gc_HomeBoxBehaviour (conn W)) (conn W) of
              None \<Rightarrow> W
            | Some ref \<Rightarrow> onConn (\<lambda>g. g\<lparr>gc_HomeBoxBehaviour := None\<rparr>) (RemoveBehaviour ref W)))"

definition CommonOnUpdate ::
  "'t IGameMemoryTransport \<Rightarrow> 'k Behaviours \<Rightarrow> ('k, 't) GameWorld \<Rightarrow> ('k, 't) GameWorld" where
  "CommonOnUpdate ops env W =
     (let confirmSize = common_u32 ''assistantConfirmSize'' W;
          state = common_u32 ''assistantState'' W;
          confirmOffset = common_u32 ''assistantConfirmOffset'' W in
      if \<not> IsMemoryReadable (conn W) then W
      else if common_u32 ''rogueAssistantCompatVersion'' W \<noteq> RequiredAssistantApi
      then reject_game env ''This game version is not supported.'' ''Check for an assistant update.'' W
      else if \<not> IsSupportedEdition (common_edition W)
      then reject_game env ''This ROM is not compatible.'' ''Use the Vanilla or EX edition.'' W
      else if confirmSize = 0 \<or> confirmSize > 4 \<or> state > 0xFFFFFFFF - confirmOffset
      then reject_game env ''Cannot connect.'' ''The ROM connection data is invalid.'' W
      else let W = snd (GameWriteRequest ops env (CreateMessageId AnonymousChannel 0) (state + confirmOffset)
                          (replicate (unat confirmSize) 0) None W)
        in case FollowMultiplayer env W of
             (False, W) \<Rightarrow> W
           | (True, W) \<Rightarrow> FollowHomeBox W)"

section \<open>Update\<close>

definition CallOnUpdate ::
  "'t IGameMemoryTransport \<Rightarrow> 'k Behaviours \<Rightarrow> BehaviourRef \<Rightarrow> ('k, 't) GameWorld \<Rightarrow> ('k, 't) GameWorld" where
  "CallOnUpdate ops env b W =
     (let W = happen (Updated b) W in
      if ref_kind b = CommonKind then CommonOnUpdate ops env W
      else RunScript ops env b (be_update env (length (gc_Events (conn W))) b (gc_Observed (conn W))) W)"

fun UpdateBehaviours ::
  "'t IGameMemoryTransport \<Rightarrow> 'k Behaviours \<Rightarrow> BehaviourRef list \<Rightarrow> ('k, 't) GameWorld \<Rightarrow> ('k, 't) GameWorld" where
  "UpdateBehaviours ops env [] W = W"
| "UpdateBehaviours ops env (b # bs) W =
     (if HasDisconnected (conn W) then W
      else UpdateBehaviours ops env bs
             (if b \<in> set (gc_BehavioursToRemove (conn W)) then W else CallOnUpdate ops env b W))"

text \<open>
  \<^verbatim>\<open>ObservedGameMemory::Update\<close>, whose calls do not read what the requests change.
\<close>

definition UpdateObserved ::
  "'t IGameMemoryTransport \<Rightarrow> 'k Behaviours \<Rightarrow> ('k, 't) GameWorld \<Rightarrow> ('k, 't) GameWorld" where
  "UpdateObserved ops env W = (case ObservedUpdate (gc_Observed (conn W)) of (effects, m) \<Rightarrow>
     foldl (\<lambda>W e. snd (performEffect ops env (BehaviourRef CommonKind 0) e W)) (onConn (\<lambda>g. g\<lparr>gc_Observed := m\<rparr>) W) effects)"

definition UpdateDue ::
  "'t IGameMemoryTransport \<Rightarrow> 'k Behaviours \<Rightarrow> ('k, 't) GameWorld \<Rightarrow> ('k, 't) GameWorld" where
  "UpdateDue ops env W =
     (let W = (if IsReady (conn W) \<and> CanSubmit (game_ops ops) W then UpdateObserved ops env W else W);
          behavioursToUpdate = gc_Behaviours (conn W);
          W = onConn (\<lambda>g. g\<lparr>gc_Held := behavioursToUpdate\<rparr>) W;
          W = UpdateBehaviours ops env behavioursToUpdate W;
          W = foldl (\<lambda>W b. RemoveBehaviourInternal env b W) W (gc_BehavioursToRemove (conn W))
      in onConn (\<lambda>g. g\<lparr>gc_BehavioursToRemove := [], gc_Held := []\<rparr>) W)"

definition Accept :: "('k, 't) GameWorld \<Rightarrow> ('k, 't) GameWorld" where
  "Accept W = (case gc_State (conn W) of
     AwaitingFirstHandshake \<Rightarrow> snd (AddBehaviour CommonKind (onConn (\<lambda>g. g\<lparr>gc_State := GcConnected\<rparr>) W))
   | AwaitingSecondHandshake \<Rightarrow> snd (AddBehaviour CommonKind (onConn (\<lambda>g. g\<lparr>gc_State := GcConnected\<rparr>) W))
   | GcConnected \<Rightarrow> W
   | GcDisconnected \<Rightarrow> W)"

definition GameUpdate ::
  "'t IGameMemoryTransport \<Rightarrow> 'k Behaviours \<Rightarrow> int \<Rightarrow> ('k, 't) GameWorld \<Rightarrow> ('k, 't) GameWorld" where
  "GameUpdate ops env currentTime W =
     (let W = SessionPoll (game_ops ops) (runCompletion env) W in
      if \<not> HasDisconnected (conn W) \<and> tState (game_ops ops) (sw_transport W) \<noteq> Connected then GameDisconnect env W
      else let W = Accept W in
        (case TimerUpdate currentTime (gc_UpdateTimer (conn W)) of (due, timer) \<Rightarrow>
           let W = onConn (\<lambda>g. g\<lparr>gc_UpdateTimer := timer\<rparr>) W in
           if due then UpdateDue ops env W else W))"

text \<open>The destructor calls no behaviour.\<close>

definition GameDestroy :: "'k Behaviours \<Rightarrow> ('k, 't) GameWorld \<Rightarrow> ('k, 't) GameWorld" where
  "GameDestroy env W =
     SessionStop (be_rank env) (runCompletion env) (onConn (\<lambda>g. g\<lparr>gc_State := GcDisconnected\<rparr>) W)"

end
