(* ===== verification/GameLifecycle.thy ===== *)
theory GameLifecycle
  imports GameConnection
begin

text \<open>
  The life of the behaviours of a connection: which calls an object may see, in which order. The
  history of the connection is checked event by event, and every operation keeps the list of
  behaviours equal to the ones that were attached and not detached.
\<close>

section \<open>Histories\<close>

fun event_ok :: "'k GameEvent list \<Rightarrow> 'k GameEvent \<Rightarrow> bool" where
  "event_ok past (Attached r) \<longleftrightarrow> Attached r \<notin> set past"
| "event_ok past (Updated r) \<longleftrightarrow> Attached r \<in> set past \<and> Detached r \<notin> set past \<and> Dropped \<notin> set past"
| "event_ok past (Detached r) \<longleftrightarrow> Attached r \<in> set past \<and> Detached r \<notin> set past"
| "event_ok past (Reported message) \<longleftrightarrow> True"
| "event_ok past (Succeeded k) \<longleftrightarrow> Dropped \<notin> set past"
| "event_ok past Dropped \<longleftrightarrow> Dropped \<notin> set past"

fun newest_first_ok :: "'k GameEvent list \<Rightarrow> bool" where
  "newest_first_ok [] \<longleftrightarrow> True"
| "newest_first_ok (e # past) \<longleftrightarrow> event_ok past e \<and> newest_first_ok past"

definition history_ok :: "'k GameEvent list \<Rightarrow> bool" where
  "history_ok es = newest_first_ok (rev es)"

lemma event_ok_rev: "event_ok (rev es) e = event_ok es e"
  by (cases e) simp_all

lemma history_ok_append [simp]: "history_ok (es @ [e]) \<longleftrightarrow> history_ok es \<and> event_ok es e"
  by (auto simp: history_ok_def event_ok_rev)

lemma history_ok_Nil [simp]: "history_ok []"
  by (simp add: history_ok_def)

text \<open>Every event of an accepted history was in order when it happened.\<close>

lemma newest_first_split: "newest_first_ok (xs @ e # past) \<Longrightarrow> event_ok past e"
  by (induction xs) auto

lemma history_ok_split: "history_ok (es @ e # later) \<Longrightarrow> event_ok es e"
  using newest_first_split [of "rev later" e "rev es"] by (simp add: history_ok_def event_ok_rev)

definition active :: "'k GameEvent list \<Rightarrow> BehaviourRef set" where
  "active es = {r. Attached r \<in> set es \<and> Detached r \<notin> set es}"

lemma active_simps [simp]:
  "active [] = {}" "active (es @ [Reported s]) = active es" "active (es @ [Updated r]) = active es"
  "active (es @ [Succeeded k]) = active es" "active (es @ [Dropped]) = active es"
  "active (es @ [Detached r]) = active es - {r}"
  "Detached r \<notin> set es \<Longrightarrow> active (es @ [Attached r]) = insert r (active es)"
  by (auto simp: active_def)

text \<open>No behaviour of the list was attached before the connection dropped.\<close>

definition none_left :: "'k GameEvent list \<Rightarrow> BehaviourRef list \<Rightarrow> bool" where
  "none_left es bs \<longleftrightarrow> (Dropped \<in> set es \<longrightarrow> (\<forall>b \<in> set bs. Attached b \<notin> set (takeWhile (\<lambda>e. e \<noteq> Dropped) es)))"

lemma none_left_event [simp]: "e \<noteq> Dropped \<Longrightarrow> none_left (es @ [e]) bs = none_left es bs"
  by (auto simp: none_left_def)

lemma none_left_Nil [simp]: "none_left es []" "none_left [] bs"
  by (simp_all add: none_left_def)

lemma none_left_new: "Attached b \<notin> set es \<Longrightarrow> none_left es (bs @ [b]) = none_left es bs"
  by (auto simp: none_left_def dest: set_takeWhileD)

lemma none_left_remove: "none_left es bs \<Longrightarrow> none_left es (remove1 b bs)"
  using set_remove1_subset [of b bs] by (auto simp: none_left_def)

lemma none_left_split:
  assumes "none_left (past @ Dropped # later) bs" and "Attached b \<in> set past" and "Dropped \<notin> set past"
  shows "b \<notin> set bs"
proof -
  have "takeWhile (\<lambda>e. e \<noteq> Dropped) (past @ Dropped # later) = past" using assms(3) by (induction past) auto
  then show ?thesis using assms(1,2) by (auto simp: none_left_def)
qed

section \<open>The invariant\<close>

text \<open>
  Inside an operation that still has to call \<^verbatim>\<open>OnDetach\<close> of the behaviours \<open>pending\<close>, which have left the
  list already.
\<close>

definition game_inv :: "BehaviourRef list \<Rightarrow> 'k GameConnection \<Rightarrow> bool" where
  "game_inv pending g \<longleftrightarrow> history_ok (gc_Events g)
     \<and> (HasDisconnected g \<longleftrightarrow> Dropped \<in> set (gc_Events g))
     \<and> distinct (pending @ gc_Behaviours g) \<and> set (pending @ gc_Behaviours g) = active (gc_Events g)
     \<and> none_left (gc_Events g) (gc_Behaviours g)
     \<and> (\<forall>r. Attached r \<in> set (gc_Events g) \<or> Detached r \<in> set (gc_Events g) \<longrightarrow> ref_id r < gc_Fresh g)"

abbreviation life_inv :: "('k, 't) GameWorld \<Rightarrow> bool" where
  "life_inv W \<equiv> game_inv [] (conn W)"

lemma conn_onConn [simp]: "conn (onConn f W) = f (conn W)"
  by (simp add: conn_def onConn_def)

lemma conn_happen [simp]: "conn (happen e W) = (conn W)\<lparr>gc_Events := gc_Events (conn W) @ [e]\<rparr>"
  by (simp add: happen_def)

lemma session_onConn [simp]:
  "sw_session (onConn f W) = sw_session W" "sw_events (onConn f W) = sw_events W"
  "fst (sw_transport (onConn f W)) = fst (sw_transport W)"
  "sw_session (happen e W) = sw_session W" "sw_events (happen e W) = sw_events W"
  "fst (sw_transport (happen e W)) = fst (sw_transport W)"
  by (simp_all add: onConn_def happen_def)

lemma state_simps [simp]:
  "HasDisconnected (g\<lparr>gc_Events := x\<rparr>) = HasDisconnected g" "HasDisconnected (g\<lparr>gc_Observed := m\<rparr>) = HasDisconnected g"
  "HasDisconnected (g\<lparr>gc_Behaviours := bs\<rparr>) = HasDisconnected g" "HasDisconnected (g\<lparr>gc_Fresh := n\<rparr>) = HasDisconnected g"
  "HasDisconnected (g\<lparr>gc_BehavioursToRemove := bs\<rparr>) = HasDisconnected g" "HasDisconnected (g\<lparr>gc_Held := bs\<rparr>) = HasDisconnected g"
  "HasDisconnected (g\<lparr>gc_MultiplayerBehaviour := w\<rparr>) = HasDisconnected g"
  "HasDisconnected (g\<lparr>gc_HomeBoxBehaviour := w\<rparr>) = HasDisconnected g"
  "HasDisconnected (g\<lparr>gc_UpdateTimer := t\<rparr>) = HasDisconnected g"
  "HasDisconnected (g\<lparr>gc_State := s\<rparr>) \<longleftrightarrow> s = GcDisconnected"
  by (simp_all add: HasDisconnected_def)

text \<open>Fields that the invariant does not mention.\<close>

lemma game_inv_other [simp]:
  "game_inv p (g\<lparr>gc_Observed := m\<rparr>) = game_inv p g" "game_inv p (g\<lparr>gc_BehavioursToRemove := bs\<rparr>) = game_inv p g"
  "game_inv p (g\<lparr>gc_Held := bs\<rparr>) = game_inv p g" "game_inv p (g\<lparr>gc_MultiplayerBehaviour := w\<rparr>) = game_inv p g"
  "game_inv p (g\<lparr>gc_HomeBoxBehaviour := w\<rparr>) = game_inv p g" "game_inv p (g\<lparr>gc_UpdateTimer := t\<rparr>) = game_inv p g"
  by (simp_all add: game_inv_def)

section \<open>The session inside the connection\<close>

text \<open>An operation of the session changes the connection only through the completions it calls.\<close>

lemma conn_session [simp]:
  "conn (W\<lparr>sw_session := s\<rparr>) = conn W" "conn (W\<lparr>sw_events := es\<rparr>) = conn W"
  "conn (W\<lparr>sw_transport := (t, g)\<rparr>) = g"
  by (simp_all add: conn_def)

lemma game_ops_conn:
  "tSubmit (game_ops ops) r tn = (ok, tn') \<Longrightarrow> snd tn' = snd tn"
  "tPollResults (game_ops ops) tn = (rs, tn') \<Longrightarrow> snd tn' = snd tn"
  by (auto simp: game_ops_def split: prod.splits)

definition runs_keep :: "('k GameConnection \<Rightarrow> bool) \<Rightarrow> ('k Completion, 't \<times> 'k GameConnection) Callback \<Rightarrow> bool" where
  "runs_keep P run \<longleftrightarrow> (\<forall>c r W. P (conn W) \<longrightarrow> P (conn (run c r W)))"

lemma SessionSubmit_keeps:
  assumes "runs_keep P run" and "P (conn W)"
  shows "P (conn (snd (SessionSubmit (game_ops ops) run request c W)))"
  using assms
  by (auto simp: SessionSubmit_def runs_keep_def Let_def conn_def split: option.splits prod.splits
      dest!: game_ops_conn(1))

lemma foldl_keeps: "(\<And>x W. P (conn W) \<Longrightarrow> P (conn (f W x))) \<Longrightarrow> P (conn W) \<Longrightarrow> P (conn (foldl f W xs))"
  by (induction xs arbitrary: W) auto

lemma PollOne_keeps: "runs_keep P run \<Longrightarrow> P (conn W) \<Longrightarrow> P (conn (PollOne run W r))"
  by (auto simp: PollOne_def runs_keep_def invoke_def Let_def split: option.splits)

lemma SessionPoll_keeps:
  assumes "runs_keep P run" and "P (conn W)"
  shows "P (conn (SessionPoll (game_ops ops) run W))"
proof -
  obtain rs tn where poll: "tPollResults (game_ops ops) (sw_transport W) = (rs, tn)" by (metis surj_pair)
  then have "conn (W\<lparr>sw_transport := tn\<rparr>) = conn W" using game_ops_conn(2) [OF poll] by (simp add: conn_def)
  with assms(2) have "P (conn (W\<lparr>sw_transport := tn\<rparr>))" by simp
  then have "P (conn (foldl (PollOne run) (W\<lparr>sw_transport := tn\<rparr>) rs))"
    by (rule foldl_keeps [rotated]) (rule PollOne_keeps [OF assms(1)])
  with assms(2) poll show ?thesis by (simp add: SessionPoll_def)
qed

lemma SessionStop_keeps:
  assumes "runs_keep P run" and "P (conn W)"
  shows "P (conn (SessionStop rank run W))"
proof -
  let ?f = "\<lambda>W (rid, request :: _ SessionPending). invoke run rid (sp_completion request) \<lparr>res_id = rid, res_status = MsDisconnected, res_data = []\<rparr> W"
  have "P (conn (?f V x))" if "P (conn V)" for V x
    using assms(1) that by (simp add: runs_keep_def invoke_def split: prod.split)
  moreover have "P (conn (W\<lparr>sw_session := s\<rparr>))" for s using assms(2) by simp
  ultimately have "P (conn (foldl ?f (W\<lparr>sw_session := s\<rparr>) ps))" for s ps
    using foldl_keeps [of P ?f "W\<lparr>sw_session := s\<rparr>" ps] by blast
  then show ?thesis using assms(2) by (simp only: SessionStop_def Let_def split: if_split) simp
qed

section \<open>Completions\<close>

lemma RunCompletion_disconnected:
  assumes "HasDisconnected (conn W)" shows "RunCompletion n env c r W = W"
  using assms by (cases n; cases c) (auto simp: OnMemoryResult_def IsReady_def HasDisconnected_def split: option.split)

lemma Stop_ignoring:
  assumes ignores: "\<And>c r W. HasDisconnected (conn W) \<Longrightarrow> run c r W = W" and "HasDisconnected (conn W)"
  shows "SessionStop rank run W = SessionStop rank (\<lambda>c r W. W) W"
proof -
  have calls: "foldl (\<lambda>W (rid, request). invoke run rid (sp_completion request) \<lparr>res_id = rid, res_status = MsDisconnected, res_data = []\<rparr> W) W ps
    = foldl (\<lambda>W (rid, request). invoke (\<lambda>c r W. W) rid (sp_completion request) \<lparr>res_id = rid, res_status = MsDisconnected, res_data = []\<rparr> W) W ps"
    if "HasDisconnected (conn W)" for W ps
    using that by (induction ps arbitrary: W) (auto simp: invoke_def ignores)
  show ?thesis unfolding SessionStop_def Let_def by (rule if_cong [OF refl refl calls]) (use assms(2) in simp)
qed

lemma CallOnDetach_state:
  "HasDisconnected (conn (CallOnDetach env b W)) = HasDisconnected (conn W)"
  using foldl_keeps [where P = "\<lambda>g. HasDisconnected g = HasDisconnected (conn W)"
      and f = "\<lambda>W message. GameReportError message W" and W = "happen (Detached b) W"]
  by (simp add: CallOnDetach_def GameReportError_def)

lemma DetachAll_state:
  "HasDisconnected (conn (foldl (\<lambda>W b. CallOnDetach env b W) W bs)) = HasDisconnected (conn W)"
  by (induction bs arbitrary: W) (simp_all add: CallOnDetach_state)

text \<open>The state after a disconnect, before the session is stopped.\<close>

definition dropped :: "'k Behaviours \<Rightarrow> ('k, 't) GameWorld \<Rightarrow> ('k, 't) GameWorld" where
  "dropped env W = foldl (\<lambda>W b. CallOnDetach env b W)
     (onConn (\<lambda>g. g\<lparr>gc_State := GcDisconnected, gc_Behaviours := [], gc_BehavioursToRemove := []\<rparr>) (happen Dropped W))
     (gc_Behaviours (conn W))"

lemma GameDisconnectWith_eq:
  assumes "\<And>c r W. HasDisconnected (conn W) \<Longrightarrow> run c r W = W"
  shows "GameDisconnectWith env run W = (if HasDisconnected (conn W) then W
    else SessionStop (be_rank env) (\<lambda>c r W. W) (dropped env W))"
proof -
  have "HasDisconnected (conn (dropped env W))" unfolding dropped_def DetachAll_state by simp
  from Stop_ignoring [OF assms this] show ?thesis by (simp add: GameDisconnectWith_def dropped_def)
qed

lemma nested_disconnect: "GameDisconnectWith env (RunCompletion n env) = GameDisconnectWith env (RunCompletion (Suc 0) env)"
  by (rule ext) (simp add: GameDisconnectWith_eq RunCompletion_disconnected)

lemma completion_depth: "RunCompletion (Suc n) env = runCompletion env"
proof (intro ext)
  fix c r W
  show "RunCompletion (Suc n) env c r W = runCompletion env c r W"
    unfolding runCompletion_def numeral_2_eq_2 by (cases c) (simp_all only: RunCompletion.simps nested_disconnect [of env n])
qed

lemma GameDisconnect_eq:
  "GameDisconnect env W = (if HasDisconnected (conn W) then W
    else SessionStop (be_rank env) (\<lambda>c r W. W) (dropped env W))"
  unfolding GameDisconnect_def runCompletion_def
  by (rule GameDisconnectWith_eq) (simp add: RunCompletion_disconnected)

lemma runCompletion_simps:
  "runCompletion env (ReadCompletion messageId) r W = OnMemoryResult (GameDisconnect env) messageId r W"
  "runCompletion env (WriteCompletion messageId onSuccess) r W =
     (let W' = OnMemoryResult (GameDisconnect env) messageId r W in
      case onSuccess of None \<Rightarrow> W' | Some k \<Rightarrow> if res_status r = MsOk \<and> IsReady (conn W') then happen (Succeeded k) W' else W')"
proof -
  have d: "GameDisconnectWith env (RunCompletion (Suc 0) env) = GameDisconnect env"
    by (simp add: GameDisconnect_def completion_depth)
  show "runCompletion env (ReadCompletion messageId) r W = OnMemoryResult (GameDisconnect env) messageId r W"
    by (simp add: runCompletion_def numeral_2_eq_2 d)
  show "runCompletion env (WriteCompletion messageId onSuccess) r W =
     (let W' = OnMemoryResult (GameDisconnect env) messageId r W in
      case onSuccess of None \<Rightarrow> W' | Some k \<Rightarrow> if res_status r = MsOk \<and> IsReady (conn W') then happen (Succeeded k) W' else W')"
    by (simp add: runCompletion_def numeral_2_eq_2 d Let_def)
qed

section \<open>What a property of the world must survive\<close>

text \<open>
  The contracts between the connection and the properties its operations keep. A property that
  survives new observed memory, a report, a completion and a disconnect survives every completion
  the session can call.
\<close>

locale completion_property =
  fixes env :: "'k Behaviours" and P :: "('k, 't) GameWorld \<Rightarrow> bool"
  assumes observed: "P W \<Longrightarrow> P (onConn (\<lambda>g. g\<lparr>gc_Observed := m\<rparr>) W)"
    and report: "P W \<Longrightarrow> P (happen (Reported s) W)"
    and succeed: "P W \<Longrightarrow> \<not> HasDisconnected (conn W) \<Longrightarrow> P (happen (Succeeded k) W)"
    and disconnect: "P W \<Longrightarrow> P (GameDisconnect env W)"
begin

lemma GameReportError_holds: "P W \<Longrightarrow> P (GameReportError s W)"
  by (simp add: GameReportError_def report)

lemma GameOnRecieveMessage_holds: "P W \<Longrightarrow> P (GameOnRecieveMessage (GameDisconnect env) messageId data W)"
  by (auto simp: GameOnRecieveMessage_def Let_def observed split: prod.split intro!: disconnect)

lemma OnMemoryResult_holds: "P W \<Longrightarrow> P (OnMemoryResult (GameDisconnect env) messageId r W)"
  by (auto simp: OnMemoryResult_def intro!: disconnect GameReportError_holds GameOnRecieveMessage_holds)

lemma runCompletion_holds: "P W \<Longrightarrow> P (runCompletion env c r W)"
  by (cases c) (auto simp: runCompletion_simps Let_def IsReady_def HasDisconnected_def split: option.split
      intro!: OnMemoryResult_holds succeed)

end

text \<open>
  When submitting and polling on the session keep the property too, every request, every script of a
  behaviour and the update of the observed memory do.
\<close>

locale game_property = completion_property env P for env :: "'k Behaviours" and P :: "('k, 't) GameWorld \<Rightarrow> bool" +
  fixes ops :: "'t IGameMemoryTransport"
  assumes to_remove: "P W \<Longrightarrow> P (onConn (\<lambda>g. g\<lparr>gc_BehavioursToRemove := bs g\<rparr>) W)"
    and submit: "P W \<Longrightarrow> P (snd (SessionSubmit (game_ops ops) (runCompletion env) request c W))"
    and poll: "P W \<Longrightarrow> P (SessionPoll (game_ops ops) (runCompletion env) W)"
begin

lemma GameWriteRequest_holds: "P W \<Longrightarrow> P (snd (GameWriteRequest ops env messageId addr data k W))"
  by (simp add: GameWriteRequest_def SessionWrite_def disconnect submit)

lemma GameReadRequest_holds: "P W \<Longrightarrow> P (snd (GameReadRequest ops env messageId addr sz W))"
  by (simp add: GameReadRequest_def SessionRead_def disconnect submit)

lemma RemoveBehaviour_holds: "P W \<Longrightarrow> P (RemoveBehaviour ref W)"
  by (simp add: RemoveBehaviour_def to_remove)

lemma performEffect_holds: "P W \<Longrightarrow> P (snd (performEffect ops env self e W))"
  by (cases e) (simp_all add: GameReadRequest_holds GameWriteRequest_holds GameReportError_holds disconnect RemoveBehaviour_holds)

lemma onConn_observed: "onConn (\<lambda>g. g\<lparr>gc_Observed := m g\<rparr>) W = onConn (\<lambda>g. g\<lparr>gc_Observed := m (conn W)\<rparr>) W"
  by (simp add: onConn_def)

lemma perform_holds: "P W \<Longrightarrow> P (snd (perform ops env self c W))"
proof (cases c)
  case (StorageRequest boxId)
  assume W: "P W"
  show ?thesis
  proof (cases "RequestPokemonStorageData (\<lambda>_. True) boxId (gc_Observed (conn W))")
    case (fields ok effects m)
    have "P (snd (case GameReadRequest ops env i a n (onConn (\<lambda>g. g\<lparr>gc_Observed := x g\<rparr>) W) of
        (True, W) \<Rightarrow> (True, onConn (\<lambda>g. g\<lparr>gc_Observed := m\<rparr>) W) | (False, W) \<Rightarrow> (False, W)))" for i a n x
    proof -
      obtain answer V where read: "GameReadRequest ops env i a n (onConn (\<lambda>g. g\<lparr>gc_Observed := x g\<rparr>) W) = (answer, V)"
        by (metis surj_pair)
      have "P (snd (GameReadRequest ops env i a n (onConn (\<lambda>g. g\<lparr>gc_Observed := x g\<rparr>) W)))"
        by (rule GameReadRequest_holds) (subst onConn_observed, rule observed [OF W])
      with read show ?thesis by (simp add: observed split: bool.split)
    qed
    then show ?thesis
      using StorageRequest fields W by (auto simp: observed Let_def split: list.split GameEffect.split)
  qed
qed (simp_all add: performEffect_holds GameWriteRequest_holds)

lemma RunScript_holds: "P W \<Longrightarrow> P (RunScript ops env self script W)"
proof (induction script arbitrary: W)
  case (Call c rest)
  obtain answer W' where "perform ops env self c W = (answer, W')" by (metis surj_pair)
  with perform_holds [OF Call.prems, of self c] show ?case by (auto intro!: Call.IH)
qed simp

lemma foldl_holds: "(\<And>x W. P W \<Longrightarrow> P (f W x)) \<Longrightarrow> P W \<Longrightarrow> P (foldl f W xs)"
  by (induction xs arbitrary: W) auto

lemma UpdateObserved_holds: "P W \<Longrightarrow> P (UpdateObserved ops env W)"
  by (auto simp: UpdateObserved_def split: prod.split intro!: foldl_holds performEffect_holds observed)

lemma reject_game_holds: "P W \<Longrightarrow> P (reject_game env line1 line2 W)"
  by (simp add: reject_game_def disconnect GameReportError_holds)

end

text \<open>With the attaching of behaviours, the common behaviour keeps it.\<close>

locale game_invariant = game_property +
  assumes attach: "P W \<Longrightarrow> P (snd (AddBehaviour kind W))"
    and weak: "P W \<Longrightarrow> P (onConn (\<lambda>g. g\<lparr>gc_MultiplayerBehaviour := w\<rparr>) W)" "P W \<Longrightarrow> P (onConn (\<lambda>g. g\<lparr>gc_HomeBoxBehaviour := w\<rparr>) W)"
begin

lemma FollowMultiplayer_holds: "P W \<Longrightarrow> P (snd (FollowMultiplayer env W))"
  using attach [of W MultiplayerKind]
  by (auto simp: FollowMultiplayer_def Let_def weak reject_game_holds RemoveBehaviour_holds split: prod.split option.split)

lemma FollowHomeBox_holds: "P W \<Longrightarrow> P (FollowHomeBox W)"
  using attach [of W HomeBoxKind]
  by (auto simp: FollowHomeBox_def weak RemoveBehaviour_holds split: prod.split option.split)

lemma CommonOnUpdate_holds: "P W \<Longrightarrow> P (CommonOnUpdate ops env W)"
proof -
  assume W: "P W"
  have follow: "P (case FollowMultiplayer env V of (False, W) \<Rightarrow> W | (True, W) \<Rightarrow> FollowHomeBox W)" if "P V" for V
    using FollowMultiplayer_holds [OF that] by (auto simp: FollowHomeBox_holds split: prod.split bool.split)
  show ?thesis
    unfolding CommonOnUpdate_def Let_def
    by (auto simp: W intro!: reject_game_holds follow GameWriteRequest_holds)
qed

end

text \<open>
  A property that no change of the connection touches as long as the connection stays connected or
  disconnected is kept by the whole update.
\<close>

locale session_property =
  fixes env :: "'k Behaviours" and P :: "('k, 't) GameWorld \<Rightarrow> bool" and ops :: "'t IGameMemoryTransport"
  assumes internal: "P W \<Longrightarrow> HasDisconnected (f (conn W)) = HasDisconnected (conn W) \<Longrightarrow> P (onConn f W)"
    and stop_session: "P W \<Longrightarrow> P (GameDisconnect env W)"
    and submit_request: "P W \<Longrightarrow> P (snd (SessionSubmit (game_ops ops) (runCompletion env) request c W))"
    and poll_session: "P W \<Longrightarrow> P (SessionPoll (game_ops ops) (runCompletion env) W)"

sublocale session_property \<subseteq> game_invariant env P ops
  by unfold_locales (auto simp: happen_def AddBehaviour_def Let_def intro!: internal stop_session submit_request poll_session)

context session_property
begin

lemma CallOnDetach_holds: "P W \<Longrightarrow> P (CallOnDetach env b W)"
  by (auto simp: CallOnDetach_def happen_def intro!: foldl_holds GameReportError_holds internal)

lemma CallOnUpdate_holds: "P W \<Longrightarrow> P (CallOnUpdate ops env b W)"
  by (auto simp: CallOnUpdate_def Let_def happen_def intro!: CommonOnUpdate_holds RunScript_holds internal)

lemma UpdateBehaviours_holds: "P W \<Longrightarrow> P (UpdateBehaviours ops env bs W)"
  by (induction bs arbitrary: W) (auto intro: CallOnUpdate_holds)

lemma RemoveBehaviourInternal_holds: "P W \<Longrightarrow> P (RemoveBehaviourInternal env ref W)"
  by (auto simp: RemoveBehaviourInternal_def intro!: CallOnDetach_holds internal)

lemma UpdateDue_holds: "P W \<Longrightarrow> P (UpdateDue ops env W)"
  by (auto simp: UpdateDue_def Let_def intro!: internal foldl_holds RemoveBehaviourInternal_holds UpdateBehaviours_holds
      UpdateObserved_holds)

lemma Accept_holds: "P W \<Longrightarrow> P (Accept W)"
  by (auto simp: Accept_def HasDisconnected_def split: GameConnectionState.split intro!: attach internal)

lemma GameUpdate_holds: "P W \<Longrightarrow> P (GameUpdate ops env now W)"
  by (auto simp: GameUpdate_def Let_def split: prod.split
      intro!: stop_session UpdateDue_holds Accept_holds internal poll_session)

end

section \<open>Every operation keeps the invariant\<close>

text \<open>The invariant, with behaviours \<open>B\<close> that stay in the list as long as the connection lives.\<close>

definition live :: "BehaviourRef set \<Rightarrow> 'k GameConnection \<Rightarrow> bool" where
  "live B g \<longleftrightarrow> game_inv [] g \<and> (HasDisconnected g \<or> B \<subseteq> set (gc_Behaviours g))"

lemma live_inv: "live B g \<Longrightarrow> game_inv [] g"
  by (simp add: live_def)

lemma live_empty: "live {} g = game_inv [] g"
  by (simp add: live_def)

lemma dropped_state: "HasDisconnected (conn (dropped env W))"
  unfolding dropped_def DetachAll_state by simp

lemma CallOnDetach_inv: "game_inv (b # p) (conn W) \<Longrightarrow> game_inv p (conn (CallOnDetach env b W))"
proof -
  assume inv: "game_inv (b # p) (conn W)"
  have report: "game_inv p (conn (GameReportError s V))" if "game_inv p (conn V)" for s V
    using that by (auto simp: GameReportError_def game_inv_def)
  have "game_inv p (conn (happen (Detached b) W))" using inv by (auto simp: game_inv_def active_def)
  then show ?thesis unfolding CallOnDetach_def by (rule foldl_keeps [rotated]) (rule report)
qed

lemma DetachAll_inv: "game_inv bs (conn W) \<Longrightarrow> game_inv [] (conn (foldl (\<lambda>W b. CallOnDetach env b W) W bs))"
  by (induction bs arbitrary: W) (simp_all add: CallOnDetach_inv)

lemma dropped_inv: "life_inv W \<Longrightarrow> \<not> HasDisconnected (conn W) \<Longrightarrow> life_inv (dropped env W)"
  unfolding dropped_def by (intro DetachAll_inv) (auto simp: game_inv_def)

lemma GameDisconnect_live: "live B (conn W) \<Longrightarrow> live B (conn (GameDisconnect env W))"
  using SessionStop_keeps [of "live B" "\<lambda>c r W. W" "dropped env W"] dropped_inv [of W env]
  by (simp add: GameDisconnect_eq runs_keep_def live_def dropped_state)

lemma live_internal:
  "live B g \<Longrightarrow> live B (g\<lparr>gc_Observed := m\<rparr>)" "live B g \<Longrightarrow> live B (g\<lparr>gc_BehavioursToRemove := bs\<rparr>)"
  "live B g \<Longrightarrow> live B (g\<lparr>gc_MultiplayerBehaviour := w\<rparr>)" "live B g \<Longrightarrow> live B (g\<lparr>gc_HomeBoxBehaviour := w\<rparr>)"
  "live B g \<Longrightarrow> live B (g\<lparr>gc_Events := gc_Events g @ [Reported s]\<rparr>)"
  "live B g \<Longrightarrow> \<not> HasDisconnected g \<Longrightarrow> live B (g\<lparr>gc_Events := gc_Events g @ [Succeeded k]\<rparr>)"
  by (auto simp: live_def game_inv_def)

lemma AddBehaviour_live: "live B (conn W) \<Longrightarrow> live B (conn (snd (AddBehaviour kind W)))"
proof -
  let ?g = "conn W" and ?r = "BehaviourRef kind (gc_Fresh (conn W))"
  assume inv: "live B ?g"
  have new: "\<not> (Attached ?r \<in> set (gc_Events ?g) \<or> Detached ?r \<in> set (gc_Events ?g))"
    using inv by (force simp: live_def game_inv_def)
  then have "?r \<notin> set (gc_Behaviours ?g)" using inv by (auto simp: live_def game_inv_def active_def)
  then show ?thesis using inv new by (auto simp: AddBehaviour_def Let_def live_def game_inv_def less_Suc_eq none_left_new)
qed

interpretation live_completions: completion_property env "\<lambda>W :: ('k, 't) GameWorld. live B (conn W)"
  for env :: "'k Behaviours" and B
  by unfold_locales (simp_all add: live_internal GameDisconnect_live)

interpretation life: game_invariant env "\<lambda>W. live B (conn W)" ops
  for env :: "'k Behaviours" and ops :: "'t IGameMemoryTransport" and B
  by unfold_locales
    (simp_all add: live_internal AddBehaviour_live SessionSubmit_keeps SessionPoll_keeps runs_keep_def live_completions.runCompletion_holds)

lemma CallOnUpdate_live:
  assumes "live B (conn W)" and "b \<in> set (gc_Behaviours (conn W))" and "\<not> HasDisconnected (conn W)"
  shows "live B (conn (CallOnUpdate ops env b W))"
proof -
  have "live B (conn (happen (Updated b) W))" using assms by (auto simp: live_def game_inv_def active_def)
  then show ?thesis
    by (auto simp: CallOnUpdate_def Let_def simp del: conn_happen intro: life.CommonOnUpdate_holds life.RunScript_holds)
qed

lemma UpdateBehaviours_inv: "live (set bs) (conn W) \<Longrightarrow> life_inv (UpdateBehaviours ops env bs W)"
proof (induction bs arbitrary: W)
  case (Cons b bs)
  show ?case
  proof (cases "HasDisconnected (conn W)")
    case False
    then have "b \<in> set (gc_Behaviours (conn W))" using Cons.prems by (simp add: live_def)
    moreover have "live (set bs) (conn W)" using Cons.prems by (auto simp: live_def)
    ultimately show ?thesis using False by (auto intro!: Cons.IH CallOnUpdate_live)
  qed (use Cons.prems in \<open>simp add: live_def\<close>)
qed (simp add: live_def)

lemma RemoveBehaviourInternal_inv: "life_inv W \<Longrightarrow> life_inv (RemoveBehaviourInternal env ref W)"
proof -
  assume inv: "life_inv W"
  have "game_inv [ref] ((conn W)\<lparr>gc_Behaviours := remove1 ref (gc_Behaviours (conn W))\<rparr>)"
    if "ref \<in> set (gc_Behaviours (conn W))"
    using inv that by (auto simp: game_inv_def set_remove1_eq none_left_remove)
  then show ?thesis using inv by (auto simp: RemoveBehaviourInternal_def intro: CallOnDetach_inv)
qed

lemma UpdateDue_inv: "life_inv W \<Longrightarrow> life_inv (UpdateDue ops env W)"
proof -
  assume inv: "life_inv W"
  define V where "V = (if IsReady (conn W) \<and> CanSubmit (game_ops ops) W then UpdateObserved ops env W else W)"
  have "life_inv V" using inv life.UpdateObserved_holds [of "{}" W ops env] by (simp add: V_def live_empty)
  then have "live (set (gc_Behaviours (conn V))) (conn (onConn (\<lambda>g. g\<lparr>gc_Held := gc_Behaviours (conn V)\<rparr>) V))"
    by (simp add: live_def)
  then have "life_inv (UpdateBehaviours ops env (gc_Behaviours (conn V)) (onConn (\<lambda>g. g\<lparr>gc_Held := gc_Behaviours (conn V)\<rparr>) V))"
    by (rule UpdateBehaviours_inv)
  then have "life_inv (foldl (\<lambda>W b. RemoveBehaviourInternal env b W)
      (UpdateBehaviours ops env (gc_Behaviours (conn V)) (onConn (\<lambda>g. g\<lparr>gc_Held := gc_Behaviours (conn V)\<rparr>) V)) bs)" for bs
    by (rule foldl_keeps [rotated]) (rule RemoveBehaviourInternal_inv)
  then show ?thesis by (simp add: UpdateDue_def Let_def flip: V_def)
qed

lemma Accept_inv: "life_inv W \<Longrightarrow> life_inv (Accept W)"
proof -
  assume inv: "life_inv W"
  have "life_inv (snd (AddBehaviour CommonKind (onConn (\<lambda>g. g\<lparr>gc_State := GcConnected\<rparr>) W)))"
    if "\<not> HasDisconnected (conn W)"
    using AddBehaviour_live [of "{}" "onConn (\<lambda>g. g\<lparr>gc_State := GcConnected\<rparr>) W" CommonKind] inv that
    by (simp add: live_empty) (simp add: game_inv_def)
  then show ?thesis using inv by (auto simp: Accept_def HasDisconnected_def split: GameConnectionState.split)
qed

lemma GameUpdate_inv: "life_inv W \<Longrightarrow> life_inv (GameUpdate ops env now W)"
  using life.poll [of "{}" W ops env]
  by (auto simp: GameUpdate_def Let_def live_empty split: prod.split
      intro!: UpdateDue_inv Accept_inv GameDisconnect_live [of "{}", unfolded live_empty])

section \<open>Runs\<close>

text \<open>
  A connection from its construction: updates, disconnects by the manager, and between them the
  surroundings change the transport by \<open>changes\<close>.
\<close>

inductive game_reachable ::
  "'t IGameMemoryTransport \<Rightarrow> ('t \<Rightarrow> 't \<Rightarrow> bool) \<Rightarrow> ('t \<Rightarrow> bool) \<Rightarrow> 'k Behaviours \<Rightarrow> ('k, 't) GameWorld \<Rightarrow> bool"
  for ops changes initial env where
  start: "initial t \<Longrightarrow> startGameConnection (Some t) updateInterval = Ok W \<Longrightarrow> game_reachable ops changes initial env W"
| update: "game_reachable ops changes initial env W \<Longrightarrow> game_reachable ops changes initial env (GameUpdate ops env now W)"
| disconnect: "game_reachable ops changes initial env W \<Longrightarrow> game_reachable ops changes initial env (GameDisconnect env W)"
| transport: "game_reachable ops changes initial env W \<Longrightarrow> changes (fst (sw_transport W)) t \<Longrightarrow>
    game_reachable ops changes initial env (W\<lparr>sw_transport := (t, conn W)\<rparr>)"

lemma life_inv_start: "startGameConnection (Some t) updateInterval = Ok W \<Longrightarrow> life_inv W"
  by (auto simp: startGameConnection_def newGameSession_def conn_def newGameConnection_def game_inv_def HasDisconnected_def)

lemma game_reachable_inv: "game_reachable ops changes initial env W \<Longrightarrow> life_inv W"
  by (induction rule: game_reachable.induct)
    (simp_all add: life_inv_start GameUpdate_inv GameDisconnect_live [of "{}", unfolded live_empty])

end
