(* ===== verification/GameProps.thy ===== *)
theory GameProps
  imports GameLifecycle
begin

text \<open>
  The properties of a connection: the order of a behaviour's callbacks, what a disconnect does, and
  which behaviours the common behaviour attaches.
\<close>

section \<open>What the common behaviour's request leaves alone\<close>

lemma SessionSubmit_refusal:
  assumes "\<And>c r W. res_status r \<noteq> MsOk \<Longrightarrow> P (conn W) \<Longrightarrow> P (conn (run c r W))" and "P (conn W)"
  shows "P (conn (snd (SessionSubmit (game_ops ops) run request c W)))"
  using assms
  by (auto simp: SessionSubmit_def Let_def conn_def split: option.splits prod.splits dest!: game_ops_conn(1))

definition attached_only :: "BehaviourRef set \<Rightarrow> ObservedGameMemory \<Rightarrow> 'k GameConnection \<Rightarrow> bool" where
  "attached_only A m g \<longleftrightarrow> {r. Attached r \<in> set (gc_Events g)} = A \<and> gc_Observed g = m"

lemma attached_only_report: "attached_only A m (conn (GameReportError s W)) = attached_only A m (conn W)"
  by (simp add: attached_only_def GameReportError_def)

lemma attached_only_disconnect:
  assumes "attached_only A m (conn W)" shows "attached_only A m (conn (GameDisconnect env W))"
proof -
  have detach: "attached_only A m (conn (CallOnDetach env b V))" if "attached_only A m (conn V)" for b V
    unfolding CallOnDetach_def using that
    by (intro foldl_keeps [where P = "attached_only A m"]) (simp_all add: attached_only_report, simp add: attached_only_def)
  have "attached_only A m (conn (dropped env W))"
    unfolding dropped_def using assms
    by (intro foldl_keeps [where P = "attached_only A m"] detach) (simp_all add: attached_only_def)
  with assms show ?thesis
    using SessionStop_keeps [of "attached_only A m" "\<lambda>c r W. W" "dropped env W"]
    by (simp add: GameDisconnect_eq runs_keep_def)
qed

lemma attached_only_refusal:
  assumes "res_status r \<noteq> MsOk" and "attached_only A m (conn W)"
  shows "attached_only A m (conn (runCompletion env c r W))"
proof -
  have "attached_only A m (conn (OnMemoryResult (GameDisconnect env) i r W))" for i
    using assms by (simp add: OnMemoryResult_def attached_only_disconnect attached_only_report)
  with assms(1) show ?thesis by (cases c) (auto simp: runCompletion_simps Let_def split: option.split)
qed

lemma attached_only_write:
  "attached_only A m (conn W) \<Longrightarrow> attached_only A m (conn (snd (GameWriteRequest ops env messageId addr data k W)))"
  by (simp add: GameWriteRequest_def SessionWrite_def attached_only_disconnect SessionSubmit_refusal attached_only_refusal)

lemma attached_only_other [simp]:
  "attached_only A m (g\<lparr>gc_MultiplayerBehaviour := w\<rparr>) = attached_only A m g"
  "attached_only A m (g\<lparr>gc_HomeBoxBehaviour := w\<rparr>) = attached_only A m g"
  "attached_only A m (g\<lparr>gc_BehavioursToRemove := bs\<rparr>) = attached_only A m g"
  by (simp_all add: attached_only_def)

lemma attached_only_add:
  "attached_only A m (conn W) \<Longrightarrow> AddBehaviour kind W = (ref, W') \<Longrightarrow> ref_kind ref = kind \<and> attached_only (insert ref A) m (conn W')"
  by (auto simp: AddBehaviour_def Let_def attached_only_def)

lemma FollowMultiplayer_attaches:
  assumes "attached_only A m (conn W)" and "FollowMultiplayer env W = (go, W')"
  shows "\<exists>B. attached_only B m (conn W') \<and> A \<subseteq> B \<and> (\<forall>r \<in> B - A. ref_kind r = MultiplayerKind \<and> IsMultiplayerStateValid m
    \<and> unat (rogue_u32 ''netRequestStateOffset'' m) < blob_size (m_MultiplayerState m)
    \<and> ObservedBlob.m_Data (m_MultiplayerState m) ! unat (rogue_u32 ''netRequestStateOffset'' m) \<noteq> 0)"
proof -
  have m: "gc_Observed (conn W) = m" using assms(1) by (simp add: attached_only_def)
  have rejected: "attached_only A m (conn (reject_game env l1 l2 W))" for l1 l2
    using assms(1) by (simp add: reject_game_def attached_only_disconnect attached_only_report)
  let ?wanted = "IsMultiplayerStateValid m \<and> expired (gc_MultiplayerBehaviour (conn W)) (conn W)
    \<and> unat (rogue_u32 ''netRequestStateOffset'' m) < blob_size (m_MultiplayerState m)
    \<and> ObservedBlob.m_Data (m_MultiplayerState m) ! unat (rogue_u32 ''netRequestStateOffset'' m) \<noteq> 0"
  show ?thesis
  proof (cases ?wanted)
    case True
    obtain ref V where new: "AddBehaviour MultiplayerKind W = (ref, V)" by (metis surj_pair)
    from attached_only_add [OF assms(1) new]
    have "attached_only (insert ref A) m (conn W')" "ref_kind ref = MultiplayerKind"
      using assms(2) True new by (auto simp: FollowMultiplayer_def Let_def m common_u32_def)
    with True show ?thesis by (intro exI [of _ "insert ref A"]) auto
  next
    case False
    then have "attached_only A m (conn W')"
      using assms rejected
      by (auto simp: FollowMultiplayer_def Let_def m common_u32_def RemoveBehaviour_def not_le split: if_splits option.splits)
    then show ?thesis by auto
  qed
qed

lemma FollowHomeBox_attaches:
  assumes "attached_only A m (conn W)"
  shows "\<exists>B. attached_only B m (conn (FollowHomeBox W)) \<and> (\<forall>r \<in> B - A. ref_kind r = HomeBoxKind \<and> IsHomeBoxStateValid m)"
proof -
  have m: "gc_Observed (conn W) = m" using assms by (simp add: attached_only_def)
  obtain ref V where new: "AddBehaviour HomeBoxKind W = (ref, V)" by (metis surj_pair)
  have added: "ref_kind ref = HomeBoxKind \<and> attached_only (insert ref A) m (conn (FollowHomeBox W))"
    if "IsHomeBoxStateValid m" "expired (gc_HomeBoxBehaviour (conn W)) (conn W)"
    using attached_only_add [OF assms new] that new by (simp add: FollowHomeBox_def m)
  have kept: "attached_only A m (conn (FollowHomeBox W))"
    if "\<not> (IsHomeBoxStateValid m \<and> expired (gc_HomeBoxBehaviour (conn W)) (conn W))"
    using assms that
    by (cases "lock (gc_HomeBoxBehaviour (conn W)) (conn W)")
      (simp_all add: FollowHomeBox_def RemoveBehaviour_def m)
  show ?thesis using added kept by (cases "IsHomeBoxStateValid m \<and> expired (gc_HomeBoxBehaviour (conn W)) (conn W)") auto
qed

text \<open>The checks of the header that come before anything is attached.\<close>

definition accepted_rom :: "('k, 't) GameWorld \<Rightarrow> bool" where
  "accepted_rom W \<longleftrightarrow> IsMemoryReadable (conn W) \<and> common_u32 ''rogueAssistantCompatVersion'' W = 3
     \<and> (common_edition W = VanillaEdition \<or> common_edition W = ExEdition)
     \<and> 0 < common_u32 ''assistantConfirmSize'' W \<and> common_u32 ''assistantConfirmSize'' W \<le> 4
     \<and> unat (common_u32 ''assistantState'' W) + unat (common_u32 ''assistantConfirmOffset'' W) < 2 ^ 32"

lemma no_address_overflow:
  "\<not> (state :: u32) > 0xFFFFFFFF - offset \<longleftrightarrow> unat state + unat offset < 2 ^ 32"
proof -
  have "unat (0xFFFFFFFF - offset) = 4294967295 - unat offset"
    using word_le_nat_alt [of offset "0xFFFFFFFF"] unsigned_less [of offset, where ?'a = nat]
    by (subst unat_sub) (simp_all add: word_le_nat_alt)
  moreover have "unat offset < 2 ^ 32" using unsigned_less [of offset, where ?'a = nat] by simp
  ultimately show ?thesis by (auto simp: word_less_nat_alt not_less)
qed

lemma CommonOnUpdate_eq:
  assumes "accepted_rom W"
  shows "CommonOnUpdate ops env W =
    (case FollowMultiplayer env (snd (GameWriteRequest ops env (CreateMessageId AnonymousChannel 0)
         (common_u32 ''assistantState'' W + common_u32 ''assistantConfirmOffset'' W)
         (replicate (unat (common_u32 ''assistantConfirmSize'' W)) 0) None W)) of
       (False, W) \<Rightarrow> W | (True, W) \<Rightarrow> FollowHomeBox W)"
proof -
  have "common_u32 ''assistantConfirmSize'' W \<noteq> 0" using assms by (auto simp: accepted_rom_def)
  moreover have "\<not> common_u32 ''assistantState'' W > 0xFFFFFFFF - common_u32 ''assistantConfirmOffset'' W"
    unfolding no_address_overflow using assms by (simp add: accepted_rom_def)
  moreover have "\<not> common_u32 ''assistantConfirmSize'' W > 4" using assms by (simp add: accepted_rom_def not_less)
  ultimately show ?thesis
    using assms by (simp add: CommonOnUpdate_def Let_def accepted_rom_def RequiredAssistantApi_def IsSupportedEdition_def
        del: not_less linorder_not_less)
qed

lemma CommonOnUpdate_rejects:
  assumes "\<not> accepted_rom W"
  shows "CommonOnUpdate ops env W = W \<or> (\<exists>line1 line2. CommonOnUpdate ops env W = reject_game env line1 line2 W)"
proof -
  have "common_u32 ''assistantConfirmSize'' W = 0 \<or> common_u32 ''assistantConfirmSize'' W > 4
      \<or> common_u32 ''assistantState'' W > 0xFFFFFFFF - common_u32 ''assistantConfirmOffset'' W"
    if "IsMemoryReadable (conn W)" "common_u32 ''rogueAssistantCompatVersion'' W = 3" "IsSupportedEdition (common_edition W)"
    using assms that unfolding accepted_rom_def IsSupportedEdition_def not_less [symmetric] no_address_overflow [symmetric]
    by (auto simp only: word_neq_0_conv)
  then show ?thesis by (auto simp: CommonOnUpdate_def Let_def RequiredAssistantApi_def)
qed

section \<open>The session is stopped exactly when the connection is disconnected\<close>

definition stop_ok :: "('k, 't) GameWorld \<Rightarrow> bool" where
  "stop_ok W \<longleftrightarrow> (HasDisconnected (conn W) \<longleftrightarrow> gs_Stopped (sw_session W))
     \<and> (gs_Stopped (sw_session W) \<longrightarrow> gs_Pending (sw_session W) = [])"

lemma ignoring_foldl:
  "sw_session (foldl (\<lambda>W (rid, request :: _ SessionPending). invoke (\<lambda>c r W. W) rid (sp_completion request) (x rid) W) W ps) = sw_session W"
  by (induction ps arbitrary: W) (simp_all add: invoke_def split: prod.split)

lemma ignoring_events:
  "completed_callbacks (sw_events (foldl (\<lambda>W (rid, request :: _ SessionPending). invoke (\<lambda>c r W. W) rid (sp_completion request) (x rid) W) W ps))
   = completed_callbacks (sw_events W) + mset (map pending_callback ps)"
  by (induction ps arbitrary: W) (auto simp: invoke_def)

lemma dropped_session:
  fixes W :: "('k, 't) GameWorld"
  shows "sw_session (dropped env W) = sw_session W" "sw_events (dropped env W) = sw_events W"
proof -
  have report: "sw_session (foldl (\<lambda>W s. GameReportError s W) V ss) = sw_session V \<and> sw_events (foldl (\<lambda>W s. GameReportError s W) V ss) = sw_events V"
    for ss and V :: "('k, 't) GameWorld" by (induction ss arbitrary: V) (simp_all add: GameReportError_def)
  have "sw_session (foldl (\<lambda>W b. CallOnDetach env b W) V bs) = sw_session V \<and> sw_events (foldl (\<lambda>W b. CallOnDetach env b W) V bs) = sw_events V"
    for bs and V :: "('k, 't) GameWorld" by (induction bs arbitrary: V) (simp_all add: CallOnDetach_def report)
  then show "sw_session (dropped env W) = sw_session W" "sw_events (dropped env W) = sw_events W"
    by (simp_all add: dropped_def)
qed

lemma GameDisconnect_stopped:
  assumes "HasDisconnected (conn W) \<Longrightarrow> gs_Stopped (sw_session W) \<and> gs_Pending (sw_session W) = []"
    and "gs_Stopped (sw_session W) \<Longrightarrow> gs_Pending (sw_session W) = []"
  shows "gs_Stopped (sw_session (GameDisconnect env W)) \<and> gs_Pending (sw_session (GameDisconnect env W)) = []"
  using assms by (auto simp: GameDisconnect_eq SessionStop_def Let_def ignoring_foldl dropped_session)

lemma GameDisconnect_completes:
  assumes "\<not> HasDisconnected (conn W)" and "\<not> gs_Stopped (sw_session W)"
  shows "completed_callbacks (sw_events (GameDisconnect env W))
    = completed_callbacks (sw_events W) + mset (map pending_callback (gs_Pending (sw_session W)))"
  using assms by (simp add: GameDisconnect_eq SessionStop_def Let_def ignoring_events dropped_session)

lemma GameDisconnect_disconnected: "HasDisconnected (conn (GameDisconnect env W))"
  using SessionStop_keeps [of HasDisconnected "\<lambda>c r W. W" "dropped env W"]
  by (simp add: GameDisconnect_eq runs_keep_def dropped_state)

lemma GameDisconnect_stop_ok: "stop_ok W \<Longrightarrow> stop_ok (GameDisconnect env W)"
  using GameDisconnect_stopped [of W env] by (auto simp: stop_ok_def GameDisconnect_disconnected)

interpretation stop_completions: completion_property env "stop_ok :: ('k, 't) GameWorld \<Rightarrow> bool" for env :: "'k Behaviours"
  by unfold_locales (auto simp: stop_ok_def [of "onConn f W" for f W] stop_ok_def [of "happen e W" for e W] GameDisconnect_stop_ok
      dest: stop_ok_def [THEN iffD1])

lemma stop_ok_same:
  "stop_ok W \<Longrightarrow> conn V = conn W \<Longrightarrow> gs_Stopped (sw_session V) = gs_Stopped (sw_session W) \<Longrightarrow>
   (gs_Pending (sw_session W) = [] \<Longrightarrow> gs_Pending (sw_session V) = []) \<Longrightarrow> stop_ok V"
  by (auto simp: stop_ok_def)

lemma stop_ok_running: "\<not> HasDisconnected (conn V) \<Longrightarrow> \<not> gs_Stopped (sw_session V) \<Longrightarrow> stop_ok V"
  by (simp add: stop_ok_def)

lemma AllocateRequestId_keeps:
  "AllocateRequestId s = Some (rid, s') \<Longrightarrow> gs_Stopped s' = gs_Stopped s \<and> gs_Pending s' = gs_Pending s"
  by (auto simp: AllocateRequestId_def)

lemma SessionSubmit_stop_ok:
  assumes "stop_ok W" shows "stop_ok (snd (SessionSubmit (game_ops ops) (runCompletion env) request c W))"
proof (cases "CanSubmit (game_ops ops) W")
  case True
  then have running: "\<not> HasDisconnected (conn W)" "\<not> gs_Stopped (sw_session W)"
    using assms by (auto simp: stop_ok_def CanSubmit_def)
  then have fresh: "stop_ok V" if "conn V = conn W" "\<not> gs_Stopped (sw_session V)" for V
    using that by (simp add: stop_ok_def)
  have run: "stop_ok (runCompletion env c r V)" if "conn V = conn W" "\<not> gs_Stopped (sw_session V)" for c r V
    by (rule stop_completions.runCompletion_holds) (rule fresh [OF that])
  show ?thesis
    by (auto simp: SessionSubmit_def True Let_def assms running split: option.split prod.split
        intro!: run dest!: game_ops_conn(1) AllocateRequestId_keeps) (rule fresh, simp_all add: conn_def running)+
qed (simp add: SessionSubmit_def assms)

lemma PollOne_stop_ok: "stop_ok W \<Longrightarrow> stop_ok (PollOne (runCompletion env) W r)"
  by (auto simp: PollOne_def Let_def invoke_def erase_def split: option.split
      intro!: stop_completions.runCompletion_holds elim!: stop_ok_same)

lemma SessionPoll_stop_ok: "stop_ok W \<Longrightarrow> stop_ok (SessionPoll (game_ops ops) (runCompletion env) W)"
proof -
  assume W: "stop_ok W"
  obtain rs tn where poll: "tPollResults (game_ops ops) (sw_transport W) = (rs, tn)" by (metis surj_pair)
  have "stop_ok (W\<lparr>sw_transport := tn\<rparr>)"
    using game_ops_conn(2) [OF poll] by (intro stop_ok_same [OF W]) (simp_all add: conn_def)
  then have "stop_ok (foldl (PollOne (runCompletion env)) (W\<lparr>sw_transport := tn\<rparr>) rs)"
    by (induction rs arbitrary: tn rule: rev_induct) (simp_all add: PollOne_stop_ok)
  with W poll show ?thesis by (simp add: SessionPoll_def)
qed

interpretation stopping: session_property env "stop_ok :: ('k, 't) GameWorld \<Rightarrow> bool" ops
  for env :: "'k Behaviours" and ops :: "'t IGameMemoryTransport"
  by unfold_locales (auto simp: stop_ok_def [of "onConn f W" for f W] intro: SessionSubmit_stop_ok
      SessionPoll_stop_ok stop_completions.disconnect dest: stop_ok_def [THEN iffD1])

lemma game_reachable_stop_ok: "game_reachable ops changes initial env W \<Longrightarrow> stop_ok W"
proof (induction rule: game_reachable.induct)
  case (start t i W)
  then show ?case by (auto simp: startGameConnection_def newGameSession_def stop_ok_def conn_def newGameConnection_def HasDisconnected_def)
next
  case (transport W t)
  then show ?case by (simp add: stop_ok_def)
qed (rule stopping.GameUpdate_holds stop_completions.disconnect; assumption)+

lemma GameDisconnect_empty:
  assumes "\<not> HasDisconnected (conn W)"
  shows "gc_Behaviours (conn (GameDisconnect env W)) = []"
proof -
  have detach: "gc_Behaviours (conn (CallOnDetach env b V)) = gc_Behaviours (conn V)" for b V
    using foldl_keeps [where P = "\<lambda>g. gc_Behaviours g = gc_Behaviours (conn V)"
        and f = "\<lambda>W message. GameReportError message W" and W = "happen (Detached b) V"]
    by (simp add: CallOnDetach_def GameReportError_def)
  have "gc_Behaviours (conn (dropped env W)) = []"
    unfolding dropped_def by (intro foldl_keeps [where P = "\<lambda>g. gc_Behaviours g = []"]) (simp_all add: detach)
  then show ?thesis
    using SessionStop_keeps [of "\<lambda>g. gc_Behaviours g = []" "\<lambda>c r W. W" "dropped env W"] assms
    by (simp add: GameDisconnect_eq runs_keep_def)
qed

lemma life_inv_detached:
  assumes inv: "life_inv W" and es: "gc_Events (conn W) = past @ Dropped # later" and r: "Attached r \<in> set past"
  shows "Detached r \<in> set (gc_Events (conn W))"
proof -
  have "event_ok past Dropped" using inv es history_ok_split [of past Dropped later] by (simp add: game_inv_def)
  then have "r \<notin> set (gc_Behaviours (conn W))"
    using none_left_split [of past later "gc_Behaviours (conn W)" r] inv es r by (simp add: game_inv_def)
  then have "r \<notin> active (gc_Events (conn W))" using inv by (simp add: game_inv_def)
  with es r show ?thesis by (simp add: active_def)
qed

section \<open>Properties\<close>

text \<open>
  C4. The life of a behaviour: in every run of a connection, whatever its behaviours do and whatever the
  transport answers, a behaviour is attached once, updated only after that and before it is
  detached and never after the connection has dropped, and detached at most once; the connection
  drops once and completes no write after it; and the list holds exactly the behaviours that are
  attached and not detached, each once. After every update and disconnect, each behaviour that was
  attached before the connection dropped has been detached, wherever in the update it dropped.
\<close>

theorem behaviour_lifecycle:
  assumes "game_reachable ops changes initial env W"
  shows "(\<forall>past e later. gc_Events (conn W) = past @ e # later \<longrightarrow> event_ok past e)
    \<and> distinct (gc_Behaviours (conn W))
    \<and> set (gc_Behaviours (conn W)) = {r. Attached r \<in> set (gc_Events (conn W)) \<and> Detached r \<notin> set (gc_Events (conn W))}
    \<and> (HasDisconnected (conn W) \<longleftrightarrow> Dropped \<in> set (gc_Events (conn W)))
    \<and> (\<forall>past later r. gc_Events (conn W) = past @ Dropped # later \<longrightarrow> Attached r \<in> set past \<longrightarrow>
         Detached r \<in> set (gc_Events (conn W)))"
proof -
  have inv: "life_inv W" using game_reachable_inv [OF assms] .
  then have "history_ok (gc_Events (conn W))" by (simp add: game_inv_def)
  then have "event_ok past e" if "gc_Events (conn W) = past @ e # later" for past e later
    using that history_ok_split by fastforce
  moreover from this have "Detached r \<in> set (gc_Events (conn W))"
    if "gc_Events (conn W) = past @ Dropped # later" "Attached r \<in> set past" for past later r
    using life_inv_detached [OF inv that] that(1) by fastforce
  ultimately show ?thesis using inv by (simp add: game_inv_def active_def)
qed

text \<open>
  C5. What a disconnect does, in every run of a connection. When the connection was not disconnected
  before (the manager disconnects it between two updates), afterwards it is, the list is empty, every
  behaviour that was ever attached has been detached, and the session has called the completion of
  each request that waited, once. In any case, also when an update of the connection has disconnected
  it before, the connection is disconnected, each behaviour attached before it dropped is detached,
  the session is stopped and no request waits, and another disconnect changes nothing.
\<close>

theorem game_disconnect_complete:
  assumes "game_reachable ops changes initial env W"
  shows "let W' = GameDisconnect env W in
    (\<not> HasDisconnected (conn W) \<longrightarrow> gc_Behaviours (conn W') = []
       \<and> (\<forall>r. Attached r \<in> set (gc_Events (conn W')) \<longrightarrow> Detached r \<in> set (gc_Events (conn W')))
       \<and> completed_callbacks (sw_events W') = completed_callbacks (sw_events W)
           + mset (map (\<lambda>(rid, p). (rid, sp_completion p)) (gs_Pending (sw_session W))))
    \<and> HasDisconnected (conn W')
    \<and> (\<forall>past later r. gc_Events (conn W') = past @ Dropped # later \<longrightarrow> Attached r \<in> set past \<longrightarrow>
         Detached r \<in> set (gc_Events (conn W')))
    \<and> gs_Stopped (sw_session W') \<and> gs_Pending (sw_session W') = [] \<and> GameDisconnect env W' = W'"
proof -
  let ?W = "GameDisconnect env W"
  have inv: "life_inv ?W" using game_reachable_inv [OF game_reachable.disconnect [OF assms]] .
  have stop: "stop_ok W" "stop_ok ?W" using game_reachable_stop_ok [OF assms] GameDisconnect_stop_ok by blast+
  have callback: "(\<lambda>(rid, p). (rid, sp_completion p)) = pending_callback" by (auto simp: pending_callback_def)
  have "completed_callbacks (sw_events ?W) = completed_callbacks (sw_events W) + mset (map pending_callback (gs_Pending (sw_session W)))"
    if "\<not> HasDisconnected (conn W)" using that stop(1) by (intro GameDisconnect_completes) (simp_all add: stop_ok_def)
  moreover have "\<forall>r. Attached r \<in> set (gc_Events (conn ?W)) \<longrightarrow> Detached r \<in> set (gc_Events (conn ?W))"
    if "\<not> HasDisconnected (conn W)" using GameDisconnect_empty [OF that, of env] inv by (auto simp: game_inv_def active_def)
  moreover have "gs_Stopped (sw_session ?W)" "gs_Pending (sw_session ?W) = []"
    using stop(2) GameDisconnect_disconnected by (auto simp: stop_ok_def)
  moreover have "GameDisconnect env ?W = ?W" by (simp add: GameDisconnect_eq [of env ?W] GameDisconnect_disconnected)
  ultimately show ?thesis
    using GameDisconnect_empty [of W env] life_inv_detached [OF inv] by (simp add: callback Let_def GameDisconnect_disconnected)
qed

text \<open>
  C6. What the common behaviour attaches: a behaviour is attached only for a ROM with readable headers of
  the required API, a supported edition and a confirmation field that lies in the address space;
  multiplayer only when its state is valid and its request byte, read inside the copied state, is
  set, and the Home Box only when its state is valid.
\<close>

theorem common_attaches_checked:
  assumes "Attached r \<in> set (gc_Events (conn (CommonOnUpdate ops env W)))" and "Attached r \<notin> set (gc_Events (conn W))"
  shows "accepted_rom W \<and> (let m = gc_Observed (conn W); offset = unat (rogue_u32 ''netRequestStateOffset'' m) in
     ref_kind r = MultiplayerKind \<and> IsMultiplayerStateValid m \<and> offset < blob_size (m_MultiplayerState m)
       \<and> ObservedBlob.m_Data (m_MultiplayerState m) ! offset \<noteq> 0
     \<or> ref_kind r = HomeBoxKind \<and> IsHomeBoxStateValid m)"
proof -
  let ?m = "gc_Observed (conn W)" and ?A = "{r. Attached r \<in> set (gc_Events (conn W))}"
  have start: "attached_only ?A ?m (conn W)" by (simp add: attached_only_def)
  have "attached_only ?A ?m (conn (reject_game env l1 l2 W))" for l1 l2
    using start by (simp add: reject_game_def attached_only_disconnect attached_only_report)
  then have "Attached r \<notin> set (gc_Events (conn (reject_game env l1 l2 W)))" for l1 l2
    using assms(2) unfolding attached_only_def by blast
  then have rom: "accepted_rom W" using CommonOnUpdate_rejects [of W ops env] assms by metis
  define V where "V = snd (GameWriteRequest ops env (CreateMessageId AnonymousChannel 0)
     (common_u32 ''assistantState'' W + common_u32 ''assistantConfirmOffset'' W)
     (replicate (unat (common_u32 ''assistantConfirmSize'' W)) 0) None W)"
  have V: "attached_only ?A ?m (conn V)" unfolding V_def by (rule attached_only_write [OF start])
  obtain go V' where follow: "FollowMultiplayer env V = (go, V')" by (metis surj_pair)
  from FollowMultiplayer_attaches [OF V follow] obtain B where B: "attached_only B ?m (conn V')" "?A \<subseteq> B"
    "\<forall>r \<in> B - ?A. ref_kind r = MultiplayerKind \<and> IsMultiplayerStateValid ?m
       \<and> unat (rogue_u32 ''netRequestStateOffset'' ?m) < blob_size (m_MultiplayerState ?m)
       \<and> ObservedBlob.m_Data (m_MultiplayerState ?m) ! unat (rogue_u32 ''netRequestStateOffset'' ?m) \<noteq> 0" by blast
  have "CommonOnUpdate ops env W = (if go then FollowHomeBox V' else V')"
    using CommonOnUpdate_eq [OF rom, of ops env] follow by (simp flip: V_def split: bool.split)
  moreover from FollowHomeBox_attaches [OF B(1)] obtain C where
    "attached_only C ?m (conn (FollowHomeBox V'))" "\<forall>r \<in> C - B. ref_kind r = HomeBoxKind \<and> IsHomeBoxStateValid ?m" by blast
  ultimately show ?thesis using rom assms B by (auto simp: Let_def attached_only_def split: if_splits)
qed

end
