(* ===== verification/TcpIdle.thy ===== *)
theory TcpIdle
  imports TcpTransportInv
begin

text \<open>
  A poll of \<^verbatim>\<open>TcpLuaTransport\<close> accepts no request: while no request waits, the steps of a poll leave
  none waiting, also when a client comes and goes in them. After the poll the transport owes
  nothing, since it has handed out its results.
\<close>

definition none_pending :: "Tcp \<Rightarrow> bool" where
  "none_pending tn \<longleftrightarrow> tl_Pending (fst tn) = []"

lemma none_pending_Pair [simp]: "none_pending (t, net) \<longleftrightarrow> tl_Pending t = []"
  by (simp add: none_pending_def)

lemma CompletePending_none_pending [simp]: "none_pending (CompletePending st tn)"
  by (cases tn) (simp add: CompletePending_def)

lemma QueueFrame_pending [simp]: "tl_Pending (snd (QueueFrame peer frame t)) = tl_Pending t"
  by (simp add: QueueFrame_def split: prod.split sum.split)

lemma QueueError_pending [simp]: "tl_Pending (snd (QueueError peer rid code diagnostic t)) = tl_Pending t"
  by (simp add: QueueError_def split: sum.split)

lemma markClosing_pending [simp]: "tl_Pending (markClosing t) = tl_Pending t"
  by (simp add: markClosing_def)

lemma CloseClient_none_pending [simp]: "none_pending (CloseClient st diagnostic tn)"
  by (cases tn) (simp add: CloseClient_def CompletePending_def Let_def)

lemma BeginProtocolClose_none_pending: "none_pending tn \<Longrightarrow> none_pending (BeginProtocolClose code diagnostic tn)"
proof (cases tn)
  case (Pair t net)
  assume "none_pending tn"
  then show ?thesis unfolding Pair BeginProtocolClose_def
    by (auto simp: Let_def CompletePending_def split: option.split prod.split)
qed

lemma BeginOrderlyClose_none_pending: "none_pending tn \<Longrightarrow> none_pending (BeginOrderlyClose tn)"
proof (cases tn)
  case (Pair t net)
  assume "none_pending tn"
  then show ?thesis unfolding Pair BeginOrderlyClose_def
    by (auto simp: Let_def CompletePending_def split: option.split prod.split)
qed

lemma ProcessHello_none_pending: "none_pending tn \<Longrightarrow> none_pending (ProcessHello peer frame tn)"
proof (cases tn)
  case (Pair t net)
  have queued: "QueueFrame peer f t = (q, u) \<Longrightarrow> tl_Pending u = tl_Pending t" for f q u
    using QueueFrame_pending [of peer f t] by simp
  assume "none_pending tn"
  then show ?thesis unfolding Pair ProcessHello_def
    by (auto simp: Let_def queued intro!: BeginProtocolClose_none_pending split: sum.split prod.split)
qed

lemma ProcessFrame_none_pending: "none_pending tn \<Longrightarrow> none_pending (ProcessFrame frame tn)"
proof (cases tn)
  case (Pair t net)
  assume "none_pending tn"
  then have pending: "tl_Pending t = []" by (simp add: Pair)
  then have "none_pending (ProcessReadResult frame (t, net))" "none_pending (ProcessWriteResult frame (t, net))"
    "none_pending (ProcessError p frame (t, net))" for p
    by (auto simp: ProcessReadResult_def ProcessWriteResult_def ProcessError_def intro!: BeginProtocolClose_none_pending split: sum.split)
  then show ?thesis using pending unfolding Pair ProcessFrame_def
    by (auto intro!: ProcessHello_none_pending BeginOrderlyClose_none_pending BeginProtocolClose_none_pending split: option.split)
qed

lemma ProcessFrames_none_pending: "none_pending tn \<Longrightarrow> none_pending (ProcessFrames frames tn)"
  by (induction frames tn rule: ProcessFrames.induct) (auto intro: ProcessFrame_none_pending split: option.split)

lemma setters_pending [simp]:
  "tl_Pending (setDecoder peer d t) = tl_Pending t" "tl_Pending (setWriter peer w t) = tl_Pending t"
  by (simp_all add: setDecoder_def setWriter_def)

lemma ReceiveClientLoop_none_pending: "none_pending tn \<Longrightarrow> none_pending (ReceiveClientLoop n tn)"
proof (induction n tn rule: ReceiveClientLoop.induct)
  case (1 received t net)
  show ?case
  proof (cases "tl_Client t")
    case None
    then show ?thesis using "1.prems" by (simp add: ReceiveClientLoop.simps [of received])
  next
    case (Some peer)
    obtain result bs net' where receive: "SocketReceive (pe_socket peer) (min ReceiveChunkSize (MaximumIoBytesPerPoll - received)) net
      = (result, bs, net')" by (metis prod_cases3)
    obtain ok d where append: "Append (pe_decoder peer) bs = (ok, d)" by fastforce
    obtain frames d' where frames: "PollFrames d = (frames, d')" by fastforce
    have loop: "none_pending (ReceiveClientLoop (received + io_byteCount result) (ProcessFrames frames (setDecoder peer d' t, net')))"
      if "\<not> (pe_closeAfterWrite peer \<or> received \<ge> MaximumIoBytesPerPoll)" "io_status result = SsOk" "io_byteCount result \<noteq> 0" ok
      using that "1.prems" append frames
      by (intro "1.IH" [OF Some _ refl receive [symmetric] refl refl that(2,3) append [symmetric] refl _ frames [symmetric] refl] ProcessFrames_none_pending) auto
    show ?thesis
      using "1.prems" loop
      by (simp add: ReceiveClientLoop.simps [of received] Some receive append frames Let_def BeginProtocolClose_none_pending split: SocketStatus.split)
  qed
qed

lemma FlushClientLoop_none_pending: "none_pending tn \<Longrightarrow> none_pending (snd (FlushClientLoop n tn))"
proof (induction n tn rule: FlushClientLoop.induct)
  case (1 sent t net)
  then show ?case
    by (simp add: FlushClientLoop.simps [of sent] Let_def split: option.split prod.split)
qed

lemma FlushClient_none_pending: "none_pending tn \<Longrightarrow> none_pending (FlushClient tn)"
  using FlushClientLoop_none_pending [of tn 0] by (auto simp: FlushClient_def split: option.split prod.split)

lemma AcceptClientsLoop_none_pending: "none_pending tn \<Longrightarrow> none_pending (AcceptClientsLoop n tn)"
  by (induction n tn rule: AcceptClientsLoop.induct)
    (auto simp: Let_def RejectBusyClient_def split: prod.split option.split)

lemma poll_steps_none_pending:
  "none_pending tn \<Longrightarrow> none_pending (FlushClosingPeers (AcceptClients tn))" "none_pending tn \<Longrightarrow> none_pending (ReceiveClient tn)"
proof -
  assume "none_pending tn"
  then show "none_pending (FlushClosingPeers (AcceptClients tn))" "none_pending (ReceiveClient tn)"
    using AcceptClientsLoop_none_pending [of tn MaximumAcceptsPerPoll] ReceiveClientLoop_none_pending [of tn 0]
    by (cases "AcceptClients tn"; auto simp: FlushClosingPeers_def AcceptClients_def ReceiveClient_def split: prod.split)+
qed

lemma TcpPollResults_none_pending: "none_pending tn \<Longrightarrow> none_pending (snd (TcpPollResults tn))"
proof -
  assume start: "none_pending tn"
  let ?accepted = "FlushClosingPeers (AcceptClients tn)"
  have "none_pending (case tl_Client (fst ?accepted) of None \<Rightarrow> ?accepted
      | Some _ \<Rightarrow> let tn = ReceiveClient ?accepted in (case tl_Client (fst tn) of None \<Rightarrow> tn | Some _ \<Rightarrow> FlushClient tn))"
    using poll_steps_none_pending(1) [OF start] poll_steps_none_pending(2) [of ?accepted] FlushClient_none_pending
    by (simp add: Let_def split: option.split)
  with start have "none_pending (if tl_State (fst tn) \<noteq> Stopped
      then case tl_Client (fst ?accepted) of None \<Rightarrow> ?accepted
        | Some _ \<Rightarrow> let tn = ReceiveClient ?accepted in (case tl_Client (fst tn) of None \<Rightarrow> tn | Some _ \<Rightarrow> FlushClient tn)
      else tn)" by simp
  then show ?thesis unfolding TcpPollResults_def Let_def by (auto split: prod.split)
qed

end
