(* ===== verification/GameBridge.thy ===== *)
theory GameBridge
  imports GameProps SessionBridge TcpIdle
begin

text \<open>
  A game connection on a session on the TCP transport: the completions of the connection are callbacks
  that keep the session's invariant, so every request of the connection and its behaviours is
  completed once.
\<close>

section \<open>The connection as a client of the session\<close>

definition conn_owes :: "('t \<Rightarrow> request_key multiset \<Rightarrow> bool) \<Rightarrow> 't \<times> 'k GameConnection \<Rightarrow> request_key multiset \<Rightarrow> bool" where
  "conn_owes owes tn K = owes (fst tn) K"

lemma session_inv_onConn [simp]:
  "session_inv (conn_owes owes) R D (onConn f W) = session_inv (conn_owes owes) R D W"
  by (simp add: session_inv_def conn_owes_def)

lemma session_inv_CallOnDetach [simp]:
  "session_inv (conn_owes owes) R D (CallOnDetach env b W) = session_inv (conn_owes owes) R D W"
proof -
  have "session_inv (conn_owes owes) R D (foldl (\<lambda>W s. GameReportError s W) W ss) = session_inv (conn_owes owes) R D W" for ss W
    by (induction ss arbitrary: W) (simp_all add: GameReportError_def happen_def)
  then show ?thesis by (simp add: CallOnDetach_def happen_def)
qed

lemma session_inv_dropped [simp]:
  "session_inv (conn_owes owes) R D (dropped env W) = session_inv (conn_owes owes) R D W"
proof -
  have "session_inv (conn_owes owes) R D (foldl (\<lambda>W b. CallOnDetach env b W) W bs) = session_inv (conn_owes owes) R D W" for bs W
    by (induction bs arbitrary: W) simp_all
  then show ?thesis by (simp add: dropped_def happen_def)
qed

context memory_transport
begin

lemma lifted: "memory_transport (game_ops ops) (conn_owes owes)"
proof
  fix tn tn' :: "'t \<times> 'z GameConnection" and K r rs
  show "conn_owes owes tn K \<Longrightarrow> ValidateMemoryRequest r = MsOk \<Longrightarrow> tSubmit (game_ops ops) r tn = (True, tn') \<Longrightarrow>
      conn_owes owes tn' (add_mset (request_key r) K)"
    using submit_accepted [of "fst tn" K r] by (auto simp: game_ops_def conn_owes_def split: prod.splits)
  show "conn_owes owes tn K \<Longrightarrow> tSubmit (game_ops ops) r tn = (False, tn') \<Longrightarrow> conn_owes owes tn' K"
    using submit_refused [of "fst tn" K r] by (auto simp: game_ops_def conn_owes_def split: prod.splits)
  show "conn_owes owes tn K \<Longrightarrow> tPollResults (game_ops ops) tn = (rs, tn') \<Longrightarrow>
      \<exists>answered K'. K = mset answered + K' \<and> list_all2 result_for rs answered \<and> conn_owes owes tn' K'"
    using poll_owed [of "fst tn" K rs "fst tn'"] by (simp add: game_ops_def conn_owes_def split: prod.splits) auto
  show "conn_owes owes tn K \<Longrightarrow> conn_owes owes (tStop (game_ops ops) tn) K"
    using stop_owed [of "fst tn" K] by (auto simp: game_ops_def conn_owes_def split: prod.splits)
qed

lemma disconnect_inv_session:
  "session_inv (conn_owes owes) R D W \<Longrightarrow> session_inv (conn_owes owes) R D (GameDisconnect env W)"
  unfolding GameDisconnect_eq
  by (auto intro!: memory_transport.stop_inv_session [OF lifted] simp: handler_ok_def)

lemma completion_inv_session: "handler_ok (conn_owes owes) (runCompletion env)"
proof -
  have "completion_property env (session_inv (conn_owes owes) R D)" for R D
    by unfold_locales (simp_all add: happen_def disconnect_inv_session)
  from completion_property.runCompletion_holds [OF this] show ?thesis by (simp add: handler_ok_def)
qed

lemma session_property_conn: "session_property env (session_inv (conn_owes owes) {#} {#}) ops"
  by unfold_locales
    (simp_all add: disconnect_inv_session memory_transport.submit_inv_session [OF lifted completion_inv_session]
      memory_transport.poll_inv_session [OF lifted completion_inv_session])

end

section \<open>The transport under a connection\<close>

text \<open>
  A transport is \<open>tcp_unused\<close> when it is new, or when the manager has polled a used one and seen it not
  connected before or after; the manager then goes on polling, and drops the results.
\<close>

inductive tcp_unused :: "Tcp \<Rightarrow> bool" where
  created: "newTcpLuaTransport net0 = (Ok t, net) \<Longrightarrow> net_closed net0 = [] \<Longrightarrow> tcp_unused (t, net)"
| released: "tcp_used tn \<Longrightarrow> tl_State (fst tn) \<noteq> Connected \<or> tl_State (fst (snd (TcpPollResults tn))) \<noteq> Connected \<Longrightarrow>
    tcp_unused (snd (TcpPollResults tn))"
| polled: "tcp_unused tn \<Longrightarrow> tcp_unused (snd (TcpPollResults tn))"
| network: "tcp_unused (t, net) \<Longrightarrow> same_handles net net' \<Longrightarrow> tcp_unused (t, net')"

definition tcp_changes :: "Tcp \<Rightarrow> Tcp \<Rightarrow> bool" where
  "tcp_changes tn tn' \<longleftrightarrow> fst tn' = fst tn \<and> same_handles (snd tn) (snd tn') \<or> tn' = TcpStop tn"

lemma tcp_inv_none_pending: "tcp_inv tn K \<Longrightarrow> tl_State (fst tn) \<noteq> Connected \<Longrightarrow> none_pending tn"
  by (auto simp: tcp_inv_def state_inv_def none_pending_def)

lemma tcp_released: "tcp_inv tn K \<Longrightarrow> none_pending tn \<Longrightarrow> tl_Results (fst tn) = [] \<Longrightarrow> tcp_inv tn {#}"
  by (auto simp: tcp_inv_def weak_inv_def answers_inv_def none_pending_def)

lemma tcp_unused_inv: "tcp_unused tn \<Longrightarrow> tcp_inv tn {#}"
proof (induction rule: tcp_unused.induct)
  case (released tn)
  then obtain K where K: "tcp_inv tn K" using tcp_used_inv by blast
  from TcpPollResults_inv [OF K, of "fst (TcpPollResults tn)" "snd (TcpPollResults tn)"]
  obtain K' where K': "tcp_inv (snd (TcpPollResults tn)) K'" by auto
  moreover have "tl_Results (fst (snd (TcpPollResults tn))) = []" by (simp add: TcpPollResults_def Let_def split: prod.split)
  moreover have "none_pending (snd (TcpPollResults tn))"
    using released.hyps(2) tcp_inv_none_pending [OF K] tcp_inv_none_pending [OF K'] TcpPollResults_none_pending by blast
  ultimately show ?case using tcp_released by blast
next
  case (polled tn)
  from TcpPollResults_inv [OF polled.IH, of "fst (TcpPollResults tn)" "snd (TcpPollResults tn)"] show ?case by auto
qed (auto intro: tcp_inv_new tcp_inv_net)

lemma session_inv_fresh_conn:
  assumes "tcp_inv tn {#}" and "startGameConnection (Some tn) updateInterval = Ok W"
  shows "session_inv (conn_owes tcp_inv) {#} {#} W"
  using assms by (auto simp: startGameConnection_def newGameSession_def session_inv_def conn_owes_def)

lemma session_inv_changes:
  assumes "session_inv (conn_owes tcp_inv) {#} {#} W" and "tcp_changes (fst (sw_transport W)) tn"
  shows "session_inv (conn_owes tcp_inv) {#} {#} (W\<lparr>sw_transport := (tn, conn W)\<rparr>)"
proof -
  have "tcp_inv (fst (sw_transport W)) K \<Longrightarrow> tcp_inv tn K" for K
    using assms(2) by (cases "fst (sw_transport W)"; cases tn) (auto simp: tcp_changes_def intro: tcp_inv_net TcpStop_inv)
  with assms(1) show ?thesis by (auto simp: session_inv_def conn_owes_def)
qed

lemma game_reachable_session:
  "game_reachable tcp_ops tcp_changes tcp_unused env W \<Longrightarrow> session_inv (conn_owes tcp_inv) {#} {#} W"
proof (induction rule: game_reachable.induct)
  case (start t i W)
  then show ?case using session_inv_fresh_conn tcp_unused_inv by blast
next
  case (update W now)
  show ?case by (rule session_property.GameUpdate_holds [OF tcp.session_property_conn update.IH])
next
  case (disconnect W)
  show ?case by (rule tcp.disconnect_inv_session [OF disconnect.IH])
next
  case (transport W t)
  then show ?case by (intro session_inv_changes)
qed

section \<open>Properties\<close>

text \<open>
  Every request of a connection is answered once: in every run of a connection on the TCP transport
  (also one that an earlier connection has used), whatever its behaviours call, the completions that
  were called and the ones still waiting are exactly those of the accepted requests, at most 256
  wait, the transport owes exactly these as long as the session runs, and a disconnected connection
  has none left: each accepted request has had its completion called.
\<close>

theorem connection_answers_once:
  assumes "game_reachable tcp_ops tcp_changes tcp_unused env W"
  shows "accepted_callbacks (sw_events W)
      = completed_callbacks (sw_events W) + mset (map (\<lambda>(rid, p). (rid, sp_completion p)) (gs_Pending (sw_session W)))
    \<and> length (gs_Pending (sw_session W)) \<le> 256
    \<and> (\<not> gs_Stopped (sw_session W) \<longrightarrow> gs_ProtocolErrorCount (sw_session W) = 0 \<and>
         tcp_inv (fst (sw_transport W)) (mset (map (\<lambda>(rid, p). (rid, sp_operation p, sp_expectedSize p)) (gs_Pending (sw_session W)))))
    \<and> (HasDisconnected (conn W) \<longrightarrow> gs_Pending (sw_session W) = []
         \<and> accepted_callbacks (sw_events W) = completed_callbacks (sw_events W))"
proof -
  have inv: "session_inv (conn_owes tcp_inv) {#} {#} W" using game_reachable_session [OF assms] .
  have stop: "HasDisconnected (conn W) \<longrightarrow> gs_Stopped (sw_session W)"
    using game_reachable_stop_ok [OF assms] by (simp add: stop_ok_def)
  have callback: "(\<lambda>(rid, p). (rid, sp_completion p)) = pending_callback" by (auto simp: pending_callback_def)
  have key: "(\<lambda>(rid, p). (rid, sp_operation p, sp_expectedSize p)) = pending_key" by (auto simp: pending_key_def)
  show ?thesis unfolding callback key using inv stop by (auto simp: session_inv_def conn_owes_def)
qed

end
