(* ===== verification/AppPaths.thy ===== *)
theory AppPaths
  imports FileSystem
begin

text \<open>
  Where the application keeps its files, and the import of the files of an older version:
  \<^verbatim>\<open>RogueAssistantCpp/Src/Platform/AppPaths.cpp\<close>. Paths are in the generic format. What the
  operating system says of the process (environment variables, current directory, executable) is a
  \<open>HostSystem\<close>; the entries a directory iteration finds are a list.
\<close>

section \<open>Paths of the application\<close>

datatype HostPlatform = Windows | MacOS | Linux

record PathEnvironment =
  pe_platform :: HostPlatform
  homeDirectory :: path
  roamingAppData :: path
  xdgDataHome :: path
  xdgConfigHome :: path
  currentWorkingDirectory :: path
  executablePath :: path

record AppPaths =
  ap_platform :: HostPlatform
  dataDirectory :: path
  configDirectory :: path
  settingsFile :: path
  logFile :: path
  scriptDirectory :: path
  resourceDirectory :: path
  legacyDataDirectory :: "path option"
  legacySettingsFile :: "path option"

definition path_filename :: "path \<Rightarrow> path" where
  "path_filename p = rev (takeWhile (\<lambda>c. c \<noteq> CHR ''/'') (rev p))"

definition SelectPosixAbsoluteOrFallback :: "path \<Rightarrow> path \<Rightarrow> path" where
  "SelectPosixAbsoluteOrFallback preferred fallback =
     (if preferred \<noteq> [] \<and> hd preferred = CHR ''/'' then preferred else fallback)"

definition FindResourceDirectory :: "HostPlatform \<Rightarrow> path \<Rightarrow> path" where
  "FindResourceDirectory platform executable =
     (let executableDirectory = parent_path executable in
      if platform = MacOS \<and> path_filename executableDirectory = ''MacOS''
         \<and> path_filename (parent_path executableDirectory) = ''Contents''
      then append_path (parent_path executableDirectory) ''Resources''
      else append_path executableDirectory ''resources'')"

definition BuildAppPaths :: "PathEnvironment \<Rightarrow> AppPaths" where
  "BuildAppPaths env =
     (let (dataDir, configDir, legacyData, legacySettings) =
        (case pe_platform env of
           Windows \<Rightarrow>
             (let dir = append_path (roamingAppData env) ''Emerald Rogue Assistant'' in
              (dir, dir, Some (append_path (append_path (roamingAppData env) ''.pokabbie'') ''rogue_assistant''),
               Some (append_path (currentWorkingDirectory env) ''settings.ini'')))
         | MacOS \<Rightarrow>
             (let dir = append_path (append_path (append_path (homeDirectory env) ''Library'') ''Application Support'')
                          ''assistant.emerald.rogue'' in
              (dir, dir, None, None))
         | Linux \<Rightarrow>
             (append_path (SelectPosixAbsoluteOrFallback (xdgDataHome env)
                (append_path (append_path (homeDirectory env) ''.local'') ''share'')) ''emerald-rogue-assistant'',
              append_path (SelectPosixAbsoluteOrFallback (xdgConfigHome env)
                (append_path (homeDirectory env) ''.config'')) ''emerald-rogue-assistant'',
              None, None))
      in \<lparr>ap_platform = pe_platform env, dataDirectory = dataDir, configDirectory = configDir,
          settingsFile = append_path configDir ''settings.ini'',
          logFile = append_path (append_path dataDir ''logs'') ''RogueAssistant.log'',
          scriptDirectory = append_path dataDir ''scripts'',
          resourceDirectory = FindResourceDirectory (pe_platform env) (executablePath env),
          legacyDataDirectory = legacyData, legacySettingsFile = legacySettings\<rparr>)"

record HostSystem =
  hs_platform :: HostPlatform
  hs_getenv :: "string \<Rightarrow> string option"
  hs_currentPath :: "path result"
  hs_executable :: "path result"

definition GetEnvironmentPath :: "HostSystem \<Rightarrow> string \<Rightarrow> path" where
  "GetEnvironmentPath system name = (case hs_getenv system name of None \<Rightarrow> '''' | Some value \<Rightarrow> value)"

definition DiscoverAppPaths :: "HostSystem \<Rightarrow> AppPaths result" where
  "DiscoverAppPaths system =
     (let none = \<lparr>pe_platform = hs_platform system, homeDirectory = '''', roamingAppData = '''', xdgDataHome = '''',
            xdgConfigHome = '''', currentWorkingDirectory = '''', executablePath = ''''\<rparr>;
          env = (case hs_platform system of
            Windows \<Rightarrow> none\<lparr>roamingAppData := GetEnvironmentPath system ''APPDATA'',
                           homeDirectory := GetEnvironmentPath system ''USERPROFILE''\<rparr>
          | MacOS \<Rightarrow> none\<lparr>homeDirectory := GetEnvironmentPath system ''HOME''\<rparr>
          | Linux \<Rightarrow> none\<lparr>homeDirectory := GetEnvironmentPath system ''HOME'',
                         xdgDataHome := GetEnvironmentPath system ''XDG_DATA_HOME'',
                         xdgConfigHome := GetEnvironmentPath system ''XDG_CONFIG_HOME''\<rparr>)
      in if hs_platform system = Windows \<and> roamingAppData env = '''' then Err ''APPDATA is not available''
         else if homeDirectory env = '''' \<and> hs_platform system \<noteq> Windows then Err ''HOME is not available''
         else case hs_currentPath system of
           Inl m \<Rightarrow> Err (''cannot determine the current directory: '' @ m)
         | Inr cwd \<Rightarrow> (case hs_executable system of
             Inl m \<Rightarrow> Err m
           | Inr executable \<Rightarrow>
               if executable = '''' then Err ''''
               else Ok (BuildAppPaths (env\<lparr>currentWorkingDirectory := cwd, executablePath := executable\<rparr>))))"

section \<open>Trees of files\<close>

text \<open>A path inside a directory, or the directory itself.\<close>

definition inside :: "path \<Rightarrow> path \<Rightarrow> bool" where
  "inside dir q \<longleftrightarrow> q = dir \<or> starts_with q (dir @ ''/'')"

definition os_is_regular_file :: "path \<Rightarrow> Disk \<Rightarrow> (bool \<times> string option) \<times> Disk" where
  "os_is_regular_file p d = (case nextEvent d of
     (Fails m n, d) \<Rightarrow> ((False, Some m), d)
   | (e, d) \<Rightarrow> ((files d p \<noteq> None, None), d))"

text \<open>Copying passes through every prefix of the bytes; the destination must not exist.\<close>

definition os_copy_file :: "path \<Rightarrow> path \<Rightarrow> Disk \<Rightarrow> string option \<times> Disk" where
  "os_copy_file a b d = (case files d a of
     None \<Rightarrow> (Some (osMessage d a), d)
   | Some bs \<Rightarrow>
       if files d b \<noteq> None \<or> b \<in> directories d then (Some (osMessage d b), d)
       else (case os_write b bs d of (True, d) \<Rightarrow> (None, d) | (False, d) \<Rightarrow> (Some (osMessage d b), d)))"

text \<open>A directory that moves takes everything inside it along; the destination must not exist.\<close>

definition moved :: "path \<Rightarrow> path \<Rightarrow> (path \<Rightarrow> 'a option) \<Rightarrow> path \<Rightarrow> 'a option" where
  "moved a b f q = (if inside b q then f (a @ drop (length b) q)
     else if inside a q then None else f q)"

definition os_rename_directory :: "path \<Rightarrow> path \<Rightarrow> Disk \<Rightarrow> string option \<times> Disk" where
  "os_rename_directory a b d = (case nextEvent d of
     (Fails m n, d) \<Rightarrow> (Some m, d)
   | (e, d) \<Rightarrow> if a \<notin> directories d \<or> files d b \<noteq> None \<or> b \<in> directories d then (Some (osMessage d b), d)
       else (None, putFiles (moved a b (files d)) (d\<lparr>directories :=
              {q. moved a b (\<lambda>q. if q \<in> directories d then Some () else None) q \<noteq> None}\<rparr>)))"

definition os_remove_all :: "path \<Rightarrow> Disk \<Rightarrow> Disk" where
  "os_remove_all p d = (case nextEvent d of
     (Fails m n, d) \<Rightarrow> d
   | (e, d) \<Rightarrow> putFiles (\<lambda>q. if inside p q then None else files d q) (d\<lparr>directories := directories d - {q. inside p q}\<rparr>))"

section \<open>The import\<close>

text \<open>
  An entry of the iteration, with its path relative to the source: the iteration can fail at any
  entry, and so can the inspection of an entry.
\<close>

datatype EntryKind = Symlink | Uninspected string | IsDirectory | RegularFile | OtherFile

datatype TreeEntry = EntryError string | Entry path EntryKind

definition CopyEntry :: "path \<Rightarrow> path \<Rightarrow> TreeEntry \<Rightarrow> Disk \<Rightarrow> unit result \<times> Disk" where
  "CopyEntry source destination entry d = (case entry of
     EntryError m \<Rightarrow> (Err (''cannot list files in the old data folder: '' @ m), d)
   | Entry relative kind \<Rightarrow>
       if relative = '''' then (Err ''cannot resolve a legacy data path'', d)
       else (let target = append_path destination relative;
                 finish = (\<lambda>(ec, d). case ec of
                    None \<Rightarrow> (Ok (), d) | Some m \<Rightarrow> (Err (''cannot import legacy data: '' @ m), d)) in
         case kind of
           Symlink \<Rightarrow> (Err ''legacy data contains a symbolic link and was not imported'', d)
         | Uninspected m \<Rightarrow> (Err (''cannot inspect legacy data: '' @ m), d)
         | IsDirectory \<Rightarrow> finish (os_create_directories target d)
         | RegularFile \<Rightarrow> (case os_create_directories (parent_path target) d of
             (None, d) \<Rightarrow> finish (os_copy_file (append_path source relative) target d)
           | (Some m, d) \<Rightarrow> finish (Some m, d))
         | OtherFile \<Rightarrow> (Err ''legacy data contains an unsupported file type'', d)))"

fun CopyEntries :: "path \<Rightarrow> path \<Rightarrow> TreeEntry list \<Rightarrow> Disk \<Rightarrow> unit result \<times> Disk" where
  "CopyEntries source destination [] d = (Ok (), d)"
| "CopyEntries source destination (entry # entries) d = (case CopyEntry source destination entry d of
     (Inl m, d) \<Rightarrow> (Err m, d)
   | (Inr _, d) \<Rightarrow> CopyEntries source destination entries d)"

definition CopyLegacyTree :: "path \<Rightarrow> path \<Rightarrow> TreeEntry list result \<Rightarrow> Disk \<Rightarrow> unit result \<times> Disk" where
  "CopyLegacyTree source destination listing d = (case os_create_directories destination d of
     (Some m, d) \<Rightarrow> (Err (''cannot create data directory: '' @ m), d)
   | (None, d) \<Rightarrow> (case listing of
       Inl m \<Rightarrow> (Err (''cannot list files in the old data folder: '' @ m), d)
     | Inr entries \<Rightarrow> CopyEntries source destination entries d))"

record MigrationReport =
  attempted :: bool
  importedData :: bool
  importedSettings :: bool
  mr_diagnostics :: "string list"

definition newReport :: MigrationReport where
  "newReport = \<lparr>attempted = False, importedData = False, importedSettings = False, mr_diagnostics = []\<rparr>"

definition importing :: "path \<Rightarrow> int \<Rightarrow> path" where
  "importing directory clock = directory @ ''.importing.'' @ int_to_string clock"

definition ImportTree :: "path \<Rightarrow> path \<Rightarrow> TreeEntry list result \<Rightarrow> int \<Rightarrow> Disk \<Rightarrow> unit result \<times> Disk" where
  "ImportTree source directory listing clock d =
     (let temporary = importing directory clock in
      case CopyLegacyTree source temporary listing d of
        (Inl m, d) \<Rightarrow> (Err m, os_remove_all temporary d)
      | (Inr _, d) \<Rightarrow>
         (case (case os_create_directories (parent_path directory) d of
                  (Some m, d) \<Rightarrow> (Some m, d)
                | (None, d) \<Rightarrow> os_rename_directory temporary directory d) of
            (Some m, d) \<Rightarrow> (Err (''cannot finish legacy data import: '' @ m), os_remove_all temporary d)
          | (None, d) \<Rightarrow> (Ok (), d)))"

definition ImportSettings :: "path \<Rightarrow> path \<Rightarrow> MigrationReport \<Rightarrow> Disk \<Rightarrow> MigrationReport \<times> Disk" where
  "ImportSettings source settings report d = (case os_exists settings d of
     ((True, ec), d) \<Rightarrow> (report, d)
   | ((False, ec), d) \<Rightarrow> (case os_is_regular_file source d of
       ((False, ec), d) \<Rightarrow> (report, d)
     | ((True, ec), d) \<Rightarrow>
        (case (case os_create_directories (parent_path settings) d of
                 (Some m, d) \<Rightarrow> (Some m, d)
               | (None, d) \<Rightarrow> os_copy_file source settings d) of
           (Some m, d) \<Rightarrow> (report\<lparr>mr_diagnostics := mr_diagnostics report @ [''cannot import legacy settings: '' @ m]\<rparr>, d)
         | (None, d) \<Rightarrow> (report\<lparr>importedSettings := True\<rparr>, d))))"

definition ImportLegacyWindowsData ::
  "AppPaths \<Rightarrow> TreeEntry list result \<Rightarrow> int \<Rightarrow> Disk \<Rightarrow> MigrationReport \<times> Disk" where
  "ImportLegacyWindowsData paths listing clock d =
     (case (legacyDataDirectory paths, legacySettingsFile paths) of
        (Some legacyData, Some legacySettings) \<Rightarrow>
          if ap_platform paths \<noteq> Windows then (newReport, d)
          else (case os_exists (dataDirectory paths) d of
            ((True, ec), d) \<Rightarrow> (newReport, d)
          | ((False, Some m), d) \<Rightarrow>
              (newReport\<lparr>mr_diagnostics := [''cannot inspect the new data directory: '' @ m]\<rparr>, d)
          | ((False, None), d) \<Rightarrow>
             (let report = newReport\<lparr>attempted := True\<rparr> in
              case os_is_directory legacyData d of
                ((_, Some m), d) \<Rightarrow> (report\<lparr>mr_diagnostics := [''cannot inspect legacy data: '' @ m]\<rparr>, d)
              | ((False, None), d) \<Rightarrow> ImportSettings legacySettings (settingsFile paths) report d
              | ((True, None), d) \<Rightarrow> (case ImportTree legacyData (dataDirectory paths) listing clock d of
                  (Inl m, d) \<Rightarrow> (report\<lparr>mr_diagnostics := [m]\<rparr>, d)
                | (Inr _, d) \<Rightarrow> ImportSettings legacySettings (settingsFile paths) (report\<lparr>importedData := True\<rparr>) d)))
      | _ \<Rightarrow> (newReport, d))"

section \<open>What the calls touch\<close>

lemma inside_iff: "inside dir q \<longleftrightarrow> q = dir \<or> (\<exists>rest. q = dir @ CHR ''/'' # rest)"
  by (auto simp: inside_def starts_with_iff)

lemma inside_append:
  assumes "dir \<noteq> []" and "last dir \<noteq> CHR ''/''" and "b = [] \<or> hd b \<noteq> CHR ''/''"
  shows "inside dir (append_path dir b)"
  using assms by (auto simp: append_path_def inside_iff)

lemma os_copy_file_touches: "os_copy_file a b d = (r, d') \<Longrightarrow> only_touches {b} d d'"
  by (auto simp: os_copy_file_def split: option.splits if_splits prod.splits bool.splits dest: os_write_touches)

lemma os_rename_directory_touches:
  "os_rename_directory a b d = (r, d') \<Longrightarrow> only_touches (if r = None then {q. inside a q} \<union> {q. inside b q} else {}) d d'"
proof -
  assume rename: "os_rename_directory a b d = (r, d')"
  obtain e d1 where event: "nextEvent d = (e, d1)" by (metis surj_pair)
  have start: "only_touches S d d1" for S using nextEvent_touches [OF event] .
  have "only_touches ({q. inside a q} \<union> {q. inside b q}) d1 (putFiles (moved a b (files d1)) (d1\<lparr>directories := D\<rparr>))" for D
    by (auto simp: only_touches_def putFiles_def moved_def)
  from only_touches_trans [OF start this] start show ?thesis
    using rename event by (auto simp: os_rename_directory_def split: OsEvent.splits if_splits)
qed

lemma os_remove_all_touches: "only_touches {q. inside p q} d (os_remove_all p d)"
proof -
  obtain e d1 where event: "nextEvent d = (e, d1)" by (metis surj_pair)
  have start: "only_touches S d d1" for S using nextEvent_touches [OF event] .
  have "only_touches {q. inside p q} d1 (putFiles (\<lambda>q. if inside p q then None else files d1 q) (d1\<lparr>directories := D\<rparr>))" for D
    by (auto simp: only_touches_def putFiles_def)
  from only_touches_trans [OF start this] start show ?thesis
    using event by (auto simp: os_remove_all_def split: OsEvent.splits)
qed

lemma os_is_regular_file_touches: "os_is_regular_file p d = (r, d') \<Longrightarrow> only_touches S d d'"
  by (auto simp: os_is_regular_file_def split: prod.splits OsEvent.splits intro: nextEvent_touches)

text \<open>The iteration gives paths relative to its start.\<close>

fun relative_entry :: "TreeEntry \<Rightarrow> bool" where
  "relative_entry (EntryError m) = True"
| "relative_entry (Entry relative kind) \<longleftrightarrow> relative = [] \<or> hd relative \<noteq> CHR ''/''"

definition relative_listing :: "TreeEntry list result \<Rightarrow> bool" where
  "relative_listing listing = (case listing of Inl m \<Rightarrow> True | Inr entries \<Rightarrow> list_all relative_entry entries)"

lemma CopyEntry_touches:
  assumes "CopyEntry source destination entry d = (r, d')" and "relative_entry entry"
    and dest: "destination \<noteq> []" "last destination \<noteq> CHR ''/''"
  shows "only_touches {q. inside destination q} d d'"
proof (cases entry)
  case (EntryError m)
  with assms show ?thesis by (simp add: CopyEntry_def)
next
  case (Entry relative kind)
  let ?target = "append_path destination relative"
  have target: "inside destination ?target" using assms(2) Entry by (intro inside_append [OF dest]) simp
  have copied: "only_touches {q. inside destination q} d2 d3" if "os_copy_file (append_path source relative) ?target d2 = (x, d3)" for x d2 d3
    by (rule only_touches_mono [OF os_copy_file_touches [OF that]]) (simp add: target)
  show ?thesis
    using assms(1) Entry
    by (auto simp: CopyEntry_def Let_def split: EntryKind.splits if_splits prod.splits option.splits
        dest!: os_create_directories_touches [where S = "{q. inside destination q}"] copied intro: only_touches_trans)
qed

lemma CopyEntries_touches:
  assumes dest: "destination \<noteq> []" "last destination \<noteq> CHR ''/''"
  shows "CopyEntries source destination entries d = (r, d') \<Longrightarrow> list_all relative_entry entries \<Longrightarrow>
    only_touches {q. inside destination q} d d'"
proof (induction entries arbitrary: d)
  case (Cons entry entries)
  obtain r1 d1 where first: "CopyEntry source destination entry d = (r1, d1)" by (metis surj_pair)
  have "only_touches {q. inside destination q} d d1" using CopyEntry_touches [OF first _ dest] Cons.prems(2) by simp
  then show ?case
    using Cons.prems first by (cases r1) (auto intro: only_touches_trans Cons.IH)
qed simp

lemma CopyLegacyTree_touches:
  assumes "CopyLegacyTree source destination listing d = (r, d')" and "relative_listing listing"
    and dest: "destination \<noteq> []" "last destination \<noteq> CHR ''/''"
  shows "only_touches {q. inside destination q} d d'"
  using assms
  by (auto simp: CopyLegacyTree_def relative_listing_def split: prod.splits option.splits sum.splits
      dest!: os_create_directories_touches [where S = "{q. inside destination q}"] CopyEntries_touches [OF dest]
      intro: only_touches_trans)

lemma importing_path: "importing directory clock \<noteq> []" "last (importing directory clock) \<noteq> CHR ''/''"
proof -
  have "last (to_string n) \<noteq> CHR ''/''" for n
    using to_string_digits [of _ n] to_string_nonempty [of n] last_in_set [of "to_string n"] by (force simp: is_digit_def)
  then show "last (importing directory clock) \<noteq> CHR ''/''"
    using to_string_nonempty by (simp add: importing_def int_to_string_def)
qed (simp add: importing_def)

lemma ImportTree_touches:
  assumes "ImportTree source directory listing clock d = (r, d')" and "relative_listing listing"
  shows "only_touches ({q. inside (importing directory clock) q} \<union> (if is_ok r then {q. inside directory q} else {})) d d'"
    (is "only_touches (?T \<union> _) d d'")
proof -
  obtain r1 d1 where copy: "CopyLegacyTree source (importing directory clock) listing d = (r1, d1)" by (metis surj_pair)
  have d1: "only_touches ?T d d1" by (rule CopyLegacyTree_touches [OF copy assms(2) importing_path])
  have removed: "only_touches ?T d (os_remove_all (importing directory clock) e)" if "only_touches ?T d e" for e
    by (rule only_touches_trans [OF that os_remove_all_touches])
  obtain r2 d2 where made: "os_create_directories (parent_path directory) d1 = (r2, d2)" by (metis surj_pair)
  have d2: "only_touches ?T d d2" by (rule only_touches_trans [OF d1 os_create_directories_touches [OF made]])
  obtain r3 d3 where rename: "os_rename_directory (importing directory clock) directory d2 = (r3, d3)" by (metis surj_pair)
  note touched = os_rename_directory_touches [OF rename]
  have d3: "only_touches (?T \<union> (if r3 = None then {q. inside directory q} else {})) d d3"
    by (rule only_touches_trans [OF only_touches_mono [OF d2] only_touches_mono [OF touched]]) auto
  show ?thesis
    using assms(1) copy made rename d1 d2 d3
    by (auto simp: ImportTree_def Let_def split: sum.splits option.splits intro!: removed)
qed

lemma ImportSettings_touches:
  assumes "ImportSettings source settings report d = (report', d')"
  shows "only_touches {settings} d d' \<and> importedData report' = importedData report \<and> attempted report' = attempted report"
  using assms
  by (auto simp: ImportSettings_def split: prod.splits bool.splits option.splits
      dest!: pure_calls_touch [where S = "{settings}"] os_is_regular_file_touches [where S = "{settings}"]
        os_create_directories_touches [where S = "{settings}"] os_copy_file_touches
      intro: only_touches_trans)

section \<open>Properties\<close>

text \<open>
  C39. The import of old data is safe: whatever calls fail, whenever the process stops, and whatever the
  old folder holds, it touches no file but those of a temporary sibling of the data folder, the
  settings file and, when it reports the data as imported, those of the data folder itself; a report
  that nothing was attempted means nothing was touched.
\<close>

theorem legacy_import_safe:
  assumes "ImportLegacyWindowsData paths listing clock d = (report, d')" and "relative_listing listing"
  shows "only_touches
     (if attempted report
      then {q. inside (importing (dataDirectory paths) clock) q} \<union> {settingsFile paths}
             \<union> (if importedData report then {q. inside (dataDirectory paths) q} else {})
      else {}) d d'"
proof -
  let ?tmp = "{q. inside (importing (dataDirectory paths) clock) q}" and ?data = "{q. inside (dataDirectory paths) q}"
  have tree: "only_touches (?tmp \<union> (if is_ok r then ?data else {})) e d2"
    if "ImportTree src (dataDirectory paths) listing clock e = (r, d2)" for src e r d2
    by (rule ImportTree_touches [OF that assms(2)])
  obtain old oldSettings where some: "legacyDataDirectory paths = Some old" "legacySettingsFile paths = Some oldSettings"
      "ap_platform paths = Windows" if "attempted report"
    using assms(1) by (auto simp: ImportLegacyWindowsData_def newReport_def split: option.splits if_splits)
  obtain found d1 where exists: "os_exists (dataDirectory paths) d = (found, d1)" by (metis surj_pair)
  obtain isdir d2 where isdir: "os_is_directory old d1 = (isdir, d2)" by (metis surj_pair)
  have start: "only_touches S d d1" "only_touches S d d2" for S
    using pure_calls_touch(1) [OF exists] pure_calls_touch(4) [OF isdir] by (blast intro: only_touches_trans)+
  show ?thesis
  proof (cases "attempted report")
    case False
    then show ?thesis
      using assms(1) exists start
      by (auto simp: ImportLegacyWindowsData_def newReport_def Let_def split: option.splits if_splits bool.splits prod.splits
          sum.splits dest!: ImportSettings_touches)
  next
    case True
    note run = assms(1) [unfolded ImportLegacyWindowsData_def some [OF True], simplified, unfolded exists isdir]
    obtain r3 d3 where import_tree: "ImportTree old (dataDirectory paths) listing clock d2 = (r3, d3)" by (metis surj_pair)
    have d3: "only_touches (?tmp \<union> (if is_ok r3 then ?data else {})) d d3"
      by (rule only_touches_trans [OF start(2) tree [OF import_tree]])
    have settings: "only_touches (S \<union> {settingsFile paths}) d d4"
      if "ImportSettings oldSettings (settingsFile paths) rep e = (rep', d4)" "only_touches S d e" for S rep e rep' d4
      using ImportSettings_touches [OF that(1)] that(2)
      by (blast intro: only_touches_trans only_touches_mono)
    show ?thesis
      using run True exists isdir import_tree d3 start
      by (auto simp: newReport_def Let_def Un_ac split: prod.splits option.splits bool.splits sum.splits
          dest: ImportSettings_touches intro: only_touches_mono [OF d3] only_touches_mono [OF settings [OF _ d3]]
            only_touches_mono [OF settings [OF _ start(2) [of "{}"]]])
        (erule only_touches_mono, blast)
  qed
qed

text \<open>An old folder with one file, imported on a disk on which every call works.\<close>

definition oldPaths :: AppPaths where
  "oldPaths = BuildAppPaths \<lparr>pe_platform = Windows, homeDirectory = '''', roamingAppData = ''/r'', xdgDataHome = '''',
     xdgConfigHome = '''', currentWorkingDirectory = ''/c'', executablePath = ''/c/a''\<rparr>"

definition oldDisk :: Disk where
  "oldDisk = \<lparr>files = [''/r/.pokabbie/rogue_assistant/x'' \<mapsto> [7]], directories = {''/r/.pokabbie/rogue_assistant''},
     events = [], osMessage = (\<lambda>p. ''no''), successMessage = ''ok'', steadyClock = int, TemporaryFileSequence = 0, history = []\<rparr>"

theorem legacy_import_safe_witness:
  "\<exists>report d'. ImportLegacyWindowsData oldPaths (Ok [Entry ''x'' RegularFile]) 5 oldDisk = (report, d')
     \<and> files d' ''/r/.pokabbie/rogue_assistant/x'' = Some [7]"
proof -
  obtain report d' where run: "ImportLegacyWindowsData oldPaths (Ok [Entry ''x'' RegularFile]) 5 oldDisk = (report, d')"
    by (metis surj_pair)
  have paths: "dataDirectory oldPaths = ''/r/Emerald Rogue Assistant'' \<and> settingsFile oldPaths = ''/r/Emerald Rogue Assistant/settings.ini''"
    by (simp add: oldPaths_def BuildAppPaths_def Let_def) (simp add: append_path_def)
  have "only_touches ({q. inside (importing (dataDirectory oldPaths) 5) q} \<union> {settingsFile oldPaths} \<union> {q. inside (dataDirectory oldPaths) q}) oldDisk d'"
    by (rule only_touches_mono [OF legacy_import_safe [OF run]]) (auto simp: relative_listing_def split: if_splits)
  from only_touches_files [OF this, of "''/r/.pokabbie/rogue_assistant/x''"]
  have "files d' ''/r/.pokabbie/rogue_assistant/x'' = Some [7]"
    by (simp add: oldDisk_def paths importing_def inside_def starts_with_def)
  with run show ?thesis by blast
qed

text \<open>
  Where the application writes: the settings lie in the configuration folder, the log and the
  exported script in the data folder; on Linux each of the two folders is the application's own one in
  the XDG directory when that is an absolute path, and in the default below the home directory
  otherwise, so that a relative XDG variable cannot move them to the current directory; and only
  Windows has old data to import.
\<close>

theorem app_paths_isolated:
  assumes "DiscoverAppPaths system = Ok p"
  shows "inside (configDirectory p) (settingsFile p) \<and> inside (dataDirectory p) (logFile p) \<and> inside (dataDirectory p) (scriptDirectory p)
    \<and> (hs_platform system = Linux \<longrightarrow>
        (let home = GetEnvironmentPath system ''HOME''; xdg = (\<lambda>name. GetEnvironmentPath system name);
             absolute = (\<lambda>q. q \<noteq> [] \<and> hd q = CHR ''/'') in
         dataDirectory p = append_path (if absolute (xdg ''XDG_DATA_HOME'') then xdg ''XDG_DATA_HOME''
            else append_path (append_path home ''.local'') ''share'') ''emerald-rogue-assistant''
         \<and> configDirectory p = append_path (if absolute (xdg ''XDG_CONFIG_HOME'') then xdg ''XDG_CONFIG_HOME''
            else append_path home ''.config'') ''emerald-rogue-assistant''))
    \<and> (legacyDataDirectory p \<noteq> None \<longrightarrow> ap_platform p = Windows)"
proof -
  obtain env where env: "p = BuildAppPaths env" "pe_platform env = hs_platform system"
      "hs_platform system = Linux \<Longrightarrow> homeDirectory env = GetEnvironmentPath system ''HOME''
         \<and> xdgDataHome env = GetEnvironmentPath system ''XDG_DATA_HOME''
         \<and> xdgConfigHome env = GetEnvironmentPath system ''XDG_CONFIG_HOME''"
    using assms
    by (cases "hs_platform system") (auto simp: DiscoverAppPaths_def Let_def split: if_splits sum.splits)
  have folder: "append_path base name \<noteq> [] \<and> last (append_path base name) \<noteq> CHR ''/''" if "name \<noteq> []" "last name \<noteq> CHR ''/''" for base name
    using that by (auto simp: append_path_def)
  have config: "configDirectory p \<noteq> [] \<and> last (configDirectory p) \<noteq> CHR ''/''"
    and data: "dataDirectory p \<noteq> [] \<and> last (dataDirectory p) \<noteq> CHR ''/''"
    unfolding env(1) by (cases "pe_platform env"; simp add: BuildAppPaths_def Let_def folder)+
  have logs: "inside dir (append_path (append_path dir ''logs'') ''RogueAssistant.log'')" if "dir \<noteq> []" "last dir \<noteq> CHR ''/''" for dir
    using that by (auto simp: append_path_def inside_iff)
  have files: "settingsFile p = append_path (configDirectory p) ''settings.ini''"
    "logFile p = append_path (append_path (dataDirectory p) ''logs'') ''RogueAssistant.log''"
    "scriptDirectory p = append_path (dataDirectory p) ''scripts''"
    unfolding env(1) by (simp_all add: BuildAppPaths_def split: prod.splits)
  have "inside (configDirectory p) (settingsFile p)" "inside (dataDirectory p) (logFile p)" "inside (dataDirectory p) (scriptDirectory p)"
    unfolding files using config data logs by (simp_all add: inside_append)
  moreover have "legacyDataDirectory p \<noteq> None \<longrightarrow> ap_platform p = Windows"
    unfolding env(1) by (cases "pe_platform env") (simp_all add: BuildAppPaths_def Let_def)
  ultimately show ?thesis
    using env by (auto simp: BuildAppPaths_def SelectPosixAbsoluteOrFallback_def Let_def)
qed

theorem app_paths_isolated_witness:
  "\<exists>p. DiscoverAppPaths \<lparr>hs_platform = Linux, hs_getenv = [''HOME'' \<mapsto> ''/h'', ''XDG_DATA_HOME'' \<mapsto> ''data''],
       hs_currentPath = Ok ''/'', hs_executable = Ok ''/b/a''\<rparr> = Ok p
     \<and> dataDirectory p = ''/h/.local/share/emerald-rogue-assistant''"
proof -
  let ?s = "\<lparr>hs_platform = Linux, hs_getenv = [''HOME'' \<mapsto> ''/h'', ''XDG_DATA_HOME'' \<mapsto> ''data''],
       hs_currentPath = Ok ''/'', hs_executable = Ok ''/b/a''\<rparr>"
  obtain p where p: "DiscoverAppPaths ?s = Ok p" by (simp add: DiscoverAppPaths_def GetEnvironmentPath_def)
  from app_paths_isolated [OF this] p show ?thesis
    by (auto simp: GetEnvironmentPath_def append_path_def Let_def)
qed

end
