(* ===== verification/UserData.thy ===== *)
theory UserData
  imports AppPaths Configuration
begin

text \<open>
  The settings of the running application: \<^verbatim>\<open>RogueAssistantCpp/Src/UserData.cpp\<close>. Its static
  variables are a record. The helpers that open a stream in the data folder, which nothing calls, are
  left out, as is the log.
\<close>

section \<open>State\<close>

record UserData =
  ud_Paths :: "AppPaths option"
  ud_SavedSettings :: Settings
  ud_PendingSettingsChange :: bool
  ud_CanWriteSettings :: bool

definition initialUserData :: UserData where
  "initialUserData = \<lparr>ud_Paths = None, ud_SavedSettings = defaultSettings, ud_PendingSettingsChange = False,
     ud_CanWriteSettings = True\<rparr>"

section \<open>Operations\<close>

fun EnsureDirectories :: "path list \<Rightarrow> Disk \<Rightarrow> bool \<times> Disk" where
  "EnsureDirectories [] d = (True, d)"
| "EnsureDirectories (p # ps) d = (case EnsureDirectory p d of
     (Inl m, d) \<Rightarrow> (False, d)
   | (Inr _, d) \<Rightarrow> EnsureDirectories ps d)"

definition UserDataInit ::
  "HostSystem \<Rightarrow> TreeEntry list result \<Rightarrow> int \<Rightarrow> UserData \<times> Disk \<Rightarrow> bool \<times> UserData \<times> Disk" where
  "UserDataInit system listing clock s = (case s of (u, d) \<Rightarrow>
     case DiscoverAppPaths system of
       Inl m \<Rightarrow> (False, u\<lparr>ud_Paths := None\<rparr>, d)
     | Inr paths \<Rightarrow>
         (let u = u\<lparr>ud_Paths := Some paths\<rparr>; d = snd (ImportLegacyWindowsData paths listing clock d) in
          case EnsureDirectories [dataDirectory paths, configDirectory paths, scriptDirectory paths] d of
            (False, d) \<Rightarrow> (False, u, d)
          | (True, d) \<Rightarrow> (case LoadSettings (settingsFile paths) d of
              (loaded, d) \<Rightarrow>
                (True,
                 if SettingsSucceeded loaded
                 then u\<lparr>ud_CanWriteSettings := True, ud_SavedSettings := loadedSettings loaded,
                        ud_PendingSettingsChange := (\<not> fileFound loaded \<or> needsRewrite loaded)\<rparr>
                 else u\<lparr>ud_CanWriteSettings := False, ud_SavedSettings := defaultSettings,
                        ud_PendingSettingsChange := False\<rparr>, d))))"

definition UserDataUpdate :: "UserData \<times> Disk \<Rightarrow> UserData \<times> Disk" where
  "UserDataUpdate s = (case s of (u, d) \<Rightarrow>
     case ud_Paths u of
       None \<Rightarrow> (u, d)
     | Some paths \<Rightarrow>
         if \<not> ud_PendingSettingsChange u \<or> \<not> ud_CanWriteSettings u then (u, d)
         else (case SaveSettings (settingsFile paths) (ud_SavedSettings u) d of
           (Inl m, d) \<Rightarrow> (u, d)
         | (Inr _, d) \<Rightarrow> (u\<lparr>ud_PendingSettingsChange := False\<rparr>, d)))"

definition UserDataShutdown :: "UserData \<times> Disk \<Rightarrow> UserData \<times> Disk" where
  "UserDataShutdown s = UserDataUpdate s"

definition GetDataDirectory :: "UserData \<Rightarrow> path" where
  "GetDataDirectory u = (case ud_Paths u of None \<Rightarrow> '''' | Some p \<Rightarrow> dataDirectory p)"

definition GetConfigDirectory :: "UserData \<Rightarrow> path" where
  "GetConfigDirectory u = (case ud_Paths u of None \<Rightarrow> '''' | Some p \<Rightarrow> configDirectory p)"

definition GetResourceDirectory :: "UserData \<Rightarrow> path" where
  "GetResourceDirectory u = (case ud_Paths u of None \<Rightarrow> '''' | Some p \<Rightarrow> resourceDirectory p)"

definition GetScriptDirectory :: "UserData \<Rightarrow> path" where
  "GetScriptDirectory u = (case ud_Paths u of None \<Rightarrow> '''' | Some p \<Rightarrow> scriptDirectory p)"

definition GetSavedString :: "string \<Rightarrow> string \<Rightarrow> UserData \<Rightarrow> string" where
  "GetSavedString key defaultValue u =
     (let value = GetSetting (ud_SavedSettings u) key in
      if value = '''' \<and> key \<noteq> MultiplayerJoinIpKey then defaultValue else value)"

definition SetSavedString :: "string \<Rightarrow> string \<Rightarrow> UserData \<Rightarrow> UserData" where
  "SetSavedString key value u = (case TrySetSetting (ud_SavedSettings u) key value of
     Inl m \<Rightarrow> u
   | Inr candidate \<Rightarrow> u\<lparr>ud_SavedSettings := candidate, ud_PendingSettingsChange := True\<rparr>)"

text \<open>
  \<^verbatim>\<open>std::stoi\<close> in base 10: white space, a sign, digits; the value and the position after them, or
  nothing when it throws.
\<close>

definition is_space :: "char \<Rightarrow> bool" where
  "is_space c \<longleftrightarrow> c = CHR '' '' \<or> 9 \<le> (of_char c :: nat) \<and> (of_char c :: nat) \<le> 13"

definition stoi :: "string \<Rightarrow> (int \<times> nat) option" where
  "stoi t =
     (let spaces = takeWhile is_space t; rest = dropWhile is_space t;
          (negative, sign, rest) = (case rest of
             c # cs \<Rightarrow> if c = CHR ''-'' then (True, 1, cs) else if c = CHR ''+'' then (False, 1, cs) else (False, 0, rest)
           | [] \<Rightarrow> (False, 0 :: nat, []));
          digits = takeWhile is_digit rest;
          value = (if negative then - int (decimal_value digits) else int (decimal_value digits))
      in if digits = [] \<or> value < - (2 ^ 31) \<or> value \<ge> 2 ^ 31 then None
         else Some (value, length spaces + sign + length digits))"

definition GetSavedInt :: "string \<Rightarrow> int \<Rightarrow> UserData \<Rightarrow> int" where
  "GetSavedInt key defaultValue u =
     (let value = GetSavedString key (int_to_string defaultValue) u in
      case stoi value of
        None \<Rightarrow> defaultValue
      | Some (result, count) \<Rightarrow> if count = length value then result else defaultValue)"

definition SetSavedInt :: "string \<Rightarrow> int \<Rightarrow> UserData \<Rightarrow> UserData" where
  "SetSavedInt key value u = SetSavedString key (int_to_string value) u"

section \<open>Saved settings are valid\<close>

lemma TrySetSetting_valid:
  assumes "TrySetSetting s key value = Ok s'" and "valid_settings s" shows "valid_settings s'"
  using assms by (auto simp: TrySetSetting_def valid_settings_def split: if_splits option.splits dest: ParsePort_Some [THEN iffD1])

lemma stoi_digits:
  assumes "t \<noteq> []" and "list_all is_digit t" and "decimal_value t < 2 ^ 31"
  shows "stoi t = Some (int (decimal_value t), length t)"
proof -
  obtain c cs where t: "t = c # cs" using assms(1) by (cases t) auto
  have c: "is_digit c" using assms(2) t by simp
  then have "of_char c \<ge> (48 :: nat)" by (simp add: is_digit_def)
  then have c': "\<not> is_space c" "c \<noteq> CHR ''-''" "c \<noteq> CHR ''+''" by (auto simp: is_space_def)
  have digits: "takeWhile is_digit cs = cs" using assms(2) t by (simp add: list_all_iff)
  show ?thesis using assms(3) c c' by (simp add: stoi_def Let_def t digits)
qed

lemma GetSavedInt_port: "GetSavedInt BridgePortKey n u = int (unat (bridgePort (ud_SavedSettings u)))"
proof -
  let ?t = "to_string (unat (bridgePort (ud_SavedSettings u)))"
  have "unat (bridgePort (ud_SavedSettings u)) < 2 ^ 31"
    using unsigned_less [of "bridgePort (ud_SavedSettings u)", where ?'a = nat] by simp
  then have "stoi ?t = Some (int (unat (bridgePort (ud_SavedSettings u))), length ?t)"
    using stoi_digits [of ?t] to_string_nonempty to_string_digits by (simp add: list_all_iff)
  then show ?thesis
    using to_string_nonempty
    by (simp add: GetSavedInt_def GetSavedString_def GetSetting_def BridgePortKey_def MultiplayerHostPortKey_def
        MultiplayerJoinIpKey_def Let_def)
qed

section \<open>Runs\<close>

datatype UserOp = OpSet string string | OpUpdate

fun user_op :: "UserOp \<Rightarrow> UserData \<times> Disk \<Rightarrow> UserData \<times> Disk" where
  "user_op (OpSet key value) (u, d) = (SetSavedString key value u, d)"
| "user_op OpUpdate s = UserDataUpdate s"

definition user_run :: "UserOp list \<Rightarrow> UserData \<times> Disk \<Rightarrow> UserData \<times> Disk" where
  "user_run ops s = fold user_op ops s"

lemma UserDataInit_settings:
  assumes "UserDataInit system listing clock (u0, d0) = (True, u, d)"
  shows "\<exists>paths e loaded. DiscoverAppPaths system = Ok paths
    \<and> EnsureDirectories [dataDirectory paths, configDirectory paths, scriptDirectory paths]
        (snd (ImportLegacyWindowsData paths listing clock d0)) = (True, e)
    \<and> LoadSettings (settingsFile paths) e = (loaded, d) \<and> ud_Paths u = Some paths
    \<and> ud_CanWriteSettings u = SettingsSucceeded loaded
    \<and> ud_SavedSettings u = (if SettingsSucceeded loaded then loadedSettings loaded else defaultSettings)"
proof -
  obtain paths where paths: "DiscoverAppPaths system = Ok paths"
    using assms by (cases "DiscoverAppPaths system") (simp_all add: UserDataInit_def)
  obtain ok e where e: "EnsureDirectories [dataDirectory paths, configDirectory paths, scriptDirectory paths]
      (snd (ImportLegacyWindowsData paths listing clock d0)) = (ok, e)" by fastforce
  obtain loaded d2 where l: "LoadSettings (settingsFile paths) e = (loaded, d2)" by fastforce
  have ok: "ok" using assms by (cases ok) (simp_all add: UserDataInit_def Let_def paths e del: EnsureDirectories.simps)
  then have "d2 = d" "u = (if SettingsSucceeded loaded
         then u0\<lparr>ud_Paths := Some paths, ud_CanWriteSettings := True, ud_SavedSettings := loadedSettings loaded,
                 ud_PendingSettingsChange := (\<not> fileFound loaded \<or> needsRewrite loaded)\<rparr>
         else u0\<lparr>ud_Paths := Some paths, ud_CanWriteSettings := False, ud_SavedSettings := defaultSettings,
                 ud_PendingSettingsChange := False\<rparr>)"
    using assms by (simp_all add: UserDataInit_def Let_def paths e l del: EnsureDirectories.simps)
  with paths e l ok show ?thesis by (intro exI [of _ paths] exI [of _ e] exI [of _ loaded]) simp
qed

lemma SetSavedString_sel [simp]:
  "ud_Paths (SetSavedString key value u) = ud_Paths u" "ud_CanWriteSettings (SetSavedString key value u) = ud_CanWriteSettings u"
  by (simp_all add: SetSavedString_def split: sum.split)

lemma UserDataUpdate_sel [simp]:
  "ud_Paths (fst (UserDataUpdate s)) = ud_Paths (fst s)" "ud_CanWriteSettings (fst (UserDataUpdate s)) = ud_CanWriteSettings (fst s)"
  "ud_SavedSettings (fst (UserDataUpdate s)) = ud_SavedSettings (fst s)"
  by (auto simp: UserDataUpdate_def split: prod.split option.split sum.split)

lemma SetSavedString_valid:
  "valid_settings (ud_SavedSettings u) \<Longrightarrow> valid_settings (ud_SavedSettings (SetSavedString key value u))"
  by (auto simp: SetSavedString_def split: sum.split dest: TrySetSetting_valid)

lemma SaveSettings_touches:
  "SaveSettings p settings d = (r, d') \<Longrightarrow> only_touches (insert p (siblings p)) d d'"
  by (auto simp: SaveSettings_def WriteTextFileAtomically_def split: if_splits dest: WriteFileAtomically_touches)

lemma defaultSettings_valid: "valid_settings defaultSettings"
  by (simp add: valid_settings_def defaultSettings_def IsValidJoinAddress_def IsValidUtf8_ascii)

lemma parse_step_valid:
  assumes "parsed st1 = p" "parsed r1 = p" "\<And>s. parsed (r2 s) = p" "\<And>s. parsed (r3 s) = p" "\<And>s e. parsed (r4 s e) = p"
    "\<And>s. parsed (st2 s) = p" and "valid_settings p"
  shows "valid_settings (parsed (if c1 then st1 else case separator of None \<Rightarrow> r1 | Some s \<Rightarrow> if c2 s then r2 s
    else if c3 s then r3 s else case TrySetSetting (parsed (st2 s)) (k s) (v s) of Inl e \<Rightarrow> r4 s e | Inr x \<Rightarrow> (st2 s)\<lparr>parsed := x\<rparr>))"
  using assms by (auto split: option.split sum.split dest: TrySetSetting_valid)

lemma ParseLine_valid: "valid_settings (parsed st) \<Longrightarrow> valid_settings (parsed (ParseLine l st))"
  unfolding ParseLine_def Let_def by (rule parse_step_valid [where p = "parsed st"]) simp_all

lemma LoadSettings_valid:
  assumes "LoadSettings p d = (loaded, d')"
  shows "valid_settings (loadedSettings loaded)"
proof -
  have "valid_settings (parsed (fold ParseLine ls st))" if "valid_settings (parsed st)" for ls st
    using that by (induction ls arbitrary: st) (auto intro: ParseLine_valid)
  then have "valid_settings (parsed (ParseLines ls))" for ls
    by (simp add: ParseLines_def defaultSettings_valid)
  then show ?thesis
    using assms by (auto simp: defaultSettings_valid LoadSettings_def noSettings_def Let_def
      split: prod.splits sum.splits option.splits bool.splits if_splits)
qed

text \<open>What a run keeps: the paths and the permission to write, and the validity of the settings.\<close>

lemma user_op_keeps:
  "ud_Paths (fst (user_op x s)) = ud_Paths (fst s) \<and> ud_CanWriteSettings (fst (user_op x s)) = ud_CanWriteSettings (fst s)
   \<and> (valid_settings (ud_SavedSettings (fst s)) \<longrightarrow> valid_settings (ud_SavedSettings (fst (user_op x s))))"
  by (cases "(x, s)" rule: user_op.cases) (simp_all add: SetSavedString_valid)

lemma user_run_keeps:
  "ud_Paths (fst (user_run ops s)) = ud_Paths (fst s) \<and> ud_CanWriteSettings (fst (user_run ops s)) = ud_CanWriteSettings (fst s)
   \<and> (valid_settings (ud_SavedSettings (fst s)) \<longrightarrow> valid_settings (ud_SavedSettings (fst (user_run ops s))))"
proof (induction ops arbitrary: s)
  case (Cons x ops)
  from Cons.IH [of "user_op x s"] user_op_keeps [of x s] show ?case by (simp add: user_run_def)
qed (simp add: user_run_def)

lemma user_op_touches:
  "ud_Paths (fst s) = Some paths \<Longrightarrow>
   only_touches (if ud_CanWriteSettings (fst s) then insert (settingsFile paths) (siblings (settingsFile paths)) else {})
     (snd s) (snd (user_op x s))"
  by (cases "(x, s)" rule: user_op.cases)
    (auto simp: UserDataUpdate_def split: prod.split option.split sum.split dest: SaveSettings_touches)

lemma user_run_touches:
  "ud_Paths (fst s) = Some paths \<Longrightarrow>
   only_touches (if ud_CanWriteSettings (fst s) then insert (settingsFile paths) (siblings (settingsFile paths)) else {})
     (snd s) (snd (user_run ops s))"
proof (induction ops arbitrary: s)
  case (Cons x ops)
  have "ud_Paths (fst (user_op x s)) = Some paths" using user_op_keeps [of x s] Cons.prems by simp
  from only_touches_trans [OF user_op_touches [OF Cons.prems, of x]] Cons.IH [OF this] show ?case
    using user_op_keeps [of x s] by (simp add: user_run_def)
qed (simp add: user_run_def)

section \<open>Properties\<close>

text \<open>
  C40. The settings file is not lost. A start discovers the paths, imports old data, creates the
  folders and then loads the settings. When that load succeeded, the settings in use are the loaded
  ones, and whatever is set afterwards and however often the settings are written back, whatever
  calls fail and whenever the process stops, no file but the settings file and its temporary siblings
  changes. When the load failed, the settings in use are the defaults, and no file at all changes, so
  a file the user spoilt stays as it is. The settings in use are always valid.
\<close>

theorem settings_file_kept:
  assumes "UserDataInit system listing clock (u0, d0) = (True, u, d)" and "user_run ops (u, d) = (u', d')"
  shows "\<exists>paths e loaded. DiscoverAppPaths system = Ok paths
    \<and> EnsureDirectories [dataDirectory paths, configDirectory paths, scriptDirectory paths]
        (snd (ImportLegacyWindowsData paths listing clock d0)) = (True, e)
    \<and> LoadSettings (settingsFile paths) e = (loaded, d)
    \<and> ud_SavedSettings u = (if SettingsSucceeded loaded then loadedSettings loaded else defaultSettings)
    \<and> only_touches (if SettingsSucceeded loaded then insert (settingsFile paths) (siblings (settingsFile paths)) else {}) d d'
    \<and> ud_Paths u' = Some paths \<and> valid_settings (ud_SavedSettings u')"
proof -
  from UserDataInit_settings [OF assms(1)] obtain paths e loaded where
    start: "DiscoverAppPaths system = Ok paths"
      "EnsureDirectories [dataDirectory paths, configDirectory paths, scriptDirectory paths]
        (snd (ImportLegacyWindowsData paths listing clock d0)) = (True, e)"
      "LoadSettings (settingsFile paths) e = (loaded, d)"
    and u: "ud_Paths u = Some paths" "ud_CanWriteSettings u = SettingsSucceeded loaded"
      "ud_SavedSettings u = (if SettingsSucceeded loaded then loadedSettings loaded else defaultSettings)" by blast
  have "valid_settings (ud_SavedSettings u)"
    using LoadSettings_valid [OF start(3)] u(3) by (simp add: defaultSettings_valid)
  then have "valid_settings (ud_SavedSettings u')" "ud_Paths u' = Some paths"
    using user_run_keeps [of ops "(u, d)"] u(1) assms(2) by simp_all
  moreover have "only_touches (if SettingsSucceeded loaded then insert (settingsFile paths) (siblings (settingsFile paths)) else {}) d d'"
    using user_run_touches [of "(u, d)" paths ops] u(1,2) assms(2) by simp
  ultimately show ?thesis
    using start u(3) by (intro exI [of _ paths] exI [of _ e] exI [of _ loaded]) simp
qed

text \<open>
  Writing back: as long as the file may be written, after an update either the change is still
  pending and the file is untouched, or the file holds exactly the text of the settings in use; and a
  change is only still pending when a call of the operating system failed.
\<close>

theorem settings_written_back:
  assumes "ud_Paths u = Some paths" and "ud_CanWriteSettings u" and "ud_PendingSettingsChange u"
    and "valid_settings (ud_SavedSettings u)" and "UserDataUpdate (u, d) = (u', d')"
  shows "ud_SavedSettings u' = ud_SavedSettings u \<and>
    files d' (settingsFile paths) =
      (if ud_PendingSettingsChange u' then files d (settingsFile paths)
       else Some (map byte_of_char (SettingsText (ud_SavedSettings u))))"
proof -
  let ?p = "settingsFile paths" and ?bs = "map byte_of_char (SettingsText (ud_SavedSettings u))"
  obtain r e where save: "WriteFileAtomically ?p ?bs d = (r, e)" by fastforce
  have "SaveSettings ?p (ud_SavedSettings u) d = (r, e)"
    using assms(4) save by (simp add: SaveSettings_def valid_settings_def WriteTextFileAtomically_def)
  then have run: "u' = (if is_ok r then u\<lparr>ud_PendingSettingsChange := False\<rparr> else u) \<and> d' = e"
    using assms by (cases r) (auto simp: UserDataUpdate_def)
  have "files e ?p = (if is_ok r then Some ?bs else files d ?p)"
  proof (cases r)
    case (Inl m)
    then show ?thesis using WriteFileAtomically_Err [of ?p ?bs d m e] save
      using only_touches_files [of "siblings ?p" d e ?p] is_temporary_neq [of ?p ?p] by auto
  next
    case (Inr x)
    then show ?thesis using WriteFileAtomically_Ok [of ?p ?bs d x e] save by auto
  qed
  with run assms(3) show ?thesis by auto
qed

section \<open>An example\<close>

definition exampleSystem :: HostSystem where
  "exampleSystem = \<lparr>hs_platform = Linux, hs_getenv = [''HOME'' \<mapsto> ''/h''], hs_currentPath = Ok ''/'', hs_executable = Ok ''/b/a''\<rparr>"

definition emptyDisk :: "OsEvent list \<Rightarrow> Disk" where
  "emptyDisk es = \<lparr>files = Map.empty, directories = {''/h'', ''/h/.config''}, events = es, osMessage = (\<lambda>p. ''no such file''),
     successMessage = ''success'', steadyClock = (\<lambda>n. 7), TemporaryFileSequence = 0, history = []\<rparr>"

definition examplePaths :: AppPaths where
  "examplePaths = projr (DiscoverAppPaths exampleSystem)"

lemma example_paths: "DiscoverAppPaths exampleSystem = Ok examplePaths"
  by (simp add: examplePaths_def) (simp add: DiscoverAppPaths_def exampleSystem_def GetEnvironmentPath_def Let_def)

lemma example_legacy: "ImportLegacyWindowsData examplePaths listing clock d = (newReport, d)"
proof -
  have "legacyDataDirectory examplePaths = None"
    by (simp add: examplePaths_def DiscoverAppPaths_def exampleSystem_def GetEnvironmentPath_def BuildAppPaths_def Let_def)
  then show ?thesis by (simp add: ImportLegacyWindowsData_def)
qed

lemma EnsureDirectory_works:
  assumes "events d = []" and "files d p = None"
  shows "\<exists>d'. EnsureDirectory p d = (Ok (), d') \<and> events d' = [] \<and> files d' = files d"
  using assms by (auto simp: EnsureDirectory_def os_create_directories_def os_is_directory_def nextEvent_def)

lemma EnsureDirectories_works:
  "events d = [] \<Longrightarrow> \<forall>p \<in> set ps. files d p = None \<Longrightarrow>
   \<exists>d'. EnsureDirectories ps d = (True, d') \<and> events d' = [] \<and> files d' = files d"
proof (induction ps arbitrary: d)
  case (Cons p ps)
  obtain d1 where "EnsureDirectory p d = (Ok (), d1)" "events d1 = []" "files d1 = files d"
    using EnsureDirectory_works [of d p] Cons.prems by auto
  with Cons.IH [of d1] Cons.prems show ?case by simp
qed simp

lemma example_path_names:
  "settingsFile examplePaths = ''/h/.config/emerald-rogue-assistant/settings.ini''"
  "dataDirectory examplePaths = ''/h/.local/share/emerald-rogue-assistant''"
  "configDirectory examplePaths = ''/h/.config/emerald-rogue-assistant''"
  "scriptDirectory examplePaths = ''/h/.local/share/emerald-rogue-assistant/scripts''"
  by (simp_all add: examplePaths_def DiscoverAppPaths_def exampleSystem_def GetEnvironmentPath_def BuildAppPaths_def Let_def
      SelectPosixAbsoluteOrFallback_def) (simp_all add: append_path_def)

lemma example_init:
  "\<exists>u d. UserDataInit exampleSystem listing clock (initialUserData, emptyDisk []) = (True, u, d)
     \<and> ud_Paths u = Some examplePaths \<and> ud_CanWriteSettings u \<and> ud_PendingSettingsChange u
     \<and> valid_settings (ud_SavedSettings u)"
proof -
  have empty: "events (emptyDisk []) = []" "files (emptyDisk []) = Map.empty" by (simp_all add: emptyDisk_def)
  then obtain d1 where d1: "EnsureDirectories [dataDirectory examplePaths, configDirectory examplePaths, scriptDirectory examplePaths] (emptyDisk []) = (True, d1)"
      "events d1 = []" "files d1 = Map.empty"
    using EnsureDirectories_works [of "emptyDisk []" "[dataDirectory examplePaths, configDirectory examplePaths, scriptDirectory examplePaths]"] by auto
  obtain loaded d2 where load: "LoadSettings (settingsFile examplePaths) d1 = (loaded, d2)" by (metis surj_pair)
  show ?thesis
  proof (cases "settingsFile examplePaths \<in> directories d1")
    case False
    with load d1 have "loaded = noSettings" by (simp add: LoadSettings_def os_exists_def nextEvent_def noSettings_def)
    with d1(1) load show ?thesis
      by (simp add: UserDataInit_def example_paths example_legacy Let_def SettingsSucceeded_def noSettings_def
          defaultSettings_valid initialUserData_def del: EnsureDirectories.simps)
  next
    case True
    have dirs: "directories d' \<subseteq> directories d \<union> set ps" if "EnsureDirectories ps d = (b, d')" "events d = []" "files d = Map.empty" for ps b d d'
      using that
    proof (induction ps arbitrary: d)
      case (Cons p ps)
      obtain e where e: "EnsureDirectory p d = (Ok (), e)" "events e = []" "files e = Map.empty"
        using EnsureDirectory_works [of d p] Cons.prems by auto
      then have "directories e \<subseteq> insert p (directories d)"
        using Cons.prems(2,3)
        by (auto simp: EnsureDirectory_def os_create_directories_def os_is_directory_def nextEvent_def split: if_splits)
      moreover have "directories d' \<subseteq> directories e \<union> set ps" using Cons.IH [of e] Cons.prems(1) e by simp
      ultimately show ?case by auto
    qed simp
    with dirs [OF d1(1) empty] True show ?thesis by (auto simp: emptyDisk_def example_path_names)
  qed
qed

text \<open>A disk on which the user has spoilt the settings file.\<close>

definition spoiltDisk :: Disk where
  "spoiltDisk = (emptyDisk [])\<lparr>files := [settingsFile examplePaths \<mapsto> [0x78]]\<rparr>"

lemma spoilt_load:
  assumes "events d = []" and "files d = files spoiltDisk"
  shows "\<exists>loaded. LoadSettings (settingsFile examplePaths) d = (loaded, d) \<and> \<not> SettingsSucceeded loaded"
proof -
  have content: "files d (settingsFile examplePaths) = Some [0x78]" using assms(2) by (simp add: spoiltDisk_def)
  have "char_of_byte 0x78 = CHR ''x''" by code_simp
  then have "messages (ParseLines (getlines [] (map char_of_byte [0x78]))) \<noteq> []"
    by (simp add: ParseLines_def ParseLine_def Let_def find_from_def)
  then show ?thesis
    using assms(1) content
    by (simp add: LoadSettings_def os_exists_def os_file_size_def os_open_read_def os_read_def nextEvent_def
        MaximumSettingsFileSize_def SettingsSucceeded_def noSettings_def Let_def)
qed

lemma spoilt_init:
  "\<exists>u d. UserDataInit exampleSystem (Ok []) 0 (initialUserData, spoiltDisk) = (True, u, d) \<and> files d = files spoiltDisk"
proof -
  let ?dirs = "[dataDirectory examplePaths, configDirectory examplePaths, scriptDirectory examplePaths]"
  have "events spoiltDisk = []" "\<forall>p \<in> set ?dirs. files spoiltDisk p = None"
    by (simp_all add: spoiltDisk_def emptyDisk_def example_path_names)
  from EnsureDirectories_works [OF this] obtain e where e: "EnsureDirectories ?dirs spoiltDisk = (True, e)"
      "events e = []" "files e = files spoiltDisk" by blast
  from spoilt_load [OF e(2,3)] obtain loaded where "LoadSettings (settingsFile examplePaths) e = (loaded, e)" by blast
  with e show ?thesis
    by (simp add: UserDataInit_def example_paths example_legacy Let_def del: EnsureDirectories.simps)
qed

theorem settings_file_kept_witness:
  "\<exists>u d u' d'. UserDataInit exampleSystem (Ok []) 0 (initialUserData, spoiltDisk) = (True, u, d)
     \<and> user_run [OpSet ''Bridge.Port'' ''9'', OpUpdate] (u, d) = (u', d')
     \<and> files d' (settingsFile examplePaths) = Some [0x78] \<and> valid_settings (ud_SavedSettings u')"
proof -
  let ?dirs = "[dataDirectory examplePaths, configDirectory examplePaths, scriptDirectory examplePaths]"
  obtain u d where init: "UserDataInit exampleSystem (Ok []) 0 (initialUserData, spoiltDisk) = (True, u, d)"
      "files d = files spoiltDisk" using spoilt_init by blast
  obtain u' d' where run: "user_run [OpSet ''Bridge.Port'' ''9'', OpUpdate] (u, d) = (u', d')" by fastforce
  from settings_file_kept [OF init(1) run] obtain e loaded where
    start: "EnsureDirectories ?dirs spoiltDisk = (True, e)" "LoadSettings (settingsFile examplePaths) e = (loaded, d)"
    and touches: "only_touches (if SettingsSucceeded loaded
        then insert (settingsFile examplePaths) (siblings (settingsFile examplePaths)) else {}) d d'"
    and valid: "valid_settings (ud_SavedSettings u')"
    by (auto simp: example_paths example_legacy simp del: EnsureDirectories.simps)
  have "events spoiltDisk = []" "\<forall>p \<in> set ?dirs. files spoiltDisk p = None"
    by (simp_all add: spoiltDisk_def emptyDisk_def example_path_names)
  from EnsureDirectories_works [OF this] start(1) have "events e = []" "files e = files spoiltDisk" by auto
  from spoilt_load [OF this] start(2) have "\<not> SettingsSucceeded loaded" by auto
  with touches have "files d' (settingsFile examplePaths) = files d (settingsFile examplePaths)"
    by (auto simp: only_touches_def)
  also have "files d (settingsFile examplePaths) = Some [0x78]" unfolding init(2) by (simp add: spoiltDisk_def)
  finally show ?thesis using init(1) run valid by (intro exI [of _ u] exI [of _ d] exI [of _ u'] exI [of _ d'] conjI)
qed

theorem settings_written_back_witness:
  "\<exists>u d. UserDataInit exampleSystem (Ok []) 0 (initialUserData, emptyDisk []) = (True, u, d)
     \<and> ud_SavedSettings (fst (UserDataUpdate (u, d))) = ud_SavedSettings u"
proof -
  obtain u d where init: "UserDataInit exampleSystem (Ok []) 0 (initialUserData, emptyDisk []) = (True, u, d)"
    and u: "ud_Paths u = Some examplePaths" "ud_CanWriteSettings u" "ud_PendingSettingsChange u" "valid_settings (ud_SavedSettings u)"
    using example_init by blast
  with settings_written_back [OF u prod.collapse [symmetric], of d] show ?thesis by blast
qed

end
