(* ===== verification/ConnectionManager.thy ===== *)
theory ConnectionManager
  imports GameBridge UserData BridgeScript CommandLine MultiplayerUpdate HomeBoxBehaviour UiModel
begin

text \<open>
  The runtime of the application: \<^verbatim>\<open>RogueAssistantCpp/Src/GameConnectionManager.cpp\<close>, with
  \<^verbatim>\<open>Src/Platform/ResourceLocator.cpp\<close>. The manager and its connections share one transport: it is
  kept in the manager and lent to a connection for each call (\<open>onGame\<close>), which also passes the
  connection's reports on to \<^verbatim>\<open>PushError\<close>. A use of the null transport is recorded in \<open>mg_Fault\<close>.
  What the manager does not define itself (the transport's constructor, the clock, the state of the
  two behaviours with a state of their own) is in the record of its surroundings.
\<close>

section \<open>Resources\<close>

datatype Resource = Font | Frame | Icon | BridgeScript

fun ResourceFileName :: "Resource \<Rightarrow> string" where
  "ResourceFileName Font = ''pokemon-emerald-pro.ttf''" | "ResourceFileName Frame = ''poketch_frame.png''"
| "ResourceFileName Icon = ''WobbuffetImage.png''" | "ResourceFileName BridgeScript = ''RogueAssistant_mGBA.lua''"

definition Resolve :: "path \<Rightarrow> Resource \<Rightarrow> path" where
  "Resolve directory resource = append_path directory (ResourceFileName resource)"

section \<open>State\<close>

record ('k, 't) Manager =
  mg_Transport :: "'t option"
  mg_BridgePortOverride :: "u16 option"
  mg_RecentError :: string
  mg_BridgeScriptPath :: string
  mg_BridgeMessage :: string
  mg_BridgePort :: u16
  mg_UsesPortableBridge :: bool
  mg_ListeningForConnections :: bool
  mg_Started :: bool
  mg_NextConnectionId :: u64
  mg_ActiveConnections :: "(u64 \<times> ('k, 't) GameWorld) list"
  mg_AcceptingConnection :: "('k, 't) GameWorld option"
  mg_User :: "UserData \<times> Disk"
  mg_Provided :: "(u64 \<times> BehaviourRef \<times> string) list"
  mg_Time :: nat
  mg_Fault :: bool

text \<open>
  \<open>mg_Provided\<close> lists the addresses given to multiplayer behaviours. \<open>mg_Time\<close> counts the moments at
  which the surroundings are asked: the clock, the constructor of a transport on a port, and the
  state of a behaviour of a connection.
\<close>

record ('k, 't) Surroundings =
  sr_ops :: "'t IGameMemoryTransport"
  sr_behaviours :: "'k Behaviours"
  sr_listen :: "nat \<Rightarrow> u16 \<Rightarrow> 't result"
  sr_clock :: "nat \<Rightarrow> int"
  sr_multiplayer :: "nat \<Rightarrow> u64 \<Rightarrow> BehaviourRef \<Rightarrow> MultiplayerBehaviour"
  sr_homeBox :: "nat \<Rightarrow> u64 \<Rightarrow> BehaviourRef \<Rightarrow> HomeBoxBehaviour"
  sr_system :: HostSystem
  sr_listing :: "TreeEntry list result"

definition portableManager :: "u16 option \<Rightarrow> UserData \<times> Disk \<Rightarrow> ('k, 't) Manager" where
  "portableManager bridgePortOverride user =
     \<lparr>mg_Transport = None, mg_BridgePortOverride = bridgePortOverride, mg_RecentError = '''', mg_BridgeScriptPath = '''',
      mg_BridgeMessage = '''', mg_BridgePort = 30125, mg_UsesPortableBridge = True, mg_ListeningForConnections = False,
      mg_Started = False, mg_NextConnectionId = 1, mg_ActiveConnections = [], mg_AcceptingConnection = None,
      mg_User = user, mg_Provided = [], mg_Time = 0, mg_Fault = False\<rparr>"

text \<open>The constructor with a transport of its own.\<close>

definition transportManager :: "'t option \<Rightarrow> UserData \<times> Disk \<Rightarrow> ('k, 't) Manager result" where
  "transportManager transport user = (case transport of
     None \<Rightarrow> Err ''GameConnectionManager requires a memory transport''
   | Some t \<Rightarrow> Ok ((portableManager None user)\<lparr>mg_Transport := Some t, mg_UsesPortableBridge := False\<rparr>))"

definition PushError :: "string \<Rightarrow> ('k, 't) Manager \<Rightarrow> ('k, 't) Manager" where
  "PushError message m = m\<lparr>mg_RecentError := message\<rparr>"

definition pushReports :: "'k GameEvent list \<Rightarrow> ('k, 't) Manager \<Rightarrow> ('k, 't) Manager" where
  "pushReports es m = fold (\<lambda>e m. case e of Reported message \<Rightarrow> PushError message m | _ \<Rightarrow> m) es m"

definition tick :: "('k, 't) Manager \<Rightarrow> ('k, 't) Manager" where
  "tick m = m\<lparr>mg_Time := mg_Time m + 1\<rparr>"

definition fault :: "('k, 't) Manager \<Rightarrow> ('k, 't) Manager" where
  "fault m = m\<lparr>mg_Fault := True\<rparr>"

section \<open>Connections\<close>

definition enter :: "'t \<Rightarrow> ('k, 't) GameWorld \<Rightarrow> ('k, 't) GameWorld" where
  "enter t W = W\<lparr>sw_transport := (t, conn W)\<rparr>"

definition onGame ::
  "(('k, 't) GameWorld \<Rightarrow> ('k, 't) GameWorld) \<Rightarrow> ('k, 't) GameWorld \<Rightarrow> ('k, 't) Manager
    \<Rightarrow> ('k, 't) GameWorld \<times> ('k, 't) Manager" where
  "onGame f W m = (case mg_Transport m of
     None \<Rightarrow> (W, fault m)
   | Some t \<Rightarrow>
       (let W' = f (enter t W)
        in (W', pushReports (drop (length (gc_Events (conn W))) (gc_Events (conn W')))
                  (m\<lparr>mg_Transport := Some (fst (sw_transport W'))\<rparr>))))"

text \<open>\<^verbatim>\<open>m_Transport->State()\<close> is neither connected nor stopped: a new connection may come.\<close>

definition awaitsClient :: "'t IGameMemoryTransport \<Rightarrow> 't \<Rightarrow> bool" where
  "awaitsClient ops t \<longleftrightarrow> tState ops t \<noteq> TransportState.Connected \<and> tState ops t \<noteq> TransportState.Stopped"

definition PollIdle :: "('k, 't) Surroundings \<Rightarrow> ('k, 't) Manager \<Rightarrow> ('k, 't) Manager" where
  "PollIdle sr m =
     (if mg_ActiveConnections m = [] \<and> mg_AcceptingConnection m = None then
        (case mg_Transport m of
           None \<Rightarrow> fault m
         | Some t \<Rightarrow> (case tPollResults (sr_ops sr) t of (_, t) \<Rightarrow>
             m\<lparr>mg_Transport := Some t,
               mg_ListeningForConnections := (awaitsClient (sr_ops sr) t \<or> mg_ListeningForConnections m)\<rparr>))
      else m)"

definition AcceptGame :: "('k, 't) Surroundings \<Rightarrow> ('k, 't) Manager \<Rightarrow> ('k, 't) Manager" where
  "AcceptGame sr m =
     (if mg_ListeningForConnections m \<and> mg_AcceptingConnection m = None then
        (case mg_Transport m of
           None \<Rightarrow> fault m
         | Some t \<Rightarrow> if tState (sr_ops sr) t = TransportState.Connected
             then m\<lparr>mg_AcceptingConnection := Some (projr (startGameConnection (Some t) c_10UPS))\<rparr>
             else m)
      else m)"

definition PromoteGame :: "('k, 't) Manager \<Rightarrow> ('k, 't) Manager" where
  "PromoteGame m = (case mg_AcceptingConnection m of
     Some W \<Rightarrow>
       if mg_ListeningForConnections m \<and> mg_ActiveConnections m = []
       then m\<lparr>mg_RecentError := '''', mg_ListeningForConnections := False,
              mg_ActiveConnections := mg_ActiveConnections m @ [(mg_NextConnectionId m, W)],
              mg_NextConnectionId := mg_NextConnectionId m + 1, mg_AcceptingConnection := None\<rparr>
       else m
   | None \<Rightarrow> m)"

fun UpdateGames ::
  "('k, 't) Surroundings \<Rightarrow> (u64 \<times> ('k, 't) GameWorld) list \<Rightarrow> ('k, 't) Manager
    \<Rightarrow> (u64 \<times> ('k, 't) GameWorld) list \<times> ('k, 't) Manager" where
  "UpdateGames sr [] m = ([], m)"
| "UpdateGames sr ((i, W) # games) m =
     (case onGame (GameUpdate (sr_ops sr) (sr_behaviours sr) (sr_clock sr (mg_Time m))) W (tick m) of (W, m) \<Rightarrow>
        (case UpdateGames sr games m of (games, m) \<Rightarrow> ((i, W) # games, m)))"

fun RemoveGames ::
  "('k, 't) Surroundings \<Rightarrow> (u64 \<times> ('k, 't) GameWorld) list \<Rightarrow> (u64 \<times> ('k, 't) GameWorld) list \<Rightarrow> ('k, 't) Manager
    \<Rightarrow> ('k, 't) Manager" where
  "RemoveGames sr kept [] m = m\<lparr>mg_ActiveConnections := kept\<rparr>"
| "RemoveGames sr kept ((i, W) # games) m =
     (if HasDisconnected (conn W)
      then RemoveGames sr kept games
             (case onGame (GameDestroy (sr_behaviours sr)) W m of (_, m) \<Rightarrow>
                if kept @ games = []
                then (case mg_Transport m of
                        None \<Rightarrow> fault m
                      | Some t \<Rightarrow> m\<lparr>mg_ListeningForConnections := (awaitsClient (sr_ops sr) t \<or> mg_ListeningForConnections m)\<rparr>)
                else m)
      else RemoveGames sr (kept @ [(i, W)]) games m)"

definition UpdateConnections :: "('k, 't) Surroundings \<Rightarrow> ('k, 't) Manager \<Rightarrow> ('k, 't) Manager" where
  "UpdateConnections sr m =
     (let m = PromoteGame (AcceptGame sr (PollIdle sr m)) in
      case UpdateGames sr (mg_ActiveConnections m) m of (games, m) \<Rightarrow> RemoveGames sr [] games m)"

text \<open>Each connection disconnects; clearing the list then destroys them.\<close>

fun DisconnectGames ::
  "('k, 't) Surroundings \<Rightarrow> (u64 \<times> ('k, 't) GameWorld) list \<Rightarrow> ('k, 't) Manager
    \<Rightarrow> (u64 \<times> ('k, 't) GameWorld) list \<times> ('k, 't) Manager" where
  "DisconnectGames sr [] m = ([], m)"
| "DisconnectGames sr ((i, W) # games) m =
     (case onGame (GameDisconnect (sr_behaviours sr)) W m of (W, m) \<Rightarrow>
        (case DisconnectGames sr games m of (games, m) \<Rightarrow> ((i, W) # games, m)))"

fun DestroyGames ::
  "('k, 't) Surroundings \<Rightarrow> (u64 \<times> ('k, 't) GameWorld) list \<Rightarrow> ('k, 't) Manager \<Rightarrow> ('k, 't) Manager" where
  "DestroyGames sr [] m = m"
| "DestroyGames sr ((i, W) # games) m = DestroyGames sr games (snd (onGame (GameDestroy (sr_behaviours sr)) W m))"

definition DisconnectConnections :: "('k, 't) Surroundings \<Rightarrow> ('k, 't) Manager \<Rightarrow> ('k, 't) Manager" where
  "DisconnectConnections sr m =
     (let m = (case mg_AcceptingConnection m of
                 None \<Rightarrow> m
               | Some W \<Rightarrow> (case onGame (GameDisconnect (sr_behaviours sr)) W m of (W, m) \<Rightarrow>
                   (snd (onGame (GameDestroy (sr_behaviours sr)) W m))\<lparr>mg_AcceptingConnection := None\<rparr>))
      in case DisconnectGames sr (mg_ActiveConnections m) m of
           (games, m) \<Rightarrow> (DestroyGames sr games m)\<lparr>mg_ActiveConnections := []\<rparr>)"

section \<open>Operations\<close>

definition ExportPortableScript :: "('k, 't) Manager \<Rightarrow> ('k, 't) Manager" where
  "ExportPortableScript m =
     (if \<not> mg_UsesPortableBridge m \<or> \<not> mg_Started m then m
      else case mg_User m of (u, d) \<Rightarrow>
        (case BridgeScript.ExportBridgeScript (Resolve (GetResourceDirectory u) BridgeScript) (GetScriptDirectory u) (mg_BridgePort m) d of
           (exported, d) \<Rightarrow>
             (let m = m\<lparr>mg_User := (u, d)\<rparr> in
              if scriptError exported \<noteq> '''' then PushError ''Cannot export the mGBA script.'' (m\<lparr>mg_BridgeMessage := ''''\<rparr>)
              else m\<lparr>mg_BridgeScriptPath := scriptPath exported, mg_BridgeMessage := ''mGBA script exported.''\<rparr>)))"

definition setSaved :: "string \<Rightarrow> string \<Rightarrow> ('k, 't) Manager \<Rightarrow> ('k, 't) Manager" where
  "setSaved key value m = m\<lparr>mg_User := (SetSavedString key value (fst (mg_User m)), snd (mg_User m))\<rparr>"

definition ManagerStart :: "('k, 't) Surroundings \<Rightarrow> ('k, 't) Manager \<Rightarrow> Thrown option \<times> ('k, 't) Manager" where
  "ManagerStart sr m =
     (if mg_Started m then (None, m)
      else case UserDataInit (sr_system sr) (sr_listing sr) (sr_clock sr (mg_Time m)) (mg_User m) of
        (False, user) \<Rightarrow>
          (Some (StdException ''Cannot open the app data folder.''), (tick m)\<lparr>mg_User := UserDataShutdown user\<rparr>)
      | (True, user) \<Rightarrow>
          (let m = (tick m)\<lparr>mg_User := user, mg_Started := True\<rparr> in
           if mg_UsesPortableBridge m then
             (let savedPort = GetSavedInt BridgePortKey (int (unat (mg_BridgePort m))) (fst user);
                  m = m\<lparr>mg_BridgePort := SelectBridgePort (mg_BridgePortOverride m) (word_of_int savedPort)\<rparr> in
              case sr_listen sr (mg_Time m) (mg_BridgePort m) of
                Inl e \<Rightarrow> (Some (StdException (''Cannot listen on port '' @ to_string (unat (mg_BridgePort m)) @ ''.'')), tick m)
              | Inr t \<Rightarrow>
                  (None, (ExportPortableScript ((tick m)\<lparr>mg_Transport := Some t\<rparr>))\<lparr>mg_ListeningForConnections := True\<rparr>))
           else (None, m\<lparr>mg_ListeningForConnections := True\<rparr>)))"

definition ChangeBridgePort :: "('k, 't) Surroundings \<Rightarrow> string \<Rightarrow> ('k, 't) Manager \<Rightarrow> ('k, 't) Manager" where
  "ChangeBridgePort sr value m =
     (if \<not> mg_UsesPortableBridge m then m
      else case TrySetSetting defaultSettings BridgePortKey value of
        Inl e \<Rightarrow> PushError ''Enter a port from 1 to 65535.'' m
      | Inr candidate \<Rightarrow>
          (let newPort = Settings.bridgePort candidate;
               save = (\<lambda>m. ExportPortableScript (setSaved BridgePortKey (to_string (unat (mg_BridgePort m))) m)) in
           if newPort = mg_BridgePort m then save m
           else case sr_listen sr (mg_Time m) newPort of
             Inl e \<Rightarrow> PushError (''Cannot use port '' @ to_string (unat newPort) @ ''.'') (tick m)
           | Inr replacement \<Rightarrow> (case mg_Transport m of
               None \<Rightarrow> fault m
             | Some t \<Rightarrow>
                 (let m = DisconnectConnections sr ((tick m)\<lparr>mg_Transport := Some (tStop (sr_ops sr) t)\<rparr>)
                  in save (m\<lparr>mg_Transport := Some replacement, mg_BridgePort := newPort, mg_BridgePortOverride := None,
                             mg_ListeningForConnections := True\<rparr>)))))"

definition ProvideAddress :: "('k, 't) Surroundings \<Rightarrow> u64 \<Rightarrow> string \<Rightarrow> ('k, 't) Manager \<Rightarrow> ('k, 't) Manager" where
  "ProvideAddress sr i value m = (case map_of (mg_ActiveConnections m) i of
     None \<Rightarrow> m
   | Some W \<Rightarrow> (case FindBehaviour MultiplayerKind (conn W) of
       None \<Rightarrow> m
     | Some ref \<Rightarrow>
         (let b = sr_multiplayer sr (mg_Time m) i ref;
              addr = SanitiseConnectionAddress b value;
              settingKey = (if IsRequestingHostConnection b then MultiplayerHostPortKey else MultiplayerJoinIpKey) in
          if \<not> IsAwaitingAddress b \<or> addr = '''' then m
          else case TrySetSetting defaultSettings settingKey addr of
            Inl e \<Rightarrow> PushError (if IsRequestingHostConnection b then ''Enter a port from 1 to 65535.''
                                else ''Enter a valid multiplayer host address.'') m
          | Inr validated \<Rightarrow>
              setSaved settingKey addr
                ((tick m)\<lparr>mg_RecentError := '''', mg_Provided := mg_Provided m @ [(i, ref, addr)]\<rparr>))))"

definition HandleCommand :: "('k, 't) Surroundings \<Rightarrow> UiCommand \<Rightarrow> ('k, 't) Manager \<Rightarrow> ('k, 't) Manager" where
  "HandleCommand sr command m = (case cmd_type command of
     UiCommandType.SetBridgePort \<Rightarrow> ChangeBridgePort sr (cmd_value command) m
   | UiCommandType.ExportBridgeScript \<Rightarrow> ExportPortableScript m
   | ProvideMultiplayerAddress \<Rightarrow> ProvideAddress sr (connectionId command) (cmd_value command) m)"

definition ManagerTick :: "('k, 't) Surroundings \<Rightarrow> ('k, 't) Manager \<Rightarrow> ('k, 't) Manager" where
  "ManagerTick sr m =
     (if \<not> mg_Started m then m
      else let m = UpdateConnections sr m in m\<lparr>mg_User := UserDataUpdate (mg_User m)\<rparr>)"

definition ManagerStop :: "('k, 't) Surroundings \<Rightarrow> ('k, 't) Manager \<Rightarrow> ('k, 't) Manager" where
  "ManagerStop sr m =
     (let m = m\<lparr>mg_Transport := map_option (tStop (sr_ops sr)) (mg_Transport m), mg_ListeningForConnections := False\<rparr>;
          m = DisconnectConnections sr m
      in if mg_Started m then m\<lparr>mg_User := UserDataShutdown (mg_User m), mg_Started := False\<rparr> else m)"

definition ConnectionView :: "('k, 't) Surroundings \<Rightarrow> ('k, 't) Manager \<Rightarrow> u64 \<times> ('k, 't) GameWorld \<Rightarrow> ConnectionSnapshot" where
  "ConnectionView sr m games = (case games of (i, W) \<Rightarrow>
     (let snapshot = \<lparr>conn_id = i, page = PageAwaiting,
            multiplayer = \<lparr>requestingHost = False, awaitingAddress = False, isConnected = False, port = 0\<rparr>,
            homeBox = \<lparr>loading = False, saving = False, requiresReopen = False\<rparr>\<rparr> in
      case FindBehaviour HomeBoxKind (conn W) of
        Some ref \<Rightarrow>
          (let b = sr_homeBox sr (mg_Time m) i ref in
           snapshot\<lparr>page := PageHomeBox,
             homeBox := \<lparr>loading = IsLoading b, saving = IsSaving b, requiresReopen = hb_RequiresReopen b\<rparr>\<rparr>)
      | None \<Rightarrow> (case FindBehaviour MultiplayerKind (conn W) of
          Some ref \<Rightarrow>
            (let b = sr_multiplayer sr (mg_Time m) i ref in
             snapshot\<lparr>page := PageMultiplayer,
               multiplayer := \<lparr>requestingHost = IsRequestingHostConnection b, awaitingAddress = IsAwaitingAddress b,
                               isConnected = IsConnected b, port = GetPort b\<rparr>\<rparr>)
        | None \<Rightarrow> snapshot)))"

definition ManagerSnapshot :: "('k, 't) Surroundings \<Rightarrow> ('k, 't) Manager \<Rightarrow> UiSnapshot" where
  "ManagerSnapshot sr m =
     (let snapshot = defaultUiSnapshot\<lparr>
            transportState := (case mg_Transport m of None \<Rightarrow> TransportState.Disconnected | Some t \<Rightarrow> tState (sr_ops sr) t),
            snap_error := mg_RecentError m, UiSnapshot.bridgePort := mg_BridgePort m,
            bridgeScriptPath := mg_BridgeScriptPath m, bridgeMessage := mg_BridgeMessage m,
            connections := map (ConnectionView sr m) (mg_ActiveConnections m)\<rparr>
      in if mg_Started m
         then snapshot\<lparr>
           UiSnapshot.multiplayerHostPort := GetSavedString ''Multiplayer.HostPort'' (to_string (unat c_DefaultPort)) (fst (mg_User m)),
           multiplayerJoinAddress := GetSavedString ''Multiplayer.JoinIP'' '''' (fst (mg_User m))\<rparr>
         else snapshot)"

text \<open>The manager as the runtime of the session worker.\<close>

definition managerRuntime :: "('k, 't) Surroundings \<Rightarrow> ('k, 't) Manager ISessionRuntime" where
  "managerRuntime sr =
     \<lparr>rtStart = ManagerStart sr, rtHandleCommand = (\<lambda>command m. (None, HandleCommand sr command m)),
      rtTick = (\<lambda>m. (None, ManagerTick sr m)), rtSnapshot = (\<lambda>m. Inr (ManagerSnapshot sr m)),
      rtStop = (\<lambda>m. (None, ManagerStop sr m))\<rparr>"

end
