(* ===== verification/GameExample.thy ===== *)
theory GameExample
  imports GameBridge
begin

text \<open>
  Concrete connections: one on a transport that accepts every request, from its construction to its
  disconnect, and one whose ROM asks for the confirmation in read-only memory. The latter shows a
  gap of the source: the common behaviour does not look at the answer of its own write.
\<close>

section \<open>A refused confirmation\<close>

lemma GameDisconnect_fields:
  "gc_Observed (conn (GameDisconnect env W)) = gc_Observed (conn W)"
  "gc_MultiplayerBehaviour (conn (GameDisconnect env W)) = gc_MultiplayerBehaviour (conn W)"
  "gc_HomeBoxBehaviour (conn (GameDisconnect env W)) = gc_HomeBoxBehaviour (conn W)"
  "\<not> HasDisconnected (conn W) \<Longrightarrow> gc_Behaviours (conn (GameDisconnect env W)) = []"
proof -
  define P where "P bs g \<longleftrightarrow> gc_Observed g = gc_Observed (conn W) \<and> gc_MultiplayerBehaviour g = gc_MultiplayerBehaviour (conn W)
    \<and> gc_HomeBoxBehaviour g = gc_HomeBoxBehaviour (conn W) \<and> gc_Behaviours g = bs" for bs and g :: "'a GameConnection"
  have detach: "P bs (conn (CallOnDetach env b V))" if "P bs (conn V)" for bs b V
    unfolding CallOnDetach_def using that by (intro foldl_keeps [where P = "P bs"]) (simp_all add: P_def GameReportError_def)
  have "P [] (conn (dropped env W))"
    unfolding dropped_def by (intro foldl_keeps [where P = "P []"] detach) (simp_all add: P_def)
  then have stopped: "P [] (conn (GameDisconnect env W))" if "\<not> HasDisconnected (conn W)"
    using SessionStop_keeps [of "P []" "\<lambda>c r W. W" "dropped env W"] that by (simp add: GameDisconnect_eq runs_keep_def)
  have kept: "GameDisconnect env W = W" if "HasDisconnected (conn W)" using that by (simp add: GameDisconnect_eq)
  show "gc_Observed (conn (GameDisconnect env W)) = gc_Observed (conn W)"
    "gc_MultiplayerBehaviour (conn (GameDisconnect env W)) = gc_MultiplayerBehaviour (conn W)"
    "gc_HomeBoxBehaviour (conn (GameDisconnect env W)) = gc_HomeBoxBehaviour (conn W)"
    "\<not> HasDisconnected (conn W) \<Longrightarrow> gc_Behaviours (conn (GameDisconnect env W)) = []"
    using stopped kept unfolding P_def by metis+
qed

lemma refused_request:
  assumes "CanSubmit (game_ops ops) W" and "gs_NextRequestId (sw_session W) \<noteq> 0" and "\<not> HasDisconnected (conn W)"
    and "\<And>rid. ValidateMemoryRequest (request\<lparr>mr_id := rid\<rparr>) \<notin> {MsOk, MsDisconnected}"
  shows "\<exists>V. conn V = conn W \<and> snd (SessionSubmit (game_ops ops) (runCompletion env) request (Some (WriteCompletion i None)) W)
    = GameDisconnect env (GameReportError ''The connection to mGBA was lost.'' V)"
proof -
  have "length (gs_Pending (sw_session W)) < 256"
    using assms(1) by (simp add: CanSubmit_def MaximumOutstandingMemoryRequests_def)
  from AllocateRequestId_ok [OF assms(2) this] obtain rid s where "AllocateRequestId (sw_session W) = Some (rid, s)" by blast
  with assms show ?thesis
    by (intro exI [of _ "W\<lparr>sw_session := s, sw_events := sw_events W @ [EvRefused (WriteCompletion i None)
          \<lparr>res_id = rid, res_status = ValidateMemoryRequest (request\<lparr>mr_id := rid\<rparr>), res_data = []\<rparr>]\<rparr>"])
      (simp add: SessionSubmit_def Let_def runCompletion_simps OnMemoryResult_def)
qed

lemma refused_confirmation:
  assumes "accepted_rom W" and "CanSubmit (game_ops ops) W" and "gs_NextRequestId (sw_session W) \<noteq> 0"
    and "\<not> IsRangeAllowed (common_u32 ''assistantState'' W + common_u32 ''assistantConfirmOffset'' W)
           (common_u32 ''assistantConfirmSize'' W) WritableRanges"
    and "\<not> IsMultiplayerStateValid (gc_Observed (conn W))" and "gc_MultiplayerBehaviour (conn W) = None"
    and "IsHomeBoxStateValid (gc_Observed (conn W))" and "gc_HomeBoxBehaviour (conn W) = None"
  shows "let W' = CommonOnUpdate ops env W in HasDisconnected (conn W') \<and> GameDisconnect env W' = W'
    \<and> (\<exists>r. ref_kind r = HomeBoxKind \<and> gc_Behaviours (conn W') = [r] \<and> Attached r \<in> set (gc_Events (conn W')))"
proof -
  let ?size = "common_u32 ''assistantConfirmSize'' W"
  let ?address = "common_u32 ''assistantState'' W + common_u32 ''assistantConfirmOffset'' W"
  have ready: "\<not> HasDisconnected (conn W)"
    using assms(1) by (simp add: accepted_rom_def IsMemoryReadable_def IsReady_def HasDisconnected_def)
  have small: "unat ?size \<le> 4" using assms(1) by (simp add: accepted_rom_def word_le_nat_alt)
  have refused: "ValidateMemoryRequest (\<lparr>mr_id = 0, mr_operation = Write, mr_address = ?address,
      mr_data = replicate (unat ?size) 0, mr_readSize = 0\<rparr>\<lparr>mr_id := rid\<rparr>) \<notin> {MsOk, MsDisconnected}" for rid
    using assms(4) by (auto simp: ValidateMemoryRequest_def)
  obtain V where V: "conn V = conn W" "snd (GameWriteRequest ops env (CreateMessageId AnonymousChannel 0) ?address
      (replicate (unat ?size) 0) None W) = GameDisconnect env (GameReportError ''The connection to mGBA was lost.'' V)"
    using refused_request [OF assms(2,3) ready refused, of env] small
    by (auto simp: GameWriteRequest_def SessionWrite_def)
  let ?U = "GameDisconnect env (GameReportError ''The connection to mGBA was lost.'' V)"
  have U: "HasDisconnected (conn ?U)" "gc_Behaviours (conn ?U) = []" "gc_Observed (conn ?U) = gc_Observed (conn W)"
    "gc_MultiplayerBehaviour (conn ?U) = None" "gc_HomeBoxBehaviour (conn ?U) = None"
    using ready assms(6,8) by (simp_all add: GameDisconnect_disconnected GameDisconnect_fields GameReportError_def V(1))
  have "FollowMultiplayer env ?U = (True, ?U)" using assms(5) U by (simp add: FollowMultiplayer_def lock_def)
  then have "CommonOnUpdate ops env W = FollowHomeBox ?U"
    using CommonOnUpdate_eq [OF assms(1), of ops env] V(2) by simp
  moreover have "FollowHomeBox ?U = (case AddBehaviour HomeBoxKind ?U of
      (ref, W) \<Rightarrow> onConn (\<lambda>g. g\<lparr>gc_HomeBoxBehaviour := Some (ref_id ref)\<rparr>) W)"
    using assms(7) U by (simp add: FollowHomeBox_def expired_def lock_def)
  ultimately show ?thesis
    using U(1,2) by (simp add: AddBehaviour_def Let_def GameDisconnect_eq [of env "onConn f W" for f W] del: GameDisconnect_eq)
qed

section \<open>Two connections\<close>

definition acceptingOps :: "unit IGameMemoryTransport" where
  "acceptingOps = \<lparr>tSubmit = (\<lambda>request t. (True, t)), tPollResults = (\<lambda>t. ([], t)), tState = (\<lambda>t. Connected), tStop = (\<lambda>t. t)\<rparr>"

definition idleBehaviours :: "unit Behaviours" where
  "idleBehaviours = \<lparr>be_update = (\<lambda>n b m. EndScript), be_detach = (\<lambda>n b. []), be_rank = unat\<rparr>"

definition romHeader :: bytes where
  "romHeader = [0, 0, 0, 0, 3, 0, 0, 0, 4, 0, 0, 0] @ replicate 108 0 @ [0, 0, 0, 8] @ replicate 8 0"

definition romMemory :: ObservedGameMemory where
  "romMemory = newObservedGameMemory\<lparr>m_GFRomHeader := filled [], m_RogueHeader := filled romHeader,
     m_HomeBoxStatePtr := filled [0, 0x10, 0, 2], m_HomeBoxState := filled_blob [1]\<rparr>"

definition readyConnection :: "(unit, unit) GameWorld" where
  "readyConnection = \<lparr>sw_session = \<lparr>gs_Pending = [], gs_NextRequestId = 1, gs_ProtocolErrorCount = 0, gs_Stopped = False\<rparr>,
     sw_transport = ((), (newGameConnection 1)\<lparr>gc_State := GcConnected, gc_Observed := romMemory\<rparr>), sw_events = []\<rparr>"

lemma rom_header_offsets:
  "field_offset RogueAssistantHeader ''rogueVersion'' 0 = Some 0"
  "field_offset RogueAssistantHeader ''rogueAssistantCompatVersion'' 0 = Some 4"
  "field_offset RogueAssistantHeader ''assistantConfirmSize'' 0 = Some 8"
  "field_offset RogueAssistantHeader ''assistantConfirmOffset'' 0 = Some 12"
  "field_offset RogueAssistantHeader ''assistantState'' 0 = Some 120"
  by (simp_all add: RogueAssistantHeader_def align_up_def)

lemma ready_connection [simp]:
  "conn readyConnection = (newGameConnection 1)\<lparr>gc_State := GcConnected, gc_Observed := romMemory\<rparr>"
  by (simp add: readyConnection_def conn_def)

lemma ready_header:
  "common_u32 ''rogueAssistantCompatVersion'' readyConnection = 3" "common_u32 ''assistantConfirmSize'' readyConnection = 4"
  "common_u32 ''assistantConfirmOffset'' readyConnection = 0" "common_u32 ''assistantState'' readyConnection = 0x08000000"
  "common_edition readyConnection = 0"
  by (simp_all add: common_u32_def common_edition_def rogue_u32_def field_u32_def field_u8_def rom_header_offsets romMemory_def
      filled_def ReadLittle_u32 romHeader_def nth_append)

lemma ready_states:
  "\<not> IsMultiplayerStateValid romMemory" "IsHomeBoxStateValid romMemory" "AreHeadersValid romMemory"
proof -
  have invalid: "\<not> struct_valid (newStruct n)" for n by (simp add: newStruct_def invalid_new)
  show "\<not> IsMultiplayerStateValid romMemory" "IsHomeBoxStateValid romMemory" "AreHeadersValid romMemory"
    by (simp_all add: IsMultiplayerStateValid_def IsHomeBoxStateValid_def AreHeadersValid_def romMemory_def
        newObservedGameMemory_def invalid address_value_def filled_def filled_blob_def ReadLittle_u32)
qed

lemma ready_accepted: "accepted_rom readyConnection"
  using ready_states by (simp add: accepted_rom_def ready_header IsMemoryReadable_def IsReady_def VanillaEdition_def)

lemma ready_submits: "CanSubmit (game_ops acceptingOps) readyConnection"
  by (simp add: CanSubmit_def readyConnection_def game_ops_def acceptingOps_def MaximumOutstandingMemoryRequests_def)

lemma ready_refused: "\<not> IsRangeAllowed 0x08000000 4 WritableRanges"
  by (simp add: IsRangeAllowed_writable gba_regions_def)

text \<open>A new connection and its first update.\<close>

definition newConnection :: "(unit, unit) GameWorld" where
  "newConnection = \<lparr>sw_session = \<lparr>gs_Pending = [], gs_NextRequestId = 1, gs_ProtocolErrorCount = 0, gs_Stopped = False\<rparr>,
     sw_transport = ((), newGameConnection 1), sw_events = []\<rparr>"

abbreviation accepting_run :: "(unit, unit) GameWorld \<Rightarrow> bool" where
  "accepting_run \<equiv> game_reachable acceptingOps (\<lambda>t t'. True) (\<lambda>t. True) idleBehaviours"

lemma new_reachable: "accepting_run newConnection"
  by (rule game_reachable.start [of _ "()" 1]) (simp_all add: startGameConnection_def newGameSession_def newConnection_def)

lemma first_request_id: "AllocateLoop [] 1 = Some (1, 2)"
  by (simp add: AllocateLoop_here PendingContains_def IncrementRequestId_def)

lemma first_effects:
  "ObservedUpdate newObservedGameMemory = ([ReadReq (CommonReadId GFHeader) 0x08000100 260], newObservedGameMemory)"
  by (simp add: ObservedUpdate_def newObservedGameMemory_def newStruct_def invalid_new c_GFHeaderAddress_def c_RomAddress_def)

lemma first_update:
  "conn (GameUpdate acceptingOps idleBehaviours 0 newConnection) =
     (newGameConnection 1)\<lparr>gc_State := GcConnected, gc_Behaviours := [BehaviourRef CommonKind 0], gc_Fresh := 1,
       gc_UpdateTimer := \<lparr>m_LastUpdate = 0, m_Timer = 0, m_UpdateInterval = 1, m_WasPaused = False\<rparr>,
       gc_Events := [Attached (BehaviourRef CommonKind 0), Updated (BehaviourRef CommonKind 0)]\<rparr>"
proof -
  have invalid: "\<not> AreHeadersValid newObservedGameMemory"
    by (simp add: AreHeadersValid_def newObservedGameMemory_def newStruct_def invalid_new)
  have valid: "ValidateMemoryRequest \<lparr>mr_id = 1, mr_operation = Read, mr_address = 0x08000100, mr_data = [], mr_readSize = 260\<rparr> = MsOk"
    by (simp add: ValidateMemoryRequest_def IsRangeAllowed_readable gba_regions_def MaximumMemoryPayloadSize_def)
  show ?thesis
    by (simp add: GameUpdate_def newConnection_def Let_def SessionPoll_def game_ops_def acceptingOps_def conn_def
        HasDisconnected_def Accept_def newGameConnection_def AddBehaviour_def happen_def onConn_def TimerUpdate_first
        UpdateDue_def IsReady_def CanSubmit_def MaximumOutstandingMemoryRequests_def UpdateObserved_def first_effects
        GameReadRequest_def SessionRead_def SessionSubmit_def AllocateRequestId_def first_request_id valid
        CallOnUpdate_def CommonOnUpdate_def IsMemoryReadable_def invalid)
qed

section \<open>Properties\<close>

text \<open>
  C7. A gap of the common behaviour: when the ROM's confirmation field lies outside the writable memory,
  its own write disconnects the connection at once, but the behaviour goes on, and attaches a Home
  Box behaviour to the disconnected connection; no later disconnect detaches it.
\<close>

theorem attach_after_disconnect:
  assumes "accepted_rom W" and "CanSubmit (game_ops ops) W" and "gs_NextRequestId (sw_session W) \<noteq> 0"
    and "\<not> IsRangeAllowed (common_u32 ''assistantState'' W + common_u32 ''assistantConfirmOffset'' W)
           (common_u32 ''assistantConfirmSize'' W) WritableRanges"
    and "\<not> IsMultiplayerStateValid (gc_Observed (conn W))" and "gc_MultiplayerBehaviour (conn W) = None"
    and "IsHomeBoxStateValid (gc_Observed (conn W))" and "gc_HomeBoxBehaviour (conn W) = None"
  shows "let W' = CommonOnUpdate ops env W in HasDisconnected (conn W') \<and> GameDisconnect env W' = W'
    \<and> (\<exists>r. ref_kind r = HomeBoxKind \<and> gc_Behaviours (conn W') = [r] \<and> Attached r \<in> set (gc_Events (conn W')))"
  by (rule refused_confirmation [OF assms])

theorem attach_after_disconnect_witness:
  "let W' = CommonOnUpdate acceptingOps idleBehaviours readyConnection in
     HasDisconnected (conn W') \<and> (\<exists>r. gc_Behaviours (conn W') = [r] \<and> ref_kind r = HomeBoxKind)"
  using attach_after_disconnect [OF ready_accepted ready_submits, of idleBehaviours] ready_states ready_refused
  by (simp add: ready_header) (force simp: Let_def readyConnection_def newGameConnection_def)

lemma first_dropped:
  "gc_Events (conn (GameDisconnect idleBehaviours (GameUpdate acceptingOps idleBehaviours 0 newConnection)))
    = [Attached (BehaviourRef CommonKind 0), Updated (BehaviourRef CommonKind 0)] @ Dropped # [Detached (BehaviourRef CommonKind 0)]"
proof -
  let ?W = "GameUpdate acceptingOps idleBehaviours 0 newConnection"
  have idle: "be_detach idleBehaviours n b = []" for n b by (simp add: idleBehaviours_def)
  have "gc_Events (conn (dropped idleBehaviours ?W))
    = [Attached (BehaviourRef CommonKind 0), Updated (BehaviourRef CommonKind 0)] @ Dropped # [Detached (BehaviourRef CommonKind 0)]"
    using idle by (simp add: dropped_def first_update CallOnDetach_def)
  then show ?thesis
    using SessionStop_keeps [of "\<lambda>g. gc_Events g = gc_Events (conn (dropped idleBehaviours ?W))" "\<lambda>c r W. W" "dropped idleBehaviours ?W"]
    by (simp add: GameDisconnect_eq runs_keep_def first_update HasDisconnected_def)
qed

theorem behaviour_lifecycle_witness:
  "let W = GameDisconnect idleBehaviours (GameUpdate acceptingOps idleBehaviours 0 newConnection) in
     accepting_run W \<and> HasDisconnected (conn W) \<and> Attached (BehaviourRef CommonKind 0) \<in> set (gc_Events (conn W))
     \<and> Detached (BehaviourRef CommonKind 0) \<in> set (gc_Events (conn W)) \<and> BehaviourRef CommonKind 0 \<notin> set (gc_Behaviours (conn W))"
proof -
  let ?W = "GameDisconnect idleBehaviours (GameUpdate acceptingOps idleBehaviours 0 newConnection)"
  have run: "accepting_run ?W" by (intro game_reachable.disconnect game_reachable.update new_reachable)
  have "Detached (BehaviourRef CommonKind 0) \<in> set (gc_Events (conn ?W))"
    using behaviour_lifecycle [OF run] first_dropped by (metis list.set_intros(1))
  moreover from this have "BehaviourRef CommonKind 0 \<notin> set (gc_Behaviours (conn ?W))" "HasDisconnected (conn ?W)"
    using behaviour_lifecycle [OF run] by (simp_all add: GameDisconnect_disconnected)
  moreover have "Attached (BehaviourRef CommonKind 0) \<in> set (gc_Events (conn ?W))" unfolding first_dropped by simp
  ultimately show ?thesis using run by (simp add: Let_def)
qed

theorem game_disconnect_complete_witness:
  "let W = GameDisconnect idleBehaviours (GameUpdate acceptingOps idleBehaviours 0 newConnection) in
     HasDisconnected (conn W) \<and> gs_Stopped (sw_session W) \<and> gs_Pending (sw_session W) = [] \<and> gc_Behaviours (conn W) = []"
proof -
  have "\<not> HasDisconnected (conn (GameUpdate acceptingOps idleBehaviours 0 newConnection))"
    by (simp add: first_update HasDisconnected_def)
  then show ?thesis
    using game_disconnect_complete [OF game_reachable.update [OF new_reachable, of 0]] by (simp add: Let_def)
qed

theorem common_attaches_checked_witness:
  "\<exists>r. Attached r \<in> set (gc_Events (conn (CommonOnUpdate acceptingOps idleBehaviours readyConnection)))
     \<and> ref_kind r = HomeBoxKind \<and> accepted_rom readyConnection"
proof -
  let ?W = "CommonOnUpdate acceptingOps idleBehaviours readyConnection"
  have "\<exists>r. ref_kind r = HomeBoxKind \<and> gc_Behaviours (conn ?W) = [r] \<and> Attached r \<in> set (gc_Events (conn ?W))"
    using refused_confirmation [OF ready_accepted ready_submits, of idleBehaviours] ready_states ready_refused
    by (simp add: ready_header) (force simp: Let_def readyConnection_def newGameConnection_def)
  then obtain r where r: "ref_kind r = HomeBoxKind" "Attached r \<in> set (gc_Events (conn ?W))" by blast
  moreover have "Attached r \<notin> set (gc_Events (conn readyConnection))" by (simp add: newGameConnection_def)
  ultimately show ?thesis using common_attaches_checked [of r acceptingOps idleBehaviours readyConnection] by blast
qed

theorem connection_answers_once_witness:
  "\<exists>W. game_reachable tcp_ops tcp_changes tcp_unused idleBehaviours W \<and> HasDisconnected (conn W)
     \<and> accepted_callbacks (sw_events W) = completed_callbacks (sw_events W)"
proof -
  obtain t net where t: "newTcpLuaTransport exampleNetwork = (Ok t, net)"
    by (simp add: newTcpLuaTransport_def exampleNetwork_def Let_def)
  then have "tcp_unused (t, net)" by (rule tcp_unused.created) (simp add: exampleNetwork_def)
  then obtain W where "game_reachable tcp_ops tcp_changes tcp_unused idleBehaviours W"
    using game_reachable.start [of tcp_unused "(t, net)" 1] by (force simp: startGameConnection_def newGameSession_def)
  then have run: "game_reachable tcp_ops tcp_changes tcp_unused idleBehaviours (GameDisconnect idleBehaviours W)"
    by (rule game_reachable.disconnect)
  then show ?thesis using connection_answers_once [OF run] GameDisconnect_disconnected by blast
qed

end
