(* ===== verification/ManagerProps.thy ===== *)
theory ManagerProps
  imports ConnectionManager SessionWorker GameExample
begin

text \<open>
  The runs of the connection manager: it serves at most one game at a time, and every connection it
  serves is one of the runs of \<^verbatim>\<open>GameConnection\<close>, from a transport that owes nothing to earlier ones.
\<close>

section \<open>What a call of a connection changes\<close>

lemma enter_same [simp]: "enter (fst (sw_transport W)) W = W"
  by (simp add: enter_def conn_def)

lemma pushReports_eq: "\<exists>e. pushReports es m = m\<lparr>mg_RecentError := e\<rparr>"
proof (induction es arbitrary: m)
  case Nil
  show ?case by (intro exI [of _ "mg_RecentError m"]) (simp add: pushReports_def)
next
  case (Cons e es)
  obtain s where "pushReports es (case e of Reported message \<Rightarrow> PushError message m | _ \<Rightarrow> m)
      = (case e of Reported message \<Rightarrow> PushError message m | _ \<Rightarrow> m)\<lparr>mg_RecentError := s\<rparr>" using Cons.IH by blast
  then have "pushReports (e # es) m = m\<lparr>mg_RecentError := s\<rparr>"
    by (simp add: pushReports_def PushError_def split: GameEvent.split_asm)
  then show ?case by blast
qed

lemma onGame_eq:
  assumes "mg_Transport m = Some t"
  shows "\<exists>e. onGame f W m = (f (enter t W), m\<lparr>mg_Transport := Some (fst (sw_transport (f (enter t W)))), mg_RecentError := e\<rparr>)"
proof -
  obtain e where "pushReports (drop (length (gc_Events (conn W))) (gc_Events (conn (f (enter t W)))))
      (m\<lparr>mg_Transport := Some (fst (sw_transport (f (enter t W))))\<rparr>)
    = m\<lparr>mg_Transport := Some (fst (sw_transport (f (enter t W)))), mg_RecentError := e\<rparr>"
    using pushReports_eq [of _ "m\<lparr>mg_Transport := Some (fst (sw_transport (f (enter t W))))\<rparr>"] by blast
  with assms show ?thesis unfolding onGame_def Let_def by auto
qed

section \<open>Properties of the transport\<close>

text \<open>A property of the transport that submitting and polling keep survives every operation of a connection.\<close>

locale transport_property =
  fixes ops :: "'t IGameMemoryTransport" and Q :: "'t \<Rightarrow> bool"
  assumes submit_keeps: "Q t \<Longrightarrow> Q (snd (tSubmit ops request t))"
    and poll_keeps: "Q t \<Longrightarrow> Q (snd (tPollResults ops t))"
begin

abbreviation holds :: "('k, 't) GameWorld \<Rightarrow> bool" where
  "holds W \<equiv> Q (fst (sw_transport W))"

lemma disconnect_holds: "holds W \<Longrightarrow> holds (GameDisconnect env W)"
proof -
  have detach: "fst (sw_transport (CallOnDetach env b V)) = fst (sw_transport V)" for b and V :: "('a, 't) GameWorld"
  proof -
    have "fst (sw_transport (foldl (\<lambda>W s. GameReportError s W) V ss)) = fst (sw_transport V)" for ss and V :: "('a, 't) GameWorld"
      by (induction ss arbitrary: V) (simp_all add: GameReportError_def happen_def onConn_def)
    then show ?thesis by (simp add: CallOnDetach_def happen_def onConn_def)
  qed
  have "fst (sw_transport (foldl (\<lambda>W b. CallOnDetach env b W) V bs)) = fst (sw_transport V)" for bs and V :: "('a, 't) GameWorld"
    by (induction bs arbitrary: V) (simp_all add: detach)
  then have dropped: "fst (sw_transport (dropped env W)) = fst (sw_transport W)" by (simp add: dropped_def happen_def onConn_def)
  have "sw_transport (foldl (\<lambda>W (rid, request :: _ SessionPending). invoke (\<lambda>c r W. W) rid (sp_completion request) (x rid) W) V ps)
      = sw_transport V" for x ps and V :: "('a, 't) GameWorld"
    by (induction ps arbitrary: V) (simp_all add: invoke_def split: prod.split)
  with dropped show "holds W \<Longrightarrow> holds (GameDisconnect env W)" by (simp add: GameDisconnect_eq SessionStop_def Let_def)
qed

lemma completions_keep: "holds W \<Longrightarrow> holds (runCompletion env c r W)"
proof -
  have "completion_property env holds"
    by unfold_locales (simp_all add: onConn_def happen_def disconnect_holds)
  then show "holds W \<Longrightarrow> holds (runCompletion env c r W)" by (rule completion_property.runCompletion_holds)
qed

lemma submit_holds: "holds W \<Longrightarrow> holds (snd (SessionSubmit (game_ops ops) (runCompletion env) request c W))"
proof -
  have kept: "tSubmit (game_ops ops) r tn = (ok, tn') \<Longrightarrow> Q (fst tn) \<Longrightarrow> Q (fst tn')" for r ok and tn tn' :: "'t \<times> 'a GameConnection"
    using submit_keeps [of "fst tn" r] by (auto simp: game_ops_def split: prod.splits)
  show "holds W \<Longrightarrow> holds (snd (SessionSubmit (game_ops ops) (runCompletion env) request c W))"
    by (auto simp: SessionSubmit_def Let_def intro!: completions_keep dest: kept split: option.split prod.splits)
qed

lemma poll_holds: "holds W \<Longrightarrow> holds (SessionPoll (game_ops ops) (runCompletion env) W)"
proof -
  have one: "holds V \<Longrightarrow> holds (PollOne (runCompletion env) V r)" for V r
    by (auto simp: PollOne_def Let_def invoke_def intro!: completions_keep split: option.split)
  have "holds V \<Longrightarrow> holds (foldl (PollOne (runCompletion env)) V rs)" for V rs
    by (induction rs arbitrary: V) (simp_all add: one)
  then show "holds W \<Longrightarrow> holds (SessionPoll (game_ops ops) (runCompletion env) W)"
    using poll_keeps [of "fst (sw_transport W)"]
    by (auto simp: SessionPoll_def Let_def game_ops_def split: prod.split)
qed

lemma session: "session_property env holds ops"
  by unfold_locales (simp_all add: onConn_def disconnect_holds submit_holds poll_holds)

lemma update_holds: "holds W \<Longrightarrow> holds (GameUpdate ops env currentTime W)"
  by (rule session_property.GameUpdate_holds [OF session])

lemma destroy_holds: "holds W \<Longrightarrow> holds (GameDestroy env W)"
proof -
  have "holds V \<Longrightarrow> holds (foldl (\<lambda>W (rid, request :: _ SessionPending). invoke (runCompletion env) rid (sp_completion request) (x rid) W) V ps)"
    for x ps V
  proof (induction ps arbitrary: V)
    case (Cons p ps)
    have "holds (case p of (rid, request :: _ SessionPending) \<Rightarrow> invoke (runCompletion env) rid (sp_completion request) (x rid) V)"
      using Cons.prems by (auto simp: invoke_def intro!: completions_keep split: prod.split)
    from Cons.IH [OF this] show ?case by (simp split: prod.split)
  qed simp
  then show "holds W \<Longrightarrow> holds (GameDestroy env W)" by (simp add: GameDestroy_def SessionStop_def Let_def onConn_def)
qed

end

section \<open>One connection after the other\<close>

text \<open>
  What the manager needs of a transport that serves one connection after the other: it is \<open>unused\<close>
  when it owes nothing to an earlier connection. A poll of a transport that is not connected before
  or after it releases it.
\<close>

locale serial_transport =
  fixes ops :: "'t IGameMemoryTransport" and used unused :: "'t \<Rightarrow> bool" and changes :: "'t \<Rightarrow> 't \<Rightarrow> bool"
  assumes unused_used: "unused t \<Longrightarrow> used t"
    and submit_used: "used t \<Longrightarrow> used (snd (tSubmit ops request t))"
    and poll_used: "used t \<Longrightarrow> used (snd (tPollResults ops t))"
    and poll_unused: "unused t \<Longrightarrow> unused (snd (tPollResults ops t))"
    and release: "used t \<Longrightarrow> tState ops t \<noteq> TransportState.Connected \<or> tState ops (snd (tPollResults ops t)) \<noteq> TransportState.Connected \<Longrightarrow>
      unused (snd (tPollResults ops t))"
    and changes_used: "used t \<Longrightarrow> changes t t' \<Longrightarrow> used t'"
    and changes_free: "unused t \<or> tState ops t \<noteq> TransportState.Connected \<Longrightarrow> changes t t' \<Longrightarrow> unused t' \<or> tState ops t' \<noteq> TransportState.Connected"
    and stop_changes: "changes t (tStop ops t)"

sublocale serial_transport \<subseteq> usable: transport_property ops used
  by unfold_locales (simp_all add: submit_used poll_used)

text \<open>The manager's invariant between two calls.\<close>

definition serving ::
  "('k, 't) Surroundings \<Rightarrow> ('t \<Rightarrow> bool) \<Rightarrow> ('t \<Rightarrow> 't \<Rightarrow> bool) \<Rightarrow> 't \<Rightarrow> u64 \<times> ('k, 't) GameWorld \<Rightarrow> bool" where
  "serving sr unused changes t = (\<lambda>(i, W).
     game_reachable (sr_ops sr) changes unused (sr_behaviours sr) (enter t W))"

definition manager_inv ::
  "('k, 't) Surroundings \<Rightarrow> ('t \<Rightarrow> bool) \<Rightarrow> ('t \<Rightarrow> bool) \<Rightarrow> ('t \<Rightarrow> 't \<Rightarrow> bool) \<Rightarrow> ('k, 't) Manager \<Rightarrow> bool" where
  "manager_inv sr used unused changes m \<longleftrightarrow>
     mg_AcceptingConnection m = None \<and> \<not> mg_Fault m \<and> length (mg_ActiveConnections m) \<le> 1
     \<and> (mg_ListeningForConnections m \<longrightarrow> mg_ActiveConnections m = [])
     \<and> (\<exists>t. mg_Transport m = Some t \<and> used t
          \<and> (mg_ListeningForConnections m \<longrightarrow> unused t \<or> tState (sr_ops sr) t \<noteq> TransportState.Connected)
          \<and> list_all (serving sr unused changes t) (mg_ActiveConnections m))"

definition all_live :: "('k, 't) Manager \<Rightarrow> bool" where
  "all_live m \<longleftrightarrow> list_all (\<lambda>(i, W). \<not> HasDisconnected (conn W)) (mg_ActiveConnections m)"

lemma at_most_one: "length xs \<le> 1 \<longleftrightarrow> xs = [] \<or> (\<exists>x. xs = [x])"
  by (cases xs) auto

definition kept :: "('k, 't) Manager \<Rightarrow> ('k, 't) Manager \<Rightarrow> bool" where
  "kept m m' \<longleftrightarrow> mg_AcceptingConnection m' = mg_AcceptingConnection m \<and> mg_Fault m' = mg_Fault m
     \<and> mg_ActiveConnections m' = mg_ActiveConnections m \<and> mg_ListeningForConnections m' = mg_ListeningForConnections m"

lemma kept_refl [simp]: "kept m m"
  by (simp add: kept_def)

lemma kept_trans: "kept m m' \<Longrightarrow> kept m' m'' \<Longrightarrow> kept m m''"
  by (simp add: kept_def)

locale manager_setting = serial_transport "sr_ops sr" used unused changes
  for sr :: "('k, 't) Surroundings" and used unused :: "'t \<Rightarrow> bool" and changes :: "'t \<Rightarrow> 't \<Rightarrow> bool" +
  assumes listen: "sr_listen sr n p = Ok t \<Longrightarrow> unused t"
begin

abbreviation served :: "'t \<Rightarrow> u64 \<times> ('k, 't) GameWorld \<Rightarrow> bool" where
  "served \<equiv> serving sr unused changes"

abbreviation ready :: "('k, 't) Manager \<Rightarrow> bool" where
  "ready \<equiv> manager_inv sr used unused changes"

lemma served_Pair: "served t (i, W) \<longleftrightarrow> game_reachable (sr_ops sr) changes unused (sr_behaviours sr) (enter t W)"
  by (simp add: serving_def)

lemma served_changes: "served t g \<Longrightarrow> changes t t' \<Longrightarrow> served t' g"
proof -
  assume "served t g" "changes t t'"
  moreover obtain i W where g: "g = (i, W)" by (cases g)
  moreover have "enter t' W = (enter t W)\<lparr>sw_transport := (t', conn (enter t W))\<rparr>" by (simp add: enter_def conn_def)
  ultimately show ?thesis using game_reachable.transport [of "sr_ops sr" changes unused "sr_behaviours sr" "enter t W" t']
    by (simp add: served_Pair enter_def)
qed

lemma call_connection:
  assumes "mg_Transport m = Some t" "used t" "onGame f W m = (W', m')"
    and "\<And>V. used (fst (sw_transport V)) \<Longrightarrow> used (fst (sw_transport (f V)))"
  shows "kept m m' \<and> (\<exists>t'. mg_Transport m' = Some t' \<and> used t' \<and> enter t' W' = f (enter t W))"
proof -
  obtain e where "W' = f (enter t W)" "m' = m\<lparr>mg_Transport := Some (fst (sw_transport W')), mg_RecentError := e\<rparr>"
    using onGame_eq [OF assms(1), of f W] assms(3) by auto
  moreover have "used (fst (sw_transport (f (enter t W))))" using assms(2) by (intro assms(4)) (simp add: enter_def)
  ultimately show ?thesis by (simp add: kept_def)
qed

lemma UpdateGames_served:
  assumes "mg_Transport m = Some t" "used t" "list_all (served t) games" "length games \<le> 1" "UpdateGames sr games m = (games', m')"
  shows "kept m m' \<and> map fst games' = map fst games \<and> (\<exists>t'. mg_Transport m' = Some t' \<and> used t' \<and> list_all (served t') games')"
proof (cases games)
  case (Cons g rest)
  then obtain i W where games: "games = [(i, W)]" using assms(4) by (cases g) simp
  let ?update = "GameUpdate (sr_ops sr) (sr_behaviours sr) (sr_clock sr (mg_Time m))"
  obtain V n where call: "onGame ?update W (tick m) = (V, n)" by fastforce
  have t: "mg_Transport (tick m) = Some t" using assms(1) by (simp add: tick_def)
  obtain t' where "kept (tick m) n" "mg_Transport n = Some t'" "used t'" "enter t' V = ?update (enter t W)"
    using call_connection [OF t assms(2) call] usable.update_holds by blast
  moreover have "kept m (tick m)" by (simp add: kept_def tick_def)
  ultimately show ?thesis
    using assms(3,5) games call by (auto simp: served_Pair intro: game_reachable.update kept_trans)
qed (use assms in auto)

lemma DisconnectGames_served:
  assumes "mg_Transport m = Some t" "used t" "list_all (served t) games" "length games \<le> 1" "DisconnectGames sr games m = (games', m')"
  shows "kept m m' \<and> length games' \<le> 1 \<and> (\<exists>t'. mg_Transport m' = Some t' \<and> used t' \<and> list_all (served t') games')"
proof (cases games)
  case (Cons g rest)
  then obtain i W where games: "games = [(i, W)]" using assms(4) by (cases g) simp
  obtain V n where call: "onGame (GameDisconnect (sr_behaviours sr)) W m = (V, n)" by fastforce
  obtain t' where "kept m n" "mg_Transport n = Some t'" "used t'" "enter t' V = GameDisconnect (sr_behaviours sr) (enter t W)"
    using call_connection [OF assms(1,2) call] usable.disconnect_holds by blast
  then show ?thesis using assms(3,5) games call by (auto simp: served_Pair intro: game_reachable.disconnect)
qed (use assms in auto)

lemma destroy_connection:
  assumes "mg_Transport m = Some t" "used t"
  shows "kept m (snd (onGame (GameDestroy (sr_behaviours sr)) W m))
    \<and> (\<exists>t'. mg_Transport (snd (onGame (GameDestroy (sr_behaviours sr)) W m)) = Some t' \<and> used t')"
  using call_connection [OF assms, of "GameDestroy (sr_behaviours sr)" W] usable.destroy_holds
  by (cases "onGame (GameDestroy (sr_behaviours sr)) W m") auto

lemma DestroyGames_used:
  "mg_Transport m = Some t \<Longrightarrow> used t \<Longrightarrow>
   kept m (DestroyGames sr games m) \<and> (\<exists>t'. mg_Transport (DestroyGames sr games m) = Some t' \<and> used t')"
proof (induction games arbitrary: m t)
  case (Cons g games)
  obtain i W where g: "g = (i, W)" by (cases g)
  obtain t' where "kept m (snd (onGame (GameDestroy (sr_behaviours sr)) W m))"
    "mg_Transport (snd (onGame (GameDestroy (sr_behaviours sr)) W m)) = Some t'" "used t'"
    using destroy_connection [OF Cons.prems] by blast
  with Cons.IH [OF this(2,3)] show ?case using kept_trans by (auto simp: g)
qed simp

end

section \<open>Every operation keeps the invariant\<close>

lemma ExportPortableScript_kept [simp]:
  "kept m (ExportPortableScript m)" "mg_Transport (ExportPortableScript m) = mg_Transport m"
  by (simp_all add: ExportPortableScript_def kept_def Let_def PushError_def split: prod.split)

lemma setSaved_kept [simp]: "kept m (setSaved key value m)" "mg_Transport (setSaved key value m) = mg_Transport m"
  by (simp_all add: setSaved_def kept_def)

lemma manager_inv_kept:
  "manager_inv sr used unused changes m \<Longrightarrow> kept m m' \<Longrightarrow> mg_Transport m' = mg_Transport m \<Longrightarrow> manager_inv sr used unused changes m'"
  by (simp add: manager_inv_def kept_def)

lemma ProvideAddress_kept: "kept m (ProvideAddress sr i value m) \<and> mg_Transport (ProvideAddress sr i value m) = mg_Transport m"
  by (simp add: ProvideAddress_def kept_def Let_def PushError_def setSaved_def tick_def split: option.split sum.split)

context manager_setting
begin

lemma PollIdle_inv:
  assumes "ready m" and "PollIdle sr m = m'"
  shows "ready m' \<and> mg_ActiveConnections m' = mg_ActiveConnections m
    \<and> (mg_ListeningForConnections m' \<longrightarrow> (\<forall>t. mg_Transport m' = Some t \<longrightarrow> unused t))"
proof (cases "mg_ActiveConnections m = []")
  case True
  obtain t where t: "mg_Transport m = Some t" "used t" "mg_ListeningForConnections m \<longrightarrow> unused t \<or> tState (sr_ops sr) t \<noteq> TransportState.Connected"
    using assms(1) by (auto simp: manager_inv_def)
  let ?t = "snd (tPollResults (sr_ops sr) t)"
  have m': "m' = m\<lparr>mg_Transport := Some ?t, mg_ListeningForConnections := (awaitsClient (sr_ops sr) ?t \<or> mg_ListeningForConnections m)\<rparr>"
    using assms True t(1) by (auto simp: PollIdle_def manager_inv_def split: prod.splits)
  have "unused ?t" if "mg_ListeningForConnections m'"
    using that t(2,3) release [of t] poll_unused [of t] by (auto simp: m' awaitsClient_def)
  then show ?thesis using assms(1) t(2) poll_used [of t] True by (simp add: m' manager_inv_def)
qed (use assms in \<open>auto simp: PollIdle_def manager_inv_def\<close>)

lemma start_served: "unused t \<Longrightarrow> served t (i, projr (startGameConnection (Some t) interval))"
proof -
  let ?W = "projr (startGameConnection (Some t) interval) :: ('k, 't) GameWorld"
  have new: "startGameConnection (Some t) interval = Ok ?W" "fst (sw_transport ?W) = t"
    by (simp_all add: startGameConnection_def newGameSession_def)
  assume "unused t"
  then have "game_reachable (sr_ops sr) changes unused (sr_behaviours sr) ?W"
    using new(1) by (intro game_reachable.start)
  with enter_same [of ?W] show ?thesis unfolding served_Pair new(2) by simp
qed

lemma admit_inv:
  assumes "ready m" and "mg_ListeningForConnections m \<longrightarrow> (\<forall>t. mg_Transport m = Some t \<longrightarrow> unused t)"
  shows "ready (PromoteGame (AcceptGame sr m))"
proof (cases "mg_ListeningForConnections m")
  case True
  obtain t where t: "mg_Transport m = Some t" "used t" "unused t" using assms True by (auto simp: manager_inv_def)
  have "AcceptGame sr m = (if tState (sr_ops sr) t = TransportState.Connected
      then m\<lparr>mg_AcceptingConnection := Some (projr (startGameConnection (Some t) c_10UPS))\<rparr> else m)"
    using assms(1) True t(1) by (simp add: AcceptGame_def manager_inv_def)
  then show ?thesis
    using assms(1) True t start_served [OF t(3), of "mg_NextConnectionId m" c_10UPS]
    by (auto simp: PromoteGame_def manager_inv_def)
next
  case False
  then show ?thesis using assms(1) by (simp add: AcceptGame_def PromoteGame_def manager_inv_def)
qed

lemma RemoveGames_inv:
  assumes "ready (m\<lparr>mg_ActiveConnections := games\<rparr>)"
    and "mg_ListeningForConnections m \<longrightarrow> games = []" "RemoveGames sr [] games m = m'"
  shows "ready m' \<and> all_live m'"
proof -
  have "length games \<le> 1" using assms(1) by (simp add: manager_inv_def)
  then consider "games = []" | i W where "games = [(i, W)]" unfolding at_most_one by force
  then show ?thesis
  proof cases
    case (2 i W)
    obtain t where t: "mg_Transport m = Some t" "used t" using assms(1) by (auto simp: manager_inv_def)
    define n where "n = snd (onGame (GameDestroy (sr_behaviours sr)) W m)"
    obtain t' where n: "kept m n" "mg_Transport n = Some t'" "used t'" using destroy_connection [OF t] unfolding n_def by blast
    show ?thesis
    proof (cases "HasDisconnected (conn W)")
      case True
      then have "m' = n\<lparr>mg_ListeningForConnections := (awaitsClient (sr_ops sr) t' \<or> mg_ListeningForConnections n), mg_ActiveConnections := []\<rparr>"
        using assms(3) 2 n(2) by (simp add: n_def case_prod_unfold)
      then show ?thesis using assms(1,2) n 2 by (auto simp: manager_inv_def all_live_def kept_def awaitsClient_def)
    next
      case False
      then show ?thesis using assms(1,3) 2 by (auto simp: all_live_def)
    qed
  qed (use assms in \<open>auto simp: all_live_def\<close>)
qed

lemma UpdateConnections_inv:
  assumes "ready m" shows "ready (UpdateConnections sr m) \<and> all_live (UpdateConnections sr m)"
proof -
  define n where "n = PromoteGame (AcceptGame sr (PollIdle sr m))"
  have n: "ready n" unfolding n_def using PollIdle_inv [OF assms refl] by (intro admit_inv) simp_all
  then obtain t where t: "mg_Transport n = Some t" "used t" "list_all (served t) (mg_ActiveConnections n)"
      "length (mg_ActiveConnections n) \<le> 1" by (auto simp: manager_inv_def)
  obtain games m' where games: "UpdateGames sr (mg_ActiveConnections n) n = (games, m')" by fastforce
  from UpdateGames_served [OF t games] obtain t' where
    u: "kept n m'" "map fst games = map fst (mg_ActiveConnections n)" "mg_Transport m' = Some t'" "used t'" "list_all (served t') games"
    by blast
  have shape: "length games = length (mg_ActiveConnections n)" using arg_cong [OF u(2), of length] by simp
  have none: "games = [] \<and> m' = n" if "mg_ActiveConnections n = []" using games that by simp
  have "ready (m'\<lparr>mg_ActiveConnections := games\<rparr>)" "mg_ListeningForConnections m' \<longrightarrow> games = []"
    using n u shape none by (cases "mg_ActiveConnections n = []"; auto simp: manager_inv_def kept_def)+
  from RemoveGames_inv [OF this refl] show ?thesis using games by (simp add: UpdateConnections_def n_def Let_def)
qed

lemma DisconnectConnections_inv:
  assumes "mg_Transport m = Some t" "used t" "list_all (served t) (mg_ActiveConnections m)"
    "length (mg_ActiveConnections m) \<le> 1" "mg_AcceptingConnection m = None"
  shows "\<exists>t'. mg_Transport (DisconnectConnections sr m) = Some t' \<and> used t'
    \<and> mg_ActiveConnections (DisconnectConnections sr m) = [] \<and> mg_AcceptingConnection (DisconnectConnections sr m) = None
    \<and> mg_Fault (DisconnectConnections sr m) = mg_Fault m
    \<and> mg_ListeningForConnections (DisconnectConnections sr m) = mg_ListeningForConnections m"
proof -
  obtain games n where games: "DisconnectGames sr (mg_ActiveConnections m) m = (games, n)" by fastforce
  from DisconnectGames_served [OF assms(1-4) games] obtain t' where n: "kept m n" "mg_Transport n = Some t'" "used t'" by blast
  from DestroyGames_used [OF n(2,3), of games] show ?thesis
    using games assms(5) n(1) by (auto simp: DisconnectConnections_def Let_def kept_def)
qed

end

context manager_setting
begin

lemma ChangeBridgePort_inv:
  assumes "ready m"
  shows "ready (ChangeBridgePort sr value m)
    \<and> (mg_ActiveConnections (ChangeBridgePort sr value m) = mg_ActiveConnections m \<or> mg_ActiveConnections (ChangeBridgePort sr value m) = [])"
proof -
  obtain t where t: "mg_Transport m = Some t" "used t" "list_all (served t) (mg_ActiveConnections m)"
      "length (mg_ActiveConnections m) \<le> 1" "mg_AcceptingConnection m = None" "\<not> mg_Fault m"
    using assms by (auto simp: manager_inv_def)
  have same: "ready m' \<and> mg_ActiveConnections m' = mg_ActiveConnections m" if "kept m m'" "mg_Transport m' = mg_Transport m" for m'
    using manager_inv_kept [OF assms that] that(1) by (simp add: kept_def)
  have save: "kept n (ExportPortableScript (setSaved k v n)) \<and> mg_Transport (ExportPortableScript (setSaved k v n)) = mg_Transport n" for k v n
    by (simp add: kept_trans [OF setSaved_kept(1) ExportPortableScript_kept(1)])
  have pushed: "kept m (PushError e m)" "kept m (PushError e (tick m))" "mg_Transport (PushError e m) = mg_Transport m"
    "mg_Transport (PushError e (tick m)) = mg_Transport m" for e
    by (simp_all add: kept_def PushError_def tick_def)
  consider "\<not> mg_UsesPortableBridge m" | e where "mg_UsesPortableBridge m" "TrySetSetting defaultSettings BridgePortKey value = Inl e"
    | c where "mg_UsesPortableBridge m" "TrySetSetting defaultSettings BridgePortKey value = Inr c" "Settings.bridgePort c = mg_BridgePort m"
    | c e where "mg_UsesPortableBridge m" "TrySetSetting defaultSettings BridgePortKey value = Inr c" "Settings.bridgePort c \<noteq> mg_BridgePort m"
        "sr_listen sr (mg_Time m) (Settings.bridgePort c) = Inl e"
    | c u where "mg_UsesPortableBridge m" "TrySetSetting defaultSettings BridgePortKey value = Inr c" "Settings.bridgePort c \<noteq> mg_BridgePort m"
        "sr_listen sr (mg_Time m) (Settings.bridgePort c) = Inr u"
    by (cases "TrySetSetting defaultSettings BridgePortKey value"; cases "sr_listen sr (mg_Time m) (Settings.bridgePort (projr (TrySetSetting defaultSettings BridgePortKey value)))")
      force+
  then show ?thesis
  proof cases
    case 1
    then show ?thesis using same [OF kept_refl refl] by (simp add: ChangeBridgePort_def)
  next
    case (2 e)
    then show ?thesis using same [OF pushed(1,3)] by (simp add: ChangeBridgePort_def)
  next
    case (3 c)
    have "ChangeBridgePort sr value m = ExportPortableScript (setSaved BridgePortKey (to_string (unat (mg_BridgePort m))) m)"
      by (simp only: ChangeBridgePort_def 3 Let_def sum.case if_True if_False not_True_eq_False refl)
    then show ?thesis using same [of "ChangeBridgePort sr value m"] save [of m] by simp
  next
    case (4 c e)
    have "ChangeBridgePort sr value m = PushError (''Cannot use port '' @ to_string (unat (Settings.bridgePort c)) @ ''.'') (tick m)"
      by (simp only: ChangeBridgePort_def 4 Let_def sum.case if_True if_False not_True_eq_False)
    then show ?thesis using same [OF pushed(2,4)] by simp
  next
    case c: (5 c u)
    let ?n = "(tick m)\<lparr>mg_Transport := Some (tStop (sr_ops sr) t)\<rparr>"
    have stop: "used (tStop (sr_ops sr) t)" using changes_used [OF t(2) stop_changes] .
    have "list_all (served (tStop (sr_ops sr) t)) (mg_ActiveConnections m)"
      using t(3) by (auto simp: list_all_iff intro: served_changes stop_changes)
    then obtain t' where d: "mg_Transport (DisconnectConnections sr ?n) = Some t'" "mg_ActiveConnections (DisconnectConnections sr ?n) = []"
        "mg_AcceptingConnection (DisconnectConnections sr ?n) = None" "\<not> mg_Fault (DisconnectConnections sr ?n)"
      using DisconnectConnections_inv [of ?n "tStop (sr_ops sr) t"] stop t(4-6) by (auto simp: tick_def)
    let ?k = "(DisconnectConnections sr ?n)\<lparr>mg_Transport := Some u, mg_BridgePort := Settings.bridgePort c, mg_BridgePortOverride := None,
        mg_ListeningForConnections := True\<rparr>"
    have "ready ?k" using d listen [OF c(4)] unused_used by (simp add: manager_inv_def)
    moreover have "ChangeBridgePort sr value m
        = ExportPortableScript (setSaved BridgePortKey (to_string (unat (mg_BridgePort ?k))) ?k)"
      by (simp only: ChangeBridgePort_def c t(1) Let_def sum.case option.case if_True if_False not_True_eq_False)
    ultimately show ?thesis
      using manager_inv_kept [of sr used unused changes ?k] save [of ?k] d(2) by (auto simp: kept_def)
  qed
qed

lemma HandleCommand_inv:
  assumes "ready m" "all_live m" shows "ready (HandleCommand sr command m) \<and> all_live (HandleCommand sr command m)"
proof -
  have same: "ready m' \<and> all_live m'" if "kept m m' \<and> mg_Transport m' = mg_Transport m" for m'
    using manager_inv_kept [OF assms(1)] that assms(2) by (auto simp: all_live_def kept_def)
  have "ready (ChangeBridgePort sr v m) \<and> all_live (ChangeBridgePort sr v m)" for v
    using ChangeBridgePort_inv [OF assms(1), of v] assms(2) by (auto simp: all_live_def)
  moreover have "ready (ExportPortableScript m) \<and> all_live (ExportPortableScript m)" by (rule same) simp
  ultimately show ?thesis
    using same [OF ProvideAddress_kept] by (simp add: HandleCommand_def split: UiCommandType.split)
qed

lemma ManagerTick_inv: "ready m \<Longrightarrow> all_live m \<Longrightarrow> ready (ManagerTick sr m) \<and> all_live (ManagerTick sr m)"
proof -
  assume m: "ready m" "all_live m"
  have user: "ready (n\<lparr>mg_User := u\<rparr>) = ready n" "all_live (n\<lparr>mg_User := u\<rparr>) = all_live n" for n u
    by (simp_all add: manager_inv_def all_live_def)
  show ?thesis using UpdateConnections_inv [OF m(1)] m by (simp add: ManagerTick_def Let_def user)
qed

lemma ManagerStop_inv:
  assumes "ready m"
  shows "ready (ManagerStop sr m) \<and> mg_ActiveConnections (ManagerStop sr m) = [] \<and> \<not> mg_ListeningForConnections (ManagerStop sr m)"
proof -
  obtain t where t: "mg_Transport m = Some t" "used t" "list_all (served t) (mg_ActiveConnections m)"
      "length (mg_ActiveConnections m) \<le> 1" "mg_AcceptingConnection m = None" "\<not> mg_Fault m"
    using assms by (auto simp: manager_inv_def)
  let ?n = "m\<lparr>mg_Transport := Some (tStop (sr_ops sr) t), mg_ListeningForConnections := False\<rparr>"
  have "used (tStop (sr_ops sr) t)" "list_all (served (tStop (sr_ops sr) t)) (mg_ActiveConnections m)"
    using t(2,3) by (auto simp: list_all_iff intro: served_changes stop_changes changes_used)
  with DisconnectConnections_inv [of ?n "tStop (sr_ops sr) t"] t
  have "ready (DisconnectConnections sr ?n)" "mg_ActiveConnections (DisconnectConnections sr ?n) = []"
    "\<not> mg_ListeningForConnections (DisconnectConnections sr ?n)" by (auto simp: manager_inv_def)
  moreover have "ready (n\<lparr>mg_User := u, mg_Started := False\<rparr>) = ready n" for n u by (simp add: manager_inv_def)
  ultimately show ?thesis using t(1) by (simp add: ManagerStop_def Let_def)
qed

lemma ManagerStart_inv:
  assumes "ManagerStart sr m = (None, m')" "mg_ActiveConnections m = []" "mg_AcceptingConnection m = None" "\<not> mg_Fault m"
    "\<not> mg_Started m" "if mg_UsesPortableBridge m then mg_Transport m = None
      else \<exists>t. mg_Transport m = Some t \<and> used t \<and> (unused t \<or> tState (sr_ops sr) t \<noteq> TransportState.Connected)"
  shows "ready m' \<and> all_live m'"
proof -
  obtain user where user: "UserDataInit (sr_system sr) (sr_listing sr) (sr_clock sr (mg_Time m)) (mg_User m) = (True, user)"
    using assms(1,5) by (auto simp: ManagerStart_def split: prod.splits bool.splits)
  let ?m = "(tick m)\<lparr>mg_User := user, mg_Started := True\<rparr>"
  show ?thesis
  proof (cases "mg_UsesPortableBridge m")
    case False
    then have "m' = ?m\<lparr>mg_ListeningForConnections := True\<rparr>"
      using assms(1,5) user by (simp add: ManagerStart_def Let_def tick_def)
    then show ?thesis using assms(2-4,6) False unused_used by (auto simp: manager_inv_def all_live_def tick_def)
  next
    case True
    then obtain n t p where t: "sr_listen sr n p = Inr t"
      "m' = (ExportPortableScript ((tick (?m\<lparr>mg_BridgePort := p\<rparr>))\<lparr>mg_Transport := Some t\<rparr>))\<lparr>mg_ListeningForConnections := True\<rparr>"
      using assms(1,5) user by (auto simp: ManagerStart_def Let_def tick_def split: sum.splits)
    let ?k = "(tick (?m\<lparr>mg_BridgePort := p\<rparr>))\<lparr>mg_Transport := Some t\<rparr>"
    show ?thesis using listen [OF t(1)] unused_used ExportPortableScript_kept [of ?k] assms(2-4)
      by (auto simp: t(2) manager_inv_def all_live_def kept_def tick_def)
  qed
qed

end

section \<open>The application\<close>

text \<open>
  The worker thread runs the manager. Between any two steps the network may change the transport.
\<close>

definition initial_manager :: "('t \<Rightarrow> bool) \<Rightarrow> ('k, 't) Manager \<Rightarrow> bool" where
  "initial_manager unused m \<longleftrightarrow> (\<exists>override user. m = portableManager override user)
     \<or> (\<exists>t user. unused t \<and> transportManager (Some t) user = Ok m)"

inductive app_reachable ::
  "('k, 't) Surroundings \<Rightarrow> ('t \<Rightarrow> 't \<Rightarrow> bool) \<Rightarrow> ('k, 't) Manager \<Rightarrow> ('k, 't) Manager SessionWorker \<Rightarrow> bool"
  for sr changes m where
  start: "newSessionWorker (Some m) tickInterval = Ok s \<Longrightarrow> app_reachable sr changes m s"
| step: "app_reachable sr changes m s \<Longrightarrow> worker_step (managerRuntime sr) s s' \<Longrightarrow> app_reachable sr changes m s'"
| network: "app_reachable sr changes m s \<Longrightarrow> mg_Transport (m_Runtime s) = Some t \<Longrightarrow> changes t t' \<Longrightarrow>
    app_reachable sr changes m (s\<lparr>m_Runtime := (m_Runtime s)\<lparr>mg_Transport := Some t'\<rparr>\<rparr>)"

text \<open>A manager that has not started its listener, or could not.\<close>

definition no_transport :: "('k, 't) Manager \<Rightarrow> bool" where
  "no_transport m \<longleftrightarrow> mg_Transport m = None \<and> mg_ActiveConnections m = [] \<and> mg_AcceptingConnection m = None
     \<and> \<not> mg_Fault m \<and> \<not> mg_ListeningForConnections m"

fun started_pc :: "WorkerPc \<Rightarrow> bool" where
  "started_pc AtSnapshot = True" | "started_pc AtPublish = True" | "started_pc AtLoop = True" | "started_pc AtTake = True"
| "started_pc (AtTaken cs) = True" | "started_pc (AtHandle cs) = True" | "started_pc AtTick = True" | "started_pc pc = False"

fun stopped_pc :: "WorkerPc \<Rightarrow> bool" where
  "stopped_pc AtLastSnapshot = True" | "stopped_pc AtPublishFinal = True" | "stopped_pc Finished = True" | "stopped_pc pc = False"

definition app_inv ::
  "('k, 't) Surroundings \<Rightarrow> ('t \<Rightarrow> bool) \<Rightarrow> ('t \<Rightarrow> bool) \<Rightarrow> ('t \<Rightarrow> 't \<Rightarrow> bool) \<Rightarrow> ('k, 't) Manager SessionWorker \<Rightarrow> bool" where
  "app_inv sr used unused changes s \<longleftrightarrow>
     (manager_inv sr used unused changes (m_Runtime s) \<and> all_live (m_Runtime s) \<or> no_transport (m_Runtime s) \<and> \<not> started_pc (w_pc s))
     \<and> (w_pc s = AtStart \<longrightarrow> \<not> mg_Started (m_Runtime s) \<and> mg_ActiveConnections (m_Runtime s) = []
          \<and> (if mg_UsesPortableBridge (m_Runtime s) then mg_Transport (m_Runtime s) = None
              else \<exists>t. mg_Transport (m_Runtime s) = Some t \<and> used t \<and> (unused t \<or> tState (sr_ops sr) t \<noteq> TransportState.Connected)))
     \<and> (stopped_pc (w_pc s) \<longrightarrow> mg_ActiveConnections (m_Runtime s) = [] \<and> \<not> mg_ListeningForConnections (m_Runtime s))"

lemma app_inv_runtime:
  "app_inv sr used unused changes s \<Longrightarrow> m_Runtime s' = m_Runtime s \<Longrightarrow> w_pc s' \<noteq> AtStart \<or> w_pc s = AtStart \<Longrightarrow>
   started_pc (w_pc s') \<longrightarrow> started_pc (w_pc s) \<Longrightarrow> stopped_pc (w_pc s') \<longrightarrow> stopped_pc (w_pc s) \<Longrightarrow>
   app_inv sr used unused changes s'"
  unfolding app_inv_def by auto

lemma failed_start:
  assumes "ManagerStart sr m = (Some e, m')"
  shows "mg_Transport m' = mg_Transport m \<and> kept m m' \<and> (mg_UsesPortableBridge m \<or> mg_Transport m' = mg_Transport m)"
  using assms
  by (auto simp: ManagerStart_def Let_def kept_def tick_def split: if_splits prod.splits bool.splits sum.splits)

lemma no_transport_stop: "no_transport m \<Longrightarrow> no_transport (ManagerStop sr m)"
  by (simp add: no_transport_def ManagerStop_def Let_def DisconnectConnections_def)

context manager_setting
begin

abbreviation app_ok :: "('k, 't) Manager SessionWorker \<Rightarrow> bool" where
  "app_ok \<equiv> app_inv sr used unused changes"

lemma start_step: "app_ok s \<Longrightarrow> w_pc s = AtStart \<Longrightarrow> app_ok (RunStep (managerRuntime sr) AtStart s)"
proof -
  let ?m = "m_Runtime s"
  assume inv: "app_ok s" and pc: "w_pc s = AtStart"
  have idle: "mg_ActiveConnections ?m = []" "mg_AcceptingConnection ?m = None" "\<not> mg_Fault ?m" "\<not> mg_Started ?m"
    using inv pc by (auto simp: app_inv_def manager_inv_def no_transport_def)
  obtain e m' where start: "ManagerStart sr ?m = (e, m')" by fastforce
  show ?thesis
  proof (cases e)
    case None
    then have "ready m' \<and> all_live m'" using ManagerStart_inv [of ?m m'] start idle inv pc by (auto simp: app_inv_def)
    then show ?thesis using start None by (simp add: call_def managerRuntime_def app_inv_def)
  next
    case (Some x)
    with failed_start [of sr ?m x m'] start have "mg_Transport m' = mg_Transport ?m" "kept ?m m'" by auto
    with inv pc manager_inv_kept [of sr used unused changes ?m m'] have "ready m' \<and> all_live m' \<or> no_transport m'"
      by (auto simp: app_inv_def no_transport_def all_live_def kept_def)
    then show ?thesis using start Some by (simp add: call_def managerRuntime_def CatchRun_def app_inv_def)
  qed
qed

lemma started: "app_ok s \<Longrightarrow> started_pc (w_pc s) \<Longrightarrow> ready (m_Runtime s) \<and> all_live (m_Runtime s)"
  by (auto simp: app_inv_def)

lemma RunStep_app: "app_ok s \<Longrightarrow> app_ok (RunStep (managerRuntime sr) (w_pc s) s)"
proof (cases "w_pc s")
  case AtStart
  assume "app_ok s"
  from start_step [OF this AtStart] show ?thesis by (simp add: AtStart)
next
  case (AtHandle commands)
  assume inv: "app_ok s"
  show ?thesis
  proof (cases commands)
    case Nil
    then show ?thesis using AtHandle inv by (auto intro!: app_inv_runtime [OF inv])
  next
    case (Cons c cs)
    have "ready (m_Runtime s) \<and> all_live (m_Runtime s)" using started [OF inv] AtHandle by simp
    with HandleCommand_inv [of "m_Runtime s" c] show ?thesis by (simp add: AtHandle Cons call_def managerRuntime_def app_inv_def)
  qed
next
  case AtTick
  assume inv: "app_ok s"
  have "ready (m_Runtime s) \<and> all_live (m_Runtime s)" using started [OF inv] AtTick by simp
  with ManagerTick_inv [of "m_Runtime s"] show ?thesis by (simp add: AtTick call_def managerRuntime_def app_inv_def)
next
  case AtStop
  assume inv: "app_ok s"
  let ?m = "ManagerStop sr (m_Runtime s)"
  have "(ready ?m \<and> all_live ?m \<or> no_transport ?m) \<and> mg_ActiveConnections ?m = [] \<and> \<not> mg_ListeningForConnections ?m"
    using inv AtStop ManagerStop_inv [of "m_Runtime s"] no_transport_stop [of "m_Runtime s" sr]
    by (auto simp: app_inv_def all_live_def no_transport_def)
  then show ?thesis by (simp add: AtStop call_def managerRuntime_def app_inv_def)
qed (simp_all add: takeSnapshot_def managerRuntime_def app_inv_def)

lemma app_reachable_inv:
  assumes "initial_manager unused m" shows "app_reachable sr changes m s \<Longrightarrow> app_ok s"
proof (induction rule: app_reachable.induct)
  case (start tickInterval s)
  then have s: "m_Runtime s = m" "w_pc s = AtStart" by (auto simp: newSessionWorker_def split: if_splits)
  from assms show ?case unfolding initial_manager_def
  proof (elim disjE exE conjE)
    fix override user
    assume "m = portableManager override user"
    then show ?thesis by (simp add: s app_inv_def portableManager_def no_transport_def)
  next
    fix t user
    assume "unused t" "transportManager (Some t) user = Ok m"
    then show ?thesis using unused_used
      by (auto simp: s app_inv_def transportManager_def portableManager_def manager_inv_def all_live_def)
  qed
next
  case (step s s')
  from step.hyps(2) step.IH show ?case
  proof (cases rule: worker_step.cases)
    case worker
    then show ?thesis using RunStep_app step.IH by simp
  qed (simp_all add: SubmitLocked_sel app_inv_def)
next
  case (network s t t')
  then show ?case
    using served_changes [of t _ t'] changes_used [of t t'] changes_free [of t t']
    by (auto simp: app_inv_def manager_inv_def all_live_def no_transport_def list_all_iff)
qed

end

section \<open>On the TCP transport\<close>

lemma tcp_unused_used: "tcp_unused tn \<Longrightarrow> tcp_used tn"
  by (induction rule: tcp_unused.induct) (auto intro: tcp_used.intros)

lemma tcp_changes_used: "tcp_used tn \<Longrightarrow> tcp_changes tn tn' \<Longrightarrow> tcp_used tn'"
  by (cases tn; cases tn') (auto simp: tcp_changes_def intro: tcp_used.network tcp_used.stopped)

lemma tcp_changes_free:
  assumes "tcp_unused tn \<or> tl_State (fst tn) \<noteq> TransportState.Connected" and "tcp_changes tn tn'"
  shows "tcp_unused tn' \<or> tl_State (fst tn') \<noteq> TransportState.Connected"
proof (cases "tn' = TcpStop tn")
  case False
  then show ?thesis using assms by (cases tn; cases tn') (auto simp: tcp_changes_def intro: tcp_unused.network)
qed (simp add: TcpStop_stopped)

interpretation tcp_serial: serial_transport tcp_ops tcp_used tcp_unused tcp_changes
proof
  show "tcp_unused (snd (tPollResults tcp_ops t))"
    if "tcp_used t" "tState tcp_ops t \<noteq> TransportState.Connected \<or> tState tcp_ops (snd (tPollResults tcp_ops t)) \<noteq> TransportState.Connected" for t
    using tcp_unused.released [of t] that by (simp add: tcp_ops_def)
  show "tcp_unused t' \<or> tState tcp_ops t' \<noteq> TransportState.Connected"
    if "tcp_unused t \<or> tState tcp_ops t \<noteq> TransportState.Connected" "tcp_changes t t'" for t t'
    using tcp_changes_free that by (simp add: tcp_ops_def)
qed (auto simp: tcp_ops_def tcp_changes_def tcp_unused_used intro: tcp_used.intros tcp_unused.polled tcp_changes_used)

text \<open>The constructor of a transport, on the network it finds at that moment: no socket is closed yet.\<close>

definition TcpListen :: "(nat \<Rightarrow> u16 \<Rightarrow> Network) \<Rightarrow> nat \<Rightarrow> u16 \<Rightarrow> Tcp result" where
  "TcpListen nets n p = (case newTcpLuaTransport ((nets n p)\<lparr>net_closed := []\<rparr>) of
     (Inl e, _) \<Rightarrow> Err e | (Inr t, net) \<Rightarrow> Ok (t, net))"

definition desktop :: "('k, Tcp) Surroundings \<Rightarrow> (nat \<Rightarrow> u16 \<Rightarrow> Network) \<Rightarrow> ('k, Tcp) Surroundings" where
  "desktop sr nets = sr\<lparr>sr_ops := tcp_ops, sr_listen := TcpListen nets\<rparr>"

interpretation desktop_app: manager_setting "desktop sr nets" tcp_used tcp_unused tcp_changes
  for sr :: "('k, Tcp) Surroundings" and nets
proof -
  have "TcpListen nets n p = Ok t \<Longrightarrow> tcp_unused t" for n p t
    by (auto simp: TcpListen_def split: prod.splits sum.splits intro: tcp_unused.created)
  then show "manager_setting (desktop sr nets) tcp_used tcp_unused tcp_changes"
    unfolding manager_setting_def manager_setting_axioms_def using tcp_serial.serial_transport_axioms by (simp add: desktop_def)
qed

lemma served_session:
  assumes "serving (desktop sr nets) tcp_unused tcp_changes t (i, W)"
  shows "session_inv (conn_owes tcp_inv) {#} {#} (enter t W)"
  using assms by (intro game_reachable_session) (simp add: serving_def desktop_def)

section \<open>Properties\<close>

text \<open>
  C1. The application serves one game at a time: whatever the threads, the network, the user's commands
  and the behaviours do, the manager never uses a transport it does not have, has at most one
  connection, listens only when it has none, keeps no disconnected connection between two calls, and
  every connection it has is a run of \<^verbatim>\<open>GameConnection\<close> that began on a transport owing nothing to an
  earlier one; when the worker has finished, no connection is left.
\<close>

theorem application_serves_one_game:
  assumes "initial_manager tcp_unused m" and "app_reachable (desktop sr nets) tcp_changes m s"
  shows "\<not> mg_Fault (m_Runtime s) \<and> length (mg_ActiveConnections (m_Runtime s)) \<le> 1
    \<and> (mg_ListeningForConnections (m_Runtime s) \<longrightarrow> mg_ActiveConnections (m_Runtime s) = [])
    \<and> list_all (\<lambda>(i, W). \<not> HasDisconnected (conn W) \<and> (\<exists>t. mg_Transport (m_Runtime s) = Some t
         \<and> game_reachable tcp_ops tcp_changes tcp_unused (sr_behaviours sr) (enter t W))) (mg_ActiveConnections (m_Runtime s))
    \<and> (w_pc s = Finished \<longrightarrow> mg_ActiveConnections (m_Runtime s) = [] \<and> \<not> mg_ListeningForConnections (m_Runtime s))"
proof -
  have "app_inv (desktop sr nets) tcp_used tcp_unused tcp_changes s"
    by (rule desktop_app.app_reachable_inv [OF assms])
  then show ?thesis
    by (auto simp: app_inv_def manager_inv_def no_transport_def all_live_def list_all_iff serving_def desktop_def)
qed

text \<open>
  C2. No connection gets another's answers: in the whole application the transport owes exactly the
  requests that the connection now served waits for, at most 256, and every request this connection
  had accepted before has had its completion called once.
\<close>

theorem application_answers_once:
  assumes "initial_manager tcp_unused m" and "app_reachable (desktop sr nets) tcp_changes m s"
    and "(i, W) \<in> set (mg_ActiveConnections (m_Runtime s))" and "mg_Transport (m_Runtime s) = Some t"
  shows "accepted_callbacks (sw_events W)
      = completed_callbacks (sw_events W) + mset (map (\<lambda>(rid, p). (rid, sp_completion p)) (gs_Pending (sw_session W)))
    \<and> length (gs_Pending (sw_session W)) \<le> 256
    \<and> (\<not> gs_Stopped (sw_session W) \<longrightarrow>
         tcp_inv t (mset (map (\<lambda>(rid, p). (rid, sp_operation p, sp_expectedSize p)) (gs_Pending (sw_session W)))))"
proof -
  have "app_inv (desktop sr nets) tcp_used tcp_unused tcp_changes s"
    by (rule desktop_app.app_reachable_inv [OF assms(1,2)])
  then have "serving (desktop sr nets) tcp_unused tcp_changes t (i, W)"
    using assms(3,4) by (auto simp: app_inv_def manager_inv_def no_transport_def list_all_iff)
  from served_session [OF this] have inv: "session_inv (conn_owes tcp_inv) {#} {#} (enter t W)" .
  have callback: "(\<lambda>(rid, p). (rid, sp_completion p)) = pending_callback" by (auto simp: pending_callback_def)
  have key: "(\<lambda>(rid, p). (rid, sp_operation p, sp_expectedSize p)) = pending_key" by (auto simp: pending_key_def)
  show ?thesis unfolding callback key using inv by (auto simp: session_inv_def conn_owes_def enter_def)
qed

end
