(* ===== verification/ManagerExample.thy ===== *)
theory ManagerExample
  imports ManagerProps
begin

text \<open>
  A run of the whole application: the worker starts the manager, the manager's transport has taken a
  client with the supported hello, and the first tick serves it.
\<close>

section \<open>The transport\<close>

lemma connected_unused: "tcp_unused connectedTransport"
proof -
  let ?t = "projr (fst (newTcpLuaTransport callingNetwork))"
  have "newTcpLuaTransport callingNetwork = (Ok ?t, snd (newTcpLuaTransport callingNetwork))" by (simp add: calling_network)
  then have "tcp_unused (?t, snd (newTcpLuaTransport callingNetwork))"
    by (rule tcp_unused.created) (simp add: callingNetwork_def exampleNetwork_def)
  from tcp_unused.polled [OF this] show ?thesis by (simp add: connectedTransport_def case_prod_unfold)
qed

section \<open>The first update of a connection\<close>

lemma first_update_live:
  assumes "quiet tn" and "startGameConnection (Some tn) c_10UPS = Ok W"
  shows "\<not> HasDisconnected (conn (GameUpdate tcp_ops idleBehaviours currentTime W))"
proof -
  have W: "W = \<lparr>sw_session = \<lparr>gs_Pending = [], gs_NextRequestId = 1, gs_ProtocolErrorCount = 0, gs_Stopped = False\<rparr>,
      sw_transport = (tn, newGameConnection c_10UPS), sw_events = []\<rparr>"
    using assms(2) by (simp add: startGameConnection_def newGameSession_def)
  have invalid: "\<not> AreHeadersValid newObservedGameMemory"
    by (simp add: AreHeadersValid_def newObservedGameMemory_def newStruct_def invalid_new)
  have valid: "ValidateMemoryRequest \<lparr>mr_id = 1, mr_operation = Read, mr_address = 0x08000100, mr_data = [], mr_readSize = 260\<rparr> = MsOk"
    by (simp add: ValidateMemoryRequest_def IsRangeAllowed_readable gba_regions_def MaximumMemoryPayloadSize_def)
  have poll: "TcpPollResults tn = ([], tn)" "tl_State (fst tn) = TransportState.Connected"
    using quiet_poll [OF assms(1)] assms(1) by (simp_all add: quiet_def)
  obtain accepted u where submit: "TcpSubmit \<lparr>mr_id = 1, mr_operation = Read, mr_address = 0x08000100, mr_data = [], mr_readSize = 260\<rparr> tn
      = (accepted, u)" by (metis surj_pair)
  show ?thesis
    by (cases accepted)
      (simp_all add: GameUpdate_def W Let_def SessionPoll_def game_ops_def tcp_ops_def poll submit conn_def
        HasDisconnected_def Accept_def newGameConnection_def AddBehaviour_def happen_def onConn_def TimerUpdate_first
        UpdateDue_def IsReady_def CanSubmit_def MaximumOutstandingMemoryRequests_def UpdateObserved_def first_effects
        GameReadRequest_def SessionRead_def SessionSubmit_def AllocateRequestId_def first_request_id valid
        CallOnUpdate_def CommonOnUpdate_def IsMemoryReadable_def invalid idleBehaviours_def)
qed

section \<open>The application serves the client\<close>

definition exampleSurroundings :: "(unit, Tcp) Surroundings" where
  "exampleSurroundings = \<lparr>sr_ops = tcp_ops, sr_behaviours = idleBehaviours, sr_listen = (\<lambda>n p. Err ''''), sr_clock = (\<lambda>n. 0),
     sr_multiplayer = (\<lambda>n i ref. newMultiplayerBehaviour), sr_homeBox = (\<lambda>n i ref. HomeOnAttach), sr_system = exampleSystem,
     sr_listing = Ok []\<rparr>"

definition exampleApp :: "(unit, Tcp) Surroundings" where
  "exampleApp = desktop exampleSurroundings (\<lambda>n p. exampleNetwork)"

definition exampleManager :: "(unit, Tcp) Manager" where
  "exampleManager = projr (transportManager (Some connectedTransport) (initialUserData, emptyDisk []))"

lemma example_initial: "initial_manager tcp_unused exampleManager"
  unfolding initial_manager_def using connected_unused
  by (intro disjI2 exI [of _ connectedTransport] exI [of _ "(initialUserData, emptyDisk [])"]) (simp add: exampleManager_def transportManager_def)

lemma example_start:
  "\<exists>m. ManagerStart exampleApp exampleManager = (None, m) \<and> mg_Transport m = Some connectedTransport \<and> mg_ActiveConnections m = []
     \<and> mg_AcceptingConnection m = None \<and> mg_ListeningForConnections m \<and> mg_Started m"
proof -
  obtain u d where "UserDataInit exampleSystem (Ok []) 0 (initialUserData, emptyDisk []) = (True, u, d)"
    using example_init [of "Ok []" 0] by blast
  then show ?thesis
    by (simp add: ManagerStart_def exampleApp_def desktop_def exampleSurroundings_def exampleManager_def transportManager_def
        portableManager_def tick_def)
qed

lemma example_tick:
  assumes "mg_Transport m = Some connectedTransport" "mg_ActiveConnections m = []" "mg_AcceptingConnection m = None"
    "mg_ListeningForConnections m" "mg_Started m"
  shows "\<exists>W t. mg_ActiveConnections (ManagerTick exampleApp m) = [(mg_NextConnectionId m, W)] \<and> mg_Transport (ManagerTick exampleApp m) = Some t"
proof -
  obtain W :: "(unit, Tcp) GameWorld" where W: "startGameConnection (Some connectedTransport) c_10UPS = Ok W"
    by (simp add: startGameConnection_def newGameSession_def)
  then have enter: "enter connectedTransport W = W"
    by (auto simp: startGameConnection_def newGameSession_def enter_def conn_def)
  have state: "tState tcp_ops connectedTransport = TransportState.Connected" "tPollResults tcp_ops connectedTransport = ([], connectedTransport)"
    using connected_quiet quiet_poll [OF connected_quiet] by (simp_all add: quiet_def tcp_ops_def)
  have app: "sr_ops exampleApp = tcp_ops" "sr_behaviours exampleApp = idleBehaviours"
    by (simp_all add: exampleApp_def desktop_def exampleSurroundings_def)
  let ?n = "PromoteGame (AcceptGame exampleApp (PollIdle exampleApp m))"
  have n: "mg_ActiveConnections ?n = [(mg_NextConnectionId m, W)]" "mg_Transport ?n = Some connectedTransport"
    using assms W by (simp_all add: PollIdle_def AcceptGame_def PromoteGame_def app state)
  let ?update = "GameUpdate tcp_ops idleBehaviours (sr_clock exampleApp (mg_Time ?n))"
  have t: "mg_Transport (tick ?n) = Some connectedTransport" using n by (simp add: tick_def)
  obtain e where "onGame ?update W (tick ?n)
      = (?update W, (tick ?n)\<lparr>mg_Transport := Some (fst (sw_transport (?update W))), mg_RecentError := e\<rparr>)"
    using onGame_eq [OF t, of ?update W] unfolding enter by blast
  moreover have "\<not> HasDisconnected (conn (?update W))" using first_update_live [OF connected_quiet W] .
  ultimately show ?thesis using assms(5) n by (simp add: ManagerTick_def UpdateConnections_def Let_def app)
qed

text \<open>The worker at \<open>pc\<close>, running the manager \<open>m\<close>, with no command and no stop request.\<close>

definition worker_at :: "WorkerPc \<Rightarrow> (unit, Tcp) Manager \<Rightarrow> bool" where
  "worker_at pc m \<longleftrightarrow> (\<exists>s. app_reachable exampleApp tcp_changes exampleManager s \<and> m_Runtime s = m \<and> w_pc s = pc
     \<and> \<not> stop_requested s \<and> m_Commands s = [])"

lemma worker_at_step:
  assumes "worker_at pc m" and "pc \<noteq> Finished"
    and "\<And>s. m_Runtime s = m \<Longrightarrow> \<not> stop_requested s \<Longrightarrow> m_Commands s = [] \<Longrightarrow>
      m_Runtime (RunStep (managerRuntime exampleApp) pc s) = m' \<and> w_pc (RunStep (managerRuntime exampleApp) pc s) = pc'
      \<and> \<not> stop_requested (RunStep (managerRuntime exampleApp) pc s) \<and> m_Commands (RunStep (managerRuntime exampleApp) pc s) = []"
  shows "worker_at pc' m'"
proof -
  obtain s where s: "app_reachable exampleApp tcp_changes exampleManager s" "m_Runtime s = m" "w_pc s = pc"
      "\<not> stop_requested s" "m_Commands s = []" using assms(1) by (auto simp: worker_at_def)
  have "worker_step (managerRuntime exampleApp) s (RunStep (managerRuntime exampleApp) (w_pc s) s)"
    by (rule worker_step.worker) (simp add: s(3) assms(2))
  from app_reachable.step [OF s(1) this] assms(3) [OF s(2,4,5)] show ?thesis unfolding worker_at_def s(3) by blast
qed

lemma served_run:
  "\<exists>s i W t. app_reachable exampleApp tcp_changes exampleManager s \<and> mg_ActiveConnections (m_Runtime s) = [(i, W)]
     \<and> mg_Transport (m_Runtime s) = Some t"
proof -
  obtain m where m: "ManagerStart exampleApp exampleManager = (None, m)" "mg_Transport m = Some connectedTransport"
      "mg_ActiveConnections m = []" "mg_AcceptingConnection m = None" "mg_ListeningForConnections m" "mg_Started m"
    using example_start by blast
  from example_tick [OF m(2-6)] obtain W t where
    ticked: "mg_ActiveConnections (ManagerTick exampleApp m) = [(mg_NextConnectionId m, W)]" "mg_Transport (ManagerTick exampleApp m) = Some t"
    by blast
  have "app_reachable exampleApp tcp_changes exampleManager (projr (newSessionWorker (Some exampleManager) 1))"
    by (rule app_reachable.start [where tickInterval = 1]) (simp add: newSessionWorker_def)
  then have "worker_at AtStart exampleManager"
    unfolding worker_at_def by (rule exI [of _ "projr (newSessionWorker (Some exampleManager) 1)", OF conjI]) (simp add: newSessionWorker_def)
  then have "worker_at AtSnapshot m" by (rule worker_at_step) (simp_all add: call_def managerRuntime_def m(1))
  then have "worker_at AtPublish m" by (rule worker_at_step) (simp_all add: takeSnapshot_def managerRuntime_def)
  then have "worker_at AtLoop m" by (rule worker_at_step) simp_all
  then have "worker_at AtTake m" by (rule worker_at_step) simp_all
  then have "worker_at (AtTaken []) m" by (rule worker_at_step) simp_all
  then have "worker_at (AtHandle []) m" by (rule worker_at_step) simp_all
  then have "worker_at AtTick m" by (rule worker_at_step) simp_all
  then have "worker_at AtSnapshot (ManagerTick exampleApp m)" by (rule worker_at_step) (simp_all add: call_def managerRuntime_def)
  then obtain s where "app_reachable exampleApp tcp_changes exampleManager s" "m_Runtime s = ManagerTick exampleApp m"
    by (auto simp: worker_at_def)
  with ticked show ?thesis by metis
qed

section \<open>Properties at the example\<close>

theorem application_serves_one_game_witness:
  "\<exists>s W. app_reachable exampleApp tcp_changes exampleManager s \<and> (\<exists>i. mg_ActiveConnections (m_Runtime s) = [(i, W)])
     \<and> \<not> mg_ListeningForConnections (m_Runtime s) \<and> \<not> HasDisconnected (conn W)"
proof -
  obtain s i W where s: "app_reachable exampleApp tcp_changes exampleManager s" "mg_ActiveConnections (m_Runtime s) = [(i, W)]"
    using served_run by blast
  from application_serves_one_game [OF example_initial s(1) [unfolded exampleApp_def]] s show ?thesis by (auto simp: list_all_iff)
qed

theorem application_answers_once_witness:
  "\<exists>s i W t. mg_ActiveConnections (m_Runtime s) = [(i, W)] \<and> mg_Transport (m_Runtime s) = Some t
     \<and> app_reachable exampleApp tcp_changes exampleManager s \<and> length (gs_Pending (sw_session W)) \<le> 256"
proof -
  obtain s i W t where s: "app_reachable exampleApp tcp_changes exampleManager s" "mg_ActiveConnections (m_Runtime s) = [(i, W)]"
      "mg_Transport (m_Runtime s) = Some t" using served_run by blast
  from application_answers_once [OF example_initial s(1) [unfolded exampleApp_def] _ s(3), of i W] s(2)
  have "length (gs_Pending (sw_session W)) \<le> 256" by simp
  with s show ?thesis by metis
qed

end
