(* ===== verification/Spec2Isabelle.thy ===== *)
theory Spec2Isabelle
  imports SessionBridge BridgeStream HomeBoxProps HomeBoxFile MultiplayerProtocol CommandLine BridgeScript
    Configuration GameStrings Timer DataStream HomeBoxExample SessionWorker MultiplayerExample
    ManagerExample
begin

text \<open>
  Rogue Assistant is a C++ application that serves a game running in the mGBA emulator: a Lua script in
  the emulator opens a TCP connection to it, over which it reads and writes the memory of the game.
  Through that memory it offers the game two services, multiplayer over ENet and a file of Pokemon
  boxes (the Home Box). All sources named here lie under \<^verbatim>\<open>src/RogueAssistantCpp/\<close>.

  \<^bold>\<open>How the parts interact\<close>

  \<^item> The window submits commands and reads snapshots. A worker thread (\<^verbatim>\<open>SessionWorker\<close>) owns the runtime
    (\<^verbatim>\<open>GameConnectionManager\<close>) and calls it: start, commands, ticks, snapshot, stop.
  \<^item> A tick of the manager polls the transport (\<^verbatim>\<open>TcpLuaTransport\<close>), makes a \<^verbatim>\<open>GameConnection\<close> of a
    client that said a supported hello, updates it and removes it when it has disconnected.
  \<^item> A connection has a \<^verbatim>\<open>GameSession\<close> (a table of requests and their completions) on the shared
    transport, the copies of game memory (\<^verbatim>\<open>ObservedGameMemory\<close>) and a list of behaviours; the common
    behaviour attaches and removes the multiplayer and the Home Box behaviour as the game asks.
  \<^item> The transport encodes requests as frames (\<^verbatim>\<open>FrameWriter\<close>), decodes the answers (\<^verbatim>\<open>FrameDecoder\<close>) and
    hands out one result for each accepted request.

  \<^bold>\<open>Which theory models what\<close>

  Basics. \<open>Prelude\<close>: machine integers, results (\<open>Err\<close> or \<open>Ok\<close>), \<open>andThen\<close> for a function that returns
  early with an error, lemmas on lists and maps. \<open>Codec\<close>: the contract of an encoder and its decoder, as a
  locale with interpretations for every message and file of the program. \<open>Endian\<close> (\<^verbatim>\<open>Inc/Endian.h\<close>),
  \<open>Cursor\<close>, \<open>ByteSource\<close>, \<open>StdString\<close> (what is used of the standard library on text), \<open>Utf8\<close>
  (\<^verbatim>\<open>Src/Platform/Utf8.cpp\<close>), \<open>DataStream\<close>, \<open>Timer\<close>.

  The bridge (\<^verbatim>\<open>Src/Bridge/\<close>). \<open>BridgeFrame\<close>, \<open>FrameDecoder\<close> and \<open>FrameWriter\<close> model
  \<^verbatim>\<open>BridgeProtocol.cpp\<close>, \<open>BridgeStream\<close> joins the two ends; \<open>GameMemory\<close> is \<^verbatim>\<open>GameMemoryTransport.cpp\<close>
  with the contract \<open>memory_transport\<close> of a transport; \<open>GameSession\<close> is \<^verbatim>\<open>GameSession.cpp\<close> over any such
  transport, and over one that may return anything; \<open>TcpSocket\<close>, \<open>TcpLuaTransport\<close>, \<open>TcpTransportInv\<close>,
  \<open>TcpIdle\<close>, \<open>TcpTransportProps\<close> and \<open>TcpExample\<close> are the TCP transport, which is shown to keep the
  contract; \<open>SessionBridge\<close> composes session and transport.

  The game. \<open>GameData\<close> (\<^verbatim>\<open>Inc/GameData.h\<close>, \<^verbatim>\<open>Inc/GameConnectionMessage.h\<close>), \<open>GameStrings\<close>
  (\<^verbatim>\<open>Src/GameData.cpp\<close>), \<open>ObservedMemory\<close> (\<^verbatim>\<open>Src/ObservedGameMemory.cpp\<close>), \<open>GameConnection\<close>
  (\<^verbatim>\<open>Src/GameConnection.cpp\<close>, \<^verbatim>\<open>Src/Behaviours/CommonBehaviour.cpp\<close>) with \<open>GameLifecycle\<close>, \<open>GameProps\<close>,
  \<open>GameBridge\<close> and \<open>GameExample\<close>.

  The Home Box. \<open>HomeBoxFormat\<close>, \<open>HomeBoxProps\<close> and \<open>HomeBoxFile\<close> (\<^verbatim>\<open>Src/Storage/HomeBoxFile.cpp\<close>);
  \<open>HomeBoxBehaviour\<close> and \<open>HomeBoxUpdate\<close> (\<^verbatim>\<open>Src/Behaviours/HomeBoxBehaviour.cpp\<close>) with \<open>HomeBoxSafety\<close>,
  \<open>HomeBoxOrder\<close> and \<open>HomeBoxExample\<close>.

  Multiplayer. \<open>MultiplayerProtocol\<close> (\<^verbatim>\<open>Src/Multiplayer/MultiplayerProtocol.cpp\<close>); \<open>MultiplayerData\<close> and
  \<open>MultiplayerUpdate\<close> (\<^verbatim>\<open>Src/Behaviours/MultiplayerBehaviour.cpp\<close>) with \<open>MultiplayerSteps\<close>,
  \<open>MultiplayerInv\<close>, \<open>MultiplayerSafety\<close>, \<open>MultiplayerProps\<close> and \<open>MultiplayerExample\<close>.

  The platform (\<^verbatim>\<open>Src/Platform/\<close>). \<open>FileSystem\<close> (\<^verbatim>\<open>FileSystem.cpp\<close>) with its contract in \<open>FileStore\<close>,
  \<open>Configuration\<close>, \<open>AppPaths\<close>, \<open>BridgeScript\<close>, and \<open>UserData\<close> (\<^verbatim>\<open>Src/UserData.cpp\<close>).

  The application. \<open>CommandLine\<close>, \<open>UiModel\<close> and \<open>SessionWorker\<close> (\<^verbatim>\<open>Src/Application/\<close>),
  \<open>ConnectionManager\<close> (\<^verbatim>\<open>Src/GameConnectionManager.cpp\<close>, \<^verbatim>\<open>Src/Platform/ResourceLocator.cpp\<close>), with
  \<open>ManagerProps\<close> and \<open>ManagerExample\<close>: worker, manager, connection, session and transport together.

  \<^bold>\<open>How state and code correspond\<close>

  A class is a record of its members, a member function a definition of the same name from the record
  to its result and the new record; a loop is a function of its own next to it. Effects of the
  surroundings are explicit: a \<open>Network\<close> and a \<open>Disk\<close> hold what the operating system will answer, in
  order, and what the program did to it; \<open>SessionWorld\<close> holds a session, its transport and the history of
  completions; \<open>GameWorld\<close> is one with the connection beside the transport. A callback is a value that
  says which completion it is, and one function runs it, so a callback may call the session again: the
  theorems on sessions alone let each completion run any script of calls (\<open>runScripts\<close>).
  A behaviour of a connection is a script of calls on it, whose answers choose the next call; the theorems
  hold for all scripts. Threads are a step relation with one transition per access to shared state. A
  failing allocation is not modelled.

  \<^bold>\<open>What the lemmas show\<close>

  Codecs: exactly the valid messages are accepted, and come back. Bridge: frames cross any cut of the
  stream; the transport answers what it accepted with the bytes it was sent, loses no socket and connects
  only a supported script; the session completes every accepted request once, and hands no completion a
  result of the wrong size even when the transport is not to be trusted. Connection: callbacks of
  behaviours come in order, a disconnect is complete for all that was attached before it. Files: an
  update of a file is atomic at every moment of a crash, the Home Box file recovers the old or the new
  data, settings are not overwritten when they could not be read. Behaviours: no access of the Home Box
  leaves an array, no box is lost; multiplayer writes only where its role permits, admits only
  compatible peers, and is memory safe as long as the session rejects only invalid writes and the state
  lies in memory that may be written. Worker: commands in order, snapshots numbered, stopping
  ends. Application: one game at a time, and no connection gets answers of another.

  Interfaces are locales: \<open>partial_codec\<close>, \<open>byte_source\<close>, \<open>memory_transport\<close>, \<open>file_store\<close> for the
  contracts between components, \<open>session_invariant\<close> for what a session keeps whatever its completions do,
  \<open>completion_property\<close> to \<open>session_property\<close> for what the operations of a
  connection keep, \<open>serial_transport\<close> and \<open>manager_setting\<close> for the manager. Each is interpreted on the
  definitions of the code.

  Where the code does something else than it means to, a theorem says so:
  \<open>stop_close_lost_after_partial_frame\<close>, \<open>settings_with_equals_sign_lost\<close>, \<open>multiplayer_poll_after_close\<close> and
  \<open>attach_after_disconnect\<close>.

  \<^bold>\<open>Bounds and fuel\<close>

  Integers of the code are words of their width; sizes (\<^verbatim>\<open>size_t\<close>) are natural numbers, and a subtraction
  or addition that could leave 64 bits is shown not to, or written with \<open>size_sub\<close>. Clock readings are
  integers, \<open>timer_no_overflow\<close> bounds them. All loops are total functions; only the nesting of
  completions in each other has fuel. \<open>runScripts\<close> has the depth as a parameter, and the theorems hold for
  every depth. For \<open>RunCompletion\<close>, the completions of a connection: a completion can disconnect, which runs the other
  completions once on a connection that is disconnected already and changes nothing, so depth 2 is
  enough (\<open>completion_depth\<close>).

  \<^bold>\<open>Not modelled\<close>

  \<^item> The window (\<^verbatim>\<open>Src/UI/\<close>, \<^verbatim>\<open>Inc/UI/\<close> but \<^verbatim>\<open>RefreshState.h\<close>) and \<^verbatim>\<open>Src/DesktopMain.cpp\<close>: calls of SFML.
    \<^verbatim>\<open>Src/Application/Application.cpp\<close> only forwards to the worker.
  \<^item> The log (\<^verbatim>\<open>Src/Log.cpp\<close>) and every log message: output that nothing reads back.
  \<^item> ENet, the standard library's file system and streams, and the system calls below \<^verbatim>\<open>TcpSocket.cpp\<close>: code
    outside the repository. Their answers are arbitrary; listening, connecting and the path of the
    executable are one answer each. So are the conversions between \<^verbatim>\<open>std::filesystem::path\<close> and UTF-8.
  \<^item> \<^verbatim>\<open>RevealDirectory\<close>, \<^verbatim>\<open>ResourceLocator::Exists\<close> and the helpers of \<^verbatim>\<open>UserData.cpp\<close> that open streams: single
    calls of the platform.
  \<^item> \<^verbatim>\<open>Inc/StringUtils.h\<close>, vendored: of it only \<^verbatim>\<open>trim\<close> is used, and modelled in \<open>MultiplayerUpdate\<close>.
  \<^item> The Lua script: it runs in the emulator, and its bytes are arbitrary here.
  \<^item> In \<open>ConnectionManager\<close>, the multiplayer and Home Box objects of a connection are asked of the
    surroundings rather than run: their own theories model them on the observed memory, with any answer
    of the connection.
\<close>

end
